(* ===== verification/Prelude.thy ===== *)
theory Prelude
  imports Main
begin

text \<open>
  Shared vocabulary of the development: primary keys and instants as unbounded integers (the
  program is Python), fallible computations as values of a sum type, and database tables as
  lists of rows in primary-key order.  The locale \<open>row_store\<close> is the contract that every
  component relies on when it re-reads a row it has just saved; it is interpreted on the list
  tables below for an arbitrary key function.
\<close>

type_synonym pk = int
type_synonym instant = int

named_theorems result_simps \<open>elimination of error results\<close>
named_theorems row_simps \<open>reading rows after saves\<close>

section \<open>Fallible computations\<close>

text \<open>\<open>bindE\<close> runs the continuation on a value and propagates a raised error unchanged, as an
  uncaught Python exception does.\<close>

definition bindE :: "'e + 'a \<Rightarrow> ('a \<Rightarrow> 'e + 'b) \<Rightarrow> 'e + 'b" where
  "bindE m f = (case m of Inl e \<Rightarrow> Inl e | Inr x \<Rightarrow> f x)"

text \<open>\<open>require c e\<close> is the guard \<open>if not c: raise e\<close>.\<close>

definition require :: "bool \<Rightarrow> 'e \<Rightarrow> 'e + unit" where
  "require c e = (if c then Inr () else Inl e)"

lemma bindE_Inl [simp]: "bindE (Inl e) f = Inl e"
  by (simp add: bindE_def)

lemma bindE_Inr [simp]: "bindE (Inr x) f = f x"
  by (simp add: bindE_def)

lemma bindE_eq_Inr [result_simps]: "bindE m f = Inr y \<longleftrightarrow> (\<exists>x. m = Inr x \<and> f x = Inr y)"
  by (cases m) auto

lemma bindE_eq_Inl [result_simps]:
  "bindE m f = Inl e \<longleftrightarrow> m = Inl e \<or> (\<exists>x. m = Inr x \<and> f x = Inl e)"
  by (cases m) auto

lemma require_eq_Inr [result_simps]: "require c e = Inr u \<longleftrightarrow> c"
  by (simp add: require_def)

lemma require_eq_Inl [result_simps]: "require c e = Inl e' \<longleftrightarrow> \<not> c \<and> e' = e"
  by (auto simp: require_def)

lemma require_True [simp]: "require True e = Inr ()"
  by (simp add: require_def)

lemma require_False [simp]: "require False e = Inl e"
  by (simp add: require_def)

lemma map_sum_eq_Inr: "map_sum (\<lambda>e. e) f m = Inr z \<longleftrightarrow> (\<exists>x. m = Inr x \<and> f x = z)"
  by (cases m) auto

lemma bindE_thenD: "bindE m (\<lambda>_. n) = Inr z \<Longrightarrow> n = Inr z"
  by (auto simp: bindE_eq_Inr)

lemma if_errorD: "(if b then Inl e else m) = Inr z \<Longrightarrow> m = Inr z"
  by (simp split: if_splits)

lemma bindE_pairD: "bindE m (\<lambda>(x, y). f x y) = Inr z \<Longrightarrow> \<exists>x y. m = Inr (x, y) \<and> f x y = Inr z"
  by (cases m) auto

subsection \<open>Runs over a list\<close>

text \<open>Running a step for each row of a list, in order; the first error ends the run.\<close>

fun each :: "('a \<Rightarrow> 's \<Rightarrow> 'e + 's) \<Rightarrow> 'a list \<Rightarrow> 's \<Rightarrow> 'e + 's" where
  "each f [] s = Inr s"
| "each f (x # xs) s = bindE (f x s) (each f xs)"

text \<open>A step relation that is reflexive and transitive holds across a run if it holds across each step.\<close>

locale step_relation =
  fixes R :: "'s \<Rightarrow> 's \<Rightarrow> bool"
  assumes refl: "R s s" and trans: "R s t \<Longrightarrow> R t u \<Longrightarrow> R s u"
begin

lemma each_rel: "(\<And>x s s'. x \<in> set xs \<Longrightarrow> f x s = Inr s' \<Longrightarrow> R s s') \<Longrightarrow> each f xs s = Inr s' \<Longrightarrow> R s s'"
proof (induction xs arbitrary: s)
  case (Cons x xs)
  then obtain s1 where one: "f x s = Inr s1" and rest: "each f xs s1 = Inr s'" by (auto simp: bindE_eq_Inr)
  have "R s s1" using Cons.prems(1)[OF _ one] by simp
  moreover have "R s1 s'" by (rule Cons.IH[OF _ rest], rule Cons.prems(1)) simp_all
  ultimately show ?case by (rule trans)
qed (simp add: refl)

lemma bind_rel: "bindE m f = Inr s' \<Longrightarrow> (\<And>t. m = Inr t \<Longrightarrow> R s t) \<Longrightarrow> (\<And>t. f t = Inr s' \<Longrightarrow> R t s') \<Longrightarrow> R s s'"
  using trans by (auto simp: bindE_eq_Inr)

end

section \<open>Tables\<close>

definition find_row :: "('r \<Rightarrow> pk) \<Rightarrow> pk \<Rightarrow> 'r list \<Rightarrow> 'r option" where
  "find_row key k rows = List.find (\<lambda>r. key r = k) rows"

definition save_row :: "('r \<Rightarrow> pk) \<Rightarrow> 'r \<Rightarrow> 'r list \<Rightarrow> 'r list" where
  "save_row key r rows = map (\<lambda>x. if key x = key r then r else x) rows"

definition keyed :: "('r \<Rightarrow> pk) \<Rightarrow> 'r list \<Rightarrow> bool" where
  "keyed key rows = distinct (map key rows)"

lemma find_row_Nil [simp]: "find_row key k [] = None"
  by (simp add: find_row_def)

lemma find_row_Cons [simp]:
  "find_row key k (r # rs) = (if key r = k then Some r else find_row key k rs)"
  by (simp add: find_row_def)

lemma find_row_append: "find_row key k (xs @ ys) = (case find_row key k xs of Some r \<Rightarrow> Some r | None \<Rightarrow> find_row key k ys)"
  by (induction xs) auto

lemma find_row_SomeD: "find_row key k rows = Some r \<Longrightarrow> r \<in> set rows \<and> key r = k"
  by (induction rows) (auto split: if_splits)

lemma find_row_None_iff: "find_row key k rows = None \<longleftrightarrow> k \<notin> key ` set rows"
  by (induction rows) auto

lemma find_row_mem: "keyed key rows \<Longrightarrow> r \<in> set rows \<Longrightarrow> find_row key (key r) rows = Some r"
  by (induction rows) (auto simp: keyed_def)

lemma find_row_iff:
  "keyed key rows \<Longrightarrow> find_row key k rows = Some r \<longleftrightarrow> r \<in> set rows \<and> key r = k"
  using find_row_SomeD find_row_mem by metis

lemma keyed_inj: "keyed key rows \<Longrightarrow> r \<in> set rows \<Longrightarrow> r' \<in> set rows \<Longrightarrow> key r = key r' \<longleftrightarrow> r = r'"
  by (auto simp: keyed_def distinct_map dest: inj_onD)

text \<open>A row selected by a predicate is found by its key alone, because keys are unique.\<close>

lemma key_in_filter:
  "keyed key rows \<Longrightarrow> r \<in> set rows \<Longrightarrow> key r \<in> set (map key (filter P rows)) \<longleftrightarrow> P r"
  by (auto simp: keyed_inj)

lemma keyed_ex_iff:
  "keyed key rows \<Longrightarrow> r \<in> set rows \<Longrightarrow> (\<exists>x \<in> set rows. key x = key r \<and> P x) \<longleftrightarrow> P r"
  by (auto simp: keyed_inj)

lemma map_key_save_row [row_simps, simp]: "map key (save_row key r rows) = map key rows"
  by (induction rows) (auto simp: save_row_def)

lemma keyed_save_row [row_simps, simp]: "keyed key (save_row key r rows) = keyed key rows"
  by (simp add: keyed_def)

lemma find_row_save_row [row_simps]:
  "find_row key k (save_row key r rows) =
     (if k = key r \<and> find_row key k rows \<noteq> None then Some r else find_row key k rows)"
  by (induction rows) (auto simp: save_row_def)

lemma set_save_row_subset: "x \<in> set (save_row key r rows) \<Longrightarrow> x = r \<or> (x \<in> set rows \<and> key x \<noteq> key r)"
  by (auto simp: save_row_def split: if_splits)

lemma mem_save_row:
  "key r \<in> key ` set rows \<Longrightarrow> x \<in> set (save_row key r rows) \<longleftrightarrow> x = r \<or> (x \<in> set rows \<and> key x \<noteq> key r)"
  by (auto simp: save_row_def)

lemma length_save_row [simp]: "length (save_row key r rows) = length rows"
  by (simp add: save_row_def)

lemma find_SomeD: "List.find P xs = Some x \<Longrightarrow> x \<in> set xs \<and> P x"
  by (auto simp: find_Some_iff)

lemma find_filter: "List.find P (filter Q xs) = List.find (\<lambda>x. Q x \<and> P x) xs"
  by (induction xs) auto

lemma find_cong_set: "(\<And>x. x \<in> set xs \<Longrightarrow> P x \<longleftrightarrow> Q x) \<Longrightarrow> List.find P xs = List.find Q xs"
  by (induction xs) auto

text \<open>When at most one row matches, the order of the rows does not matter.\<close>

lemma find_unique:
  assumes "set xs = set ys" "\<And>x y. x \<in> set xs \<Longrightarrow> y \<in> set xs \<Longrightarrow> P x \<Longrightarrow> P y \<Longrightarrow> x = y"
  shows "List.find P xs = List.find P ys"
proof (cases "List.find P xs")
  case None
  then have "\<forall>x \<in> set ys. \<not> P x" using assms(1) by (auto simp: find_None_iff)
  then have "List.find P ys = None" by (auto simp: find_None_iff)
  with None show ?thesis by simp
next
  case (Some x)
  note x = find_SomeD[OF Some]
  obtain y where y: "List.find P ys = Some y"
    using x assms(1) by (cases "List.find P ys") (auto simp: find_None_iff)
  with x find_SomeD[OF y] assms have "x = y" by blast
  with Some y show ?thesis by simp
qed

text \<open>The contract of a table with saved rows, as the clients of a table use it.\<close>

locale row_store =
  fixes get :: "pk \<Rightarrow> 't \<Rightarrow> 'r option"
    and put :: "'r \<Rightarrow> 't \<Rightarrow> 't"
    and key :: "'r \<Rightarrow> pk"
  assumes get_key: "get k t = Some r \<Longrightarrow> key r = k"
    and get_put: "get k (put r t) = (if k = key r \<and> get k t \<noteq> None then Some r else get k t)"
begin

lemma get_put_same: "get k t = Some r0 \<Longrightarrow> key r = k \<Longrightarrow> get k (put r t) = Some r"
  by (simp add: get_put)

lemma get_put_other: "k \<noteq> key r \<Longrightarrow> get k (put r t) = get k t"
  by (simp add: get_put)

lemma put_put: "key r = key r' \<Longrightarrow> get k (put r (put r' t)) = get k (put r t)"
  by (auto simp: get_put)

lemma present_put [simp]: "get k (put r t) = None \<longleftrightarrow> get k t = None"
  by (auto simp: get_put)

end

interpretation rows: row_store "find_row key" "save_row key" key for key :: "'r \<Rightarrow> pk"
  by unfold_locales (auto simp: find_row_save_row dest: find_row_SomeD)

section \<open>Optional values\<close>

text \<open>\<open>timestamp > now\<close> on a nullable database column: a NULL never satisfies a comparison.\<close>

definition after_opt :: "instant option \<Rightarrow> instant \<Rightarrow> bool" where
  "after_opt t now = (case t of None \<Rightarrow> False | Some x \<Rightarrow> x > now)"

lemma after_opt_simps [simp]: "after_opt None now = False" "after_opt (Some x) now = (x > now)"
  by (simp_all add: after_opt_def)

text \<open>The earlier of two optional expiries, \<open>None\<close> standing for no expiry.\<close>

definition earlier :: "instant option \<Rightarrow> instant option \<Rightarrow> instant option" where
  "earlier a b = (case b of None \<Rightarrow> a | Some y \<Rightarrow> (case a of None \<Rightarrow> Some y | Some x \<Rightarrow> if y < x then Some y else Some x))"

lemma earlier_None [simp]: "earlier a None = a"
  by (simp add: earlier_def)

lemma earlier_Some: "earlier a (Some y) = Some (case a of None \<Rightarrow> y | Some x \<Rightarrow> min x y)"
  by (auto simp: earlier_def min_def split: option.splits)

text \<open>\<open>valid_until is None or valid_until > now\<close>: what is not alive at a later instant was bounded by an
  expiry, and the earlier of two expiries is alive exactly while both are.\<close>

definition alive :: "instant option \<Rightarrow> instant \<Rightarrow> bool" where
  "alive t now \<longleftrightarrow> t = None \<or> after_opt t now"

lemma alive_simps [simp]: "alive None now" "alive (Some x) now \<longleftrightarrow> now < x"
  by (simp_all add: alive_def)

lemma alive_earlier [simp]: "alive (earlier a b) t \<longleftrightarrow> alive a t \<and> alive b t"
  by (cases a; cases b) (auto simp: earlier_def)

lemma alive_antimono: "alive v t' \<Longrightarrow> t \<le> t' \<Longrightarrow> alive v t"
  by (cases v) auto

end
