(* ===== verification/TenantGroups.thy ===== *)
theory TenantGroups
  imports Prelude
begin

text \<open>
  The tenant-group tree of \<^verbatim>\<open>core/tenant_scope.py\<close>, \<^verbatim>\<open>organization/services/access_scope.py\<close> and
  \<^verbatim>\<open>organization/models.py\<close> (\<open>TenantGroup.clean\<close>).  A group table is a list of rows; a set of
  ids that the code keeps in a Python \<open>set\<close> is a list read through \<^const>\<open>set\<close>.  The file
  holds the two breadth-first descendant walks, the ancestor walk and the cycle guard, shows that
  the walks compute reachability in the parent relation (also when the stored tree is cyclic), that
  the two directions agree, and that the cycle guard keeps the stored tree acyclic.
\<close>

section \<open>State\<close>

record tenant_group =
  tg_id :: pk
  tg_parent :: "pk option"
  tg_deleted :: "instant option"

definition tg_live :: "tenant_group \<Rightarrow> bool" where
  "tg_live g \<longleftrightarrow> tg_deleted g = None"

text \<open>\<open>**({"deleted_at__isnull": True} if live_only else {})\<close>\<close>

definition visible_groups :: "bool \<Rightarrow> tenant_group list \<Rightarrow> tenant_group list" where
  "visible_groups live_only rows = (if live_only then filter tg_live rows else rows)"

text \<open>The parent relation of a table, from parent to child.\<close>

definition group_edges :: "tenant_group list \<Rightarrow> (pk \<times> pk) set" where
  "group_edges rows = {(p, c). \<exists>r \<in> set rows. tg_parent r = Some p \<and> tg_id r = c}"

section \<open>Descendants\<close>

text \<open>One query of the walk: the rows whose parent is in the frontier and whose id is new.\<close>

definition child_ids :: "tenant_group list \<Rightarrow> pk list \<Rightarrow> pk list \<Rightarrow> pk list" where
  "child_ids rows frontier ids =
     map tg_id (filter (\<lambda>r. (case tg_parent r of None \<Rightarrow> False | Some p \<Rightarrow> p \<in> set frontier)
                            \<and> tg_id r \<notin> set ids) rows)"

lemma set_child_ids: "set (child_ids rows frontier ids) = group_edges rows `` set frontier - set ids"
  by (fastforce simp: child_ids_def group_edges_def split: option.splits)

lemma child_ids_in_rows: "set (child_ids rows frontier ids) \<subseteq> tg_id ` set rows - set ids"
  by (auto simp: child_ids_def)

lemma remaining_decreases:
  assumes "finite A" "x \<in> A" "x \<notin> B" "x \<in> C"
  shows "card (A - (B \<union> C)) < card (A - B)"
proof (rule psubset_card_mono)
  show "finite (A - B)" using assms by simp
  show "A - (B \<union> C) \<subset> A - B" using assms by blast
qed

function descend :: "tenant_group list \<Rightarrow> pk list \<Rightarrow> pk list \<Rightarrow> pk list" where
  "descend rows ids frontier =
     (if frontier = [] then ids
      else let children = child_ids rows frontier ids
           in if children = [] then ids else descend rows (ids @ children) children)"
  by pat_completeness auto
termination
proof (relation "measure (\<lambda>(rows, ids, _). card (tg_id ` set rows - set ids))", goal_cases)
  case 1
  then show ?case by simp
next
  case (2 rows ids frontier children)
  then have "last children \<in> set children" by simp
  then obtain x where x: "x \<in> set children" ..
  with 2 child_ids_in_rows[of rows frontier ids] have "x \<in> tg_id ` set rows" "x \<notin> set ids" by auto
  with x remaining_decreases[of "tg_id ` set rows" x "set ids" "set children"] show ?case by simp
qed

declare descend.simps [simp del]

type_synonym group_cache = "(pk \<times> bool) \<Rightarrow> pk list option"

definition live_group_exists :: "tenant_group list \<Rightarrow> pk \<Rightarrow> bool" where
  "live_group_exists rows g \<longleftrightarrow> (\<exists>r \<in> set rows. tg_id r = g \<and> tg_live r)"

text \<open>The walk without its memo.\<close>

definition descendants_of :: "tenant_group list \<Rightarrow> pk \<Rightarrow> bool \<Rightarrow> pk list" where
  "descendants_of rows g live_only =
     (if live_only \<and> \<not> live_group_exists rows g then []
      else descend (visible_groups live_only rows) [g] [g])"

text \<open>\<open>core.tenant_scope.get_descendant_tenant_group_ids\<close> with its context-local memo, whose
  unset value and empty dictionary are both the empty map.\<close>

definition get_descendant_tenant_group_ids ::
    "tenant_group list \<Rightarrow> pk option \<Rightarrow> bool \<Rightarrow> group_cache \<Rightarrow> pk list \<times> group_cache" where
  "get_descendant_tenant_group_ids rows group_id live_only cache =
     (case group_id of
        None \<Rightarrow> ([], cache)
      | Some g \<Rightarrow>
          (case cache (g, live_only) of
             Some ids \<Rightarrow> (ids, cache)
           | None \<Rightarrow>
               if live_only \<and> \<not> live_group_exists rows g
               then ([], cache((g, live_only) \<mapsto> []))
               else let ids = descend (visible_groups live_only rows) [g] [g]
                    in (ids, cache((g, live_only) \<mapsto> ids))))"

text \<open>\<open>access_scope._fresh_live_descendant_tenant_group_ids\<close>: the children dictionary, then the
  walk over it, never through the memo.\<close>

fun add_child :: "(pk \<Rightarrow> pk list) \<Rightarrow> tenant_group \<Rightarrow> (pk \<Rightarrow> pk list)" where
  "add_child m r = (case tg_parent r of None \<Rightarrow> m | Some p \<Rightarrow> m(p := m p @ [tg_id r]))"

definition children_by_parent :: "tenant_group list \<Rightarrow> pk \<Rightarrow> pk list" where
  "children_by_parent rows = foldl add_child (\<lambda>_. []) rows"

lemma foldl_add_child:
  "foldl add_child m rows p = m p @ map tg_id (filter (\<lambda>r. tg_parent r = Some p) rows)"
  by (induction rows arbitrary: m) (auto split: option.splits)

lemma children_by_parent_eq:
  "children_by_parent rows p = map tg_id (filter (\<lambda>r. tg_parent r = Some p) rows)"
  by (simp add: children_by_parent_def foldl_add_child)

definition fresh_children :: "tenant_group list \<Rightarrow> pk list \<Rightarrow> pk list \<Rightarrow> pk list" where
  "fresh_children rows frontier descendants =
     filter (\<lambda>c. c \<notin> set descendants) (concat (map (children_by_parent rows) frontier))"

lemma set_fresh_children:
  "set (fresh_children rows frontier ids) = group_edges rows `` set frontier - set ids"
  by (fastforce simp: fresh_children_def children_by_parent_eq group_edges_def)

function fresh_descend :: "tenant_group list \<Rightarrow> pk list \<Rightarrow> pk list \<Rightarrow> pk list" where
  "fresh_descend rows descendants frontier =
     (if frontier = [] then descendants
      else let children = fresh_children rows frontier descendants
           in fresh_descend rows (descendants @ children) children)"
  by pat_completeness auto
termination
proof (relation "measures [\<lambda>(rows, ids, _). card (tg_id ` set rows - set ids),
                           \<lambda>(_, _, frontier). length frontier]", goal_cases)
  case 1
  then show ?case by simp
next
  case (2 rows ids frontier children)
  show ?case
  proof (cases children)
    case Nil
    with 2 show ?thesis by simp
  next
    case (Cons x xs)
    then have "x \<in> set children" by simp
    with 2 set_fresh_children[of rows frontier ids]
    have "x \<notin> set ids" "x \<in> group_edges rows `` set frontier" by blast+
    moreover from this have "x \<in> tg_id ` set rows" by (auto simp: group_edges_def)
    ultimately show ?thesis
      using Cons remaining_decreases[of "tg_id ` set rows" x "set ids" "set children"] by simp
  qed
qed

declare fresh_descend.simps [simp del]

definition fresh_live_descendants :: "tenant_group list \<Rightarrow> pk option \<Rightarrow> pk list" where
  "fresh_live_descendants rows group_id =
     (case group_id of
        None \<Rightarrow> []
      | Some g \<Rightarrow>
          (let live = filter tg_live rows
           in if g \<notin> tg_id ` set live then [] else fresh_descend live [g] [g]))"

section \<open>Ancestors\<close>

definition parent_by_id :: "tenant_group list \<Rightarrow> pk \<Rightarrow> pk option option" where
  "parent_by_id rows = map_of (map (\<lambda>r. (tg_id r, tg_parent r)) rows)"

function ascend :: "tenant_group list \<Rightarrow> pk list \<Rightarrow> pk option \<Rightarrow> pk list \<times> pk option" where
  "ascend rows seen node =
     (case node of
        None \<Rightarrow> (seen, None)
      | Some n \<Rightarrow>
          (if n \<in> set seen then (seen, Some n)
           else case parent_by_id rows n of
                  None \<Rightarrow> (seen, Some n)
                | Some p \<Rightarrow> ascend rows (seen @ [n]) p))"
  by pat_completeness auto
termination
proof (relation "measure (\<lambda>(rows, seen, _). card (tg_id ` set rows - set seen))", goal_cases)
  case 1
  then show ?case by simp
next
  case (2 rows seen node n p)
  then have "n \<in> tg_id ` set rows"
    by (auto simp: parent_by_id_def dest!: map_of_SomeD)
  with 2 remaining_decreases[of "tg_id ` set rows" n "set seen" "{n}"] show ?case by simp
qed

declare ascend.simps [simp del]

definition get_ancestor_tenant_group_ids :: "tenant_group list \<Rightarrow> pk option \<Rightarrow> bool \<Rightarrow> pk list" where
  "get_ancestor_tenant_group_ids rows group_id live_only =
     (case group_id of
        None \<Rightarrow> []
      | Some g \<Rightarrow>
          (let groups = visible_groups live_only rows
           in if parent_by_id groups g = None then []
              else case ascend groups [] (Some g) of
                     (seen, None) \<Rightarrow> seen
                   | (seen, Some _) \<Rightarrow> []))"

section \<open>The cycle guard\<close>

datatype group_error = OwnParent | CreatesCycle

definition parent_of :: "tenant_group list \<Rightarrow> pk \<Rightarrow> pk option" where
  "parent_of rows n = Option.bind (find_row tg_id n rows) tg_parent"

function clean_walk :: "tenant_group list \<Rightarrow> pk \<Rightarrow> pk list \<Rightarrow> pk option \<Rightarrow> group_error + unit" where
  "clean_walk rows self visited node =
     (case node of
        None \<Rightarrow> Inr ()
      | Some n \<Rightarrow>
          (if n = self then Inl CreatesCycle
           else if n \<in> set visited then Inr ()
           else clean_walk rows self (n # visited) (parent_of rows n)))"
  by pat_completeness auto
termination
proof (relation "measures [\<lambda>(rows, _, visited, _). card (tg_id ` set rows - set visited),
                           \<lambda>(_, _, _, node). (case node of None \<Rightarrow> 0 | Some _ \<Rightarrow> 1)]", goal_cases)
  case 1
  then show ?case by simp
next
  case (2 rows self visited node n)
  show ?case
  proof (cases "n \<in> tg_id ` set rows")
    case True
    then have "card (tg_id ` set rows - insert n (set visited)) < card (tg_id ` set rows - set visited)"
      using 2 remaining_decreases[of "tg_id ` set rows" n "set visited" "{n}"] by simp
    then show ?thesis by simp
  next
    case False
    then have "parent_of rows n = None"
      by (simp add: parent_of_def find_row_None_iff[THEN iffD2])
    moreover have "tg_id ` set rows - insert n (set visited) = tg_id ` set rows - set visited"
      using False by blast
    ultimately show ?thesis using 2 by simp
  qed
qed

declare clean_walk.simps [simp del]

text \<open>\<open>TenantGroup.clean\<close>; \<open>self_pk\<close> is \<open>None\<close> for a group that has not been saved yet.\<close>

definition tenant_group_clean ::
    "tenant_group list \<Rightarrow> pk option \<Rightarrow> pk option \<Rightarrow> group_error + unit" where
  "tenant_group_clean rows self_pk parent_id =
     (case parent_id of
        None \<Rightarrow> Inr ()
      | Some p \<Rightarrow>
          (case self_pk of
             None \<Rightarrow> Inr ()
           | Some s \<Rightarrow> if p = s then Inl OwnParent else clean_walk rows s [] (Some p)))"

section \<open>The walks compute reachability\<close>

text \<open>Both loops add, in every round, exactly the unseen children of the frontier.  The closure
  argument is shared: what is kept is closed outside the frontier, and reachable from the root.\<close>

lemma descend_reachable:
  "set ids \<subseteq> R `` {g} \<Longrightarrow> set frontier \<subseteq> set ids \<Longrightarrow> R = (group_edges rows)\<^sup>* \<Longrightarrow>
     set (descend rows ids frontier) \<subseteq> R `` {g}"
proof (induction rows ids frontier rule: descend.induct)
  case (1 rows ids frontier)
  have step: "set (child_ids rows frontier ids) \<subseteq> R `` {g}"
    using "1.prems" by (auto simp: set_child_ids intro: rtrancl.rtrancl_into_rtrancl)
  show ?case
    using 1 step by (subst descend.simps) (auto simp: Let_def)
qed

lemma descend_closed:
  "\<forall>x \<in> set ids - set frontier. group_edges rows `` {x} \<subseteq> set ids \<Longrightarrow> set frontier \<subseteq> set ids \<Longrightarrow>
     set ids \<subseteq> set (descend rows ids frontier) \<and>
     group_edges rows `` set (descend rows ids frontier) \<subseteq> set (descend rows ids frontier)"
proof (induction rows ids frontier rule: descend.induct)
  case (1 rows ids frontier)
  let ?c = "child_ids rows frontier ids"
  have kids: "group_edges rows `` set frontier \<subseteq> set ids \<union> set ?c"
    by (auto simp: set_child_ids)
  show ?case
  proof (cases "frontier = [] \<or> ?c = []")
    case True
    then have "descend rows ids frontier = ids" by (subst descend.simps) (auto simp: Let_def)
    moreover have "group_edges rows `` set frontier \<subseteq> set ids" using True kids by auto
    ultimately show ?thesis using "1.prems" by auto
  next
    case False
    then have eq: "descend rows ids frontier = descend rows (ids @ ?c) ?c"
      by (subst descend.simps) (auto simp: Let_def)
    have "\<forall>x \<in> set (ids @ ?c) - set ?c. group_edges rows `` {x} \<subseteq> set (ids @ ?c)"
      using "1.prems" kids by fastforce
    then have "set (ids @ ?c) \<subseteq> set (descend rows (ids @ ?c) ?c) \<and>
      group_edges rows `` set (descend rows (ids @ ?c) ?c) \<subseteq> set (descend rows (ids @ ?c) ?c)"
      using "1.IH"[OF _ refl] False by simp
    then show ?thesis by (simp add: eq)
  qed
qed

lemma fresh_descend_reachable:
  "set ids \<subseteq> R `` {g} \<Longrightarrow> set frontier \<subseteq> set ids \<Longrightarrow> R = (group_edges rows)\<^sup>* \<Longrightarrow>
     set (fresh_descend rows ids frontier) \<subseteq> R `` {g}"
proof (induction rows ids frontier rule: fresh_descend.induct)
  case (1 rows ids frontier)
  have step: "set (fresh_children rows frontier ids) \<subseteq> R `` {g}"
    using "1.prems" by (auto simp: set_fresh_children intro: rtrancl.rtrancl_into_rtrancl)
  show ?case
    using 1 step by (subst fresh_descend.simps) (auto simp: Let_def)
qed

lemma fresh_descend_closed:
  "\<forall>x \<in> set ids - set frontier. group_edges rows `` {x} \<subseteq> set ids \<Longrightarrow> set frontier \<subseteq> set ids \<Longrightarrow>
     set ids \<subseteq> set (fresh_descend rows ids frontier) \<and>
     group_edges rows `` set (fresh_descend rows ids frontier) \<subseteq> set (fresh_descend rows ids frontier)"
proof (induction rows ids frontier rule: fresh_descend.induct)
  case (1 rows ids frontier)
  let ?c = "fresh_children rows frontier ids"
  have kids: "group_edges rows `` set frontier \<subseteq> set ids \<union> set ?c"
    by (auto simp: set_fresh_children)
  show ?case
  proof (cases "frontier = []")
    case True
    then have "fresh_descend rows ids frontier = ids" by (subst fresh_descend.simps) simp
    then show ?thesis using True "1.prems" by auto
  next
    case False
    then have eq: "fresh_descend rows ids frontier = fresh_descend rows (ids @ ?c) ?c"
      by (subst fresh_descend.simps) (simp add: Let_def)
    have "\<forall>x \<in> set (ids @ ?c) - set ?c. group_edges rows `` {x} \<subseteq> set (ids @ ?c)"
      using "1.prems" kids by fastforce
    then have "set (ids @ ?c) \<subseteq> set (fresh_descend rows (ids @ ?c) ?c) \<and>
      group_edges rows `` set (fresh_descend rows (ids @ ?c) ?c) \<subseteq> set (fresh_descend rows (ids @ ?c) ?c)"
      using "1.IH"[OF False refl] by simp
    then show ?thesis by (simp add: eq)
  qed
qed

lemma rtrancl_image_least:
  assumes "g \<in> A" "E `` A \<subseteq> A" shows "E\<^sup>* `` {g} \<subseteq> A"
proof clarify
  fix x assume "(g, x) \<in> E\<^sup>*"
  then show "x \<in> A" using assms by (induction rule: rtrancl_induct) auto
qed

lemma set_descend: "set (descend rows [g] [g]) = (group_edges rows)\<^sup>* `` {g}"
  using descend_reachable[of "[g]" _ g "[g]" rows] descend_closed[of "[g]" "[g]" rows]
    rtrancl_image_least[of g "set (descend rows [g] [g])" "group_edges rows"] by auto

lemma set_fresh_descend: "set (fresh_descend rows [g] [g]) = (group_edges rows)\<^sup>* `` {g}"
  using fresh_descend_reachable[of "[g]" _ g "[g]" rows] fresh_descend_closed[of "[g]" "[g]" rows]
    rtrancl_image_least[of g "set (fresh_descend rows [g] [g])" "group_edges rows"] by auto

lemma live_group_exists_iff: "live_group_exists rows g \<longleftrightarrow> g \<in> tg_id ` set (filter tg_live rows)"
  by (auto simp: live_group_exists_def)

text \<open>A memo is sound for a table when every entry is what the walk would compute now.\<close>

definition cache_sound :: "tenant_group list \<Rightarrow> group_cache \<Rightarrow> bool" where
  "cache_sound rows cache \<longleftrightarrow>
     (\<forall>g live ids. cache (g, live) = Some ids \<longrightarrow> ids = descendants_of rows g live)"

lemma get_descendants_eq:
  "get_descendant_tenant_group_ids rows (Some g) live cache =
     (case cache (g, live) of
        Some ids \<Rightarrow> (ids, cache)
      | None \<Rightarrow> (descendants_of rows g live, cache((g, live) \<mapsto> descendants_of rows g live)))"
  by (simp add: get_descendant_tenant_group_ids_def descendants_of_def Let_def split: option.split)

lemma get_descendants_None [simp]:
  "get_descendant_tenant_group_ids rows None live cache = ([], cache)"
  by (simp add: get_descendant_tenant_group_ids_def)

lemma get_descendants_sound:
  assumes "cache_sound rows cache"
  shows "fst (get_descendant_tenant_group_ids rows (Some g) live cache) = descendants_of rows g live"
    and "cache_sound rows (snd (get_descendant_tenant_group_ids rows (Some g) live cache))"
  using assms by (auto simp: get_descendants_eq cache_sound_def split: option.splits)

lemma cache_sound_empty [simp]: "cache_sound rows Map.empty"
  by (simp add: cache_sound_def)

lemma set_descendants_of:
  "set (descendants_of rows g live) =
     (if live \<and> g \<notin> tg_id ` set (filter tg_live rows) then {}
      else (group_edges (visible_groups live rows))\<^sup>* `` {g})"
  by (simp add: descendants_of_def set_descend live_group_exists_iff)

section \<open>The ancestor walk\<close>

lemma parent_by_id_iff:
  assumes "keyed tg_id rows"
  shows "parent_by_id rows n = Some p \<longleftrightarrow> (\<exists>r \<in> set rows. tg_id r = n \<and> tg_parent r = p)"
  using assms by (auto simp: parent_by_id_def keyed_def map_of_eq_Some_iff comp_def)

lemma parent_by_id_edge:
  assumes "keyed tg_id rows" "(p, c) \<in> group_edges rows"
  shows "parent_by_id rows c = Some (Some p)"
  using assms by (auto simp: parent_by_id_iff group_edges_def)

lemma rtrancl_last_step: "(a, n) \<in> E\<^sup>* \<longleftrightarrow> a = n \<or> (\<exists>y. (a, y) \<in> E\<^sup>* \<and> (y, n) \<in> E)"
proof -
  have "(a, n) \<in> E\<^sup>* \<longleftrightarrow> (a, n) \<in> Id \<union> E\<^sup>* O E"
    using rtrancl_unfold[of E] by simp
  then show ?thesis by (simp add: relcomp_unfold)
qed

lemma ancestors_unfold:
  assumes "keyed tg_id rows" "parent_by_id rows n = Some p"
  shows "{a. (a, n) \<in> (group_edges rows)\<^sup>*} =
    insert n (case p of None \<Rightarrow> {} | Some m \<Rightarrow> {a. (a, m) \<in> (group_edges rows)\<^sup>*})"
proof -
  have up: "p = Some y" if "(y, n) \<in> group_edges rows" for y
    using parent_by_id_edge[OF assms(1) that] assms(2) by simp
  have down: "(m, n) \<in> group_edges rows" if "p = Some m" for m
    using assms that by (auto simp: parent_by_id_iff group_edges_def)
  let ?A = "\<lambda>m. {a. (a, m) \<in> (group_edges rows)\<^sup>*}"
  note last = rtrancl_last_step[of _ n "group_edges rows"]
  have "?A n = {a. a = n \<or> (\<exists>y. (a, y) \<in> (group_edges rows)\<^sup>* \<and> (y, n) \<in> group_edges rows)}"
    by (rule Collect_cong) (rule last)
  then have "?A n = insert n (\<Union>y \<in> {y. (y, n) \<in> group_edges rows}. ?A y)" by blast
  moreover have "{y. (y, n) \<in> group_edges rows} = (case p of None \<Rightarrow> {} | Some m \<Rightarrow> {m})"
  proof (cases p)
    case None
    then have "(y, n) \<notin> group_edges rows" for y using up[of y] by auto
    with None show ?thesis by simp
  next
    case (Some m)
    then have "(y, n) \<in> group_edges rows \<longleftrightarrow> y = m" for y using up[of y] down[of y] by auto
    with Some show ?thesis by simp
  qed
  ultimately show ?thesis by (simp split: option.split)
qed

text \<open>A walk that reaches the root has collected exactly the start's ancestors.\<close>

lemma ascend_ancestors:
  "keyed tg_id rows \<Longrightarrow> ascend rows seen node = (out, None) \<Longrightarrow>
    set out = set seen \<union> (case node of None \<Rightarrow> {} | Some n \<Rightarrow> {a. (a, n) \<in> (group_edges rows)\<^sup>*})"
proof (induction rows seen node rule: ascend.induct)
  case (1 rows seen node)
  show ?case
  proof (cases node)
    case None
    with 1 show ?thesis by (subst (asm) ascend.simps) simp
  next
    case (Some n)
    from "1.prems" Some obtain p where p: "n \<notin> set seen" "parent_by_id rows n = Some p"
      "ascend rows (seen @ [n]) p = (out, None)"
      by (subst (asm) (2) ascend.simps) (auto split: if_splits option.splits)
    from "1.IH"[OF Some p(1,2) "1.prems"(1) p(3)] ancestors_unfold[OF "1.prems"(1) p(2)] Some
    show ?thesis by auto
  qed
qed

lemma keyed_visible [simp]: "keyed tg_id rows \<Longrightarrow> keyed tg_id (visible_groups live rows)"
  by (auto simp: keyed_def visible_groups_def distinct_map inj_on_def)

lemma set_get_ancestors:
  assumes "keyed tg_id rows" "get_ancestor_tenant_group_ids rows (Some g) live \<noteq> []"
  shows "set (get_ancestor_tenant_group_ids rows (Some g) live) =
    {a. (a, g) \<in> (group_edges (visible_groups live rows))\<^sup>*}"
  using assms ascend_ancestors[of "visible_groups live rows" "[]" "Some g"]
  by (auto simp: get_ancestor_tenant_group_ids_def Let_def split: if_splits prod.splits option.splits)

lemma ancestors_visible:
  assumes "keyed tg_id rows" "h \<in> set (get_ancestor_tenant_group_ids rows (Some g) live)"
  shows "h \<in> tg_id ` set (visible_groups live rows)"
proof -
  have loop: "set (fst (ascend gs seen node)) \<subseteq> set seen \<union> tg_id ` set gs" for gs seen node
  proof (induction gs seen node rule: ascend.induct)
    case (1 gs seen node)
    have known: "parent_by_id gs n = Some q \<Longrightarrow> n \<in> tg_id ` set gs" for n q
      by (auto simp: parent_by_id_def dest!: map_of_SomeD)
    show ?case
    proof (cases node)
      case None
      then show ?thesis by (simp add: ascend.simps)
    next
      case (Some n)
      show ?thesis
      proof (cases "n \<in> set seen \<or> parent_by_id gs n = None")
        case True
        with Some show ?thesis by (auto simp: ascend.simps[of gs seen "Some n"])
      next
        case False
        then obtain q where q: "n \<notin> set seen" "parent_by_id gs n = Some q" by auto
        with "1"[OF Some q] known[OF q(2)] Some show ?thesis
          by (simp add: ascend.simps[of gs seen "Some n"] subset_iff) blast
      qed
    qed
  qed
  obtain seen stop where walk: "ascend (visible_groups live rows) [] (Some g) = (seen, stop)"
    by (cases "ascend (visible_groups live rows) [] (Some g)")
  with loop[of "visible_groups live rows" "[]" "Some g"]
  have "set seen \<subseteq> tg_id ` set (visible_groups live rows)" by simp
  with assms(2) walk show ?thesis
    by (auto simp: get_ancestor_tenant_group_ids_def Let_def split: if_splits option.splits)
qed

section \<open>The cycle guard keeps the tree acyclic\<close>

lemma parent_of_edge:
  assumes "keyed tg_id rows"
  shows "(x, n) \<in> group_edges rows \<longleftrightarrow> parent_of rows n = Some x"
  using assms by (auto simp: parent_of_def group_edges_def find_row_iff bind_eq_Some_conv)

lemma clean_walk_no_ancestor:
  "keyed tg_id rows \<Longrightarrow> acyclic (group_edges rows) \<Longrightarrow> clean_walk rows self visited node = Inr () \<Longrightarrow>
    node = Some n \<Longrightarrow> \<forall>v \<in> set visited. (v, n) \<notin> (group_edges rows)\<^sup>* \<Longrightarrow>
    (self, n) \<notin> (group_edges rows)\<^sup>*"
proof (induction rows self visited node arbitrary: n rule: clean_walk.induct)
  case (1 rows self visited node)
  let ?E = "group_edges rows"
  from "1.prems" have ne: "n \<noteq> self" and fresh: "n \<notin> set visited"
    by (auto simp: clean_walk.simps split: if_splits)
  with "1.prems" have rest: "clean_walk rows self (n # visited) (parent_of rows n) = Inr ()"
    by (simp add: clean_walk.simps[of rows self visited "Some n"])
  show ?case
  proof
    assume "(self, n) \<in> ?E\<^sup>*"
    with ne obtain m where m: "(self, m) \<in> ?E\<^sup>*" "(m, n) \<in> ?E" by (metis rtranclE)
    then have pm: "parent_of rows n = Some m" using "1.prems"(1) by (simp add: parent_of_edge)
    have "(n, m) \<notin> ?E\<^sup>*"
      using "1.prems"(2) m(2) by (auto simp: acyclic_def dest: rtrancl_into_trancl1)
    moreover have "(v, m) \<notin> ?E\<^sup>*" if "v \<in> set visited" for v
      using "1.prems"(5) that m(2) by (meson rtrancl.rtrancl_into_rtrancl)
    ultimately have "(self, m) \<notin> ?E\<^sup>*"
      using "1.IH"[OF "1.prems"(4) ne fresh "1.prems"(1,2) rest pm] by simp
    with m(1) show False by contradiction
  qed
qed

text \<open>Saving a row updates it in place, or appends a new one.\<close>

definition save_group :: "tenant_group \<Rightarrow> tenant_group list \<Rightarrow> tenant_group list" where
  "save_group g rows = (if tg_id g \<in> tg_id ` set rows then save_row tg_id g rows else rows @ [g])"

lemma group_edges_save_group:
  "group_edges (save_group g rows) \<subseteq>
     group_edges rows \<union> (case tg_parent g of None \<Rightarrow> {} | Some p \<Rightarrow> {(p, tg_id g)})"
  by (auto simp: group_edges_def save_group_def dest!: set_save_row_subset split: option.splits if_splits)

lemma acyclic_insert_edge:
  assumes "acyclic E" "(c, p) \<notin> E\<^sup>*" shows "acyclic (insert (p, c) E)"
  using assms by (simp add: acyclic_insert)

section \<open>Properties\<close>

text \<open>C34. With a memo that is sound for the stored table, the descendant walk of the tenancy kernel
  returns exactly the groups reachable from the root along parent links (nothing at all for a root
  that is not live when only live groups count), for any table, cyclic ones included, and leaves
  the memo sound.\<close>

theorem descendants_exact:
  assumes "cache_sound rows cache"
  shows "set (fst (get_descendant_tenant_group_ids rows (Some g) live cache)) =
      (if live \<and> g \<notin> tg_id ` set (filter tg_live rows) then {}
       else (group_edges (visible_groups live rows))\<^sup>* `` {g})
    \<and> cache_sound rows (snd (get_descendant_tenant_group_ids rows (Some g) live cache))"
  using get_descendants_sound[OF assms, of g live] by (simp add: set_descendants_of)

definition sample_groups :: "tenant_group list" where
  "sample_groups =
     [\<lparr>tg_id = 1, tg_parent = None, tg_deleted = None\<rparr>,
      \<lparr>tg_id = 2, tg_parent = Some 1, tg_deleted = None\<rparr>,
      \<lparr>tg_id = 3, tg_parent = Some 2, tg_deleted = None\<rparr>,
      \<lparr>tg_id = 4, tg_parent = Some 2, tg_deleted = Some 9\<rparr>]"

theorem descendants_exact_witness:
  "cache_sound sample_groups Map.empty \<and>
   set (fst (get_descendant_tenant_group_ids sample_groups (Some 2) True Map.empty)) =
      (group_edges (visible_groups True sample_groups))\<^sup>* `` {2}"
  using descendants_exact[OF cache_sound_empty, of sample_groups 2 True]
  by (simp add: sample_groups_def tg_live_def)

text \<open>The memo-free live walk that access-scope resolution uses returns the same set of groups
  as the memoised walk of the tenancy kernel started with an empty memo.\<close>

theorem fresh_walk_agrees:
  "set (fresh_live_descendants rows group_id) =
     set (fst (get_descendant_tenant_group_ids rows group_id True Map.empty))"
proof (cases group_id)
  case None
  then show ?thesis by (simp add: fresh_live_descendants_def get_descendant_tenant_group_ids_def)
next
  case (Some g)
  then show ?thesis
    by (simp add: fresh_live_descendants_def get_descendants_eq set_descendants_of Let_def
        set_fresh_descend visible_groups_def)
qed

text \<open>The upward and the downward walk agree: a group found above \<open>g\<close> has \<open>g\<close> in its subtree,
  and when the upward walk reaches a root it lists every live group whose subtree holds \<open>g\<close>.\<close>

theorem ancestors_match_descendants:
  assumes "keyed tg_id rows" "get_ancestor_tenant_group_ids rows (Some g) True \<noteq> []"
  shows "h \<in> set (get_ancestor_tenant_group_ids rows (Some g) True) \<longleftrightarrow>
    g \<in> set (fst (get_descendant_tenant_group_ids rows (Some h) True Map.empty))"
proof -
  note up = set_get_ancestors[OF assms]
  have "h \<in> tg_id ` set (filter tg_live rows)"
    if "h \<in> set (get_ancestor_tenant_group_ids rows (Some g) True)"
    using ancestors_visible[OF assms(1) that] by (simp add: visible_groups_def)
  with up show ?thesis by (auto simp: get_descendants_eq set_descendants_of)
qed

theorem ancestors_match_descendants_witness:
  "1 \<in> set (get_ancestor_tenant_group_ids sample_groups (Some 3) True) \<and>
   3 \<in> set (fst (get_descendant_tenant_group_ids sample_groups (Some 1) True Map.empty))"
proof -
  have k: "keyed tg_id sample_groups" by (simp add: sample_groups_def keyed_def)
  have a: "get_ancestor_tenant_group_ids sample_groups (Some 3) True = [3, 2, 1]"
    by (simp add: sample_groups_def get_ancestor_tenant_group_ids_def visible_groups_def
        parent_by_id_def ascend.simps tg_live_def Let_def)
  then show ?thesis using ancestors_match_descendants[OF k, of 3 1] by simp
qed

text \<open>C35. Saving a group whose \<open>clean\<close> passed keeps the stored tree free of parent cycles,
  whichever new parent was chosen.\<close>

theorem clean_keeps_acyclic:
  assumes "keyed tg_id rows" "acyclic (group_edges rows)"
    and "tenant_group_clean rows (Some (tg_id g)) (tg_parent g) = Inr ()"
  shows "acyclic (group_edges (save_group g rows))"
proof (cases "tg_parent g")
  case None
  then show ?thesis using group_edges_save_group[of g rows] assms(2) by (auto intro: acyclic_subset)
next
  case (Some p)
  with assms(3) have walk: "clean_walk rows (tg_id g) [] (Some p) = Inr ()"
    by (auto simp: tenant_group_clean_def split: if_splits)
  then have "(tg_id g, p) \<notin> (group_edges rows)\<^sup>*"
    using clean_walk_no_ancestor[OF assms(1,2) walk refl] by simp
  then have "acyclic (insert (p, tg_id g) (group_edges rows))"
    by (rule acyclic_insert_edge[OF assms(2)])
  then show ?thesis using group_edges_save_group[of g rows] Some by (auto intro: acyclic_subset)
qed

theorem clean_keeps_acyclic_witness:
  "tenant_group_clean sample_groups (Some 3) (Some 1) = Inr () \<and>
   tenant_group_clean sample_groups (Some 1) (Some 3) = Inl CreatesCycle \<and>
   acyclic (group_edges (save_group \<lparr>tg_id = 3, tg_parent = Some 1, tg_deleted = None\<rparr> sample_groups))"
proof -
  have k: "keyed tg_id sample_groups" by (simp add: sample_groups_def keyed_def)
  have "wf ({(a, b). a < b \<and> 0 \<le> a \<and> b < 9} :: (int \<times> int) set)"
    by (rule wf_subset[OF wf_measure[of nat]]) (auto simp: measure_def inv_image_def)
  moreover have "group_edges sample_groups \<subseteq> {(a, b). a < b \<and> 0 \<le> a \<and> b < 9}"
    by (auto simp: sample_groups_def group_edges_def)
  ultimately have ac: "acyclic (group_edges sample_groups)"
    by (meson wf_subset wf_acyclic)
  have ok: "tenant_group_clean sample_groups (Some 3) (Some 1) = Inr ()"
    by (simp add: sample_groups_def tenant_group_clean_def clean_walk.simps parent_of_def)
  have bad: "tenant_group_clean sample_groups (Some 1) (Some 3) = Inl CreatesCycle"
    by (simp add: sample_groups_def tenant_group_clean_def clean_walk.simps parent_of_def)
  show ?thesis
    using ok bad clean_keeps_acyclic[OF k ac, of "\<lparr>tg_id = 3, tg_parent = Some 1, tg_deleted = None\<rparr>"]
    by simp
qed

text \<open>The memo outlives changes of the tree: once a root has been walked, asking again returns the
  old answer whatever the table has become, until the memo itself is reset.\<close>

theorem memo_hides_topology_change:
  "fst (get_descendant_tenant_group_ids rows' (Some g) live
          (snd (get_descendant_tenant_group_ids rows (Some g) live cache))) =
     fst (get_descendant_tenant_group_ids rows (Some g) live cache)"
  by (simp add: get_descendants_eq split: option.split)

end
