(* ===== verification/Grants.thy ===== *)
theory Grants
  imports TenantGroups PyText
begin

text \<open>
  The authorization models of \<^verbatim>\<open>organization/models.py\<close>: tenants, roles, memberships, user groups,
  role grants and their additive scopes, with the model-level validation that runs before every
  save.  A foreign key that the code follows (\<open>grant.role.tenant\<close>, \<open>grant.membership\<close>) is a nested
  record, as the object graph the ORM loads; a foreign-key id the code only compares is a
  \<^typ>\<open>pk\<close>.  Primary keys are never zero, so the truth value of an id field is its presence.

  The functions that walk the group tree take the resolver of the current context as an argument,
  \<open>desc\<close>; the locale \<open>group_resolver\<close> states what the grant code relies on and is interpreted on
  the memoised walk of \<^verbatim>\<open>core/tenant_scope.py\<close>.
\<close>

section \<open>Data\<close>

record tenant =
  tn_id :: pk
  tn_name :: string
  tn_group :: "pk option"
  tn_managed_by :: "pk option"
  tn_is_provider :: bool
  tn_deleted :: "instant option"

definition tn_live :: "tenant \<Rightarrow> bool" where
  "tn_live t \<longleftrightarrow> tn_deleted t = None"

text \<open>An entry of the JSON permission list: a string, or anything else a raw write stored.\<close>

datatype permission = Perm string | MalformedPerm

record role =
  ro_id :: pk
  ro_name :: string
  ro_tenant :: tenant
  ro_permissions :: "permission list"
  ro_shared_with_managed :: bool
  ro_deleted :: "instant option"

record membership =
  mb_id :: pk
  mb_user :: pk
  mb_tenant :: tenant
  mb_active :: bool

record user_group =
  ug_id :: pk
  ug_name :: string
  ug_tenant :: pk
  ug_active :: bool
  ug_deleted :: "instant option"
  ug_members :: "membership list"

datatype scope_type = ScopeOwn | ScopeTenant | ScopeTenantGroup | ScopeAllManaged | ScopeOther string

record grant_scope =
  sc_id :: pk
  sc_type :: scope_type
  sc_tenant :: "pk option"
  sc_group :: "pk option"

record role_grant =
  rg_id :: pk
  rg_membership :: "membership option"
  rg_user_group :: "user_group option"
  rg_role :: role
  rg_scopes :: "grant_scope list"
  rg_reason :: string
  rg_valid_until :: "instant option"

section \<open>Privilege classification (\<open>core/mfa.py\<close>)\<close>

definition PRIVILEGED_ROLE_NAMES :: "string list" where
  "PRIVILEGED_ROLE_NAMES = [''Admin'', ''Manager'']"

fun any_non_view :: "permission list \<Rightarrow> bool" where
  "any_non_view [] = False"
| "any_non_view (MalformedPerm # ps) = True"
| "any_non_view (Perm p # ps) =
     (if \<not> starts_with (after_last_dot p) ''view_'' then True else any_non_view ps)"

definition role_name_is_privileged :: "string \<Rightarrow> permission list \<Rightarrow> string list \<Rightarrow> bool" where
  "role_name_is_privileged role_name permissions names_lower =
     (if role_name \<noteq> [] \<and> py_lower role_name \<in> set names_lower then True
      else any_non_view permissions)"

definition role_is_privileged :: "role \<Rightarrow> bool" where
  "role_is_privileged r =
     role_name_is_privileged (ro_name r) (ro_permissions r) (map py_lower PRIVILEGED_ROLE_NAMES)"

section \<open>Tenant validation\<close>

datatype tenant_error =
  ManagesItself | ManagedCannotManage | ManagerMissing | ManagerNotProvider | NestedManagement
  | StillManages

text \<open>\<open>Tenant.clean\<close>; \<open>self_pk\<close> is \<open>None\<close> before the first save.  Following \<open>self.managed_by\<close> raises
  when the row is missing.\<close>

definition tenant_clean :: "tenant list \<Rightarrow> pk option \<Rightarrow> tenant \<Rightarrow> tenant_error + unit" where
  "tenant_clean tenants self_pk self =
     bindE
       (case tn_managed_by self of
          None \<Rightarrow> Inr ()
        | Some m \<Rightarrow>
            if Some m = self_pk then Inl ManagesItself
            else if tn_is_provider self then Inl ManagedCannotManage
            else (case find_row tn_id m tenants of
                    None \<Rightarrow> Inl ManagerMissing
                  | Some manager \<Rightarrow>
                      if \<not> tn_is_provider manager then Inl ManagerNotProvider
                      else if tn_managed_by manager \<noteq> None then Inl NestedManagement
                      else Inr ()))
       (\<lambda>_. if self_pk \<noteq> None \<and> (\<not> tn_is_provider self \<or> tn_deleted self \<noteq> None)
               \<and> (\<exists>t \<in> set tenants. tn_managed_by t = self_pk \<and> tn_live t)
            then Inl StillManages else Inr ())"

section \<open>Role grants\<close>

definition principal_tenant_id :: "role_grant \<Rightarrow> pk option" where
  "principal_tenant_id g =
     (case rg_membership g of
        Some m \<Rightarrow> Some (tn_id (mb_tenant m))
      | None \<Rightarrow> (case rg_user_group g of Some u \<Rightarrow> Some (ug_tenant u) | None \<Rightarrow> None))"

definition grant_is_active :: "instant \<Rightarrow> role_grant \<Rightarrow> bool" where
  "grant_is_active now g = (case rg_valid_until g of None \<Rightarrow> True | Some v \<Rightarrow> v > now)"

datatype reach = ReachOwn | ReachManaged

definition grant_reach :: "role_grant \<Rightarrow> reach" where
  "grant_reach g =
     (if \<exists>s \<in> set (rg_scopes g). sc_type s \<noteq> ScopeOwn then ReachManaged else ReachOwn)"

datatype expiry_problem = ExpiryMissing | ExpiryPast

datatype grant_error =
  OnePrincipalOnly | PrincipalWithoutTenant | RoleOfAnotherGroup | RoleNotAvailable
  | PrivilegedGrant bool "expiry_problem option" \<comment> \<open>reason missing; expiry problem\<close>

definition expiry_problem_of :: "instant \<Rightarrow> instant option \<Rightarrow> expiry_problem option" where
  "expiry_problem_of now v =
     (case v of None \<Rightarrow> Some ExpiryMissing | Some t \<Rightarrow> if t \<le> now then Some ExpiryPast else None)"

text \<open>\<open>RoleGrant.clean\<close>\<close>

definition role_grant_clean :: "instant \<Rightarrow> role_grant \<Rightarrow> grant_error + unit" where
  "role_grant_clean now g =
     (if (rg_membership g \<noteq> None) = (rg_user_group g \<noteq> None) then Inl OnePrincipalOnly
      else case principal_tenant_id g of
        None \<Rightarrow> Inl PrincipalWithoutTenant
      | Some owner_id \<Rightarrow>
          (let r = rg_role g in
           if rg_user_group g \<noteq> None \<and> tn_id (ro_tenant r) \<noteq> owner_id then Inl RoleOfAnotherGroup
           else case rg_membership g of
                  None \<Rightarrow> Inr ()
                | Some m \<Rightarrow>
                    if tn_id (ro_tenant r) \<noteq> owner_id
                       \<and> \<not> (ro_shared_with_managed r \<and> tn_is_provider (ro_tenant r)
                             \<and> tn_managed_by (mb_tenant m) = Some (tn_id (ro_tenant r)))
                    then Inl RoleNotAvailable
                    else if role_is_privileged r
                    then (let no_reason = (py_strip (rg_reason g) = []);
                              problem = expiry_problem_of now (rg_valid_until g)
                          in if no_reason \<or> problem \<noteq> None
                             then Inl (PrivilegedGrant no_reason problem) else Inr ())
                    else Inr ()))"

datatype scope_error =
  ScopeTakesNoTarget | ScopeNeedsTenant | ScopeNeedsGroup | ScopeTypeInvalid
  | ScopeRoleUnavailable | ScopeNeedsProviderRole | ScopeTenantMissing | ScopeTenantNotManaged

definition scope_shape :: "grant_scope \<Rightarrow> scope_error + unit" where
  "scope_shape s =
     (let has_tenant = (sc_tenant s \<noteq> None); has_group = (sc_group s \<noteq> None) in
      case sc_type s of
        ScopeOwn \<Rightarrow> if has_tenant \<or> has_group then Inl ScopeTakesNoTarget else Inr ()
      | ScopeAllManaged \<Rightarrow> if has_tenant \<or> has_group then Inl ScopeTakesNoTarget else Inr ()
      | ScopeTenant \<Rightarrow> if \<not> has_tenant \<or> has_group then Inl ScopeNeedsTenant else Inr ()
      | ScopeTenantGroup \<Rightarrow> if has_tenant \<or> \<not> has_group then Inl ScopeNeedsGroup else Inr ()
      | ScopeOther _ \<Rightarrow> Inl ScopeTypeInvalid)"

text \<open>\<open>RoleGrantScope.clean\<close>; \<open>grant\<close> is \<open>None\<close> for a scope not attached yet, \<open>merging\<close> is the
  operation-local marker \<open>_identity_scope_merge\<close>.\<close>

definition role_grant_scope_clean ::
    "tenant list \<Rightarrow> bool \<Rightarrow> role_grant option \<Rightarrow> grant_scope \<Rightarrow> scope_error + unit" where
  "role_grant_scope_clean tenants merging grant s =
     bindE (scope_shape s)
       (\<lambda>_. case grant of
          None \<Rightarrow> Inr ()
        | Some g \<Rightarrow>
            if merging then Inr ()
            else
              (let owner_id = principal_tenant_id g; r = rg_role g; provider = ro_tenant r in
               if sc_type s = ScopeOwn
               then (let valid_shared_role =
                       (case rg_membership g of
                          None \<Rightarrow> False
                        | Some m \<Rightarrow> ro_shared_with_managed r \<and> tn_is_provider provider
                                    \<and> tn_managed_by (mb_tenant m) = Some (tn_id provider))
                     in if Some (tn_id provider) \<noteq> owner_id \<and> \<not> valid_shared_role
                        then Inl ScopeRoleUnavailable else Inr ())
               else if owner_id \<noteq> Some (tn_id provider) \<or> \<not> tn_is_provider provider
               then Inl ScopeNeedsProviderRole
               else if sc_type s = ScopeTenant
               then (case Option.bind (sc_tenant s) (\<lambda>t. find_row tn_id t tenants) of
                       None \<Rightarrow> Inl ScopeTenantMissing
                     | Some t \<Rightarrow> if tn_managed_by t \<noteq> owner_id then Inl ScopeTenantNotManaged else Inr ())
               else Inr ()))"

section \<open>Coverage\<close>

type_synonym group_desc = "pk option \<Rightarrow> pk list"

text \<open>The live descendant walk of the current context, as the grant code calls it.\<close>

definition context_desc :: "tenant_group list \<Rightarrow> group_cache \<Rightarrow> group_desc" where
  "context_desc groups cache g = fst (get_descendant_tenant_group_ids groups g True cache)"

definition managed_tenants :: "tenant list \<Rightarrow> pk \<Rightarrow> pk list" where
  "managed_tenants tenants provider =
     map tn_id (filter (\<lambda>t. tn_managed_by t = Some provider \<and> tn_live t) tenants)"

definition managed_tenants_in ::
    "tenant list \<Rightarrow> pk \<Rightarrow> pk list \<Rightarrow> pk list" where
  "managed_tenants_in tenants provider group_ids =
     map tn_id (filter (\<lambda>t. tn_managed_by t = Some provider
        \<and> (case tn_group t of None \<Rightarrow> False | Some g \<Rightarrow> g \<in> set group_ids) \<and> tn_live t) tenants)"

text \<open>One scope's share of \<open>RoleGrant.scoped_tenant_ids\<close>.\<close>

definition scope_tenant_ids :: "group_desc \<Rightarrow> tenant list \<Rightarrow> pk \<Rightarrow> grant_scope \<Rightarrow> pk list" where
  "scope_tenant_ids desc tenants provider s =
     (case sc_type s of
        ScopeAllManaged \<Rightarrow> managed_tenants tenants provider
      | ScopeTenant \<Rightarrow>
          (case sc_tenant s of
             None \<Rightarrow> []
           | Some tid \<Rightarrow>
               if \<exists>t \<in> set tenants. tn_id t = tid \<and> tn_managed_by t = Some provider \<and> tn_live t
               then [tid] else [])
      | ScopeTenantGroup \<Rightarrow> managed_tenants_in tenants provider (desc (sc_group s))
      | _ \<Rightarrow> [])"

definition scoped_tenant_ids :: "group_desc \<Rightarrow> tenant list \<Rightarrow> role_grant \<Rightarrow> pk list" where
  "scoped_tenant_ids desc tenants g =
     (let provider = ro_tenant (rg_role g) in
      if principal_tenant_id g \<noteq> Some (tn_id provider) \<or> \<not> tn_is_provider provider then []
      else concat (map (scope_tenant_ids desc tenants (tn_id provider)) (rg_scopes g)))"

text \<open>The body of the loop of \<open>RoleGrant.covers_tenant\<close>: does this scope return \<open>True\<close>?\<close>

definition scope_covers :: "group_desc \<Rightarrow> role_grant \<Rightarrow> pk \<Rightarrow> tenant \<Rightarrow> grant_scope \<Rightarrow> bool" where
  "scope_covers desc g owner_id t s =
     (let r = rg_role g; provider = ro_tenant r in
      if sc_type s = ScopeOwn
      then (if tn_id t \<noteq> owner_id then False
            else if tn_id provider = owner_id then True
            else rg_membership g \<noteq> None \<and> ro_shared_with_managed r \<and> tn_is_provider provider
                 \<and> tn_managed_by t = Some (tn_id provider))
      else if tn_managed_by t \<noteq> Some (tn_id provider) \<or> owner_id \<noteq> tn_id provider
              \<or> \<not> tn_is_provider provider
      then False
      else (case sc_type s of
              ScopeAllManaged \<Rightarrow> True
            | ScopeTenant \<Rightarrow> sc_tenant s = Some (tn_id t)
            | ScopeTenantGroup \<Rightarrow>
                (case (sc_group s, tn_group t) of
                   (Some sg, Some tg) \<Rightarrow> tg \<in> set (desc (Some sg))
                 | _ \<Rightarrow> False)
            | _ \<Rightarrow> False))"

text \<open>\<open>RoleGrant.covers_tenant\<close>\<close>

definition covers_tenant :: "group_desc \<Rightarrow> instant \<Rightarrow> role_grant \<Rightarrow> tenant \<Rightarrow> bool" where
  "covers_tenant desc now g t =
     (if \<not> grant_is_active now g \<or> ro_deleted (rg_role g) \<noteq> None then False
      else case principal_tenant_id g of
             None \<Rightarrow> False
           | Some owner_id \<Rightarrow> \<exists>s \<in> set (rg_scopes g). scope_covers desc g owner_id t s)"

section \<open>What the grant code relies on\<close>

lemma managed_tenants_iff:
  "keyed tn_id tenants \<Longrightarrow> t \<in> set tenants \<Longrightarrow>
     tn_id t \<in> set (managed_tenants tenants p) \<longleftrightarrow> tn_managed_by t = Some p \<and> tn_live t"
  unfolding managed_tenants_def by (rule key_in_filter)

lemma managed_tenants_in_iff:
  "keyed tn_id tenants \<Longrightarrow> t \<in> set tenants \<Longrightarrow>
     tn_id t \<in> set (managed_tenants_in tenants p gs) \<longleftrightarrow>
       tn_managed_by t = Some p \<and> (\<exists>g. tn_group t = Some g \<and> g \<in> set gs) \<and> tn_live t"
  unfolding managed_tenants_in_def by (subst key_in_filter) (auto split: option.splits)

locale group_resolver =
  fixes desc :: group_desc
  assumes desc_None: "desc None = []"
begin

lemma scope_tenant_ids_covers:
  assumes "keyed tn_id tenants" "t \<in> set tenants" "tn_live t"
    and "principal_tenant_id g = Some (tn_id (ro_tenant (rg_role g)))"
    and "tn_is_provider (ro_tenant (rg_role g))"
  shows "tn_id t \<in> set (scope_tenant_ids desc tenants (tn_id (ro_tenant (rg_role g))) s) \<longleftrightarrow>
    sc_type s \<noteq> ScopeOwn \<and> scope_covers desc g (tn_id (ro_tenant (rg_role g))) t s"
proof (cases "sc_type s")
  case ScopeTenant
  have "(\<exists>t' \<in> set tenants. tn_id t' = tn_id t \<and> tn_managed_by t' = m \<and> tn_live t') \<longleftrightarrow>
      tn_managed_by t = m" for m
    using keyed_ex_iff[OF assms(1,2), of "\<lambda>t'. tn_managed_by t' = m \<and> tn_live t'"] assms(3) by simp
  with ScopeTenant assms(4,5) show ?thesis
    by (auto simp: scope_tenant_ids_def scope_covers_def Let_def split: option.splits)
qed (use assms(3-5) desc_None in
    \<open>auto simp: scope_tenant_ids_def scope_covers_def managed_tenants_iff[OF assms(1,2)]
       managed_tenants_in_iff[OF assms(1,2)] Let_def split: option.splits\<close>)

lemma scoped_iff:
  assumes "keyed tn_id tenants" "t \<in> set tenants" "tn_live t"
  shows "tn_id t \<in> set (scoped_tenant_ids desc tenants g) \<longleftrightarrow>
    (\<exists>s \<in> set (rg_scopes g). sc_type s \<noteq> ScopeOwn \<and>
       principal_tenant_id g = Some (tn_id (ro_tenant (rg_role g))) \<and>
       scope_covers desc g (tn_id (ro_tenant (rg_role g))) t s)"
proof (cases "principal_tenant_id g = Some (tn_id (ro_tenant (rg_role g))) \<and>
    tn_is_provider (ro_tenant (rg_role g))")
  case True
  then show ?thesis
    using scope_tenant_ids_covers[OF assms, of g] by (auto simp: scoped_tenant_ids_def Let_def)
next
  case False
  then show ?thesis
    by (auto simp: scoped_tenant_ids_def Let_def scope_covers_def)
qed

end

text \<open>A resolver that also reports exactly the live subtree, as a group scope documents
  (\<open>Managed tenant group + descendants\<close>).\<close>

locale live_tree_resolver = group_resolver desc for desc :: group_desc +
  fixes groups :: "tenant_group list"
  assumes desc_reach: "set (desc (Some g)) =
    (if g \<in> tg_id ` set (filter tg_live groups)
     then (group_edges (filter tg_live groups))\<^sup>* `` {g} else {})"
begin

lemma group_scope_covers_iff:
  assumes "sc_type s = ScopeTenantGroup" "sc_group s = Some sg"
  shows "scope_covers desc g owner t s \<longleftrightarrow>
    owner = tn_id (ro_tenant (rg_role g)) \<and> tn_is_provider (ro_tenant (rg_role g)) \<and>
    tn_managed_by t = Some owner \<and> sg \<in> tg_id ` set (filter tg_live groups) \<and>
    (\<exists>tg. tn_group t = Some tg \<and> (sg, tg) \<in> (group_edges (filter tg_live groups))\<^sup>*)"
  using assms desc_reach[of sg] by (auto simp: scope_covers_def Let_def split: option.splits)

end

text \<open>The memoised walk of the current context is such a resolver: with a sound memo it is the walk
  itself, and answering one question never changes the answer to another.\<close>

definition walk_desc :: "tenant_group list \<Rightarrow> group_desc" where
  "walk_desc groups g = (case g of None \<Rightarrow> [] | Some x \<Rightarrow> descendants_of groups x True)"

lemma context_desc_eq: "cache_sound groups cache \<Longrightarrow> context_desc groups cache = walk_desc groups"
  by (simp add: fun_eq_iff context_desc_def walk_desc_def get_descendants_sound split: option.split)

lemma context_desc_stable:
  "context_desc groups (snd (get_descendant_tenant_group_ids groups g live cache)) =
     context_desc groups cache"
proof
  fix g' show "context_desc groups (snd (get_descendant_tenant_group_ids groups g live cache)) g' =
    context_desc groups cache g'"
    by (cases g; cases g') (auto simp: context_desc_def get_descendants_eq split: option.split)
qed

interpretation context_resolver: group_resolver "context_desc groups cache"
  for groups :: "tenant_group list" and cache :: group_cache
  by unfold_locales (simp add: context_desc_def)

interpretation walk_resolver: live_tree_resolver "walk_desc groups" groups
  for groups :: "tenant_group list"
  by unfold_locales (simp_all add: walk_desc_def set_descendants_of visible_groups_def)

text \<open>The pieces of \<open>covers_tenant\<close> that the properties share: coverage needs a live grant, and splits
  into the own-tenant scopes and the scoped set.\<close>

lemma covers_live_grant:
  "covers_tenant desc now g t \<Longrightarrow> grant_is_active now g \<and> ro_deleted (rg_role g) = None"
  by (auto simp: covers_tenant_def split: if_splits option.splits)

lemma covers_split:
  assumes "keyed tn_id tenants" "t \<in> set tenants" "tn_live t"
    and "grant_is_active now g" "ro_deleted (rg_role g) = None"
  shows "covers_tenant (context_desc groups cache) now g t \<longleftrightarrow>
    tn_id t \<in> set (scoped_tenant_ids (context_desc groups cache) tenants g) \<or>
    (\<exists>owner_id. principal_tenant_id g = Some owner_id \<and>
       (\<exists>s \<in> set (rg_scopes g). sc_type s = ScopeOwn \<and>
          scope_covers (context_desc groups cache) g owner_id t s))"
proof -
  let ?d = "context_desc groups cache" and ?p = "tn_id (ro_tenant (rg_role g))"
  have owner: "o' = ?p" if "scope_covers ?d g o' t s" "sc_type s \<noteq> ScopeOwn" for o' s
    using that by (simp add: scope_covers_def Let_def split: if_splits)
  have "covers_tenant ?d now g t \<longleftrightarrow>
      (\<exists>o' s. principal_tenant_id g = Some o' \<and> s \<in> set (rg_scopes g) \<and> scope_covers ?d g o' t s)"
    using assms(4,5) by (auto simp: covers_tenant_def split: option.splits)
  also have "\<dots> \<longleftrightarrow>
      (\<exists>s \<in> set (rg_scopes g). sc_type s \<noteq> ScopeOwn \<and> principal_tenant_id g = Some ?p \<and>
         scope_covers ?d g ?p t s) \<or>
      (\<exists>o'. principal_tenant_id g = Some o' \<and>
         (\<exists>s \<in> set (rg_scopes g). sc_type s = ScopeOwn \<and> scope_covers ?d g o' t s))"
    using owner by metis
  finally show ?thesis unfolding context_resolver.scoped_iff[OF assms(1-3)] .
qed

section \<open>Management depth\<close>

text \<open>What \<open>Tenant.clean\<close> protects: every live managed tenant has an unmanaged provider as manager,
  which is another tenant.\<close>

definition management_ok :: "tenant list \<Rightarrow> bool" where
  "management_ok tenants \<longleftrightarrow>
     (\<forall>t \<in> set tenants. tn_live t \<longrightarrow>
        (case tn_managed_by t of
           None \<Rightarrow> True
         | Some m \<Rightarrow> m \<noteq> tn_id t \<and>
             (\<exists>p \<in> set tenants. tn_id p = m \<and> tn_is_provider p \<and> tn_managed_by p = None)))"

definition save_tenant :: "tenant \<Rightarrow> tenant list \<Rightarrow> tenant list" where
  "save_tenant t tenants =
     (if tn_id t \<in> tn_id ` set tenants then save_row tn_id t tenants else tenants @ [t])"

lemma mem_save_tenant: "t \<in> set (save_tenant s tenants) \<longleftrightarrow> t = s \<or> (t \<in> set tenants \<and> tn_id t \<noteq> tn_id s)"
proof (cases "tn_id s \<in> tn_id ` set tenants")
  case True
  then show ?thesis by (simp add: save_tenant_def mem_save_row)
next
  case False
  then have "tn_id t \<noteq> tn_id s" if "t \<in> set tenants" using that by (auto intro: rev_image_eqI)
  with False show ?thesis by (auto simp: save_tenant_def)
qed

section \<open>Properties\<close>

text \<open>The two implementations of a grant's reach agree: for an unexpired grant of a live role and a
  live tenant of the table, \<open>covers_tenant\<close> holds exactly when one of the grant's own-tenant scopes
  covers the tenant or \<open>scoped_tenant_ids\<close> lists it.\<close>

theorem covers_iff_scoped:
  assumes "keyed tn_id tenants" "t \<in> set tenants" "tn_live t"
    and "grant_is_active now g" "ro_deleted (rg_role g) = None"
  shows "covers_tenant (context_desc groups cache) now g t \<longleftrightarrow>
    tn_id t \<in> set (scoped_tenant_ids (context_desc groups cache) tenants g) \<or>
    (\<exists>owner_id. principal_tenant_id g = Some owner_id \<and>
       (\<exists>s \<in> set (rg_scopes g). sc_type s = ScopeOwn \<and>
          scope_covers (context_desc groups cache) g owner_id t s))"
  using assms by (rule covers_split)

definition sample_provider :: tenant where
  "sample_provider = \<lparr>tn_id = 1, tn_name = ''msp'', tn_group = None, tn_managed_by = None,
     tn_is_provider = True, tn_deleted = None\<rparr>"

definition sample_customer :: tenant where
  "sample_customer = \<lparr>tn_id = 2, tn_name = ''cust'', tn_group = Some 2, tn_managed_by = Some 1,
     tn_is_provider = False, tn_deleted = None\<rparr>"

definition sample_stranger :: tenant where
  "sample_stranger = \<lparr>tn_id = 3, tn_name = ''other'', tn_group = Some 2, tn_managed_by = None,
     tn_is_provider = False, tn_deleted = None\<rparr>"

lemmas sample_tenants = sample_provider_def sample_customer_def sample_stranger_def

definition sample_role :: role where
  "sample_role = \<lparr>ro_id = 7, ro_name = ''Technician'', ro_tenant = sample_provider,
     ro_permissions = [Perm ''assets.view_asset''], ro_shared_with_managed = False, ro_deleted = None\<rparr>"

definition sample_member :: membership where
  "sample_member = \<lparr>mb_id = 5, mb_user = 9, mb_tenant = sample_provider, mb_active = True\<rparr>"

definition sample_grant :: role_grant where
  "sample_grant = \<lparr>rg_id = 11, rg_membership = Some sample_member, rg_user_group = None,
     rg_role = sample_role,
     rg_scopes = [\<lparr>sc_id = 1, sc_type = ScopeTenantGroup, sc_tenant = None, sc_group = Some 1\<rparr>],
     rg_reason = [], rg_valid_until = Some 100\<rparr>"

lemmas sample_grants = sample_role_def sample_member_def sample_grant_def

lemma sample_keyed: "keyed tn_id [sample_provider, sample_customer, sample_stranger]"
  by (simp add: keyed_def sample_tenants)

lemma sample_walk: "descendants_of sample_groups 1 True = [1, 2, 3]"
  by (simp add: descendants_of_def sample_groups_def visible_groups_def tg_live_def
      live_group_exists_def descend.simps child_ids_def Let_def)

lemma sample_covers: "covers_tenant (context_desc sample_groups Map.empty) 50 sample_grant sample_customer"
  by (simp add: context_desc_eq walk_desc_def sample_walk covers_tenant_def grant_is_active_def sample_grants
      principal_tenant_id_def scope_covers_def sample_tenants Let_def)

theorem covers_iff_scoped_witness:
  "covers_tenant (context_desc sample_groups Map.empty) 50 sample_grant sample_customer \<and>
   2 \<in> set (scoped_tenant_ids (context_desc sample_groups Map.empty)
              [sample_provider, sample_customer, sample_stranger] sample_grant)"
proof -
  have "\<not> (\<exists>s \<in> set (rg_scopes sample_grant). sc_type s = ScopeOwn)" by (simp add: sample_grants)
  then show ?thesis
    using sample_covers covers_iff_scoped[OF sample_keyed, of sample_customer 50 sample_grant sample_groups Map.empty]
    by (auto simp: tn_live_def sample_tenants sample_grants grant_is_active_def)
qed

text \<open>C3. Tenant isolation of grants: whatever a grant's scopes say, it covers only the principal's own
  tenant, or a tenant directly managed by the provider that owns both the role and the principal,
  or (a role shared with managed tenants) the member's own tenant managed by the role's owner.\<close>

theorem covers_isolation:
  assumes "covers_tenant desc now g t"
  shows "grant_is_active now g \<and> ro_deleted (rg_role g) = None \<and>
    (principal_tenant_id g = Some (tn_id t) \<or>
     (principal_tenant_id g = Some (tn_id (ro_tenant (rg_role g))) \<and>
      tn_is_provider (ro_tenant (rg_role g)) \<and>
      tn_managed_by t = Some (tn_id (ro_tenant (rg_role g)))))"
  using assms
  by (auto simp: covers_tenant_def scope_covers_def Let_def split: if_splits option.splits)

theorem covers_isolation_witness:
  "covers_tenant (context_desc sample_groups Map.empty) 50 sample_grant sample_customer \<and>
   \<not> covers_tenant (context_desc sample_groups Map.empty) 50 sample_grant sample_stranger \<and>
   tn_managed_by sample_customer = Some 1"
proof -
  have "\<not> covers_tenant (context_desc sample_groups Map.empty) 50 sample_grant sample_stranger"
    using covers_isolation[of "context_desc sample_groups Map.empty" 50 sample_grant sample_stranger]
    by (auto simp: sample_tenants sample_grants principal_tenant_id_def)
  with sample_covers covers_isolation[OF sample_covers] show ?thesis
    by (auto simp: sample_tenants sample_grants principal_tenant_id_def)
qed

text \<open>Management stays one level deep: saving a tenant whose \<open>clean\<close> passed keeps every live managed
  tenant under an existing, unmanaged provider other than itself.\<close>

theorem tenant_clean_keeps_depth_one:
  assumes "management_ok tenants" "tenant_clean tenants (Some (tn_id s)) s = Inr ()"
  shows "management_ok (save_tenant s tenants)"
proof -
  have own: "m \<noteq> tn_id s \<and> \<not> tn_is_provider s \<and>
      (\<exists>p \<in> set tenants. tn_id p = m \<and> tn_is_provider p \<and> tn_managed_by p = None)"
    if "tn_managed_by s = Some m" for m
    using assms(2) that
    by (auto simp: tenant_clean_def result_simps dest: find_row_SomeD split: if_splits option.splits)
  have still: "tn_is_provider s" if "t \<in> set tenants" "tn_managed_by t = Some (tn_id s)" "tn_live t" for t
    using assms(2) that by (auto simp: tenant_clean_def result_simps split: if_splits)
  show ?thesis
    unfolding management_ok_def
  proof (intro ballI impI)
    fix t assume t: "t \<in> set (save_tenant s tenants)" "tn_live t"
    show "case tn_managed_by t of None \<Rightarrow> True
      | Some m \<Rightarrow> m \<noteq> tn_id t \<and>
          (\<exists>p \<in> set (save_tenant s tenants). tn_id p = m \<and> tn_is_provider p \<and> tn_managed_by p = None)"
    proof (cases "tn_managed_by t")
      case (Some m)
      have "m \<noteq> tn_id t \<and> (\<exists>p \<in> set tenants. tn_id p = m \<and> tn_is_provider p \<and> tn_managed_by p = None)"
        using t Some own assms(1) by (auto simp: mem_save_tenant management_ok_def)
      moreover have "tn_is_provider s \<and> tn_managed_by s = None" if "m = tn_id s"
        using t Some own still that by (cases "tn_managed_by s") (auto simp: mem_save_tenant)
      ultimately have "\<exists>p \<in> set (save_tenant s tenants). tn_id p = m \<and> tn_is_provider p \<and> tn_managed_by p = None"
        by (cases "m = tn_id s") (auto simp: mem_save_tenant)
      with \<open>m \<noteq> tn_id t \<and> _\<close> Some show ?thesis by simp
    qed simp
  qed
qed

theorem tenant_clean_keeps_depth_one_witness:
  "tenant_clean [sample_provider, sample_stranger] (Some 2) sample_customer = Inr () \<and>
   management_ok (save_tenant sample_customer [sample_provider, sample_stranger]) \<and>
   tenant_clean [sample_provider, sample_customer] (Some 1) (sample_provider\<lparr>tn_deleted := Some 5\<rparr>)
     = Inl StillManages"
proof -
  have ok: "tenant_clean [sample_provider, sample_stranger] (Some (tn_id sample_customer)) sample_customer = Inr ()"
    by (simp add: tenant_clean_def sample_tenants)
  have m: "management_ok [sample_provider, sample_stranger]"
    by (simp add: management_ok_def sample_tenants)
  show ?thesis using ok tenant_clean_keeps_depth_one[OF m ok]
    by (simp add: tenant_clean_def sample_tenants tn_live_def)
qed

text \<open>Validation accepts only effective own-tenant scopes: when a grant and its own scope pass
  \<open>clean\<close>, the live grant covers the tenant of its principal.\<close>

theorem clean_own_scope_effective:
  assumes "role_grant_clean now g = Inr ()"
    and "role_grant_scope_clean tenants False (Some g) s = Inr ()"
    and "sc_type s = ScopeOwn" "s \<in> set (rg_scopes g)"
    and "grant_is_active now g" "ro_deleted (rg_role g) = None"
    and "principal_tenant_id g = Some (tn_id t)"
    and "\<And>m. rg_membership g = Some m \<Longrightarrow> mb_tenant m = t"
  shows "covers_tenant desc now g t"
proof -
  have "scope_covers desc g (tn_id t) t s"
    using assms(2,3,7,8)
    by (auto simp: role_grant_scope_clean_def scope_shape_def scope_covers_def result_simps Let_def
        split: if_splits option.splits)
  then show ?thesis using assms(4-7) by (auto simp: covers_tenant_def)
qed

theorem clean_own_scope_effective_witness:
  "covers_tenant (walk_desc []) 50
     (sample_grant\<lparr>rg_scopes := [\<lparr>sc_id = 1, sc_type = ScopeOwn, sc_tenant = None, sc_group = None\<rparr>]\<rparr>)
     sample_provider"
proof -
  define s where "s = \<lparr>sc_id = 1, sc_type = ScopeOwn, sc_tenant = None, sc_group = None\<rparr>"
  define g where "g = sample_grant\<lparr>rg_scopes := [s]\<rparr>"
  note defs = g_def s_def sample_grants sample_tenants
  have "role_grant_clean 50 g = Inr ()"
    by (simp add: defs role_grant_clean_def principal_tenant_id_def role_is_privileged_def
        role_name_is_privileged_def PRIVILEGED_ROLE_NAMES_def py_lower_def py_lower_char_def
        after_last_dot_def starts_with_def Let_def)
  moreover have "role_grant_scope_clean [] False (Some g) s = Inr ()"
    by (simp add: defs role_grant_scope_clean_def scope_shape_def principal_tenant_id_def Let_def)
  ultimately have "covers_tenant (walk_desc []) 50 g sample_provider"
    by (rule clean_own_scope_effective)
      (simp_all add: defs grant_is_active_def principal_tenant_id_def)
  then show ?thesis by (simp add: g_def s_def)
qed

end
