(* ===== verification/AuthContext.thy ===== *)
theory AuthContext
  imports Grants
begin

text \<open>
  The request-scoped runtime context of \<^verbatim>\<open>core/context.py\<close>: one record holds the context
  variables, the setters with their cache resets, the temporary tenant override, and the system
  authorizations that actorless tasks issue and consumers verify.  Object identity, which the
  authorization check relies on (\<open>is\<close>), is an integer taken from a counter that only grows.
  \<open>cx_scope_cache\<close> is the descendant memo owned by this module; \<open>cx_tree_cache\<close> is the separate
  memo of \<^verbatim>\<open>core/tenant_scope.py\<close>, which none of the setters here touches.
\<close>

section \<open>State\<close>

record user =
  us_id :: pk
  us_username :: string
  us_authenticated :: bool
  us_active :: bool
  us_can_login :: bool
  us_superuser :: bool

record sysauth =
  sa_object :: int
  sa_tenant :: pk
  sa_permission :: string
  sa_operation :: string
  sa_reason :: string
  sa_request :: "int option"
  sa_issuer :: int

record ctx =
  cx_tenant :: "tenant option"
  cx_group :: "pk option"
  cx_membership :: "membership option"
  cx_all_accessible :: bool
  cx_scope_cache :: "(pk \<Rightarrow> pk list option) option"
  cx_user :: "user option"
  cx_request :: "int option"
  cx_csp_nonce :: "string option"
  cx_sys_scope :: "int option"
  cx_issued :: "sysauth list"
  cx_tree_cache :: group_cache
  cx_objects :: int

section \<open>Setters\<close>

definition set_current_tenant :: "tenant option \<Rightarrow> ctx \<Rightarrow> ctx" where
  "set_current_tenant t c = c\<lparr>cx_tenant := t, cx_scope_cache := None\<rparr>"

definition set_current_tenant_group :: "pk option \<Rightarrow> ctx \<Rightarrow> ctx" where
  "set_current_tenant_group g c = c\<lparr>cx_group := g, cx_scope_cache := None\<rparr>"

definition set_current_membership :: "membership option \<Rightarrow> ctx \<Rightarrow> ctx" where
  "set_current_membership m c = c\<lparr>cx_membership := m, cx_scope_cache := None\<rparr>"

definition set_current_all_accessible :: "bool \<Rightarrow> ctx \<Rightarrow> ctx" where
  "set_current_all_accessible b c = c\<lparr>cx_all_accessible := b, cx_scope_cache := None\<rparr>"

lemmas ctx_setters = set_current_tenant_def set_current_tenant_group_def set_current_membership_def
  set_current_all_accessible_def

text \<open>\<open>override_current_tenant_scope\<close>: the five variables are bound, the body runs, and each
  variable is reset to the value it had before, whether or not the body raised.\<close>

definition override_enter :: "tenant option \<Rightarrow> membership option \<Rightarrow> ctx \<Rightarrow> ctx" where
  "override_enter t m c = c\<lparr>cx_tenant := t, cx_group := None, cx_membership := m,
     cx_all_accessible := False, cx_scope_cache := None\<rparr>"

definition override_exit :: "ctx \<Rightarrow> ctx \<Rightarrow> ctx" where
  "override_exit outer c = c\<lparr>cx_scope_cache := cx_scope_cache outer,
     cx_all_accessible := cx_all_accessible outer, cx_membership := cx_membership outer,
     cx_group := cx_group outer, cx_tenant := cx_tenant outer\<rparr>"

definition override_current_tenant_scope ::
    "tenant option \<Rightarrow> membership option \<Rightarrow> (ctx \<Rightarrow> 'a \<times> ctx) \<Rightarrow> ctx \<Rightarrow> 'a \<times> ctx" where
  "override_current_tenant_scope t m body c =
     (let (r, c') = body (override_enter t m c) in (r, override_exit c c'))"

section \<open>System authorizations\<close>

definition is_valid_for :: "ctx \<Rightarrow> sysauth \<Rightarrow> pk \<Rightarrow> string \<Rightarrow> string \<Rightarrow> int option \<Rightarrow> bool" where
  "is_valid_for c a tenant_id permission operation request_id =
     (case cx_sys_scope c of
        None \<Rightarrow> False
      | Some active_scope \<Rightarrow>
          sa_issuer a = active_scope
          \<and> (\<exists>issued \<in> set (cx_issued c). sa_object a = sa_object issued)
          \<and> sa_tenant a = tenant_id
          \<and> sa_permission a = permission
          \<and> sa_operation a = operation
          \<and> py_strip (sa_reason a) \<noteq> []
          \<and> sa_request a \<noteq> None
          \<and> sa_request a = request_id)"

definition has_valid_system_authorization :: "ctx \<Rightarrow> pk \<Rightarrow> string \<Rightarrow> string \<Rightarrow> bool" where
  "has_valid_system_authorization c tenant_id permission operation =
     (if cx_sys_scope c = None \<or> cx_request c = None then False
      else (\<exists>a \<in> set (cx_issued c). is_valid_for c a tenant_id permission operation (cx_request c)))"

datatype issue_error = NotIssuedByActiveContext

definition issue_system_authorization ::
    "pk \<Rightarrow> string \<Rightarrow> string \<Rightarrow> string \<Rightarrow> int option \<Rightarrow> int option \<Rightarrow> ctx \<Rightarrow> issue_error + (sysauth \<times> ctx)" where
  "issue_system_authorization tenant_id permission operation reason request_id issuer c =
     (case issuer of
        None \<Rightarrow> Inl NotIssuedByActiveContext
      | Some i \<Rightarrow>
          if Some i \<noteq> cx_sys_scope c \<or> request_id = None \<or> request_id \<noteq> cx_request c
             \<or> Some tenant_id \<noteq> map_option tn_id (cx_tenant c)
          then Inl NotIssuedByActiveContext
          else
            (let a = \<lparr>sa_object = cx_objects c, sa_tenant = tenant_id, sa_permission = permission,
                       sa_operation = operation, sa_reason = reason, sa_request = request_id,
                       sa_issuer = i\<rparr>
             in Inr (a, c\<lparr>cx_issued := cx_issued c @ [a], cx_objects := cx_objects c + 1\<rparr>)))"

section \<open>Contradictory scopes\<close>

definition scope_conflict :: "ctx \<Rightarrow> user option \<Rightarrow> bool" where
  "scope_conflict c u =
     (case u of
        None \<Rightarrow> False
      | Some x \<Rightarrow>
          if \<not> us_authenticated x \<or> us_superuser x then False
          else sum_list (map of_bool [cx_tenant c \<noteq> None, cx_group c \<noteq> None, cx_all_accessible c]) > (1 :: nat))"

section \<open>Lemmas\<close>

text \<open>Object identities in circulation are below the counter, and an authorization is determined by
  its identity.\<close>

definition issued_ok :: "ctx \<Rightarrow> bool" where
  "issued_ok c \<longleftrightarrow>
     (\<forall>a \<in> set (cx_issued c). sa_object a < cx_objects c) \<and> distinct (map sa_object (cx_issued c))"

lemma issue_keeps_issued_ok:
  assumes "issued_ok c" "issue_system_authorization t p op r rid iss c = Inr (a, c')"
  shows "issued_ok c'"
  using assms by (fastforce simp: issue_system_authorization_def issued_ok_def Let_def split: option.splits if_splits)

lemma override_restores:
  "snd (override_current_tenant_scope t m body c) =
     override_exit c (snd (body (override_enter t m c)))"
  by (simp add: override_current_tenant_scope_def split: prod.split)

text \<open>An authorization with a non-blank reason is valid for exactly what it was issued for, and only where
  its issuing scope is active and holds that very object.\<close>

lemma issued_valid_iff:
  assumes "issue_system_authorization t p op r rid iss c = Inr (a, c')" "py_strip r \<noteq> []"
  shows "is_valid_for c' a t' p' op' rid' \<longleftrightarrow> t' = t \<and> p' = p \<and> op' = op \<and> rid' = rid"
  using assms
  by (auto simp: issue_system_authorization_def is_valid_for_def Let_def split: option.splits if_splits)

lemma foreign_scope_refuses:
  assumes "cx_sys_scope c \<noteq> Some (sa_issuer a) \<or> sa_object a \<notin> sa_object ` set (cx_issued c)"
  shows "\<not> is_valid_for c a t p op rid"
  using assms by (auto simp: is_valid_for_def split: option.splits)

definition sample_ctx :: ctx where
  "sample_ctx = \<lparr>cx_tenant = Some sample_customer, cx_group = None, cx_membership = None,
     cx_all_accessible = False, cx_scope_cache = None, cx_user = None, cx_request = Some 77,
     cx_csp_nonce = None, cx_sys_scope = Some 4, cx_issued = [], cx_tree_cache = Map.empty,
     cx_objects = 5\<rparr>"

section \<open>Properties\<close>

text \<open>A temporary tenant override leaves the surrounding tenancy scope exactly as it was, whatever
  its body does to the context.\<close>

theorem override_is_transparent:
  "let c' = snd (override_current_tenant_scope t m body c)
   in cx_tenant c' = cx_tenant c \<and> cx_group c' = cx_group c \<and> cx_membership c' = cx_membership c \<and>
      cx_all_accessible c' = cx_all_accessible c \<and> cx_scope_cache c' = cx_scope_cache c"
  by (simp add: override_restores override_exit_def)

end
