(* ===== verification/AuthCache.thy ===== *)
theory AuthCache
  imports AuthContext
begin

text \<open>
  Cross-instance invalidation of request-local authorization memos,
  \<^verbatim>\<open>core/authorization_cache.py\<close>.  A \<open>user_memo\<close> is the authorization part of one Python \<open>User\<close>
  instance's \<open>__dict__\<close>; \<open>authz\<close> is what all instances share: the request's invalidation epochs,
  the shared cache with its availability, and the callbacks deferred to the commit.  Generation
  tokens (\<open>uuid4().hex\<close>) are numbers from a counter that only grows.
\<close>

section \<open>State\<close>

type_synonym perm_entry = "permission list \<times> instant option"

record user_memo =
  um_version :: "(int option \<times> int option) option"
  um_token :: "(int \<times> nat \<times> nat) option"
  um_perms_tenant :: "pk \<Rightarrow> perm_entry option"
  um_group_scope_tenants :: "pk \<Rightarrow> (tenant list \<times> instant option) option"
  um_group_scope_ids :: "pk \<Rightarrow> pk list option"
  um_all_accessible_group_ids :: "(pk list \<times> pk list) option"
  um_all_accessible_scope_tenants :: "(tenant list \<times> instant option) option"
  um_accessible_ids :: "pk list option"
  um_accessible_valid_until :: "instant option"
  um_applicable_grants :: "role_grant list option"
  um_all_accessible_perms :: "permission list option"
  um_tenant_permissions_map :: "(pk \<times> perm_entry) list option"

definition fresh_memo :: user_memo where
  "fresh_memo = \<lparr>um_version = None, um_token = None, um_perms_tenant = Map.empty,
     um_group_scope_tenants = Map.empty, um_group_scope_ids = Map.empty,
     um_all_accessible_group_ids = None, um_all_accessible_scope_tenants = None,
     um_accessible_ids = None, um_accessible_valid_until = None, um_applicable_grants = None,
     um_all_accessible_perms = None, um_tenant_permissions_map = None\<rparr>"

datatype cache_key = UserVersion pk | TopologyVersion

datatype commit_callback = PublishUser pk | PublishTopology

record authz =
  az_inval :: "(int \<times> (pk \<Rightarrow> nat) \<times> nat) option"
  az_cache :: "cache_key \<Rightarrow> int option"
  az_cache_up :: bool
  az_uuid :: int
  az_atomic :: bool
  az_on_commit :: "commit_callback list"

section \<open>Request epochs\<close>

definition begin_authorization_request :: "int \<Rightarrow> authz \<Rightarrow> authz" where
  "begin_authorization_request request_id st = st\<lparr>az_inval := Some (request_id, (\<lambda>_. 0), 0)\<rparr>"

definition end_authorization_request ::
    "(int \<times> (pk \<Rightarrow> nat) \<times> nat) option \<Rightarrow> authz \<Rightarrow> authz" where
  "end_authorization_request outer st = st\<lparr>az_inval := outer\<rparr>"

text \<open>\<open>_request_state\<close>: the epochs of the active request, created on first use.\<close>

definition request_state ::
    "int option \<Rightarrow> authz \<Rightarrow> (int \<times> (pk \<Rightarrow> nat) \<times> nat) option \<times> authz" where
  "request_state request_id st =
     (case request_id of
        None \<Rightarrow> (None, st)
      | Some rid \<Rightarrow>
          (case az_inval st of
             Some (r, es, t) \<Rightarrow>
               if r = rid then (Some (r, es, t), st)
               else (Some (rid, (\<lambda>_. 0), 0), st\<lparr>az_inval := Some (rid, (\<lambda>_. 0), 0)\<rparr>)
           | None \<Rightarrow> (Some (rid, (\<lambda>_. 0), 0), st\<lparr>az_inval := Some (rid, (\<lambda>_. 0), 0)\<rparr>)))"

definition request_sync_token ::
    "int option \<Rightarrow> pk \<Rightarrow> authz \<Rightarrow> (int \<times> nat \<times> nat) option \<times> authz" where
  "request_sync_token request_id uid st =
     (case request_state request_id st of
        (None, st') \<Rightarrow> (None, st')
      | (Some (rid, epochs, topology), st') \<Rightarrow> (Some (rid, epochs uid, topology), st'))"

definition mark_request_user_invalidated :: "int option \<Rightarrow> pk \<Rightarrow> authz \<Rightarrow> authz" where
  "mark_request_user_invalidated request_id uid st =
     (case request_state request_id st of
        (None, st') \<Rightarrow> st'
      | (Some (rid, epochs, topology), st') \<Rightarrow>
          st'\<lparr>az_inval := Some (rid, epochs(uid := epochs uid + 1), topology)\<rparr>)"

definition mark_request_topology_invalidated :: "int option \<Rightarrow> authz \<Rightarrow> authz" where
  "mark_request_topology_invalidated request_id st =
     (case request_state request_id st of
        (None, st') \<Rightarrow> st'
      | (Some (rid, epochs, topology), st') \<Rightarrow> st'\<lparr>az_inval := Some (rid, epochs, topology + 1)\<rparr>)"

section \<open>Clearing a memo\<close>

definition LOCAL_VERSION_ATTR :: string where
  "LOCAL_VERSION_ATTR = ''_authorization_cache_version''"

definition LOCAL_SYNC_TOKEN_ATTR :: string where
  "LOCAL_SYNC_TOKEN_ATTR = ''_authorization_cache_sync_token''"

definition LOCAL_CACHE_PREFIXES :: "string list" where
  "LOCAL_CACHE_PREFIXES =
     [''_perms_tenant_'', ''_group_scope_tenants_'', ''_all_accessible_scope_tenants'',
      ''_all_accessible_group_ids'', ''_accessible_tenant_ids'', ''_applicable_grants'',
      ''_all_accessible_perms'', ''_tenant_permissions_map'']"

definition is_authorization_attr :: "string \<Rightarrow> bool" where
  "is_authorization_attr attr \<longleftrightarrow>
     attr = LOCAL_VERSION_ATTR \<or> attr = LOCAL_SYNC_TOKEN_ATTR
     \<or> (\<exists>p \<in> set LOCAL_CACHE_PREFIXES. starts_with attr p)"

definition keep_attr :: "string \<Rightarrow> 'a option \<Rightarrow> 'a option" where
  "keep_attr attr v = (if is_authorization_attr attr then None else v)"

text \<open>\<open>clear_local_authorization_cache\<close>, attribute by attribute under its Python name.\<close>

definition clear_local_authorization_cache :: "user_memo \<Rightarrow> user_memo" where
  "clear_local_authorization_cache m = \<lparr>
     um_version = keep_attr LOCAL_VERSION_ATTR (um_version m),
     um_token = keep_attr LOCAL_SYNC_TOKEN_ATTR (um_token m),
     um_perms_tenant = (\<lambda>t. keep_attr (''_perms_tenant_'' @ py_str_int t) (um_perms_tenant m t)),
     um_group_scope_tenants =
       (\<lambda>g. keep_attr (''_group_scope_tenants_'' @ py_str_int g) (um_group_scope_tenants m g)),
     um_group_scope_ids =
       (\<lambda>g. keep_attr (''_group_scope_tenants_ids_'' @ py_str_int g) (um_group_scope_ids m g)),
     um_all_accessible_group_ids = keep_attr ''_all_accessible_group_ids'' (um_all_accessible_group_ids m),
     um_all_accessible_scope_tenants =
       keep_attr ''_all_accessible_scope_tenants'' (um_all_accessible_scope_tenants m),
     um_accessible_ids = keep_attr ''_accessible_tenant_ids'' (um_accessible_ids m),
     um_accessible_valid_until =
       keep_attr ''_accessible_tenant_ids_valid_until'' (um_accessible_valid_until m),
     um_applicable_grants = keep_attr ''_applicable_grants'' (um_applicable_grants m),
     um_all_accessible_perms = keep_attr ''_all_accessible_perms'' (um_all_accessible_perms m),
     um_tenant_permissions_map = keep_attr ''_tenant_permissions_map'' (um_tenant_permissions_map m)\<rparr>"

section \<open>Publishing\<close>

text \<open>A write while the cache is unavailable is logged and swallowed; the token is spent either way.\<close>

definition publish_version :: "cache_key \<Rightarrow> authz \<Rightarrow> authz" where
  "publish_version k st =
     (let st' = st\<lparr>az_uuid := az_uuid st + 1\<rparr>
      in if az_cache_up st then st'\<lparr>az_cache := (az_cache st)(k \<mapsto> az_uuid st)\<rparr> else st')"

definition publish_user_version :: "pk \<Rightarrow> authz \<Rightarrow> authz" where
  "publish_user_version uid = publish_version (UserVersion uid)"

definition publish_topology_version :: "authz \<Rightarrow> authz" where
  "publish_topology_version = publish_version TopologyVersion"

definition repeat_after_commit :: "commit_callback \<Rightarrow> authz \<Rightarrow> authz" where
  "repeat_after_commit cb st =
     (if az_atomic st then st\<lparr>az_on_commit := az_on_commit st @ [cb]\<rparr> else st)"

fun run_callback :: "commit_callback \<Rightarrow> authz \<Rightarrow> authz" where
  "run_callback (PublishUser uid) st = publish_user_version uid st"
| "run_callback PublishTopology st = publish_topology_version st"

text \<open>Leaving the outermost atomic block runs the deferred callbacks in order.\<close>

definition commit :: "authz \<Rightarrow> authz" where
  "commit st = fold run_callback (az_on_commit st) (st\<lparr>az_atomic := False, az_on_commit := []\<rparr>)"

section \<open>Invalidation and synchronization\<close>

text \<open>\<open>invalidate_user_authorization_cache\<close>; the memo is that of the instance passed in, \<open>None\<close> when
  the caller passed a bare id.\<close>

definition invalidate_user_authorization_cache ::
    "int option \<Rightarrow> pk option \<Rightarrow> user_memo option \<Rightarrow> authz \<Rightarrow> user_memo option \<times> authz" where
  "invalidate_user_authorization_cache request_id user_id memo st =
     (case user_id of
        None \<Rightarrow> (memo, st)
      | Some uid \<Rightarrow>
          (let st1 = mark_request_user_invalidated request_id uid st;
               memo1 = map_option clear_local_authorization_cache memo;
               st2 = publish_user_version uid st1
           in (memo1, repeat_after_commit (PublishUser uid) st2)))"

definition invalidate_authorization_topology :: "int option \<Rightarrow> authz \<Rightarrow> authz" where
  "invalidate_authorization_topology request_id st =
     repeat_after_commit PublishTopology
       (publish_topology_version (mark_request_topology_invalidated request_id st))"

definition synchronize_authorization_cache ::
    "int option \<Rightarrow> pk \<Rightarrow> user_memo \<Rightarrow> authz \<Rightarrow> user_memo \<times> authz" where
  "synchronize_authorization_cache request_id uid m st =
     (let (sync_token, st1) = request_sync_token request_id uid st
      in if sync_token \<noteq> None \<and> um_token m = sync_token then (m, st1)
         else
           (let crossed = (case (sync_token, um_token m) of
                             (Some (rid, _), Some (rid', _)) \<Rightarrow> rid' \<noteq> rid
                           | _ \<Rightarrow> False);
                local_invalidation = (case sync_token of
                             None \<Rightarrow> False
                           | Some (_, e, t) \<Rightarrow> e \<noteq> 0 \<or> t \<noteq> 0);
                (version, st2) =
                  (if az_cache_up st1
                   then ((az_cache st1 (UserVersion uid), az_cache st1 TopologyVersion), st1)
                   else ((Some (az_uuid st1), Some (az_uuid st1 + 1)),
                         st1\<lparr>az_uuid := az_uuid st1 + 2\<rparr>));
                m1 = (if crossed \<or> local_invalidation \<or> um_version m \<noteq> Some version
                      then (clear_local_authorization_cache m)\<lparr>um_version := Some version\<rparr>
                      else m);
                m2 = (if az_cache_up st1 \<and> sync_token \<noteq> None then m1\<lparr>um_token := sync_token\<rparr> else m1)
            in (m2, st2)))"

definition force_authorization_generation_check ::
    "int option \<Rightarrow> pk \<Rightarrow> user_memo \<Rightarrow> authz \<Rightarrow> user_memo \<times> authz" where
  "force_authorization_generation_check request_id uid m st =
     synchronize_authorization_cache request_id uid (m\<lparr>um_token := None\<rparr>) st"

section \<open>Lemmas\<close>

lemma keep_attr_None:
  "keep_attr LOCAL_VERSION_ATTR v1 = None" "keep_attr LOCAL_SYNC_TOKEN_ATTR v2 = None"
  "keep_attr (''_perms_tenant_'' @ s) v3 = None" "keep_attr (''_group_scope_tenants_'' @ s) v4 = None"
  "keep_attr ''_all_accessible_scope_tenants'' v5 = None" "keep_attr ''_accessible_tenant_ids'' v6 = None"
  "keep_attr ''_accessible_tenant_ids_valid_until'' v7 = None" "keep_attr ''_applicable_grants'' v8 = None"
  "keep_attr ''_all_accessible_perms'' v9 = None" "keep_attr ''_tenant_permissions_map'' v10 = None"
  "keep_attr (''_group_scope_tenants_ids_'' @ s) v11 = None" "keep_attr ''_all_accessible_group_ids'' v12 = None"
  by (simp_all add: keep_attr_def is_authorization_attr_def LOCAL_CACHE_PREFIXES_def starts_with_def)

text \<open>Every attribute the authorization code writes carries one of the listed names.\<close>

lemma clear_local_is_fresh: "clear_local_authorization_cache m = fresh_memo"
  by (simp only: clear_local_authorization_cache_def fresh_memo_def keep_attr_None)

text \<open>Everything a memo answers from, without the two bookkeeping attributes.\<close>

definition same_content :: "user_memo \<Rightarrow> user_memo \<Rightarrow> bool" where
  "same_content m m' \<longleftrightarrow> m'\<lparr>um_version := um_version m, um_token := um_token m\<rparr> = m"

lemma same_content_refl [simp]: "same_content m m"
  by (simp add: same_content_def)

lemma synchronize_cases:
  obtains "same_content m (fst (synchronize_authorization_cache rid uid m st))"
  | "same_content fresh_memo (fst (synchronize_authorization_cache rid uid m st))"
proof -
  let ?s = "synchronize_authorization_cache rid uid m st"
  have "same_content m (fst ?s) \<or> same_content fresh_memo (fst ?s)"
    by (simp add: synchronize_authorization_cache_def same_content_def clear_local_is_fresh Let_def
        split: prod.split)
  then show thesis using that by blast
qed

text \<open>Tokens and generations that a memo can hold were issued before now, and a token of the active
  request was taken from its epochs.\<close>

definition memo_past :: "int option \<Rightarrow> authz \<Rightarrow> pk \<Rightarrow> user_memo \<Rightarrow> bool" where
  "memo_past rid st uid m \<longleftrightarrow>
     (\<forall>x b. um_version m = Some (Some x, b) \<longrightarrow> x < az_uuid st) \<and>
     (\<forall>r e t. rid = Some r \<and> um_token m = Some (r, e, t) \<longrightarrow>
        (\<exists>es t'. az_inval st = Some (r, es, t') \<and> e \<le> es uid \<and> t \<le> t'))"

lemma request_sync_token_None [simp]: "request_sync_token None uid st = (None, st)"
  by (simp add: request_sync_token_def request_state_def)

text \<open>After an invalidation the user's epoch in the active request is past every token handed out.\<close>

lemma mark_user_token:
  assumes "memo_past (Some r) st uid m"
  obtains e t st' where
    "request_sync_token (Some r) uid (mark_request_user_invalidated (Some r) uid st) = (Some (r, Suc e, t), st')"
    "um_token m \<noteq> Some (r, Suc e, t)" "st' = mark_request_user_invalidated (Some r) uid st"
proof -
  have "\<exists>es t. az_inval (mark_request_user_invalidated (Some r) uid st) = Some (r, es(uid := Suc (es uid)), t) \<and>
    (az_inval st = Some (r, es, t) \<or> (es = (\<lambda>_. 0) \<and> t = 0 \<and> (\<forall>es t. az_inval st \<noteq> Some (r, es, t))))"
  proof (cases "\<exists>es t. az_inval st = Some (r, es, t)")
    case True
    then show ?thesis by (auto simp: mark_request_user_invalidated_def request_state_def)
  next
    case False
    then have "request_state (Some r) st = (Some (r, (\<lambda>_. 0), 0), st\<lparr>az_inval := Some (r, (\<lambda>_. 0), 0)\<rparr>)"
      by (auto simp: request_state_def split: option.split)
    with False show ?thesis
      by (simp add: mark_request_user_invalidated_def)
  qed
  then obtain es t where inv: "az_inval (mark_request_user_invalidated (Some r) uid st) = Some (r, es(uid := Suc (es uid)), t)"
    and old: "az_inval st = Some (r, es, t) \<or> (es = (\<lambda>_. 0) \<and> t = 0 \<and> (\<forall>es t. az_inval st \<noteq> Some (r, es, t)))"
    by blast
  have "um_token m \<noteq> Some (r, Suc (es uid), t)"
    using assms old by (fastforce simp: memo_past_def)
  moreover have "request_sync_token (Some r) uid (mark_request_user_invalidated (Some r) uid st) =
      (Some (r, Suc (es uid), t), mark_request_user_invalidated (Some r) uid st)"
    by (simp add: request_sync_token_def request_state_def inv)
  ultimately show thesis using that by blast
qed

lemma mark_user_frame [simp]:
  "az_cache (mark_request_user_invalidated rid uid st) = az_cache st"
  "az_cache_up (mark_request_user_invalidated rid uid st) = az_cache_up st"
  "az_uuid (mark_request_user_invalidated rid uid st) = az_uuid st"
  by (auto simp: mark_request_user_invalidated_def request_state_def split: option.splits if_splits prod.splits)

lemma publish_frame [simp]:
  "az_inval (publish_version k st) = az_inval st" "az_cache_up (publish_version k st) = az_cache_up st"
  "az_uuid (publish_version k st) = az_uuid st + 1"
  by (simp_all add: publish_version_def Let_def)

lemma repeat_frame [simp]:
  "az_inval (repeat_after_commit cb st) = az_inval st" "az_cache_up (repeat_after_commit cb st) = az_cache_up st"
  "az_uuid (repeat_after_commit cb st) = az_uuid st" "az_cache (repeat_after_commit cb st) = az_cache st"
  by (simp_all add: repeat_after_commit_def)

lemma request_sync_token_inval_cong:
  "az_inval a = az_inval b \<Longrightarrow> fst (request_sync_token rid uid a) = fst (request_sync_token rid uid b)"
  by (auto simp: request_sync_token_def request_state_def split: option.splits if_splits prod.splits)

lemma request_sync_token_frame:
  "request_sync_token rid uid st = (tok, st') \<Longrightarrow>
     az_cache st' = az_cache st \<and> az_cache_up st' = az_cache_up st \<and> az_uuid st' = az_uuid st"
  by (auto simp: request_sync_token_def request_state_def split: option.splits if_splits prod.splits)

section \<open>Properties\<close>

text \<open>C32. Invalidating a user's authorization reaches every instance of that user: another instance that
  synchronizes afterwards, in the same request or outside any request, with the shared cache up
  or down, answers from an empty memo.\<close>

theorem invalidation_reaches_every_instance:
  assumes "memo_past rid st uid m" "rid' = rid \<or> rid' = None"
  shows "same_content fresh_memo
    (fst (synchronize_authorization_cache rid' uid m
            (snd (invalidate_user_authorization_cache rid (Some uid) memo st))))"
proof -
  define st1 where "st1 = snd (invalidate_user_authorization_cache rid (Some uid) memo st)"
  obtain tok st2 where tok: "request_sync_token rid' uid st1 = (tok, st2)" by (cases "request_sync_token rid' uid st1")
  note frame = request_sync_token_frame[OF tok]
  have st1: "az_inval st1 = az_inval (mark_request_user_invalidated rid uid st)"
    "az_uuid st1 = az_uuid st + 1" "az_cache_up st1 = az_cache_up st"
    "az_cache_up st \<Longrightarrow> az_cache st1 (UserVersion uid) = Some (az_uuid st)"
    by (simp_all add: st1_def invalidate_user_authorization_cache_def publish_user_version_def Let_def)
      (simp add: publish_version_def Let_def)
  have new: "\<not> (tok \<noteq> None \<and> um_token m = tok)"
  proof (cases rid')
    case None
    with tok show ?thesis by simp
  next
    case (Some r)
    with assms have "memo_past (Some r) st uid m" "rid = Some r" by auto
    from mark_user_token[OF this(1)] this(2) tok Some show ?thesis
      using request_sync_token_inval_cong[OF st1(1), of rid' uid] by (metis fst_conv)
  qed
  have version: "um_version m \<noteq> Some (az_cache st2 (UserVersion uid), b)" if "az_cache_up st2" for b
    using assms(1) frame st1 that by (auto simp: memo_past_def)
  have version': "um_version m \<noteq> Some (Some (az_uuid st2), b)" for b
    using assms(1) frame st1 by (auto simp: memo_past_def)
  have go: "(tok \<noteq> None \<and> um_token m = tok) = False" using new by simp
  show ?thesis
    using version version' unfolding st1_def[symmetric]
    by (simp only: synchronize_authorization_cache_def tok Let_def prod.case go if_False)
      (simp add: same_content_def clear_local_is_fresh)
qed

definition sample_authz :: authz where
  "sample_authz = \<lparr>az_inval = None, az_cache = Map.empty, az_cache_up = True, az_uuid = 10,
     az_atomic = True, az_on_commit = []\<rparr>"

theorem invalidation_reaches_every_instance_witness:
  "same_content fresh_memo
    (fst (synchronize_authorization_cache (Some 77) 9
       (fresh_memo\<lparr>um_version := Some (Some 3, None), um_accessible_ids := Some [1, 2]\<rparr>)
       (snd (invalidate_user_authorization_cache (Some 77) (Some 9) None sample_authz))))"
  by (rule invalidation_reaches_every_instance)
    (simp_all add: memo_past_def fresh_memo_def sample_authz_def)

text \<open>Synchronizing is stable: with the shared cache available and no write in between, a second
  synchronization of the same instance changes nothing, so memos are actually reused.\<close>

theorem synchronize_stable:
  assumes "az_cache_up st" "synchronize_authorization_cache rid uid m st = (m', st')"
  shows "fst (synchronize_authorization_cache rid uid m' st') = m'"
proof -
  obtain tok st1 where tok: "request_sync_token rid uid st = (tok, st1)" by (cases "request_sync_token rid uid st")
  note frame = request_sync_token_frame[OF tok]
  have again: "request_sync_token rid uid st1 = (tok, st1)"
    using tok by (auto simp: request_sync_token_def request_state_def split: option.splits if_splits prod.splits)
  have "st' = st1" "tok \<noteq> None \<longrightarrow> um_token m' = tok"
    "tok = None \<longrightarrow> um_version m' = Some (az_cache st1 (UserVersion uid), az_cache st1 TopologyVersion)"
    using assms(1,2) tok frame
    by (auto simp: synchronize_authorization_cache_def Let_def split: if_splits)
  with assms(1) frame again show ?thesis
    by (cases "tok = None") (simp_all only: synchronize_authorization_cache_def Let_def prod.case, simp_all)
qed

theorem synchronize_stable_witness:
  "case synchronize_authorization_cache (Some 77) 9 fresh_memo sample_authz of
     (m', st') \<Rightarrow> fst (synchronize_authorization_cache (Some 77) 9 m' st') = m'"
proof -
  obtain m' st' where s: "synchronize_authorization_cache (Some 77) 9 fresh_memo sample_authz = (m', st')"
    by (cases "synchronize_authorization_cache (Some 77) 9 fresh_memo sample_authz")
  have "az_cache_up sample_authz" by (simp add: sample_authz_def)
  from synchronize_stable[OF this s] show ?thesis by (simp add: s)
qed

end
