(* ===== verification/Rbac.thy ===== *)
theory Rbac
  imports AuthCache "HOL-Library.AList"
begin

text \<open>
  Resolution of role grants, \<^verbatim>\<open>organization/rbac.py\<close>, with the per-user memos that
  \<^verbatim>\<open>core/authorization_cache.py\<close> guards, and the request-level wrappers of
  \<^verbatim>\<open>organization/access.py\<close> and \<^verbatim>\<open>core/tenant_scope.py\<close> around it.  Functions take the database, the
  instant that \<open>timezone.now()\<close> returns during the call and the acting user's \<open>world\<close> (context,
  shared authorization state, the memo of this \<open>User\<close> instance) and return it updated.  A
  Python set of ids or permissions is a list read through \<^const>\<open>set\<close>; a dictionary whose keys are
  enumerated is an association list.
\<close>

section \<open>State\<close>

record tenancy =
  td_tenants :: "tenant list"
  td_groups :: "tenant_group list"
  td_memberships :: "membership list"
  td_grants :: "role_grant list"
  td_name_le :: "string \<Rightarrow> string \<Rightarrow> bool" \<comment> \<open>the database's collation, for \<open>order_by("name")\<close>\<close>

record world =
  w_ctx :: ctx
  w_az :: authz
  w_memo :: user_memo

text \<open>The group walk that a call in this world performs.\<close>

definition desc_in :: "tenancy \<Rightarrow> world \<Rightarrow> group_desc" where
  "desc_in db w = context_desc (td_groups db) (cx_tree_cache (w_ctx w))"

definition synchronize :: "pk \<Rightarrow> world \<Rightarrow> world" where
  "synchronize uid w =
     (let (m, st) = synchronize_authorization_cache (cx_request (w_ctx w)) uid (w_memo w) (w_az w)
      in w\<lparr>w_memo := m, w_az := st\<rparr>)"

section \<open>Applicable grants\<close>

text \<open>The query's principal condition: a direct grant of an active membership, or a grant of a live
  active group in which the user holds an active membership of the group's own tenant.\<close>

definition principal_matches :: "pk \<Rightarrow> role_grant \<Rightarrow> bool" where
  "principal_matches uid g \<longleftrightarrow>
     (case rg_membership g of None \<Rightarrow> False | Some m \<Rightarrow> mb_user m = uid \<and> mb_active m) \<or>
     (case rg_user_group g of
        None \<Rightarrow> False
      | Some ug \<Rightarrow> ug_active ug \<and> ug_deleted ug = None \<and>
          (\<exists>m \<in> set (ug_members ug).
             mb_user m = uid \<and> mb_active m \<and> tn_id (mb_tenant m) = ug_tenant ug))"

definition applicable_query :: "tenancy \<Rightarrow> instant \<Rightarrow> pk \<Rightarrow> role_grant list" where
  "applicable_query db now uid =
     filter (\<lambda>g. principal_matches uid g \<and> ro_deleted (rg_role g) = None \<and>
                 (rg_valid_until g = None \<or> after_opt (rg_valid_until g) now)) (td_grants db)"

definition applicable_grants ::
    "tenancy \<Rightarrow> instant \<Rightarrow> pk \<Rightarrow> world \<Rightarrow> role_grant list \<times> world" where
  "applicable_grants db now uid w =
     (let w1 = synchronize uid w
      in case um_applicable_grants (w_memo w1) of
           Some grants \<Rightarrow> (grants, w1)
         | None \<Rightarrow>
             (let grants = applicable_query db now uid
              in (grants, w1\<lparr>w_memo := (w_memo w1)\<lparr>um_applicable_grants := Some grants\<rparr>\<rparr>)))"

section \<open>Permissions in one tenant\<close>

fun effective_loop ::
    "group_desc \<Rightarrow> instant \<Rightarrow> tenant \<Rightarrow> role_grant list \<Rightarrow> perm_entry \<Rightarrow> perm_entry" where
  "effective_loop desc now t [] acc = acc"
| "effective_loop desc now t (g # gs) (perms, valid_until) =
     effective_loop desc now t gs
       (if covers_tenant desc now g t
        then (perms @ ro_permissions (rg_role g), earlier valid_until (rg_valid_until g))
        else (perms, valid_until))"

definition effective_permissions_with_expiry ::
    "tenancy \<Rightarrow> instant \<Rightarrow> pk \<Rightarrow> tenant \<Rightarrow> world \<Rightarrow> perm_entry \<times> world" where
  "effective_permissions_with_expiry db now uid t w =
     (case Option.bind (um_tenant_permissions_map (w_memo w)) (\<lambda>mp. map_of mp (tn_id t)) of
        Some entry \<Rightarrow> (entry, w)
      | None \<Rightarrow>
          (let (grants, w1) = applicable_grants db now uid w
           in (effective_loop (desc_in db w1) now t grants ([], None), w1)))"

definition effective_permissions ::
    "tenancy \<Rightarrow> instant \<Rightarrow> pk \<Rightarrow> tenant \<Rightarrow> world \<Rightarrow> permission list \<times> world" where
  "effective_permissions db now uid t w =
     (let (entry, w1) = effective_permissions_with_expiry db now uid t w in (fst entry, w1))"

section \<open>Permissions in every accessible tenant\<close>

definition grant_candidate_tenant_ids :: "group_desc \<Rightarrow> tenant list \<Rightarrow> role_grant \<Rightarrow> pk list" where
  "grant_candidate_tenant_ids desc tenants g =
     remdups (scoped_tenant_ids desc tenants g @
       (case principal_tenant_id g of None \<Rightarrow> [] | Some owner_id \<Rightarrow> [owner_id]))"

type_synonym coverage = "(pk \<times> permission list) list \<times> (pk \<Rightarrow> instant option)"

definition accumulate_one ::
    "group_desc \<Rightarrow> instant \<Rightarrow> (pk \<Rightarrow> tenant option) \<Rightarrow> role_grant \<Rightarrow> permission list \<Rightarrow> pk
       \<Rightarrow> coverage \<Rightarrow> coverage" where
  "accumulate_one desc now tenants_by_id g perms tid acc =
     (let (tp, tv) = acc in
      case tenants_by_id tid of
        None \<Rightarrow> (tp, tv)
      | Some t \<Rightarrow>
          if \<not> covers_tenant desc now g t then (tp, tv)
          else
            (let tp' = AList.update tid ((case map_of tp tid of None \<Rightarrow> [] | Some ps \<Rightarrow> ps) @ perms) tp
             in case rg_valid_until g of
                  None \<Rightarrow> (tp', tv)
                | Some v \<Rightarrow>
                    (case tv tid of
                       None \<Rightarrow> (tp', tv(tid \<mapsto> v))
                     | Some earliest \<Rightarrow> if v < earliest then (tp', tv(tid \<mapsto> v)) else (tp', tv))))"

definition accumulate_grant_coverage ::
    "group_desc \<Rightarrow> instant \<Rightarrow> (pk \<Rightarrow> tenant option) \<Rightarrow> role_grant \<Rightarrow> permission list \<Rightarrow> pk list
       \<Rightarrow> coverage \<Rightarrow> coverage" where
  "accumulate_grant_coverage desc now tenants_by_id g perms candidate_ids acc =
     fold (accumulate_one desc now tenants_by_id g perms) candidate_ids acc"

text \<open>The loop that collects \<open>grant_candidates\<close>: grants without permissions or candidates are skipped.\<close>

fun grant_candidates ::
    "group_desc \<Rightarrow> tenant list \<Rightarrow> role_grant list \<Rightarrow> (role_grant \<times> permission list \<times> pk list) list" where
  "grant_candidates desc tenants [] = []"
| "grant_candidates desc tenants (g # gs) =
     (let perms = ro_permissions (rg_role g);
          candidate_ids = grant_candidate_tenant_ids desc tenants g
      in if perms = [] then grant_candidates desc tenants gs
         else if candidate_ids = [] then grant_candidates desc tenants gs
         else (g, perms, candidate_ids) # grant_candidates desc tenants gs)"

definition live_tenants_by_id :: "tenant list \<Rightarrow> pk list \<Rightarrow> pk \<Rightarrow> tenant option" where
  "live_tenants_by_id tenants ids tid =
     find_row tn_id tid (filter (\<lambda>t. tn_id t \<in> set ids \<and> tn_live t) tenants)"

definition tenant_permissions ::
    "group_desc \<Rightarrow> instant \<Rightarrow> tenant list \<Rightarrow> role_grant list \<Rightarrow> (pk \<times> perm_entry) list" where
  "tenant_permissions desc now tenants grants =
     (let candidates = grant_candidates desc tenants grants;
          all_ids = concat (map (\<lambda>(g, perms, ids). ids) candidates);
          by_id = live_tenants_by_id tenants all_ids;
          (tp, tv) = fold (\<lambda>(g, perms, ids). accumulate_grant_coverage desc now by_id g perms ids)
                       candidates ([], Map.empty)
      in map (\<lambda>(tid, perms). (tid, perms, tv tid)) tp)"

text \<open>\<open>build_accessible_tenant_permissions_map\<close>; \<open>grants\<close> is the optional precomputed argument.\<close>

definition build_accessible_tenant_permissions_map ::
    "tenancy \<Rightarrow> instant \<Rightarrow> pk \<Rightarrow> role_grant list option \<Rightarrow> world \<Rightarrow> (pk \<times> perm_entry) list \<times> world" where
  "build_accessible_tenant_permissions_map db now uid grants w =
     (let w1 = synchronize uid w
      in case um_tenant_permissions_map (w_memo w1) of
           Some cached \<Rightarrow> (cached, w1)
         | None \<Rightarrow>
             (let (gs, w2) = (case grants of Some gs \<Rightarrow> (gs, w1) | None \<Rightarrow> applicable_grants db now uid w1);
                  result = tenant_permissions (desc_in db w2) now (td_tenants db) gs
              in (result, w2\<lparr>w_memo := (w_memo w2)\<lparr>um_tenant_permissions_map := Some result\<rparr>\<rparr>)))"

section \<open>Accessible tenants\<close>

text \<open>\<open>_resolve_scoped_tenant\<close>: from the batch when one was loaded, by a query otherwise.\<close>

definition resolve_scoped_tenant ::
    "tenant list \<Rightarrow> (pk \<Rightarrow> tenant option) option \<Rightarrow> pk option \<Rightarrow> tenant option" where
  "resolve_scoped_tenant tenants by_id tid =
     (case tid of
        None \<Rightarrow> None
      | Some i \<Rightarrow>
          (case by_id of
             Some f \<Rightarrow> f i
           | None \<Rightarrow> find_row tn_id i (filter tn_live tenants)))"

definition covered_contribution ::
    "group_desc \<Rightarrow> instant \<Rightarrow> role_grant \<Rightarrow> tenant option \<Rightarrow> pk list \<times> bool" where
  "covered_contribution desc now g target =
     (case target of
        None \<Rightarrow> ([], False)
      | Some t \<Rightarrow> if covers_tenant desc now g t then ([tn_id t], True) else ([], False))"

definition own_scope_contribution ::
    "group_desc \<Rightarrow> instant \<Rightarrow> tenant list \<Rightarrow> (pk \<Rightarrow> tenant option) option \<Rightarrow> role_grant \<Rightarrow> pk option
       \<Rightarrow> pk list \<times> bool" where
  "own_scope_contribution desc now tenants by_id g owner_id =
     covered_contribution desc now g (resolve_scoped_tenant tenants by_id owner_id)"

definition tenant_scope_contribution ::
    "group_desc \<Rightarrow> instant \<Rightarrow> tenant list \<Rightarrow> (pk \<Rightarrow> tenant option) option \<Rightarrow> grant_scope \<Rightarrow> role_grant
       \<Rightarrow> pk list \<times> bool" where
  "tenant_scope_contribution desc now tenants by_id s g =
     covered_contribution desc now g (resolve_scoped_tenant tenants by_id (sc_tenant s))"

definition managed_scope_contribution ::
    "group_desc \<Rightarrow> tenant list \<Rightarrow> grant_scope \<Rightarrow> role_grant \<Rightarrow> pk option \<Rightarrow> pk list \<times> bool" where
  "managed_scope_contribution desc tenants s g owner_id =
     (let provider = ro_tenant (rg_role g) in
      if owner_id \<noteq> Some (tn_id provider) \<or> \<not> tn_is_provider provider then ([], False)
      else
        (let managed_ids =
           (if sc_type s = ScopeAllManaged then managed_tenants tenants (tn_id provider)
            else managed_tenants_in tenants (tn_id provider) (desc (sc_group s)))
         in (managed_ids, managed_ids \<noteq> [])))"

definition scope_contribution ::
    "group_desc \<Rightarrow> instant \<Rightarrow> tenant list \<Rightarrow> (pk \<Rightarrow> tenant option) option \<Rightarrow> grant_scope \<Rightarrow> role_grant
       \<Rightarrow> pk option \<Rightarrow> pk list \<times> bool" where
  "scope_contribution desc now tenants by_id s g owner_id =
     (case sc_type s of
        ScopeOwn \<Rightarrow> own_scope_contribution desc now tenants by_id g owner_id
      | ScopeTenant \<Rightarrow> tenant_scope_contribution desc now tenants by_id s g
      | ScopeAllManaged \<Rightarrow> managed_scope_contribution desc tenants s g owner_id
      | ScopeTenantGroup \<Rightarrow> managed_scope_contribution desc tenants s g owner_id
      | ScopeOther _ \<Rightarrow> ([], False))"

text \<open>The ids the batch preloads: owners of own scopes and targets of tenant scopes.\<close>

definition preload_ids :: "role_grant list \<Rightarrow> pk list" where
  "preload_ids grants =
     concat (map (\<lambda>g. concat (map (\<lambda>s.
        (case (if sc_type s = ScopeOwn then principal_tenant_id g
               else if sc_type s = ScopeTenant then sc_tenant s else None) of
           None \<Rightarrow> [] | Some tid \<Rightarrow> [tid])) (rg_scopes g))) grants)"

definition membership_tenant_ids :: "tenancy \<Rightarrow> pk \<Rightarrow> pk list" where
  "membership_tenant_ids db uid =
     map tn_id (filter (\<lambda>t. tn_live t \<and>
        (\<exists>m \<in> set (td_memberships db). tn_id (mb_tenant m) = tn_id t \<and> mb_user m = uid \<and> mb_active m))
        (td_tenants db))"

definition accessible_step ::
    "group_desc \<Rightarrow> instant \<Rightarrow> tenant list \<Rightarrow> (pk \<Rightarrow> tenant option) option \<Rightarrow> role_grant \<Rightarrow> grant_scope
       \<Rightarrow> pk list \<times> instant option \<Rightarrow> pk list \<times> instant option" where
  "accessible_step desc now tenants by_id g s acc =
     (let (ids, valid_until) = acc;
          (new_ids, counts) = scope_contribution desc now tenants by_id s g (principal_tenant_id g)
      in (ids @ new_ids, if counts then earlier valid_until (rg_valid_until g) else valid_until))"

definition accessible_from_grants ::
    "group_desc \<Rightarrow> instant \<Rightarrow> tenant list \<Rightarrow> role_grant list \<Rightarrow> pk list \<Rightarrow> pk list \<times> instant option" where
  "accessible_from_grants desc now tenants grants member_ids =
     (let by_id = Some (live_tenants_by_id tenants (preload_ids grants))
      in fold (\<lambda>g. fold (accessible_step desc now tenants by_id g) (rg_scopes g)) grants (member_ids, None))"

text \<open>\<open>rbac.accessible_tenant_ids_with_expiry\<close>\<close>

definition rbac_accessible_with_expiry ::
    "tenancy \<Rightarrow> instant \<Rightarrow> pk \<Rightarrow> world \<Rightarrow> (pk list \<times> instant option) \<times> world" where
  "rbac_accessible_with_expiry db now uid w =
     (let (grants, w1) = applicable_grants db now uid w
      in (accessible_from_grants (desc_in db w1) now (td_tenants db) grants (membership_tenant_ids db uid), w1))"

text \<open>\<open>organization.access.accessible_tenant_ids_with_expiry\<close>: nothing for an anonymous user; a memo is
  served while its expiry lies ahead.\<close>

definition accessible_tenant_ids_with_expiry ::
    "tenancy \<Rightarrow> instant \<Rightarrow> user option \<Rightarrow> world \<Rightarrow> (pk list \<times> instant option) \<times> world" where
  "accessible_tenant_ids_with_expiry db now u w =
     (case u of
        None \<Rightarrow> (([], None), w)
      | Some x \<Rightarrow>
          if \<not> us_authenticated x then (([], None), w)
          else
            (let w1 = synchronize (us_id x) w; m = w_memo w1;
                 usable = (um_accessible_ids m \<noteq> None \<and>
                           alive (um_accessible_valid_until m) now)
             in case (if usable then um_accessible_ids m else None) of
                  Some cached \<Rightarrow> ((cached, um_accessible_valid_until m), w1)
                | None \<Rightarrow>
                    (let ((ids, valid_until), w2) = rbac_accessible_with_expiry db now (us_id x) w1
                     in ((ids, valid_until),
                         w2\<lparr>w_memo := (w_memo w2)\<lparr>um_accessible_ids := Some ids,
                                                  um_accessible_valid_until := valid_until\<rparr>\<rparr>))))"

definition accessible_tenant_ids ::
    "tenancy \<Rightarrow> instant \<Rightarrow> user option \<Rightarrow> world \<Rightarrow> pk list \<times> world" where
  "accessible_tenant_ids db now u w =
     (let (r, w1) = accessible_tenant_ids_with_expiry db now u w in (fst r, w1))"

definition managed_accessible_tenant_ids ::
    "tenancy \<Rightarrow> instant \<Rightarrow> user option \<Rightarrow> world \<Rightarrow> pk list \<times> world" where
  "managed_accessible_tenant_ids db now u w =
     (case u of
        None \<Rightarrow> ([], w)
      | Some x \<Rightarrow>
          if \<not> us_authenticated x then ([], w)
          else
            (let (grants, w1) = applicable_grants db now (us_id x) w
             in (concat (map (scoped_tenant_ids (desc_in db w1) (td_tenants db)) grants), w1)))"

text \<open>\<open>core.tenant_scope.role_grant_covers_tenant\<close>\<close>

definition role_grant_covers_tenant ::
    "tenancy \<Rightarrow> instant \<Rightarrow> pk \<Rightarrow> tenant \<Rightarrow> world \<Rightarrow> bool \<times> world" where
  "role_grant_covers_tenant db now uid t w =
     (let (grants, w1) = applicable_grants db now uid w
      in (\<exists>g \<in> set grants. covers_tenant (desc_in db w1) now g t, w1))"

section \<open>Reference sets\<close>

text \<open>What a list of grants confers in a tenant, and the tenants it reaches.\<close>

definition conferred :: "group_desc \<Rightarrow> instant \<Rightarrow> role_grant list \<Rightarrow> tenant \<Rightarrow> permission set" where
  "conferred desc now grants t =
     \<Union> ((\<lambda>g. set (ro_permissions (rg_role g))) ` {g \<in> set grants. covers_tenant desc now g t})"

lemma conferred_Nil [simp]: "conferred desc now [] t = {}"
  by (simp add: conferred_def)

lemma conferred_Cons [simp]:
  "conferred desc now (g # gs) t =
     (if covers_tenant desc now g t then set (ro_permissions (rg_role g)) else {}) \<union> conferred desc now gs t"
  by (auto simp: conferred_def)

lemma set_effective_loop:
  "set (fst (effective_loop desc now t gs acc)) = set (fst acc) \<union> conferred desc now gs t"
  by (induction gs arbitrary: acc) (auto split: prod.splits if_splits)

text \<open>The permissions a coverage table holds for a tenant id.\<close>

definition covered_perms :: "coverage \<Rightarrow> pk \<Rightarrow> permission set" where
  "covered_perms acc x = (case map_of (fst acc) x of None \<Rightarrow> {} | Some ps \<Rightarrow> set ps)"

definition no_empty_entries :: "coverage \<Rightarrow> bool" where
  "no_empty_entries acc \<longleftrightarrow> (\<forall>x ps. map_of (fst acc) x = Some ps \<longrightarrow> ps \<noteq> [])"

definition hits :: "group_desc \<Rightarrow> instant \<Rightarrow> (pk \<Rightarrow> tenant option) \<Rightarrow> role_grant \<Rightarrow> pk \<Rightarrow> bool" where
  "hits desc now by_id g x \<longleftrightarrow> (\<exists>t. by_id x = Some t \<and> covers_tenant desc now g t)"

lemma fst_accumulate_one:
  "fst (accumulate_one desc now by_id g perms tid acc) =
     (if hits desc now by_id g tid
      then AList.update tid ((case map_of (fst acc) tid of None \<Rightarrow> [] | Some ps \<Rightarrow> ps) @ perms) (fst acc)
      else fst acc)"
  by (auto simp: accumulate_one_def hits_def Let_def split: prod.splits option.splits if_splits)

lemma covered_accumulate_one:
  "covered_perms (accumulate_one desc now by_id g perms tid acc) x =
     covered_perms acc x \<union> (if x = tid \<and> hits desc now by_id g x then set perms else {})"
  by (auto simp: covered_perms_def fst_accumulate_one update_conv' split: option.splits)

lemma no_empty_accumulate_one:
  "perms \<noteq> [] \<Longrightarrow> no_empty_entries acc \<Longrightarrow> no_empty_entries (accumulate_one desc now by_id g perms tid acc)"
  by (auto simp: no_empty_entries_def fst_accumulate_one update_conv' split: option.splits)

lemma covered_accumulate_grant:
  "covered_perms (accumulate_grant_coverage desc now by_id g perms ids acc) x =
     covered_perms acc x \<union> (if x \<in> set ids \<and> hits desc now by_id g x then set perms else {})"
  unfolding accumulate_grant_coverage_def
  by (induction ids arbitrary: acc) (auto simp: covered_accumulate_one)

lemma no_empty_accumulate_grant:
  "perms \<noteq> [] \<Longrightarrow> no_empty_entries acc \<Longrightarrow>
     no_empty_entries (accumulate_grant_coverage desc now by_id g perms ids acc)"
  unfolding accumulate_grant_coverage_def
  by (induction ids arbitrary: acc) (auto simp: no_empty_accumulate_one)

lemma covered_fold:
  "covered_perms (fold (\<lambda>(g, perms, ids). accumulate_grant_coverage desc now by_id g perms ids) cs acc) x =
     covered_perms acc x \<union>
     \<Union> {set perms |g perms ids. (g, perms, ids) \<in> set cs \<and> x \<in> set ids \<and> hits desc now by_id g x}"
proof (induction cs arbitrary: acc)
  case Nil
  then show ?case by simp
next
  case (Cons c cs)
  obtain g perms ids where c: "c = (g, perms, ids)" by (cases c)
  show ?case by (auto simp: c Cons.IH covered_accumulate_grant split: if_splits)
qed

lemma no_empty_fold:
  "(\<And>g perms ids. (g, perms, ids) \<in> set cs \<Longrightarrow> perms \<noteq> []) \<Longrightarrow> no_empty_entries acc \<Longrightarrow>
     no_empty_entries (fold (\<lambda>(g, perms, ids). accumulate_grant_coverage desc now by_id g perms ids) cs acc)"
proof (induction cs arbitrary: acc)
  case (Cons c cs)
  obtain g perms ids where c: "c = (g, perms, ids)" by (cases c)
  have "no_empty_entries (accumulate_grant_coverage desc now by_id g perms ids acc)"
    using Cons.prems c by (intro no_empty_accumulate_grant) auto
  then have "no_empty_entries (fold (\<lambda>(g, perms, ids). accumulate_grant_coverage desc now by_id g perms ids) cs
      (accumulate_grant_coverage desc now by_id g perms ids acc))"
    using Cons.prems(1) by (intro Cons.IH) auto
  then show ?case by (simp add: c)
qed simp

lemma mem_grant_candidates:
  "(g, perms, ids) \<in> set (grant_candidates desc tenants gs) \<longleftrightarrow>
     g \<in> set gs \<and> perms = ro_permissions (rg_role g) \<and> perms \<noteq> [] \<and>
     ids = grant_candidate_tenant_ids desc tenants g \<and> ids \<noteq> []"
  by (induction gs) (auto simp: Let_def)

lemma live_tenants_by_id_iff:
  assumes "keyed tn_id tenants"
  shows "live_tenants_by_id tenants ids x = Some t \<longleftrightarrow>
    t \<in> set tenants \<and> tn_live t \<and> tn_id t = x \<and> x \<in> set ids"
proof -
  have "keyed tn_id (filter P tenants)" for P
    using assms by (auto simp: keyed_def distinct_map inj_on_def)
  then show ?thesis by (auto simp: live_tenants_by_id_def find_row_iff)
qed

text \<open>A covered tenant is always among the grant's candidates.\<close>

lemma covers_candidate:
  assumes "keyed tn_id tenants" "t \<in> set tenants" "tn_live t"
    and "covers_tenant (context_desc groups cache) now g t"
  shows "tn_id t \<in> set (grant_candidate_tenant_ids (context_desc groups cache) tenants g)"
proof -
  have act: "grant_is_active now g" "ro_deleted (rg_role g) = None"
    using covers_live_grant[OF assms(4)] by auto
  have "tn_id t \<in> set (scoped_tenant_ids (context_desc groups cache) tenants g) \<or>
      principal_tenant_id g = Some (tn_id t)"
    using assms(4) covers_split[OF assms(1-3) act, of groups cache]
    by (auto simp: scope_covers_def Let_def split: if_splits)
  then show ?thesis by (auto simp: grant_candidate_tenant_ids_def)
qed

text \<open>The coverage table that \<open>tenant_permissions\<close> reads its entries from.\<close>

definition coverage_of :: "group_desc \<Rightarrow> instant \<Rightarrow> tenant list \<Rightarrow> role_grant list \<Rightarrow> coverage" where
  "coverage_of desc now tenants gs =
     fold (\<lambda>(g, perms, ids). accumulate_grant_coverage desc now
             (live_tenants_by_id tenants (concat (map (\<lambda>(g, perms, ids). ids) (grant_candidates desc tenants gs)))) g perms ids)
       (grant_candidates desc tenants gs) ([], Map.empty)"

lemma tenant_permissions_coverage:
  "tenant_permissions desc now tenants gs =
     map (\<lambda>(tid, perms). (tid, perms, snd (coverage_of desc now tenants gs) tid)) (fst (coverage_of desc now tenants gs))"
  by (simp add: tenant_permissions_def coverage_of_def Let_def split: prod.split)

text \<open>The permission table of a precomputed map, by tenant id.\<close>

definition map_perms :: "(pk \<times> perm_entry) list \<Rightarrow> pk \<Rightarrow> permission set" where
  "map_perms mp x = (case map_of mp x of None \<Rightarrow> {} | Some (ps, v) \<Rightarrow> set ps)"

lemma map_of_tagged: "map_of (map (\<lambda>(k, v). (k, v, f k)) xs) x = map_option (\<lambda>v. (v, f x)) (map_of xs x)"
  by (induction xs) auto

lemma tenant_permissions_perms:
  assumes "keyed tn_id tenants"
  shows "map_perms (tenant_permissions (context_desc groups cache) now tenants grants) x =
    (case find_row tn_id x (filter tn_live tenants) of
       None \<Rightarrow> {} | Some t \<Rightarrow> conferred (context_desc groups cache) now grants t)"
proof -
  let ?d = "context_desc groups cache"
  define cs where "cs = grant_candidates ?d tenants grants"
  define by_id where "by_id = live_tenants_by_id tenants (concat (map (\<lambda>(g, perms, ids). ids) cs))"
  define cov where "cov = coverage_of ?d now tenants grants"
  have cov_fold: "cov = fold (\<lambda>(g, perms, ids). accumulate_grant_coverage ?d now by_id g perms ids) cs ([], Map.empty)"
    by (simp add: cov_def coverage_of_def by_id_def cs_def)
  have kf: "keyed tn_id (filter tn_live tenants)" using assms by (auto simp: keyed_def distinct_map inj_on_def)
  have "map_perms (tenant_permissions ?d now tenants grants) x = covered_perms cov x"
    by (simp add: tenant_permissions_coverage map_perms_def covered_perms_def cov_def map_of_tagged split: option.split)
  also have "\<dots> = \<Union> {set perms |g perms ids. (g, perms, ids) \<in> set cs \<and> x \<in> set ids \<and> hits ?d now by_id g x}"
    by (simp add: cov_fold covered_fold) (simp add: covered_perms_def)
  also have "\<dots> = (case find_row tn_id x (filter tn_live tenants) of None \<Rightarrow> {} | Some t \<Rightarrow> conferred ?d now grants t)"
  proof (cases "find_row tn_id x (filter tn_live tenants)")
    case None
    then have "by_id x = None"
      using assms by (cases "by_id x") (auto simp: by_id_def live_tenants_by_id_iff find_row_None_iff)
    with None show ?thesis by (auto simp: hits_def)
  next
    case (Some t)
    then have t: "t \<in> set tenants" "tn_live t" "tn_id t = x" by (auto dest: find_row_SomeD)
    have "hits ?d now by_id g x \<longleftrightarrow> covers_tenant ?d now g t"
      if "(g, perms, ids) \<in> set cs" "x \<in> set ids" for g perms ids
    proof -
      have "by_id x = Some t"
        using t that assms by (force simp: by_id_def live_tenants_by_id_iff)
      then show ?thesis by (simp add: hits_def)
    qed
    then have "\<Union> {set perms |g perms ids. (g, perms, ids) \<in> set cs \<and> x \<in> set ids \<and> hits ?d now by_id g x} =
        \<Union> {set perms |g perms ids. (g, perms, ids) \<in> set cs \<and> x \<in> set ids \<and> covers_tenant ?d now g t}"
      by blast
    also have "\<dots> = conferred ?d now grants t"
      using covers_candidate[OF assms t(1,2)] t(3)
      by (fastforce simp: cs_def mem_grant_candidates conferred_def)
    finally show ?thesis by (simp add: Some)
  qed
  finally show ?thesis .
qed

section \<open>The accessible set\<close>

lemma accessible_fold_scopes:
  "set (fst (fold (accessible_step desc now tenants by_id g) ss acc)) =
     set (fst acc) \<union> (\<Union>s \<in> set ss. set (fst (scope_contribution desc now tenants by_id s g (principal_tenant_id g))))"
  by (induction ss arbitrary: acc) (auto simp: accessible_step_def split: prod.splits)

lemma accessible_fold_grants:
  "set (fst (fold (\<lambda>g. fold (accessible_step desc now tenants by_id g) (rg_scopes g)) gs acc)) =
     set (fst acc) \<union> (\<Union>g \<in> set gs. \<Union>s \<in> set (rg_scopes g).
       set (fst (scope_contribution desc now tenants by_id s g (principal_tenant_id g))))"
  by (induction gs arbitrary: acc) (auto simp: accessible_fold_scopes)

definition covered_in_table :: "group_desc \<Rightarrow> instant \<Rightarrow> tenant list \<Rightarrow> role_grant \<Rightarrow> pk set" where
  "covered_in_table desc now tenants g =
     {tn_id t |t. t \<in> set tenants \<and> tn_live t \<and> covers_tenant desc now g t}"

lemma covered_contribution_ids:
  "x \<in> set (fst (covered_contribution desc now g target)) \<longleftrightarrow>
     (\<exists>t. target = Some t \<and> tn_id t = x \<and> covers_tenant desc now g t)"
  by (auto simp: covered_contribution_def split: option.splits)

lemma scope_contribution_sound:
  assumes "keyed tn_id tenants" "grant_is_active now g" "ro_deleted (rg_role g) = None"
    and "s \<in> set (rg_scopes g)" "desc None = []"
    and x: "x \<in> set (fst (scope_contribution desc now tenants (Some (live_tenants_by_id tenants ids)) s g
                            (principal_tenant_id g)))"
  shows "x \<in> covered_in_table desc now tenants g"
proof (cases "sc_type s")
  case ScopeOwn
  with x assms(1) show ?thesis
    by (auto simp: scope_contribution_def own_scope_contribution_def covered_contribution_ids
        resolve_scoped_tenant_def live_tenants_by_id_iff covered_in_table_def split: option.splits)
next
  case ScopeTenant
  with x assms(1) show ?thesis
    by (auto simp: scope_contribution_def tenant_scope_contribution_def covered_contribution_ids
        resolve_scoped_tenant_def live_tenants_by_id_iff covered_in_table_def split: option.splits)
next
  case ScopeAllManaged
  with x have c: "principal_tenant_id g = Some (tn_id (ro_tenant (rg_role g)))" "tn_is_provider (ro_tenant (rg_role g))"
    "x \<in> set (managed_tenants tenants (tn_id (ro_tenant (rg_role g))))"
    by (auto simp: scope_contribution_def managed_scope_contribution_def Let_def split: if_splits)
  then obtain t where t: "t \<in> set tenants" "tn_live t" "tn_id t = x"
    "tn_managed_by t = Some (tn_id (ro_tenant (rg_role g)))"
    by (auto simp: managed_tenants_def)
  then have "scope_covers desc g (tn_id (ro_tenant (rg_role g))) t s"
    using c ScopeAllManaged by (simp add: scope_covers_def Let_def)
  then show ?thesis using t c assms(2-4) by (auto simp: covered_in_table_def covers_tenant_def)
next
  case ScopeTenantGroup
  with x have c: "principal_tenant_id g = Some (tn_id (ro_tenant (rg_role g)))" "tn_is_provider (ro_tenant (rg_role g))"
    "x \<in> set (managed_tenants_in tenants (tn_id (ro_tenant (rg_role g))) (desc (sc_group s)))"
    by (auto simp: scope_contribution_def managed_scope_contribution_def Let_def split: if_splits)
  then obtain t gid where t: "t \<in> set tenants" "tn_live t" "tn_id t = x" "tn_group t = Some gid"
    "gid \<in> set (desc (sc_group s))" "tn_managed_by t = Some (tn_id (ro_tenant (rg_role g)))"
    by (auto simp: managed_tenants_in_def split: option.splits)
  with assms(5) obtain sg where "sc_group s = Some sg" by (cases "sc_group s") auto
  then have "scope_covers desc g (tn_id (ro_tenant (rg_role g))) t s"
    using t c ScopeTenantGroup by (simp add: scope_covers_def Let_def)
  then show ?thesis using t c assms(2-4) by (auto simp: covered_in_table_def covers_tenant_def)
qed (use x in \<open>simp add: scope_contribution_def\<close>)

lemma scope_contribution_complete:
  assumes "keyed tn_id tenants" "t \<in> set tenants" "tn_live t" "covers_tenant desc now g t"
    and ids: "\<And>s tid. s \<in> set (rg_scopes g) \<Longrightarrow>
      (sc_type s = ScopeOwn \<and> principal_tenant_id g = Some tid \<or> sc_type s = ScopeTenant \<and> sc_tenant s = Some tid)
      \<Longrightarrow> tid \<in> set ids"
  shows "\<exists>s \<in> set (rg_scopes g). tn_id t \<in> set (fst (scope_contribution desc now tenants
           (Some (live_tenants_by_id tenants ids)) s g (principal_tenant_id g)))"
proof -
  from assms(4) obtain owner_id s where s: "principal_tenant_id g = Some owner_id" "s \<in> set (rg_scopes g)"
    "scope_covers desc g owner_id t s"
    by (auto simp: covers_tenant_def split: if_splits option.splits)
  have "tn_id t \<in> set (fst (scope_contribution desc now tenants
          (Some (live_tenants_by_id tenants ids)) s g (principal_tenant_id g)))"
  proof (cases "sc_type s")
    case ScopeOwn
    then have "owner_id = tn_id t" using s(3) by (simp add: scope_covers_def Let_def split: if_splits)
    then show ?thesis using ScopeOwn s ids[OF s(2)] assms(1-4)
      by (auto simp: scope_contribution_def own_scope_contribution_def covered_contribution_ids
          resolve_scoped_tenant_def live_tenants_by_id_iff)
  next
    case ScopeTenant
    then have "sc_tenant s = Some (tn_id t)" using s(3) by (simp add: scope_covers_def Let_def split: if_splits)
    then show ?thesis using ScopeTenant s ids[OF s(2)] assms(1-4)
      by (auto simp: scope_contribution_def tenant_scope_contribution_def covered_contribution_ids
          resolve_scoped_tenant_def live_tenants_by_id_iff)
  next
    case ScopeAllManaged
    then show ?thesis using s assms(1-3) managed_tenants_iff[OF assms(1,2)]
      by (auto simp: scope_contribution_def managed_scope_contribution_def scope_covers_def Let_def split: if_splits)
  next
    case ScopeTenantGroup
    then show ?thesis using s assms(1-3) managed_tenants_in_iff[OF assms(1,2)]
      by (auto simp: scope_contribution_def managed_scope_contribution_def scope_covers_def Let_def
          split: if_splits option.splits)
  next
    case (ScopeOther o')
    then show ?thesis using s(3) by (simp add: scope_covers_def Let_def split: if_splits)
  qed
  with s(2) show ?thesis by blast
qed

lemma mem_preload_ids:
  "g \<in> set gs \<Longrightarrow> s \<in> set (rg_scopes g) \<Longrightarrow>
     sc_type s = ScopeOwn \<and> principal_tenant_id g = Some tid \<or> sc_type s = ScopeTenant \<and> sc_tenant s = Some tid
     \<Longrightarrow> tid \<in> set (preload_ids gs)"
  unfolding preload_ids_def by (force split: option.splits)

lemma accessible_ids_exact:
  assumes "keyed tn_id tenants" "desc None = []"
    and "\<And>g. g \<in> set grants \<Longrightarrow> grant_is_active now g \<and> ro_deleted (rg_role g) = None"
  shows "set (fst (accessible_from_grants desc now tenants grants member_ids)) =
    set member_ids \<union> (\<Union>g \<in> set grants. covered_in_table desc now tenants g)"
proof -
  let ?c = "\<lambda>g s. set (fst (scope_contribution desc now tenants
    (Some (live_tenants_by_id tenants (preload_ids grants))) s g (principal_tenant_id g)))"
  have "(\<Union>s \<in> set (rg_scopes g). ?c g s) = covered_in_table desc now tenants g" if "g \<in> set grants" for g
  proof
    show "(\<Union>s \<in> set (rg_scopes g). ?c g s) \<subseteq> covered_in_table desc now tenants g"
      using scope_contribution_sound[where ids = "preload_ids grants", OF assms(1)] assms(2,3) that by blast
    show "covered_in_table desc now tenants g \<subseteq> (\<Union>s \<in> set (rg_scopes g). ?c g s)"
    proof
      fix x assume "x \<in> covered_in_table desc now tenants g"
      then obtain t where "t \<in> set tenants" "tn_live t" "covers_tenant desc now g t" "tn_id t = x"
        by (auto simp: covered_in_table_def)
      then show "x \<in> (\<Union>s \<in> set (rg_scopes g). ?c g s)"
        using scope_contribution_complete[OF assms(1), of t desc now g "preload_ids grants"]
          mem_preload_ids[OF that] by blast
    qed
  qed
  then show ?thesis
    by (simp add: accessible_from_grants_def accessible_fold_grants)
qed

section \<open>Time\<close>

text \<open>A grant stops covering only by expiring.\<close>

lemma active_alive: "grant_is_active now g \<longleftrightarrow> alive (rg_valid_until g) now"
  by (simp add: grant_is_active_def split: option.split)

lemma covers_later:
  "now \<le> t' \<Longrightarrow> covers_tenant desc t' g t \<longleftrightarrow> covers_tenant desc now g t \<and> grant_is_active t' g"
  by (auto simp: covers_tenant_def active_alive dest: alive_antimono split: option.splits)

lemma applicable_query_eq:
  "applicable_query db now uid =
     filter (grant_is_active now) (filter (\<lambda>g. principal_matches uid g \<and> ro_deleted (rg_role g) = None) (td_grants db))"
  by (auto simp: applicable_query_def active_alive alive_def intro!: filter_cong)

lemma applicable_later:
  "now \<le> t' \<Longrightarrow> applicable_query db t' uid = filter (grant_is_active t') (applicable_query db now uid)"
  by (auto simp: applicable_query_eq active_alive dest: alive_antimono intro!: filter_cong)

lemma applicable_live:
  "g \<in> set (applicable_query db now uid) \<Longrightarrow> grant_is_active now g \<and> ro_deleted (rg_role g) = None"
  by (simp add: applicable_query_eq)

lemma conferred_active:
  "conferred desc now (filter (grant_is_active now) gs) t = conferred desc now gs t"
  by (auto simp: conferred_def dest: covers_live_grant)

lemma conferred_later:
  assumes "now \<le> t'" "\<And>g. g \<in> set gs \<Longrightarrow> covers_tenant desc now g t \<Longrightarrow> ro_permissions (rg_role g) \<noteq> [] \<Longrightarrow> grant_is_active t' g"
  shows "conferred desc t' gs t = conferred desc now gs t"
  using assms(2) by (force simp: conferred_def covers_later[OF assms(1)])

lemma effective_loop_alive_mono:
  "alive (snd (effective_loop desc now t gs (ps, v))) t' \<Longrightarrow> alive v t'"
proof (induction gs arbitrary: ps v)
  case (Cons g gs)
  from Cons.prems have "alive (if covers_tenant desc now g t then earlier v (rg_valid_until g) else v) t'"
    by (auto split: if_splits intro: Cons.IH dest!: Cons.IH)
  then show ?case by (simp split: if_splits)
qed simp

lemma effective_loop_alive:
  "alive (snd (effective_loop desc now t gs (ps, v))) t' \<Longrightarrow> g \<in> set gs \<Longrightarrow> covers_tenant desc now g t \<Longrightarrow>
     grant_is_active t' g"
  by (induction gs arbitrary: ps v)
    (auto simp: active_alive dest: effective_loop_alive_mono split: if_splits)

lemma snd_accumulate_one:
  "snd (accumulate_one desc now by_id g perms tid acc) x =
     (if x = tid \<and> hits desc now by_id g x then earlier (snd acc x) (rg_valid_until g) else snd acc x)"
  by (auto simp: accumulate_one_def hits_def earlier_def Let_def split: prod.splits option.splits if_splits)

lemma accumulate_grant_alive:
  "alive (snd (accumulate_grant_coverage desc now by_id g perms ids acc) x) t' \<longleftrightarrow>
     alive (snd acc x) t' \<and> (x \<in> set ids \<and> hits desc now by_id g x \<longrightarrow> grant_is_active t' g)"
  unfolding accumulate_grant_coverage_def
  by (induction ids arbitrary: acc) (auto simp: snd_accumulate_one active_alive split: if_splits)

lemma accumulate_fold_alive:
  "alive (snd (fold (\<lambda>(g, perms, ids). accumulate_grant_coverage desc now by_id g perms ids) cs acc) x) t' \<longleftrightarrow>
     alive (snd acc x) t' \<and>
     (\<forall>(g, perms, ids) \<in> set cs. x \<in> set ids \<and> hits desc now by_id g x \<longrightarrow> grant_is_active t' g)"
proof (induction cs arbitrary: acc)
  case (Cons c cs)
  obtain g perms ids where c: "c = (g, perms, ids)" by (cases c)
  show ?case by (auto simp: c Cons.IH accumulate_grant_alive)
qed simp

lemma covered_contribution_counts:
  "fst (covered_contribution desc now g target) \<noteq> [] \<longleftrightarrow> snd (covered_contribution desc now g target)"
  by (simp add: covered_contribution_def split: option.split)

lemma contribution_counts:
  "fst (scope_contribution desc now tenants by_id s g owner_id) \<noteq> [] \<longleftrightarrow>
     snd (scope_contribution desc now tenants by_id s g owner_id)"
  by (auto simp: scope_contribution_def own_scope_contribution_def tenant_scope_contribution_def
      managed_scope_contribution_def covered_contribution_counts Let_def split: scope_type.splits)

lemma accessible_scopes_alive:
  "alive (snd (fold (accessible_step desc now tenants by_id g) ss acc)) t' \<longleftrightarrow>
     alive (snd acc) t' \<and>
     (\<forall>s \<in> set ss. fst (scope_contribution desc now tenants by_id s g (principal_tenant_id g)) \<noteq> [] \<longrightarrow>
        grant_is_active t' g)"
  by (induction ss arbitrary: acc)
    (auto simp: accessible_step_def active_alive contribution_counts split: prod.splits)

lemma accessible_grants_alive:
  "alive (snd (fold (\<lambda>g. fold (accessible_step desc now tenants by_id g) (rg_scopes g)) gs acc)) t' \<longleftrightarrow>
     alive (snd acc) t' \<and>
     (\<forall>g \<in> set gs. \<forall>s \<in> set (rg_scopes g).
        fst (scope_contribution desc now tenants by_id s g (principal_tenant_id g)) \<noteq> [] \<longrightarrow> grant_is_active t' g)"
  by (induction gs arbitrary: acc) (auto simp: accessible_scopes_alive)

section \<open>Coherent memos\<close>

text \<open>What the grants of the database confer on a user in a tenant, and the tenants they reach: the
  reference that the memoised functions are compared with.\<close>

definition held :: "tenancy \<Rightarrow> instant \<Rightarrow> pk \<Rightarrow> tenant \<Rightarrow> permission set" where
  "held db now uid t = conferred (walk_desc (td_groups db)) now (applicable_query db now uid) t"

definition reachable :: "tenancy \<Rightarrow> instant \<Rightarrow> pk \<Rightarrow> pk set" where
  "reachable db now uid =
     set (membership_tenant_ids db uid) \<union>
     (\<Union>g \<in> set (applicable_query db now uid). covered_in_table (walk_desc (td_groups db)) now (td_tenants db) g)"

definition reach_tenants :: "tenancy \<Rightarrow> instant \<Rightarrow> pk \<Rightarrow> tenant set" where
  "reach_tenants db now uid = {t \<in> set (td_tenants db). tn_live t \<and> tn_id t \<in> reachable db now uid}"

definition in_group :: "tenancy \<Rightarrow> pk \<Rightarrow> tenant \<Rightarrow> bool" where
  "in_group db grp t \<longleftrightarrow> (\<exists>g. tn_group t = Some g \<and> g \<in> set (walk_desc (td_groups db) (Some grp)))"

lemma held_iff:
  "p \<in> held db now uid t \<longleftrightarrow>
     (\<exists>g \<in> set (td_grants db). principal_matches uid g \<and> p \<in> set (ro_permissions (rg_role g)) \<and>
        covers_tenant (walk_desc (td_groups db)) now g t)"
  by (auto simp: held_def conferred_def applicable_query_eq dest: covers_live_grant)

text \<open>The group walk of \<^verbatim>\<open>core/managers.py\<close>, which starts at the group whether or not it is live.\<close>

definition in_walk :: "tenancy \<Rightarrow> pk \<Rightarrow> tenant \<Rightarrow> bool" where
  "in_walk db grp t \<longleftrightarrow>
     (\<exists>g. tn_group t = Some g \<and> g \<in> set (descend (visible_groups True (td_groups db)) [grp] [grp]))"

text \<open>What each authorization attribute of a \<open>User\<close> instance promises about the database, now and at
  every later instant at which its expiry still lies ahead.\<close>

definition entry_ok :: "tenancy \<Rightarrow> instant \<Rightarrow> pk \<Rightarrow> tenant \<Rightarrow> perm_entry \<Rightarrow> bool" where
  "entry_ok db now uid t e \<longleftrightarrow> (\<forall>t' \<ge> now. alive (snd e) t' \<longrightarrow> set (fst e) = held db t' uid t)"

definition grants_ok :: "tenancy \<Rightarrow> instant \<Rightarrow> pk \<Rightarrow> role_grant list \<Rightarrow> bool" where
  "grants_ok db now uid gs \<longleftrightarrow> (\<forall>t' \<ge> now. filter (grant_is_active t') gs = applicable_query db t' uid)"

definition ids_ok :: "tenancy \<Rightarrow> instant \<Rightarrow> pk \<Rightarrow> pk list \<times> instant option \<Rightarrow> bool" where
  "ids_ok db now uid r \<longleftrightarrow> (\<forall>t' \<ge> now. alive (snd r) t' \<longrightarrow> set (fst r) = reachable db t' uid)"

definition tenants_ok :: "tenancy \<Rightarrow> instant \<Rightarrow> pk \<Rightarrow> (tenant \<Rightarrow> bool) \<Rightarrow> tenant list \<times> instant option \<Rightarrow> bool" where
  "tenants_ok db now uid P r \<longleftrightarrow>
     (\<forall>t' \<ge> now. alive (snd r) t' \<longrightarrow> set (fst r) = {t \<in> reach_tenants db t' uid. P t})"

definition memo_coherent :: "tenancy \<Rightarrow> instant \<Rightarrow> pk \<Rightarrow> user_memo \<Rightarrow> bool" where
  "memo_coherent db now uid m \<longleftrightarrow>
     (\<forall>gs. um_applicable_grants m = Some gs \<longrightarrow> grants_ok db now uid gs) \<and>
     (\<forall>mp. um_tenant_permissions_map m = Some mp \<longrightarrow>
        (\<forall>t \<in> set (td_tenants db). \<forall>e. map_of mp (tn_id t) = Some e \<longrightarrow> entry_ok db now uid t e)) \<and>
     (\<forall>t \<in> set (td_tenants db). \<forall>e. um_perms_tenant m (tn_id t) = Some e \<longrightarrow> entry_ok db now uid t e) \<and>
     (\<forall>ids. um_accessible_ids m = Some ids \<longrightarrow> ids_ok db now uid (ids, um_accessible_valid_until m)) \<and>
     (\<forall>r. um_all_accessible_scope_tenants m = Some r \<longrightarrow> tenants_ok db now uid (\<lambda>_. True) r) \<and>
     (\<forall>grp r. um_group_scope_tenants m grp = Some r \<longrightarrow> tenants_ok db now uid (in_group db grp) r)"

text \<open>What the code takes from the memo without looking at an expiry: the grants, the precomputed map,
  the union under the all-accessible scope and the ids of a group scope.  They are right as long as nothing in them expired.\<close>

definition memo_current :: "tenancy \<Rightarrow> instant \<Rightarrow> pk \<Rightarrow> user_memo \<Rightarrow> bool" where
  "memo_current db now uid m \<longleftrightarrow>
     (\<forall>gs. um_applicable_grants m = Some gs \<longrightarrow> (\<forall>g \<in> set gs. grant_is_active now g)) \<and>
     (\<forall>mp. um_tenant_permissions_map m = Some mp \<longrightarrow> (\<forall>(x, e) \<in> set mp. alive (snd e) now)) \<and>
     (\<forall>ps. um_all_accessible_perms m = Some ps \<longrightarrow> set ps = (\<Union>t \<in> reach_tenants db now uid. held db now uid t)) \<and>
     (\<forall>grp ids. um_group_scope_ids m grp = Some ids \<longrightarrow>
        set ids = tn_id ` {t \<in> reach_tenants db now uid. in_walk db grp t})"

definition world_ok :: "tenancy \<Rightarrow> instant \<Rightarrow> pk \<Rightarrow> world \<Rightarrow> bool" where
  "world_ok db now uid w \<longleftrightarrow> keyed tn_id (td_tenants db) \<and>
     cache_sound (td_groups db) (cx_tree_cache (w_ctx w)) \<and> memo_coherent db now uid (w_memo w)"

abbreviation world_current :: "tenancy \<Rightarrow> instant \<Rightarrow> pk \<Rightarrow> world \<Rightarrow> bool" where
  "world_current db now uid w \<equiv> world_ok db now uid w \<and> memo_current db now uid (w_memo w)"

lemma coherentD:
  assumes "memo_coherent db now uid m"
  shows "um_applicable_grants m = Some gs \<Longrightarrow> grants_ok db now uid gs"
    and "um_tenant_permissions_map m = Some mp \<Longrightarrow> t \<in> set (td_tenants db) \<Longrightarrow> map_of mp (tn_id t) = Some e \<Longrightarrow>
      entry_ok db now uid t e"
    and "um_perms_tenant m (tn_id t) = Some e \<Longrightarrow> t \<in> set (td_tenants db) \<Longrightarrow> entry_ok db now uid t e"
    and "um_accessible_ids m = Some ids \<Longrightarrow> ids_ok db now uid (ids, um_accessible_valid_until m)"
    and "um_all_accessible_scope_tenants m = Some r \<Longrightarrow> tenants_ok db now uid (\<lambda>_. True) r"
    and "um_group_scope_tenants m grp = Some r \<Longrightarrow> tenants_ok db now uid (in_group db grp) r"
  using assms by (simp_all add: memo_coherent_def del: split_paired_All)

lemma currentD:
  assumes "memo_current db now uid m"
  shows "um_applicable_grants m = Some gs \<Longrightarrow> g \<in> set gs \<Longrightarrow> grant_is_active now g"
    and "um_tenant_permissions_map m = Some mp \<Longrightarrow> map_of mp x = Some e \<Longrightarrow> alive (snd e) now"
    and "um_all_accessible_perms m = Some ps \<Longrightarrow> set ps = (\<Union>t \<in> reach_tenants db now uid. held db now uid t)"
    and "um_group_scope_ids m grp = Some ids \<Longrightarrow> set ids = tn_id ` {t \<in> reach_tenants db now uid. in_walk db grp t}"
  using assms by (auto simp: memo_current_def dest!: map_of_SomeD)

lemma world_okD:
  assumes "world_ok db now uid w"
  shows "keyed tn_id (td_tenants db)" "cache_sound (td_groups db) (cx_tree_cache (w_ctx w))"
    "memo_coherent db now uid (w_memo w)"
  using assms by (simp_all add: world_ok_def)

lemma memo_fresh [simp]: "memo_coherent db now uid fresh_memo" "memo_current db now uid fresh_memo"
  by (simp_all add: memo_coherent_def memo_current_def fresh_memo_def)

lemma memo_same_content:
  assumes "same_content m m'"
  shows "memo_coherent db now uid m' = memo_coherent db now uid m"
    "memo_current db now uid m' = memo_current db now uid m"
proof -
  have "m = m'\<lparr>um_version := um_version m, um_token := um_token m\<rparr>" using assms by (simp add: same_content_def)
  then obtain v tok where "m = m'\<lparr>um_version := v, um_token := tok\<rparr>" by blast
  then show "memo_coherent db now uid m' = memo_coherent db now uid m"
    "memo_current db now uid m' = memo_current db now uid m"
    by (simp_all add: memo_coherent_def memo_current_def)
qed

lemma desc_in_ok: "world_ok db now uid w \<Longrightarrow> desc_in db w = walk_desc (td_groups db)"
  by (simp add: desc_in_def world_ok_def context_desc_eq)

lemma synchronize_ctx [simp]: "w_ctx (synchronize uid w) = w_ctx w"
  by (simp add: synchronize_def split: prod.split)

lemma synchronize_ok:
  assumes "world_ok db now uid w"
  shows "world_ok db now uid (synchronize uid w)"
    and "memo_current db now uid (w_memo w) \<Longrightarrow> memo_current db now uid (w_memo (synchronize uid w))"
proof -
  let ?s = "synchronize_authorization_cache (cx_request (w_ctx w)) uid (w_memo w) (w_az w)"
  obtain m st where s: "?s = (m, st)" by (cases ?s)
  have "same_content (w_memo w) m \<or> same_content fresh_memo m"
    using synchronize_cases[of "w_memo w" "cx_request (w_ctx w)" uid "w_az w" thesis for thesis] s by auto
  then show "world_ok db now uid (synchronize uid w)"
    "memo_current db now uid (w_memo w) \<Longrightarrow> memo_current db now uid (w_memo (synchronize uid w))"
    using assms s memo_same_content by (auto simp: synchronize_def world_ok_def)
qed

text \<open>Coherence survives the passage of time; only \<^const>\<open>memo_current\<close> has to be checked again.\<close>

lemma world_ok_later: "world_ok db now uid w \<Longrightarrow> now \<le> t' \<Longrightarrow> world_ok db t' uid w"
  by (fastforce simp: world_ok_def memo_coherent_def entry_ok_def grants_ok_def ids_ok_def tenants_ok_def)

lemma query_grants_ok [simp]: "grants_ok db now uid (applicable_query db now uid)"
  by (simp add: grants_ok_def applicable_later)

lemma grants_ok_now: "grants_ok db now uid gs \<Longrightarrow> filter (grant_is_active now) gs = applicable_query db now uid"
  by (simp add: grants_ok_def)

lemma grants_ok_current:
  "grants_ok db now uid gs \<Longrightarrow> \<forall>g \<in> set gs. grant_is_active now g \<Longrightarrow> gs = applicable_query db now uid"
  using grants_ok_now[of db now uid gs] by simp

lemma applicable_grants_ok:
  assumes "world_ok db now uid w" "applicable_grants db now uid w = (gs, w1)"
  shows "world_ok db now uid w1" "w_ctx w1 = w_ctx w" "grants_ok db now uid gs"
    and "memo_current db now uid (w_memo w) \<Longrightarrow>
      memo_current db now uid (w_memo w1) \<and> gs = applicable_query db now uid"
proof -
  let ?w = "synchronize uid w"
  note sync = synchronize_ok[OF assms(1)]
  have c: "(\<exists>gs'. um_applicable_grants (w_memo ?w) = Some gs' \<and> gs = gs' \<and> w1 = ?w) \<or>
      (gs = applicable_query db now uid \<and>
       w1 = ?w\<lparr>w_memo := (w_memo ?w)\<lparr>um_applicable_grants := Some (applicable_query db now uid)\<rparr>\<rparr>)"
    using assms(2) by (auto simp: applicable_grants_def Let_def split: option.splits)
  show gs: "grants_ok db now uid gs"
    using c sync(1) by (auto simp: world_ok_def memo_coherent_def)
  show "world_ok db now uid w1" "w_ctx w1 = w_ctx w"
    using c sync(1) by (auto simp: world_ok_def memo_coherent_def)
  show "memo_current db now uid (w_memo w1) \<and> gs = applicable_query db now uid"
    if "memo_current db now uid (w_memo w)"
    using c sync(2)[OF that] gs by (auto simp: memo_current_def grants_ok_current dest: applicable_live)
qed

lemma loop_entry_ok:
  assumes "grants_ok db now uid gs"
  shows "entry_ok db now uid t (effective_loop (walk_desc (td_groups db)) now t gs ([], None))"
  unfolding entry_ok_def
proof (intro allI impI)
  let ?d = "walk_desc (td_groups db)"
  let ?e = "effective_loop ?d now t gs ([], None)"
  fix t' assume t': "now \<le> t'" "alive (snd ?e) t'"
  have "held db t' uid t = conferred ?d t' gs t"
    unfolding held_def using assms t'(1) conferred_active[of ?d t' gs t] by (simp add: grants_ok_def)
  also have "\<dots> = conferred ?d now gs t"
    using t' by (intro conferred_later) (auto dest: effective_loop_alive)
  finally show "set (fst ?e) = held db t' uid t" by (simp add: set_effective_loop)
qed

lemma effective_permissions_ok:
  assumes w: "world_ok db now uid w" and t: "t \<in> set (td_tenants db)"
    and run: "effective_permissions_with_expiry db now uid t w = (e, w1)"
  shows "world_ok db now uid w1" "w_ctx w1 = w_ctx w" "entry_ok db now uid t e"
    and "memo_current db now uid (w_memo w) \<Longrightarrow> memo_current db now uid (w_memo w1) \<and> set (fst e) = held db now uid t"
    and "um_tenant_permissions_map (w_memo w) = None \<Longrightarrow> set (fst e) = held db now uid t"
proof -
  let ?look = "Option.bind (um_tenant_permissions_map (w_memo w)) (\<lambda>mp. map_of mp (tn_id t))"
  have c: "(?look = Some e \<and> w1 = w) \<or>
      (?look = None \<and> (\<exists>gs. applicable_grants db now uid w = (gs, w1) \<and>
         e = effective_loop (desc_in db w1) now t gs ([], None)))"
    using run by (auto simp: effective_permissions_with_expiry_def split: option.splits prod.splits)
  have loop: "world_ok db now uid w1 \<and> w_ctx w1 = w_ctx w \<and> entry_ok db now uid t e \<and> set (fst e) = held db now uid t \<and>
      (memo_current db now uid (w_memo w) \<longrightarrow> memo_current db now uid (w_memo w1))"
    if "?look = None"
  proof -
    from c that obtain gs where gs: "applicable_grants db now uid w = (gs, w1)"
      "e = effective_loop (desc_in db w1) now t gs ([], None)" by auto
    note app = applicable_grants_ok[OF w gs(1)]
    have e: "e = effective_loop (walk_desc (td_groups db)) now t gs ([], None)"
      using gs(2) desc_in_ok[OF app(1)] by simp
    have "set (fst e) = conferred (walk_desc (td_groups db)) now gs t" by (simp add: e set_effective_loop)
    also have "\<dots> = held db now uid t"
      unfolding held_def using grants_ok_now[OF app(3)] conferred_active by metis
    finally show ?thesis using app loop_entry_ok[OF app(3), of t] e by simp
  qed
  have hit: "entry_ok db now uid t e \<and> (memo_current db now uid (w_memo w) \<longrightarrow> alive (snd e) now)" if "?look = Some e"
  proof -
    from that obtain mp where "um_tenant_permissions_map (w_memo w) = Some mp" "map_of mp (tn_id t) = Some e"
      by (auto simp: bind_eq_Some_conv)
    then show ?thesis
      using coherentD(2)[OF world_okD(3)[OF w] _ t] currentD(2) by blast
  qed
  show "world_ok db now uid w1" "w_ctx w1 = w_ctx w" "entry_ok db now uid t e" using c loop hit w by auto
  then show "memo_current db now uid (w_memo w1) \<and> set (fst e) = held db now uid t"
    if "memo_current db now uid (w_memo w)"
    using that c loop hit by (auto simp: entry_ok_def)
  show "set (fst e) = held db now uid t" if "um_tenant_permissions_map (w_memo w) = None"
    using loop that by simp
qed

lemma map_entry_nonempty:
  assumes "map_of (tenant_permissions desc now tenants gs) x = Some e"
  shows "map_perms (tenant_permissions desc now tenants gs) x \<noteq> {}"
proof -
  have "no_empty_entries (coverage_of desc now tenants gs)"
    unfolding coverage_of_def by (rule no_empty_fold) (auto simp: mem_grant_candidates no_empty_entries_def)
  with assms show ?thesis
    by (auto simp: tenant_permissions_coverage map_perms_def map_of_tagged no_empty_entries_def)
qed

lemma map_entry_ok:
  assumes keyed: "keyed tn_id (td_tenants db)" and gs: "grants_ok db now uid gs" and t: "t \<in> set (td_tenants db)"
    and e: "map_of (tenant_permissions (walk_desc (td_groups db)) now (td_tenants db) gs) (tn_id t) = Some e"
  shows "entry_ok db now uid t e"
  unfolding entry_ok_def
proof (intro allI impI)
  let ?d = "walk_desc (td_groups db)" and ?ts = "td_tenants db" and ?x = "tn_id t"
  define cs where "cs = grant_candidates ?d ?ts gs"
  define by_id where "by_id = live_tenants_by_id ?ts (concat (map (\<lambda>(g, perms, ids). ids) cs))"
  define cov where "cov = coverage_of ?d now ?ts gs"
  have cov_fold: "cov = fold (\<lambda>(g, perms, ids). accumulate_grant_coverage ?d now by_id g perms ids) cs ([], Map.empty)"
    by (simp add: cov_def coverage_of_def by_id_def cs_def)
  have kf: "keyed tn_id (filter tn_live ?ts)" using keyed by (auto simp: keyed_def distinct_map inj_on_def)
  have d: "?d = context_desc (td_groups db) Map.empty"
    by (rule context_desc_eq[symmetric]) (simp add: cache_sound_def)
  have snd_e: "snd e = snd cov ?x"
    using e by (auto simp: tenant_permissions_coverage cov_def map_of_tagged)
  have "map_perms (tenant_permissions ?d now ?ts gs) ?x = set (fst e)"
    using e by (cases e) (simp add: map_perms_def)
  moreover have ne: "map_perms (tenant_permissions ?d now ?ts gs) ?x \<noteq> {}" using e by (rule map_entry_nonempty)
  ultimately have live: "find_row tn_id ?x (filter tn_live ?ts) = Some t"
    using t keyed find_row_iff[OF kf] unfolding d tenant_permissions_perms[OF keyed]
    by (auto simp: keyed_inj dest!: find_row_SomeD split: option.splits)
  then have tl: "tn_live t" by (auto dest: find_row_SomeD)
  have perms: "set (fst e) = conferred ?d now gs t"
    using \<open>map_perms _ ?x = set (fst e)\<close> live unfolding d tenant_permissions_perms[OF keyed] by simp
  fix t' assume t': "now \<le> t'" "alive (snd e) t'"
  have act: "grant_is_active t' g" if g: "g \<in> set gs" "covers_tenant ?d now g t" "ro_permissions (rg_role g) \<noteq> []" for g
  proof -
    have cand: "?x \<in> set (grant_candidate_tenant_ids ?d ?ts g)"
      using covers_candidate[OF keyed t tl] g(2) unfolding d by blast
    then have c: "(g, ro_permissions (rg_role g), grant_candidate_tenant_ids ?d ?ts g) \<in> set cs"
      using g by (auto simp: cs_def mem_grant_candidates)
    have "by_id ?x = Some t"
      using t tl keyed cand c by (force simp: by_id_def live_tenants_by_id_iff)
    then have "hits ?d now by_id g ?x" using g by (simp add: hits_def)
    then show ?thesis using t'(2) cand c unfolding snd_e cov_fold accumulate_fold_alive by auto
  qed
  have "held db t' uid t = conferred ?d t' gs t"
    unfolding held_def using gs t'(1) conferred_active[of ?d t' gs t] by (simp add: grants_ok_def)
  also have "\<dots> = conferred ?d now gs t" using t'(1) act by (rule conferred_later)
  finally show "set (fst e) = held db t' uid t" by (simp add: perms)
qed

lemma map_entries_alive:
  "(x, e) \<in> set (tenant_permissions desc now tenants gs) \<Longrightarrow> alive (snd e) now"
proof -
  assume e: "(x, e) \<in> set (tenant_permissions desc now tenants gs)"
  then have "snd e = snd (coverage_of desc now tenants gs) x" by (auto simp: tenant_permissions_coverage)
  moreover have "alive (snd (coverage_of desc now tenants gs) x) now"
    unfolding coverage_of_def accumulate_fold_alive by (auto simp: hits_def dest: covers_live_grant)
  ultimately show ?thesis by simp
qed

lemma memo_current_set_map:
  "memo_current db now uid m \<Longrightarrow> \<forall>(x, e) \<in> set mp. alive (snd e) now \<Longrightarrow>
     memo_current db now uid (m\<lparr>um_tenant_permissions_map := Some mp\<rparr>)"
  by (simp add: memo_current_def)

lemma build_map_ok:
  assumes w: "world_ok db now uid w"
    and run: "build_accessible_tenant_permissions_map db now uid None w = (mp, w1)"
  shows "world_ok db now uid w1" "w_ctx w1 = w_ctx w"
    and "\<And>t e. t \<in> set (td_tenants db) \<Longrightarrow> map_of mp (tn_id t) = Some e \<Longrightarrow> entry_ok db now uid t e"
    and "memo_current db now uid (w_memo w) \<Longrightarrow> memo_current db now uid (w_memo w1)"
proof -
  let ?w = "synchronize uid w"
  note sync = synchronize_ok[OF w]
  have c: "(um_tenant_permissions_map (w_memo ?w) = Some mp \<and> w1 = ?w) \<or>
      (\<exists>gs w2. applicable_grants db now uid ?w = (gs, w2) \<and> mp = tenant_permissions (desc_in db w2) now (td_tenants db) gs \<and>
         w1 = w2\<lparr>w_memo := (w_memo w2)\<lparr>um_tenant_permissions_map := Some mp\<rparr>\<rparr>)"
    using run by (auto simp: build_accessible_tenant_permissions_map_def Let_def split: option.splits prod.splits)
  have "world_ok db now uid w1 \<and> w_ctx w1 = w_ctx w \<and>
      (\<forall>t \<in> set (td_tenants db). \<forall>e. map_of mp (tn_id t) = Some e \<longrightarrow> entry_ok db now uid t e) \<and>
      (memo_current db now uid (w_memo w) \<longrightarrow> memo_current db now uid (w_memo w1))"
    using c
  proof
    assume "um_tenant_permissions_map (w_memo ?w) = Some mp \<and> w1 = ?w"
    then show ?thesis using sync coherentD(2)[OF world_okD(3)[OF sync(1)]] by auto
  next
    assume "\<exists>gs w2. applicable_grants db now uid ?w = (gs, w2) \<and> mp = tenant_permissions (desc_in db w2) now (td_tenants db) gs \<and>
         w1 = w2\<lparr>w_memo := (w_memo w2)\<lparr>um_tenant_permissions_map := Some mp\<rparr>\<rparr>"
    then obtain gs w2 where g: "applicable_grants db now uid ?w = (gs, w2)"
      "mp = tenant_permissions (desc_in db w2) now (td_tenants db) gs"
      "w1 = w2\<lparr>w_memo := (w_memo w2)\<lparr>um_tenant_permissions_map := Some mp\<rparr>\<rparr>" by blast
    note app = applicable_grants_ok[OF sync(1) g(1)]
    have mp: "mp = tenant_permissions (walk_desc (td_groups db)) now (td_tenants db) gs"
      using g(2) desc_in_ok[OF app(1)] by simp
    have entries: "\<forall>t \<in> set (td_tenants db). \<forall>e. map_of mp (tn_id t) = Some e \<longrightarrow> entry_ok db now uid t e"
      using map_entry_ok[OF _ app(3)] w unfolding mp world_ok_def by blast
    moreover have "\<forall>(x, e) \<in> set mp. alive (snd e) now"
      unfolding mp using map_entries_alive by blast
    moreover have "world_ok db now uid w1"
      using app(1) entries unfolding g(3) world_ok_def memo_coherent_def by (simp del: split_paired_All)
    moreover have "memo_current db now uid (w_memo w1)" if "memo_current db now uid (w_memo w)"
    proof -
      have "memo_current db now uid (w_memo w2)" using app(4) sync(2) that by blast
      then show ?thesis unfolding g(3) using calculation(2) by (simp add: memo_current_set_map)
    qed
    moreover have "w_ctx w1 = w_ctx w" unfolding g(3) using app(2) by simp
    ultimately show ?thesis by blast
  qed
  then show "world_ok db now uid w1" "w_ctx w1 = w_ctx w"
    "\<And>t e. t \<in> set (td_tenants db) \<Longrightarrow> map_of mp (tn_id t) = Some e \<Longrightarrow> entry_ok db now uid t e"
    "memo_current db now uid (w_memo w) \<Longrightarrow> memo_current db now uid (w_memo w1)" by blast+
qed

lemma covered_in_table_later:
  "now \<le> t' \<Longrightarrow> covered_in_table desc t' tenants g =
     (if grant_is_active t' g then covered_in_table desc now tenants g else {})"
  by (auto simp: covered_in_table_def covers_later)

lemma accessible_ids_ok:
  assumes keyed: "keyed tn_id (td_tenants db)"
  shows "ids_ok db now uid (accessible_from_grants (walk_desc (td_groups db)) now (td_tenants db)
           (applicable_query db now uid) (membership_tenant_ids db uid))"
  unfolding ids_ok_def
proof (intro allI impI)
  let ?d = "walk_desc (td_groups db)" and ?ts = "td_tenants db" and ?gs = "applicable_query db now uid"
  let ?r = "accessible_from_grants ?d now ?ts ?gs (membership_tenant_ids db uid)"
  fix t' assume t': "now \<le> t'" "alive (snd ?r) t'"
  have none: "?d None = []" by (simp add: walk_desc_def)
  have act: "grant_is_active t' g" if g: "g \<in> set ?gs" "covered_in_table ?d now ?ts g \<noteq> {}" for g
  proof -
    from g(2) obtain t where "t \<in> set ?ts" "tn_live t" "covers_tenant ?d now g t"
      by (auto simp: covered_in_table_def)
    then obtain s where "s \<in> set (rg_scopes g)" "fst (scope_contribution ?d now ?ts
        (Some (live_tenants_by_id ?ts (preload_ids ?gs))) s g (principal_tenant_id g)) \<noteq> []"
      using scope_contribution_complete[OF keyed, of t ?d now g "preload_ids ?gs"] mem_preload_ids[OF g(1)] by force
    then show ?thesis using t'(2) g(1) by (auto simp: accessible_from_grants_def accessible_grants_alive)
  qed
  have "set (fst ?r) = set (membership_tenant_ids db uid) \<union> (\<Union>g \<in> set ?gs. covered_in_table ?d now ?ts g)"
    by (rule accessible_ids_exact[where desc = ?d, OF keyed none]) (rule applicable_live)
  also have "(\<Union>g \<in> set ?gs. covered_in_table ?d now ?ts g) =
      (\<Union>g \<in> set (applicable_query db t' uid). covered_in_table ?d t' ?ts g)"
    using act by (fastforce simp: applicable_later[OF t'(1)] covered_in_table_later[OF t'(1)])
  finally show "set (fst ?r) = reachable db t' uid" by (simp add: reachable_def)
qed

lemma memo_set_accessible:
  "memo_coherent db now uid m \<Longrightarrow> ids_ok db now uid (ids, v) \<Longrightarrow>
     memo_coherent db now uid (m\<lparr>um_accessible_ids := Some ids, um_accessible_valid_until := v\<rparr>)"
  "memo_current db now uid m \<Longrightarrow>
     memo_current db now uid (m\<lparr>um_accessible_ids := Some ids, um_accessible_valid_until := v\<rparr>)"
  by (simp_all add: memo_coherent_def memo_current_def del: split_paired_All)

lemma accessible_with_expiry_ok:
  assumes w: "world_current db now (us_id u) w" and u: "us_authenticated u"
    and run: "accessible_tenant_ids_with_expiry db now (Some u) w = (r, w1)"
  shows "world_current db now (us_id u) w1 \<and> w_ctx w1 = w_ctx w \<and> ids_ok db now (us_id u) r \<and>
    set (fst r) = reachable db now (us_id u)"
proof -
  let ?w = "synchronize (us_id u) w" and ?uid = "us_id u"
  have sync: "world_current db now ?uid ?w" using synchronize_ok w by blast
  have now: "set (fst r) = reachable db now ?uid" if "ids_ok db now ?uid r" "alive (snd r) now"
    using that by (simp add: ids_ok_def)
  obtain r' w' where rb: "rbac_accessible_with_expiry db now ?uid ?w = (r', w')" by (cases "rbac_accessible_with_expiry db now ?uid ?w")
  obtain ids' v' where r': "r' = (ids', v')" by (cases r')
  consider (hit) ids where "um_accessible_ids (w_memo ?w) = Some ids" "alive (um_accessible_valid_until (w_memo ?w)) now"
      "r = (ids, um_accessible_valid_until (w_memo ?w))" "w1 = ?w"
    | (miss) w2 where "rbac_accessible_with_expiry db now ?uid ?w = (r, w2)"
      "w1 = w2\<lparr>w_memo := (w_memo w2)\<lparr>um_accessible_ids := Some (fst r), um_accessible_valid_until := snd r\<rparr>\<rparr>"
  proof (cases "um_accessible_ids (w_memo ?w) \<noteq> None \<and> alive (um_accessible_valid_until (w_memo ?w)) now")
    case True
    then obtain ids where ids: "um_accessible_ids (w_memo ?w) = Some ids" by blast
    have "accessible_tenant_ids_with_expiry db now (Some u) w = ((ids, um_accessible_valid_until (w_memo ?w)), ?w)"
      using u True unfolding accessible_tenant_ids_with_expiry_def Let_def
      by (simp add: ids)
    then show thesis using run hit[OF ids] True by simp
  next
    case False
    then have "accessible_tenant_ids_with_expiry db now (Some u) w = (r', w'\<lparr>w_memo := (w_memo w')\<lparr>um_accessible_ids := Some ids',
        um_accessible_valid_until := v'\<rparr>\<rparr>)"
      using u rb r' unfolding accessible_tenant_ids_with_expiry_def Let_def by (simp only: option.case if_False if_True simp_thms prod.case)
    then show thesis using run miss rb r' by simp
  qed
  then show ?thesis
  proof cases
    case hit
    then have "ids_ok db now ?uid r" using coherentD(4)[OF world_okD(3)] sync by blast
    then show ?thesis using hit now sync by simp
  next
    case miss
    from miss(1) obtain gs where gs: "applicable_grants db now ?uid ?w = (gs, w2)"
      "r = accessible_from_grants (desc_in db w2) now (td_tenants db) gs (membership_tenant_ids db ?uid)"
      by (auto simp: rbac_accessible_with_expiry_def split: prod.splits)
    note app = applicable_grants_ok[OF conjunct1[OF sync] gs(1)]
    have cur: "memo_current db now ?uid (w_memo w2)" "gs = applicable_query db now ?uid"
      using app(4) sync by blast+
    have r: "r = accessible_from_grants (walk_desc (td_groups db)) now (td_tenants db)
        (applicable_query db now ?uid) (membership_tenant_ids db ?uid)"
      using gs(2) desc_in_ok[OF app(1)] cur(2) by simp
    have ids: "ids_ok db now ?uid r"
      unfolding r using accessible_ids_ok world_okD(1) w by blast
    have "set (fst r) = reachable db now ?uid"
      unfolding r reachable_def using accessible_ids_exact world_okD(1) w applicable_live
      by (metis walk_resolver.desc_None)
    moreover have "world_current db now ?uid w1"
      using app(1) cur(1) ids memo_set_accessible unfolding miss(2) world_ok_def by simp
    ultimately show ?thesis using ids app(2) miss(2) by simp
  qed
qed

section \<open>Properties\<close>

text \<open>C19. The precomputed permission map is a faithful optimisation: for every live tenant of the table it
  holds exactly the permissions that walking the grants one by one with \<open>covers_tenant\<close> collects.\<close>

theorem permission_map_equals_walk:
  assumes "keyed tn_id tenants" "t \<in> set tenants" "tn_live t"
  shows "map_perms (tenant_permissions (context_desc groups cache) now tenants grants) (tn_id t) =
    set (fst (effective_loop (context_desc groups cache) now t grants ([], None)))"
proof -
  have "find_row tn_id (tn_id t) (filter tn_live tenants) = Some t"
    using assms by (intro find_row_mem) (auto simp: keyed_def distinct_map inj_on_def)
  then show ?thesis by (simp add: tenant_permissions_perms[OF assms(1)] set_effective_loop)
qed

theorem permission_map_equals_walk_witness:
  "map_perms (tenant_permissions (context_desc sample_groups Map.empty) 50
     [sample_provider, sample_customer, sample_stranger] [sample_grant]) 2 = {Perm ''assets.view_asset''}"
  using permission_map_equals_walk[OF sample_keyed, of sample_customer sample_groups Map.empty 50 "[sample_grant]"] sample_covers
  by (simp add: tn_live_def sample_tenants sample_grants)

text \<open>Permissions never outrun visibility: every tenant for which the permission map of a user's
  grants holds an entry is in the set of tenants accessible through the same grants.\<close>

theorem permission_map_within_accessible:
  assumes "keyed tn_id (td_tenants db)"
  shows "fst ` set (tenant_permissions (context_desc (td_groups db) cache) now (td_tenants db) (applicable_query db now uid)) \<subseteq>
    set (fst (accessible_from_grants (context_desc (td_groups db) cache) now (td_tenants db)
                (applicable_query db now uid) (membership_tenant_ids db uid)))"
proof
  let ?d = "context_desc (td_groups db) cache" and ?gs = "applicable_query db now uid"
  let ?mp = "tenant_permissions ?d now (td_tenants db) ?gs"
  fix x assume "x \<in> fst ` set ?mp"
  then obtain e where "map_of ?mp x = Some e"
    by (metis map_of_eq_None_iff option.exhaust)
  then have ne: "map_perms ?mp x \<noteq> {}" by (rule map_entry_nonempty)
  then obtain t where f: "find_row tn_id x (filter tn_live (td_tenants db)) = Some t" and c: "conferred ?d now ?gs t \<noteq> {}"
    by (auto simp: tenant_permissions_perms[OF assms] split: option.splits)
  from f c have t: "t \<in> set (td_tenants db)" "tn_live t" "tn_id t = x" "conferred ?d now ?gs t \<noteq> {}"
    by (auto dest: find_row_SomeD)
  then obtain g where "g \<in> set ?gs" "covers_tenant ?d now g t" by (auto simp: conferred_def)
  then have "x \<in> (\<Union>g \<in> set ?gs. covered_in_table ?d now (td_tenants db) g)"
    using t by (auto simp: covered_in_table_def)
  moreover have "set (fst (accessible_from_grants ?d now (td_tenants db) ?gs (membership_tenant_ids db uid))) =
      set (membership_tenant_ids db uid) \<union> (\<Union>g \<in> set ?gs. covered_in_table ?d now (td_tenants db) g)"
    by (rule accessible_ids_exact[where desc = ?d, OF assms context_resolver.desc_None]) (rule applicable_live)
  ultimately show "x \<in> set (fst (accessible_from_grants ?d now (td_tenants db) ?gs (membership_tenant_ids db uid)))"
    by blast
qed

definition sample_tenancy :: tenancy where
  "sample_tenancy = \<lparr>td_tenants = [sample_provider, sample_customer, sample_stranger], td_groups = sample_groups,
     td_memberships = [sample_member], td_grants = [sample_grant], td_name_le = (\<lambda>a b. length a \<le> length b)\<rparr>"

definition sample_world :: world where
  "sample_world = \<lparr>w_ctx = sample_ctx, w_az = sample_authz, w_memo = fresh_memo\<rparr>"

lemmas sample_db = sample_tenancy_def sample_tenants sample_grants

lemma sample_query:
  "applicable_query sample_tenancy now 9 = (if now < 100 then [sample_grant] else [])"
  by (simp add: applicable_query_def principal_matches_def sample_db)

lemma sample_members: "membership_tenant_ids sample_tenancy 9 = [1]"
  by (simp add: membership_tenant_ids_def sample_db tn_live_def)

theorem permission_map_within_accessible_witness:
  "fst ` set (tenant_permissions (context_desc sample_groups Map.empty) 50 (td_tenants sample_tenancy) [sample_grant])
     \<subseteq> set (fst (accessible_from_grants (context_desc sample_groups Map.empty) 50 (td_tenants sample_tenancy) [sample_grant] [1]))"
proof -
  have "keyed tn_id (td_tenants sample_tenancy)" using sample_keyed by (simp add: sample_tenancy_def)
  from permission_map_within_accessible[OF this, of Map.empty 50 9] show ?thesis
    by (simp add: sample_query sample_members) (simp add: sample_tenancy_def)
qed

text \<open>A permission lapses with its grant: whatever was memoised earlier, an evaluation of a tenant's
  permissions that does not meet the precomputed map returns exactly what the unexpired grants of
  the database confer at that instant.\<close>

theorem permissions_lapse_on_time:
  assumes "world_ok db t0 uid w" "t0 \<le> now" "t \<in> set (td_tenants db)"
    and "um_tenant_permissions_map (w_memo w) = None"
  shows "p \<in> set (fst (effective_permissions db now uid t w)) \<longleftrightarrow>
    (\<exists>g \<in> set (td_grants db). principal_matches uid g \<and> p \<in> set (ro_permissions (rg_role g)) \<and>
       covers_tenant (walk_desc (td_groups db)) now g t)"
proof -
  obtain e w1 where run: "effective_permissions_with_expiry db now uid t w = (e, w1)"
    by (cases "effective_permissions_with_expiry db now uid t w")
  show ?thesis
    using effective_permissions_ok(5)[OF world_ok_later[OF assms(1,2)] assms(3) run assms(4)] run
    by (simp add: effective_permissions_def held_iff)
qed

lemma sample_world_ok: "world_ok sample_tenancy now uid sample_world"
  using sample_keyed by (simp add: world_ok_def sample_world_def sample_ctx_def sample_tenancy_def cache_sound_def)

theorem permissions_lapse_on_time_witness:
  "Perm ''assets.view_asset'' \<in> set (fst (effective_permissions sample_tenancy 60 9 sample_customer sample_world)) \<and>
   Perm ''assets.view_asset'' \<notin> set (fst (effective_permissions sample_tenancy 150 9 sample_customer sample_world))"
proof -
  have t: "sample_customer \<in> set (td_tenants sample_tenancy)" by (simp add: sample_tenancy_def)
  have m: "um_tenant_permissions_map (w_memo sample_world) = None" by (simp add: sample_world_def fresh_memo_def)
  note app = permissions_lapse_on_time[OF sample_world_ok[of 50] _ t m, where p = "Perm ''assets.view_asset''"]
  have "covers_tenant (walk_desc (td_groups sample_tenancy)) 60 sample_grant sample_customer"
    by (simp add: walk_desc_def sample_tenancy_def sample_walk covers_tenant_def grant_is_active_def sample_grants
        principal_tenant_id_def scope_covers_def sample_tenants Let_def)
  then show ?thesis using app[of 60 9] app[of 150 9]
    by (simp add: sample_db principal_matches_def) (simp add: covers_tenant_def grant_is_active_def)
qed

text \<open>A lapsed grant can keep conferring through the precomputed map: the map's entries carry an
  expiry that \<open>effective_permissions_with_expiry\<close> never compares with the clock, so after the map
  has been built on a \<open>User\<close> instance an expired permission is still returned, although the database
  confers nothing any more.\<close>

theorem expired_permission_survives_in_map:
  "let w1 = snd (build_accessible_tenant_permissions_map sample_tenancy 50 9 None sample_world)
   in Perm ''assets.view_asset'' \<in> set (fst (effective_permissions sample_tenancy 150 9 sample_customer w1)) \<and>
      held sample_tenancy 150 9 sample_customer = {}"
proof -
  let ?mp = "tenant_permissions (walk_desc (td_groups sample_tenancy)) 50 (td_tenants sample_tenancy) [sample_grant]"
  have d: "walk_desc sample_groups (Some 1) = [1, 2, 3]" by (simp add: walk_desc_def sample_walk)
  have mp: "map_of ?mp 2 = Some ([Perm ''assets.view_asset''], Some 100)"
    by (simp add: tenant_permissions_coverage coverage_of_def accumulate_grant_coverage_def accumulate_one_def
        live_tenants_by_id_def grant_candidate_tenant_ids_def scoped_tenant_ids_def scope_tenant_ids_def managed_tenants_in_def
        covers_tenant_def scope_covers_def principal_tenant_id_def grant_is_active_def tn_live_def d sample_db Let_def)
  have dw: "desc_in sample_tenancy (synchronize 9 (synchronize 9 sample_world)) = walk_desc (td_groups sample_tenancy)"
    using desc_in_ok synchronize_ok(1) sample_world_ok by metis
  have empty: "um_tenant_permissions_map (w_memo (synchronize 9 sample_world)) = None"
      "um_applicable_grants (w_memo (synchronize 9 (synchronize 9 sample_world))) = None"
    by (simp_all add: synchronize_def synchronize_authorization_cache_def sample_world_def sample_ctx_def sample_authz_def
        fresh_memo_def clear_local_is_fresh request_sync_token_def request_state_def Let_def)
  have "um_tenant_permissions_map (w_memo (snd (build_accessible_tenant_permissions_map sample_tenancy 50 9 None sample_world)))
      = Some ?mp"
    using dw empty by (simp add: build_accessible_tenant_permissions_map_def applicable_grants_def sample_query Let_def desc_in_def)
  then show ?thesis
    using mp by (simp add: effective_permissions_def effective_permissions_with_expiry_def held_def sample_query Let_def)
      (simp add: sample_customer_def)
qed

text \<open>C20. The accessible set of a user is exactly the active memberships' live tenants and the live tenants
  covered by a grant that applies at that instant, whenever the memo holds no expired grant.\<close>

theorem accessible_set_exact:
  assumes "world_ok db now (us_id u) w" "memo_current db now (us_id u) (w_memo w)" "us_authenticated u"
  shows "x \<in> set (fst (accessible_tenant_ids db now (Some u) w)) \<longleftrightarrow>
    x \<in> set (membership_tenant_ids db (us_id u)) \<or>
    (\<exists>t \<in> set (td_tenants db). tn_live t \<and> tn_id t = x \<and>
       (\<exists>g \<in> set (applicable_query db now (us_id u)). covers_tenant (walk_desc (td_groups db)) now g t))"
proof -
  obtain r w1 where run: "accessible_tenant_ids_with_expiry db now (Some u) w = (r, w1)"
    by (cases "accessible_tenant_ids_with_expiry db now (Some u) w")
  have "set (fst r) = reachable db now (us_id u)"
    using accessible_with_expiry_ok[OF _ assms(3) run] assms(1,2) by blast
  then show ?thesis
    by (auto simp: accessible_tenant_ids_def run reachable_def covered_in_table_def)
qed

definition sample_user :: user where
  "sample_user = \<lparr>us_id = 9, us_username = ''tech'', us_authenticated = True, us_active = True,
     us_can_login = True, us_superuser = False\<rparr>"

theorem accessible_set_exact_witness:
  "2 \<in> set (fst (accessible_tenant_ids sample_tenancy 50 (Some sample_user) sample_world)) \<and>
   3 \<notin> set (fst (accessible_tenant_ids sample_tenancy 50 (Some sample_user) sample_world)) \<and>
   2 \<notin> set (fst (accessible_tenant_ids sample_tenancy 150 (Some sample_user) sample_world))"
proof -
  have c: "memo_current sample_tenancy now (us_id sample_user) (w_memo sample_world)" for now
    by (simp add: sample_world_def)
  have u: "us_authenticated sample_user" "us_id sample_user = 9" by (simp_all add: sample_user_def)
  have cov: "covers_tenant (walk_desc (td_groups sample_tenancy)) 50 sample_grant t \<longleftrightarrow> t = sample_customer"
    if "t \<in> set (td_tenants sample_tenancy)" for t
    using that by (auto simp: walk_desc_def sample_tenancy_def sample_walk covers_tenant_def grant_is_active_def
        sample_grants principal_tenant_id_def scope_covers_def sample_tenants Let_def)
  have "2 \<in> set (fst (accessible_tenant_ids sample_tenancy 50 (Some sample_user) sample_world))"
    using cov[of sample_customer] unfolding accessible_set_exact[OF sample_world_ok c u(1)] u(2) sample_query
    by (simp add: sample_tenancy_def) (simp add: sample_tenants tn_live_def)
  moreover have "3 \<notin> set (fst (accessible_tenant_ids sample_tenancy 50 (Some sample_user) sample_world))"
    using cov unfolding accessible_set_exact[OF sample_world_ok c u(1)] u(2) sample_query sample_members
    by (auto simp: sample_customer_def)
  moreover have "2 \<notin> set (fst (accessible_tenant_ids sample_tenancy 150 (Some sample_user) sample_world))"
    unfolding accessible_set_exact[OF sample_world_ok c u(1)] u(2) sample_query sample_members by simp
  ultimately show ?thesis by blast
qed

text \<open>The same lapse on the set of accessible tenants: when the memo of applicable grants outlives a
  grant, a managed scope of the expired grant still lists its tenants, because only own-tenant and
  single-tenant scopes are confirmed with \<open>covers_tenant\<close> again.\<close>

theorem expired_managed_reach_survives:
  "let w1 = snd (accessible_tenant_ids sample_tenancy 50 (Some sample_user) sample_world)
   in 2 \<in> set (fst (accessible_tenant_ids sample_tenancy 150 (Some sample_user) w1)) \<and>
      2 \<notin> reachable sample_tenancy 150 9"
proof -
  define m where "m = fresh_memo\<lparr>um_version := Some (None, None), um_token := Some (77, 0, 0)\<rparr>"
  define w where "w = (\<lambda>m. \<lparr>w_ctx = sample_ctx, w_az = sample_authz\<lparr>az_inval := Some (77, (\<lambda>_. 0), 0)\<rparr>, w_memo = m\<rparr>)"
  let ?gs = "um_applicable_grants_update (\<lambda>_. Some [sample_grant])"
  let ?ids = "\<lambda>ids v m. m\<lparr>um_accessible_ids := Some ids, um_accessible_valid_until := v\<rparr>"
  note sync_defs = synchronize_def synchronize_authorization_cache_def sample_ctx_def sample_authz_def
    request_sync_token_def request_state_def Let_def
  have sync0: "synchronize 9 sample_world = w m"
    by (simp add: sample_world_def w_def m_def clear_local_is_fresh sync_defs) (simp add: fresh_memo_def)
  have sync: "synchronize 9 (w m') = w m'" if "um_token m' = Some (77, 0, 0)" for m'
    using that by (simp add: w_def sync_defs)
  have tok: "um_token m = Some (77, 0, 0)" by (simp add: m_def)
  have memo_w: "w_memo (w m') = m'" for m' by (simp add: w_def)
  have d: "context_desc sample_groups Map.empty (Some 1) = [1, 2, 3]"
    by (simp add: context_desc_eq cache_sound_def walk_desc_def sample_walk)
  have reach: "accessible_from_grants (desc_in sample_tenancy (w m')) now (td_tenants sample_tenancy) [sample_grant] [1]
      = ([1, 2], Some 100)" for now m'
    by (simp add: accessible_from_grants_def accessible_step_def scope_contribution_def managed_scope_contribution_def
        managed_tenants_in_def preload_ids_def desc_in_def w_def sample_ctx_def d sample_db principal_tenant_id_def
        tn_live_def earlier_def)
  have app0: "applicable_grants sample_tenancy 50 9 (w m) = ([sample_grant], w (?gs m))"
    by (simp add: applicable_grants_def sync m_def sample_query) (simp add: w_def fresh_memo_def sample_query Let_def)
  have app1: "applicable_grants sample_tenancy 150 9 (w (?ids [1, 2] (Some 100) (?gs m)))
      = ([sample_grant], w (?ids [1, 2] (Some 100) (?gs m)))"
    by (simp add: applicable_grants_def sync m_def) (simp add: w_def)
  have u: "us_authenticated sample_user" "us_id sample_user = 9" by (simp_all add: sample_user_def)
  have "snd (accessible_tenant_ids sample_tenancy 50 (Some sample_user) sample_world) = w (?ids [1, 2] (Some 100) (?gs m))"
    by (simp add: accessible_tenant_ids_def accessible_tenant_ids_with_expiry_def rbac_accessible_with_expiry_def u sync0
        app0 reach sample_members Let_def) (simp add: w_def m_def fresh_memo_def)
  moreover have "fst (accessible_tenant_ids sample_tenancy 150 (Some sample_user) (w (?ids [1, 2] (Some 100) (?gs m)))) = [1, 2]"
    by (simp add: accessible_tenant_ids_def accessible_tenant_ids_with_expiry_def rbac_accessible_with_expiry_def u
        app1 reach sample_members Let_def sync tok memo_w)
  moreover have "2 \<notin> reachable sample_tenancy 150 9"
    by (simp add: reachable_def sample_query sample_members)
  ultimately show ?thesis by (simp add: Let_def)
qed

end
