(* ===== verification/Backend.thy ===== *)
theory Backend
  imports Rbac
begin

text \<open>
  The permission backend, \<^verbatim>\<open>core/auth/__init__.py\<close> (\<open>MembershipBackend\<close>): resolution of the tenant a
  check is made against, the aggregate scopes (tenant group, all accessible tenants), and
  \<open>has_perm\<close> / \<open>has_module_perms\<close> over the memoised permissions of \<^verbatim>\<open>organization/rbac.py\<close>.  Every
  function takes and returns the acting user's world; the fallback of \<open>_ambient_tenant\<close> binds the
  current tenant in its context.  A membership query without a total order returns its rows in
  table order.
\<close>

section \<open>Tenant permissions\<close>

text \<open>An object passed to \<open>has_perm\<close>: its \<open>tenant\<close> attribute, and itself when it is a tenant.\<close>

record subject =
  ob_tenant :: "tenant option"
  ob_self :: "tenant option"

definition object_tenant :: "subject \<Rightarrow> tenant option" where
  "object_tenant obj = (case ob_tenant obj of None \<Rightarrow> ob_self obj | Some t \<Rightarrow> Some t)"

definition effective_perms_for_tenant ::
    "tenancy \<Rightarrow> instant \<Rightarrow> user \<Rightarrow> tenant \<Rightarrow> world \<Rightarrow> permission list \<times> world" where
  "effective_perms_for_tenant db now u t w =
     (let w1 = synchronize (us_id u) w;
          cached = um_perms_tenant (w_memo w1) (tn_id t)
      in if cached \<noteq> None \<and> alive (snd (the cached)) now then (fst (the cached), w1)
         else
           (let (e, w2) = effective_permissions_with_expiry db now (us_id u) t w1
            in (fst e, w2\<lparr>w_memo := (w_memo w2)\<lparr>um_perms_tenant := (um_perms_tenant (w_memo w2))(tn_id t \<mapsto> e)\<rparr>\<rparr>)))"

section \<open>Context resolution\<close>

definition tenants_with_ids :: "tenancy \<Rightarrow> pk list \<Rightarrow> tenant list" where
  "tenants_with_ids db ids = filter (\<lambda>t. tn_id t \<in> set ids \<and> tn_live t) (td_tenants db)"

definition group_scope_tenants ::
    "tenancy \<Rightarrow> instant \<Rightarrow> user \<Rightarrow> world \<Rightarrow> tenant list option \<times> world" where
  "group_scope_tenants db now u w =
     (let w1 = synchronize (us_id u) w; c = w_ctx w1; m = w_memo w1 in
      if cx_tenant c \<noteq> None then (None, w1)
      else if cx_all_accessible c
      then (let cached = um_all_accessible_scope_tenants m in
            if cached \<noteq> None \<and> alive (snd (the cached)) now then (Some (fst (the cached)), w1)
            else
              (let ((ids, valid_until), w2) = accessible_tenant_ids_with_expiry db now (Some u) w1;
                   tenants = tenants_with_ids db ids
               in (Some tenants,
                   w2\<lparr>w_memo := (w_memo w2)\<lparr>um_all_accessible_scope_tenants := Some (tenants, valid_until)\<rparr>\<rparr>)))
      else
        (case cx_group c of
           None \<Rightarrow> (None, w1)
         | Some grp \<Rightarrow>
             (let cached = um_group_scope_tenants m grp in
              if cached \<noteq> None \<and> alive (snd (the cached)) now then (Some (fst (the cached)), w1)
              else
                (let ((ids, valid_until), w2) = accessible_tenant_ids_with_expiry db now (Some u) w1;
                     group_ids = desc_in db w2 (Some grp);
                     tenants = filter (\<lambda>t. case tn_group t of None \<Rightarrow> False | Some g \<Rightarrow> g \<in> set group_ids)
                                 (tenants_with_ids db ids)
                 in (Some tenants,
                     w2\<lparr>w_memo := (w_memo w2)\<lparr>um_group_scope_tenants :=
                          (um_group_scope_tenants (w_memo w2))(grp \<mapsto> (tenants, valid_until))\<rparr>\<rparr>)))))"

fun first_by_name :: "(string \<Rightarrow> string \<Rightarrow> bool) \<Rightarrow> tenant list \<Rightarrow> tenant option" where
  "first_by_name le [] = None"
| "first_by_name le (t # ts) =
     (case first_by_name le ts of
        None \<Rightarrow> Some t
      | Some s \<Rightarrow> if le (tn_name t) (tn_name s) then Some t else Some s)"

text \<open>\<open>_ambient_tenant\<close>; the last two cases bind what they found in the context.\<close>

definition ambient_tenant :: "tenancy \<Rightarrow> instant \<Rightarrow> user \<Rightarrow> world \<Rightarrow> tenant option \<times> world" where
  "ambient_tenant db now u w =
     (let c = w_ctx w; bound = cx_membership c in
      if bound \<noteq> None \<and> mb_user (the bound) = us_id u then (Some (mb_tenant (the bound)), w)
      else case cx_tenant c of
        Some t \<Rightarrow> (Some t, w)
      | None \<Rightarrow>
          (case List.find (\<lambda>m. mb_user m = us_id u \<and> mb_active m) (td_memberships db) of
             Some first \<Rightarrow>
               (Some (mb_tenant first),
                w\<lparr>w_ctx := set_current_membership (Some first) (set_current_tenant (Some (mb_tenant first)) c)\<rparr>)
           | None \<Rightarrow>
               (let (ids, w1) = managed_accessible_tenant_ids db now (Some u) w in
                case first_by_name (td_name_le db) (filter (\<lambda>t. tn_id t \<in> set ids) (td_tenants db)) of
                  None \<Rightarrow> (None, w1)
                | Some t \<Rightarrow> (Some t, w1\<lparr>w_ctx := set_current_tenant (Some t) (w_ctx w1)\<rparr>))))"

section \<open>Checks\<close>

fun union_perms :: "tenancy \<Rightarrow> instant \<Rightarrow> user \<Rightarrow> tenant list \<Rightarrow> world \<Rightarrow> permission list \<times> world" where
  "union_perms db now u [] w = ([], w)"
| "union_perms db now u (t # ts) w =
     (let (ps, w1) = effective_perms_for_tenant db now u t w; (qs, w2) = union_perms db now u ts w1
      in (ps @ qs, w2))"

definition all_accessible_permissions ::
    "tenancy \<Rightarrow> instant \<Rightarrow> user \<Rightarrow> world \<Rightarrow> permission list \<times> world" where
  "all_accessible_permissions db now u w =
     (let w1 = synchronize (us_id u) w in
      case um_all_accessible_perms (w_memo w1) of
        Some cached \<Rightarrow> (cached, w1)
      | None \<Rightarrow>
          (case group_scope_tenants db now u w1 of
             (None, w2) \<Rightarrow> ([], w2)
           | (Some tenants, w2) \<Rightarrow>
               (let (mp, w3) = build_accessible_tenant_permissions_map db now (us_id u) None w2;
                    (perms, w4) = union_perms db now u tenants w3
                in (perms, w4\<lparr>w_memo := (w_memo w4)\<lparr>um_all_accessible_perms := Some perms\<rparr>\<rparr>))))"

definition aggregate_scope_allows_ambient_permission :: "string \<Rightarrow> bool" where
  "aggregate_scope_allows_ambient_permission perm =
     (let codename = after_last_dot perm in starts_with codename ''view_'' \<or> starts_with codename ''add_'')"

definition aggregate_scope_allows_module_permission :: "string \<Rightarrow> bool" where
  "aggregate_scope_allows_module_permission perm = starts_with (after_last_dot perm) ''view_''"

text \<open>\<open>any(perm in ... for tenant in group_tenants)\<close>: tenants are visited until one holds it.\<close>

fun any_tenant_holds :: "tenancy \<Rightarrow> instant \<Rightarrow> user \<Rightarrow> string \<Rightarrow> tenant list \<Rightarrow> world \<Rightarrow> bool \<times> world" where
  "any_tenant_holds db now u perm [] w = (False, w)"
| "any_tenant_holds db now u perm (t # ts) w =
     (let (ps, w1) = effective_perms_for_tenant db now u t w
      in if Perm perm \<in> set ps then (True, w1) else any_tenant_holds db now u perm ts w1)"

definition has_perm ::
    "tenancy \<Rightarrow> instant \<Rightarrow> user \<Rightarrow> string \<Rightarrow> subject option \<Rightarrow> world \<Rightarrow> bool \<times> world" where
  "has_perm db now u perm obj w =
     (if \<not> us_active u then (False, w)
      else if us_superuser u then (True, w)
      else if scope_conflict (w_ctx w) (Some u) then (False, w)
      else
        (let in_tenant = (\<lambda>t w. let (ps, w') = effective_perms_for_tenant db now u t w in (Perm perm \<in> set ps, w')) in
         case Option.bind obj object_tenant of
           Some t \<Rightarrow> in_tenant t w
         | None \<Rightarrow>
             if cx_all_accessible (w_ctx w) \<and> \<not> aggregate_scope_allows_ambient_permission perm then (False, w)
             else
               (case group_scope_tenants db now u w of
                  (Some tenants, w1) \<Rightarrow>
                    if cx_all_accessible (w_ctx w1)
                    then (let (ps, w2) = all_accessible_permissions db now u w1 in (Perm perm \<in> set ps, w2))
                    else any_tenant_holds db now u perm tenants w1
                | (None, w1) \<Rightarrow>
                    (case ambient_tenant db now u w1 of
                       (None, w2) \<Rightarrow> (False, w2)
                     | (Some t, w2) \<Rightarrow> in_tenant t w2))))"

text \<open>Testing the entries of a permission set with \<open>str\<close> methods raises on an entry that is no string.\<close>

datatype attribute_error = NotAString

fun any_perm :: "(string \<Rightarrow> bool) \<Rightarrow> permission list \<Rightarrow> attribute_error + bool" where
  "any_perm P [] = Inr False"
| "any_perm P (MalformedPerm # ps) = Inl NotAString"
| "any_perm P (Perm p # ps) = (if P p then Inr True else any_perm P ps)"

fun any_tenant_perm ::
    "tenancy \<Rightarrow> instant \<Rightarrow> user \<Rightarrow> (string \<Rightarrow> bool) \<Rightarrow> tenant list \<Rightarrow> world \<Rightarrow> (attribute_error + bool) \<times> world" where
  "any_tenant_perm db now u P [] w = (Inr False, w)"
| "any_tenant_perm db now u P (t # ts) w =
     (let (ps, w1) = effective_perms_for_tenant db now u t w in
      case any_perm P ps of
        Inl e \<Rightarrow> (Inl e, w1)
      | Inr True \<Rightarrow> (Inr True, w1)
      | Inr False \<Rightarrow> any_tenant_perm db now u P ts w1)"

definition has_module_perms ::
    "tenancy \<Rightarrow> instant \<Rightarrow> user \<Rightarrow> string \<Rightarrow> world \<Rightarrow> (attribute_error + bool) \<times> world" where
  "has_module_perms db now u app_label w =
     (if \<not> us_active u then (Inr False, w)
      else if us_superuser u then (Inr True, w)
      else if scope_conflict (w_ctx w) (Some u) then (Inr False, w)
      else
        (let prefix = app_label @ ''.'' in
         case group_scope_tenants db now u w of
           (Some tenants, w1) \<Rightarrow>
             if cx_all_accessible (w_ctx w1)
             then (let (ps, w2) = all_accessible_permissions db now u w1
                   in (any_perm (\<lambda>p. starts_with p prefix \<and> aggregate_scope_allows_module_permission p) ps, w2))
             else any_tenant_perm db now u
                    (\<lambda>p. starts_with p prefix \<and>
                         (\<not> cx_all_accessible (w_ctx w1) \<or> aggregate_scope_allows_ambient_permission p)) tenants w1
         | (None, w1) \<Rightarrow>
             (case ambient_tenant db now u w1 of
                (None, w2) \<Rightarrow> (Inr False, w2)
              | (Some t, w2) \<Rightarrow>
                  (let (ps, w3) = effective_perms_for_tenant db now u t w2
                   in (any_perm (\<lambda>p. starts_with p prefix) ps, w3)))))"

section \<open>Lemmas\<close>

lemma memo_set_scope_tenants:
  "memo_coherent db now uid m \<Longrightarrow> tenants_ok db now uid (\<lambda>_. True) r \<Longrightarrow>
     memo_coherent db now uid (m\<lparr>um_all_accessible_scope_tenants := Some r\<rparr>)"
  "memo_coherent db now uid m \<Longrightarrow> tenants_ok db now uid (in_group db grp) r \<Longrightarrow>
     memo_coherent db now uid (m\<lparr>um_group_scope_tenants := (um_group_scope_tenants m)(grp \<mapsto> r)\<rparr>)"
  by (simp_all add: memo_coherent_def del: split_paired_All)

lemma world_set_memo:
  "world_ok db now uid w \<Longrightarrow> memo_coherent db now uid m \<Longrightarrow> world_ok db now uid (w\<lparr>w_memo := m\<rparr>)"
  by (simp add: world_ok_def)

abbreviation current :: "tenancy \<Rightarrow> instant \<Rightarrow> user \<Rightarrow> world \<Rightarrow> bool" where
  "current db now u w \<equiv> world_current db now (us_id u) w"

lemma current_synchronize: "current db now u w \<Longrightarrow> current db now u (synchronize (us_id u) w)"
  using synchronize_ok by blast

lemma memo_set_perms_tenant:
  assumes "memo_coherent db now uid m" "keyed tn_id (td_tenants db)" "t \<in> set (td_tenants db)" "entry_ok db now uid t e"
  shows "memo_coherent db now uid (m\<lparr>um_perms_tenant := (um_perms_tenant m)(tn_id t \<mapsto> e)\<rparr>)"
proof -
  have "t' = t" if "t' \<in> set (td_tenants db)" "tn_id t' = tn_id t" for t'
    using keyed_inj[OF assms(2) that(1) assms(3)] that(2) by simp
  then show ?thesis using assms(1,4) by (auto simp: memo_coherent_def simp del: split_paired_All)
qed

lemma memo_current_other [simp]:
  "memo_current db now uid (m\<lparr>um_perms_tenant := f\<rparr>) = memo_current db now uid m"
  "memo_current db now uid (m\<lparr>um_all_accessible_scope_tenants := r\<rparr>) = memo_current db now uid m"
  "memo_current db now uid (m\<lparr>um_group_scope_tenants := h\<rparr>) = memo_current db now uid m"
  by (simp_all add: memo_current_def)

lemma effective_perms_for_tenant_ok:
  assumes w: "current db now u w" and t: "t \<in> set (td_tenants db)"
    and run: "effective_perms_for_tenant db now u t w = (ps, w')"
  shows "current db now u w'" "w_ctx w' = w_ctx w" "set ps = held db now (us_id u) t"
proof -
  let ?w = "synchronize (us_id u) w"
  let ?cached = "um_perms_tenant (w_memo ?w) (tn_id t)"
  note sync = current_synchronize[OF w]
  obtain e w2 where eff: "effective_permissions_with_expiry db now (us_id u) t ?w = (e, w2)"
    by (cases "effective_permissions_with_expiry db now (us_id u) t ?w")
  have "current db now u w' \<and> w_ctx w' = w_ctx w \<and> set ps = held db now (us_id u) t"
  proof (cases "?cached \<noteq> None \<and> alive (snd (the ?cached)) now")
    case True
    then obtain e' where e': "?cached = Some e'" "alive (snd e') now" by auto
    then have "ps = fst e'" "w' = ?w" using run by (simp_all add: effective_perms_for_tenant_def Let_def)
    moreover have "entry_ok db now (us_id u) t e'"
      using coherentD(3)[OF world_okD(3)] sync e'(1) t by blast
    ultimately show ?thesis using sync e' by (simp add: entry_ok_def)
  next
    case False
    then have r: "ps = fst e"
      "w' = w2\<lparr>w_memo := (w_memo w2)\<lparr>um_perms_tenant := (um_perms_tenant (w_memo w2))(tn_id t \<mapsto> e)\<rparr>\<rparr>"
      using run eff by (auto simp: effective_perms_for_tenant_def Let_def)
    note ok = effective_permissions_ok[OF conjunct1[OF sync] t eff]
    have "memo_current db now (us_id u) (w_memo w2) \<and> set ps = held db now (us_id u) t"
      using ok(4) sync r(1) by blast
    moreover have "world_ok db now (us_id u) w'"
      using ok(1,3) t memo_set_perms_tenant unfolding r(2) world_ok_def by simp
    ultimately show ?thesis using ok(2) r(2) by simp
  qed
  then show "current db now u w'" "w_ctx w' = w_ctx w" "set ps = held db now (us_id u) t" by blast+
qed

lemma any_tenant_holds_ok:
  assumes "current db now u w" "set ts \<subseteq> set (td_tenants db)"
  shows "fst (any_tenant_holds db now u perm ts w) \<longleftrightarrow> (\<exists>t \<in> set ts. Perm perm \<in> held db now (us_id u) t)"
  using assms
proof (induction ts arbitrary: w)
  case (Cons t ts)
  obtain ps w1 where e: "effective_perms_for_tenant db now u t w = (ps, w1)"
    by (cases "effective_perms_for_tenant db now u t w")
  note ok = effective_perms_for_tenant_ok[OF Cons.prems(1) _ e]
  have t: "t \<in> set (td_tenants db)" using Cons.prems(2) by simp
  show ?case using ok(3)[OF t] Cons.IH[OF ok(1)[OF t]] Cons.prems(2) by (simp add: e)
qed simp

lemma union_perms_ok:
  assumes "current db now u w" "set ts \<subseteq> set (td_tenants db)" "union_perms db now u ts w = (ps, w')"
  shows "current db now u w' \<and> w_ctx w' = w_ctx w \<and> set ps = (\<Union>t \<in> set ts. held db now (us_id u) t)"
  using assms
proof (induction ts arbitrary: w ps w')
  case (Cons t ts)
  obtain qs w1 where e: "effective_perms_for_tenant db now u t w = (qs, w1)"
    by (cases "effective_perms_for_tenant db now u t w")
  obtain rs w2 where r: "union_perms db now u ts w1 = (rs, w2)" by (cases "union_perms db now u ts w1")
  have t: "t \<in> set (td_tenants db)" using Cons.prems(2) by simp
  note ok = effective_perms_for_tenant_ok[OF Cons.prems(1) t e]
  have "current db now u w2 \<and> w_ctx w2 = w_ctx w1 \<and> set rs = (\<Union>t \<in> set ts. held db now (us_id u) t)"
    using Cons.IH[OF ok(1) _ r] Cons.prems(2) by simp
  then show ?case using ok Cons.prems(3) by (auto simp: e r)
qed simp

text \<open>What the ambient gate aggregates over, by the context.\<close>

definition scope_set :: "tenancy \<Rightarrow> instant \<Rightarrow> user \<Rightarrow> ctx \<Rightarrow> tenant set option" where
  "scope_set db now u c =
     (if cx_tenant c \<noteq> None then None
      else if cx_all_accessible c then Some (reach_tenants db now (us_id u))
      else map_option (\<lambda>grp. {t \<in> reach_tenants db now (us_id u). in_group db grp t}) (cx_group c))"

lemma tenants_with_ids_ok: "set ids = reachable db now uid \<Longrightarrow> set (tenants_with_ids db ids) = reach_tenants db now uid"
  by (auto simp: tenants_with_ids_def reach_tenants_def)

lemma tenants_ok_filter:
  assumes "ids_ok db now uid (ids, v)" "\<And>t. t \<in> set (td_tenants db) \<Longrightarrow> Q t \<longleftrightarrow> P t"
  shows "tenants_ok db now uid P (filter Q (tenants_with_ids db ids), v)"
  using assms by (auto simp: tenants_ok_def ids_ok_def tenants_with_ids_def reach_tenants_def)

lemma group_scope_tenants_ok:
  assumes w: "current db now u w" and u: "us_authenticated u"
    and run: "group_scope_tenants db now u w = (r, w')"
  shows "current db now u w' \<and> w_ctx w' = w_ctx w \<and> map_option set r = scope_set db now u (w_ctx w)"
proof -
  let ?w = "synchronize (us_id u) w" and ?uid = "us_id u"
  note sync = current_synchronize[OF w]
  obtain ids v w2 where acc: "accessible_tenant_ids_with_expiry db now (Some u) ?w = ((ids, v), w2)"
    by (metis prod.collapse)
  note ok = accessible_with_expiry_ok[OF sync u acc]
  have ids: "ids_ok db now ?uid (ids, v)" using ok by blast
  have now_ok: "set (fst r') = {t \<in> reach_tenants db now ?uid. P t}"
    if "tenants_ok db now ?uid P r'" "alive (snd r') now" for P r'
    using that by (simp add: tenants_ok_def)
  consider (tenant) "cx_tenant (w_ctx w) \<noteq> None"
    | (all) "cx_tenant (w_ctx w) = None" "cx_all_accessible (w_ctx w)"
    | (none) "cx_tenant (w_ctx w) = None" "\<not> cx_all_accessible (w_ctx w)" "cx_group (w_ctx w) = None"
    | (grp) grp where "cx_tenant (w_ctx w) = None" "\<not> cx_all_accessible (w_ctx w)" "cx_group (w_ctx w) = Some grp"
    by blast
  then show ?thesis
  proof cases
    case tenant
    then show ?thesis using run sync by (auto simp: group_scope_tenants_def scope_set_def Let_def)
  next
    case none
    then show ?thesis using run sync by (auto simp: group_scope_tenants_def scope_set_def Let_def)
  next
    case all
    let ?c = "um_all_accessible_scope_tenants (w_memo ?w)"
    show ?thesis
    proof (cases "?c \<noteq> None \<and> alive (snd (the ?c)) now")
      case True
      then obtain r' where r': "?c = Some r'" "alive (snd r') now" by auto
      then have "r = Some (fst r')" "w' = ?w" using run all by (simp_all add: group_scope_tenants_def Let_def)
      then show ?thesis
        using now_ok[OF coherentD(5)[OF world_okD(3)] r'(2)] sync r'(1) all by (auto simp: scope_set_def)
    next
      case False
      then have r: "r = Some (tenants_with_ids db ids)"
        "w' = w2\<lparr>w_memo := (w_memo w2)\<lparr>um_all_accessible_scope_tenants := Some (tenants_with_ids db ids, v)\<rparr>\<rparr>"
        using run all acc by (auto simp: group_scope_tenants_def Let_def)
      have "tenants_ok db now ?uid (\<lambda>_. True) (tenants_with_ids db ids, v)"
        using tenants_ok_filter[OF ids, of "\<lambda>_. True" "\<lambda>_. True"] by simp
      then have "current db now u w'"
        unfolding r(2) using ok world_set_memo memo_set_scope_tenants(1)[OF world_okD(3)] by simp
      then show ?thesis using ok r all tenants_with_ids_ok[of ids] by (simp add: scope_set_def)
    qed
  next
    case grp
    let ?c = "um_group_scope_tenants (w_memo ?w) grp"
    show ?thesis
    proof (cases "?c \<noteq> None \<and> alive (snd (the ?c)) now")
      case True
      then obtain r' where r': "?c = Some r'" "alive (snd r') now" by auto
      then have "r = Some (fst r')" "w' = ?w" using run grp by (simp_all add: group_scope_tenants_def Let_def)
      then show ?thesis
        using now_ok[OF coherentD(6)[OF world_okD(3)] r'(2)] sync r'(1) grp by (auto simp: scope_set_def)
    next
      case False
      let ?ts = "filter (\<lambda>t. case tn_group t of None \<Rightarrow> False | Some g \<Rightarrow> g \<in> set (desc_in db w2 (Some grp)))
        (tenants_with_ids db ids)"
      have r: "r = Some ?ts"
        "w' = w2\<lparr>w_memo := (w_memo w2)\<lparr>um_group_scope_tenants := (um_group_scope_tenants (w_memo w2))(grp \<mapsto> (?ts, v))\<rparr>\<rparr>"
        using False run grp acc by (auto simp: group_scope_tenants_def Let_def)
      have "desc_in db w2 = walk_desc (td_groups db)" using ok desc_in_ok by blast
      then have tok: "tenants_ok db now ?uid (in_group db grp) (?ts, v)"
        by (intro tenants_ok_filter[OF ids]) (auto simp: in_group_def split: option.split)
      then have "current db now u w'"
        unfolding r(2) using ok world_set_memo memo_set_scope_tenants(2)[OF world_okD(3)] by simp
      moreover have "set ?ts = {t \<in> reach_tenants db now ?uid. in_group db grp t}"
        using tenants_with_ids_ok[of ids db now ?uid] ok \<open>desc_in db w2 = _\<close>
        by (auto simp: in_group_def split: option.splits)
      ultimately show ?thesis using ok r grp by (simp add: scope_set_def)
    qed
  qed
qed

lemma all_accessible_permissions_ok:
  assumes w: "current db now u w" and u: "us_authenticated u"
    and c: "cx_tenant (w_ctx w) = None" "cx_all_accessible (w_ctx w)"
    and run: "all_accessible_permissions db now u w = (ps, w')"
  shows "set ps = (\<Union>t \<in> reach_tenants db now (us_id u). held db now (us_id u) t)"
proof -
  let ?w = "synchronize (us_id u) w"
  note sync = current_synchronize[OF w]
  show ?thesis
  proof (cases "um_all_accessible_perms (w_memo ?w)")
    case (Some cached)
    then have "ps = cached" using run by (simp add: all_accessible_permissions_def Let_def)
    then show ?thesis using currentD(3)[OF conjunct2[OF sync] Some] by simp
  next
    case None
    obtain r w2 where g: "group_scope_tenants db now u ?w = (r, w2)" by (cases "group_scope_tenants db now u ?w")
    note gok = group_scope_tenants_ok[OF sync u g]
    then obtain ts where ts: "r = Some ts" "set ts = reach_tenants db now (us_id u)"
      using c by (auto simp: scope_set_def)
    obtain mp w3 where b: "build_accessible_tenant_permissions_map db now (us_id u) None w2 = (mp, w3)"
      by (cases "build_accessible_tenant_permissions_map db now (us_id u) None w2")
    have w3: "current db now u w3" using build_map_ok[OF _ b] gok by blast
    obtain qs w4 where un: "union_perms db now u ts w3 = (qs, w4)" by (cases "union_perms db now u ts w3")
    have "ps = qs" using run None g ts b un by (simp add: all_accessible_permissions_def Let_def)
    moreover have "set ts \<subseteq> set (td_tenants db)" using ts(2) by (auto simp: reach_tenants_def)
    ultimately show ?thesis using union_perms_ok[OF w3 _ un] ts(2) by simp
  qed
qed

text \<open>The tenants that the context and the membership table name are rows of the tenant table.\<close>

definition names_table_tenants :: "tenancy \<Rightarrow> ctx \<Rightarrow> bool" where
  "names_table_tenants db c \<longleftrightarrow>
     (\<forall>m \<in> set (td_memberships db). mb_tenant m \<in> set (td_tenants db)) \<and>
     (\<forall>m. cx_membership c = Some m \<longrightarrow> mb_tenant m \<in> set (td_tenants db)) \<and>
     (\<forall>t. cx_tenant c = Some t \<longrightarrow> t \<in> set (td_tenants db))"

lemma first_by_name_mem: "first_by_name le ts = Some t \<Longrightarrow> t \<in> set ts"
  by (induction ts arbitrary: t) (auto split: option.splits if_splits)

lemma world_ok_set_ctx:
  "world_ok db now uid w \<Longrightarrow> cx_tree_cache c = cx_tree_cache (w_ctx w) \<Longrightarrow> world_ok db now uid (w\<lparr>w_ctx := c\<rparr>)"
  by (simp add: world_ok_def)

lemma ambient_tenant_ok:
  assumes w: "current db now u w" and names: "names_table_tenants db (w_ctx w)"
    and run: "ambient_tenant db now u w = (r, w')"
  shows "current db now u w' \<and> (\<forall>t. r = Some t \<longrightarrow> t \<in> set (td_tenants db))"
proof -
  let ?c = "w_ctx w"
  consider (bound) m where "cx_membership ?c = Some m" "mb_user m = us_id u"
    | (tenant) t where "\<not> (cx_membership ?c \<noteq> None \<and> mb_user (the (cx_membership ?c)) = us_id u)" "cx_tenant ?c = Some t"
    | (unbound) "\<not> (cx_membership ?c \<noteq> None \<and> mb_user (the (cx_membership ?c)) = us_id u)" "cx_tenant ?c = None"
    by fastforce
  then show ?thesis
  proof cases
    case bound
    then show ?thesis using run w names by (auto simp: ambient_tenant_def names_table_tenants_def Let_def)
  next
    case tenant
    then show ?thesis using run w names by (auto simp: ambient_tenant_def names_table_tenants_def Let_def)
  next
    case unbound
    show ?thesis
    proof (cases "List.find (\<lambda>m. mb_user m = us_id u \<and> mb_active m) (td_memberships db)")
      case (Some m)
      then have m: "m \<in> set (td_memberships db)" by (auto simp: find_Some_iff)
      have "r = Some (mb_tenant m)"
        "w' = w\<lparr>w_ctx := set_current_membership (Some m) (set_current_tenant (Some (mb_tenant m)) ?c)\<rparr>"
        using run Some unbound by (auto simp: ambient_tenant_def Let_def)
      then show ?thesis using w names m world_ok_set_ctx by (simp add: ctx_setters names_table_tenants_def)
    next
      case None
      obtain ids w1 where man: "managed_accessible_tenant_ids db now (Some u) w = (ids, w1)"
        by (cases "managed_accessible_tenant_ids db now (Some u) w")
      have w1: "current db now u w1"
      proof (cases "us_authenticated u")
        case True
        then obtain gs where a: "applicable_grants db now (us_id u) w = (gs, w1)"
          using man by (auto simp: managed_accessible_tenant_ids_def split: prod.splits)
        show ?thesis using applicable_grants_ok(1,4)[OF conjunct1[OF w] a] w by blast
      next
        case False
        then show ?thesis using man w by (simp add: managed_accessible_tenant_ids_def)
      qed
      let ?f = "first_by_name (td_name_le db) (filter (\<lambda>t. tn_id t \<in> set ids) (td_tenants db))"
      show ?thesis
      proof (cases ?f)
        case (Some t)
        then have "t \<in> set (td_tenants db)" by (auto dest!: first_by_name_mem)
        moreover have "r = Some t" "w' = w1\<lparr>w_ctx := set_current_tenant (Some t) (w_ctx w1)\<rparr>"
          using run None Some unbound man by (auto simp: ambient_tenant_def Let_def)
        ultimately show ?thesis using w1 world_ok_set_ctx by (simp add: ctx_setters)
      next
        case None': None
        then have "r = None" "w' = w1" using run None unbound man by (auto simp: ambient_tenant_def Let_def)
        then show ?thesis using w1 by simp
      qed
    qed
  qed
qed

section \<open>Properties\<close>

text \<open>An object check answers what the grants confer.\<close>

lemma has_perm_object_ok:
  assumes w: "current db now u w" and u: "us_active u" "\<not> us_superuser u" "\<not> scope_conflict (w_ctx w) (Some u)"
    and t: "object_tenant obj = Some t" "t \<in> set (td_tenants db)"
  shows "fst (has_perm db now u perm (Some obj) w) \<longleftrightarrow> Perm perm \<in> held db now (us_id u) t"
proof -
  obtain ps w1 where e: "effective_perms_for_tenant db now u t w = (ps, w1)" by (cases "effective_perms_for_tenant db now u t w")
  show ?thesis using effective_perms_for_tenant_ok(3)[OF w t(2) e] u t(1) by (simp add: has_perm_def e Let_def)
qed

text \<open>C2. An object check is exact.  For an active user who is no superuser, an object of a stored tenant, a context without
  contradictory scopes, and memos in which nothing has expired (\<open>memo_current\<close>: those of a fresh \<open>User\<close> instance are;
  an instance that outlives a grant can still answer from it), \<open>has_perm\<close> answers whether some unexpired grant of a live
  role, held by the user directly or through a group, covers that tenant and lists the permission.\<close>

theorem object_check_exact:
  assumes "world_ok db now (us_id u) w" "memo_current db now (us_id u) (w_memo w)"
    and "us_active u" "\<not> us_superuser u" "\<not> scope_conflict (w_ctx w) (Some u)"
    and "object_tenant obj = Some t" "t \<in> set (td_tenants db)"
  shows "fst (has_perm db now u perm (Some obj) w) \<longleftrightarrow>
    (\<exists>g \<in> set (td_grants db). principal_matches (us_id u) g \<and> Perm perm \<in> set (ro_permissions (rg_role g)) \<and>
       covers_tenant (walk_desc (td_groups db)) now g t)"
  using has_perm_object_ok[OF _ assms(3-7)] assms(1,2) by (simp add: held_iff)

theorem object_check_exact_witness:
  "fst (has_perm sample_tenancy 50 sample_user ''assets.view_asset''
         (Some \<lparr>ob_tenant = Some sample_customer, ob_self = None\<rparr>) sample_world) \<and>
   \<not> fst (has_perm sample_tenancy 50 sample_user ''assets.delete_asset''
         (Some \<lparr>ob_tenant = Some sample_customer, ob_self = None\<rparr>) sample_world)"
proof -
  have h: "memo_current sample_tenancy 50 (us_id sample_user) (w_memo sample_world)"
    "us_active sample_user" "\<not> us_superuser sample_user" "us_id sample_user = 9"
    "\<not> scope_conflict (w_ctx sample_world) (Some sample_user)"
    "object_tenant \<lparr>ob_tenant = Some sample_customer, ob_self = None\<rparr> = Some sample_customer"
    "sample_customer \<in> set (td_tenants sample_tenancy)"
    by (simp_all add: sample_world_def sample_user_def scope_conflict_def sample_ctx_def object_tenant_def sample_tenancy_def)
  have "covers_tenant (walk_desc (td_groups sample_tenancy)) 50 sample_grant sample_customer"
    by (simp add: walk_desc_def sample_tenancy_def sample_walk covers_tenant_def grant_is_active_def sample_grants
        principal_tenant_id_def scope_covers_def sample_tenants Let_def)
  then show ?thesis
    using object_check_exact[OF sample_world_ok h(1-3,5-7)] h(4)
    by (auto simp: sample_tenancy_def principal_matches_def sample_member_def sample_grant_def sample_role_def)
qed

text \<open>The aggregate gates are exact and read-oriented: without an active tenant, under the
  all-accessible scope an ambient check passes exactly for a view or add permission held in some
  accessible tenant, and under a group scope exactly for a permission held in some accessible tenant
  of the group's live subtree.\<close>

theorem aggregate_check_exact:
  assumes "world_ok db now (us_id u) w" "memo_current db now (us_id u) (w_memo w)"
    and "us_active u" "us_authenticated u" "\<not> us_superuser u"
    and "cx_tenant (w_ctx w) = None" "cx_all_accessible (w_ctx w) \<noteq> (cx_group (w_ctx w) \<noteq> None)"
  shows "fst (has_perm db now u perm None w) \<longleftrightarrow>
    (cx_all_accessible (w_ctx w) \<longrightarrow>
       starts_with (after_last_dot perm) ''view_'' \<or> starts_with (after_last_dot perm) ''add_'') \<and>
    (\<exists>t \<in> reach_tenants db now (us_id u). Perm perm \<in> held db now (us_id u) t \<and>
       (\<forall>grp. cx_group (w_ctx w) = Some grp \<longrightarrow> in_group db grp t))"
proof -
  have nc: "\<not> scope_conflict (w_ctx w) (Some u)"
    using assms(6,7) by (cases "cx_all_accessible (w_ctx w)") (auto simp: scope_conflict_def)
  obtain r w1 where g: "group_scope_tenants db now u w = (r, w1)" by (cases "group_scope_tenants db now u w")
  have ok: "current db now u w1" "w_ctx w1 = w_ctx w" "map_option set r = scope_set db now u (w_ctx w)"
    using group_scope_tenants_ok[OF _ assms(4) g] assms(1,2) by blast+
  have gate: "aggregate_scope_allows_ambient_permission perm \<longleftrightarrow>
      starts_with (after_last_dot perm) ''view_'' \<or> starts_with (after_last_dot perm) ''add_''"
    by (simp add: aggregate_scope_allows_ambient_permission_def Let_def)
  show ?thesis
  proof (cases "cx_all_accessible (w_ctx w)")
    case True
    then obtain ts where ts: "r = Some ts" using ok(3) assms(6) by (auto simp: scope_set_def)
    obtain ps w2 where a: "all_accessible_permissions db now u w1 = (ps, w2)" by (cases "all_accessible_permissions db now u w1")
    have "set ps = (\<Union>t \<in> reach_tenants db now (us_id u). held db now (us_id u) t)"
      using all_accessible_permissions_ok[OF ok(1) assms(4) _ _ a] ok(2) assms(6) True by simp
    then show ?thesis using True assms(3,5,7) nc g ts a ok(2) gate by (auto simp: has_perm_def Let_def)
  next
    case False
    then obtain grp where grp: "cx_group (w_ctx w) = Some grp" using assms(7) by auto
    then obtain ts where ts: "r = Some ts" "set ts = {t \<in> reach_tenants db now (us_id u). in_group db grp t}"
      using ok(3) assms(6) False by (auto simp: scope_set_def)
    then have "set ts \<subseteq> set (td_tenants db)" by (auto simp: reach_tenants_def)
    from any_tenant_holds_ok[OF ok(1) this, of perm]
    show ?thesis using False assms(3,5) nc g ts grp ok(2) by (auto simp: has_perm_def Let_def)
  qed
qed

definition group_world :: world where
  "group_world = sample_world\<lparr>w_ctx := sample_ctx\<lparr>cx_tenant := None, cx_group := Some 2\<rparr>\<rparr>"

theorem aggregate_check_exact_witness:
  "fst (has_perm sample_tenancy 50 sample_user ''assets.view_asset'' None group_world) \<longleftrightarrow>
     (\<exists>t \<in> reach_tenants sample_tenancy 50 9. Perm ''assets.view_asset'' \<in> held sample_tenancy 50 9 t \<and>
        in_group sample_tenancy 2 t)"
proof -
  have h: "world_ok sample_tenancy 50 (us_id sample_user) group_world"
    "memo_current sample_tenancy 50 (us_id sample_user) (w_memo group_world)"
    "us_active sample_user" "us_authenticated sample_user" "\<not> us_superuser sample_user"
    "cx_tenant (w_ctx group_world) = None"
    "cx_all_accessible (w_ctx group_world) \<noteq> (cx_group (w_ctx group_world) \<noteq> None)"
    using sample_world_ok[of 50 "us_id sample_user"]
    by (simp_all add: group_world_def world_ok_def sample_world_def sample_user_def sample_ctx_def)
  show ?thesis using aggregate_check_exact[OF h]
    by (simp add: group_world_def sample_ctx_def sample_user_def)
qed

text \<open>C6. No grant, no permission.  For an authenticated user whose memos hold nothing expired (\<open>memo_current\<close>), and whatever the
  permission, the object (if it has a tenant, a stored one) and the bound scope (of stored tenants), \<open>has_perm\<close> answers true only
  for an active user who is a superuser, or (outside contradictory scopes) for whom an unexpired grant of the database lists the
  permission and covers the tenant of the object, or some stored tenant when the check has no object with a tenant.\<close>

theorem permission_needs_grant:
  assumes "world_ok db now (us_id u) w" "memo_current db now (us_id u) (w_memo w)" "us_authenticated u"
    and "names_table_tenants db (w_ctx w)"
    and "\<And>t. Option.bind obj object_tenant = Some t \<Longrightarrow> t \<in> set (td_tenants db)"
    and true: "fst (has_perm db now u perm obj w)"
  shows "us_active u \<and> (us_superuser u \<or>
    (\<not> scope_conflict (w_ctx w) (Some u) \<and>
     (\<exists>g \<in> set (td_grants db). principal_matches (us_id u) g \<and> Perm perm \<in> set (ro_permissions (rg_role g)) \<and>
        (\<exists>t \<in> set (td_tenants db). (\<forall>x. Option.bind obj object_tenant = Some x \<longrightarrow> t = x) \<and>
          covers_tenant (walk_desc (td_groups db)) now g t))))"
proof -
  have act: "us_active u" using true by (simp add: has_perm_def split: if_splits)
  have "\<exists>t \<in> set (td_tenants db). (\<forall>x. Option.bind obj object_tenant = Some x \<longrightarrow> t = x) \<and> Perm perm \<in> held db now (us_id u) t"
    if ns: "\<not> us_superuser u" and nc: "\<not> scope_conflict (w_ctx w) (Some u)"
  proof (cases "Option.bind obj object_tenant")
    case (Some t)
    obtain ps w1 where e: "effective_perms_for_tenant db now u t w = (ps, w1)" by (cases "effective_perms_for_tenant db now u t w")
    then show ?thesis
      using effective_perms_for_tenant_ok(3)[OF _ assms(5)[OF Some] e] assms(1,2,5) true act ns nc Some
      by (auto simp: has_perm_def Let_def)
  next
    case None
    obtain r w1 where g: "group_scope_tenants db now u w = (r, w1)" by (cases "group_scope_tenants db now u w")
    have ok: "current db now u w1" "w_ctx w1 = w_ctx w" "map_option set r = scope_set db now u (w_ctx w)"
      using group_scope_tenants_ok[OF _ assms(3) g] assms(1,2) by blast+
    have sub: "reach_tenants db now (us_id u) \<subseteq> set (td_tenants db)" by (auto simp: reach_tenants_def)
    have "\<exists>t \<in> set (td_tenants db). Perm perm \<in> held db now (us_id u) t"
    proof (cases r)
      case (Some ts)
      have tn: "cx_tenant (w_ctx w) = None" using ok(3) Some by (auto simp: scope_set_def split: if_splits)
      have ts: "set ts \<subseteq> set (td_tenants db)"
        using ok(3) Some sub by (cases "cx_group (w_ctx w)") (auto simp: scope_set_def split: if_splits)
      obtain ps w2 where a: "all_accessible_permissions db now u w1 = (ps, w2)"
        by (cases "all_accessible_permissions db now u w1")
      show ?thesis
      proof (cases "cx_all_accessible (w_ctx w)")
        case True
        then have "set ps = (\<Union>t \<in> reach_tenants db now (us_id u). held db now (us_id u) t)"
          using all_accessible_permissions_ok[OF ok(1) assms(3) _ _ a] ok(2) tn by simp
        then show ?thesis using true act ns nc None g Some a True ok(2) sub
          by (auto simp: has_perm_def Let_def split: if_splits)
      next
        case False
        then show ?thesis using any_tenant_holds_ok[OF ok(1) ts, of perm] true act ns nc None g Some ok(2) ts
          by (auto simp: has_perm_def Let_def)
      qed
    next
      case r: None
      obtain r2 w2 where a: "ambient_tenant db now u w1 = (r2, w2)" by (cases "ambient_tenant db now u w1")
      note aok = ambient_tenant_ok[OF ok(1) _ a]
      have nm: "names_table_tenants db (w_ctx w1)" using assms(4) ok(2) by simp
      obtain t where t: "r2 = Some t"
        using true act ns nc None g r a by (cases r2) (auto simp: has_perm_def Let_def split: if_splits)
      have tt: "t \<in> set (td_tenants db)" and w2: "current db now u w2" using aok[OF nm] t by auto
      obtain ps w3 where e: "effective_perms_for_tenant db now u t w2 = (ps, w3)" by (cases "effective_perms_for_tenant db now u t w2")
      have "Perm perm \<in> set ps"
        using true act ns nc None g r a t e by (auto simp: has_perm_def Let_def split: if_splits)
      then show ?thesis using effective_perms_for_tenant_ok(3)[OF w2 tt e] tt by blast
    qed
    then show ?thesis using None by simp
  qed
  moreover have "\<not> scope_conflict (w_ctx w) (Some u)" if "\<not> us_superuser u"
    using true act that by (auto simp: has_perm_def split: if_splits)
  ultimately show ?thesis using act by (auto simp: held_iff)
qed

text \<open>The check of the technician on the customer, which succeeds, and what must hold for it.\<close>

lemma sample_check_granted:
  "fst (has_perm sample_tenancy 50 sample_user ''assets.view_asset''
         (Some \<lparr>ob_tenant = Some sample_customer, ob_self = None\<rparr>) sample_world)"
  by code_simp

theorem permission_needs_grant_witness:
  "fst (has_perm sample_tenancy 50 sample_user ''assets.view_asset''
         (Some \<lparr>ob_tenant = Some sample_customer, ob_self = None\<rparr>) sample_world) \<and>
   (\<exists>g \<in> set (td_grants sample_tenancy). principal_matches 9 g \<and> Perm ''assets.view_asset'' \<in> set (ro_permissions (rg_role g)) \<and>
      covers_tenant (walk_desc (td_groups sample_tenancy)) 50 g sample_customer)"
proof -
  let ?obj = "Some \<lparr>ob_tenant = Some sample_customer, ob_self = None\<rparr> :: subject option"
  have h: "memo_current sample_tenancy 50 (us_id sample_user) (w_memo sample_world)"
    "us_authenticated sample_user" "names_table_tenants sample_tenancy (w_ctx sample_world)"
    by (simp_all add: sample_world_def sample_user_def sample_ctx_def names_table_tenants_def sample_tenancy_def sample_member_def)
  have obj: "Option.bind ?obj object_tenant = Some sample_customer" by (simp add: object_tenant_def)
  then have tab: "\<And>t. Option.bind ?obj object_tenant = Some t \<Longrightarrow> t \<in> set (td_tenants sample_tenancy)"
    by (simp add: sample_tenancy_def)
  have "\<not> us_superuser sample_user" "us_id sample_user = 9" by (simp_all add: sample_user_def)
  then show ?thesis
    using permission_needs_grant[OF sample_world_ok h tab sample_check_granted] sample_check_granted obj by auto
qed

end
