(* ===== verification/Delegation.thy ===== *)
theory Delegation
  imports Backend
begin

text \<open>
  Who may grant what: \<^verbatim>\<open>organization/services/role_grant_validation.py\<close>.  The checks read the grantor's
  permissions through the same memos as \<open>has_perm\<close>; a queryset of tenants is the filtered table.
\<close>

datatype delegation_error =
  EscalatedPermissions "permission list" | ManagedReachRefused | DynamicScopeRefused "permission list"
  | AllManagedRequired | OutsideReach

section \<open>Permissions\<close>

text \<open>\<open>validate_permission_grant\<close>; no grantor stands for the internal calls that nobody is accountable for.\<close>

definition validate_permission_grant ::
    "tenancy \<Rightarrow> instant \<Rightarrow> user option \<Rightarrow> permission list \<Rightarrow> tenant option \<Rightarrow> world \<Rightarrow> (delegation_error + unit) \<times> world" where
  "validate_permission_grant db now grantor perms t w =
     (case grantor of
        None \<Rightarrow> (Inr (), w)
      | Some u \<Rightarrow>
          if us_superuser u then (Inr (), w)
          else if perms = [] then (Inr (), w)
          else
            (let (own, w1) = (case t of None \<Rightarrow> ([], w) | Some t \<Rightarrow> effective_perms_for_tenant db now u t w);
                 escalated = filter (\<lambda>p. p \<notin> set own) (remdups perms)
             in (require (escalated = []) (EscalatedPermissions escalated), w1)))"

section \<open>Managed reach\<close>

definition tenant_subject :: "tenant \<Rightarrow> subject" where
  "tenant_subject t = \<lparr>ob_tenant = None, ob_self = Some t\<rparr>"

definition has_managed_grant_permission :: "tenancy \<Rightarrow> instant \<Rightarrow> user \<Rightarrow> tenant \<Rightarrow> world \<Rightarrow> bool \<times> world" where
  "has_managed_grant_permission db now u owner w =
     (let (may, w1) = has_perm db now u ''organization.add_rolegrant'' (Some (tenant_subject owner)) w
      in if may then (True, w1)
         else has_perm db now u ''organization.change_rolegrant'' (Some (tenant_subject owner)) w1)"

definition all_managed_grant :: "tenant \<Rightarrow> role_grant \<Rightarrow> bool" where
  "all_managed_grant owner g \<longleftrightarrow> tn_id (ro_tenant (rg_role g)) = tn_id owner \<and> tn_is_provider owner \<and>
     (\<exists>s \<in> set (rg_scopes g). sc_type s = ScopeAllManaged)"

text \<open>Whether the grantor has an all-managed scope from this principal, the permissions granted with one, and
  the tenants reached.\<close>

definition managed_grant_authority ::
    "tenancy \<Rightarrow> instant \<Rightarrow> user \<Rightarrow> tenant \<Rightarrow> world \<Rightarrow> (bool \<times> permission list \<times> pk list) \<times> world" where
  "managed_grant_authority db now u owner w =
     (let (grants, w1) = applicable_grants db now (us_id u) w;
          mine = filter (\<lambda>g. principal_tenant_id g = Some (tn_id owner)) grants;
          all_managed = filter (all_managed_grant owner) mine
      in ((all_managed \<noteq> [], concat (map (\<lambda>g. ro_permissions (rg_role g)) all_managed),
           concat (map (scoped_tenant_ids (desc_in db w1) (td_tenants db)) mine)), w1))"

definition validate_dynamic_managed_scope :: "permission list \<Rightarrow> bool \<Rightarrow> permission list \<Rightarrow> delegation_error + unit" where
  "validate_dynamic_managed_scope requested has_all all_permissions =
     (let missing = filter (\<lambda>p. p \<notin> set all_permissions) (remdups requested)
      in require (has_all \<and> missing = []) (DynamicScopeRefused missing))"

fun validate_targets ::
    "tenancy \<Rightarrow> instant \<Rightarrow> user \<Rightarrow> permission list \<Rightarrow> tenant list \<Rightarrow> world \<Rightarrow> (delegation_error + unit) \<times> world" where
  "validate_targets db now u requested [] w = (Inr (), w)"
| "validate_targets db now u requested (t # ts) w =
     (case validate_permission_grant db now (Some u) requested (Some t) w of
        (Inl e, w1) \<Rightarrow> (Inl e, w1)
      | (Inr _, w1) \<Rightarrow> validate_targets db now u requested ts w1)"

definition validate_explicit_managed_scope ::
    "tenancy \<Rightarrow> instant \<Rightarrow> user \<Rightarrow> permission list \<Rightarrow> pk list \<Rightarrow> pk list option \<Rightarrow> world \<Rightarrow> (delegation_error + unit) \<times> world" where
  "validate_explicit_managed_scope db now u requested own_ids requested_ids w =
     (case requested_ids of
        None \<Rightarrow> (Inl AllManagedRequired, w)
      | Some ids \<Rightarrow>
          if \<exists>i \<in> set ids. i \<notin> set own_ids then (Inl OutsideReach, w)
          else
            (let targets = filter (\<lambda>t. tn_id t \<in> set ids \<and> tn_live t) (td_tenants db)
             in if length targets \<noteq> length (remdups ids) then (Inl OutsideReach, w)
                else validate_targets db now u requested targets w))"

definition validate_managed_role_grant ::
    "tenancy \<Rightarrow> instant \<Rightarrow> user \<Rightarrow> role \<Rightarrow> tenant \<Rightarrow> scope_type \<Rightarrow> pk list option \<Rightarrow> world \<Rightarrow> (delegation_error + unit) \<times> world" where
  "validate_managed_role_grant db now u r owner st requested_ids w =
     (let (may, w1) = has_managed_grant_permission db now u owner w in
      if \<not> may then (Inl ManagedReachRefused, w1)
      else
        (let ((has_all, all_permissions, own_ids), w2) = managed_grant_authority db now u owner w1 in
         if st \<in> {ScopeTenantGroup, ScopeAllManaged}
         then (validate_dynamic_managed_scope (ro_permissions r) has_all all_permissions, w2)
         else validate_explicit_managed_scope db now u (ro_permissions r) own_ids requested_ids w2))"

text \<open>\<open>validate_role_grant\<close>: a scope type other than own and the two dynamic ones asks for explicit tenants.\<close>

definition validate_role_grant ::
    "tenancy \<Rightarrow> instant \<Rightarrow> user option \<Rightarrow> role \<Rightarrow> tenant \<Rightarrow> scope_type \<Rightarrow> pk list option \<Rightarrow> world \<Rightarrow> (delegation_error + unit) \<times> world" where
  "validate_role_grant db now grantor r owner st requested_ids w =
     (case grantor of
        None \<Rightarrow> (Inr (), w)
      | Some u \<Rightarrow>
          if us_superuser u then (Inr (), w)
          else
            (case validate_permission_grant db now grantor (ro_permissions r) (Some owner) w of
               (Inl e, w1) \<Rightarrow> (Inl e, w1)
             | (Inr _, w1) \<Rightarrow>
                 if st = ScopeOwn then (Inr (), w1)
                 else validate_managed_role_grant db now u r owner st requested_ids w1))"

section \<open>Grants that come back to life\<close>

text \<open>The tenant of the principal, or none when the principal is inert; a group that is just being restored counts.\<close>

definition grant_tenant :: "tenancy \<Rightarrow> role_grant \<Rightarrow> tenant option" where
  "grant_tenant db g =
     (case rg_membership g of
        Some m \<Rightarrow> Some (mb_tenant m)
      | None \<Rightarrow> Option.bind (rg_user_group g) (\<lambda>ug. find_row tn_id (ug_tenant ug) (td_tenants db)))"

definition live_grant_principal_tenant :: "tenancy \<Rightarrow> instant \<Rightarrow> pk option \<Rightarrow> role_grant \<Rightarrow> tenant option" where
  "live_grant_principal_tenant db now restoring_group g =
     (if \<not> grant_is_active now g then None
      else case rg_membership g of
        Some m \<Rightarrow> if mb_active m then grant_tenant db g else None
      | None \<Rightarrow>
          (case rg_user_group g of
             None \<Rightarrow> None
           | Some ug \<Rightarrow>
               if \<not> ug_active ug \<or> (ug_deleted ug \<noteq> None \<and> Some (ug_id ug) \<noteq> restoring_group) then None
               else grant_tenant db g))"

definition role_restore_dependencies_are_live :: "tenant \<Rightarrow> role \<Rightarrow> pk option \<Rightarrow> bool" where
  "role_restore_dependencies_are_live owner r restoring_role \<longleftrightarrow>
     tn_live owner \<and> tn_live (ro_tenant r) \<and> (ro_deleted r = None \<or> Some (ro_id r) = restoring_role)"

definition has_live_tenant_group_scope :: "tenancy \<Rightarrow> world \<Rightarrow> grant_scope \<Rightarrow> role \<Rightarrow> bool" where
  "has_live_tenant_group_scope db w s r =
     (case Option.bind (sc_group s) (\<lambda>g. find_row tg_id g (td_groups db)) of
        None \<Rightarrow> False
      | Some tg \<Rightarrow> tg_live tg \<and> managed_tenants_in (td_tenants db) (tn_id (ro_tenant r)) (desc_in db w (sc_group s)) \<noteq> [])"

definition managed_shape_is_live :: "role \<Rightarrow> tenant \<Rightarrow> bool" where
  "managed_shape_is_live r owner \<longleftrightarrow> tn_id owner = tn_id (ro_tenant r) \<and> tn_is_provider (ro_tenant r)"

text \<open>The last own scope decides \<open>has_own\<close>; all own scopes of a grant give the same answer.\<close>

definition has_own_scope :: "role_grant \<Rightarrow> role \<Rightarrow> tenant \<Rightarrow> bool" where
  "has_own_scope g r owner \<longleftrightarrow> (\<exists>s \<in> set (rg_scopes g). sc_type s = ScopeOwn) \<and>
     (tn_id (ro_tenant r) = tn_id owner \<or>
      rg_membership g \<noteq> None \<and> ro_shared_with_managed r \<and> tn_is_provider (ro_tenant r) \<and>
      tn_managed_by owner = Some (tn_id (ro_tenant r)))"

definition explicit_scope_tenants :: "tenancy \<Rightarrow> role_grant \<Rightarrow> role \<Rightarrow> pk list" where
  "explicit_scope_tenants db g r =
     concat (map (\<lambda>s. case Option.bind (sc_tenant s) (\<lambda>t. find_row tn_id t (td_tenants db)) of
          None \<Rightarrow> []
        | Some t \<Rightarrow> if tn_live t \<and> tn_managed_by t = Some (tn_id (ro_tenant r)) then [tn_id t] else [])
       (filter (\<lambda>s. sc_type s = ScopeTenant) (rg_scopes g)))"

text \<open>\<open>_classify_live_role_grant_scopes\<close> followed by \<open>_scope_request_from_classification\<close>.\<close>

definition scope_request :: "tenancy \<Rightarrow> world \<Rightarrow> role_grant \<Rightarrow> role \<Rightarrow> tenant \<Rightarrow> (scope_type \<times> pk list option) option" where
  "scope_request db w g r owner =
     (let live_shape = managed_shape_is_live r owner;
          has_all = live_shape \<and> (\<exists>s \<in> set (rg_scopes g). sc_type s = ScopeAllManaged);
          has_group = live_shape \<and> (\<exists>s \<in> set (rg_scopes g). sc_type s = ScopeTenantGroup \<and> has_live_tenant_group_scope db w s r);
          explicit_ids = (if live_shape then explicit_scope_tenants db g r else [])
      in if has_all then Some (ScopeAllManaged, None)
         else if has_group then Some (ScopeTenantGroup, Some (scoped_tenant_ids (desc_in db w) (td_tenants db) g))
         else if explicit_ids \<noteq> [] then Some (ScopeTenant, Some explicit_ids)
         else if has_own_scope g r owner then Some (ScopeOwn, None)
         else None)"

definition live_role_grant_scope_request ::
    "tenancy \<Rightarrow> instant \<Rightarrow> pk option \<Rightarrow> pk option \<Rightarrow> world \<Rightarrow> role_grant \<Rightarrow> (scope_type \<times> pk list option) option" where
  "live_role_grant_scope_request db now restoring_role restoring_group w g =
     (case live_grant_principal_tenant db now restoring_group g of
        None \<Rightarrow> None
      | Some owner \<Rightarrow>
          if role_restore_dependencies_are_live owner (rg_role g) restoring_role
          then scope_request db w g (rg_role g) owner else None)"

text \<open>The loop over retained grants: every refusal is collected.\<close>

fun validate_retained_grants ::
    "tenancy \<Rightarrow> instant \<Rightarrow> user option \<Rightarrow> pk option \<Rightarrow> pk option \<Rightarrow> role_grant list \<Rightarrow> world \<Rightarrow> delegation_error list \<times> world" where
  "validate_retained_grants db now grantor restoring_role restoring_group [] w = ([], w)"
| "validate_retained_grants db now grantor restoring_role restoring_group (g # gs) w =
     (case (live_role_grant_scope_request db now restoring_role restoring_group w g, grant_tenant db g) of
        (Some (st, ids), Some owner) \<Rightarrow>
          (let (r, w1) = validate_role_grant db now grantor (rg_role g) owner st ids w;
               (errors, w2) = validate_retained_grants db now grantor restoring_role restoring_group gs w1
           in (case r of Inl e \<Rightarrow> e # errors | Inr _ \<Rightarrow> errors, w2))
      | _ \<Rightarrow> validate_retained_grants db now grantor restoring_role restoring_group gs w)"

definition refuse :: "'e list \<Rightarrow> 'e list + unit" where
  "refuse errors = require (errors = []) errors"

definition validate_role_reactivation_grants ::
    "tenancy \<Rightarrow> instant \<Rightarrow> user option \<Rightarrow> role \<Rightarrow> world \<Rightarrow> (delegation_error list + unit) \<times> world" where
  "validate_role_reactivation_grants db now grantor r w =
     (case grantor of
        None \<Rightarrow> (Inr (), w)
      | Some u \<Rightarrow>
          if us_superuser u then (Inr (), w)
          else
            (let (errors, w1) = validate_retained_grants db now grantor (Some (ro_id r)) None
                   (map (\<lambda>g. g\<lparr>rg_role := r\<rparr>) (filter (\<lambda>g. ro_id (rg_role g) = ro_id r) (td_grants db))) w
             in (refuse errors, w1)))"

definition validate_group_membership_grant ::
    "tenancy \<Rightarrow> instant \<Rightarrow> user option \<Rightarrow> user_group \<Rightarrow> world \<Rightarrow> (delegation_error list + unit) \<times> world" where
  "validate_group_membership_grant db now grantor ug w =
     (case grantor of
        None \<Rightarrow> (Inr (), w)
      | Some u \<Rightarrow>
          if us_superuser u then (Inr (), w)
          else if \<not> ug_active ug then (Inr (), w)
          else
            (let (errors, w1) = validate_retained_grants db now grantor None (Some (ug_id ug))
                   (filter (\<lambda>g. map_option ug_id (rg_user_group g) = Some (ug_id ug)) (td_grants db)) w
             in (refuse errors, w1)))"

section \<open>What the checks establish\<close>

text \<open>The rows that grants and memberships embed are the rows of the table.\<close>

definition tenants_embedded :: "tenancy \<Rightarrow> bool" where
  "tenants_embedded db \<longleftrightarrow> keyed tn_id (td_tenants db) \<and> keyed tg_id (td_groups db) \<and> (\<forall>g \<in> set (td_grants db). ro_tenant (rg_role g) \<in> set (td_tenants db) \<and>
     (\<forall>m. rg_membership g = Some m \<longrightarrow> mb_tenant m \<in> set (td_tenants db)))"

lemma permission_grant_ok:
  assumes "current db now u w" and "t \<in> set (td_tenants db)" and "\<not> us_superuser u"
    and "validate_permission_grant db now (Some u) perms (Some t) w = (r, w')"
  shows "current db now u w'" "r = Inr () \<Longrightarrow> set perms \<subseteq> held db now (us_id u) t" "w_ctx w' = w_ctx w"
proof -
  obtain own w1 where e: "effective_perms_for_tenant db now u t w = (own, w1)" by force
  note ok = effective_perms_for_tenant_ok[OF assms(1,2) e]
  show "current db now u w'" "w_ctx w' = w_ctx w"
    using assms(1,4) ok by (cases "perms = []"; simp add: validate_permission_grant_def assms(3) e Let_def)+
  show "set perms \<subseteq> held db now (us_id u) t" if "r = Inr ()"
  proof (cases "perms = []")
    case False
    then have "filter (\<lambda>p. p \<notin> set own) (remdups perms) = []"
      using assms(4) that by (simp add: validate_permission_grant_def assms(3) e Let_def require_eq_Inr)
    then show ?thesis using ok(3) by (auto simp: filter_empty_conv)
  qed simp
qed

lemma has_perm_tenant_ok:
  assumes "current db now u w" and "t \<in> set (td_tenants db)" and "has_perm db now u perm (Some (tenant_subject t)) w = (b, w')"
  shows "current db now u w'" "w_ctx w' = w_ctx w"
proof -
  obtain ps w1 where e: "effective_perms_for_tenant db now u t w = (ps, w1)" by force
  note ok = effective_perms_for_tenant_ok[OF assms(1,2) e]
  show "current db now u w'" "w_ctx w' = w_ctx w"
    using assms(1,3) ok by (auto simp: has_perm_def tenant_subject_def object_tenant_def e Let_def split: if_splits)
qed

lemma managed_permission_ok:
  assumes "current db now u w" and "t \<in> set (td_tenants db)" and "has_managed_grant_permission db now u t w = (b, w')"
  shows "current db now u w'" "w_ctx w' = w_ctx w"
proof -
  obtain may w1 where one: "has_perm db now u ''organization.add_rolegrant'' (Some (tenant_subject t)) w = (may, w1)" by force
  note ok = has_perm_tenant_ok[OF assms(1,2) one]
  show "current db now u w'" "w_ctx w' = w_ctx w"
    using assms(3) has_perm_tenant_ok[OF ok(1) assms(2)] ok by (auto simp: has_managed_grant_permission_def one split: if_splits)
qed

lemma authority_ok:
  assumes "current db now u w" and "managed_grant_authority db now u p w = ((has_all, perms, ids), w')"
  shows "current db now u w'" "w_ctx w' = w_ctx w"
    "has_all \<longleftrightarrow> (\<exists>g \<in> set (applicable_query db now (us_id u)). principal_tenant_id g = Some (tn_id p) \<and> all_managed_grant p g)"
    "x \<in> set perms \<longleftrightarrow> (\<exists>g \<in> set (applicable_query db now (us_id u)). principal_tenant_id g = Some (tn_id p) \<and> all_managed_grant p g \<and>
       x \<in> set (ro_permissions (rg_role g)))"
proof -
  obtain gs w1 where a: "applicable_grants db now (us_id u) w = (gs, w1)" by force
  have w: "world_ok db now (us_id u) w" "memo_current db now (us_id u) (w_memo w)" using assms(1) by simp_all
  note ok = applicable_grants_ok[OF w(1) a]
  have q: "gs = applicable_query db now (us_id u)" "memo_current db now (us_id u) (w_memo w1)" using ok(4)[OF w(2)] by simp_all
  have r: "w' = w1" "has_all = (filter (all_managed_grant p) (filter (\<lambda>g. principal_tenant_id g = Some (tn_id p)) gs) \<noteq> [])"
    "perms = concat (map (\<lambda>g. ro_permissions (rg_role g)) (filter (all_managed_grant p) (filter (\<lambda>g. principal_tenant_id g = Some (tn_id p)) gs)))"
    using assms(2) by (simp_all add: managed_grant_authority_def a Let_def)
  show "current db now u w'" "w_ctx w' = w_ctx w" using ok q r by simp_all
  show "has_all \<longleftrightarrow> (\<exists>g \<in> set (applicable_query db now (us_id u)). principal_tenant_id g = Some (tn_id p) \<and> all_managed_grant p g)"
    unfolding r q by (auto simp: filter_empty_conv)
  show "x \<in> set perms \<longleftrightarrow> (\<exists>g \<in> set (applicable_query db now (us_id u)). principal_tenant_id g = Some (tn_id p) \<and> all_managed_grant p g \<and>
       x \<in> set (ro_permissions (rg_role g)))"
    unfolding r q by auto
qed

lemma targets_ok:
  "current db now u w \<Longrightarrow> set ts \<subseteq> set (td_tenants db) \<Longrightarrow> \<not> us_superuser u \<Longrightarrow> validate_targets db now u perms ts w = (r, w') \<Longrightarrow>
     current db now u w' \<and> w_ctx w' = w_ctx w \<and> (r = Inr () \<longrightarrow> (\<forall>t \<in> set ts. set perms \<subseteq> held db now (us_id u) t))"
proof (induction ts arbitrary: w)
  case (Cons t ts)
  obtain r1 w1 where one: "validate_permission_grant db now (Some u) perms (Some t) w = (r1, w1)" by force
  have t: "t \<in> set (td_tenants db)" using Cons.prems(2) by simp
  note ok = permission_grant_ok[OF Cons.prems(1) t Cons.prems(3) one]
  show ?case
  proof (cases r1)
    case (Inl e)
    then show ?thesis using Cons.prems(4) ok by (auto simp: one)
  next
    case (Inr x)
    then show ?thesis using Cons.prems(2-4) ok Cons.IH[OF ok(1)] by (auto simp: one)
  qed
qed simp

text \<open>A scope asks for no more than was validated: it is the own scope, one of the explicit tenants, or anything
  for a dynamic request.\<close>

definition scope_within :: "scope_type \<Rightarrow> pk list option \<Rightarrow> grant_scope \<Rightarrow> bool" where
  "scope_within st ids s \<longleftrightarrow> st \<in> {ScopeTenantGroup, ScopeAllManaged} \<or> sc_type s = ScopeOwn \<or>
     st \<noteq> ScopeOwn \<and> sc_type s = ScopeTenant \<and> (\<exists>i js. ids = Some js \<and> sc_tenant s = Some i \<and> i \<in> set js)"

lemma all_managed_covers:
  assumes g: "g \<in> set (applicable_query db now uid)" "principal_tenant_id g = Some (tn_id p)" "all_managed_grant p g"
    and emb: "tenants_embedded db" and p: "p \<in> set (td_tenants db)" and t: "tn_managed_by t = Some (tn_id p)"
    and x: "x \<in> set (ro_permissions (rg_role g))"
  shows "x \<in> held db now uid t"
proof -
  have q: "g \<in> set (td_grants db)" "principal_matches uid g" "ro_deleted (rg_role g) = None" "grant_is_active now g"
    using g(1) by (auto simp: applicable_query_def grant_is_active_def after_opt_def split: option.splits)
  have role: "ro_tenant (rg_role g) \<in> set (td_tenants db)" "tn_id (ro_tenant (rg_role g)) = tn_id p" "keyed tn_id (td_tenants db)"
    using emb q(1) g(3) by (auto simp: tenants_embedded_def all_managed_grant_def)
  then have "ro_tenant (rg_role g) = p" using keyed_inj[OF role(3) role(1) p] by simp
  moreover obtain s where s: "s \<in> set (rg_scopes g)" "sc_type s = ScopeAllManaged" and provider: "tn_is_provider p"
    using g(3) by (auto simp: all_managed_grant_def)
  ultimately have "scope_covers (walk_desc (td_groups db)) g (tn_id p) t s" using t by (simp add: scope_covers_def Let_def)
  then have "covers_tenant (walk_desc (td_groups db)) now g t"
    using g(2) q(3,4) s(1) by (auto simp: covers_tenant_def)
  then show ?thesis using q x by (auto simp: held_iff)
qed

lemma managed_scopeD:
  assumes "scope_covers desc g p t s" and "sc_type s \<noteq> ScopeOwn"
  shows "tn_managed_by t = Some (tn_id (ro_tenant (rg_role g)))" "p = tn_id (ro_tenant (rg_role g))"
    "tn_is_provider (ro_tenant (rg_role g))"
  using assms by (simp_all add: scope_covers_def Let_def split: if_split_asm)

lemma own_scopeD: "scope_covers desc g p t s \<Longrightarrow> sc_type s = ScopeOwn \<Longrightarrow> tn_id t = p"
  by (simp add: scope_covers_def Let_def split: if_split_asm)

lemma tenant_scopeD: "scope_covers desc g p t s \<Longrightarrow> sc_type s = ScopeTenant \<Longrightarrow> sc_tenant s = Some (tn_id t)"
  by (simp add: scope_covers_def Let_def split: if_split_asm)

lemma delegated_scope_held:
  assumes w: "current db now u w" and "\<not> us_superuser u" and "tenants_embedded db"
    and "owner \<in> set (td_tenants db)" and "ro_tenant (rg_role g) \<in> set (td_tenants db)"
    and "fst (validate_role_grant db now (Some u) (rg_role g) owner st ids w) = Inr ()"
    and "scope_within st ids s" and "t \<in> set (td_tenants db)" and "tn_live t"
    and s: "scope_covers (walk_desc (td_groups db)) g (tn_id owner) t s"
  shows "set (ro_permissions (rg_role g)) \<subseteq> held db now (us_id u) t"
proof -
  let ?perms = "ro_permissions (rg_role g)" and ?p = "ro_tenant (rg_role g)"
  have keyed: "keyed tn_id (td_tenants db)" using assms(3) by (simp add: tenants_embedded_def)
  obtain r1 w1 where one: "validate_permission_grant db now (Some u) ?perms (Some owner) w = (r1, w1)" by force
  note ok1 = permission_grant_ok[OF w assms(4,2) one]
  have r1: "r1 = Inr ()" using assms(2,6) by (cases r1) (auto simp: validate_role_grant_def one)
  show ?thesis
  proof (cases "sc_type s = ScopeOwn")
    case True
    then have "tn_id t = tn_id owner" by (rule own_scopeD[OF s])
    then have "t = owner" unfolding keyed_inj[OF keyed assms(8,4)] .
    then show ?thesis using ok1(2) r1 by simp
  next
    case False
    then have m: "tn_managed_by t = Some (tn_id ?p)" "tn_id owner = tn_id ?p" "tn_is_provider ?p"
      using managed_scopeD[OF s] by simp_all
    have p: "?p = owner" using m(2)[symmetric] unfolding keyed_inj[OF keyed assms(5,4)] .
    have st: "st \<noteq> ScopeOwn" using assms(7) False by (auto simp: scope_within_def)
    obtain may w2 where two: "has_managed_grant_permission db now u owner w1 = (may, w2)" by force
    note ok2 = managed_permission_ok[OF ok1(1) assms(4) two]
    obtain has_all all own w3 where three: "managed_grant_authority db now u owner w2 = ((has_all, all, own), w3)"
      by (metis prod.exhaust)
    note ok3 = authority_ok[OF ok2(1) three]
    have managed: "fst (validate_managed_role_grant db now u (rg_role g) owner st ids w1) = Inr ()"
      using assms(2,6) r1 st by (simp add: validate_role_grant_def one)
    then have "may" by (cases may) (simp_all add: validate_managed_role_grant_def two)
    with managed have run: "fst (if st \<in> {ScopeTenantGroup, ScopeAllManaged}
         then (validate_dynamic_managed_scope ?perms has_all all, w3)
         else validate_explicit_managed_scope db now u ?perms own ids w3) = Inr ()"
      by (simp add: validate_managed_role_grant_def two three)
    show ?thesis
    proof (cases "st \<in> {ScopeTenantGroup, ScopeAllManaged}")
      case True
      then have "set ?perms \<subseteq> set all"
        using run by (auto simp: validate_dynamic_managed_scope_def Let_def require_eq_Inr filter_empty_conv)
      moreover have "tn_managed_by t = Some (tn_id owner)" using m(1) unfolding m(2) .
      note covers = all_managed_covers[OF _ _ _ assms(3,4) this]
      have "x \<in> held db now (us_id u) t" if "x \<in> set all" for x
        using that unfolding ok3(4) by (blast intro: covers)
      ultimately show ?thesis by blast
    next
      case False
      then obtain i js where i: "ids = Some js" "sc_tenant s = Some i" "i \<in> set js" "sc_type s = ScopeTenant"
        using assms(7) \<open>sc_type s \<noteq> ScopeOwn\<close> by (auto simp: scope_within_def)
      have "i = tn_id t" using tenant_scopeD[OF s i(4)] i(2) by simp
      define ts where "ts = filter (\<lambda>t. tn_id t \<in> set js \<and> tn_live t) (td_tenants db)"
      have t: "t \<in> set ts" "set ts \<subseteq> set (td_tenants db)" using assms(8,9) i(3) \<open>i = tn_id t\<close> by (auto simp: ts_def)
      obtain r4 w4 where four: "validate_targets db now u ?perms ts w3 = (r4, w4)" by force
      have "r4 = Inr ()" using run False i(1) four
        by (simp add: validate_explicit_managed_scope_def ts_def[symmetric] Let_def split: if_splits)
      then show ?thesis using targets_ok[OF ok3(1) t(2) assms(2) four] t(1) by blast
    qed
  qed
qed


text \<open>C7. A grantor who is no superuser grants only what they hold (superusers and the system, which has no grantor, pass
  unchecked by design).  When the grantor's memos hold nothing expired, then after a successful check for a role, a principal's
  tenant and a coverage, every permission of the role is one the grantor holds, now, in each live tenant that a grant
  of this role to this principal with this coverage reaches, at whatever time it is looked at.\<close>

theorem delegation_never_escalates:
  assumes "world_ok db now (us_id u) w" "memo_current db now (us_id u) (w_memo w)" and "tenants_embedded db" and "\<not> us_superuser u"
    and "owner \<in> set (td_tenants db)" and "ro_tenant (rg_role g) \<in> set (td_tenants db)"
    and "fst (validate_role_grant db now (Some u) (rg_role g) owner st ids w) = Inr ()"
    and "principal_tenant_id g = Some (tn_id owner)" and "\<And>s. s \<in> set (rg_scopes g) \<Longrightarrow> scope_within st ids s"
    and "t \<in> set (td_tenants db)" and "tn_live t" and "covers_tenant (walk_desc (td_groups db)) later g t"
  shows "set (ro_permissions (rg_role g)) \<subseteq> held db now (us_id u) t"
proof -
  have w: "current db now u w" using assms(1,2) by simp
  obtain s where s: "s \<in> set (rg_scopes g)" "scope_covers (walk_desc (td_groups db)) g (tn_id owner) t s"
    using assms(8,12) by (auto simp: covers_tenant_def split: if_splits)
  show ?thesis by (rule delegated_scope_held[OF w assms(4,3,5,6,7) assms(9)[OF s(1)] assms(10,11) s(2)])
qed


section \<open>Roles and groups that come back\<close>

lemma validate_role_grant_current:
  assumes w: "current db now u w" and "owner \<in> set (td_tenants db)"
    and run: "validate_role_grant db now (Some u) r owner st ids w = (res, w')"
  shows "current db now u w'"
proof (cases "us_superuser u")
  case True
  then show ?thesis using run w by (simp add: validate_role_grant_def)
next
  case False
  obtain r1 w1 where one: "validate_permission_grant db now (Some u) (ro_permissions r) (Some owner) w = (r1, w1)" by force
  note ok1 = permission_grant_ok(1)[OF w assms(2) False one]
  obtain may w2 where two: "has_managed_grant_permission db now u owner w1 = (may, w2)" by force
  note ok2 = managed_permission_ok(1)[OF ok1 assms(2) two]
  obtain has_all all own w3 where three: "managed_grant_authority db now u owner w2 = ((has_all, all, own), w3)"
    by (metis prod.exhaust)
  note ok3 = authority_ok(1)[OF ok2 three]
  have "current db now u w''" if e: "validate_explicit_managed_scope db now u (ro_permissions r) own ids w3 = (res', w'')" for res' w''
  proof -
    have "set (filter (\<lambda>t. tn_id t \<in> set js \<and> tn_live t) (td_tenants db)) \<subseteq> set (td_tenants db)" for js by auto
    note targets = targets_ok[OF ok3 this False]
    show ?thesis using e ok3
      by (auto simp: validate_explicit_managed_scope_def Let_def dest: targets split: option.splits if_split_asm)
  qed
  then have "current db now u w''" if e: "validate_managed_role_grant db now u r owner st ids w1 = (res', w'')" for res' w''
    using e ok2 ok3 by (simp add: validate_managed_role_grant_def two three split: if_split_asm)
  then show ?thesis using run False ok1
    by (simp add: validate_role_grant_def one split: sum.splits if_split_asm)
qed

lemma scope_request_own: "has_own_scope g r owner \<Longrightarrow> \<exists>st ids. scope_request db w g r owner = Some (st, ids)"
  by (auto simp: scope_request_def Let_def)

lemma scope_request_dynamic:
  assumes "managed_shape_is_live r owner" and "(\<exists>s \<in> set (rg_scopes g). sc_type s = ScopeAllManaged) \<or>
    (\<exists>s \<in> set (rg_scopes g). sc_type s = ScopeTenantGroup \<and> has_live_tenant_group_scope db w s r)"
  shows "\<exists>st ids. scope_request db w g r owner = Some (st, ids) \<and> st \<in> {ScopeTenantGroup, ScopeAllManaged}"
  using assms by (auto simp: scope_request_def Let_def)

lemma scope_request_tenant:
  assumes "managed_shape_is_live r owner" and "i \<in> set (explicit_scope_tenants db g r)"
  shows "\<exists>st ids. scope_request db w g r owner = Some (st, ids) \<and>
    (st \<in> {ScopeTenantGroup, ScopeAllManaged} \<or> st = ScopeTenant \<and> (\<exists>js. ids = Some js \<and> i \<in> set js))"
  using assms by (auto simp: scope_request_def Let_def)

lemma live_scope_requested:
  assumes w: "current db now u w" and rows: "keyed tn_id (td_tenants db)" "keyed tg_id (td_groups db)"
    and "owner \<in> set (td_tenants db)" and t: "t \<in> set (td_tenants db)" "tn_live t"
    and s: "s \<in> set (rg_scopes g)" "scope_covers (walk_desc (td_groups db)) g (tn_id owner) t s"
  obtains st ids where "scope_request db w g (rg_role g) owner = Some (st, ids)" "scope_within st ids s"
proof -
  let ?r = "rg_role g"
  have d: "desc_in db w = walk_desc (td_groups db)" using w desc_in_ok by blast
  consider (own) "sc_type s = ScopeOwn" | (managed) "sc_type s \<noteq> ScopeOwn" by blast
  then show thesis
  proof cases
    case own
    have "t = owner" using own_scopeD[OF s(2) own] unfolding keyed_inj[OF rows(1) t(1) assms(4)] .
    then have "has_own_scope g ?r owner" using s own
      by (auto simp: has_own_scope_def scope_covers_def Let_def split: if_split_asm)
    then show thesis using that own by (auto simp: scope_within_def dest: scope_request_own)
  next
    case managed
    note m = managed_scopeD[OF s(2) managed]
    then have shape: "managed_shape_is_live ?r owner" by (simp add: managed_shape_is_live_def)
    show thesis
    proof (cases "sc_type s = ScopeTenant")
      case True
      have "find_row tn_id (tn_id t) (td_tenants db) = Some t" by (rule find_row_mem[OF rows(1) t(1)])
      then have "tn_id t \<in> set (explicit_scope_tenants db g ?r)"
        using s(1) True tenant_scopeD[OF s(2) True] t(2) m(1) by (force simp: explicit_scope_tenants_def)
      then show thesis using that scope_request_tenant[OF shape] True tenant_scopeD[OF s(2) True]
        by (fastforce simp: scope_within_def)
    next
      case False
      have "(\<exists>s \<in> set (rg_scopes g). sc_type s = ScopeAllManaged) \<or>
          (\<exists>s \<in> set (rg_scopes g). sc_type s = ScopeTenantGroup \<and> has_live_tenant_group_scope db w s ?r)"
      proof (cases "sc_type s = ScopeTenantGroup")
        case True
        then obtain sg tg where g: "sc_group s = Some sg" "tn_group t = Some tg" "tg \<in> set (walk_desc (td_groups db) (Some sg))"
          using s(2) by (auto simp: scope_covers_def Let_def split: if_split_asm option.splits)
        then have "live_group_exists (td_groups db) sg" by (auto simp: walk_desc_def descendants_of_def split: if_split_asm)
        then obtain row where "find_row tg_id sg (td_groups db) = Some row" "tg_live row"
          using rows(2) by (auto simp: live_group_exists_def find_row_iff)
        then have "has_live_tenant_group_scope db w s ?r"
          using g t m(1) d by (force simp: has_live_tenant_group_scope_def managed_tenants_in_def filter_empty_conv)
        then show ?thesis using s(1) True by blast
      next
        case False
        then have "sc_type s = ScopeAllManaged" using s(2) managed \<open>sc_type s \<noteq> ScopeTenant\<close>
          by (simp add: scope_covers_def Let_def split: if_split_asm scope_type.splits)
        then show ?thesis using s(1) by blast
      qed
      then obtain st ids where "scope_request db w g ?r owner = Some (st, ids)" "st \<in> {ScopeTenantGroup, ScopeAllManaged}"
        using scope_request_dynamic[OF shape] by blast
      then show thesis using that[of st ids] unfolding scope_within_def by blast
    qed
  qed
qed


text \<open>Every live grant among the retained ones was checked; the memos stay current along the loop.\<close>

lemma retained_grants_checked:
  "current db now u w \<Longrightarrow> keyed tn_id (td_tenants db) \<Longrightarrow> (\<forall>g \<in> set gs. \<forall>p. grant_tenant db g = Some p \<longrightarrow> p \<in> set (td_tenants db)) \<Longrightarrow>
     fst (validate_retained_grants db now (Some u) rr rg gs w) = [] \<Longrightarrow>
     g \<in> set gs \<Longrightarrow> live_role_grant_scope_request db now rr rg w g = Some (st, ids) \<Longrightarrow> grant_tenant db g = Some owner \<Longrightarrow>
     \<exists>w'. current db now u w' \<and> fst (validate_role_grant db now (Some u) (rg_role g) owner st ids w') = Inr ()"
proof (induction gs arbitrary: w)
  case (Cons h gs)
  have same: "live_role_grant_scope_request db now rr rg w' x = live_role_grant_scope_request db now rr rg w x" 
    if "current db now u w'" for w' x
  proof -
    have d: "desc_in db w' = desc_in db w" using that Cons.prems(1) desc_in_ok by metis
    then have "scope_request db w' = scope_request db w"
      by (intro ext) (simp only: scope_request_def has_live_tenant_group_scope_def)
    then show ?thesis by (simp only: live_role_grant_scope_request_def)
  qed
  have tail: "\<forall>g \<in> set gs. \<forall>p. grant_tenant db g = Some p \<longrightarrow> p \<in> set (td_tenants db)" using Cons.prems(3) by simp
  show ?case
  proof (cases "\<exists>st ids p. live_role_grant_scope_request db now rr rg w h = Some (st, ids) \<and> grant_tenant db h = Some p")
    case False
    then have "fst (validate_retained_grants db now (Some u) rr rg gs w) = []" "g \<noteq> h"
      using Cons.prems(4,6,7) by (auto split: option.splits)
    with Cons.prems(5) show ?thesis by (intro Cons.IH[OF Cons.prems(1,2) tail _ _ Cons.prems(6,7)]) auto
  next
    case True
    then obtain st' ids' o' where h: "live_role_grant_scope_request db now rr rg w h = Some (st', ids')" "grant_tenant db h = Some o'" by blast
    obtain r w1 where run: "validate_role_grant db now (Some u) (rg_role h) o' st' ids' w = (r, w1)" by force
    have o': "o' \<in> set (td_tenants db)" using Cons.prems(3) h(2) by simp
    have w1: "current db now u w1" by (rule validate_role_grant_current[OF Cons.prems(1) o' run])
    have rest: "r = Inr ()" "fst (validate_retained_grants db now (Some u) rr rg gs w1) = []"
      using Cons.prems(4) by (auto simp: h run Let_def split: prod.splits sum.splits)
    show ?thesis
    proof (cases "g = h")
      case True
      then show ?thesis using Cons.prems(1,6,7) h run rest(1) by (intro exI[of _ w]) simp
    next
      case False
      then have "g \<in> set gs" using Cons.prems(5) by simp
      moreover have "live_role_grant_scope_request db now rr rg w1 g = Some (st, ids)" using Cons.prems(6) same[OF w1] by simp
      ultimately show ?thesis by (rule Cons.IH[OF w1 Cons.prems(2) tail rest(2) _ _ Cons.prems(7)])
    qed
  qed
qed simp


lemma grant_tenant_in_table:
  assumes "tenants_embedded db" and "g \<in> set (td_grants db)" and "grant_tenant db g = Some owner"
  shows "owner \<in> set (td_tenants db)" "principal_tenant_id g = Some (tn_id owner)"
  using assms by (auto simp: grant_tenant_def tenants_embedded_def principal_tenant_id_def bind_eq_Some_conv find_row_iff split: option.splits)

lemma covering_scope:
  assumes "covers_tenant desc now g t" and "principal_tenant_id g = Some p"
  obtains s where "s \<in> set (rg_scopes g)" "scope_covers desc g p t s"
  using assms by (auto simp: covers_tenant_def split: if_splits)

lemma retained_grant_held:
  assumes w: "current db now u w" and "\<not> us_superuser u" and emb: "tenants_embedded db"
    and gs: "\<And>g. g \<in> set gs \<Longrightarrow> ro_tenant (rg_role g) \<in> set (td_tenants db)"
      "\<forall>g \<in> set gs. \<forall>p. grant_tenant db g = Some p \<longrightarrow> p \<in> set (td_tenants db)"
    and run: "fst (validate_retained_grants db now (Some u) rr rg gs w) = []" and g: "g \<in> set gs"
    and owner: "live_grant_principal_tenant db now rg g = Some owner" "role_restore_dependencies_are_live owner (rg_role g) rr"
    and t: "t \<in> set (td_tenants db)" "tn_live t"
    and s: "s \<in> set (rg_scopes g)" "scope_covers (walk_desc (td_groups db)) g (tn_id owner) t s"
  shows "set (ro_permissions (rg_role g)) \<subseteq> held db now (us_id u) t"
proof -
  have keys: "keyed tn_id (td_tenants db)" "keyed tg_id (td_groups db)" using emb by (simp_all add: tenants_embedded_def)
  have gt: "grant_tenant db g = Some owner"
    using owner(1) by (simp add: live_grant_principal_tenant_def split: if_split_asm option.splits)
  have tab: "owner \<in> set (td_tenants db)" using gs(2) g gt by blast
  obtain st ids where req: "scope_request db w g (rg_role g) owner = Some (st, ids)" "scope_within st ids s"
    using live_scope_requested[OF w keys tab t s] .
  then have "live_role_grant_scope_request db now rr rg w g = Some (st, ids)"
    by (simp add: live_role_grant_scope_request_def owner)
  then obtain w' where w': "current db now u w'" "fst (validate_role_grant db now (Some u) (rg_role g) owner st ids w') = Inr ()"
    using retained_grants_checked[OF w keys(1) gs(2) run g _ gt] by blast
  show ?thesis by (rule delegated_scope_held[OF w'(1) assms(2) emb tab gs(1)[OF g] w'(2) req(2) t s(2)])
qed

lemma grant_role_fields:
  "rg_membership (g\<lparr>rg_role := r\<rparr>) = rg_membership g" "rg_user_group (g\<lparr>rg_role := r\<rparr>) = rg_user_group g"
  "rg_valid_until (g\<lparr>rg_role := r\<rparr>) = rg_valid_until g" "rg_scopes (g\<lparr>rg_role := r\<rparr>) = rg_scopes g"
  "rg_role (g\<lparr>rg_role := r\<rparr>) = r" "ro_tenant (r\<lparr>ro_deleted := x\<rparr>) = ro_tenant r"
  "ro_shared_with_managed (r\<lparr>ro_deleted := x\<rparr>) = ro_shared_with_managed r"
  by simp_all

lemma grant_with_role [simp]:
  "principal_tenant_id (g\<lparr>rg_role := r\<rparr>) = principal_tenant_id g" "principal_matches uid (g\<lparr>rg_role := r\<rparr>) = principal_matches uid g"
  "grant_is_active now (g\<lparr>rg_role := r\<rparr>) = grant_is_active now g" "grant_tenant db (g\<lparr>rg_role := r\<rparr>) = grant_tenant db g"
  unfolding principal_tenant_id_def principal_matches_def grant_is_active_def grant_tenant_def grant_role_fields by (rule refl)+

lemma scope_covers_deleted_role [simp]:
  "scope_covers d (g\<lparr>rg_role := r\<lparr>ro_deleted := x\<rparr>\<rparr>) p t s = scope_covers d (g\<lparr>rg_role := r\<rparr>) p t s"
  unfolding scope_covers_def Let_def grant_role_fields by (rule refl)

lemma covers_active: "covers_tenant d now g t \<Longrightarrow> grant_is_active now g"
  by (simp add: covers_tenant_def split: if_split_asm)






text \<open>The row of a user group in every grant that has it.\<close>

definition with_group :: "user_group \<Rightarrow> role_grant \<Rightarrow> role_grant" where
  "with_group ug g = (if map_option ug_id (rg_user_group g) = Some (ug_id ug) then g\<lparr>rg_user_group := Some ug\<rparr> else g)"

definition put_group :: "user_group \<Rightarrow> tenancy \<Rightarrow> tenancy" where
  "put_group ug db = db\<lparr>td_grants := map (with_group ug) (td_grants db)\<rparr>"

lemma covers_with_group:
  assumes "rg_membership g = None" and "rg_user_group g = Some ug" and "ug_tenant ug' = ug_tenant ug"
  shows "covers_tenant d now (g\<lparr>rg_user_group := Some ug'\<rparr>) t = covers_tenant d now g t"
proof -
  have fields: "rg_role (g\<lparr>rg_user_group := Some ug'\<rparr>) = rg_role g" "rg_scopes (g\<lparr>rg_user_group := Some ug'\<rparr>) = rg_scopes g"
    "rg_membership (g\<lparr>rg_user_group := Some ug'\<rparr>) = rg_membership g"
    "grant_is_active now (g\<lparr>rg_user_group := Some ug'\<rparr>) = grant_is_active now g" by (simp_all add: grant_is_active_def)
  have scopes: "scope_covers d (g\<lparr>rg_user_group := Some ug'\<rparr>) = scope_covers d g"
    by (intro ext) (simp only: scope_covers_def fields)
  have principal: "principal_tenant_id (g\<lparr>rg_user_group := Some ug'\<rparr>) = principal_tenant_id g"
    using assms by (simp add: principal_tenant_id_def)
  show ?thesis unfolding covers_tenant_def fields scopes principal by (rule refl)
qed

text \<open>Nor does adding a member to a group: whatever anybody can do in a live tenant after the group got a new
  member, they could do before, or the person who passed the check could.\<close>

theorem group_join_escalates_nothing:
  assumes "world_ok db now (us_id u) w" "memo_current db now (us_id u) (w_memo w)" and emb: "tenants_embedded db" and "\<not> us_superuser u"
    and rows: "\<And>g. g \<in> set (td_grants db) \<Longrightarrow> map_option ug_id (rg_user_group g) = Some (ug_id ug) \<Longrightarrow>
       rg_membership g = None \<and> rg_user_group g = Some ug \<and> tn_live (ro_tenant (rg_role g)) \<and> (\<exists>p. grant_tenant db g = Some p \<and> tn_live p)"
    and run: "fst (validate_group_membership_grant db now (Some u) ug w) = Inr ()"
    and t: "t \<in> set (td_tenants db)" "tn_live t"
  shows "held (put_group (ug\<lparr>ug_members := m # ug_members ug\<rparr>) db) now uid t \<subseteq> held db now uid t \<union> held db now (us_id u) t"
proof
  fix x
  let ?new = "ug\<lparr>ug_members := m # ug_members ug\<rparr>" and ?d = "walk_desc (td_groups db)"
  let ?gs = "filter (\<lambda>g. map_option ug_id (rg_user_group g) = Some (ug_id ug)) (td_grants db)"
  assume "x \<in> held (put_group ?new db) now uid t"
  then obtain g where g: "g \<in> set (td_grants db)"
    and hit: "principal_matches uid (with_group ?new g)"
      "x \<in> set (ro_permissions (rg_role (with_group ?new g)))"
      "covers_tenant ?d now (with_group ?new g) t"
    by (auto simp: held_iff put_group_def)
  show "x \<in> held db now uid t \<union> held db now (us_id u) t"
  proof (cases "map_option ug_id (rg_user_group g) = Some (ug_id ug)")
    case False
    then have "with_group ?new g = g" by (auto simp: with_group_def)
    then show ?thesis using g hit by (auto simp: held_iff)
  next
    case True
    then have put: "with_group ?new g = g\<lparr>rg_user_group := Some ?new\<rparr>" by (simp add: with_group_def)
    obtain p where p: "grant_tenant db g = Some p" "tn_live p" and shape: "rg_membership g = None" "rg_user_group g = Some ug"
      and r: "tn_live (ro_tenant (rg_role g))" using rows[OF g True] by blast
    have covers: "covers_tenant ?d now g t" and x: "x \<in> set (ro_permissions (rg_role g))" and ug: "ug_active ug" "ug_deleted ug = None"
      using hit covers_with_group[OF shape, of ?new] shape unfolding put by (simp_all add: principal_matches_def)
    have id: "principal_tenant_id g = Some (tn_id p)" using grant_tenant_in_table[OF emb g p(1)] by simp
    have owner: "live_grant_principal_tenant db now (Some (ug_id ug)) g = Some p"
      using covers_active[OF covers] shape ug p(1) by (simp add: live_grant_principal_tenant_def)
    have "ro_deleted (rg_role g) = None" using covers by (simp add: covers_tenant_def split: if_split_asm)
    then have deps: "role_restore_dependencies_are_live p (rg_role g) None" using p(2) r by (simp add: role_restore_dependencies_are_live_def)
    obtain s where s: "s \<in> set (rg_scopes g)" "scope_covers ?d g (tn_id p) t s" using covering_scope[OF covers id] .
    have g': "g \<in> set ?gs" using g True by simp
    have "fst (validate_retained_grants db now (Some u) None (Some (ug_id ug)) ?gs w) = []"
      using run assms(4) ug by (simp add: validate_group_membership_grant_def refuse_def require_eq_Inr Let_def split: prod.splits)
    moreover have "ro_tenant (rg_role h) \<in> set (td_tenants db)" if "h \<in> set ?gs" for h using that emb by (simp add: tenants_embedded_def)
    moreover have "\<forall>h \<in> set ?gs. \<forall>q. grant_tenant db h = Some q \<longrightarrow> q \<in> set (td_tenants db)"
      using grant_tenant_in_table(1)[OF emb] by auto
    ultimately have "set (ro_permissions (rg_role g)) \<subseteq> held db now (us_id u) t"
      using assms(1,2) by (intro retained_grant_held[OF _ assms(4) emb _ _ _ g' owner deps t s]) simp_all
    then show ?thesis using x by auto
  qed
qed


text \<open>A provider's administrator with the permission to hand out grants.\<close>

definition granting_role :: role where
  "granting_role = sample_role\<lparr>ro_id := 8, ro_permissions := [Perm ''assets.view_asset'', Perm ''organization.add_rolegrant'']\<rparr>"

definition granting_grant :: role_grant where
  "granting_grant = sample_grant\<lparr>rg_id := 12, rg_role := granting_role,
     rg_scopes := [\<lparr>sc_id = 2, sc_type = ScopeOwn, sc_tenant = None, sc_group = None\<rparr>,
                   \<lparr>sc_id = 3, sc_type = ScopeTenantGroup, sc_tenant = None, sc_group = Some 1\<rparr>]\<rparr>"

definition technician :: membership where
  "technician = sample_member\<lparr>mb_id := 6, mb_user := 10\<rparr>"

definition coverage_grant :: role_grant where
  "coverage_grant = sample_grant\<lparr>rg_id := 13, rg_membership := Some technician, rg_valid_until := None,
     rg_scopes := [\<lparr>sc_id = 4, sc_type = ScopeTenant, sc_tenant = Some 2, sc_group = None\<rparr>]\<rparr>"

text \<open>The same coverage through a role that was deleted, and through a group.\<close>

definition retired_role :: role where
  "retired_role = sample_role\<lparr>ro_deleted := Some 40\<rparr>"

definition field_group :: user_group where
  "field_group = \<lparr>ug_id = 20, ug_name = ''field'', ug_tenant = 1, ug_active = True, ug_deleted = None, ug_members = []\<rparr>"

definition group_grant :: role_grant where
  "group_grant = coverage_grant\<lparr>rg_id := 15, rg_membership := None, rg_user_group := Some field_group, rg_role := sample_role\<lparr>ro_id := 21\<rparr>\<rparr>"

definition granting_tenancy :: tenancy where
  "granting_tenancy = sample_tenancy\<lparr>td_grants := [granting_grant, coverage_grant\<lparr>rg_role := retired_role\<rparr>, group_grant]\<rparr>"

lemmas granting_rows = granting_grant_def granting_role_def coverage_grant_def technician_def retired_role_def group_grant_def field_group_def sample_grants

lemma granting_ok: "world_ok granting_tenancy now uid sample_world" "memo_current granting_tenancy now uid (w_memo sample_world)"
  "tenants_embedded granting_tenancy" "td_tenants granting_tenancy = [sample_provider, sample_customer, sample_stranger]"
  "td_groups granting_tenancy = sample_groups" "td_grants granting_tenancy = [granting_grant, coverage_grant\<lparr>rg_role := retired_role\<rparr>, group_grant]"
  "\<not> us_superuser sample_user" "us_id sample_user = 9"
proof -
  show "world_ok granting_tenancy now uid sample_world" using sample_keyed
    by (simp add: granting_tenancy_def world_ok_def sample_world_def sample_ctx_def sample_tenancy_def cache_sound_def)
  show "memo_current granting_tenancy now uid (w_memo sample_world)" by (simp add: sample_world_def)
  show "tenants_embedded granting_tenancy" using sample_keyed
    by (simp add: tenants_embedded_def granting_tenancy_def sample_tenancy_def granting_rows) (simp add: keyed_def sample_groups_def)
qed (simp_all add: granting_tenancy_def sample_tenancy_def sample_user_def)

lemma granting_runs:
  "fst (validate_role_grant granting_tenancy 50 (Some sample_user) sample_role sample_provider ScopeTenant (Some [2]) sample_world) = Inr ()"
  "fst (validate_role_reactivation_grants granting_tenancy 50 (Some sample_user) retired_role sample_world) = Inr ()"
  "fst (validate_group_membership_grant granting_tenancy 50 (Some sample_user) field_group sample_world) = Inr ()"
  "covers_tenant (walk_desc sample_groups) 500 coverage_grant sample_customer"
  by code_simp+

theorem delegation_never_escalates_witness:
  "set (ro_permissions sample_role) \<subseteq> held granting_tenancy 50 9 sample_customer"
proof -
  have g: "rg_role coverage_grant = sample_role" "principal_tenant_id coverage_grant = Some (tn_id sample_provider)"
    "\<And>s. s \<in> set (rg_scopes coverage_grant) \<Longrightarrow> scope_within ScopeTenant (Some [2]) s"
    by (simp_all add: granting_rows principal_tenant_id_def scope_within_def)
  show ?thesis
    using delegation_never_escalates[OF granting_ok(1-3,7) _ _ granting_runs(1)[folded g(1)] g(2,3), of sample_customer 500]
    by (simp add: granting_ok granting_runs g(1)) (simp add: sample_role_def tn_live_def sample_customer_def)
qed


theorem group_join_escalates_nothing_witness:
  "held (put_group (field_group\<lparr>ug_members := technician # ug_members field_group\<rparr>) granting_tenancy) 50 10 sample_customer
     \<subseteq> held granting_tenancy 50 10 sample_customer \<union> held granting_tenancy 50 9 sample_customer"
proof -
  have rows: "rg_membership g = None \<and> rg_user_group g = Some field_group \<and> tn_live (ro_tenant (rg_role g)) \<and>
      (\<exists>p. grant_tenant granting_tenancy g = Some p \<and> tn_live p)"
    if "g \<in> set (td_grants granting_tenancy)" "map_option ug_id (rg_user_group g) = Some (ug_id field_group)" for g
    using that by (auto simp: granting_ok granting_rows grant_tenant_def tn_live_def sample_provider_def)
  show ?thesis
    using group_join_escalates_nothing[OF granting_ok(1-3,7) rows granting_runs(3), of sample_customer technician 10]
    by (simp add: granting_ok) (simp add: tn_live_def sample_customer_def)
qed

end
