(* ===== verification/TaskContext.thy ===== *)
theory TaskContext
  imports Backend
begin

text \<open>
  Background-task contexts, \<^verbatim>\<open>core/tasks/context.py\<close>: entering a \<open>TaskContext\<close> captures the ambient
  context, installs an isolated scope, resolves and authorizes the requested tenant and principal,
  and restores everything on exit or on a failed setup.  Authorization of the principal runs on a
  freshly loaded \<open>User\<close> instance, so with an empty memo.  Opaque identities (\<open>object()\<close>, \<open>uuid4()\<close>) are
  taken from the counter of the context.
\<close>

section \<open>State\<close>

record saved_context =
  sv_request :: "int option"
  sv_user :: "user option"
  sv_tenant :: "tenant option"
  sv_membership :: "membership option"
  sv_group :: "pk option"
  sv_all_accessible :: bool
  sv_sys_scope :: "int option"
  sv_issued :: "sysauth list"

record task =
  tk_tenant_id :: "pk option"
  tk_user_id :: "pk option"
  tk_all_accessible :: bool
  tk_tenant :: "tenant option"
  tk_user :: "user option"
  tk_entered :: bool
  tk_prev :: saved_context
  tk_issuer :: "int option"

datatype task_error =
  TenantDoesNotExist | UserDoesNotExist | InactivePrincipal | CannotAccessTenant
  | NotEntered | ActorBound | NoLiveTenantScope | BlankAuditField | NotIssuable

definition capture_context :: "ctx \<Rightarrow> saved_context" where
  "capture_context c = \<lparr>sv_request = cx_request c, sv_user = cx_user c, sv_tenant = cx_tenant c,
     sv_membership = cx_membership c, sv_group = cx_group c, sv_all_accessible = cx_all_accessible c,
     sv_sys_scope = cx_sys_scope c, sv_issued = cx_issued c\<rparr>"

text \<open>\<open>_restore_context\<close>: the setters also drop the descendant memo of \<^verbatim>\<open>core/context.py\<close>.\<close>

definition restore_context :: "task \<Rightarrow> ctx \<Rightarrow> ctx" where
  "restore_context t c =
     (let p = tk_prev t;
          c1 = c\<lparr>cx_issued := sv_issued p, cx_sys_scope := sv_sys_scope p, cx_request := sv_request p,
                 cx_user := sv_user p\<rparr>
      in set_current_all_accessible (sv_all_accessible p)
           (set_current_membership (sv_membership p)
             (set_current_tenant_group (sv_group p) (set_current_tenant (sv_tenant p) c1))))"

section \<open>Entering\<close>

text \<open>The isolated scope every task starts from.\<close>

definition isolate_context :: "ctx \<Rightarrow> ctx" where
  "isolate_context c =
     (let c1 = set_current_all_accessible False (set_current_membership None
                 (set_current_tenant_group None (set_current_tenant None c)))
      in c1\<lparr>cx_user := None, cx_sys_scope := Some (cx_objects c), cx_issued := [],
            cx_request := Some (cx_objects c + 1), cx_objects := cx_objects c + 2\<rparr>)"

definition load_tenant :: "tenancy \<Rightarrow> pk option \<Rightarrow> task_error + tenant option" where
  "load_tenant db tid =
     (case tid of
        None \<Rightarrow> Inr None
      | Some i \<Rightarrow> (case find_row tn_id i (filter tn_live (td_tenants db)) of
                     None \<Rightarrow> Inl TenantDoesNotExist
                   | Some t \<Rightarrow> Inr (Some t)))"

definition load_user :: "user list \<Rightarrow> pk option \<Rightarrow> task_error + user option" where
  "load_user users uid =
     (case uid of
        None \<Rightarrow> Inr None
      | Some i \<Rightarrow> (case find_row us_id i users of
                     None \<Rightarrow> Inl UserDoesNotExist
                   | Some u \<Rightarrow> if us_active u then Inr (Some u) else Inl InactivePrincipal))"

text \<open>\<open>_resolve_principal_and_tenant\<close>: the tenant, the principal, and what the authorization check left
  of the shared state.\<close>

definition resolve_principal_and_tenant ::
    "tenancy \<Rightarrow> user list \<Rightarrow> instant \<Rightarrow> task \<Rightarrow> ctx \<Rightarrow> authz
       \<Rightarrow> (task_error + tenant option \<times> user option) \<times> authz" where
  "resolve_principal_and_tenant db users now t c az =
     (case load_tenant db (tk_tenant_id t) of
        Inl e \<Rightarrow> (Inl e, az)
      | Inr tenant \<Rightarrow>
          (case load_user users (tk_user_id t) of
             Inl e \<Rightarrow> (Inl e, az)
           | Inr user \<Rightarrow>
               (case (tenant, user) of
                  (Some tn, Some u) \<Rightarrow>
                    if us_superuser u then (Inr (tenant, user), az)
                    else
                      (let (ids, w1) = accessible_tenant_ids db now (Some u)
                                         \<lparr>w_ctx = c, w_az = az, w_memo = fresh_memo\<rparr>
                       in if tn_id tn \<notin> set ids then (Inl CannotAccessTenant, w_az w1)
                          else
                            (let (covered, w2) = role_grant_covers_tenant db now (us_id u) tn w1
                             in if \<not> covered then (Inl CannotAccessTenant, w_az w2)
                                else (Inr (tenant, user), w_az w2)))
                | _ \<Rightarrow> (Inr (tenant, user), az))))"

definition bind_context :: "tenancy \<Rightarrow> task \<Rightarrow> ctx \<Rightarrow> ctx" where
  "bind_context db t c =
     (let c1 = (if tk_tenant t = None then set_current_all_accessible (tk_all_accessible t) c else c);
          c2 = c1\<lparr>cx_user := tk_user t\<rparr>
      in case tk_tenant t of
           None \<Rightarrow> c2
         | Some tn \<Rightarrow>
             (let c3 = set_current_tenant (Some tn) c2 in
              case tk_user t of
                None \<Rightarrow> c3
              | Some u \<Rightarrow>
                  (case List.find (\<lambda>m. mb_user m = us_id u \<and> tn_id (mb_tenant m) = tn_id tn \<and> mb_active m)
                          (td_memberships db) of
                     None \<Rightarrow> c3
                   | Some m \<Rightarrow> set_current_membership (Some m) c3)))"

text \<open>\<open>__enter__\<close>\<close>

definition task_enter ::
    "tenancy \<Rightarrow> user list \<Rightarrow> instant \<Rightarrow> task \<Rightarrow> ctx \<Rightarrow> authz \<Rightarrow> (task_error + unit) \<times> task \<times> ctx \<times> authz" where
  "task_enter db users now t0 c az =
     (let c1 = isolate_context c;
          t = t0\<lparr>tk_prev := capture_context c, tk_issuer := cx_sys_scope c1\<rparr>;
          (r, az1) = resolve_principal_and_tenant db users now t c1 az
      in case r of
           Inl e \<Rightarrow> (Inl e, t\<lparr>tk_entered := False\<rparr>, restore_context t c1, az1)
         | Inr (tenant, user) \<Rightarrow>
             (let t1 = t\<lparr>tk_tenant := tenant, tk_user := user\<rparr>
              in (Inr (), t1\<lparr>tk_entered := True\<rparr>, bind_context db t1 c1, az1)))"

text \<open>\<open>__exit__\<close>\<close>

definition task_exit :: "task \<Rightarrow> ctx \<Rightarrow> task \<times> ctx" where
  "task_exit t c = (t\<lparr>tk_entered := False\<rparr>, restore_context t c)"

section \<open>System authorization\<close>

text \<open>An argument that is no string is \<open>None\<close>.\<close>

definition audit_text :: "string option \<Rightarrow> bool" where
  "audit_text v = (case v of None \<Rightarrow> False | Some s \<Rightarrow> py_strip s \<noteq> [])"

definition authorize_system ::
    "task \<Rightarrow> string option \<Rightarrow> string option \<Rightarrow> string option \<Rightarrow> ctx \<Rightarrow> task_error + sysauth \<times> ctx" where
  "authorize_system t permission operation reason c =
     (if \<not> tk_entered t \<or> cx_request c = None then Inl NotEntered
      else if tk_user t \<noteq> None then Inl ActorBound
      else case tk_tenant t of
        None \<Rightarrow> Inl NoLiveTenantScope
      | Some tn \<Rightarrow>
          if map_option tn_id (cx_tenant c) \<noteq> Some (tn_id tn) then Inl NoLiveTenantScope
          else if \<not> (audit_text permission \<and> audit_text operation \<and> audit_text reason) then Inl BlankAuditField
          else (case issue_system_authorization (tn_id tn) (the permission) (the operation) (the reason)
                       (cx_request c) (tk_issuer t) c of
                  Inl _ \<Rightarrow> Inl NotIssuable
                | Inr r \<Rightarrow> Inr r))"

section \<open>Lemmas\<close>

lemma restore_after_capture:
  "tk_prev t = capture_context c \<Longrightarrow> capture_context (restore_context t c') = capture_context c"
  by (simp add: restore_context_def capture_context_def ctx_setters Let_def)

lemma enter_prev:
  "task_enter db users now t c az = (r, t', c', az') \<Longrightarrow> tk_prev t' = capture_context c"
  by (auto simp: task_enter_def Let_def split: prod.splits sum.splits)

lemma enter_failed_context:
  "task_enter db users now t c az = (Inl e, t', c', az') \<Longrightarrow>
     c' = restore_context t' (isolate_context c)"
  by (auto simp: task_enter_def restore_context_def Let_def split: prod.splits sum.splits)

lemma load_tenant_Some:
  "load_tenant db tid = Inr (Some t) \<Longrightarrow> tid = Some (tn_id t) \<and> t \<in> set (td_tenants db) \<and> tn_live t"
  by (auto simp: load_tenant_def dest!: find_row_SomeD split: option.splits)

lemma load_user_Some: "load_user users uid = Inr (Some u) \<Longrightarrow> uid = Some (us_id u) \<and> u \<in> set users \<and> us_active u"
  by (auto simp: load_user_def dest!: find_row_SomeD split: option.splits if_splits)

lemma load_given:
  shows "load_tenant db (Some i) \<noteq> Inr None" and "load_user users (Some i) \<noteq> Inr None"
  by (simp_all add: load_tenant_def load_user_def split: option.split)

lemma resolve_targets:
  assumes "resolve_principal_and_tenant db users now t c az = (Inr (tenant, user), az')"
  shows "load_tenant db (tk_tenant_id t) = Inr tenant \<and> load_user users (tk_user_id t) = Inr user"
  using assms by (auto simp: resolve_principal_and_tenant_def split: sum.splits option.splits if_splits prod.splits)

lemma enter_user:
  assumes "task_enter db users now t c az = (Inr (), t', c', az')"
  shows "load_user users (tk_user_id t) = Inr (cx_user c')"
proof -
  let ?t = "t\<lparr>tk_prev := capture_context c, tk_issuer := cx_sys_scope (isolate_context c)\<rparr>"
  from assms obtain tenant user where
    r: "resolve_principal_and_tenant db users now ?t (isolate_context c) az = (Inr (tenant, user), az')"
    and c': "c' = bind_context db (?t\<lparr>tk_tenant := tenant, tk_user := user\<rparr>) (isolate_context c)"
    by (auto simp: task_enter_def Let_def split: prod.splits sum.splits)
  have "cx_user c' = user" by (simp add: c' bind_context_def ctx_setters Let_def split: option.split)
  then show ?thesis using resolve_targets[OF r] by simp
qed

lemma role_grant_covers_ok:
  assumes w: "world_current db now uid w" and run: "role_grant_covers_tenant db now uid t w = (b, w')"
  shows "b \<longleftrightarrow> (\<exists>g \<in> set (applicable_query db now uid). covers_tenant (walk_desc (td_groups db)) now g t)"
proof -
  obtain gs w1 where a: "applicable_grants db now uid w = (gs, w1)" by (cases "applicable_grants db now uid w")
  note ok = applicable_grants_ok[OF conjunct1[OF w] a]
  have "gs = applicable_query db now uid" using ok(4) w by blast
  then show ?thesis using run desc_in_ok[OF ok(1)] by (simp add: role_grant_covers_tenant_def a)
qed

section \<open>Properties\<close>

text \<open>C36. A task leaves the surrounding context as it found it: after a failed setup, and after the exit
  from any body whatever it did to the context, the request id, user, tenant, membership, group,
  all-accessible flag and the active system authorizations are those captured on entry.\<close>

theorem task_context_restores:
  "case task_enter db users now t c az of
     (Inl e, t', c', az') \<Rightarrow> capture_context c' = capture_context c
   | (Inr _, t', c', az') \<Rightarrow> capture_context (snd (task_exit t' (body c'))) = capture_context c"
proof -
  obtain r t' c' az' where e: "task_enter db users now t c az = (r, t', c', az')" by (metis prod.exhaust)
  note prev = enter_prev[OF e]
  show ?thesis
  proof (cases r)
    case (Inl err)
    then have "c' = restore_context t' (isolate_context c)" using enter_failed_context e by blast
    then show ?thesis using restore_after_capture[OF prev] by (simp add: e Inl)
  next
    case (Inr _)
    then show ?thesis using restore_after_capture[OF prev] by (simp add: e task_exit_def)
  qed
qed

text \<open>C26. A user-bound tenant task runs confined to its tenant: when the setup succeeds, the context is
  bound to exactly the requested live tenant and active user, no group or all-accessible scope is
  inherited, a bound membership is an active one of that user in that tenant, and an ordinary user
  both reaches the tenant and holds a grant that covers it.\<close>

theorem user_task_confined:
  assumes "keyed tn_id (td_tenants db)" "cache_sound (td_groups db) (cx_tree_cache c)"
    and enter: "task_enter db users now t c az = (Inr (), t', c', az')"
    and "tk_tenant_id t = Some tid" "tk_user_id t = Some uid"
  shows "\<exists>tn u. cx_tenant c' = Some tn \<and> tn_id tn = tid \<and> tn_live tn \<and> cx_user c' = Some u \<and> us_id u = uid \<and> us_active u \<and>
    cx_group c' = None \<and> \<not> cx_all_accessible c' \<and>
    (\<forall>m. cx_membership c' = Some m \<longrightarrow> mb_user m = uid \<and> tn_id (mb_tenant m) = tid \<and> mb_active m) \<and>
    (us_superuser u \<or> (tid \<in> reachable db now uid \<and>
       (\<exists>g \<in> set (applicable_query db now uid). covers_tenant (walk_desc (td_groups db)) now g tn)))"
proof -
  let ?c1 = "isolate_context c"
  let ?t = "t\<lparr>tk_prev := capture_context c, tk_issuer := cx_sys_scope ?c1\<rparr>"
  from enter obtain tenant user where r: "resolve_principal_and_tenant db users now ?t ?c1 az = (Inr (tenant, user), az')"
    and c': "c' = bind_context db (?t\<lparr>tk_tenant := tenant, tk_user := user\<rparr>) ?c1"
    by (auto simp: task_enter_def Let_def split: prod.splits sum.splits)
  note tg = resolve_targets[OF r]
  have "tenant \<noteq> None" "user \<noteq> None"
    using tg assms(4,5) load_given(1)[of db tid] load_given(2)[of users uid]
    by auto
  then obtain tn u where tu: "tenant = Some tn" "user = Some u" by blast
  have tn: "tn_id tn = tid" "tn_live tn" and u: "us_id u = uid" "us_active u"
    using load_tenant_Some[of db "tk_tenant_id t" tn] load_user_Some[of users "tk_user_id t" u] tg tu assms(4,5) by auto
  have acc: "tid \<in> reachable db now uid \<and>
      (\<exists>g \<in> set (applicable_query db now uid). covers_tenant (walk_desc (td_groups db)) now g tn)"
    if ns: "\<not> us_superuser u"
  proof -
    let ?w = "\<lparr>w_ctx = ?c1, w_az = az, w_memo = fresh_memo\<rparr>"
    have w: "world_current db now (us_id u) ?w"
      using assms(1,2) by (simp add: world_ok_def isolate_context_def ctx_setters Let_def)
    obtain ids w1 where a: "accessible_tenant_ids db now (Some u) ?w = (ids, w1)" by (cases "accessible_tenant_ids db now (Some u) ?w")
    obtain b w2 where b: "role_grant_covers_tenant db now (us_id u) tn w1 = (b, w2)"
      by (cases "role_grant_covers_tenant db now (us_id u) tn w1")
    have ids: "tn_id tn \<in> set ids" "b"
      using r ns tg tu a b by (auto simp: resolve_principal_and_tenant_def split: if_splits)
    obtain v where a': "accessible_tenant_ids_with_expiry db now (Some u) ?w = ((ids, v), w1)"
      using a by (cases "accessible_tenant_ids_with_expiry db now (Some u) ?w") (auto simp: accessible_tenant_ids_def)
    have au: "us_authenticated u"
      using a ids by (cases "us_authenticated u") (auto simp: accessible_tenant_ids_def accessible_tenant_ids_with_expiry_def)
    note ok = accessible_with_expiry_ok[OF w au a']
    then show ?thesis using ids role_grant_covers_ok[OF _ b] tn(1) u(1) by auto
  qed
  have "cx_tenant c' = Some tn \<and> cx_user c' = Some u \<and> cx_group c' = None \<and> \<not> cx_all_accessible c' \<and>
      (\<forall>m. cx_membership c' = Some m \<longrightarrow> mb_user m = uid \<and> tn_id (mb_tenant m) = tid \<and> mb_active m)"
    using tn u by (auto simp: c' tu bind_context_def isolate_context_def ctx_setters Let_def find_Some_iff split: option.splits)
  then show ?thesis using tn u acc by blast
qed

definition sample_task :: task where
  "sample_task = \<lparr>tk_tenant_id = Some 2, tk_user_id = Some 9, tk_all_accessible = True, tk_tenant = None,
     tk_user = None, tk_entered = False, tk_prev = capture_context sample_ctx, tk_issuer = None\<rparr>"

lemma sample_ctx_ok: "keyed tn_id (td_tenants sample_tenancy)" "cache_sound (td_groups sample_tenancy) (cx_tree_cache sample_ctx)"
  using sample_world_ok[of 0 0] by (simp_all add: world_ok_def sample_world_def)

lemma sample_task_runs: "fst (task_enter sample_tenancy [sample_user] 50 sample_task sample_ctx sample_authz) = Inr ()"
  by code_simp

text \<open>The technician's task in the customer: the setup succeeds, and the grant that carries it is there.\<close>

theorem user_task_confined_witness:
  "case task_enter sample_tenancy [sample_user] 50 sample_task sample_ctx sample_authz of
     (r, t', c', az') \<Rightarrow> r = Inr () \<and> (\<exists>tn. cx_tenant c' = Some tn \<and> tn_id tn = 2 \<and>
       (\<exists>g \<in> set (applicable_query sample_tenancy 50 9). covers_tenant (walk_desc (td_groups sample_tenancy)) 50 g tn)) \<and>
       cx_user c' = Some sample_user \<and> \<not> cx_all_accessible c'"
proof -
  obtain r t' c' az' where e: "task_enter sample_tenancy [sample_user] 50 sample_task sample_ctx sample_authz = (r, t', c', az')"
    by (metis prod.exhaust)
  then have r: "r = Inr ()" using sample_task_runs by simp
  with e have ent: "task_enter sample_tenancy [sample_user] 50 sample_task sample_ctx sample_authz = (Inr (), t', c', az')" by simp
  have u: "cx_user c' = Some sample_user"
    using enter_user[OF ent] by (simp add: sample_task_def load_user_def sample_user_def)
  have ids: "tk_tenant_id sample_task = Some 2" "tk_user_id sample_task = Some 9" by (simp_all add: sample_task_def)
  have plain: "\<not> us_superuser sample_user" by (simp add: sample_user_def)
  obtain tn v where "cx_tenant c' = Some tn" "tn_id tn = 2" "cx_user c' = Some v" "\<not> cx_all_accessible c'"
    "us_superuser v \<or> (\<exists>g \<in> set (applicable_query sample_tenancy 50 9). covers_tenant (walk_desc (td_groups sample_tenancy)) 50 g tn)"
    using user_task_confined[OF sample_ctx_ok ent ids] by blast
  then show ?thesis using r u plain unfolding e by simp
qed

text \<open>A system authorization needs an actorless task bound to its live tenant, states a permission, an
  operation and a reason, is valid for exactly those in that tenant and request, and is worthless
  once the task has exited.\<close>

theorem system_authorization_confined:
  assumes enter: "task_enter db users now t c az = (Inr (), t', c', az')"
    and auth: "authorize_system t' (Some p) (Some op) (Some rs) c' = Inr (a, c'')"
    and outer: "\<And>s. cx_sys_scope c = Some s \<Longrightarrow> s < cx_objects c"
  shows "tk_user_id t = None \<and> (\<exists>tn. cx_tenant c' = Some tn \<and> tk_tenant_id t = Some (tn_id tn) \<and> tn_live tn \<and>
      (\<forall>tid p' op' rid. is_valid_for c'' a tid p' op' rid \<longleftrightarrow>
         tid = tn_id tn \<and> p' = p \<and> op' = op \<and> rid = cx_request c')) \<and>
    py_strip p \<noteq> [] \<and> py_strip op \<noteq> [] \<and> py_strip rs \<noteq> [] \<and>
    \<not> is_valid_for (snd (task_exit t' c'')) a tid2 p2 op2 rid2"
proof -
  let ?c1 = "isolate_context c"
  let ?t = "t\<lparr>tk_prev := capture_context c, tk_issuer := cx_sys_scope ?c1\<rparr>"
  from enter obtain tenant user where r: "resolve_principal_and_tenant db users now ?t ?c1 az = (Inr (tenant, user), az')"
    and t': "t' = ?t\<lparr>tk_tenant := tenant, tk_user := user, tk_entered := True\<rparr>"
    and c': "c' = bind_context db (?t\<lparr>tk_tenant := tenant, tk_user := user\<rparr>) ?c1"
    by (auto simp: task_enter_def Let_def split: prod.splits sum.splits)
  note tg = resolve_targets[OF r]
  from auth obtain tn where tn: "tenant = Some tn" "user = None" "map_option tn_id (cx_tenant c') = Some (tn_id tn)"
    and audit: "py_strip p \<noteq> []" "py_strip op \<noteq> []" "py_strip rs \<noteq> []"
    and iss: "issue_system_authorization (tn_id tn) p op rs (cx_request c') (tk_issuer t') c' = Inr (a, c'')"
    by (auto simp: authorize_system_def audit_text_def t' split: if_splits option.splits sum.splits)
  have noactor: "tk_user_id t = None"
    using tg tn(2) by (auto simp: load_user_def split: option.splits if_splits)
  have ten: "tk_tenant_id t = Some (tn_id tn)" "tn_live tn"
    using tg tn(1) load_tenant_Some[of db "tk_tenant_id t" tn] by auto
  have bound: "cx_tenant c' = Some tn" by (simp add: c' tn bind_context_def ctx_setters Let_def)
  have issuer: "sa_issuer a = cx_objects c"
    using iss by (auto simp: issue_system_authorization_def t' isolate_context_def Let_def split: option.splits if_splits)
  have prev: "tk_prev t' = capture_context c" using enter_prev[OF enter] .
  have "\<not> is_valid_for (snd (task_exit t' c'')) a tid2 p2 op2 rid2"
  proof -
    have "cx_sys_scope (snd (task_exit t' c'')) = cx_sys_scope c"
      by (simp add: task_exit_def restore_context_def prev capture_context_def ctx_setters Let_def)
    then show ?thesis using outer issuer by (intro foreign_scope_refuses) auto
  qed
  moreover have "is_valid_for c'' a tid p' op' rid \<longleftrightarrow> tid = tn_id tn \<and> p' = p \<and> op' = op \<and> rid = cx_request c'"
    for tid p' op' rid
    using issued_valid_iff[OF iss audit(3)] by blast
  ultimately show ?thesis using noactor ten bound audit by blast
qed

theorem system_authorization_confined_witness:
  "case task_enter sample_tenancy [] 50 (sample_task\<lparr>tk_user_id := None\<rparr>) sample_ctx sample_authz of
     (r, t', c', az') \<Rightarrow>
       (case authorize_system t' (Some ''p'') (Some ''sync'') (Some ''nightly'') c' of
          Inl _ \<Rightarrow> False
        | Inr (a, c'') \<Rightarrow> is_valid_for c'' a 2 ''p'' ''sync'' (Some 6) \<and>
            \<not> is_valid_for (snd (task_exit t' c'')) a 2 ''p'' ''sync'' (Some 6))"
proof -
  let ?e = "task_enter sample_tenancy [] 50 (sample_task\<lparr>tk_user_id := None\<rparr>) sample_ctx sample_authz"
  obtain r t' c' az' where e: "?e = (r, t', c', az')" by (metis prod.exhaust)
  note defs = task_enter_def resolve_principal_and_tenant_def load_tenant_def load_user_def bind_context_def
    isolate_context_def sample_task_def sample_tenancy_def sample_tenants tn_live_def sample_ctx_def ctx_setters Let_def
  have facts: "r = Inr ()" "tk_entered t'" "tk_user t' = None" "tk_tenant t' = Some sample_customer" "tk_issuer t' = Some 5"
    "cx_request c' = Some 6" "cx_tenant c' = Some sample_customer" "cx_sys_scope c' = Some 5"
    using e by (auto simp: defs)
  have texts: "py_strip ''p'' \<noteq> []" "py_strip ''sync'' \<noteq> []" "py_strip ''nightly'' \<noteq> []"
    by (simp_all add: py_strip_def py_isspace_def)
  obtain a c'' where a: "authorize_system t' (Some ''p'') (Some ''sync'') (Some ''nightly'') c' = Inr (a, c'')"
    by (simp add: authorize_system_def audit_text_def facts texts issue_system_authorization_def Let_def)
  have enter: "?e = (Inr (), t', c', az')" using e facts(1) by simp
  have outer: "\<And>s. cx_sys_scope sample_ctx = Some s \<Longrightarrow> s < cx_objects sample_ctx" by (simp add: sample_ctx_def)
  show ?thesis
    using system_authorization_confined[OF enter a outer, of 2 "''p''" "''sync''" "Some 6"] facts(6,7)
    by (simp add: e a) (auto simp: sample_customer_def)
qed

end
