(* ===== verification/Scoping.thy ===== *)
theory Scoping
  imports Backend
begin

text \<open>
  Tenant scoping of querysets, \<^verbatim>\<open>core/managers.py\<close>: the ambient context resolved into one \<open>Scope\<close>,
  the per-model scoping declaration, and \<open>for_scope\<close>, which narrows a queryset (here a list of rows)
  to the tenants the scope allows.  A row carries its tenant, its tenant group, its
  \<open>filter_tenants\<close> and the tenant its \<open>tenant_lookup\<close> path leads to.
\<close>

section \<open>Scopes\<close>

datatype scope_kind = KindTenant | KindGroup | KindAllAccessible | KindSystem | KindDenied

record scope =
  sp_kind :: scope_kind
  sp_user :: "user option"
  sp_tenant :: "tenant option"
  sp_group :: "pk option"

text \<open>\<open>Scope.current()\<close>\<close>

definition current_scope :: "ctx \<Rightarrow> scope" where
  "current_scope c =
     (let tenant = cx_tenant c; grp = cx_group c; all_accessible = cx_all_accessible c; user = cx_user c;
          mk = (\<lambda>k t g. \<lparr>sp_kind = k, sp_user = user, sp_tenant = t, sp_group = g\<rparr>) in
      if tenant \<noteq> None \<or> grp \<noteq> None \<or> all_accessible
      then (if scope_conflict c user then mk KindDenied None None
            else if tenant \<noteq> None then mk KindTenant tenant None
            else if grp \<noteq> None then mk KindGroup None grp
            else mk KindAllAccessible None None)
      else if user \<noteq> None \<and> \<not> us_superuser (the user) then mk KindDenied None None
      else mk KindSystem None None)"

section \<open>Model declarations\<close>

datatype strategy = SelfTenant | SelfGroup | ByField | ByLookup | NoTenantColumn

record scope_decl =
  dc_strategy :: strategy
  dc_lookup :: "string option"
  dc_allow_global :: bool
  dc_deny_global :: bool
  dc_has_tenant_group :: bool
  dc_has_filter_tenants :: bool

text \<open>What \<open>tenant_scope_declaration\<close> reads from a model class.\<close>

record model_meta =
  mm_scope_self :: "string option"
  mm_lookup :: "string option"
  mm_fields :: "string list"
  mm_allow_global :: bool
  mm_deny_global :: bool

definition has_field :: "model_meta \<Rightarrow> string \<Rightarrow> bool" where
  "has_field m name \<longleftrightarrow> name \<in> set (mm_fields m)"

definition tenant_scope_declaration :: "model_meta \<Rightarrow> scope_decl" where
  "tenant_scope_declaration m =
     (let plain = (\<lambda>s. \<lparr>dc_strategy = s, dc_lookup = None, dc_allow_global = False, dc_deny_global = False,
                         dc_has_tenant_group = False, dc_has_filter_tenants = False\<rparr>) in
      if mm_scope_self m = Some ''tenant'' then plain SelfTenant
      else if mm_scope_self m = Some ''group'' then plain SelfGroup
      else
        (let has_tenant = has_field m ''tenant'';
             truthy_lookup = (case mm_lookup m of None \<Rightarrow> False | Some l \<Rightarrow> l \<noteq> []) in
         \<lparr>dc_strategy = (if has_tenant then ByField else if truthy_lookup then ByLookup else NoTenantColumn),
          dc_lookup = (if has_tenant then None else mm_lookup m),
          dc_allow_global = mm_allow_global m, dc_deny_global = mm_deny_global m,
          dc_has_tenant_group = has_field m ''tenant_group'',
          dc_has_filter_tenants = (has_tenant \<and> has_field m ''filter_tenants'')\<rparr>))"

section \<open>Group walks\<close>

text \<open>\<open>_descendant_group_ids\<close>, memoised in the context variable of \<^verbatim>\<open>core/context.py\<close>.\<close>

definition descendant_group_ids :: "tenant_group list \<Rightarrow> pk \<Rightarrow> ctx \<Rightarrow> pk list \<times> ctx" where
  "descendant_group_ids groups g c =
     (let cache = (case cx_scope_cache c of None \<Rightarrow> Map.empty | Some m \<Rightarrow> m) in
      case cache g of
        Some ids \<Rightarrow> (ids, c\<lparr>cx_scope_cache := Some cache\<rparr>)
      | None \<Rightarrow>
          (let ids = descend (visible_groups True groups) [g] [g]
           in (ids, c\<lparr>cx_scope_cache := Some (cache(g \<mapsto> ids))\<rparr>)))"

text \<open>\<open>expand_to_ancestors\<close>: the parents of the live rows of the frontier, until nothing is new.\<close>

definition live_parent_ids :: "tenant_group list \<Rightarrow> pk list \<Rightarrow> pk list" where
  "live_parent_ids groups frontier =
     concat (map (\<lambda>r. case tg_parent r of None \<Rightarrow> [] | Some p \<Rightarrow> [p])
       (filter (\<lambda>r. tg_id r \<in> set frontier \<and> tg_live r) groups))"

function expand_to_ancestors :: "tenant_group list \<Rightarrow> pk list \<Rightarrow> pk list \<Rightarrow> pk list" where
  "expand_to_ancestors groups visible frontier =
     (if frontier = [] then visible
      else
        (let visible' = visible @ frontier
         in expand_to_ancestors groups visible'
              (filter (\<lambda>p. p \<notin> set visible') (live_parent_ids groups frontier))))"
  by pat_completeness auto
termination
proof (relation "measures [\<lambda>(groups, visible, frontier). card (set (live_parent_ids groups (map tg_id groups)) - (set visible \<union> set frontier)),
                           \<lambda>(_, _, frontier). length frontier]", goal_cases)
  case 1
  then show ?case by simp
next
  case (2 groups visible frontier visible')
  let ?all = "set (live_parent_ids groups (map tg_id groups))"
  let ?new = "filter (\<lambda>p. p \<notin> set visible') (live_parent_ids groups frontier)"
  have sub: "set ?new \<subseteq> ?all" by (force simp: live_parent_ids_def)
  show ?case
  proof (cases "?new = []")
    case True
    then show ?thesis using 2 by simp
  next
    case False
    then obtain x where x: "x \<in> set ?new" by (cases ?new) auto
    then have "x \<in> ?all" "x \<notin> set visible \<union> set frontier" using sub 2 by auto
    then have "card (?all - ((set visible \<union> set frontier) \<union> set ?new)) < card (?all - (set visible \<union> set frontier))"
      using x by (intro remaining_decreases[of _ x]) auto
    then show ?thesis using 2 by (simp add: Un_commute Un_left_commute)
  qed
qed

declare expand_to_ancestors.simps [simp del]

section \<open>Allowed tenants\<close>

definition tenant_ids_in_groups :: "tenant list \<Rightarrow> pk list \<Rightarrow> pk list" where
  "tenant_ids_in_groups tenants group_ids =
     map tn_id (filter (\<lambda>t. (case tn_group t of None \<Rightarrow> False | Some g \<Rightarrow> g \<in> set group_ids) \<and> tn_live t) tenants)"

definition member_visible_group_ids ::
    "tenancy \<Rightarrow> instant \<Rightarrow> user \<Rightarrow> world \<Rightarrow> pk list \<times> world" where
  "member_visible_group_ids db now u w =
     (let (accessible, w1) = accessible_tenant_ids db now (Some u) w
      in (concat (map (\<lambda>t. case tn_group t of None \<Rightarrow> [] | Some g \<Rightarrow> [g])
            (filter (\<lambda>t. tn_id t \<in> set accessible) (td_tenants db))), w1))"

definition group_scope_tenant_ids ::
    "tenancy \<Rightarrow> instant \<Rightarrow> pk \<Rightarrow> user option \<Rightarrow> world \<Rightarrow> pk list \<times> world" where
  "group_scope_tenant_ids db now grp user w =
     (let (group_ids, c1) = descendant_group_ids (td_groups db) grp (w_ctx w); w1 = w\<lparr>w_ctx := c1\<rparr> in
      case user of
        None \<Rightarrow> (tenant_ids_in_groups (td_tenants db) group_ids, w1)
      | Some u \<Rightarrow>
          if us_superuser u then (tenant_ids_in_groups (td_tenants db) group_ids, w1)
          else
            (let w2 = synchronize (us_id u) w1 in
             case um_group_scope_ids (w_memo w2) grp of
               Some cached \<Rightarrow> (cached, w2)
             | None \<Rightarrow>
                 (let (accessible, w3) = accessible_tenant_ids db now (Some u) w2;
                      ids = filter (\<lambda>x. x \<in> set accessible) (tenant_ids_in_groups (td_tenants db) group_ids)
                  in (ids, w3\<lparr>w_memo := (w_memo w3)\<lparr>um_group_scope_ids := (um_group_scope_ids (w_memo w3))(grp \<mapsto> ids)\<rparr>\<rparr>))))"

definition all_accessible_tenant_ids ::
    "tenancy \<Rightarrow> instant \<Rightarrow> user option \<Rightarrow> world \<Rightarrow> pk list \<times> world" where
  "all_accessible_tenant_ids db now user w =
     (case user of
        None \<Rightarrow> ([], w)
      | Some u \<Rightarrow> if us_authenticated u \<and> \<not> us_superuser u then accessible_tenant_ids db now (Some u) w else ([], w))"

definition resolve_allowed_tenant_ids ::
    "tenancy \<Rightarrow> instant \<Rightarrow> scope \<Rightarrow> world \<Rightarrow> pk list \<times> world" where
  "resolve_allowed_tenant_ids db now s w =
     (case sp_kind s of
        KindTenant \<Rightarrow> (case sp_tenant s of None \<Rightarrow> ([], w) | Some t \<Rightarrow> ([tn_id t], w))
      | KindGroup \<Rightarrow> (case sp_group s of None \<Rightarrow> ([], w) | Some g \<Rightarrow> group_scope_tenant_ids db now g (sp_user s) w)
      | _ \<Rightarrow> all_accessible_tenant_ids db now (sp_user s) w)"

text \<open>\<open>_all_accessible_group_ids\<close>; the key is the sorted tuple of the allowed ids.\<close>

definition all_accessible_group_ids ::
    "tenancy \<Rightarrow> user option \<Rightarrow> pk list \<Rightarrow> world \<Rightarrow> pk list \<times> world" where
  "all_accessible_group_ids db user allowed_tenant_ids w =
     (case user of
        None \<Rightarrow> ([], w)
      | Some u \<Rightarrow>
          (let w1 = synchronize (us_id u) w; tenant_key = sort allowed_tenant_ids;
               cached = um_all_accessible_group_ids (w_memo w1) in
           if cached \<noteq> None \<and> fst (the cached) = tenant_key then (snd (the cached), w1)
           else
             (let own = concat (map (\<lambda>t. case tn_group t of None \<Rightarrow> [] | Some g \<Rightarrow> [g])
                          (filter (\<lambda>t. tn_id t \<in> set tenant_key) (td_tenants db)));
                  ids = concat (map (\<lambda>g. get_ancestor_tenant_group_ids (td_groups db) (Some g) True) own)
              in (ids, w1\<lparr>w_memo := (w_memo w1)\<lparr>um_all_accessible_group_ids := Some (tenant_key, ids)\<rparr>\<rparr>))))"

section \<open>Rows\<close>

record scoped_row =
  sr_id :: pk
  sr_tenant :: "pk option"
  sr_group :: "pk option"
  sr_filter_tenants :: "pk list"
  sr_lookup :: "string \<Rightarrow> pk option"

definition scope_tenant_group_rows ::
    "tenancy \<Rightarrow> instant \<Rightarrow> scope \<Rightarrow> scoped_row list \<Rightarrow> world \<Rightarrow> scoped_row list \<times> world" where
  "scope_tenant_group_rows db now s rows w =
     (let unrestricted = (case sp_user s of None \<Rightarrow> True | Some u \<Rightarrow> us_superuser u);
          only = (\<lambda>ids. filter (\<lambda>r. sr_id r \<in> set ids) rows);
          expand = (\<lambda>seed. expand_to_ancestors (td_groups db) [] seed);
          visible = (\<lambda>w. case sp_user s of None \<Rightarrow> ([], w) | Some u \<Rightarrow> member_visible_group_ids db now u w) in
      case (sp_kind s, sp_group s) of
        (KindGroup, Some g) \<Rightarrow>
          (let (sub, c1) = descendant_group_ids (td_groups db) g (w_ctx w); w1 = w\<lparr>w_ctx := c1\<rparr>;
               scope_ids = expand sub in
           if unrestricted then (only scope_ids, w1)
           else (let (seed, w2) = visible w1
                 in (only (filter (\<lambda>x. x \<in> set (expand seed)) scope_ids), w2)))
      | _ \<Rightarrow>
          if unrestricted then (rows, w)
          else (let (seed, w1) = visible w in (only (expand seed), w1)))"

definition scope_by_group_field ::
    "tenancy \<Rightarrow> scope \<Rightarrow> scope_decl \<Rightarrow> pk list \<Rightarrow> scoped_row list \<Rightarrow> world \<Rightarrow> scoped_row list \<times> world" where
  "scope_by_group_field db s d allowed_tenant_ids rows w =
     (if \<not> dc_has_tenant_group d then (rows, w)
      else
        (let (group_ids, w1) =
           (case sp_kind s of
              KindGroup \<Rightarrow> (case sp_group s of None \<Rightarrow> ([], w) | Some g \<Rightarrow>
                (let (ids, c1) = descendant_group_ids (td_groups db) g (w_ctx w) in (ids, w\<lparr>w_ctx := c1\<rparr>)))
            | KindTenant \<Rightarrow> (case Option.bind (sp_tenant s) tn_group of None \<Rightarrow> ([], w) | Some g \<Rightarrow>
                (let (ids, c1) = descendant_group_ids (td_groups db) g (w_ctx w) in (ids, w\<lparr>w_ctx := c1\<rparr>)))
            | KindAllAccessible \<Rightarrow> all_accessible_group_ids db (sp_user s) allowed_tenant_ids w
            | _ \<Rightarrow> ([], w))
         in (filter (\<lambda>r. case sr_group r of None \<Rightarrow> True | Some g \<Rightarrow> g \<in> set group_ids) rows, w1)))"

definition in_ids :: "pk option \<Rightarrow> pk list \<Rightarrow> bool" where
  "in_ids x ids = (case x of None \<Rightarrow> False | Some i \<Rightarrow> i \<in> set ids)"

definition scope_by_tenant_field :: "scope_decl \<Rightarrow> pk list \<Rightarrow> scoped_row list \<Rightarrow> scoped_row list" where
  "scope_by_tenant_field d allowed rows =
     (if dc_has_filter_tenants d
      then filter (\<lambda>r. in_ids (sr_tenant r) allowed \<or> (\<exists>x \<in> set (sr_filter_tenants r). x \<in> set allowed)
                       \<or> (dc_allow_global d \<and> sr_tenant r = None \<and> sr_filter_tenants r = [])) rows
      else filter (\<lambda>r. in_ids (sr_tenant r) allowed \<or> (dc_allow_global d \<and> sr_tenant r = None)) rows)"

definition scope_by_lookup :: "scope_decl \<Rightarrow> pk list \<Rightarrow> scoped_row list \<Rightarrow> scoped_row list" where
  "scope_by_lookup d allowed rows =
     (case dc_lookup d of
        None \<Rightarrow> []
      | Some path \<Rightarrow> filter (\<lambda>r. in_ids (sr_lookup r path) allowed \<or> (\<not> dc_deny_global d \<and> sr_lookup r path = None)) rows)"

definition for_scope ::
    "tenancy \<Rightarrow> instant \<Rightarrow> model_meta \<Rightarrow> scope \<Rightarrow> scoped_row list \<Rightarrow> world \<Rightarrow> scoped_row list \<times> world" where
  "for_scope db now model s rows w =
     (if sp_kind s = KindDenied then ([], w)
      else if sp_kind s = KindSystem then (rows, w)
      else
        (let d = tenant_scope_declaration model;
             (allowed, w1) = resolve_allowed_tenant_ids db now s w in
         if dc_strategy d = SelfTenant then (filter (\<lambda>r. sr_id r \<in> set allowed) rows, w1)
         else if dc_strategy d = SelfGroup then scope_tenant_group_rows db now s rows w1
         else
           (let (qs, w2) = scope_by_group_field db s d allowed rows w1 in
            if dc_strategy d = ByField then (scope_by_tenant_field d allowed qs, w2)
            else if dc_strategy d = ByLookup then (scope_by_lookup d allowed qs, w2)
            else (qs, w2))))"

definition filter_by_tenant ::
    "tenancy \<Rightarrow> instant \<Rightarrow> model_meta \<Rightarrow> scoped_row list \<Rightarrow> world \<Rightarrow> scoped_row list \<times> world" where
  "filter_by_tenant db now model rows w = for_scope db now model (current_scope (w_ctx w)) rows w"

section \<open>Lemmas\<close>

definition scope_cache_sound :: "tenant_group list \<Rightarrow> ctx \<Rightarrow> bool" where
  "scope_cache_sound groups c \<longleftrightarrow>
     (\<forall>m g ids. cx_scope_cache c = Some m \<longrightarrow> m g = Some ids \<longrightarrow> set ids = set (descend (visible_groups True groups) [g] [g]))"

lemma descendant_group_ids_ok:
  assumes "scope_cache_sound groups c" "descendant_group_ids groups g c = (ids, c')"
  shows "set ids = set (descend (visible_groups True groups) [g] [g])" "cx_tree_cache c' = cx_tree_cache c"
  using assms by (auto simp: descendant_group_ids_def scope_cache_sound_def Let_def split: option.splits)

lemma mem_tenant_ids_in_groups:
  "x \<in> set (tenant_ids_in_groups tenants gs) \<longleftrightarrow>
     (\<exists>t \<in> set tenants. tn_live t \<and> tn_id t = x \<and> (\<exists>g. tn_group t = Some g \<and> g \<in> set gs))"
  by (auto simp: tenant_ids_in_groups_def split: option.splits)

lemma accessible_ids_now:
  assumes "current db now u w" "us_authenticated u" "accessible_tenant_ids db now (Some u) w = (ids, w')"
  shows "set ids = reachable db now (us_id u)"
proof -
  obtain r where "accessible_tenant_ids_with_expiry db now (Some u) w = (r, w')" "ids = fst r"
    using assms(3) by (auto simp: accessible_tenant_ids_def split: prod.splits)
  then show ?thesis using accessible_with_expiry_ok[OF assms(1,2)] by blast
qed

lemma reach_ids:
  assumes "keyed tn_id (td_tenants db)"
  shows "(\<exists>t \<in> set (td_tenants db). tn_live t \<and> tn_id t = x \<and> P t) \<and> x \<in> reachable db now uid \<longleftrightarrow>
    x \<in> tn_id ` {t \<in> reach_tenants db now uid. P t}"
  by (auto simp: reach_tenants_def)

lemma reach_ids_live:
  assumes "keyed tn_id (td_tenants db)"
  shows "x \<in> reachable db now uid \<longleftrightarrow> x \<in> tn_id ` reach_tenants db now uid"
  by (auto simp: reach_tenants_def reachable_def membership_tenant_ids_def covered_in_table_def)

lemma group_scope_tenant_ids_ok:
  assumes w: "current db now u w" and u: "us_authenticated u" "\<not> us_superuser u"
    and c: "scope_cache_sound (td_groups db) (w_ctx w)"
    and run: "group_scope_tenant_ids db now grp (Some u) w = (ids, w')"
  shows "set ids = tn_id ` {t \<in> reach_tenants db now (us_id u). in_walk db grp t}"
proof -
  obtain gids c1 where d: "descendant_group_ids (td_groups db) grp (w_ctx w) = (gids, c1)"
    by (cases "descendant_group_ids (td_groups db) grp (w_ctx w)")
  note dok = descendant_group_ids_ok[OF c d]
  let ?w1 = "w\<lparr>w_ctx := c1\<rparr>"
  have w2: "current db now u (synchronize (us_id u) ?w1)"
    using w dok(2) world_ok_set_ctx by (intro current_synchronize) simp
  show ?thesis
  proof (cases "um_group_scope_ids (w_memo (synchronize (us_id u) ?w1)) grp")
    case (Some cached)
    then have "ids = cached" using run d u by (simp add: group_scope_tenant_ids_def Let_def)
    then show ?thesis using currentD(4)[OF conjunct2[OF w2] Some] by simp
  next
    case None
    obtain acc w3 where a: "accessible_tenant_ids db now (Some u) (synchronize (us_id u) ?w1) = (acc, w3)"
      by (cases "accessible_tenant_ids db now (Some u) (synchronize (us_id u) ?w1)")
    have "ids = filter (\<lambda>x. x \<in> set acc) (tenant_ids_in_groups (td_tenants db) gids)"
      using run d u None a by (simp add: group_scope_tenant_ids_def Let_def)
    moreover have "set acc = reachable db now (us_id u)" by (rule accessible_ids_now[OF w2 u(1) a])
    moreover have k: "keyed tn_id (td_tenants db)" using w world_okD(1) by blast
    moreover have "x \<in> set (tenant_ids_in_groups (td_tenants db) gids) \<longleftrightarrow>
        (\<exists>t \<in> set (td_tenants db). tn_live t \<and> tn_id t = x \<and> in_walk db grp t)" for x
      by (simp add: mem_tenant_ids_in_groups in_walk_def dok(1))
    ultimately have "x \<in> set ids \<longleftrightarrow> x \<in> tn_id ` {t \<in> reach_tenants db now (us_id u). in_walk db grp t}" for x
      using reach_ids[OF k, of x "in_walk db grp" now "us_id u"] by auto
    then show ?thesis by blast
  qed
qed

section \<open>Properties\<close>

text \<open>C4. Scoped querysets show exactly the rows of the scope.  For an authenticated user who is no superuser, with memos that hold nothing
  expired, and a model whose only scope field is its tenant (no \<open>tenant_group\<close> or \<open>filter_tenants\<close> field and no scope of its own,
  which leaves out suppliers, templates and journal entries), a row is visible exactly when a scope is active and not contradictory, and
  the row belongs to the active tenant, or (group scope) to an accessible tenant of the group, or
  (all-accessible scope) to an accessible tenant, or is a global row of a model that shares them.\<close>

theorem scoped_rows_exact:
  assumes "world_ok db now (us_id u) w" "memo_current db now (us_id u) (w_memo w)"
    and "scope_cache_sound (td_groups db) (w_ctx w)"
    and "cx_user (w_ctx w) = Some u" "us_authenticated u" "\<not> us_superuser u"
    and "mm_scope_self model = None" "has_field model ''tenant''"
    and "\<not> has_field model ''tenant_group''" "\<not> has_field model ''filter_tenants''"
  shows "r \<in> set (fst (filter_by_tenant db now model rows w)) \<longleftrightarrow>
    r \<in> set rows \<and> \<not> scope_conflict (w_ctx w) (Some u) \<and>
    (cx_tenant (w_ctx w) \<noteq> None \<or> cx_group (w_ctx w) \<noteq> None \<or> cx_all_accessible (w_ctx w)) \<and>
    ((mm_allow_global model \<and> sr_tenant r = None) \<or>
     (\<exists>x. sr_tenant r = Some x \<and>
        (case cx_tenant (w_ctx w) of
           Some t \<Rightarrow> x = tn_id t
         | None \<Rightarrow>
             (case cx_group (w_ctx w) of
                Some grp \<Rightarrow> x \<in> tn_id ` {t \<in> reach_tenants db now (us_id u). in_walk db grp t}
              | None \<Rightarrow> x \<in> tn_id ` reach_tenants db now (us_id u)))))"
proof -
  let ?c = "w_ctx w" and ?s = "current_scope (w_ctx w)"
  have d: "dc_strategy (tenant_scope_declaration model) = ByField" "\<not> dc_has_tenant_group (tenant_scope_declaration model)"
    "\<not> dc_has_filter_tenants (tenant_scope_declaration model)"
    "dc_allow_global (tenant_scope_declaration model) = mm_allow_global model"
    using assms(7-10) by (simp_all add: tenant_scope_declaration_def Let_def)
  obtain ids w1 where a: "resolve_allowed_tenant_ids db now ?s w = (ids, w1)" by (cases "resolve_allowed_tenant_ids db now ?s w")
  have open_scope: "r \<in> set (fst (filter_by_tenant db now model rows w)) \<longleftrightarrow>
      r \<in> set rows \<and> (in_ids (sr_tenant r) ids \<or> (mm_allow_global model \<and> sr_tenant r = None))"
    if "sp_kind ?s \<noteq> KindDenied" "sp_kind ?s \<noteq> KindSystem"
    using that d a by (simp add: filter_by_tenant_def for_scope_def scope_by_group_field_def scope_by_tenant_field_def Let_def)
  have k: "keyed tn_id (td_tenants db)" using assms(1) world_okD(1) by blast
  consider (denied) "scope_conflict ?c (Some u) \<or> (cx_tenant ?c = None \<and> cx_group ?c = None \<and> \<not> cx_all_accessible ?c)"
    | (tenant) t where "\<not> scope_conflict ?c (Some u)" "cx_tenant ?c = Some t"
    | (grp) g where "\<not> scope_conflict ?c (Some u)" "cx_tenant ?c = None" "cx_group ?c = Some g"
    | (all) "\<not> scope_conflict ?c (Some u)" "cx_tenant ?c = None" "cx_group ?c = None" "cx_all_accessible ?c"
    by (cases "cx_tenant ?c"; cases "cx_group ?c") auto
  then show ?thesis
  proof cases
    case denied
    then have "sp_kind ?s = KindDenied"
      using assms(4,6) by (auto simp: current_scope_def Let_def scope_conflict_def split: if_splits)
    then show ?thesis using denied by (auto simp: filter_by_tenant_def for_scope_def)
  next
    case tenant
    then have s: "sp_kind ?s = KindTenant" "sp_tenant ?s = Some t"
      using assms(4) by (auto simp: current_scope_def Let_def)
    then have "ids = [tn_id t]" using a by (simp add: resolve_allowed_tenant_ids_def)
    then show ?thesis using open_scope s tenant by (auto simp: in_ids_def split: option.splits)
  next
    case grp
    then have s: "sp_kind ?s = KindGroup" "sp_group ?s = Some g" "sp_user ?s = Some u"
      using assms(4) by (auto simp: current_scope_def Let_def)
    have run: "group_scope_tenant_ids db now g (Some u) w = (ids, w1)"
      using a s by (simp add: resolve_allowed_tenant_ids_def)
    have "set ids = tn_id ` {t \<in> reach_tenants db now (us_id u). in_walk db g t}"
      by (rule group_scope_tenant_ids_ok[OF _ assms(5,6,3) run]) (use assms(1,2) in blast)
    then show ?thesis using open_scope s grp by (auto simp: in_ids_def split: option.splits)
  next
    case all
    then have s: "sp_kind ?s = KindAllAccessible" "sp_user ?s = Some u"
      using assms(4) by (auto simp: current_scope_def Let_def)
    have run: "accessible_tenant_ids db now (Some u) w = (ids, w1)"
      using a s assms(5,6) by (simp add: resolve_allowed_tenant_ids_def all_accessible_tenant_ids_def)
    have "set ids = reachable db now (us_id u)"
      by (rule accessible_ids_now[OF _ assms(5) run]) (use assms(1,2) in blast)
    then have "x \<in> set ids \<longleftrightarrow> x \<in> tn_id ` reach_tenants db now (us_id u)" for x
      using reach_ids_live[OF k] by blast
    then show ?thesis using open_scope s all by (auto simp: in_ids_def split: option.splits)
  qed
qed

definition asset_model :: model_meta where
  "asset_model = \<lparr>mm_scope_self = None, mm_lookup = None, mm_fields = [''id'', ''tenant''],
     mm_allow_global = False, mm_deny_global = False\<rparr>"

definition asset_row :: "pk \<Rightarrow> pk option \<Rightarrow> scoped_row" where
  "asset_row i t = \<lparr>sr_id = i, sr_tenant = t, sr_group = None, sr_filter_tenants = [], sr_lookup = Map.empty\<rparr>"

definition member_world :: world where
  "member_world = sample_world\<lparr>w_ctx := sample_ctx\<lparr>cx_tenant := None, cx_group := Some 2, cx_user := Some sample_user\<rparr>\<rparr>"

lemma member_world_ok:
  "world_ok sample_tenancy 50 (us_id sample_user) member_world"
  "memo_current sample_tenancy 50 (us_id sample_user) (w_memo member_world)"
  "scope_cache_sound (td_groups sample_tenancy) (w_ctx member_world)"
  "cx_user (w_ctx member_world) = Some sample_user" "us_authenticated sample_user" "\<not> us_superuser sample_user"
  using sample_world_ok[of 50 "us_id sample_user"]
  by (simp_all add: member_world_def world_ok_def sample_world_def scope_cache_sound_def sample_ctx_def sample_user_def)

theorem scoped_rows_exact_witness:
  "asset_row 8 (Some 3) \<notin> set (fst (filter_by_tenant sample_tenancy 50 asset_model
     [asset_row 7 (Some 2), asset_row 8 (Some 3), asset_row 9 None] member_world)) \<and>
   asset_row 9 None \<notin> set (fst (filter_by_tenant sample_tenancy 50 asset_model
     [asset_row 7 (Some 2), asset_row 8 (Some 3), asset_row 9 None] member_world))"
proof -
  have m: "mm_scope_self asset_model = None" "has_field asset_model ''tenant''"
    "\<not> has_field asset_model ''tenant_group''" "\<not> has_field asset_model ''filter_tenants''"
    by (simp_all add: asset_model_def has_field_def)
  note app = scoped_rows_exact[OF member_world_ok m]
  have "3 \<notin> reachable sample_tenancy 50 9"
  proof -
    have "\<not> covers_tenant (walk_desc (td_groups sample_tenancy)) 50 sample_grant sample_stranger"
      by (simp add: covers_tenant_def scope_covers_def principal_tenant_id_def sample_grants sample_tenants Let_def)
    then have "3 \<notin> covered_in_table (walk_desc (td_groups sample_tenancy)) 50 (td_tenants sample_tenancy) sample_grant"
      by (auto simp: covered_in_table_def sample_tenancy_def sample_provider_def sample_customer_def)
    then show ?thesis by (simp add: reachable_def sample_query sample_members)
  qed
  then have "3 \<notin> tn_id ` {t \<in> reach_tenants sample_tenancy 50 (us_id sample_user). in_walk sample_tenancy 2 t}"
    by (auto simp: reach_tenants_def sample_user_def)
  then show ?thesis unfolding app
    by (simp add: asset_row_def asset_model_def member_world_def sample_ctx_def)
qed

text \<open>The permission gate and the scoped rows of a group scope agree on live groups, and only there:
  the ids that rows are filtered by are those of the tenants the gate aggregates over when the
  scoped group is live, while for a soft-deleted group the gate sees no tenant although the row
  filter still lists the tenants of its subtree.\<close>

theorem gate_agrees_with_rows:
  assumes "world_ok db now (us_id u) w" "memo_current db now (us_id u) (w_memo w)"
    and "scope_cache_sound (td_groups db) (w_ctx w)" "us_authenticated u" "\<not> us_superuser u"
    and "cx_tenant (w_ctx w) = None" "\<not> cx_all_accessible (w_ctx w)" "cx_group (w_ctx w) = Some grp"
  shows "\<exists>ts. fst (group_scope_tenants db now u w) = Some ts \<and>
    tn_id ` set ts = (if live_group_exists (td_groups db) grp
                      then set (fst (group_scope_tenant_ids db now grp (Some u) w)) else {})"
proof -
  obtain r w1 where g: "group_scope_tenants db now u w = (r, w1)" by (cases "group_scope_tenants db now u w")
  obtain ids w2 where i: "group_scope_tenant_ids db now grp (Some u) w = (ids, w2)"
    by (cases "group_scope_tenant_ids db now grp (Some u) w")
  have "map_option set r = scope_set db now u (w_ctx w)"
    using group_scope_tenants_ok[OF _ assms(4) g] assms(1,2) by blast
  then obtain ts where ts: "r = Some ts" "set ts = {t \<in> reach_tenants db now (us_id u). in_group db grp t}"
    using assms(6-8) by (auto simp: scope_set_def)
  have ids: "set ids = tn_id ` {t \<in> reach_tenants db now (us_id u). in_walk db grp t}"
    by (rule group_scope_tenant_ids_ok[OF _ assms(4,5,3) i]) (use assms(1,2) in blast)
  have "in_group db grp t \<longleftrightarrow> live_group_exists (td_groups db) grp \<and> in_walk db grp t" for t
    by (auto simp: in_group_def in_walk_def walk_desc_def descendants_of_def)
  then show ?thesis using ts ids by (auto simp: g i)
qed

definition closed_group_db :: tenancy where
  "closed_group_db = sample_tenancy\<lparr>td_groups := [\<lparr>tg_id = 2, tg_parent = None, tg_deleted = Some 9\<rparr>]\<rparr>"

theorem gate_agrees_with_rows_witness:
  "fst (group_scope_tenants closed_group_db 50 sample_user member_world) = Some [] \<and>
   (\<exists>ts. fst (group_scope_tenants sample_tenancy 50 sample_user member_world) = Some ts \<and>
      tn_id ` set ts = set (fst (group_scope_tenant_ids sample_tenancy 50 2 (Some sample_user) member_world)))"
proof -
  have c: "cx_tenant (w_ctx member_world) = None" "\<not> cx_all_accessible (w_ctx member_world)" "cx_group (w_ctx member_world) = Some 2"
    by (simp_all add: member_world_def sample_ctx_def)
  have cw: "world_ok closed_group_db 50 (us_id sample_user) member_world"
    "memo_current closed_group_db 50 (us_id sample_user) (w_memo member_world)"
    "scope_cache_sound (td_groups closed_group_db) (w_ctx member_world)"
    using sample_keyed
    by (simp_all add: closed_group_db_def world_ok_def member_world_def sample_world_def sample_ctx_def scope_cache_sound_def
        sample_tenancy_def cache_sound_def)
  have "\<not> live_group_exists (td_groups closed_group_db) 2" "live_group_exists (td_groups sample_tenancy) 2"
    by (simp_all add: closed_group_db_def live_group_exists_def tg_live_def sample_tenancy_def sample_groups_def)
  then show ?thesis
    using gate_agrees_with_rows[OF cw member_world_ok(5,6) c] gate_agrees_with_rows[OF member_world_ok(1-3,5,6) c] by auto
qed

end
