(* ===== verification/Access.thy ===== *)
theory Access
  imports Scoping "HOL-Library.List_Lexorder" "HOL-Library.Char_ord"
begin

text \<open>
  Explicitly shared stock pools, \<^verbatim>\<open>organization/access.py\<close>: the resolver that decides whether a user
  or an issued system authorization may view or use a pool from the active tenant, its batch
  projection over preloaded evidence, the validation of resource grants
  (\<open>TenantResourceGrant.clean\<close> in \<^verbatim>\<open>organization/models.py\<close>), and the access report of a tenant.
  Rows of one content type are told apart by their label; a query without a total order returns
  ties in table order.
\<close>

section \<open>State\<close>

record location =
  lc_id :: pk
  lc_tenant :: "pk option"
  lc_deleted :: "instant option"

record stock =
  st_label :: string
  st_id :: pk
  st_location :: "pk option"

record share =
  sg_id :: pk
  sg_tenant :: pk
  sg_grantee_tenant :: "pk option"
  sg_grantee_group :: "pk option"
  sg_type :: string
  sg_resource :: pk
  sg_level :: string
  sg_created :: instant
  sg_valid_until :: "instant option"
  sg_deleted :: "instant option"

record sharing = tenancy +
  sh_locations :: "location list"
  sh_stocks :: "stock list"
  sh_shares :: "share list"

text \<open>A Python argument \<open>stock\<close>: the label of its content type, absent for a value that is no model
  instance, and its primary key.\<close>

record stock_arg =
  ar_label :: "string option"
  ar_id :: "pk option"

definition APPROVED_RESOURCE_MODELS :: "string list" where
  "APPROVED_RESOURCE_MODELS =
     [''inventory.componentstock'', ''inventory.accessorystock'', ''inventory.consumablestock'']"

definition access_order :: "string \<Rightarrow> nat option" where
  "access_order level = (if level = ''view'' then Some 0 else if level = ''use'' then Some 1 else None)"

datatype access_reason =
  SameTenant | DirectGrant | GroupGrant | NoActiveTenant | OwnerUnresolvable | NoGrant
  | InsufficientLevel | RbacDenied | UnsupportedResource | InvalidAccessLevel

record access_decision =
  de_allowed :: bool
  de_reason :: access_reason
  de_owner :: "pk option"
  de_grant :: "share option"
  de_sysauth :: "sysauth option"

record batch_evidence =
  ev_tenant :: pk
  ev_owner :: "pk \<Rightarrow> pk option"
  ev_direct :: "pk \<Rightarrow> share list"
  ev_group :: "pk \<Rightarrow> share list"
  ev_rbac :: bool

definition tenant_is_live :: "'a tenancy_scheme \<Rightarrow> pk \<Rightarrow> bool" where
  "tenant_is_live db tid \<longleftrightarrow> (\<exists>t \<in> set (td_tenants db). tn_id t = tid \<and> tn_live t)"

definition active_shares :: "sharing \<Rightarrow> share list" where
  "active_shares db = filter (\<lambda>g. sg_deleted g = None) (sh_shares db)"

definition base_tenancy :: "sharing \<Rightarrow> tenancy" where
  "base_tenancy db = tenancy.truncate db"

section \<open>Shared ids\<close>

definition shared_resource_ids :: "sharing \<Rightarrow> string \<Rightarrow> tenant option \<Rightarrow> pk list" where
  "shared_resource_ids db label tenant =
     (case tenant of
        None \<Rightarrow> []
      | Some t \<Rightarrow>
          (let ancestor_group_ids = get_ancestor_tenant_group_ids (td_groups db) (tn_group t) True
           in map sg_resource (filter (\<lambda>g. sg_type g = label \<and>
                (sg_grantee_tenant g = Some (tn_id t) \<or> in_ids (sg_grantee_group g) ancestor_group_ids))
                (active_shares db))))"

section \<open>The single resolver\<close>

definition approved_resource_type :: "stock_arg \<Rightarrow> string option" where
  "approved_resource_type s =
     (case ar_label s of
        None \<Rightarrow> None
      | Some label \<Rightarrow> if label \<in> set APPROVED_RESOURCE_MODELS then Some label else None)"

definition live_owner_tenant_id :: "sharing \<Rightarrow> stock_arg \<Rightarrow> batch_evidence option \<Rightarrow> pk option" where
  "live_owner_tenant_id db s evidence =
     (case evidence of
        Some ev \<Rightarrow> Option.bind (ar_id s) (ev_owner ev)
      | None \<Rightarrow>
          (case List.find (\<lambda>r. Some (st_label r) = ar_label s \<and> Some (st_id r) = ar_id s) (sh_stocks db) of
             None \<Rightarrow> None
           | Some row \<Rightarrow>
               (case Option.bind (st_location row) (\<lambda>l. find_row lc_id l (sh_locations db)) of
                  None \<Rightarrow> None
                | Some loc \<Rightarrow>
                    (case lc_tenant loc of
                       None \<Rightarrow> None
                     | Some owner \<Rightarrow>
                         if lc_deleted loc \<noteq> None then None
                         else if \<not> tenant_is_live db owner then None
                         else Some owner))))"

definition actor_or_system_has_permission ::
    "sharing \<Rightarrow> instant \<Rightarrow> user option \<Rightarrow> tenant \<Rightarrow> string \<Rightarrow> sysauth option \<Rightarrow> string option
       \<Rightarrow> batch_evidence option \<Rightarrow> world \<Rightarrow> bool \<times> world" where
  "actor_or_system_has_permission db now user active perm sysauth operation evidence w =
     (case user of
        Some u \<Rightarrow>
          (case evidence of
             Some ev \<Rightarrow> (ev_rbac ev, w)
           | None \<Rightarrow> has_perm (base_tenancy db) now u perm (Some \<lparr>ob_tenant = None, ob_self = Some active\<rparr>) w)
      | None \<Rightarrow>
          (case (sysauth, operation) of
             (Some a, Some op) \<Rightarrow>
               (map_option tn_id (cx_tenant (w_ctx w)) = Some (tn_id active) \<and>
                is_valid_for (w_ctx w) a (tn_id active) perm op (cx_request (w_ctx w)), w)
           | _ \<Rightarrow> (False, w)))"

definition find_covering_grant ::
    "sharing \<Rightarrow> pk \<Rightarrow> tenant \<Rightarrow> pk \<Rightarrow> string \<Rightarrow> batch_evidence option \<Rightarrow> (share \<times> access_reason) option" where
  "find_covering_grant db owner active stock_id label evidence =
     (case evidence of
        Some ev \<Rightarrow>
          (case List.find (\<lambda>g. sg_tenant g = owner) (ev_direct ev stock_id) of
             Some g \<Rightarrow> Some (g, DirectGrant)
           | None \<Rightarrow>
               map_option (\<lambda>g. (g, GroupGrant)) (List.find (\<lambda>g. sg_tenant g = owner) (ev_group ev stock_id)))
      | None \<Rightarrow>
          (let base = filter (\<lambda>g. sg_tenant g = owner \<and> tenant_is_live db owner \<and> sg_type g = label
                                \<and> sg_resource g = stock_id) (active_shares db)
           in case List.find (\<lambda>g. sg_grantee_tenant g = Some (tn_id active) \<and> tenant_is_live db (tn_id active))
                     (sort_key (\<lambda>g. - sg_created g) base) of
                Some g \<Rightarrow> Some (g, DirectGrant)
              | None \<Rightarrow>
                  (let active_group = Option.bind (find_row tn_id (tn_id active) (filter tn_live (td_tenants db))) tn_group;
                       ancestor_group_ids = get_ancestor_tenant_group_ids (td_groups db) active_group True
                   in map_option (\<lambda>g. (g, GroupGrant))
                        (List.find (\<lambda>g. in_ids (sg_grantee_group g) ancestor_group_ids)
                           (sort_key sg_created base)))))"

definition denied :: "access_reason \<Rightarrow> pk option \<Rightarrow> share option \<Rightarrow> access_decision" where
  "denied reason owner g =
     \<lparr>de_allowed = False, de_reason = reason, de_owner = owner, de_grant = g, de_sysauth = None\<rparr>"

definition same_tenant_decision ::
    "sharing \<Rightarrow> instant \<Rightarrow> user option \<Rightarrow> tenant \<Rightarrow> string \<Rightarrow> pk \<Rightarrow> sysauth option \<Rightarrow> string option
       \<Rightarrow> batch_evidence option \<Rightarrow> world \<Rightarrow> access_decision \<times> world" where
  "same_tenant_decision db now user active perm owner sysauth operation evidence w =
     (let (permitted, w1) = actor_or_system_has_permission db now user active perm sysauth operation evidence w
      in if \<not> permitted then (denied RbacDenied (Some owner) None, w1)
         else (\<lparr>de_allowed = True, de_reason = SameTenant, de_owner = Some owner, de_grant = None,
                de_sysauth = (if user = None then sysauth else None)\<rparr>, w1))"

definition cross_tenant_decision ::
    "sharing \<Rightarrow> instant \<Rightarrow> user option \<Rightarrow> pk \<Rightarrow> string \<Rightarrow> string \<Rightarrow> tenant \<Rightarrow> pk \<Rightarrow> string
       \<Rightarrow> sysauth option \<Rightarrow> string option \<Rightarrow> batch_evidence option \<Rightarrow> world \<Rightarrow> access_decision \<times> world" where
  "cross_tenant_decision db now user stock_id level perm active owner label sysauth operation evidence w =
     (case find_covering_grant db owner active stock_id label evidence of
        None \<Rightarrow> (denied NoGrant (Some owner) None, w)
      | Some (g, reason) \<Rightarrow>
          (case (access_order (sg_level g), access_order level) of
             (Some given, Some asked) \<Rightarrow>
               if given < asked then (denied InsufficientLevel (Some owner) (Some g), w)
               else
                 (let (permitted, w1) = actor_or_system_has_permission db now user active perm sysauth operation evidence w
                  in if \<not> permitted then (denied RbacDenied (Some owner) (Some g), w1)
                     else (\<lparr>de_allowed = True, de_reason = reason, de_owner = Some owner, de_grant = Some g,
                            de_sysauth = (if user = None then sysauth else None)\<rparr>, w1))
           | _ \<Rightarrow> (denied InvalidAccessLevel (Some owner) (Some g), w)))"

text \<open>\<open>_resolve_stock_access\<close>; \<open>active\<close> defaults to the current tenant.  The caller never asks for a
  level outside the order past the guard.\<close>

definition resolve_stock_access_with ::
    "batch_evidence option \<Rightarrow> sharing \<Rightarrow> instant \<Rightarrow> user option \<Rightarrow> stock_arg \<Rightarrow> string \<Rightarrow> string \<Rightarrow> tenant option
       \<Rightarrow> sysauth option \<Rightarrow> string option \<Rightarrow> world \<Rightarrow> access_decision \<times> world" where
  "resolve_stock_access_with evidence db now user s level perm active sysauth operation w =
     (case (if active = None then cx_tenant (w_ctx w) else active) of
        None \<Rightarrow> (denied NoActiveTenant None None, w)
      | Some t \<Rightarrow>
          if \<not> (map_option ev_tenant evidence = Some (tn_id t) \<or> tenant_is_live db (tn_id t))
          then (denied NoActiveTenant None None, w)
          else (case approved_resource_type s of
            None \<Rightarrow> (denied UnsupportedResource None None, w)
          | Some label \<Rightarrow>
              (case live_owner_tenant_id db s evidence of
                 None \<Rightarrow> (denied OwnerUnresolvable None None, w)
               | Some owner \<Rightarrow>
                   if access_order level = None then (denied InvalidAccessLevel (Some owner) None, w)
                   else if owner = tn_id t
                   then same_tenant_decision db now user t perm owner sysauth operation evidence w
                   else cross_tenant_decision db now user (the (ar_id s)) level perm t owner label
                          sysauth operation evidence w)))"

definition resolve_stock_access ::
    "sharing \<Rightarrow> instant \<Rightarrow> user option \<Rightarrow> stock_arg \<Rightarrow> string \<Rightarrow> string \<Rightarrow> tenant option
       \<Rightarrow> sysauth option \<Rightarrow> string option \<Rightarrow> world \<Rightarrow> access_decision \<times> world" where
  "resolve_stock_access = resolve_stock_access_with None"

definition authorize_tenant_operation ::
    "sharing \<Rightarrow> instant \<Rightarrow> user option \<Rightarrow> tenant option \<Rightarrow> string \<Rightarrow> sysauth option \<Rightarrow> string option
       \<Rightarrow> world \<Rightarrow> bool \<times> world" where
  "authorize_tenant_operation db now user active perm sysauth operation w =
     (case active of
        None \<Rightarrow> (False, w)
      | Some t \<Rightarrow>
          if \<not> tenant_is_live db (tn_id t) then (False, w)
          else actor_or_system_has_permission db now user t perm sysauth operation None w)"

text \<open>\<open>shared_stock_read_allowed\<close>: the default permission is built from the label's two parts.\<close>

definition shared_stock_read_allowed ::
    "sharing \<Rightarrow> instant \<Rightarrow> string \<Rightarrow> string \<Rightarrow> pk option \<Rightarrow> tenant option \<Rightarrow> user option \<Rightarrow> string option
       \<Rightarrow> world \<Rightarrow> bool \<times> world" where
  "shared_stock_read_allowed db now app_label model_name i active user perm w =
     (let label = app_label @ ''.'' @ model_name in
      if label \<notin> set APPROVED_RESOURCE_MODELS then (False, w)
      else
        (let required = (case perm of Some p \<Rightarrow> if p \<noteq> [] then p else app_label @ ''.view_'' @ model_name
                                    | None \<Rightarrow> app_label @ ''.view_'' @ model_name);
             (d, w1) = resolve_stock_access db now user \<lparr>ar_label = Some label, ar_id = i\<rparr> ''view'' required
                         active None None w
         in (de_allowed d, w1)))"

section \<open>The batch projection\<close>

definition batch_shares :: "sharing \<Rightarrow> string \<Rightarrow> tenant \<Rightarrow> pk list \<Rightarrow> share list" where
  "batch_shares db label active ancestor_group_ids =
     sort_key (\<lambda>g. sg_created g)
       (filter (\<lambda>g. sg_type g = label \<and> tenant_is_live db (sg_tenant g) \<and>
          ((sg_grantee_tenant g = Some (tn_id active) \<and> tenant_is_live db (tn_id active)) \<or>
           (in_ids (sg_grantee_group g) ancestor_group_ids \<and>
            (\<exists>r \<in> set (td_groups db). Some (tg_id r) = sg_grantee_group g \<and> tg_live r))))
        (active_shares db))"

definition batch_candidates :: "sharing \<Rightarrow> string \<Rightarrow> pk list \<Rightarrow> (stock \<times> pk) list" where
  "batch_candidates db label ids =
     concat (map (\<lambda>r.
       case Option.bind (st_location r) (\<lambda>l. find_row lc_id l (sh_locations db)) of
         None \<Rightarrow> []
       | Some loc \<Rightarrow>
           (case lc_tenant loc of
              None \<Rightarrow> []
            | Some owner \<Rightarrow> if lc_deleted loc = None \<and> tenant_is_live db owner then [(r, owner)] else []))
       (filter (\<lambda>r. st_label r = label \<and> st_id r \<in> set ids) (sh_stocks db)))"

text \<open>The comprehension over the candidates: each goes through the resolver with the evidence.\<close>

fun project_candidates ::
    "batch_evidence \<Rightarrow> sharing \<Rightarrow> instant \<Rightarrow> user option \<Rightarrow> string \<Rightarrow> string \<Rightarrow> string \<Rightarrow> tenant option \<Rightarrow> sysauth option
       \<Rightarrow> string option \<Rightarrow> (stock \<times> pk) list \<Rightarrow> world \<Rightarrow> pk list \<times> world" where
  "project_candidates ev db now user label level perm active sysauth operation [] w = ([], w)"
| "project_candidates ev db now user label level perm active sysauth operation ((r, _) # rs) w =
     (let (d, w1) = resolve_stock_access_with (Some ev) db now user \<lparr>ar_label = Some label, ar_id = Some (st_id r)\<rparr>
                      level perm active sysauth operation w;
          (ids, w2) = project_candidates ev db now user label level perm active sysauth operation rs w1
      in (if de_allowed d then st_id r # ids else ids, w2))"

definition resolved_shared_stock_ids ::
    "sharing \<Rightarrow> instant \<Rightarrow> string \<Rightarrow> tenant option \<Rightarrow> user option \<Rightarrow> string \<Rightarrow> string \<Rightarrow> sysauth option
       \<Rightarrow> string option \<Rightarrow> world \<Rightarrow> pk list \<times> world" where
  "resolved_shared_stock_ids db now label active user level perm sysauth operation w =
     (case Option.bind active (\<lambda>t. find_row tn_id (tn_id t) (filter tn_live (td_tenants db))) of
        None \<Rightarrow> ([], w)
      | Some row \<Rightarrow>
          if access_order level = None then ([], w)
          else if label \<notin> set APPROVED_RESOURCE_MODELS then ([], w)
          else
            (let t = the active;
                 (rbac_allowed, w1) = actor_or_system_has_permission db now user t perm sysauth operation None w in
             if \<not> rbac_allowed then ([], w1)
             else
               (let ancestor_group_ids = get_ancestor_tenant_group_ids (td_groups db) (tn_group row) True;
                    shares = batch_shares db label t ancestor_group_ids;
                    direct = (\<lambda>i. filter (\<lambda>g. sg_grantee_tenant g \<noteq> None \<and> sg_resource g = i) shares);
                    grp = (\<lambda>i. filter (\<lambda>g. sg_grantee_tenant g = None \<and> sg_resource g = i) shares);
                    candidates = batch_candidates db label (map sg_resource shares);
                    ev = \<lparr>ev_tenant = tn_id t, ev_owner = map_of (map (\<lambda>(r, owner). (st_id r, owner)) candidates),
                          ev_direct = direct, ev_group = grp, ev_rbac = rbac_allowed\<rparr>
                in project_candidates ev db now user label level perm active sysauth operation candidates w1)))"

section \<open>Validation of a share\<close>

datatype share_error =
  ExactlyOneGrantee | OwnResource | NotShareable | PoolMissing | PoolWithoutLocation | PoolNotOwned

text \<open>\<open>TenantResourceGrant.clean\<close>; an unset resource type is the empty label.\<close>

definition share_clean :: "sharing \<Rightarrow> share \<Rightarrow> share_error + unit" where
  "share_clean db g =
     (let has_tenant = (sg_grantee_tenant g \<noteq> None); has_group = (sg_grantee_group g \<noteq> None) in
      if has_tenant = has_group then Inl ExactlyOneGrantee
      else if has_tenant \<and> sg_grantee_tenant g = Some (sg_tenant g) then Inl OwnResource
      else if sg_type g \<noteq> [] \<and> sg_type g \<notin> set APPROVED_RESOURCE_MODELS then Inl NotShareable
      else if sg_deleted g = None \<and> sg_type g \<noteq> [] \<and> sg_resource g \<noteq> 0
      then (case List.find (\<lambda>r. st_label r = sg_type g \<and> st_id r = sg_resource g) (sh_stocks db) of
              None \<Rightarrow> Inl PoolMissing
            | Some row \<Rightarrow>
                (case Option.bind (st_location row) (\<lambda>l. find_row lc_id l (sh_locations db)) of
                   None \<Rightarrow> Inl PoolWithoutLocation
                 | Some loc \<Rightarrow> if lc_tenant loc \<noteq> Some (sg_tenant g) then Inl PoolNotOwned else Inr ()))
      else Inr ())"

section \<open>The access report\<close>

record report_entry =
  re_sources :: "string list"
  re_groups :: "string list"
  re_permissions :: "permission list"

text \<open>\<open>entry_for(user)\<close> followed by additions to the entry's sets.\<close>

fun add_to_entry :: "pk \<Rightarrow> string list \<Rightarrow> string list \<Rightarrow> permission list \<Rightarrow> (pk \<times> report_entry) list \<Rightarrow> (pk \<times> report_entry) list" where
  "add_to_entry uid sources groups perms [] =
     [(uid, \<lparr>re_sources = sources, re_groups = groups, re_permissions = perms\<rparr>)]"
| "add_to_entry uid sources groups perms ((k, e) # rest) =
     (if k = uid
      then (k, e\<lparr>re_sources := re_sources e @ sources, re_groups := re_groups e @ groups,
                re_permissions := re_permissions e @ perms\<rparr>) # rest
      else (k, e) # add_to_entry uid sources groups perms rest)"

definition report_group_member ::
    "tenant \<Rightarrow> role_grant \<Rightarrow> user_group \<Rightarrow> membership \<Rightarrow> (pk \<times> report_entry) list \<Rightarrow> (pk \<times> report_entry) list" where
  "report_group_member t g ug m data =
     (if \<not> mb_active m \<or> tn_id (mb_tenant m) \<noteq> ug_tenant ug then data
      else add_to_entry (mb_user m) (''group'' # (if ug_tenant ug \<noteq> tn_id t then [''managed''] else []))
             [ug_name ug] (ro_permissions (rg_role g)) data)"

definition report_grant ::
    "group_desc \<Rightarrow> instant \<Rightarrow> tenant \<Rightarrow> role_grant \<Rightarrow> (pk \<times> report_entry) list \<Rightarrow> (pk \<times> report_entry) list" where
  "report_grant desc now t g data =
     (if \<not> covers_tenant desc now g t then data
      else case rg_membership g of
        Some m \<Rightarrow>
          if \<not> mb_active m then data
          else add_to_entry (mb_user m) [if tn_id (mb_tenant m) = tn_id t then ''membership'' else ''managed'']
                 [] (ro_permissions (rg_role g)) data
      | None \<Rightarrow>
          (case rg_user_group g of
             None \<Rightarrow> data
           | Some ug \<Rightarrow>
               if \<not> ug_active ug \<or> ug_deleted ug \<noteq> None then data
               else fold (report_group_member t g ug) (ug_members ug) data))"

definition report_query :: "tenancy \<Rightarrow> instant \<Rightarrow> role_grant list" where
  "report_query db now =
     filter (\<lambda>g. ro_deleted (rg_role g) = None \<and> (rg_valid_until g = None \<or> after_opt (rg_valid_until g) now)) (td_grants db)"

definition report_data :: "tenancy \<Rightarrow> group_desc \<Rightarrow> instant \<Rightarrow> tenant \<Rightarrow> bool \<Rightarrow> (pk \<times> report_entry) list" where
  "report_data db desc now t external_only =
     (let start = (if external_only then []
                   else fold (\<lambda>m. add_to_entry (mb_user m) [''membership''] [] [])
                          (filter (\<lambda>m. tn_id (mb_tenant m) = tn_id t \<and> mb_active m) (td_memberships db)) []);
          data = fold (report_grant desc now t) (report_query db now) start;
          local_ids = map mb_user (filter (\<lambda>m. tn_id (mb_tenant m) = tn_id t) (td_memberships db))
      in if external_only then filter (\<lambda>(uid, _). uid \<notin> set local_ids) data else data)"

record report_row =
  rr_user :: pk
  rr_sources :: "string list"
  rr_groups :: "string list"
  rr_permissions :: "permission list"
  rr_inactive :: bool

datatype type_error = UnorderableValues

text \<open>\<open>sorted\<close> of a set of permission entries: strings compare, an entry that is no string compares with
  nothing else.\<close>

definition sorted_permissions :: "permission list \<Rightarrow> type_error + permission list" where
  "sorted_permissions ps =
     (if MalformedPerm \<in> set ps
      then (if set ps = {MalformedPerm} then Inr [MalformedPerm] else Inl UnorderableValues)
      else Inr (map Perm (sort (remdups (concat (map (\<lambda>p. case p of Perm s \<Rightarrow> [s] | MalformedPerm \<Rightarrow> []) ps))))))"

fun report_rows :: "user list \<Rightarrow> (pk \<times> report_entry) list \<Rightarrow> type_error + report_row list" where
  "report_rows users [] = Inr []"
| "report_rows users ((uid, e) # rest) =
     bindE (sorted_permissions (re_permissions e)) (\<lambda>ps.
     bindE (report_rows users rest) (\<lambda>rows.
       Inr (\<lparr>rr_user = uid, rr_sources = sort (remdups (re_sources e)), rr_groups = sort (remdups (re_groups e)),
             rr_permissions = ps,
             rr_inactive = (case find_row us_id uid users of
                              None \<Rightarrow> True | Some u \<Rightarrow> \<not> (us_active u \<and> us_can_login u))\<rparr> # rows)))"

definition tenant_access_report ::
    "tenancy \<Rightarrow> user list \<Rightarrow> group_desc \<Rightarrow> instant \<Rightarrow> tenant \<Rightarrow> bool \<Rightarrow> type_error + report_row list" where
  "tenant_access_report db users desc now t external_only =
     map_sum id
       (sort_key (\<lambda>row. case find_row us_id (rr_user row) users of None \<Rightarrow> [] | Some u \<Rightarrow> py_lower (us_username u)))
       (report_rows users (report_data db desc now t external_only))"

section \<open>Lemmas\<close>

lemma live_ancestor:
  assumes "keyed tg_id rows" "h \<in> set (get_ancestor_tenant_group_ids rows gid True)"
  shows "\<exists>g. gid = Some g \<and> (h, g) \<in> (group_edges (filter tg_live rows))\<^sup>* \<and> (\<exists>r \<in> set rows. tg_id r = h \<and> tg_live r)"
proof (cases gid)
  case None
  then show ?thesis using assms(2) by (simp add: get_ancestor_tenant_group_ids_def)
next
  case (Some g)
  then have ne: "get_ancestor_tenant_group_ids rows (Some g) True \<noteq> []" using assms(2) by auto
  show ?thesis
    using set_get_ancestors[OF assms(1) ne] ancestors_visible[OF assms(1)] assms(2) Some
    by (fastforce simp: visible_groups_def)
qed

lemma same_tenant_allowed:
  "de_allowed (fst (same_tenant_decision db now user t perm owner sysauth op ev w)) \<longleftrightarrow>
     fst (actor_or_system_has_permission db now user t perm sysauth op ev w)"
  by (simp add: same_tenant_decision_def denied_def split: prod.split)

text \<open>The level check: the grant's level is known and at least the requested one.\<close>

definition level_suffices :: "share \<Rightarrow> string \<Rightarrow> bool" where
  "level_suffices g level \<longleftrightarrow>
     (case (access_order (sg_level g), access_order level) of (Some given, Some asked) \<Rightarrow> asked \<le> given | _ \<Rightarrow> False)"

lemma cross_tenant_allowed:
  "de_allowed (fst (cross_tenant_decision db now user i level perm t owner label sysauth op ev w)) \<longleftrightarrow>
     (\<exists>g reason. find_covering_grant db owner t i label ev = Some (g, reason) \<and> level_suffices g level) \<and>
     fst (actor_or_system_has_permission db now user t perm sysauth op ev w)"
  by (cases "find_covering_grant db owner t i label ev")
    (auto simp: cross_tenant_decision_def denied_def level_suffices_def not_less split: prod.splits option.splits)

lemma resolver_allowed:
  "de_allowed (fst (resolve_stock_access_with ev db now user s level perm (Some t) sysauth op w)) \<longleftrightarrow>
     (map_option ev_tenant ev = Some (tn_id t) \<or> tenant_is_live db (tn_id t)) \<and> access_order level \<noteq> None \<and>
     (\<exists>label owner. approved_resource_type s = Some label \<and> live_owner_tenant_id db s ev = Some owner \<and>
        (owner = tn_id t \<or> (\<exists>g reason. find_covering_grant db owner t (the (ar_id s)) label ev = Some (g, reason) \<and>
                               level_suffices g level))) \<and>
     fst (actor_or_system_has_permission db now user t perm sysauth op ev w)"
proof (cases "(map_option ev_tenant ev = Some (tn_id t) \<or> tenant_is_live db (tn_id t)) \<and> access_order level \<noteq> None")
  case False
  then show ?thesis
    by (auto simp: resolve_stock_access_with_def denied_def split: option.splits)
next
  case True
  show ?thesis
  proof (cases "approved_resource_type s")
    case None
    then show ?thesis using True by (auto simp: resolve_stock_access_with_def denied_def)
  next
    case (Some label)
    show ?thesis
    proof (cases "live_owner_tenant_id db s ev")
      case None
      then show ?thesis using True Some by (auto simp: resolve_stock_access_with_def denied_def)
    next
      case (Some owner)
      then have "resolve_stock_access_with ev db now user s level perm (Some t) sysauth op w =
          (if owner = tn_id t then same_tenant_decision db now user t perm owner sysauth op ev w
           else cross_tenant_decision db now user (the (ar_id s)) level perm t owner label sysauth op ev w)"
        using True \<open>approved_resource_type s = Some label\<close>
        unfolding resolve_stock_access_with_def by (simp only: option.case option.distinct if_False if_True not_not simp_thms)
      then show ?thesis
        using True Some \<open>approved_resource_type s = Some label\<close> by (simp add: same_tenant_allowed cross_tenant_allowed)
    qed
  qed
qed

lemma live_owner_facts:
  assumes "live_owner_tenant_id db s None = Some owner"
  shows "\<exists>row loc l. row \<in> set (sh_stocks db) \<and> Some (st_label row) = ar_label s \<and> Some (st_id row) = ar_id s \<and>
    st_location row = Some l \<and> find_row lc_id l (sh_locations db) = Some loc \<and>
    lc_tenant loc = Some owner \<and> lc_deleted loc = None \<and> tenant_is_live db owner"
proof -
  from assms obtain row where f: "List.find (\<lambda>r. Some (st_label r) = ar_label s \<and> Some (st_id r) = ar_id s) (sh_stocks db) = Some row"
    by (auto simp: live_owner_tenant_id_def split: option.splits)
  then have row: "row \<in> set (sh_stocks db)" "Some (st_label row) = ar_label s" "Some (st_id row) = ar_id s"
    by (auto simp: find_Some_iff)
  from assms f obtain l loc where "st_location row = Some l" "find_row lc_id l (sh_locations db) = Some loc"
    "lc_tenant loc = Some owner" "lc_deleted loc = None" "tenant_is_live db owner"
    by (auto simp: live_owner_tenant_id_def bind_eq_Some_conv split: option.splits if_splits)
  with row show ?thesis by blast
qed

text \<open>A grant the resolver found: an active share of exactly that pool by its owner, given to the active
  tenant or to a group above its group.\<close>

definition share_covers :: "sharing \<Rightarrow> pk \<Rightarrow> tenant \<Rightarrow> pk \<Rightarrow> string \<Rightarrow> share \<Rightarrow> bool" where
  "share_covers db owner t stock_id label g \<longleftrightarrow>
     g \<in> set (sh_shares db) \<and> sg_deleted g = None \<and> sg_tenant g = owner \<and> sg_type g = label \<and> sg_resource g = stock_id \<and>
     tenant_is_live db owner \<and>
     (sg_grantee_tenant g = Some (tn_id t) \<or>
      (\<exists>grp home row. sg_grantee_group g = Some grp \<and> row \<in> set (td_tenants db) \<and> tn_id row = tn_id t \<and> tn_live row \<and>
         tn_group row = Some home \<and> (grp, home) \<in> (group_edges (filter tg_live (td_groups db)))\<^sup>*))"

lemma find_covering_grant_sound:
  assumes "keyed tg_id (td_groups db)" "find_covering_grant db owner t stock_id label None = Some (g, reason)"
  shows "share_covers db owner t stock_id label g"
proof -
  let ?base = "filter (\<lambda>g. sg_tenant g = owner \<and> tenant_is_live db owner \<and> sg_type g = label \<and> sg_resource g = stock_id) (active_shares db)"
  have base: "g \<in> set ?base \<Longrightarrow> g \<in> set (sh_shares db) \<and> sg_deleted g = None \<and> sg_tenant g = owner \<and> sg_type g = label \<and>
      sg_resource g = stock_id \<and> tenant_is_live db owner"
    by (simp add: active_shares_def)
  let ?home = "Option.bind (find_row tn_id (tn_id t) (filter tn_live (td_tenants db))) tn_group"
  from assms(2) consider
      (direct) "List.find (\<lambda>g. sg_grantee_tenant g = Some (tn_id t) \<and> tenant_is_live db (tn_id t)) (sort_key (\<lambda>g. - sg_created g) ?base) = Some g"
    | (grp) "List.find (\<lambda>g. in_ids (sg_grantee_group g) (get_ancestor_tenant_group_ids (td_groups db) ?home True)) (sort_key sg_created ?base) = Some g"
    by (auto simp: find_covering_grant_def Let_def split: option.splits)
  then show ?thesis
  proof cases
    case direct
    then have g: "g \<in> set ?base" "sg_grantee_tenant g = Some (tn_id t)" using find_SomeD[OF direct] by simp_all
    show ?thesis using base[OF g(1)] g(2) by (simp add: share_covers_def)
  next
    case grp
    then have g: "g \<in> set ?base" "in_ids (sg_grantee_group g) (get_ancestor_tenant_group_ids (td_groups db) ?home True)"
      using find_SomeD[OF grp] by simp_all
    then obtain h where h: "sg_grantee_group g = Some h" "h \<in> set (get_ancestor_tenant_group_ids (td_groups db) ?home True)"
      by (auto simp: in_ids_def split: option.splits)
    from live_ancestor[OF assms(1) h(2)] obtain home where home: "?home = Some home"
      "(h, home) \<in> (group_edges (filter tg_live (td_groups db)))\<^sup>*" by blast
    then obtain row where "find_row tn_id (tn_id t) (filter tn_live (td_tenants db)) = Some row" "tn_group row = Some home"
      by (auto simp: bind_eq_Some_conv)
    then show ?thesis using base[OF g(1)] h(1) home(2) by (auto simp: share_covers_def dest!: find_row_SomeD)
  qed
qed

lemma has_perm_batch_free:
  "actor_or_system_has_permission db now None t perm sysauth op ev w = actor_or_system_has_permission db now None t perm sysauth op None w"
  by (simp add: actor_or_system_has_permission_def)

section \<open>The batch agrees with the resolver\<close>

text \<open>What the database guarantees: keys, exactly one grantee, and one active share of a pool per
  grantee tenant.\<close>

definition sharing_ok :: "sharing \<Rightarrow> bool" where
  "sharing_ok db \<longleftrightarrow> keyed tn_id (td_tenants db) \<and> keyed tg_id (td_groups db) \<and> keyed lc_id (sh_locations db) \<and>
     distinct (map (\<lambda>r. (st_label r, st_id r)) (sh_stocks db)) \<and>
     (\<forall>g \<in> set (sh_shares db). (sg_grantee_tenant g = None) \<noteq> (sg_grantee_group g = None)) \<and>
     (\<forall>g \<in> set (active_shares db). \<forall>h \<in> set (active_shares db).
        sg_type g = sg_type h \<longrightarrow> sg_resource g = sg_resource h \<longrightarrow> sg_grantee_tenant g = sg_grantee_tenant h \<longrightarrow>
        sg_grantee_tenant g \<noteq> None \<longrightarrow> g = h)"

lemma stock_key: "sharing_ok db \<Longrightarrow> r \<in> set (sh_stocks db) \<Longrightarrow> r' \<in> set (sh_stocks db) \<Longrightarrow>
  st_label r = st_label r' \<Longrightarrow> st_id r = st_id r' \<Longrightarrow> r = r'"
  by (auto simp: sharing_ok_def distinct_map dest: inj_onD)

lemma mem_batch_candidates:
  "(r, owner) \<in> set (batch_candidates db label ids) \<longleftrightarrow>
     r \<in> set (sh_stocks db) \<and> st_label r = label \<and> st_id r \<in> set ids \<and>
     (\<exists>l loc. st_location r = Some l \<and> find_row lc_id l (sh_locations db) = Some loc \<and> lc_tenant loc = Some owner \<and>
        lc_deleted loc = None \<and> tenant_is_live db owner)"
proof -
  have "(r, owner) \<in> set (batch_candidates db label ids) \<longleftrightarrow> r \<in> set (sh_stocks db) \<and> st_label r = label \<and> st_id r \<in> set ids \<and>
      (\<exists>loc. Option.bind (st_location r) (\<lambda>l. find_row lc_id l (sh_locations db)) = Some loc \<and> lc_tenant loc = Some owner \<and>
        lc_deleted loc = None \<and> tenant_is_live db owner)"
    by (auto simp: batch_candidates_def split: option.splits if_splits) metis+
  then show ?thesis by (auto simp: bind_eq_Some_conv)
qed

lemma find_stock:
  assumes "sharing_ok db" "r \<in> set (sh_stocks db)" "st_label r = label"
  shows "List.find (\<lambda>x. st_label x = label \<and> st_id x = st_id r) (sh_stocks db) = Some r"
proof (cases "List.find (\<lambda>x. st_label x = label \<and> st_id x = st_id r) (sh_stocks db)")
  case None
  then show ?thesis using assms(2,3) by (auto simp: find_None_iff)
next
  case (Some x)
  with find_SomeD[OF Some] stock_key[OF assms(1)] assms(2,3) show ?thesis by auto
qed

lemma owner_of_candidate:
  assumes "sharing_ok db" "(r, owner) \<in> set (batch_candidates db label ids)"
  shows "live_owner_tenant_id db \<lparr>ar_label = Some label, ar_id = Some (st_id r)\<rparr> None = Some owner"
proof -
  from assms(2) obtain l loc where r: "r \<in> set (sh_stocks db)" "st_label r = label" "st_location r = Some l"
    "find_row lc_id l (sh_locations db) = Some loc" "lc_tenant loc = Some owner" "lc_deleted loc = None" "tenant_is_live db owner"
    by (auto simp: mem_batch_candidates)
  then show ?thesis using find_stock[OF assms(1) r(1,2)] by (simp add: live_owner_tenant_id_def)
qed

lemma owner_lookup:
  assumes ok: "sharing_ok db" and c: "(r, owner) \<in> set (batch_candidates db label ids)"
  shows "map_of (map (\<lambda>(r, owner). (st_id r, owner)) (batch_candidates db label ids)) (st_id r) = Some owner"
proof -
  let ?m = "map (\<lambda>(r, owner). (st_id r, owner)) (batch_candidates db label ids)"
  have "(st_id r, owner) \<in> set ?m" using c by force
  then obtain o' where o': "map_of ?m (st_id r) = Some o'"
    by (metis weak_map_of_SomeI)
  then have "(st_id r, o') \<in> set ?m" by (rule map_of_SomeD)
  then obtain r' where r': "(r', o') \<in> set (batch_candidates db label ids)" "st_id r' = st_id r" by auto
  then have "r' = r" using stock_key[OF ok] c by (auto simp: mem_batch_candidates)
  then have "o' = owner" using owner_of_candidate[OF ok r'(1)] owner_of_candidate[OF ok c] by simp
  then show ?thesis using o' by simp
qed

lemma covering_grant_batch:
  assumes ok: "sharing_ok db" and t: "tenant_is_live db (tn_id t)" and owner: "tenant_is_live db owner"
    and row: "find_row tn_id (tn_id t) (filter tn_live (td_tenants db)) = Some row"
    and ev: "shares = batch_shares db label t (get_ancestor_tenant_group_ids (td_groups db) (tn_group row) True)"
      "ev_direct ev = (\<lambda>i. filter (\<lambda>g. sg_grantee_tenant g \<noteq> None \<and> sg_resource g = i) shares)"
      "ev_group ev = (\<lambda>i. filter (\<lambda>g. sg_grantee_tenant g = None \<and> sg_resource g = i) shares)"
  shows "find_covering_grant db owner t i label (Some ev) = find_covering_grant db owner t i label None"
proof -
  let ?anc = "get_ancestor_tenant_group_ids (td_groups db) (tn_group row) True"
  let ?act = "active_shares db"
  let ?b = "\<lambda>g. sg_tenant g = owner \<and> tenant_is_live db owner \<and> sg_type g = label \<and> sg_resource g = i"
  have keyed: "keyed tg_id (td_groups db)" using ok by (simp add: sharing_ok_def)
  have anc_live: "\<exists>r \<in> set (td_groups db). tg_id r = h \<and> tg_live r" if "h \<in> set ?anc" for h
    using live_ancestor[OF keyed that] by blast
  have one: "(sg_grantee_tenant g = None) \<noteq> (sg_grantee_group g = None)" if "g \<in> set ?act" for g
    using ok that by (simp add: sharing_ok_def active_shares_def)
  have direct: "List.find (\<lambda>g. sg_tenant g = owner) (ev_direct ev i) =
      List.find (\<lambda>g. sg_grantee_tenant g = Some (tn_id t) \<and> tenant_is_live db (tn_id t))
        (sort_key (\<lambda>g. - sg_created g) (filter ?b ?act))" (is "?l = ?r")
  proof -
    have "?l = List.find (\<lambda>g. ?b g \<and> sg_grantee_tenant g = Some (tn_id t)) (sort_key sg_created ?act)"
      unfolding ev filter_sort[symmetric] batch_shares_def find_filter
    proof (rule find_cong_set, goal_cases)
      case (1 g)
      then have "sg_grantee_tenant g \<noteq> None \<Longrightarrow> sg_grantee_group g = None" using one[of g]
        by (cases "sg_grantee_tenant g"; cases "sg_grantee_group g") simp_all
      then show ?case using t owner by (auto simp: in_ids_def)
    qed
    also have "\<dots> = List.find (\<lambda>g. ?b g \<and> sg_grantee_tenant g = Some (tn_id t)) (sort_key (\<lambda>g. - sg_created g) ?act)"
      using ok by (intro find_unique) (auto simp: sharing_ok_def)
    also have "\<dots> = ?r" by (simp add: filter_sort[symmetric] find_filter t)
    finally show ?thesis .
  qed
  have grp: "List.find (\<lambda>g. sg_tenant g = owner) (ev_group ev i) =
      List.find (\<lambda>g. in_ids (sg_grantee_group g) ?anc) (sort_key sg_created (filter ?b ?act))" (is "?l = ?r")
  proof -
    have "?l = List.find (\<lambda>g. ?b g \<and> in_ids (sg_grantee_group g) ?anc) (sort_key sg_created ?act)"
      unfolding ev filter_sort[symmetric] batch_shares_def find_filter
    proof (rule find_cong_set, goal_cases)
      case (1 g)
      then have "sg_grantee_group g \<noteq> None \<Longrightarrow> sg_grantee_tenant g = None" using one[of g]
        by (cases "sg_grantee_tenant g"; cases "sg_grantee_group g") simp_all
      then show ?case using owner anc_live by (auto simp: in_ids_def split: option.splits)
    qed
    also have "\<dots> = ?r" by (simp add: filter_sort[symmetric] find_filter)
    finally show ?thesis .
  qed
  show ?thesis
    unfolding find_covering_grant_def Let_def option.case direct grp row bind.simps ..
qed

lemma resolver_batch:
  assumes ok: "sharing_ok db" and t: "find_row tn_id (tn_id t) (filter tn_live (td_tenants db)) = Some row"
    and c: "(r, owner) \<in> set (batch_candidates db label ids)" and ev: "ev_tenant ev = tn_id t"
      "ev_owner ev = map_of (map (\<lambda>(r, owner). (st_id r, owner)) (batch_candidates db label ids))"
      "shares = batch_shares db label t (get_ancestor_tenant_group_ids (td_groups db) (tn_group row) True)"
      "ev_direct ev = (\<lambda>i. filter (\<lambda>g. sg_grantee_tenant g \<noteq> None \<and> sg_resource g = i) shares)"
      "ev_group ev = (\<lambda>i. filter (\<lambda>g. sg_grantee_tenant g = None \<and> sg_resource g = i) shares)" "ev_rbac ev"
    and rbac: "fst (actor_or_system_has_permission db now user t perm sysauth op None w)" "user = None \<Longrightarrow> w1 = w"
  shows "de_allowed (fst (resolve_stock_access_with (Some ev) db now user \<lparr>ar_label = Some label, ar_id = Some (st_id r)\<rparr>
           level perm (Some t) sysauth op w1)) \<longleftrightarrow>
    de_allowed (fst (resolve_stock_access db now user \<lparr>ar_label = Some label, ar_id = Some (st_id r)\<rparr>
           level perm (Some t) sysauth op w))"
proof -
  have live: "tenant_is_live db (tn_id t)" using t by (auto simp: tenant_is_live_def dest!: find_row_SomeD)
  have owner: "live_owner_tenant_id db \<lparr>ar_label = Some label, ar_id = Some (st_id r)\<rparr> None = Some owner"
    "live_owner_tenant_id db \<lparr>ar_label = Some label, ar_id = Some (st_id r)\<rparr> (Some ev) = Some owner"
    using owner_of_candidate[OF ok c] owner_lookup[OF ok c] ev(2) by (simp_all add: live_owner_tenant_id_def)
  have ow: "tenant_is_live db owner" using c by (auto simp: mem_batch_candidates)
  have cov: "find_covering_grant db owner t (st_id r) label (Some ev) = find_covering_grant db owner t (st_id r) label None"
    by (rule covering_grant_batch[OF ok live ow t ev(3-5)])
  have perm: "fst (actor_or_system_has_permission db now user t perm sysauth op (Some ev) w1)"
    using rbac ev(6) by (cases user) (simp_all add: actor_or_system_has_permission_def)
  show ?thesis
    unfolding resolve_stock_access_def resolver_allowed using live owner cov perm rbac
    by (simp add: approved_resource_type_def ev(1))
qed

lemma evidence_keeps_permission: "snd (actor_or_system_has_permission db now user t perm sysauth op (Some ev) w) = w"
  by (simp add: actor_or_system_has_permission_def split: option.split)

lemma evidence_keeps_decision:
  "snd (same_tenant_decision db now user t perm owner sysauth op (Some ev) w) = w"
  "snd (cross_tenant_decision db now user i level perm t owner label sysauth op (Some ev) w) = w"
proof -
  have p: "actor_or_system_has_permission db now user t perm sysauth op (Some ev) w =
      (fst (actor_or_system_has_permission db now user t perm sysauth op (Some ev) w), w)"
    using evidence_keeps_permission by (metis prod.collapse)
  show "snd (same_tenant_decision db now user t perm owner sysauth op (Some ev) w) = w"
    unfolding same_tenant_decision_def by (subst p) simp
  show "snd (cross_tenant_decision db now user i level perm t owner label sysauth op (Some ev) w) = w"
    unfolding cross_tenant_decision_def by (subst p) (simp add: Let_def split: option.split prod.split)
qed

lemma evidence_keeps_world:
  "snd (resolve_stock_access_with (Some ev) db now user s level perm (Some t) sysauth op w) = w"
  by (simp add: resolve_stock_access_with_def evidence_keeps_decision split: option.split)

lemma mem_project:
  "x \<in> set (fst (project_candidates ev db now user label level perm (Some t) sysauth op cs w)) \<longleftrightarrow>
     (\<exists>r owner. (r, owner) \<in> set cs \<and> st_id r = x \<and>
        de_allowed (fst (resolve_stock_access_with (Some ev) db now user \<lparr>ar_label = Some label, ar_id = Some (st_id r)\<rparr>
          level perm (Some t) sysauth op w)))"
proof (induction cs)
  case (Cons c cs)
  obtain r owner where c: "c = (r, owner)" by (cases c)
  let ?res = "resolve_stock_access_with (Some ev) db now user \<lparr>ar_label = Some label, ar_id = Some (st_id r)\<rparr> level perm (Some t) sysauth op w"
  obtain d where d: "?res = (d, w)" using evidence_keeps_world by (metis prod.collapse)
  obtain ids w2 where p: "project_candidates ev db now user label level perm (Some t) sysauth op cs w = (ids, w2)"
    by (cases "project_candidates ev db now user label level perm (Some t) sysauth op cs w")
  show ?case using Cons.IH by (auto simp: c d p)
qed simp

lemma covering_grant_listed:
  assumes ok: "sharing_ok db" and row: "find_row tn_id (tn_id t) (filter tn_live (td_tenants db)) = Some row"
    and g: "find_covering_grant db owner t i label None = Some (g, reason)"
  shows "g \<in> set (batch_shares db label t (get_ancestor_tenant_group_ids (td_groups db) (tn_group row) True)) \<and> sg_resource g = i"
proof -
  let ?anc = "get_ancestor_tenant_group_ids (td_groups db) (tn_group row) True"
  let ?base = "filter (\<lambda>g. sg_tenant g = owner \<and> tenant_is_live db owner \<and> sg_type g = label \<and> sg_resource g = i) (active_shares db)"
  have keyed: "keyed tg_id (td_groups db)" using ok by (simp add: sharing_ok_def)
  have live: "tenant_is_live db (tn_id t)" using row by (auto simp: tenant_is_live_def dest!: find_row_SomeD)
  have "g \<in> set ?base \<and> (sg_grantee_tenant g = Some (tn_id t) \<or> in_ids (sg_grantee_group g) ?anc)"
    using g unfolding find_covering_grant_def Let_def option.case row bind.simps
    by (auto split: option.splits dest!: find_SomeD)
  moreover have "\<exists>r \<in> set (td_groups db). Some (tg_id r) = sg_grantee_group g \<and> tg_live r" if "in_ids (sg_grantee_group g) ?anc"
    using that live_ancestor[OF keyed] by (force simp: in_ids_def split: option.splits)
  ultimately show ?thesis using live by (auto simp: batch_shares_def)
qed

lemma row_iff_live:
  assumes "sharing_ok db"
  shows "(\<exists>row. find_row tn_id i (filter tn_live (td_tenants db)) = Some row) \<longleftrightarrow> tenant_is_live db i"
proof -
  have "keyed tn_id (filter tn_live (td_tenants db))"
    using assms by (auto simp: sharing_ok_def keyed_def distinct_map inj_on_def)
  then show ?thesis by (auto simp: find_row_iff tenant_is_live_def)
qed

section \<open>Properties\<close>

text \<open>C17. Shared stock is never reached by accident: when the resolver allows an access, the active tenant
  is live, the pool is of an approved model and belongs through a live location to a live tenant, the
  actor (or an issued system authorization) holds the permission in the active tenant, and unless the
  active tenant owns the pool an unrevoked share of that very pool by its owner covers the active
  tenant, directly or through a group above its own, at the requested level or above.\<close>

theorem stock_access_justified:
  assumes "sharing_ok db"
    and "de_allowed (fst (resolve_stock_access db now user s level perm (Some t) sysauth op w))"
  shows "tenant_is_live db (tn_id t) \<and> fst (actor_or_system_has_permission db now user t perm sysauth op None w) \<and>
    (\<exists>label i row loc owner. ar_label s = Some label \<and> label \<in> set APPROVED_RESOURCE_MODELS \<and> ar_id s = Some i \<and>
       row \<in> set (sh_stocks db) \<and> st_label row = label \<and> st_id row = i \<and>
       loc \<in> set (sh_locations db) \<and> st_location row = Some (lc_id loc) \<and> lc_tenant loc = Some owner \<and>
       lc_deleted loc = None \<and> tenant_is_live db owner \<and>
       (owner = tn_id t \<or> (\<exists>g. share_covers db owner t i label g \<and> level_suffices g level)))"
proof -
  from assms(2)[unfolded resolve_stock_access_def resolver_allowed] obtain label owner where
    a: "approved_resource_type s = Some label" "live_owner_tenant_id db s None = Some owner" "tenant_is_live db (tn_id t)"
      "owner = tn_id t \<or> (\<exists>g reason. find_covering_grant db owner t (the (ar_id s)) label None = Some (g, reason) \<and> level_suffices g level)"
      "fst (actor_or_system_has_permission db now user t perm sysauth op None w)" by auto
  from live_owner_facts[OF a(2)] obtain row loc l where r: "row \<in> set (sh_stocks db)" "Some (st_label row) = ar_label s"
    "Some (st_id row) = ar_id s" "st_location row = Some l" "find_row lc_id l (sh_locations db) = Some loc"
    "lc_tenant loc = Some owner" "lc_deleted loc = None" "tenant_is_live db owner" by blast
  have lab: "ar_label s = Some label" "label \<in> set APPROVED_RESOURCE_MODELS"
    using a(1) by (auto simp: approved_resource_type_def split: option.splits if_splits)
  have i: "ar_id s = Some (st_id row)" "the (ar_id s) = st_id row" using r(3) by (metis, metis option.sel)
  have cov: "owner = tn_id t \<or> (\<exists>g. share_covers db owner t (st_id row) label g \<and> level_suffices g level)"
    using a(4) find_covering_grant_sound assms(1) i(2) by (auto simp: sharing_ok_def)
  have loc: "loc \<in> set (sh_locations db)" "st_location row = Some (lc_id loc)"
    using find_row_SomeD[OF r(5)] r(4) by auto
  have "st_label row = label" using r(2) lab(1) by simp
  then show ?thesis using a(3,5) lab i(1) r(1,6-8) loc cov by blast
qed

text \<open>C30. The batch listing is the resolver, pool by pool: a pool that the active tenant does not own is
  listed exactly when the single resolver allows the same access to it.\<close>

theorem batch_agrees_with_resolver:
  assumes ok: "sharing_ok db"
    and foreign: "live_owner_tenant_id db \<lparr>ar_label = Some label, ar_id = Some x\<rparr> None \<noteq> Some (tn_id t)"
  shows "x \<in> set (fst (resolved_shared_stock_ids db now label (Some t) user level perm sysauth op w)) \<longleftrightarrow>
    de_allowed (fst (resolve_stock_access db now user \<lparr>ar_label = Some label, ar_id = Some x\<rparr> level perm (Some t) sysauth op w))"
    (is "?batch = ?single")
proof -
  obtain b w1 where p: "actor_or_system_has_permission db now user t perm sysauth op None w = (b, w1)"
    by (cases "actor_or_system_has_permission db now user t perm sysauth op None w")
  consider (bad) "\<not> tenant_is_live db (tn_id t) \<or> access_order level = None \<or> label \<notin> set APPROVED_RESOURCE_MODELS \<or> \<not> b"
    | (good) row where "find_row tn_id (tn_id t) (filter tn_live (td_tenants db)) = Some row" "access_order level \<noteq> None"
        "label \<in> set APPROVED_RESOURCE_MODELS" "b"
    using row_iff_live[OF ok] by blast
  then show ?thesis
  proof cases
    case bad
    then have "\<not> ?batch"
      using row_iff_live[OF ok, of "tn_id t"] p by (auto simp: resolved_shared_stock_ids_def split: option.splits)
    moreover have "\<not> ?single"
      using bad p by (auto simp: resolve_stock_access_def resolver_allowed approved_resource_type_def)
    ultimately show ?thesis by blast
  next
    case good
    let ?anc = "get_ancestor_tenant_group_ids (td_groups db) (tn_group row) True"
    define shares where "shares = batch_shares db label t ?anc"
    define cs where "cs = batch_candidates db label (map sg_resource shares)"
    define ev where "ev = \<lparr>ev_tenant = tn_id t, ev_owner = map_of (map (\<lambda>(r, owner). (st_id r, owner)) cs),
      ev_direct = (\<lambda>i. filter (\<lambda>g. sg_grantee_tenant g \<noteq> None \<and> sg_resource g = i) shares),
      ev_group = (\<lambda>i. filter (\<lambda>g. sg_grantee_tenant g = None \<and> sg_resource g = i) shares), ev_rbac = b\<rparr>"
    have batch: "?batch \<longleftrightarrow> x \<in> set (fst (project_candidates ev db now user label level perm (Some t) sysauth op cs w1))"
      using good p by (auto simp: resolved_shared_stock_ids_def shares_def cs_def ev_def Let_def)
    have w1: "w1 = w" if "user = None" using p that by (auto simp: actor_or_system_has_permission_def split: option.splits)
    have agree: "de_allowed (fst (resolve_stock_access_with (Some ev) db now user \<lparr>ar_label = Some label, ar_id = Some (st_id r)\<rparr>
          level perm (Some t) sysauth op w1)) \<longleftrightarrow>
        de_allowed (fst (resolve_stock_access db now user \<lparr>ar_label = Some label, ar_id = Some (st_id r)\<rparr>
          level perm (Some t) sysauth op w))" if "(r, owner) \<in> set cs" for r owner
      by (rule resolver_batch[OF ok good(1) that[unfolded cs_def], where shares = shares])
        (use good(4) p w1 in \<open>simp_all add: ev_def cs_def shares_def\<close>)
    have listed: "\<exists>r owner. (r, owner) \<in> set cs \<and> st_id r = x" if "?single"
    proof -
      from that[unfolded resolve_stock_access_def resolver_allowed] foreign obtain owner g reason where
        o: "live_owner_tenant_id db \<lparr>ar_label = Some label, ar_id = Some x\<rparr> None = Some owner"
        and g: "find_covering_grant db owner t x label None = Some (g, reason)"
        by (auto simp: approved_resource_type_def split: if_splits)
      have "g \<in> set shares \<and> sg_resource g = x"
        unfolding shares_def by (rule covering_grant_listed[OF ok good(1) g])
      then have "x \<in> set (map sg_resource shares)" by auto
      with live_owner_facts[OF o] have "\<exists>r. (r, owner) \<in> set cs \<and> st_id r = x"
        by (auto simp: cs_def mem_batch_candidates)
      then show ?thesis by blast
    qed
    show ?thesis unfolding batch mem_project using agree listed by blast
  qed
qed

text \<open>Validation accepts only effective shares: when an active share of a pool to a live tenant passes
  \<open>clean\<close> and the owner and the pool's location are live, the resolver attributes the pool to the
  share's owner and finds a grant that covers the grantee.\<close>

theorem clean_share_effective:
  assumes "sharing_ok db" "share_clean db g = Inr ()" "g \<in> set (active_shares db)"
    and "sg_type g \<noteq> []" "sg_resource g \<noteq> 0" "sg_grantee_tenant g = Some (tn_id t)" "tenant_is_live db (tn_id t)"
    and "tenant_is_live db (sg_tenant g)" "\<And>l. l \<in> set (sh_locations db) \<Longrightarrow> lc_deleted l = None"
  shows "sg_tenant g \<noteq> tn_id t \<and>
    live_owner_tenant_id db \<lparr>ar_label = Some (sg_type g), ar_id = Some (sg_resource g)\<rparr> None = Some (sg_tenant g) \<and>
    find_covering_grant db (sg_tenant g) t (sg_resource g) (sg_type g) None = Some (g, DirectGrant)"
proof -
  have del: "sg_deleted g = None" using assms(3) by (simp add: active_shares_def)
  obtain row loc where r: "List.find (\<lambda>r. st_label r = sg_type g \<and> st_id r = sg_resource g) (sh_stocks db) = Some row"
    "Option.bind (st_location row) (\<lambda>l. find_row lc_id l (sh_locations db)) = Some loc" "lc_tenant loc = Some (sg_tenant g)"
    using assms(2,4,5) del by (auto simp: share_clean_def Let_def split: if_splits option.splits)
  have "loc \<in> set (sh_locations db)" using r(2) by (auto simp: bind_eq_Some_conv dest!: find_row_SomeD)
  then have owner: "live_owner_tenant_id db \<lparr>ar_label = Some (sg_type g), ar_id = Some (sg_resource g)\<rparr> None = Some (sg_tenant g)"
    using r assms(8,9) by (simp add: live_owner_tenant_id_def)
  let ?base = "filter (\<lambda>h. sg_tenant h = sg_tenant g \<and> tenant_is_live db (sg_tenant g) \<and> sg_type h = sg_type g
    \<and> sg_resource h = sg_resource g) (active_shares db)"
  let ?f = "List.find (\<lambda>h. sg_grantee_tenant h = Some (tn_id t) \<and> tenant_is_live db (tn_id t)) (sort_key (\<lambda>h. - sg_created h) ?base)"
  have "?f = Some g"
  proof (cases ?f)
    case None
    then show ?thesis using assms(3,6-8) by (auto simp: find_None_iff)
  next
    case (Some h)
    then have "h \<in> set (active_shares db)" "sg_type h = sg_type g" "sg_resource h = sg_resource g"
      "sg_grantee_tenant h = Some (tn_id t)" using find_SomeD[OF Some] by auto
    then have "h = g" using assms(1,3,6) unfolding sharing_ok_def by (metis option.distinct(1))
    then show ?thesis using Some by simp
  qed
  then have "find_covering_grant db (sg_tenant g) t (sg_resource g) (sg_type g) None = Some (g, DirectGrant)"
    unfolding find_covering_grant_def Let_def by simp
  moreover have "sg_tenant g \<noteq> tn_id t" using assms(2,6) by (auto simp: share_clean_def split: if_splits)
  ultimately show ?thesis using owner by blast
qed

definition sample_share :: share where
  "sample_share = \<lparr>sg_id = 40, sg_tenant = 2, sg_grantee_tenant = Some 3, sg_grantee_group = None,
     sg_type = ''inventory.componentstock'', sg_resource = 30, sg_level = ''view'', sg_created = 10,
     sg_valid_until = Some 20, sg_deleted = None\<rparr>"

definition sample_sharing :: sharing where
  "sample_sharing = tenancy.extend sample_tenancy
     \<lparr>sh_locations = [\<lparr>lc_id = 20, lc_tenant = Some 2, lc_deleted = None\<rparr>],
      sh_stocks = [\<lparr>st_label = ''inventory.componentstock'', st_id = 30, st_location = Some 20\<rparr>],
      sh_shares = [sample_share]\<rparr>"

definition sample_admin :: user where
  "sample_admin = sample_user\<lparr>us_id := 1, us_superuser := True\<rparr>"

lemmas sample_share_defs = sample_sharing_def tenancy.extend_def sample_tenancy_def sample_share_def sample_tenants

lemma sample_sharing_ok: "sharing_ok sample_sharing"
  using sample_keyed
  by (simp add: sharing_ok_def sample_sharing_def tenancy.extend_def sample_tenancy_def active_shares_def sample_share_def)
    (simp add: keyed_def sample_groups_def)

lemma sample_live: "tenant_is_live sample_sharing 2" "tenant_is_live sample_sharing 3"
  by (simp_all add: tenant_is_live_def sample_share_defs tn_live_def)

theorem clean_share_effective_witness:
  "share_clean sample_sharing sample_share = Inr () \<and>
   find_covering_grant sample_sharing 2 sample_stranger 30 ''inventory.componentstock'' None = Some (sample_share, DirectGrant)"
proof -
  have c: "share_clean sample_sharing sample_share = Inr ()"
    by (simp add: share_clean_def sample_share_defs APPROVED_RESOURCE_MODELS_def Let_def)
  have "find_covering_grant sample_sharing (sg_tenant sample_share) sample_stranger (sg_resource sample_share) (sg_type sample_share) None
      = Some (sample_share, DirectGrant)"
    using clean_share_effective[OF sample_sharing_ok c, of sample_stranger] sample_live
    by (simp add: sample_share_defs active_shares_def)
  with c show ?thesis by (simp add: sample_share_def)
qed

lemma sample_cover: "find_covering_grant sample_sharing 2 sample_stranger 30 ''inventory.componentstock'' None = Some (sample_share, DirectGrant)"
proof -
  have "active_shares sample_sharing = [sample_share]" "tn_id sample_stranger = 3"
    by (simp_all add: active_shares_def sample_share_defs)
  moreover have "sg_tenant sample_share = 2" "sg_type sample_share = ''inventory.componentstock''" "sg_resource sample_share = 30"
    "sg_grantee_tenant sample_share = Some 3" by (simp_all add: sample_share_def)
  ultimately show ?thesis by (simp add: find_covering_grant_def Let_def sample_live)
qed

lemma sample_owner: "live_owner_tenant_id sample_sharing \<lparr>ar_label = Some ''inventory.componentstock'', ar_id = Some 30\<rparr> None = Some 2"
proof -
  have "sh_stocks sample_sharing = [\<lparr>st_label = ''inventory.componentstock'', st_id = 30, st_location = Some 20\<rparr>]"
    "sh_locations sample_sharing = [\<lparr>lc_id = 20, lc_tenant = Some 2, lc_deleted = None\<rparr>]"
    by (simp_all add: sample_sharing_def tenancy.extend_def)
  then show ?thesis by (simp add: live_owner_tenant_id_def sample_live)
qed

lemma sample_view_allowed:
  "de_allowed (fst (resolve_stock_access sample_sharing 50 (Some sample_admin) \<lparr>ar_label = Some ''inventory.componentstock'', ar_id = Some 30\<rparr>
     ''view'' ''inventory.view_componentstock'' (Some sample_stranger) None None sample_world))"
proof -
  have "tn_id sample_stranger = 3" by (simp add: sample_stranger_def)
  then show ?thesis unfolding resolve_stock_access_def resolver_allowed
    by (simp add: sample_owner sample_cover sample_live approved_resource_type_def APPROVED_RESOURCE_MODELS_def access_order_def
        level_suffices_def actor_or_system_has_permission_def has_perm_def sample_admin_def sample_user_def)
      (simp add: sample_share_def)
qed

theorem stock_access_justified_witness:
  "\<exists>g. share_covers sample_sharing 2 sample_stranger 30 ''inventory.componentstock'' g \<and> level_suffices g ''view''"
  using stock_access_justified[OF sample_sharing_ok sample_view_allowed]
  by (auto simp: sample_sharing_def tenancy.extend_def sample_stranger_def)

theorem batch_agrees_with_resolver_witness:
  "30 \<in> set (fst (resolved_shared_stock_ids sample_sharing 50 ''inventory.componentstock'' (Some sample_stranger) (Some sample_admin)
     ''view'' ''inventory.view_componentstock'' None None sample_world)) \<and>
   30 \<notin> set (fst (resolved_shared_stock_ids sample_sharing 50 ''inventory.componentstock'' (Some sample_stranger) (Some sample_admin)
     ''use'' ''inventory.view_componentstock'' None None sample_world))"
proof -
  have f: "live_owner_tenant_id sample_sharing \<lparr>ar_label = Some ''inventory.componentstock'', ar_id = Some 30\<rparr> None \<noteq> Some (tn_id sample_stranger)"
    by (simp add: sample_owner) (simp add: sample_stranger_def)
  have "\<not> de_allowed (fst (resolve_stock_access sample_sharing 50 (Some sample_admin) \<lparr>ar_label = Some ''inventory.componentstock'', ar_id = Some 30\<rparr>
     ''use'' ''inventory.view_componentstock'' (Some sample_stranger) None None sample_world))"
    unfolding resolve_stock_access_def resolver_allowed
    by (auto simp: sample_owner sample_cover level_suffices_def access_order_def approved_resource_type_def sample_share_def
        sample_stranger_def[symmetric] split: if_splits)
      (simp_all add: sample_stranger_def)
  then show ?thesis
    using batch_agrees_with_resolver[OF sample_sharing_ok f] sample_view_allowed by blast
qed

section \<open>The report agrees with the permission check\<close>

definition entry_perms :: "(pk \<times> report_entry) list \<Rightarrow> pk \<Rightarrow> permission set" where
  "entry_perms data uid = (case map_of data uid of None \<Rightarrow> {} | Some e \<Rightarrow> set (re_permissions e))"

lemma entry_perms_simps [simp]:
  "entry_perms [] x = {}"
  "entry_perms ((k, e) # data) x = (if k = x then set (re_permissions e) else entry_perms data x)"
  by (simp_all add: entry_perms_def)

lemma entry_perms_add:
  "entry_perms (add_to_entry uid ss gs ps data) x = entry_perms data x \<union> (if x = uid then set ps else {})"
proof (induction data)
  case (Cons d data)
  obtain k e where d: "d = (k, e)" by (cases d)
  show ?case using Cons.IH by (cases "k = uid"; cases "k = x"; cases "x = uid") (simp_all add: d)
qed simp

lemma add_to_entry_keys:
  "map fst (add_to_entry uid ss gs ps data) = (if uid \<in> set (map fst data) then map fst data else map fst data @ [uid])"
  by (induction uid ss gs ps data rule: add_to_entry.induct) simp_all

lemma add_to_entry_distinct: "distinct (map fst data) \<Longrightarrow> distinct (map fst (add_to_entry uid ss gs ps data))"
  unfolding add_to_entry_keys by simp

lemma entry_perms_iff:
  "distinct (map fst data) \<Longrightarrow> (\<exists>e. (uid, e) \<in> set data \<and> p \<in> set (re_permissions e)) \<longleftrightarrow> p \<in> entry_perms data uid"
proof (induction data)
  case (Cons d data)
  obtain k e where d: "d = (k, e)" by (cases d)
  have "k \<notin> fst ` set data" using Cons.prems by (simp add: d)
  then have "(k, e') \<notin> set data" for e' by force
  then show ?case using Cons by (auto simp: d)
qed simp

lemma report_group_members_perms:
  "entry_perms (fold (report_group_member t g ug) ms data) x = entry_perms data x \<union>
     (if \<exists>m \<in> set ms. mb_user m = x \<and> mb_active m \<and> tn_id (mb_tenant m) = ug_tenant ug
      then set (ro_permissions (rg_role g)) else {})"
  by (induction ms arbitrary: data) (auto simp: report_group_member_def entry_perms_add)

lemma report_grant_perms:
  assumes "rg_membership g = None \<or> rg_user_group g = None"
  shows "entry_perms (report_grant desc now t g data) x = entry_perms data x \<union>
    (if covers_tenant desc now g t \<and> principal_matches x g then set (ro_permissions (rg_role g)) else {})"
  using assms
  by (auto simp: report_grant_def entry_perms_add report_group_members_perms principal_matches_def split: option.splits)

lemma report_grants_perms:
  assumes "\<And>g. g \<in> set gs \<Longrightarrow> rg_membership g = None \<or> rg_user_group g = None"
  shows "entry_perms (fold (report_grant desc now t) gs data) x = entry_perms data x \<union>
    \<Union> ((\<lambda>g. set (ro_permissions (rg_role g))) ` {g \<in> set gs. covers_tenant desc now g t \<and> principal_matches x g})"
  using assms
proof (induction gs arbitrary: data)
  case (Cons g gs)
  then have "rg_membership g = None \<or> rg_user_group g = None" by simp
  note this_perms = report_grant_perms[OF this]
  have "entry_perms (fold (report_grant desc now t) gs (report_grant desc now t g data)) x =
      entry_perms (report_grant desc now t g data) x \<union>
      \<Union> ((\<lambda>g. set (ro_permissions (rg_role g))) ` {g \<in> set gs. covers_tenant desc now g t \<and> principal_matches x g})"
    using Cons.prems by (intro Cons.IH) auto
  then show ?case by (auto simp: this_perms)
qed simp

lemma report_members_perms:
  "entry_perms (fold (\<lambda>m. add_to_entry (mb_user m) ss [] []) ms data) x = entry_perms data x"
  by (induction ms arbitrary: data) (auto simp: entry_perms_add)

lemma report_grant_distinct: "distinct (map fst data) \<Longrightarrow> distinct (map fst (report_grant desc now t g data))"
proof -
  assume d: "distinct (map fst data)"
  have "distinct (map fst data) \<Longrightarrow> distinct (map fst (fold (report_group_member t g ug) ms data))" for ug ms data
    by (induction ms arbitrary: data) (auto simp: report_group_member_def add_to_entry_distinct)
  then show ?thesis using d by (auto simp: report_grant_def add_to_entry_distinct split: option.split)
qed

lemma report_query_eq: "g \<in> set (report_query db now) \<longleftrightarrow>
    g \<in> set (td_grants db) \<and> ro_deleted (rg_role g) = None \<and> grant_is_active now g"
  by (auto simp: report_query_def active_alive alive_def)

lemma report_data_distinct: "distinct (map fst (report_data db desc now t False))"
proof -
  have m: "distinct (map fst data) \<Longrightarrow> distinct (map fst (fold (\<lambda>m. add_to_entry (mb_user m) ss [] []) ms data))" for ss ms data
    by (induction ms arbitrary: data) (auto simp: add_to_entry_distinct)
  have g: "distinct (map fst data) \<Longrightarrow> distinct (map fst (fold (report_grant desc now t) gs data))" for gs data
    by (induction gs arbitrary: data) (auto simp: report_grant_distinct)
  show ?thesis by (simp add: report_data_def m g Let_def)
qed

lemma set_sorted_permissions: "sorted_permissions ps = Inr qs \<Longrightarrow> set qs = set ps"
proof -
  assume s: "sorted_permissions ps = Inr qs"
  show ?thesis
  proof (cases "MalformedPerm \<in> set ps")
    case True
    then have "set ps = {MalformedPerm} \<and> qs = [MalformedPerm]"
      using s by (simp add: sorted_permissions_def split: if_splits)
    then show ?thesis by simp
  next
    case False
    let ?strings = "\<lambda>ps. concat (map (\<lambda>p. case p of Perm s \<Rightarrow> [s] | MalformedPerm \<Rightarrow> []) ps)"
    have "MalformedPerm \<notin> set ps \<Longrightarrow> map Perm (?strings ps) = ps" for ps
      by (induction ps) (auto split: permission.splits)
    then have "Perm ` set (?strings ps) = set ps" using False by (metis set_map)
    moreover have "qs = map Perm (sort (remdups (?strings ps)))"
      using s False by (simp add: sorted_permissions_def)
    ultimately show ?thesis by simp
  qed
qed

lemma report_rows_perms:
  "report_rows users data = Inr rows \<Longrightarrow>
     (\<exists>row \<in> set rows. rr_user row = uid \<and> p \<in> set (rr_permissions row)) \<longleftrightarrow>
     (\<exists>e. (uid, e) \<in> set data \<and> p \<in> set (re_permissions e))"
proof (induction data arbitrary: rows)
  case (Cons d data)
  obtain k e where d: "d = (k, e)" by (cases d)
  from Cons.prems obtain ps rows' where r: "sorted_permissions (re_permissions e) = Inr ps"
    "report_rows users data = Inr rows'" "tl rows = rows'" "rows \<noteq> []" "rr_user (hd rows) = k" "rr_permissions (hd rows) = ps"
    by (auto simp: d result_simps)
  obtain r0 where "rows = r0 # rows'" using r(3,4) by (cases rows) auto
  then show ?case using Cons.IH[OF r(2)] set_sorted_permissions[OF r(1)] r(5,6) by (auto simp: d)
qed simp

text \<open>The report of a tenant (all users) lists for a user exactly the permissions that the grants confer there.\<close>

lemma report_lists_held:
  assumes "tenant_access_report db users (walk_desc (td_groups db)) now t False = Inr rows"
    and "\<And>g. g \<in> set (td_grants db) \<Longrightarrow> rg_membership g = None \<or> rg_user_group g = None"
  shows "(\<exists>row \<in> set rows. rr_user row = uid \<and> p \<in> set (rr_permissions row)) \<longleftrightarrow> p \<in> held db now uid t"
proof -
  let ?d = "walk_desc (td_groups db)"
  let ?data = "report_data db ?d now t False"
  from assms(1) obtain rows' where rows': "report_rows users ?data = Inr rows'" "set rows = set rows'"
    by (cases "report_rows users ?data") (auto simp: tenant_access_report_def)
  have "(\<exists>row \<in> set rows. rr_user row = uid \<and> p \<in> set (rr_permissions row)) \<longleftrightarrow>
      (\<exists>e. (uid, e) \<in> set ?data \<and> p \<in> set (re_permissions e))"
    using report_rows_perms[OF rows'(1)] rows'(2) by simp
  also have "\<dots> \<longleftrightarrow> p \<in> entry_perms ?data uid"
    by (rule entry_perms_iff[OF report_data_distinct])
  also have "entry_perms ?data uid = \<Union> ((\<lambda>g. set (ro_permissions (rg_role g))) `
      {g \<in> set (report_query db now). covers_tenant ?d now g t \<and> principal_matches uid g})"
  proof -
    have one: "rg_membership g = None \<or> rg_user_group g = None" if "g \<in> set (report_query db now)" for g
      using assms(2) that by (simp add: report_query_def)
    show ?thesis
      by (simp add: report_data_def Let_def report_grants_perms[OF one] report_members_perms)
  qed
  also have "p \<in> \<dots> \<longleftrightarrow> (\<exists>g. g \<in> set (report_query db now) \<and> covers_tenant ?d now g t \<and> principal_matches uid g \<and>
      p \<in> set (ro_permissions (rg_role g)))" by blast
  also have "\<dots> \<longleftrightarrow> (\<exists>g \<in> set (td_grants db). principal_matches uid g \<and> p \<in> set (ro_permissions (rg_role g)) \<and>
      covers_tenant ?d now g t)"
    using covers_live_grant[of ?d now _ t] unfolding report_query_eq by blast
  finally show ?thesis unfolding held_iff .
qed

text \<open>C31. The access report agrees with the backend's check.  When the report of a stored tenant is produced (all users) and each
  grant has one kind of principal, then at the same instant, in a context without contradictory scopes and with memos that hold nothing
  expired, \<open>has_perm\<close> on an object of the tenant answers true exactly for an active user who is a superuser or whom the report lists with
  that permission.  So superusers have every permission without being listed, and a deactivated account is listed
  but refused.\<close>

theorem report_matches_rbac:
  assumes "tenant_access_report db users (walk_desc (td_groups db)) now t False = Inr rows"
    and "\<And>g. g \<in> set (td_grants db) \<Longrightarrow> rg_membership g = None \<or> rg_user_group g = None"
    and "world_ok db now (us_id u) w" "memo_current db now (us_id u) (w_memo w)"
    and "\<not> scope_conflict (w_ctx w) (Some u)" "object_tenant obj = Some t" "t \<in> set (td_tenants db)"
  shows "fst (has_perm db now u perm (Some obj) w) \<longleftrightarrow>
    us_active u \<and> (us_superuser u \<or> (\<exists>row \<in> set rows. rr_user row = us_id u \<and> Perm perm \<in> set (rr_permissions row)))"
proof (cases "us_active u \<and> \<not> us_superuser u")
  case True
  then have "fst (has_perm db now u perm (Some obj) w) \<longleftrightarrow> Perm perm \<in> held db now (us_id u) t"
    using assms(3-7) by (intro has_perm_object_ok) simp_all
  then show ?thesis using True report_lists_held[OF assms(1,2), of "us_id u" "Perm perm"] by simp
next
  case False
  then show ?thesis by (auto simp: has_perm_def)
qed

theorem report_matches_rbac_witness:
  "\<exists>rows. tenant_access_report sample_tenancy [sample_user] (walk_desc (td_groups sample_tenancy)) 50 sample_customer False = Inr rows \<and>
     (\<exists>row \<in> set rows. rr_user row = 9 \<and> Perm ''assets.view_asset'' \<in> set (rr_permissions row)) \<and>
     fst (has_perm sample_tenancy 50 sample_user ''assets.view_asset'' (Some \<lparr>ob_tenant = Some sample_customer, ob_self = None\<rparr>) sample_world)"
proof -
  let ?rep = "tenant_access_report sample_tenancy [sample_user] (walk_desc (td_groups sample_tenancy)) 50 sample_customer False"
  have cov: "covers_tenant (walk_desc (td_groups sample_tenancy)) 50 sample_grant sample_customer"
    by (simp add: walk_desc_def sample_tenancy_def sample_walk covers_tenant_def grant_is_active_def sample_grants
        principal_tenant_id_def scope_covers_def sample_tenants Let_def)
  have q: "report_query sample_tenancy 50 = [sample_grant]"
    by (simp add: report_query_def sample_tenancy_def) (simp add: sample_grant_def sample_role_def)
  have ms: "filter (\<lambda>m. tn_id (mb_tenant m) = tn_id sample_customer \<and> mb_active m) (td_memberships sample_tenancy) = []"
    by (simp add: sample_tenancy_def sample_member_def sample_tenants)
  have "report_data sample_tenancy (walk_desc (td_groups sample_tenancy)) 50 sample_customer False =
      report_grant (walk_desc (td_groups sample_tenancy)) 50 sample_customer sample_grant []"
    by (simp add: report_data_def Let_def q ms)
  also have "\<dots> = [(9, \<lparr>re_sources = [''managed''], re_groups = [], re_permissions = [Perm ''assets.view_asset'']\<rparr>)]"
    by (simp add: report_grant_def cov) (simp add: sample_grants sample_tenants)
  finally obtain rows where rows: "?rep = Inr rows"
    by (simp add: tenant_access_report_def sorted_permissions_def)
  have one: "\<And>g. g \<in> set (td_grants sample_tenancy) \<Longrightarrow> rg_membership g = None \<or> rg_user_group g = None"
    by (simp add: sample_tenancy_def sample_grant_def)
  have h: "memo_current sample_tenancy 50 (us_id sample_user) (w_memo sample_world)" "\<not> scope_conflict (w_ctx sample_world) (Some sample_user)"
    "object_tenant \<lparr>ob_tenant = Some sample_customer, ob_self = None\<rparr> = Some sample_customer" "sample_customer \<in> set (td_tenants sample_tenancy)"
    "us_id sample_user = 9" "\<not> us_superuser sample_user"
    by (simp_all add: sample_world_def sample_user_def scope_conflict_def sample_ctx_def object_tenant_def sample_tenancy_def)
  show ?thesis
    using report_matches_rbac[OF rows one sample_world_ok h(1-4)] sample_check_granted rows h(5,6) by auto
qed

end
