(* ===== verification/ExpiryRuns.thy ===== *)
theory ExpiryRuns
  imports Access TaskContext
begin

text \<open>
  Expiry of shared-resource grants: the locked revocation and restoration services of
  \<^verbatim>\<open>organization/services/resource_grants.py\<close> and the hourly, generation-fenced sweep of
  \<^verbatim>\<open>core/tasks/resource_grants.py\<close> with its run record (\<open>TenantResourceGrantExpiryRun\<close>).  A queryset
  \<open>update\<close> is a conditional update of the rows it selects; an interrupted database boundary is the
  argument \<open>fault\<close>, which says for which grant a revocation is interrupted.  One call sees one
  instant.
\<close>

section \<open>State\<close>

datatype run_state = RunQueued | RunRunning | RunEnqueueFailed | RunComplete

datatype task_status = StatusSuccess | StatusPartial | StatusSkipped | StatusRetryable | StatusTerminal

datatype run_code =
  CodeSuccess | CodeNoDue | CodePartial | CodeDbRetry | CodeTenantUnresolvable | CodeInvalidGrant | CodeTerminal
  | CodeRetryExhausted | CodeEnqueueFailed | CodeStaleDelivery

record expiry_run =
  rn_id :: pk
  rn_tenant :: pk
  rn_slot :: instant
  rn_cutoff :: instant
  rn_state :: run_state
  rn_outcome :: "task_status option"
  rn_generation :: nat
  rn_attempts :: nat
  rn_started :: "instant option"
  rn_last_attempt :: "instant option"
  rn_finished :: "instant option"
  rn_next_retry :: "instant option"
  rn_dispatch_stale :: "instant option"
  rn_lease :: "instant option"
  rn_revoked :: nat
  rn_remaining :: nat
  rn_invalid :: nat
  rn_error :: "run_code option"

text \<open>A deletion entry of the change log, and the evidence of an expiry-driven revocation.\<close>

record change =
  ch_tenant :: pk
  ch_object :: pk
  ch_request :: int

record evidence =
  ee_run :: pk
  ee_grant :: pk
  ee_change :: "change option"
  ee_valid_until :: instant
  ee_revoked_at :: instant
  ee_request :: int

record expiry_db = sharing +
  ed_runs :: "expiry_run list"
  ed_changes :: "change list"
  ed_evidence :: "evidence list"

definition QUEUE_STALE_SECONDS :: int where "QUEUE_STALE_SECONDS = 60"
definition LEASE_SECONDS :: int where "LEASE_SECONDS = 600"
definition RETRY_DELAYS :: "int list" where "RETRY_DELAYS = [60, 120, 240]"
definition EXPIRY_PERMISSION :: string where "EXPIRY_PERMISSION = ''organization.delete_tenantresourcegrant''"
definition EXPIRY_OPERATION :: string where "EXPIRY_OPERATION = ''organization.resource_grant.expire''"
definition EXPIRY_REASON :: string where
  "EXPIRY_REASON = ''Scheduled revocation of tenant resource grants whose valid_until deadline has elapsed.''"

section \<open>Run transitions\<close>

text \<open>\<open>filter(...).update(...)\<close> with the number of rows it changed as a truth value.\<close>

definition update_runs :: "(expiry_run \<Rightarrow> bool) \<Rightarrow> (expiry_run \<Rightarrow> expiry_run) \<Rightarrow> expiry_run list \<Rightarrow> bool \<times> expiry_run list" where
  "update_runs P f runs = (\<exists>r \<in> set runs. P r, map (\<lambda>r. if P r then f r else r) runs)"

definition mark_enqueue_failed :: "pk \<Rightarrow> pk \<Rightarrow> nat \<Rightarrow> expiry_run list \<Rightarrow> expiry_run list" where
  "mark_enqueue_failed tenant_id run_id generation runs =
     snd (update_runs
       (\<lambda>r. rn_id r = run_id \<and> rn_tenant r = tenant_id \<and> rn_state r = RunQueued \<and> rn_generation r = generation)
       (\<lambda>r. r\<lparr>rn_state := RunEnqueueFailed, rn_outcome := Some StatusRetryable, rn_error := Some CodeEnqueueFailed,
              rn_dispatch_stale := None, rn_next_retry := None\<rparr>) runs)"

definition due_or_unset :: "instant option \<Rightarrow> instant \<Rightarrow> bool" where
  "due_or_unset t now = (case t of None \<Rightarrow> True | Some x \<Rightarrow> x \<le> now)"

text \<open>\<open>_repair_run\<close> on a run read earlier: the update is guarded by the state and generation it saw.\<close>

definition repair_run :: "expiry_run \<Rightarrow> instant \<Rightarrow> expiry_run list \<Rightarrow> (pk \<times> nat) option \<times> expiry_run list" where
  "repair_run run now runs =
     (let stale_queued = (rn_state run = RunQueued \<and> due_or_unset (rn_dispatch_stale run) now
                          \<and> due_or_unset (rn_next_retry run) now);
          failed_enqueue = (rn_state run = RunEnqueueFailed);
          stale_running = (rn_state run = RunRunning \<and> rn_lease run \<noteq> None \<and> due_or_unset (rn_lease run) now)
      in if \<not> (stale_queued \<or> failed_enqueue \<or> stale_running) then (None, runs)
         else
           (let (changed, runs') = update_runs
              (\<lambda>r. rn_id r = rn_id run \<and> rn_tenant r = rn_tenant run \<and> rn_state r = rn_state run
                   \<and> rn_generation r = rn_generation run)
              (\<lambda>r. r\<lparr>rn_state := RunQueued,
                     rn_outcome := (if failed_enqueue \<or> stale_running then Some StatusRetryable else None),
                     rn_generation := rn_generation r + 1, rn_dispatch_stale := Some (now + QUEUE_STALE_SECONDS),
                     rn_lease := None, rn_finished := None, rn_next_retry := None\<rparr>) runs
            in (if changed then Some (rn_id run, rn_generation run + 1) else None, runs')))"

definition new_run :: "pk \<Rightarrow> pk \<Rightarrow> instant \<Rightarrow> instant \<Rightarrow> expiry_run" where
  "new_run i tenant_id slot cutoff =
     \<lparr>rn_id = i, rn_tenant = tenant_id, rn_slot = slot, rn_cutoff = cutoff, rn_state = RunQueued, rn_outcome = None,
      rn_generation = 1, rn_attempts = 0, rn_started = None, rn_last_attempt = None, rn_finished = None,
      rn_next_retry = None, rn_dispatch_stale = Some (cutoff + QUEUE_STALE_SECONDS), rn_lease = None,
      rn_revoked = 0, rn_remaining = 0, rn_invalid = 0, rn_error = None\<rparr>"

text \<open>The hour of an instant counted in seconds of UTC.\<close>

definition schedule_slot :: "instant \<Rightarrow> instant" where
  "schedule_slot t = t - t mod 3600"

text \<open>One iteration of \<open>coordinate_resource_grant_expiry\<close>: the delivery to dispatch, if any, and whether
  it repairs an existing run.  New primary keys exceed all existing ones.\<close>

definition next_run_id :: "expiry_run list \<Rightarrow> pk" where
  "next_run_id runs = fold max (map rn_id runs) 0 + 1"

definition coordinate_tenant ::
    "instant \<Rightarrow> pk \<Rightarrow> expiry_run list \<Rightarrow> ((pk \<times> nat) \<times> bool) option \<times> expiry_run list" where
  "coordinate_tenant cutoff tenant_id runs =
     (case List.find (\<lambda>r. rn_tenant r = tenant_id \<and> rn_slot r = schedule_slot cutoff) runs of
        None \<Rightarrow>
          (let run = new_run (next_run_id runs) tenant_id (schedule_slot cutoff) cutoff
           in (Some ((rn_id run, rn_generation run), False), runs @ [run]))
      | Some run \<Rightarrow>
          (let (delivery, runs') = repair_run run cutoff runs
           in (map_option (\<lambda>d. (d, True)) delivery, runs')))"

fun coordinate_loop ::
    "instant \<Rightarrow> pk list \<Rightarrow> expiry_run list \<Rightarrow> (pk \<times> pk \<times> nat) list \<Rightarrow> nat \<Rightarrow> (pk \<times> pk \<times> nat) list \<times> nat \<times> expiry_run list" where
  "coordinate_loop cutoff [] runs deliveries repaired = (deliveries, repaired, runs)"
| "coordinate_loop cutoff (t # ts) runs deliveries repaired =
     (case coordinate_tenant cutoff t runs of
        (None, runs') \<Rightarrow> coordinate_loop cutoff ts runs' deliveries repaired
      | (Some ((run_id, generation), repair), runs') \<Rightarrow>
          coordinate_loop cutoff ts runs' (deliveries @ [(t, run_id, generation)])
            (if repair then repaired + 1 else repaired))"

text \<open>\<open>coordinate_resource_grant_expiry\<close>: the deliveries enqueued on commit (tenant, run, generation),
  and the number of repairs.\<close>

definition coordinate_resource_grant_expiry ::
    "tenant list \<Rightarrow> instant \<Rightarrow> expiry_run list \<Rightarrow> (pk \<times> pk \<times> nat) list \<times> nat \<times> expiry_run list" where
  "coordinate_resource_grant_expiry tenants cutoff runs =
     coordinate_loop cutoff (map tn_id (filter tn_live tenants)) runs [] 0"

definition claim_run :: "pk \<Rightarrow> pk \<Rightarrow> nat \<Rightarrow> instant \<Rightarrow> expiry_run list \<Rightarrow> bool \<times> expiry_run list" where
  "claim_run tenant_id run_id generation now runs =
     update_runs
       (\<lambda>r. rn_id r = run_id \<and> rn_tenant r = tenant_id \<and> rn_state r = RunQueued \<and> rn_generation r = generation
            \<and> due_or_unset (rn_next_retry r) now)
       (\<lambda>r. r\<lparr>rn_state := RunRunning, rn_outcome := None, rn_attempts := rn_attempts r + 1,
              rn_started := (case rn_started r of None \<Rightarrow> Some now | Some s \<Rightarrow> Some s), rn_last_attempt := Some now,
              rn_lease := Some (now + LEASE_SECONDS), rn_error := None\<rparr>) runs"

type_synonym run_counts = "nat \<times> nat \<times> nat" \<comment> \<open>revoked, remaining due, invalid\<close>

definition complete_run ::
    "pk \<Rightarrow> nat \<Rightarrow> task_status \<Rightarrow> run_code \<Rightarrow> run_counts \<Rightarrow> instant \<Rightarrow> expiry_run list \<Rightarrow> bool \<times> expiry_run list" where
  "complete_run run_id generation outcome code counts now runs =
     update_runs (\<lambda>r. rn_id r = run_id \<and> rn_state r = RunRunning \<and> rn_generation r = generation)
       (\<lambda>r. r\<lparr>rn_state := RunComplete, rn_outcome := Some outcome, rn_finished := Some now, rn_lease := None,
              rn_next_retry := None, rn_dispatch_stale := None, rn_revoked := fst counts,
              rn_remaining := fst (snd counts), rn_invalid := snd (snd counts), rn_error := Some code\<rparr>) runs"

datatype retry_result = Exhausted | Retried | LostRun

text \<open>\<open>_retry_or_exhaust\<close>; the delivery scheduled on commit is the run at the next generation.\<close>

definition retry_or_exhaust ::
    "pk \<Rightarrow> nat \<Rightarrow> run_counts \<Rightarrow> instant \<Rightarrow> expiry_run list \<Rightarrow> retry_result \<times> expiry_run list" where
  "retry_or_exhaust run_id generation counts now runs =
     (case List.find (\<lambda>r. rn_id r = run_id \<and> rn_generation r = generation) runs of
        None \<Rightarrow> (LostRun, runs)
      | Some run \<Rightarrow>
          if rn_state run \<noteq> RunRunning then (LostRun, runs)
          else if rn_attempts run > length RETRY_DELAYS
          then (Exhausted, snd (complete_run run_id generation StatusTerminal CodeRetryExhausted counts now runs))
          else
            (let next_retry = now + RETRY_DELAYS ! (rn_attempts run - 1);
                 (changed, runs') = update_runs
                   (\<lambda>r. rn_id r = run_id \<and> rn_state r = RunRunning \<and> rn_generation r = generation)
                   (\<lambda>r. r\<lparr>rn_state := RunQueued, rn_outcome := Some StatusRetryable,
                          rn_generation := rn_generation r + 1, rn_next_retry := Some next_retry,
                          rn_dispatch_stale := Some (next_retry + QUEUE_STALE_SECONDS), rn_lease := None,
                          rn_error := Some CodeDbRetry, rn_revoked := fst counts, rn_remaining := fst (snd counts),
                          rn_invalid := snd (snd counts)\<rparr>) runs
             in (if changed then Retried else LostRun, runs')))"

definition scope_failure :: "pk \<Rightarrow> nat \<Rightarrow> run_code \<Rightarrow> instant \<Rightarrow> expiry_run list \<Rightarrow> expiry_run list" where
  "scope_failure run_id generation code now runs =
     snd (update_runs (\<lambda>r. rn_id r = run_id \<and> rn_generation r = generation \<and> rn_state r \<noteq> RunComplete)
       (\<lambda>r. r\<lparr>rn_state := RunComplete, rn_outcome := Some StatusTerminal, rn_finished := Some now, rn_lease := None,
              rn_next_retry := None, rn_dispatch_stale := None, rn_error := Some code\<rparr>) runs)"

text \<open>\<open>TenantResourceGrantExpiryRun.save\<close>: the identity fields of a stored run never change.\<close>

datatype run_save_error = IdentityImmutable

definition save_run :: "expiry_run \<Rightarrow> expiry_run list \<Rightarrow> run_save_error + expiry_run list" where
  "save_run run runs =
     (case find_row rn_id (rn_id run) runs of
        None \<Rightarrow> Inr (runs @ [run])
      | Some previous \<Rightarrow>
          if rn_tenant previous \<noteq> rn_tenant run \<or> rn_slot previous \<noteq> rn_slot run \<or> rn_cutoff previous \<noteq> rn_cutoff run
          then Inl IdentityImmutable
          else Inr (save_row rn_id run runs))"

section \<open>Revocation\<close>

datatype revoke_error =
  NoRequestContext | ActorlessWithoutAuthorization | MixedAuthorization | GrantDoesNotExist | OwnerNotActive
  | OutsideActiveTenant | InvalidResourceGrant | NotAuthorizedToRevoke | RequestMismatch | AuditMismatch
  | EvidenceMismatch | EvidenceNotUnique | DatabaseInterrupted

definition structurally_valid :: "share \<Rightarrow> bool" where
  "structurally_valid g \<longleftrightarrow> (sg_grantee_tenant g \<noteq> None) \<noteq> (sg_grantee_group g \<noteq> None) \<and>
     sg_type g \<in> set APPROVED_RESOURCE_MODELS"

text \<open>\<open>_validate_expiry_candidate\<close>: whether the grant may be revoked by this cutoff.\<close>

definition validate_expiry_candidate :: "instant option \<Rightarrow> share \<Rightarrow> revoke_error + bool" where
  "validate_expiry_candidate cutoff g =
     (if \<not> structurally_valid g then Inl InvalidResourceGrant
      else Inr (case cutoff of
                  None \<Rightarrow> True
                | Some c \<Rightarrow> \<not> (case sg_valid_until g of None \<Rightarrow> True | Some v \<Rightarrow> v > c)))"

definition sharing_of :: "expiry_db \<Rightarrow> sharing" where
  "sharing_of db = sharing.truncate db"

definition soft_delete :: "instant \<Rightarrow> pk \<Rightarrow> share list \<Rightarrow> share list" where
  "soft_delete now i shares = map (\<lambda>g. if sg_id g = i then g\<lparr>sg_deleted := Some now\<rparr> else g) shares"

definition delete_changes :: "expiry_db \<Rightarrow> share \<Rightarrow> int \<Rightarrow> change list" where
  "delete_changes db g rid =
     filter (\<lambda>c. ch_tenant c = sg_tenant g \<and> ch_object c = sg_id g \<and> ch_request c = rid) (ed_changes db)"

text \<open>\<open>revoke_resource_grant\<close>: an error rolls the transaction back, the unique constraint on a grant's
  evidence included; \<open>Inr False\<close> is the result \<open>None\<close>.\<close>

definition revoke_resource_grant ::
    "(pk \<Rightarrow> bool) \<Rightarrow> expiry_db \<Rightarrow> instant \<Rightarrow> pk \<Rightarrow> user option \<Rightarrow> tenant option \<Rightarrow> sysauth option \<Rightarrow> instant option
       \<Rightarrow> expiry_run option \<Rightarrow> world \<Rightarrow> (revoke_error + bool) \<times> expiry_db \<times> world" where
  "revoke_resource_grant fault db now grant_id user active sysauth cutoff run w =
     (case cx_request (w_ctx w) of
        None \<Rightarrow> (Inl NoRequestContext, db, w)
      | Some rid \<Rightarrow>
          if user = None \<and> sysauth = None then (Inl ActorlessWithoutAuthorization, db, w)
          else if user \<noteq> None \<and> sysauth \<noteq> None then (Inl MixedAuthorization, db, w)
          else if fault grant_id then (Inl DatabaseInterrupted, db, w)
          else (case find_row sg_id grant_id (sh_shares db) of
            None \<Rightarrow> (Inl GrantDoesNotExist, db, w)
          | Some g \<Rightarrow>
              if sg_deleted g \<noteq> None then (Inr False, db, w)
              else if \<not> tenant_is_live db (sg_tenant g) then (Inl OwnerNotActive, db, w)
              else if map_option tn_id active \<noteq> Some (sg_tenant g) then (Inl OutsideActiveTenant, db, w)
              else (case validate_expiry_candidate cutoff g of
                Inl e \<Rightarrow> (Inl e, db, w)
              | Inr False \<Rightarrow> (Inr False, db, w)
              | Inr True \<Rightarrow>
                  (let (permitted, w1) = authorize_tenant_operation (sharing_of db) now user active EXPIRY_PERMISSION
                                           sysauth (if sysauth \<noteq> None then Some EXPIRY_OPERATION else None) w in
                   if \<not> permitted then (Inl NotAuthorizedToRevoke, db, w1)
                   else if sysauth \<noteq> None \<and> sa_request (the sysauth) \<noteq> Some rid then (Inl RequestMismatch, db, w1)
                   else
                     (let entry = \<lparr>ch_tenant = sg_tenant g, ch_object = sg_id g, ch_request = rid\<rparr>;
                          db1 = db\<lparr>sh_shares := soft_delete now (sg_id g) (sh_shares db),
                                   ed_changes := ed_changes db @ [entry]\<rparr>;
                          changes = delete_changes db1 g rid in
                      if length changes \<noteq> 1 then (Inl AuditMismatch, db, w1)
                      else (case run of
                        None \<Rightarrow> (Inr True, db1, w1)
                      | Some r \<Rightarrow>
                          (case sg_valid_until g of
                             None \<Rightarrow> (Inl EvidenceMismatch, db, w1)
                           | Some v \<Rightarrow>
                               if rn_tenant r \<noteq> sg_tenant g then (Inl EvidenceMismatch, db, w1)
                               else if \<exists>e \<in> set (ed_evidence db). ee_grant e = sg_id g \<and> ee_revoked_at e = now
                               then (Inl EvidenceNotUnique, db, w1)
                               else (Inr True,
                                     db1\<lparr>ed_evidence := ed_evidence db1 @
                                       [\<lparr>ee_run = rn_id r, ee_grant = sg_id g, ee_change = Some entry, ee_valid_until = v,
                                         ee_revoked_at = now, ee_request = rid\<rparr>]\<rparr>, w1))))))))"

section \<open>The sweep\<close>

definition due_share :: "pk \<Rightarrow> instant \<Rightarrow> share \<Rightarrow> bool" where
  "due_share tenant_id cutoff g \<longleftrightarrow> sg_tenant g = tenant_id \<and> sg_deleted g = None \<and>
     (case sg_valid_until g of None \<Rightarrow> False | Some v \<Rightarrow> v \<le> cutoff)"

definition evidence_valid :: "expiry_db \<Rightarrow> evidence \<Rightarrow> bool" where
  "evidence_valid db e \<longleftrightarrow>
     (case (find_row rn_id (ee_run e) (ed_runs db), find_row sg_id (ee_grant e) (sh_shares db)) of
        (Some r, Some g) \<Rightarrow> rn_tenant r = sg_tenant g \<and>
          (case ee_change e of
             None \<Rightarrow> True
           | Some c \<Rightarrow> ch_tenant c = rn_tenant r \<and> ch_object c = sg_id g \<and> ch_request c = ee_request e)
      | _ \<Rightarrow> False)"

definition count_run :: "expiry_db \<Rightarrow> expiry_run \<Rightarrow> run_counts" where
  "count_run db run =
     (let due = filter (due_share (rn_tenant run) (rn_cutoff run)) (sh_shares db)
      in (length (filter (\<lambda>e. evidence_valid db e \<and> ee_run e = rn_id run) (ed_evidence db)), length due,
          length (filter (\<lambda>g. \<not> structurally_valid g) due)))"

text \<open>The loop over the candidates: an invalid grant is skipped, any other error leaves the loop.\<close>

fun sweep_candidates ::
    "(pk \<Rightarrow> bool) \<Rightarrow> instant \<Rightarrow> tenant \<Rightarrow> sysauth \<Rightarrow> expiry_run \<Rightarrow> pk list \<Rightarrow> expiry_db \<Rightarrow> world
       \<Rightarrow> (revoke_error + unit) \<times> expiry_db \<times> world" where
  "sweep_candidates fault now t auth run [] db w = (Inr (), db, w)"
| "sweep_candidates fault now t auth run (i # is) db w =
     (case revoke_resource_grant fault db now i None (Some t) (Some auth) (Some (rn_cutoff run)) (Some run) w of
        (Inl InvalidResourceGrant, db1, w1) \<Rightarrow> sweep_candidates fault now t auth run is db1 w1
      | (Inl e, db1, w1) \<Rightarrow> (Inl e, db1, w1)
      | (Inr _, db1, w1) \<Rightarrow> sweep_candidates fault now t auth run is db1 w1)"

text \<open>How a delivery ends: a returned result, or one of the two boundary exceptions.\<close>

datatype sweep_result =
  Returned task_status run_code | RaisedTerminal run_code | RaisedRetryable

text \<open>What the body of the \<open>try\<close> does between the claim and the outcome: an error of the task context,
  of the authorization or of a revocation, or the grants swept.\<close>

definition sweep_body ::
    "(pk \<Rightarrow> bool) \<Rightarrow> instant \<Rightarrow> tenant \<Rightarrow> pk \<Rightarrow> expiry_db \<Rightarrow> ctx \<Rightarrow> authz
       \<Rightarrow> (revoke_error option + unit) \<times> expiry_db \<times> ctx \<times> authz" where
  "sweep_body fault now t run_id db c az =
     (let task0 = \<lparr>tk_tenant_id = Some (tn_id t), tk_user_id = None, tk_all_accessible = False, tk_tenant = None,
                    tk_user = None, tk_entered = False, tk_prev = capture_context c, tk_issuer = None\<rparr>
      in case task_enter (tenancy.truncate db) [] now task0 c az of
           (Inl _, _, c1, az1) \<Rightarrow> (Inl None, db, c1, az1)
         | (Inr _, task, c1, az1) \<Rightarrow>
             (case authorize_system task (Some EXPIRY_PERMISSION) (Some EXPIRY_OPERATION) (Some EXPIRY_REASON) c1 of
                Inl _ \<Rightarrow> (Inl None, db, snd (task_exit task c1), az1)
              | Inr (auth, c2) \<Rightarrow>
                  (case find_row rn_id run_id (ed_runs db) of
                     None \<Rightarrow> (Inl None, db, snd (task_exit task c2), az1)
                   | Some run \<Rightarrow>
                       (let candidates = map sg_id (filter (due_share (tn_id t) (rn_cutoff run)) (sh_shares db));
                            (r, db1, w1) = sweep_candidates fault now t auth run candidates db
                                             \<lparr>w_ctx = c2, w_az = az1, w_memo = fresh_memo\<rparr>
                        in (case r of Inl e \<Rightarrow> Inl (Some e) | Inr _ \<Rightarrow> Inr (), db1,
                            snd (task_exit task (w_ctx w1)), w_az w1)))))"

definition sweep_expired_resource_grants ::
    "(pk \<Rightarrow> bool) \<Rightarrow> instant \<Rightarrow> pk \<Rightarrow> pk \<Rightarrow> nat \<Rightarrow> expiry_db \<Rightarrow> ctx \<Rightarrow> authz
       \<Rightarrow> sweep_result \<times> expiry_db \<times> ctx \<times> authz" where
  "sweep_expired_resource_grants fault now tenant_id run_id generation db c az =
     (case find_row rn_id run_id (ed_runs db) of
        None \<Rightarrow> (Returned StatusTerminal CodeTenantUnresolvable, db, c, az)
      | Some run \<Rightarrow>
          (let failed = (Returned StatusTerminal CodeTenantUnresolvable,
                         db\<lparr>ed_runs := scope_failure run_id generation CodeTenantUnresolvable now (ed_runs db)\<rparr>, c, az)
           in if rn_tenant run \<noteq> tenant_id then failed
              else case find_row tn_id tenant_id (filter tn_live (td_tenants db)) of
                None \<Rightarrow> failed
              | Some t \<Rightarrow>
                  (let (claimed, runs1) = claim_run tenant_id run_id generation now (ed_runs db) in
                   if \<not> claimed then (Returned StatusSkipped CodeStaleDelivery, db\<lparr>ed_runs := runs1\<rparr>, c, az)
                   else
                     (let (r, db1, c1, az1) = sweep_body fault now t run_id (db\<lparr>ed_runs := runs1\<rparr>) c az;
                          counts = count_run db1 (the (find_row rn_id run_id (ed_runs db1)));
                          finish = (\<lambda>status code. db1\<lparr>ed_runs :=
                            snd (complete_run run_id generation status code counts now (ed_runs db1))\<rparr>) in
                      case r of
                        Inr _ \<Rightarrow>
                          if snd (snd counts) \<noteq> 0 \<and> fst counts = 0
                          then (RaisedTerminal CodeInvalidGrant, finish StatusTerminal CodeInvalidGrant, c1, az1)
                          else if snd (snd counts) \<noteq> 0
                          then (Returned StatusPartial CodePartial, finish StatusPartial CodePartial, c1, az1)
                          else if fst counts \<noteq> 0
                          then (Returned StatusSuccess CodeSuccess, finish StatusSuccess CodeSuccess, c1, az1)
                          else (Returned StatusSkipped CodeNoDue, finish StatusSkipped CodeNoDue, c1, az1)
                      | Inl (Some DatabaseInterrupted) \<Rightarrow>
                          (case retry_or_exhaust run_id generation counts now (ed_runs db1) of
                             (Exhausted, runs2) \<Rightarrow> (RaisedTerminal CodeRetryExhausted, db1\<lparr>ed_runs := runs2\<rparr>, c1, az1)
                           | (_, runs2) \<Rightarrow> (RaisedRetryable, db1\<lparr>ed_runs := runs2\<rparr>, c1, az1))
                      | Inl _ \<Rightarrow> (RaisedTerminal CodeTerminal, finish StatusTerminal CodeTerminal, c1, az1)))))"

section \<open>Restoration\<close>

datatype restore_error =
  RestoreContext task_error | NotAuthorizedToRestore | DeadlineNotInFuture | RestoreDoesNotExist | NotRevoked
  | RestoreInvalid share_error

text \<open>\<open>restore_resource_grant\<close>: inside a task context of the operator, which is left in every case.\<close>

definition restore_in_context ::
    "expiry_db \<Rightarrow> instant \<Rightarrow> user \<Rightarrow> tenant \<Rightarrow> pk \<Rightarrow> instant option \<Rightarrow> world \<Rightarrow> (restore_error + share) \<times> expiry_db \<times> world" where
  "restore_in_context db now u t grant_id valid_until w =
     (let (permitted, w1) = has_perm (tenancy.truncate db) now u EXPIRY_PERMISSION (Some \<lparr>ob_tenant = None, ob_self = Some t\<rparr>) w in
      if \<not> permitted then (Inl NotAuthorizedToRestore, db, w1)
      else if valid_until \<noteq> None \<and> the valid_until \<le> now then (Inl DeadlineNotInFuture, db, w1)
      else (case find_row sg_id grant_id (sh_shares db) of
        None \<Rightarrow> (Inl RestoreDoesNotExist, db, w1)
      | Some g \<Rightarrow>
          if sg_tenant g \<noteq> tn_id t then (Inl RestoreDoesNotExist, db, w1)
          else if sg_deleted g = None then (Inl NotRevoked, db, w1)
          else
            (let g' = g\<lparr>sg_valid_until := valid_until, sg_deleted := None\<rparr> in
             case share_clean (sharing_of db) g' of
               Inl e \<Rightarrow> (Inl (RestoreInvalid e), db, w1)
             | Inr _ \<Rightarrow> (Inr g', db\<lparr>sh_shares := save_row sg_id g' (sh_shares db)\<rparr>, w1))))"

definition restore_resource_grant ::
    "expiry_db \<Rightarrow> user list \<Rightarrow> instant \<Rightarrow> pk \<Rightarrow> pk \<Rightarrow> pk \<Rightarrow> instant option \<Rightarrow> ctx \<Rightarrow> authz
       \<Rightarrow> (restore_error + share) \<times> expiry_db \<times> ctx \<times> authz" where
  "restore_resource_grant db users now grant_id tenant_id user_id valid_until c az =
     (let task0 = \<lparr>tk_tenant_id = Some tenant_id, tk_user_id = Some user_id, tk_all_accessible = False, tk_tenant = None,
                    tk_user = None, tk_entered = False, tk_prev = capture_context c, tk_issuer = None\<rparr>
      in case task_enter (tenancy.truncate db) users now task0 c az of
           (Inl e, _, c1, az1) \<Rightarrow> (Inl (RestoreContext e), db, c1, az1)
         | (Inr _, task, c1, az1) \<Rightarrow>
             (case (tk_user task, tk_tenant task) of
                (Some u, Some t) \<Rightarrow>
                  (let (r, db1, w1) = restore_in_context db now u t grant_id valid_until
                                        \<lparr>w_ctx = c1, w_az = az1, w_memo = fresh_memo\<rparr>
                   in (r, db1, snd (task_exit task (w_ctx w1)), w_az w1))
              | _ \<Rightarrow> (Inl NotAuthorizedToRestore, db, snd (task_exit task c1), az1)))"

section \<open>The table of runs\<close>

text \<open>The constraints of the table: the legal combinations of state and bookkeeping columns, a positive
  generation, one run per tenant and slot.\<close>

definition run_state_ck :: "expiry_run \<Rightarrow> bool" where
  "run_state_ck r \<longleftrightarrow>
     (case rn_state r of
        RunQueued \<Rightarrow> (rn_outcome r = None \<or> rn_outcome r = Some StatusRetryable) \<and> rn_finished r = None \<and> rn_lease r = None
      | RunRunning \<Rightarrow> rn_outcome r = None \<and> rn_finished r = None \<and> rn_lease r \<noteq> None
      | RunEnqueueFailed \<Rightarrow> rn_outcome r = Some StatusRetryable \<and> rn_finished r = None \<and> rn_lease r = None
      | RunComplete \<Rightarrow> rn_outcome r \<in> {Some StatusSuccess, Some StatusPartial, Some StatusSkipped, Some StatusTerminal}
          \<and> rn_finished r \<noteq> None \<and> rn_lease r = None \<and> rn_next_retry r = None)"

definition run_table_ck :: "expiry_run list \<Rightarrow> bool" where
  "run_table_ck runs \<longleftrightarrow> keyed rn_id runs \<and> distinct (map (\<lambda>r. (rn_tenant r, rn_slot r)) runs)
     \<and> (\<forall>r \<in> set runs. 1 \<le> rn_generation r \<and> run_state_ck r)"

text \<open>Each generation is claimed at most once: an unclaimed run has fewer attempts than generations.\<close>

definition claims_fenced :: "expiry_run \<Rightarrow> bool" where
  "claims_fenced r \<longleftrightarrow> rn_attempts r \<le> rn_generation r \<and>
     (rn_state r \<in> {RunQueued, RunEnqueueFailed} \<longrightarrow> rn_attempts r < rn_generation r)"

definition run_ok :: "expiry_run \<Rightarrow> bool" where
  "run_ok r \<longleftrightarrow> 1 \<le> rn_generation r \<and> run_state_ck r \<and> claims_fenced r"

text \<open>One database step of the coordinator or of a worker, in any order and with any arguments: a run
  read earlier (\<open>seen\<close>) may be out of date when it is repaired.\<close>

inductive run_step :: "expiry_run list \<Rightarrow> expiry_run list \<Rightarrow> bool" where
  step_coordinate: "run_step runs (snd (coordinate_tenant cutoff tenant_id runs))"
| step_repair: "run_step runs (snd (repair_run seen now runs))"
| step_mark: "run_step runs (mark_enqueue_failed tenant_id run_id generation runs)"
| step_claim: "run_step runs (snd (claim_run tenant_id run_id generation now runs))"
| step_complete: "outcome \<noteq> StatusRetryable \<Longrightarrow>
    run_step runs (snd (complete_run run_id generation outcome code counts now runs))"
| step_retry: "run_step runs (snd (retry_or_exhaust run_id generation counts now runs))"
| step_scope: "run_step runs (scope_failure run_id generation code now runs)"

abbreviation run_steps :: "expiry_run list \<Rightarrow> expiry_run list \<Rightarrow> bool" where
  "run_steps \<equiv> run_step\<^sup>*\<^sup>*"

text \<open>What a step may do to one run: keep it, or move it forward.  Forward is a greater generation, or
  the same generation at a later stage; a complete run does not move.\<close>

fun stage :: "run_state \<Rightarrow> nat" where
  "stage RunQueued = 0"
| "stage RunEnqueueFailed = 1"
| "stage RunRunning = 1"
| "stage RunComplete = 2"

definition same_run :: "expiry_run \<Rightarrow> expiry_run \<Rightarrow> bool" where
  "same_run r r' \<longleftrightarrow> rn_id r' = rn_id r \<and> rn_tenant r' = rn_tenant r \<and> rn_slot r' = rn_slot r \<and> rn_cutoff r' = rn_cutoff r"

definition forward :: "expiry_run \<Rightarrow> expiry_run \<Rightarrow> bool" where
  "forward r r' \<longleftrightarrow> rn_state r \<noteq> RunComplete \<and>
     (rn_generation r < rn_generation r' \<or> rn_generation r = rn_generation r' \<and> stage (rn_state r) < stage (rn_state r'))
     \<and> rn_attempts r \<le> rn_attempts r'"

definition run_moves :: "expiry_run \<Rightarrow> expiry_run \<Rightarrow> bool" where
  "run_moves r r' \<longleftrightarrow> same_run r r' \<and> (run_ok r \<longrightarrow> run_ok r') \<and> (r' = r \<or> forward r r')"

lemma run_moves_refl [simp]: "run_moves r r"
  by (simp add: run_moves_def same_run_def)

lemma stage_open: "rn_state r \<noteq> RunComplete \<Longrightarrow> stage (rn_state r) < 2"
  by (cases "rn_state r") simp_all

text \<open>Every update of the table is one function applied to every run that moves each of them.\<close>

definition table_moves :: "expiry_run list \<Rightarrow> expiry_run list \<Rightarrow> bool" where
  "table_moves runs runs' \<longleftrightarrow> list_all2 run_moves runs runs'"

lemma table_moves_refl [simp]: "table_moves runs runs"
  by (simp add: table_moves_def list_all2_refl)

lemma table_moves_update:
  assumes "\<And>r. P r \<Longrightarrow> run_moves r (f r)"
  shows "table_moves runs (snd (update_runs P f runs))"
  using assms by (simp add: table_moves_def update_runs_def list_all2_map2 list_all2_same)

lemmas run_move_defs = run_moves_def same_run_def run_ok_def run_state_ck_def claims_fenced_def forward_def

lemma mark_moves: "table_moves runs (mark_enqueue_failed tenant_id run_id generation runs)"
  unfolding mark_enqueue_failed_def by (rule table_moves_update) (auto simp: run_move_defs)

lemma claim_moves: "table_moves runs (snd (claim_run tenant_id run_id generation now runs))"
  unfolding claim_run_def by (rule table_moves_update) (auto simp: run_move_defs)

lemma complete_moves:
  assumes "outcome \<noteq> StatusRetryable"
  shows "table_moves runs (snd (complete_run run_id generation outcome code counts now runs))"
  unfolding complete_run_def using assms
  by (intro table_moves_update) (cases outcome; simp add: run_move_defs)

lemma scope_moves: "table_moves runs (scope_failure run_id generation code now runs)"
  unfolding scope_failure_def
  by (rule table_moves_update) (auto simp: run_move_defs stage_open)

lemma repair_moves: "table_moves runs (snd (repair_run seen now runs))"
  unfolding repair_run_def Let_def
  by (simp add: case_prod_beta)
     (intro conjI impI table_moves_update; auto simp: run_move_defs)

lemma retry_moves: "table_moves runs (snd (retry_or_exhaust run_id generation counts now runs))"
  unfolding retry_or_exhaust_def Let_def
  by (simp add: case_prod_beta complete_moves split: option.split)
     (intro conjI impI allI table_moves_update; auto simp: run_move_defs)

text \<open>A new run is put behind the others, under a key and a slot of its own.\<close>

lemma next_run_id_fresh: "r \<in> set runs \<Longrightarrow> rn_id r < next_run_id runs"
proof -
  assume "r \<in> set runs"
  then have "rn_id r \<le> Max (set (0 # map rn_id runs))" by (intro Max_ge) auto
  then show ?thesis by (simp only: Max.set_eq_fold next_run_id_def)
qed

lemma new_run_ok: "run_ok (new_run i tenant_id slot cutoff)"
  by (simp add: new_run_def run_move_defs)

definition fresh_run :: "expiry_run list \<Rightarrow> expiry_run \<Rightarrow> bool" where
  "fresh_run runs r \<longleftrightarrow> run_ok r \<and> rn_id r = next_run_id runs
     \<and> (\<forall>q \<in> set runs. (rn_tenant q, rn_slot q) \<noteq> (rn_tenant r, rn_slot r))"

lemma coordinate_moves:
  "table_moves runs (snd (coordinate_tenant cutoff tenant_id runs))
   \<or> (\<exists>r. snd (coordinate_tenant cutoff tenant_id runs) = runs @ [r] \<and> fresh_run runs r)"
proof (cases "List.find (\<lambda>r. rn_tenant r = tenant_id \<and> rn_slot r = schedule_slot cutoff) runs")
  case None
  let ?r = "new_run (next_run_id runs) tenant_id (schedule_slot cutoff) cutoff"
  have "snd (coordinate_tenant cutoff tenant_id runs) = runs @ [?r]" by (simp add: coordinate_tenant_def None Let_def)
  moreover have "fresh_run runs ?r"
    using None by (simp add: fresh_run_def new_run_ok find_None_iff) (auto simp: new_run_def)
  ultimately show ?thesis by blast
next
  case (Some run)
  then show ?thesis using repair_moves[of runs run cutoff] by (simp add: coordinate_tenant_def case_prod_beta)
qed

lemma run_step_moves:
  "run_step runs runs' \<Longrightarrow> table_moves runs runs' \<or> (\<exists>r. runs' = runs @ [r] \<and> fresh_run runs r)"
proof (induction rule: run_step.induct)
  case (step_coordinate runs cutoff tenant_id)
  show ?case by (rule coordinate_moves)
qed (simp_all add: repair_moves mark_moves claim_moves complete_moves retry_moves scope_moves)

lemma table_moves_forth: "table_moves runs runs' \<Longrightarrow> r \<in> set runs \<Longrightarrow> \<exists>r' \<in> set runs'. run_moves r r'"
  unfolding table_moves_def by (induction rule: list_all2_induct) auto

lemma table_moves_back: "table_moves runs runs' \<Longrightarrow> r' \<in> set runs' \<Longrightarrow> \<exists>r \<in> set runs. run_moves r r'"
  unfolding table_moves_def by (induction rule: list_all2_induct) auto

lemma table_moves_keys:
  assumes "table_moves runs runs'"
  shows "map rn_id runs' = map rn_id runs"
    and "map (\<lambda>r. (rn_tenant r, rn_slot r)) runs' = map (\<lambda>r. (rn_tenant r, rn_slot r)) runs"
  using assms[unfolded table_moves_def]
  by (induction rule: list_all2_induct) (auto simp: run_moves_def same_run_def)

definition table_ok :: "expiry_run list \<Rightarrow> bool" where
  "table_ok runs \<longleftrightarrow> keyed rn_id runs \<and> distinct (map (\<lambda>r. (rn_tenant r, rn_slot r)) runs) \<and> (\<forall>r \<in> set runs. run_ok r)"

lemma table_ok_moves:
  assumes "table_moves runs runs'" "table_ok runs"
  shows "table_ok runs'"
proof -
  have "\<forall>r \<in> set runs'. run_ok r"
    using assms(2) table_moves_back[OF assms(1)] by (fastforce simp: table_ok_def run_moves_def)
  then show ?thesis using assms(2) table_moves_keys[OF assms(1)] by (simp add: table_ok_def keyed_def)
qed

lemma table_ok_snoc: "table_ok runs \<Longrightarrow> fresh_run runs r \<Longrightarrow> table_ok (runs @ [r])"
  using next_run_id_fresh[of _ runs] by (fastforce simp: table_ok_def fresh_run_def keyed_def)

lemma table_ok_step: "run_step runs runs' \<Longrightarrow> table_ok runs \<Longrightarrow> table_ok runs'"
  using run_step_moves[of runs runs'] table_ok_moves table_ok_snoc by blast

lemma table_ok_steps: "run_steps runs runs' \<Longrightarrow> table_ok runs \<Longrightarrow> table_ok runs'"
  by (induction rule: rtranclp_induct) (auto intro: table_ok_step)

definition advances :: "expiry_run \<Rightarrow> expiry_run \<Rightarrow> bool" where
  "advances r r' \<longleftrightarrow> same_run r r' \<and> (r' = r \<or> forward r r')"

lemma advancesD:
  assumes "advances r r'"
  shows "same_run r r'" "rn_attempts r \<le> rn_attempts r'" "rn_generation r \<le> rn_generation r'"
    "rn_state r = RunComplete \<Longrightarrow> r' = r"
    "rn_state r = RunRunning \<Longrightarrow> rn_generation r' = rn_generation r \<Longrightarrow> rn_state r' \<noteq> RunQueued"
  using assms by (auto simp: advances_def forward_def)

lemma advances_trans: "advances a b \<Longrightarrow> advances b c \<Longrightarrow> advances a c"
  by (auto simp: advances_def same_run_def forward_def)

lemma advances_step: "run_step runs runs' \<Longrightarrow> r \<in> set runs \<Longrightarrow> \<exists>r' \<in> set runs'. advances r r'"
proof (drule run_step_moves, elim disjE exE conjE)
  assume "table_moves runs runs'" "r \<in> set runs"
  then show "\<exists>r' \<in> set runs'. advances r r'"
    using table_moves_forth[of runs runs' r] by (auto simp: run_moves_def advances_def)
next
  fix q assume "runs' = runs @ [q]" "r \<in> set runs"
  then show "\<exists>r' \<in> set runs'. advances r r'" by (auto simp: advances_def same_run_def)
qed

lemma advances_steps: "run_steps runs runs' \<Longrightarrow> r \<in> set runs \<Longrightarrow> \<exists>r' \<in> set runs'. advances r r'"
proof (induction rule: rtranclp_induct)
  case base
  then show ?case by (auto simp: advances_def same_run_def)
next
  case (step y z)
  then show ?case using advances_step[of y z] advances_trans by blast
qed

lemma update_runs_hit: "fst (update_runs P f runs) \<longleftrightarrow> (\<exists>r \<in> set runs. P r)"
    "fst (update_runs P f runs) \<Longrightarrow> \<exists>r \<in> set runs. P r \<and> f r \<in> set (snd (update_runs P f runs))"
  by (auto simp: update_runs_def)

lemma claimed_run:
  assumes "fst (claim_run tenant_id run_id generation now runs)"
  shows "\<exists>r \<in> set (snd (claim_run tenant_id run_id generation now runs)). rn_id r = run_id \<and> rn_tenant r = tenant_id
     \<and> rn_generation r = generation \<and> rn_state r = RunRunning \<and> 1 \<le> rn_attempts r"
  using update_runs_hit(2)[OF assms[unfolded claim_run_def]] unfolding claim_run_def by (elim bexE conjE, intro bexI) simp_all

lemma claim_needs_queued:
  assumes "fst (claim_run tenant_id run_id generation now runs)"
  shows "\<exists>r \<in> set runs. rn_id r = run_id \<and> rn_state r = RunQueued \<and> rn_generation r = generation"
  using assms unfolding claim_run_def update_runs_hit(1) by blast

section \<open>Properties of the run table\<close>

text \<open>C18. The table constraints of the expiry runs hold at every moment: whatever coordinators and workers
  do, in whatever order, with whatever late, duplicated or out-of-date arguments, keys and
  (tenant, slot) pairs stay unique, every generation is positive, every row satisfies the state
  constraint of the model, and a run has been claimed at most once per generation.\<close>

theorem run_table_invariant:
  assumes "run_steps [] runs"
  shows "run_table_ck runs \<and> (\<forall>r \<in> set runs. claims_fenced r)"
proof -
  have "table_ok runs" using table_ok_steps[OF assms] by (simp add: table_ok_def keyed_def)
  then show ?thesis by (auto simp: table_ok_def run_table_ck_def run_ok_def)
qed

text \<open>A run of tenant 2 created at 7200, claimed at 7205 and closed by a scope failure.\<close>

definition sample_run :: expiry_run where
  "sample_run = new_run 1 2 7200 7200"

lemma sample_created: "snd (coordinate_tenant 7200 2 []) = [sample_run]"
  by (simp add: coordinate_tenant_def next_run_id_def sample_run_def schedule_slot_def Let_def)

lemma sample_steps: "run_steps [] (snd (claim_run 2 1 1 7205 [sample_run]))"
  using step_coordinate[of "[]" 7200 2] step_claim[of "[sample_run]" 2 1 1 7205] unfolding sample_created
  by (rule converse_rtranclp_into_rtranclp[OF _ r_into_rtranclp])

lemma run_table_invariant_witness:
  "run_table_ck (snd (claim_run 2 1 1 7205 [sample_run]))
     \<and> list_all claims_fenced (snd (claim_run 2 1 1 7205 [sample_run]))"
  using run_table_invariant[OF sample_steps] by (simp add: list_all_iff)

text \<open>A delivery is claimed at most once: after a successful claim of a generation no later claim of
  the same generation succeeds, whatever happened in between (retries, repairs, scope failures), so
  two workers never sweep the same generation; and the claimed run is still there with its identity.\<close>

theorem generation_claimed_once:
  assumes ok: "table_ok runs" and c: "claim_run tenant_id run_id generation now runs = (True, runs1)"
    and steps: "run_steps runs1 runs2"
  shows "\<not> fst (claim_run tenant_id' run_id generation now' runs2)
     \<and> (\<exists>r \<in> set runs2. rn_id r = run_id \<and> rn_tenant r = tenant_id \<and> 1 \<le> rn_attempts r)"
proof -
  have k2: "keyed rn_id runs2"
    using table_ok_steps[OF steps] table_ok_moves[OF claim_moves[of runs tenant_id run_id generation now] ok]
    by (simp add: c table_ok_def)
  obtain r where r: "r \<in> set runs1" "rn_id r = run_id" "rn_tenant r = tenant_id" "rn_generation r = generation"
    "rn_state r = RunRunning" "1 \<le> rn_attempts r"
    using claimed_run[of tenant_id run_id generation now runs] by (simp add: c) blast
  obtain r' where r': "r' \<in> set runs2" "advances r r'" using advances_steps[OF steps r(1)] by blast
  have id': "rn_id r' = run_id" "rn_tenant r' = tenant_id" "1 \<le> rn_attempts r'"
    using r(2,3,6) advancesD(1,2)[OF r'(2)] by (simp_all add: same_run_def)
  have past: "rn_state r' \<noteq> RunQueued \<or> rn_generation r' \<noteq> generation"
    using advancesD(5)[OF r'(2)] r(4,5) by metis
  have "\<not> fst (claim_run tenant_id' run_id generation now' runs2)"
  proof
    assume "fst (claim_run tenant_id' run_id generation now' runs2)"
    then obtain q where q: "q \<in> set runs2" "rn_id q = run_id" "rn_state q = RunQueued" "rn_generation q = generation"
      using claim_needs_queued by blast
    have "q = r'" using keyed_inj[OF k2 q(1) r'(1)] q(2) id'(1) by simp
    then show False using q past by simp
  qed
  then show ?thesis using id' r'(1) by blast
qed

lemma generation_claimed_once_witness:
  "\<not> fst (claim_run 2 1 1 9000 (scope_failure 1 1 CodeTerminal 8000 (snd (claim_run 2 1 1 7205 [sample_run]))))"
proof -
  have ok: "table_ok [sample_run]" by (simp add: table_ok_def keyed_def sample_run_def new_run_ok)
  have c: "claim_run 2 1 1 7205 [sample_run] = (True, snd (claim_run 2 1 1 7205 [sample_run]))"
    by (simp add: claim_run_def update_runs_def sample_run_def new_run_def due_or_unset_def)
  show ?thesis using generation_claimed_once[OF ok c r_into_rtranclp[of run_step, OF step_scope]] by blast
qed

text \<open>Complete is final and history is monotone: every run of an earlier table is still there with its
  identity columns; it has moved to a later generation or a later stage of the same generation, with
  no fewer attempts, or is unchanged, and a complete run is unchanged in every column.\<close>

theorem run_history_monotone:
  assumes "run_steps runs runs'" and "r \<in> set runs"
  shows "\<exists>r' \<in> set runs'. same_run r r' \<and> rn_attempts r \<le> rn_attempts r' \<and> rn_generation r \<le> rn_generation r'
     \<and> (rn_state r = RunComplete \<longrightarrow> r' = r)"
  using advances_steps[OF assms] advancesD by blast

lemma run_history_monotone_witness:
  "\<exists>r' \<in> set (scope_failure 1 1 CodeTerminal 8000 [sample_run]). same_run sample_run r'
     \<and> rn_attempts sample_run \<le> rn_attempts r' \<and> rn_generation sample_run \<le> rn_generation r'
     \<and> (rn_state sample_run \<noteq> RunComplete \<or> r' = sample_run)"
  using run_history_monotone[OF r_into_rtranclp[of run_step, OF step_scope], of sample_run "[sample_run]"] by auto

section \<open>What the sweep does to the shares\<close>

lemma revoke_effect:
  assumes "revoke_resource_grant fault db now i user active sysauth cutoff run w = (res, db', w')"
  shows "res \<noteq> Inr True \<and> db' = db \<or>
    res = Inr True \<and> ed_runs db' = ed_runs db \<and> sh_shares db' = soft_delete now i (sh_shares db) \<and>
      (\<exists>g. find_row sg_id i (sh_shares db) = Some g \<and> sg_deleted g = None \<and>
         map_option tn_id active = Some (sg_tenant g) \<and> validate_expiry_candidate cutoff g = Inr True)"
proof (cases "cx_request (w_ctx w)")
  case None
  then show ?thesis using assms by (auto simp: revoke_resource_grant_def)
next
  case rid: (Some rid)
  show ?thesis
  proof (cases "find_row sg_id i (sh_shares db)")
    case None
    then show ?thesis using assms by (auto simp: revoke_resource_grant_def rid split: if_splits)
  next
    case g: (Some g)
    then have i: "sg_id g = i" using find_row_SomeD by fastforce
    show ?thesis
    proof (cases "validate_expiry_candidate cutoff g = Inr True \<and> sg_deleted g = None \<and> map_option tn_id active = Some (sg_tenant g)")
      case False
      then show ?thesis using assms
        by (cases "validate_expiry_candidate cutoff g") (auto simp: revoke_resource_grant_def rid g split: if_splits bool.splits)
    next
      case True
      then show ?thesis using assms i
        by (simp add: revoke_resource_grant_def rid g Let_def split: if_splits option.splits prod.splits) auto
    qed
  qed
qed

text \<open>A share is kept, or a due, well-formed share of the tenant is soft deleted.\<close>

definition swept :: "instant \<Rightarrow> pk \<Rightarrow> instant \<Rightarrow> share \<Rightarrow> share \<Rightarrow> bool" where
  "swept now tenant_id cutoff g g' \<longleftrightarrow>
     g' = g \<or> due_share tenant_id cutoff g \<and> structurally_valid g \<and> g' = g\<lparr>sg_deleted := Some now\<rparr>"

lemma swept_trans: "swept now t c g g' \<Longrightarrow> swept now t c g' g'' \<Longrightarrow> swept now t c g g''"
  by (auto simp: swept_def due_share_def)

lemma swept_list_trans:
  "list_all2 (swept now t c) xs ys \<Longrightarrow> list_all2 (swept now t c) ys zs \<Longrightarrow> list_all2 (swept now t c) xs zs"
  by (rule list_all2_trans[OF swept_trans])

lemma swept_refl [simp]: "list_all2 (swept now t c) xs xs"
  by (rule list_all2_refl) (simp add: swept_def)

lemma valid_candidate_due:
  "validate_expiry_candidate (Some c) g = Inr True \<Longrightarrow> sg_deleted g = None \<Longrightarrow>
     due_share (sg_tenant g) c g \<and> structurally_valid g"
  by (auto simp: validate_expiry_candidate_def due_share_def split: if_splits option.splits)

lemma sg_id_swept: "list_all2 (swept now t c) xs ys \<Longrightarrow> map sg_id ys = map sg_id xs"
  by (induction rule: list_all2_induct) (auto simp: swept_def)

lemma revoke_sweeps:
  assumes "keyed sg_id (sh_shares db)"
    and "revoke_resource_grant fault db now i user (Some t) sysauth (Some c) run w = (res, db', w')"
  shows "ed_runs db' = ed_runs db \<and> list_all2 (swept now (tn_id t) c) (sh_shares db) (sh_shares db')"
proof (cases "res = Inr True")
  case False
  then show ?thesis using revoke_effect[OF assms(2)] by auto
next
  case True
  then obtain g where g: "find_row sg_id i (sh_shares db) = Some g" "sg_deleted g = None" "tn_id t = sg_tenant g"
      "validate_expiry_candidate (Some c) g = Inr True"
    and eff: "ed_runs db' = ed_runs db" "sh_shares db' = soft_delete now i (sh_shares db)"
    using revoke_effect[OF assms(2)] by auto
  have "swept now (tn_id t) c h (if sg_id h = i then h\<lparr>sg_deleted := Some now\<rparr> else h)" if h: "h \<in> set (sh_shares db)" for h
  proof (cases "sg_id h = i")
    case True
    then have "h = g" using g(1) h find_row_mem[OF assms(1) h] by simp
    then show ?thesis using True valid_candidate_due[OF g(4,2)] g(3) by (simp add: swept_def)
  qed (simp add: swept_def)
  then show ?thesis by (simp add: eff soft_delete_def list_all2_map2 list_all2_same)
qed

lemma candidates_sweep:
  assumes "sweep_candidates fault now t auth run is db w = (res, db', w')" "keyed sg_id (sh_shares db)"
  shows "ed_runs db' = ed_runs db \<and> list_all2 (swept now (tn_id t) (rn_cutoff run)) (sh_shares db) (sh_shares db')"
  using assms
proof (induction "is" arbitrary: db w)
  case Nil
  then show ?case by simp
next
  case (Cons i "is")
  obtain r db1 w1 where v: "revoke_resource_grant fault db now i None (Some t) (Some auth) (Some (rn_cutoff run)) (Some run) w = (r, db1, w1)"
    by (metis prod.exhaust)
  note e1 = revoke_sweeps[OF Cons.prems(2) v]
  have k1: "keyed sg_id (sh_shares db1)" using Cons.prems(2) sg_id_swept[OF conjunct2[OF e1]] by (simp add: keyed_def)
  consider "sweep_candidates fault now t auth run is db1 w1 = (res, db', w')" | "db' = db1"
    using Cons.prems(1) by (auto simp: v split: sum.splits revoke_error.splits)
  then show ?case
  proof cases
    case 1
    then show ?thesis using Cons.IH[OF 1 k1] e1 swept_list_trans by metis
  next
    case 2
    then show ?thesis using e1 by simp
  qed
qed

lemma body_sweeps:
  assumes "sweep_body fault now t run_id db c az = (r, db1, c1, az1)" "keyed sg_id (sh_shares db)"
    and run: "find_row rn_id run_id (ed_runs db) = Some run"
  shows "ed_runs db1 = ed_runs db \<and> list_all2 (swept now (tn_id t) (rn_cutoff run)) (sh_shares db) (sh_shares db1)"
proof -
  let ?t0 = "\<lparr>tk_tenant_id = Some (tn_id t), tk_user_id = None, tk_all_accessible = False, tk_tenant = None,
                tk_user = None, tk_entered = False, tk_prev = capture_context c, tk_issuer = None\<rparr>"
  obtain r0 task c' az' where e: "task_enter (tenancy.truncate db) [] now ?t0 c az = (r0, task, c', az')" by (metis prod.exhaust)
  let ?auth = "authorize_system task (Some EXPIRY_PERMISSION) (Some EXPIRY_OPERATION) (Some EXPIRY_REASON) c'"
  consider "db1 = db"
    | auth c2 where "r0 = Inr ()" "?auth = Inr (auth, c2)" by (cases r0; cases ?auth) (use assms(1) in \<open>auto simp: sweep_body_def e\<close>)
  then show ?thesis
  proof cases
    case 1
    then show ?thesis by simp
  next
    case 2
    let ?cs = "map sg_id (filter (due_share (tn_id t) (rn_cutoff run)) (sh_shares db))"
    let ?w = "\<lparr>w_ctx = c2, w_az = az', w_memo = fresh_memo\<rparr>"
    obtain r1 db2 w2 where s: "sweep_candidates fault now t auth run ?cs db ?w = (r1, db2, w2)" by (metis prod.exhaust)
    have "db1 = db2" using assms(1) s by (simp add: sweep_body_def e 2 run)
    then show ?thesis using candidates_sweep[OF s assms(2)] by simp
  qed
qed

lemma find_row_claimed:
  "find_row rn_id i (snd (claim_run t run_id generation now runs)) =
     map_option (\<lambda>r. if rn_id r = run_id \<and> rn_tenant r = t \<and> rn_state r = RunQueued \<and> rn_generation r = generation
            \<and> due_or_unset (rn_next_retry r) now
       then r\<lparr>rn_state := RunRunning, rn_outcome := None, rn_attempts := rn_attempts r + 1,
              rn_started := (case rn_started r of None \<Rightarrow> Some now | Some s \<Rightarrow> Some s), rn_last_attempt := Some now,
              rn_lease := Some (now + LEASE_SECONDS), rn_error := None\<rparr> else r) (find_row rn_id i runs)"
  by (induction runs) (auto simp: claim_run_def update_runs_def)

text \<open>How a claimed sweep ends: the runs take one more step from the claimed table.\<close>

lemma sweep_claimed:
  assumes run: "find_row rn_id run_id (ed_runs db) = Some run" "rn_tenant run = tenant_id"
    and live: "find_row tn_id tenant_id (filter tn_live (td_tenants db)) = Some t"
    and cl: "claim_run tenant_id run_id generation now (ed_runs db) = (True, runs1)"
    and body: "sweep_body fault now t run_id (db\<lparr>ed_runs := runs1\<rparr>) c az = (r, db1, c1, az1)"
    and s: "sweep_expired_resource_grants fault now tenant_id run_id generation db c az = (res, db', c', az')"
    and same: "ed_runs db1 = runs1"
  shows "sh_shares db' = sh_shares db1 \<and> run_step runs1 (ed_runs db')"
proof -
  let ?counts = "count_run db1 (the (find_row rn_id run_id (ed_runs db1)))"
  obtain rr runs2 where ret: "retry_or_exhaust run_id generation ?counts now runs1 = (rr, runs2)" by (metis prod.exhaust)
  have retry: "run_step runs1 runs2" using step_retry[of runs1 run_id generation ?counts now] by (simp add: ret)
  show ?thesis
  proof (cases "r = Inl (Some DatabaseInterrupted)")
    case True
    then show ?thesis using s retry
      by (simp add: sweep_expired_resource_grants_def run live cl body Let_def same ret[unfolded same])
         (cases rr; auto)
  next
    case False
    then show ?thesis using s
      by (cases r) (auto simp: sweep_expired_resource_grants_def run live cl body Let_def same
          split: option.splits revoke_error.splits if_splits intro!: step_complete)
  qed
qed

section \<open>Properties of the sweep\<close>

text \<open>C5. A sweep is confined to what is due: whatever delivery arrives and wherever the database is
  interrupted, every share of the system is left as it was, or was a live, well-formed share of the
  run's own tenant whose deadline had passed by the cutoff of the run and is now soft deleted; and all
  the sweep does to the run table is a sequence of the modelled run steps.\<close>

theorem sweep_confined_to_due:
  assumes keys: "keyed sg_id (sh_shares db)"
    and s: "sweep_expired_resource_grants fault now tenant_id run_id generation db c az = (res, db', c', az')"
  shows "run_steps (ed_runs db) (ed_runs db') \<and>
    (case find_row rn_id run_id (ed_runs db) of
       None \<Rightarrow> sh_shares db' = sh_shares db
     | Some run \<Rightarrow> list_all2 (swept now (rn_tenant run) (rn_cutoff run)) (sh_shares db) (sh_shares db'))"
proof (cases "find_row rn_id run_id (ed_runs db)")
  case None
  then show ?thesis using s by (auto simp: sweep_expired_resource_grants_def)
next
  case run: (Some run)
  show ?thesis
  proof (cases "rn_tenant run = tenant_id \<and> find_row tn_id tenant_id (filter tn_live (td_tenants db)) \<noteq> None")
    case False
    then have "db' = db\<lparr>ed_runs := scope_failure run_id generation CodeTenantUnresolvable now (ed_runs db)\<rparr>"
      using s by (cases "rn_tenant run = tenant_id") (simp_all add: sweep_expired_resource_grants_def run Let_def)
    then show ?thesis using step_scope[of "ed_runs db" run_id generation CodeTenantUnresolvable now] by (simp add: run)
  next
    case True
    then obtain t where t: "rn_tenant run = tenant_id" "find_row tn_id tenant_id (filter tn_live (td_tenants db)) = Some t" by blast
    obtain b runs1 where cl: "claim_run tenant_id run_id generation now (ed_runs db) = (b, runs1)" by (metis prod.exhaust)
    have st: "run_step (ed_runs db) runs1" using step_claim[of "ed_runs db" tenant_id run_id generation now] by (simp add: cl)
    show ?thesis
    proof (cases b)
      case False
      then have "db' = db\<lparr>ed_runs := runs1\<rparr>" using s by (auto simp: sweep_expired_resource_grants_def run t cl)
      then show ?thesis using st by (simp add: run)
    next
      case True
      then have cl': "claim_run tenant_id run_id generation now (ed_runs db) = (True, runs1)" using cl by simp
      obtain r db1 c1 az1 where b: "sweep_body fault now t run_id (db\<lparr>ed_runs := runs1\<rparr>) c az = (r, db1, c1, az1)" by (metis prod.exhaust)
      obtain run1 where run1: "find_row rn_id run_id runs1 = Some run1" "rn_cutoff run1 = rn_cutoff run"
        using find_row_claimed[of run_id tenant_id run_id generation now "ed_runs db"] by (auto simp: cl run)
      have bs: "ed_runs db1 = runs1 \<and> list_all2 (swept now (tn_id t) (rn_cutoff run)) (sh_shares db) (sh_shares db1)"
        using body_sweeps[OF b, of run1] keys run1 by simp
      note e = sweep_claimed[OF run t(1) t(2) cl' b s conjunct1[OF bs]]
      have "tn_id t = rn_tenant run" using t find_row_SomeD by fastforce
      then show ?thesis using e bs st by (auto simp: run intro: converse_rtranclp_into_rtranclp)
    qed
  qed
qed

text \<open>A store with the run above and one share of tenant 2 that was due at instant 20.\<close>

definition sample_expiry :: expiry_db where
  "sample_expiry = sharing.extend sample_sharing \<lparr>ed_runs = [sample_run], ed_changes = [], ed_evidence = []\<rparr>"

lemma sample_expiry_simps:
  "sh_shares sample_expiry = [sample_share]" "ed_runs sample_expiry = [sample_run]" "ed_changes sample_expiry = []"
  "ed_evidence sample_expiry = []" "td_tenants sample_expiry = [sample_provider, sample_customer, sample_stranger]"
  by (simp_all add: sample_expiry_def sharing.extend_def sample_sharing_def tenancy.extend_def sample_tenancy_def)

lemma sweep_confined_to_due_witness:
  "case sweep_expired_resource_grants (\<lambda>i. i = 40) 7205 2 1 1 sample_expiry sample_ctx sample_authz of
     (res, db', c', az') \<Rightarrow> run_steps [sample_run] (ed_runs db') \<and> list_all2 (swept 7205 2 7200) [sample_share] (sh_shares db')"
proof -
  obtain res db' c' az' where s: "sweep_expired_resource_grants (\<lambda>i. i = 40) 7205 2 1 1 sample_expiry sample_ctx sample_authz
      = (res, db', c', az')" by (metis prod.exhaust)
  have k: "keyed sg_id (sh_shares sample_expiry)" by (simp add: sample_expiry_simps keyed_def)
  have r: "find_row rn_id 1 (ed_runs sample_expiry) = Some sample_run" "rn_tenant sample_run = 2" "rn_cutoff sample_run = 7200"
    by (simp_all add: sample_expiry_simps sample_run_def new_run_def)
  show ?thesis unfolding s prod.case using sweep_confined_to_due[OF k s] unfolding r(1) by (simp add: r(2,3) sample_expiry_simps)
qed

lemma coordinate_other_slots:
  assumes "r \<in> set runs" "rn_slot r \<noteq> schedule_slot cutoff" "keyed rn_id runs"
    and c: "coordinate_tenant cutoff tenant_id runs = (d, runs')"
  shows "r \<in> set runs' \<and> keyed rn_id runs' \<and> (\<forall>i g b. d = Some ((i, g), b) \<longrightarrow> i \<noteq> rn_id r)"
proof (cases "List.find (\<lambda>r. rn_tenant r = tenant_id \<and> rn_slot r = schedule_slot cutoff) runs")
  case None
  then have "d = Some ((next_run_id runs, 1), False)"
    and r': "runs' = runs @ [new_run (next_run_id runs) tenant_id (schedule_slot cutoff) cutoff]"
    using c by (simp_all add: coordinate_tenant_def Let_def new_run_def)
  then show ?thesis using assms(1,3) next_run_id_fresh[of _ runs] by (fastforce simp: keyed_def new_run_def)
next
  case (Some run)
  have run: "run \<in> set runs" "rn_slot run = schedule_slot cutoff" using find_SomeD[OF Some] by auto
  have ne: "rn_id r \<noteq> rn_id run" using keyed_inj[OF assms(3,1) run(1)] assms(2) run(2) by auto
  have rs: "runs' = snd (repair_run run cutoff runs)" and d: "d = map_option (\<lambda>d. (d, True)) (fst (repair_run run cutoff runs))"
    using c by (auto simp: coordinate_tenant_def Some split: prod.splits)
  have "r \<in> set runs'"
    unfolding rs using assms(1) ne by (force simp: repair_run_def Let_def update_runs_def)
  moreover have "keyed rn_id runs'" using table_moves_keys(1)[OF repair_moves] assms(3) by (simp add: rs keyed_def)
  moreover have "\<forall>i g b. d = Some ((i, g), b) \<longrightarrow> i \<noteq> rn_id r"
    unfolding d using ne by (auto simp: repair_run_def Let_def split: prod.splits if_splits)
  ultimately show ?thesis by blast
qed

lemma loop_other_slots:
  assumes "coordinate_loop cutoff ts runs ds n = (ds', n', runs')" "r \<in> set runs" "rn_slot r \<noteq> schedule_slot cutoff"
    "keyed rn_id runs" "rn_id r \<notin> (fst \<circ> snd) ` set ds"
  shows "r \<in> set runs' \<and> rn_id r \<notin> (fst \<circ> snd) ` set ds'"
  using assms
proof (induction ts arbitrary: runs ds n)
  case Nil
  then show ?case by simp
next
  case (Cons t ts)
  obtain d runs1 where c: "coordinate_tenant cutoff t runs = (d, runs1)" by (metis prod.exhaust)
  note k = coordinate_other_slots[OF Cons.prems(2,3,4) c]
  show ?case
  proof (cases d)
    case None
    have "coordinate_loop cutoff ts runs1 ds n = (ds', n', runs')" using Cons.prems(1) by (simp add: c None)
    then show ?thesis by (rule Cons.IH) (use Cons.prems k in simp_all)
  next
    case (Some x)
    obtain i g b where x: "x = ((i, g), b)" by (metis prod.exhaust)
    have "coordinate_loop cutoff ts runs1 (ds @ [(t, i, g)]) (if b then n + 1 else n) = (ds', n', runs')"
      using Cons.prems(1) by (simp add: c Some x)
    then show ?thesis by (rule Cons.IH) (use Cons.prems k Some x in auto)
  qed
qed

text \<open>The coordinator only ever touches the runs of the current hour: it looks up one run per tenant
  under the slot of its own cutoff, so a run of any earlier slot keeps every column and gets no
  delivery, even when it is queued and stale, lost by its worker, or failed to enqueue.\<close>

theorem earlier_slots_never_repaired:
  assumes "coordinate_resource_grant_expiry tenants cutoff runs = (deliveries, repaired, runs')"
    and "keyed rn_id runs" and "r \<in> set runs" and "rn_slot r \<noteq> schedule_slot cutoff"
  shows "r \<in> set runs' \<and> (\<forall>(tenant_id, run_id, generation) \<in> set deliveries. run_id \<noteq> rn_id r)"
  using loop_other_slots[OF assms(1)[unfolded coordinate_resource_grant_expiry_def] assms(3,4,2)] by force

text \<open>The run of hour 7200 failed to enqueue; the coordinator of the next hour leaves it there.\<close>

lemma earlier_slots_never_repaired_witness:
  "let lost = sample_run\<lparr>rn_state := RunEnqueueFailed, rn_outcome := Some StatusRetryable\<rparr> in
   case coordinate_resource_grant_expiry [sample_customer] 10800 [lost] of (ds, n, runs') \<Rightarrow>
     lost \<in> set runs' \<and> list_all (\<lambda>(tenant_id, run_id, generation). run_id \<noteq> 1) ds"
proof -
  let ?lost = "sample_run\<lparr>rn_state := RunEnqueueFailed, rn_outcome := Some StatusRetryable\<rparr>"
  obtain ds n runs' where c: "coordinate_resource_grant_expiry [sample_customer] 10800 [?lost] = (ds, n, runs')"
    by (metis prod.exhaust)
  have "keyed rn_id [?lost]" "?lost \<in> set [?lost]" "rn_slot ?lost \<noteq> schedule_slot 10800" "rn_id ?lost = 1"
    by (simp_all add: keyed_def sample_run_def new_run_def schedule_slot_def)
  from earlier_slots_never_repaired[OF c this(1-3)] this(4) show ?thesis by (simp add: c Let_def list_all_iff)
qed

end
