(* ===== verification/Stock.thy ===== *)
theory Stock
  imports Access
begin

text \<open>
  Quantity stock and its bookkeeping: \<^verbatim>\<open>inventory/abstract_models.py\<close>, \<^verbatim>\<open>inventory/models.py\<close>,
  \<^verbatim>\<open>inventory/models_stock.py\<close> and \<^verbatim>\<open>inventory/models_assignment_write.py\<close>.  The three item families
  (accessories, consumables, components) share one abstract model, so the kind is a column here and
  a row is addressed by kind and key.  Saving or deleting an assignment adjusts the pool it draws
  from; both happen in one transaction, so an error leaves the store as it was.  New primary keys
  exceed all existing ones.
\<close>

section \<open>State\<close>

datatype item_kind = Accessory | Consumable | Component

record item =
  it_kind :: item_kind
  it_id :: pk
  it_tenant :: "pk option"
  it_overallocate :: bool
  it_deleted :: "instant option"

record pool =
  po_kind :: item_kind
  po_id :: pk
  po_item :: pk
  po_location :: pk
  po_tenant :: pk
  po_qty :: int
  po_deleted :: "instant option"

record assignment =
  ag_kind :: item_kind
  ag_id :: pk
  ag_item :: pk
  ag_holder :: "pk option"
  ag_location :: "pk option"
  ag_asset :: "pk option"
  ag_from :: "pk option"
  ag_qty :: int
  ag_notes :: string
  ag_source :: "pk option"
  ag_target :: "pk option"
  ag_grant :: "pk option"
  ag_operation :: "string option"
  ag_reason :: "string option"
  ag_deleted :: "instant option"

text \<open>A holder or an asset as a destination.\<close>

record destination =
  dn_id :: pk
  dn_tenant :: "pk option"
  dn_deleted :: "instant option"

record inventory = sharing +
  iv_items :: "item list"
  iv_pools :: "pool list"
  iv_assignments :: "assignment list"
  iv_holders :: "destination list"
  iv_assets :: "destination list"

datatype stock_error =
  WriteNotPermitted | InsufficientStock | MultiplePools | StockLocationWithoutTenant | ItemMissing
  | ProvenanceModified | CreationNotAuthorized | GrantRequired | GrantDoesNotCover | NotSingleTarget
  | NegativeQuantity | RowMissing

fun item_label :: "item_kind \<Rightarrow> string" where
  "item_label Accessory = ''accessory''"
| "item_label Consumable = ''consumable''"
| "item_label Component = ''component''"

fun stock_label :: "item_kind \<Rightarrow> string" where
  "stock_label Accessory = ''inventory.accessorystock''"
| "stock_label Consumable = ''inventory.consumablestock''"
| "stock_label Component = ''inventory.componentstock''"

fun assignment_label :: "item_kind \<Rightarrow> string" where
  "assignment_label Accessory = ''accessoryassignment''"
| "assignment_label Consumable = ''consumableassignment''"
| "assignment_label Component = ''componentallocation''"

text \<open>What the shared-stock resolver sees of the pools.\<close>

definition stock_view :: "inventory \<Rightarrow> sharing" where
  "stock_view db = (sharing.truncate db)\<lparr>sh_stocks :=
     map (\<lambda>p. \<lparr>st_label = stock_label (po_kind p), st_id = po_id p, st_location = Some (po_location p)\<rparr>) (iv_pools db)\<rparr>"

definition find_item :: "inventory \<Rightarrow> item_kind \<Rightarrow> pk \<Rightarrow> item option" where
  "find_item db k i = List.find (\<lambda>r. it_kind r = k \<and> it_id r = i) (iv_items db)"

definition find_assignment :: "inventory \<Rightarrow> item_kind \<Rightarrow> pk \<Rightarrow> assignment option" where
  "find_assignment db k i = List.find (\<lambda>a. ag_kind a = k \<and> ag_id a = i) (iv_assignments db)"

definition location_tenant :: "inventory \<Rightarrow> pk \<Rightarrow> pk option" where
  "location_tenant db l = Option.bind (find_row lc_id l (sh_locations db)) lc_tenant"

definition next_id :: "pk list \<Rightarrow> pk" where
  "next_id ids = fold max ids 0 + 1"

section \<open>Write permits\<close>

text \<open>The value of the context variable: nothing, the validation-only permit, or the identity and
  fingerprint of one instance.\<close>

type_synonym fingerprint =
  "item_kind \<times> pk \<times> pk option \<times> pk option \<times> pk option \<times> pk option \<times> pk option \<times> int"

datatype permit = NoPermit | ValidationOnly | Permit int fingerprint

definition fingerprint_of :: "assignment \<Rightarrow> fingerprint" where
  "fingerprint_of a = (ag_kind a, ag_item a, ag_from a, ag_holder a, ag_location a, ag_asset a, ag_grant a, ag_qty a)"

definition write_is_permitted :: "permit \<Rightarrow> int \<Rightarrow> assignment \<Rightarrow> bool" where
  "write_is_permitted p obj a = (p = Permit obj (fingerprint_of a))"

definition write_is_authorized :: "permit \<Rightarrow> int \<Rightarrow> assignment \<Rightarrow> bool" where
  "write_is_authorized p obj a = (p = ValidationOnly \<or> write_is_permitted p obj a)"

section \<open>Stock bookkeeping\<close>

definition pool_of :: "item_kind \<Rightarrow> pk \<Rightarrow> pk \<Rightarrow> pool \<Rightarrow> bool" where
  "pool_of k i l p \<longleftrightarrow> po_kind p = k \<and> po_item p = i \<and> po_location p = l"

definition set_pool_qty :: "pool \<Rightarrow> int \<Rightarrow> pool list \<Rightarrow> pool list" where
  "set_pool_qty p q pools = map (\<lambda>x. if po_kind x = po_kind p \<and> po_id x = po_id p then x\<lparr>po_qty := q\<rparr> else x) pools"

text \<open>The pool row that \<open>get_or_create\<close> yields through the base manager, which does not hide soft-deleted
  rows, with the table after it.\<close>

definition get_or_create_pool :: "inventory \<Rightarrow> item_kind \<Rightarrow> pk \<Rightarrow> pk \<Rightarrow> stock_error + pool \<times> pool list" where
  "get_or_create_pool db k i l =
     (case filter (pool_of k i l) (iv_pools db) of
        [] \<Rightarrow>
          (case location_tenant db l of
             None \<Rightarrow> Inl StockLocationWithoutTenant
           | Some t \<Rightarrow>
               (let p = \<lparr>po_kind = k, po_id = next_id (map po_id (iv_pools db)), po_item = i, po_location = l,
                         po_tenant = t, po_qty = 0, po_deleted = None\<rparr>
                in Inr (p, iv_pools db @ [p])))
      | [p] \<Rightarrow> Inr (p, iv_pools db)
      | _ \<Rightarrow> Inl MultiplePools)"

definition update_stock :: "inventory \<Rightarrow> item_kind \<Rightarrow> pk \<Rightarrow> pk \<Rightarrow> int \<Rightarrow> bool \<Rightarrow> stock_error + inventory" where
  "update_stock db k i l diff allow_overallocate =
     (case get_or_create_pool db k i l of
        Inl e \<Rightarrow> Inl e
      | Inr (stock, pools) \<Rightarrow>
          if diff < 0 \<and> \<not> allow_overallocate \<and> po_qty stock < \<bar>diff\<bar> then Inl InsufficientStock
          else if location_tenant db l = None then Inl StockLocationWithoutTenant
          else Inr (db\<lparr>iv_pools := set_pool_qty stock (po_qty stock + diff) pools\<rparr>))"

definition move_stock :: "inventory \<Rightarrow> assignment \<Rightarrow> int \<Rightarrow> stock_error + inventory" where
  "move_stock db a diff =
     (case ag_from a of
        None \<Rightarrow> Inr db
      | Some l \<Rightarrow>
          (case find_item db (ag_kind a) (ag_item a) of
             None \<Rightarrow> Inl ItemMissing
           | Some it \<Rightarrow> update_stock db (ag_kind a) (ag_item a) l diff (it_overallocate it)))"

definition restore_deleted_assignment :: "inventory \<Rightarrow> assignment \<Rightarrow> stock_error + inventory" where
  "restore_deleted_assignment db a = move_stock db a (ag_qty a)"

definition deduct_new_assignment :: "inventory \<Rightarrow> assignment \<Rightarrow> stock_error + inventory" where
  "deduct_new_assignment db a = move_stock db a (- ag_qty a)"

definition adjust_existing_assignment :: "inventory \<Rightarrow> assignment \<Rightarrow> stock_error + inventory" where
  "adjust_existing_assignment db a =
     (case find_assignment db (ag_kind a) (ag_id a) of
        None \<Rightarrow> Inl RowMissing
      | Some old \<Rightarrow>
          if ag_deleted old \<noteq> None \<and> ag_deleted a = None then deduct_new_assignment db a
          else if ag_deleted old = None \<and> ag_deleted a \<noteq> None then Inr db
          else if ag_deleted old = None \<and> ag_deleted a = None
          then bindE (restore_deleted_assignment db old) (\<lambda>db1. deduct_new_assignment db1 a)
          else Inr db)"

text \<open>\<open>adjust_inventory_stock\<close>; \<open>adding\<close> says that the instance has no key yet.\<close>

definition adjust_inventory_stock :: "permit \<Rightarrow> int \<Rightarrow> bool \<Rightarrow> bool \<Rightarrow> assignment \<Rightarrow> inventory \<Rightarrow> stock_error + inventory" where
  "adjust_inventory_stock perm obj is_delete adding a db =
     (if \<not> write_is_permitted perm obj a then Inl WriteNotPermitted
      else if is_delete then restore_deleted_assignment db a
      else if adding then deduct_new_assignment db a
      else adjust_existing_assignment db a)"

section \<open>Provenance and validation\<close>

definition live_tenant_of :: "destination list \<Rightarrow> pk \<Rightarrow> pk option" where
  "live_tenant_of rows i =
     Option.bind (find_row dn_id i rows) (\<lambda>d. if dn_deleted d = None then dn_tenant d else None)"

definition derive_source_tenant_id :: "inventory \<Rightarrow> assignment \<Rightarrow> pk option" where
  "derive_source_tenant_id db a =
     (case ag_from a of
        Some l \<Rightarrow> Option.bind (find_row lc_id l (sh_locations db)) (\<lambda>loc.
          if lc_deleted loc = None then Option.bind (lc_tenant loc) (\<lambda>t. if tenant_is_live db t then Some t else None)
          else None)
      | None \<Rightarrow> Option.bind (find_item db (ag_kind a) (ag_item a)) (\<lambda>it. if it_deleted it = None then it_tenant it else None))"

definition derive_target_tenant_id :: "inventory \<Rightarrow> assignment \<Rightarrow> pk option" where
  "derive_target_tenant_id db a =
     (case ag_holder a of
        Some h \<Rightarrow> live_tenant_of (iv_holders db) h
      | None \<Rightarrow>
          (case ag_location a of
             Some l \<Rightarrow> Option.bind (find_row lc_id l (sh_locations db)) (\<lambda>loc. if lc_deleted loc = None then lc_tenant loc else None)
           | None \<Rightarrow> (case ag_asset a of Some x \<Rightarrow> live_tenant_of (iv_assets db) x | None \<Rightarrow> None)))"

definition source_stock :: "inventory \<Rightarrow> assignment \<Rightarrow> pool option" where
  "source_stock db a = Option.bind (ag_from a) (\<lambda>l. List.find (pool_of (ag_kind a) (ag_item a) l) (iv_pools db))"

text \<open>\<open>_grant_coverage_problems\<close> is empty.\<close>

definition grant_covers_assignment :: "inventory \<Rightarrow> share \<Rightarrow> assignment \<Rightarrow> bool" where
  "grant_covers_assignment db g a \<longleftrightarrow>
     sg_deleted g = None \<and> Some (sg_tenant g) = ag_source a \<and> sg_level g = ''use'' \<and>
     (case source_stock db a of
        None \<Rightarrow> False
      | Some p \<Rightarrow> sg_type g = stock_label (po_kind p) \<and> sg_resource g = po_id p) \<and>
     (case sg_grantee_tenant g of
        Some t \<Rightarrow> ag_target a = Some t
      | None \<Rightarrow>
          (case List.find (\<lambda>t. Some (tn_id t) = ag_target a \<and> tn_live t) (td_tenants db) of
             None \<Rightarrow> False
           | Some t \<Rightarrow>
               (case tn_group t of
                  None \<Rightarrow> False
                | Some tg \<Rightarrow> in_ids (sg_grantee_group g) (get_ancestor_tenant_group_ids (td_groups db) (Some tg) True))))"

definition crosses_tenants :: "assignment \<Rightarrow> bool" where
  "crosses_tenants a \<longleftrightarrow> ag_source a \<noteq> None \<and> ag_target a \<noteq> None \<and> ag_source a \<noteq> ag_target a"

definition assignment_clean :: "permit \<Rightarrow> int \<Rightarrow> bool \<Rightarrow> inventory \<Rightarrow> assignment \<Rightarrow> stock_error + assignment" where
  "assignment_clean perm obj adding db a =
     (if \<not> adding \<and> (case find_assignment db (ag_kind a) (ag_id a) of
            None \<Rightarrow> False
          | Some old \<Rightarrow> (ag_operation a, ag_reason a) \<noteq> (ag_operation old, ag_reason old))
      then Inl ProvenanceModified
      else
        (let a1 = a\<lparr>ag_source := derive_source_tenant_id db a, ag_target := derive_target_tenant_id db a\<rparr>
         in if adding \<and> \<not> write_is_authorized perm obj a1 then Inl CreationNotAuthorized
            else if \<not> crosses_tenants a1 then Inr (a1\<lparr>ag_grant := None\<rparr>)
            else if \<not> adding then Inr a1
            else (case Option.bind (ag_grant a1) (\<lambda>g. find_row sg_id g (sh_shares db)) of
                    None \<Rightarrow> Inl GrantRequired
                  | Some g \<Rightarrow> if grant_covers_assignment db g a1 then Inr a1 else Inl GrantDoesNotCover)))"

section \<open>Saving and deleting\<close>

text \<open>The check constraints of the table.\<close>

definition assignment_ck :: "assignment \<Rightarrow> stock_error + unit" where
  "assignment_ck a =
     (if length (filter (\<lambda>t. t \<noteq> None) [ag_holder a, ag_location a, ag_asset a]) \<noteq> 1 then Inl NotSingleTarget
      else if ag_qty a < 0 then Inl NegativeQuantity
      else Inr ())"

definition assignment_insert :: "permit \<Rightarrow> int \<Rightarrow> assignment \<Rightarrow> inventory \<Rightarrow> stock_error + assignment \<times> inventory" where
  "assignment_insert perm obj a db =
     bindE (adjust_inventory_stock perm obj False True a db) (\<lambda>db1.
     bindE (assignment_clean perm obj True db1 a) (\<lambda>a1.
     bindE (assignment_ck a1) (\<lambda>_.
       let a2 = a1\<lparr>ag_id := next_id (map ag_id (iv_assignments db1))\<rparr>
       in Inr (a2, db1\<lparr>iv_assignments := iv_assignments db1 @ [a2]\<rparr>))))"

definition replace_assignment :: "assignment \<Rightarrow> assignment list \<Rightarrow> assignment list" where
  "replace_assignment a rows = map (\<lambda>x. if ag_kind x = ag_kind a \<and> ag_id x = ag_id a then a else x) rows"

definition assignment_update :: "permit \<Rightarrow> int \<Rightarrow> assignment \<Rightarrow> inventory \<Rightarrow> stock_error + assignment \<times> inventory" where
  "assignment_update perm obj a db =
     bindE (adjust_inventory_stock perm obj False False a db) (\<lambda>db1.
     bindE (assignment_clean perm obj False db1 a) (\<lambda>a1.
     bindE (assignment_ck a1) (\<lambda>_.
       Inr (a1, db1\<lparr>iv_assignments := replace_assignment a1 (iv_assignments db1)\<rparr>))))"

text \<open>\<open>delete\<close> without \<open>force_hard_delete\<close>: the stock is restored, then the soft delete saves the one column
  \<open>deleted_at\<close>, which passes through \<open>save\<close> and \<open>clean\<close> again.\<close>

definition assignment_delete :: "permit \<Rightarrow> int \<Rightarrow> instant \<Rightarrow> assignment \<Rightarrow> inventory \<Rightarrow> stock_error + inventory" where
  "assignment_delete perm obj now a db =
     bindE (adjust_inventory_stock perm obj True False a db) (\<lambda>db1.
     let a1 = a\<lparr>ag_deleted := Some now\<rparr> in
     bindE (adjust_inventory_stock perm obj False False a1 db1) (\<lambda>db2.
     bindE (assignment_clean perm obj False db2 a1) (\<lambda>_.
       Inr (db2\<lparr>iv_assignments := map (\<lambda>x. if ag_kind x = ag_kind a \<and> ag_id x = ag_id a
                  then x\<lparr>ag_deleted := Some now\<rparr> else x) (iv_assignments db2)\<rparr>))))"

section \<open>Availability\<close>

definition live_pools :: "inventory \<Rightarrow> item_kind \<Rightarrow> pk \<Rightarrow> pool list" where
  "live_pools db k i = filter (\<lambda>p. po_kind p = k \<and> po_item p = i \<and> po_deleted p = None) (iv_pools db)"

definition live_assignments :: "inventory \<Rightarrow> item_kind \<Rightarrow> pk \<Rightarrow> assignment list" where
  "live_assignments db k i = filter (\<lambda>a. ag_kind a = k \<and> ag_item a = i \<and> ag_deleted a = None) (iv_assignments db)"

definition total_stock :: "inventory \<Rightarrow> item_kind \<Rightarrow> pk \<Rightarrow> int" where
  "total_stock db k i = sum_list (map po_qty (live_pools db k i))"

definition target_only_qty :: "inventory \<Rightarrow> item_kind \<Rightarrow> pk \<Rightarrow> int" where
  "target_only_qty db k i = sum_list (map ag_qty (filter (\<lambda>a. ag_from a = None) (live_assignments db k i)))"

definition available :: "inventory \<Rightarrow> item_kind \<Rightarrow> pk \<Rightarrow> int" where
  "available db k i =
     (let free = total_stock db k i - target_only_qty db k i in if k = Component then free else max 0 free)"

section \<open>Pools by hand\<close>

text \<open>Creating a pool in the stock form (the live item and location are unique), the plus and minus buttons
  of the stock list, and deleting a pool.\<close>

definition pool_create :: "inventory \<Rightarrow> item_kind \<Rightarrow> pk \<Rightarrow> pk \<Rightarrow> int \<Rightarrow> stock_error + inventory" where
  "pool_create db k i l qty =
     (case location_tenant db l of
        None \<Rightarrow> Inl StockLocationWithoutTenant
      | Some t \<Rightarrow>
          if \<exists>p \<in> set (iv_pools db). pool_of k i l p \<and> po_deleted p = None then Inl MultiplePools
          else Inr (db\<lparr>iv_pools := iv_pools db @
                 [\<lparr>po_kind = k, po_id = next_id (map po_id (iv_pools db)), po_item = i, po_location = l,
                   po_tenant = t, po_qty = qty, po_deleted = None\<rparr>]\<rparr>))"

datatype stock_action = Increment | Decrement | OtherAction

definition apply_action :: "stock_action \<Rightarrow> int \<Rightarrow> int" where
  "apply_action act q = (case act of Increment \<Rightarrow> q + 1 | Decrement \<Rightarrow> if q > 0 then q - 1 else q | OtherAction \<Rightarrow> q)"

definition pool_adjust :: "inventory \<Rightarrow> item_kind \<Rightarrow> pk \<Rightarrow> stock_action \<Rightarrow> inventory" where
  "pool_adjust db k i act = db\<lparr>iv_pools :=
     map (\<lambda>p. if po_kind p = k \<and> po_id p = i \<and> po_deleted p = None then p\<lparr>po_qty := apply_action act (po_qty p)\<rparr> else p) (iv_pools db)\<rparr>"

definition pool_delete :: "inventory \<Rightarrow> item_kind \<Rightarrow> pk \<Rightarrow> instant \<Rightarrow> inventory" where
  "pool_delete db k i now = db\<lparr>iv_pools :=
     map (\<lambda>p. if po_kind p = k \<and> po_id p = i then p\<lparr>po_deleted := Some now\<rparr> else p) (iv_pools db)\<rparr>"

section \<open>Balances\<close>

definition pool_qty :: "inventory \<Rightarrow> item_kind \<Rightarrow> pk \<Rightarrow> pk \<Rightarrow> int" where
  "pool_qty db k i l = sum_list (map po_qty (filter (pool_of k i l) (iv_pools db)))"

definition draws :: "item_kind \<Rightarrow> pk \<Rightarrow> pk \<Rightarrow> assignment \<Rightarrow> bool" where
  "draws k i l a \<longleftrightarrow> ag_kind a = k \<and> ag_item a = i \<and> ag_from a = Some l \<and> ag_deleted a = None"

definition out_qty :: "inventory \<Rightarrow> item_kind \<Rightarrow> pk \<Rightarrow> pk \<Rightarrow> int" where
  "out_qty db k i l = sum_list (map ag_qty (filter (draws k i l) (iv_assignments db)))"

text \<open>What is on the shelf plus what is checked out of it.\<close>

definition balance :: "inventory \<Rightarrow> item_kind \<Rightarrow> pk \<Rightarrow> pk \<Rightarrow> int" where
  "balance db k i l = pool_qty db k i l + out_qty db k i l"

definition stock_keys_ok :: "inventory \<Rightarrow> bool" where
  "stock_keys_ok db \<longleftrightarrow> distinct (map (\<lambda>p. (po_kind p, po_id p)) (iv_pools db)) \<and>
     distinct (map (\<lambda>a. (ag_kind a, ag_id a)) (iv_assignments db))"

text \<open>No pool of an item that does not allow over-allocation is below zero, and no checked out quantity is
  negative.\<close>

definition overallocatable :: "inventory \<Rightarrow> item_kind \<Rightarrow> pk \<Rightarrow> bool" where
  "overallocatable db k i \<longleftrightarrow> (case find_item db k i of None \<Rightarrow> False | Some it \<Rightarrow> it_overallocate it)"

definition quantities_ok :: "inventory \<Rightarrow> bool" where
  "quantities_ok db \<longleftrightarrow> (\<forall>p \<in> set (iv_pools db). overallocatable db (po_kind p) (po_item p) \<or> 0 \<le> po_qty p) \<and>
     (\<forall>a \<in> set (iv_assignments db). 0 \<le> ag_qty a)"

lemma next_id_fresh: "i \<in> set ids \<Longrightarrow> i < next_id ids"
proof -
  assume "i \<in> set ids"
  then have "i \<le> Max (set (0 # ids))" by (intro Max_ge) auto
  then show ?thesis by (simp only: Max.set_eq_fold next_id_def)
qed

lemma filter_singleton: "filter P xs = [x] \<Longrightarrow> x \<in> set xs \<and> P x"
  by (drule arg_cong[where f = set]) auto

lemma get_or_create_ok:
  assumes "get_or_create_pool db k i l = Inr (p, pools)" and "distinct (map (\<lambda>p. (po_kind p, po_id p)) (iv_pools db))"
  shows "filter (pool_of k i l) pools = [p] \<and> distinct (map (\<lambda>p. (po_kind p, po_id p)) pools) \<and>
    po_qty p = pool_qty db k i l \<and> (pools = iv_pools db \<or> pools = iv_pools db @ [p] \<and> po_qty p = 0)"
proof (cases "filter (pool_of k i l) (iv_pools db)")
  case Nil
  then have pools: "pools = iv_pools db @ [p]" "po_id p = next_id (map po_id (iv_pools db))" "po_qty p = 0" "pool_of k i l p"
    using assms(1) by (auto simp: get_or_create_pool_def pool_of_def Let_def split: option.splits)
  then have "(po_kind p, po_id p) \<notin> set (map (\<lambda>p. (po_kind p, po_id p)) (iv_pools db))"
    using next_id_fresh[of _ "map po_id (iv_pools db)"] by fastforce
  then show ?thesis using assms(2) pools Nil by (auto simp: pool_qty_def)
next
  case (Cons x xs)
  then show ?thesis using assms by (cases xs) (auto simp: get_or_create_pool_def pool_qty_def)
qed

lemma sum_set_pool_qty:
  assumes "distinct (map (\<lambda>p. (po_kind p, po_id p)) pools)" "p \<in> set pools" "\<And>q. P (p\<lparr>po_qty := q\<rparr>) = P p"
  shows "sum_list (map po_qty (filter P (set_pool_qty p q pools))) =
    sum_list (map po_qty (filter P pools)) + (if P p then q - po_qty p else 0)"
  using assms(1,2)
proof (induction pools)
  case (Cons x xs)
  show ?case
  proof (cases "x = p")
    case True
    have "set_pool_qty p q xs = xs"
      using Cons.prems(1) True by (auto simp: set_pool_qty_def image_iff intro!: map_idI)
    then show ?thesis using True assms(3) by (simp add: set_pool_qty_def)
  next
    case False
    then have p: "p \<in> set xs" using Cons.prems(2) by simp
    then have "\<not> (po_kind x = po_kind p \<and> po_id x = po_id p)" using Cons.prems(1) by auto
    then show ?thesis using Cons.IH p Cons.prems(1) by (simp add: set_pool_qty_def) blast
  qed
qed simp

lemma set_pool_qty_keys: "map (\<lambda>p. (po_kind p, po_id p)) (set_pool_qty p q pools) = map (\<lambda>p. (po_kind p, po_id p)) pools"
  by (simp add: set_pool_qty_def)

text \<open>A successful update of a pool: what it does to every balance, and to nothing else.\<close>

lemma update_stock_ok:
  assumes run: "update_stock db k i l diff allow = Inr db'" and keys: "stock_keys_ok db"
  shows "pool_qty db' k' i' l' = pool_qty db k' i' l' + (if k' = k \<and> i' = i \<and> l' = l then diff else 0)"
    and "db' = db\<lparr>iv_pools := iv_pools db'\<rparr>" and "stock_keys_ok db'"
    and "\<not> allow \<Longrightarrow> diff < 0 \<Longrightarrow> 0 \<le> pool_qty db k i l + diff"
    and "p' \<in> set (iv_pools db') \<Longrightarrow> p' \<in> set (iv_pools db) \<or> pool_of k i l p' \<and> po_qty p' = pool_qty db k i l + diff"
proof -
  obtain p pools where g: "get_or_create_pool db k i l = Inr (p, pools)" using run by (auto simp: update_stock_def split: sum.splits)
  have d: "distinct (map (\<lambda>p. (po_kind p, po_id p)) (iv_pools db))" using keys by (simp add: stock_keys_ok_def)
  note ok = get_or_create_ok[OF g d]
  have p: "p \<in> set pools" "pool_of k i l p" using filter_singleton[OF conjunct1[OF ok]] by auto
  have db': "db' = db\<lparr>iv_pools := set_pool_qty p (po_qty p + diff) pools\<rparr>"
    and guard: "diff < 0 \<and> \<not> allow \<longrightarrow> \<bar>diff\<bar> \<le> po_qty p"
    using run by (auto simp: update_stock_def g split: if_splits)
  have same: "pool_of k' i' l' (p\<lparr>po_qty := q\<rparr>) = pool_of k' i' l' p" for q k' i' l' by (simp add: pool_of_def)
  have add: "sum_list (map po_qty (filter (pool_of k' i' l') pools)) = pool_qty db k' i' l'"
    using ok by (auto simp: pool_qty_def)
  show "pool_qty db' k' i' l' = pool_qty db k' i' l' + (if k' = k \<and> i' = i \<and> l' = l then diff else 0)"
    using sum_set_pool_qty[of pools p "pool_of k' i' l'" "po_qty p + diff"] ok p same add
    by (auto simp: pool_qty_def db' pool_of_def)
  show "db' = db\<lparr>iv_pools := iv_pools db'\<rparr>" by (simp add: db')
  show "stock_keys_ok db'" using ok keys by (simp add: stock_keys_ok_def db' set_pool_qty_keys)
  show "\<not> allow \<Longrightarrow> diff < 0 \<Longrightarrow> 0 \<le> pool_qty db k i l + diff" using guard ok by auto
  show "p' \<in> set (iv_pools db') \<Longrightarrow> p' \<in> set (iv_pools db) \<or> pool_of k i l p' \<and> po_qty p' = pool_qty db k i l + diff"
  proof -
    assume "p' \<in> set (iv_pools db')"
    then obtain x where x: "x \<in> set pools" "p' = (if po_kind x = po_kind p \<and> po_id x = po_id p then x\<lparr>po_qty := po_qty p + diff\<rparr> else x)"
      by (auto simp: db' set_pool_qty_def)
    show ?thesis
    proof (cases "po_kind x = po_kind p \<and> po_id x = po_id p")
      case True
      then have "x = p" using x(1) p(1) conjunct1[OF conjunct2[OF ok]] by (auto simp: distinct_map inj_on_def)
      then show ?thesis using x True p(2) ok same by simp
    next
      case False
      then have "x \<noteq> p" by auto
      then show ?thesis using x False ok by auto
    qed
  qed
qed

text \<open>The movement an assignment causes: its pool by the given amount, nothing else.\<close>

definition moved :: "assignment \<Rightarrow> int \<Rightarrow> item_kind \<Rightarrow> pk \<Rightarrow> pk \<Rightarrow> int" where
  "moved a diff k i l = (if ag_kind a = k \<and> ag_item a = i \<and> ag_from a = Some l then diff else 0)"

lemma pool_qty_nonneg:
  "quantities_ok db \<Longrightarrow> \<not> overallocatable db k i \<Longrightarrow> 0 \<le> pool_qty db k i l"
  unfolding pool_qty_def by (rule sum_list_nonneg) (auto simp: quantities_ok_def pool_of_def)

lemma move_stock_ok:
  assumes run: "move_stock db a diff = Inr db'" and keys: "stock_keys_ok db"
  shows "pool_qty db' k i l = pool_qty db k i l + moved a diff k i l"
    and "db' = db\<lparr>iv_pools := iv_pools db'\<rparr>" and "stock_keys_ok db'"
    and "quantities_ok db \<Longrightarrow> quantities_ok db'"
proof -
  have "pool_qty db' k i l = pool_qty db k i l + moved a diff k i l \<and> db' = db\<lparr>iv_pools := iv_pools db'\<rparr> \<and>
      stock_keys_ok db' \<and> (quantities_ok db \<longrightarrow> quantities_ok db')"
  proof (cases "ag_from a")
    case None
    then show ?thesis using run keys by (simp add: move_stock_def moved_def)
  next
    case (Some l0)
    obtain it where it: "find_item db (ag_kind a) (ag_item a) = Some it"
      and u: "update_stock db (ag_kind a) (ag_item a) l0 diff (it_overallocate it) = Inr db'"
      using run by (auto simp: move_stock_def Some split: option.splits)
    note ok = update_stock_ok[OF u keys]
    have "quantities_ok db'" if q: "quantities_ok db"
    proof -
      have items: "overallocatable db' = overallocatable db" "iv_assignments db' = iv_assignments db"
        by (subst ok(2), simp add: overallocatable_def find_item_def fun_eq_iff)+
      have "overallocatable db (po_kind p) (po_item p) \<or> 0 \<le> po_qty p" if p: "p \<in> set (iv_pools db')" for p
      proof (cases "p \<in> set (iv_pools db)")
        case True
        then show ?thesis using q by (simp add: quantities_ok_def)
      next
        case False
        then have new: "po_kind p = ag_kind a" "po_item p = ag_item a" "po_qty p = pool_qty db (ag_kind a) (ag_item a) l0 + diff"
          using ok(5)[OF p] by (auto simp: pool_of_def)
        show ?thesis
        proof (cases "it_overallocate it")
          case True
          then show ?thesis by (simp add: new overallocatable_def it)
        next
          case no: False
          then have "0 \<le> pool_qty db (ag_kind a) (ag_item a) l0"
            using pool_qty_nonneg[OF q] by (simp add: overallocatable_def it)
          then show ?thesis using ok(4)[OF no] by (cases "diff < 0") (simp_all add: new)
        qed
      qed
      then show ?thesis using q by (simp add: quantities_ok_def items)
    qed
    then show ?thesis using ok(1-3) by (auto simp: moved_def Some)
  qed
  then show "pool_qty db' k i l = pool_qty db k i l + moved a diff k i l"
    and "db' = db\<lparr>iv_pools := iv_pools db'\<rparr>" and "stock_keys_ok db'"
    and "quantities_ok db \<Longrightarrow> quantities_ok db'" by blast+
qed

text \<open>\<open>clean\<close> fills in the derived columns only.\<close>

lemma clean_frame:
  assumes "assignment_clean perm obj adding db a = Inr a1"
  shows "a1 = a\<lparr>ag_source := derive_source_tenant_id db a, ag_target := derive_target_tenant_id db a, ag_grant := ag_grant a1\<rparr>"
    "ag_grant a1 = None \<or> ag_grant a1 = ag_grant a"
  using assms by (auto simp: assignment_clean_def Let_def split: if_splits option.splits)

definition drawn :: "assignment \<Rightarrow> item_kind \<Rightarrow> pk \<Rightarrow> pk \<Rightarrow> int" where
  "drawn a k i l = (if draws k i l a then ag_qty a else 0)"

lemma drawn_moved: "ag_deleted a = None \<Longrightarrow> drawn a k i l = moved a (ag_qty a) k i l"
  by (simp add: drawn_def draws_def moved_def)

lemma moved_minus: "moved a (- d) k i l = - moved a d k i l"
  by (simp add: moved_def)

lemma insert_ok:
  assumes run: "assignment_insert perm obj a db = Inr (a2, db')" and keys: "stock_keys_ok db" and live: "ag_deleted a = None"
  shows "balance db' k i l = balance db k i l" and "stock_keys_ok db'" and "quantities_ok db \<Longrightarrow> quantities_ok db'"
    and "iv_items db' = iv_items db" and "pool_qty db' k i l = pool_qty db k i l - moved a (ag_qty a) k i l"
    and "ag_kind a2 = ag_kind a" "ag_item a2 = ag_item a" "ag_from a2 = ag_from a" "ag_qty a2 = ag_qty a" "ag_deleted a2 = None"
    and "find_assignment db' (ag_kind a2) (ag_id a2) = Some a2" and "0 \<le> ag_qty a"
proof -
  obtain db1 a1 where m: "move_stock db a (- ag_qty a) = Inr db1" and c: "assignment_clean perm obj True db1 a = Inr a1"
    and ck: "assignment_ck a1 = Inr ()" and a2: "a2 = a1\<lparr>ag_id := next_id (map ag_id (iv_assignments db1))\<rparr>"
    and db': "db' = db1\<lparr>iv_assignments := iv_assignments db1 @ [a2]\<rparr>"
    using run by (auto simp: assignment_insert_def adjust_inventory_stock_def deduct_new_assignment_def Let_def bindE_eq_Inr
        split: if_splits)
  note mv = move_stock_ok[OF m keys]
  have asg: "iv_assignments db1 = iv_assignments db" "iv_items db1 = iv_items db" by (subst mv(2), simp)+
  have a1: "ag_kind a1 = ag_kind a" "ag_item a1 = ag_item a" "ag_from a1 = ag_from a" "ag_deleted a1 = None" "ag_qty a1 = ag_qty a"
    by (subst clean_frame(1)[OF c], simp add: live)+
  show "0 \<le> ag_qty a" using ck a1(5) by (auto simp: assignment_ck_def split: if_splits)
  show "ag_kind a2 = ag_kind a" "ag_item a2 = ag_item a" "ag_from a2 = ag_from a" "ag_qty a2 = ag_qty a" "ag_deleted a2 = None"
    by (simp_all add: a2 a1)
  have d: "drawn a2 k i l = moved a (ag_qty a) k i l" by (simp add: drawn_def draws_def moved_def a2 a1)
  have "pool_qty db' k i l = pool_qty db1 k i l" by (simp add: db' pool_qty_def)
  moreover from this show "pool_qty db' k i l = pool_qty db k i l - moved a (ag_qty a) k i l" by (simp add: mv(1) moved_minus)
  moreover have "out_qty db' k i l = out_qty db k i l + drawn a2 k i l" by (simp add: out_qty_def db' asg drawn_def)
  ultimately show "balance db' k i l = balance db k i l" by (simp add: balance_def mv(1) moved_minus d)
  have "(ag_kind a2, ag_id a2) \<notin> set (map (\<lambda>a. (ag_kind a, ag_id a)) (iv_assignments db1))"
    using next_id_fresh[of _ "map ag_id (iv_assignments db1)"] by (fastforce simp: a2)
  then show "stock_keys_ok db'" using mv(3) by (auto simp: stock_keys_ok_def db')
  have "List.find (\<lambda>x. ag_kind x = ag_kind a2 \<and> ag_id x = ag_id a2) (iv_assignments db1) = None"
    using next_id_fresh[of _ "map ag_id (iv_assignments db1)"] by (fastforce simp: find_None_iff a2)
  moreover have "List.find P (xs @ [y]) = (case List.find P xs of None \<Rightarrow> if P y then Some y else None | Some z \<Rightarrow> Some z)"
    for P xs and y :: assignment by (induction xs) auto
  ultimately show "find_assignment db' (ag_kind a2) (ag_id a2) = Some a2" by (simp add: find_assignment_def db')
  show "quantities_ok db \<Longrightarrow> quantities_ok db'"
  proof -
    assume "quantities_ok db"
    then have "quantities_ok db1" by (rule mv(4))
    then show ?thesis using \<open>0 \<le> ag_qty a\<close> by (auto simp: quantities_ok_def db' overallocatable_def find_item_def a2 a1)
  qed
  show "iv_items db' = iv_items db" by (simp add: db' asg)
qed

lemma find_assignmentD: "find_assignment db k i = Some a \<Longrightarrow> a \<in> set (iv_assignments db) \<and> ag_kind a = k \<and> ag_id a = i"
  by (auto simp: find_assignment_def dest!: find_SomeD)

text \<open>Replacing the one row of a key, by a row or by an edit of that row.\<close>

lemma out_replaced:
  assumes "distinct (map (\<lambda>a. (ag_kind a, ag_id a)) rows)" "old \<in> set rows"
    and "\<And>x. (ag_kind x, ag_id x) = (ag_kind old, ag_id old) \<Longrightarrow> x \<in> set rows \<Longrightarrow> f x = new"
    and "\<And>x. (ag_kind x, ag_id x) \<noteq> (ag_kind old, ag_id old) \<Longrightarrow> f x = x"
  shows "sum_list (map ag_qty (filter (draws k i l) (map f rows))) =
    sum_list (map ag_qty (filter (draws k i l) rows)) - drawn old k i l + drawn new k i l"
  using assms(1-3)
proof (induction rows)
  case (Cons x xs)
  show ?case
  proof (cases "x = old")
    case True
    have "map f xs = xs" using Cons.prems(1) True assms(4) by (intro map_idI) (auto simp: image_iff)
    then show ?thesis using True Cons.prems(3)[of x] by (simp add: drawn_def)
  next
    case False
    then have o: "old \<in> set xs" using Cons.prems(2) by simp
    then have "(ag_kind x, ag_id x) \<noteq> (ag_kind old, ag_id old)" using Cons.prems(1) by (auto simp: image_iff)
    then have "f x = x" by (rule assms(4))
    then show ?thesis using Cons.IH[OF _ o] Cons.prems by simp
  qed
qed simp

lemma existing_ok:
  assumes run: "adjust_existing_assignment db a = Inr db1" and keys: "stock_keys_ok db"
    and old: "find_assignment db (ag_kind a) (ag_id a) = Some old" and live: "ag_deleted old = None" "ag_deleted a = None"
  shows "pool_qty db1 k i l = pool_qty db k i l + drawn old k i l - drawn a k i l"
    and "db1 = db\<lparr>iv_pools := iv_pools db1\<rparr>" and "stock_keys_ok db1" and "quantities_ok db \<Longrightarrow> quantities_ok db1"
proof -
  obtain dbr where r: "move_stock db old (ag_qty old) = Inr dbr" and d: "move_stock dbr a (- ag_qty a) = Inr db1"
    using run live by (auto simp: adjust_existing_assignment_def old restore_deleted_assignment_def deduct_new_assignment_def bindE_eq_Inr)
  note m1 = move_stock_ok[OF r keys]
  note m2 = move_stock_ok[OF d m1(3)]
  show "pool_qty db1 k i l = pool_qty db k i l + drawn old k i l - drawn a k i l"
    by (simp add: m2(1) m1(1) drawn_moved live moved_minus)
  show "db1 = db\<lparr>iv_pools := iv_pools db1\<rparr>" by (subst m2(2), subst m1(2)) simp
  show "stock_keys_ok db1" by (rule m2(3))
  show "quantities_ok db \<Longrightarrow> quantities_ok db1" using m1(4) m2(4) by blast
qed

lemma update_ok:
  assumes run: "assignment_update perm obj a db = Inr (a1, db')" and keys: "stock_keys_ok db"
    and old: "find_assignment db (ag_kind a) (ag_id a) = Some old" and live: "ag_deleted old = None" "ag_deleted a = None"
  shows "balance db' k i l = balance db k i l" and "stock_keys_ok db'" and "quantities_ok db \<Longrightarrow> quantities_ok db'"
    and "iv_items db' = iv_items db"
proof -
  obtain db1 where e: "adjust_existing_assignment db a = Inr db1" and c: "assignment_clean perm obj False db1 a = Inr a1"
    and ck: "assignment_ck a1 = Inr ()" and db': "db' = db1\<lparr>iv_assignments := replace_assignment a1 (iv_assignments db1)\<rparr>"
    using run by (auto simp: assignment_update_def adjust_inventory_stock_def bindE_eq_Inr split: if_splits)
  note ex = existing_ok[OF e keys old live]
  have asg: "iv_assignments db1 = iv_assignments db" "iv_items db1 = iv_items db" by (subst ex(2), simp)+
  have a1: "ag_kind a1 = ag_kind a" "ag_item a1 = ag_item a" "ag_from a1 = ag_from a" "ag_deleted a1 = None" "ag_qty a1 = ag_qty a" "ag_id a1 = ag_id a"
    by (subst clean_frame(1)[OF c], simp add: live)+
  have o: "old \<in> set (iv_assignments db)" "ag_kind old = ag_kind a" "ag_id old = ag_id a" using find_assignmentD[OF old] by auto
  have keys': "distinct (map (\<lambda>a. (ag_kind a, ag_id a)) (iv_assignments db))" using keys by (simp add: stock_keys_ok_def)
  have out: "out_qty db' k i l = out_qty db k i l - drawn old k i l + drawn a1 k i l"
    unfolding out_qty_def db' replace_assignment_def
    by (simp add: asg) (rule out_replaced[OF keys' o(1)]; auto simp: o a1)
  have "drawn a1 k i l = drawn a k i l" using live by (simp add: drawn_def draws_def a1)
  moreover have "pool_qty db' k i l = pool_qty db1 k i l" by (simp add: db' pool_qty_def)
  ultimately show "balance db' k i l = balance db k i l" by (simp add: balance_def out ex(1))
  have "map (\<lambda>a. (ag_kind a, ag_id a)) (replace_assignment a1 (iv_assignments db1)) = map (\<lambda>a. (ag_kind a, ag_id a)) (iv_assignments db1)"
    by (simp add: replace_assignment_def)
  then show "stock_keys_ok db'" using ex(3) by (simp add: stock_keys_ok_def db')
  have "0 \<le> ag_qty a1" using ck by (auto simp: assignment_ck_def split: if_splits)
  then show "quantities_ok db \<Longrightarrow> quantities_ok db'"
    using ex(4) by (auto simp: quantities_ok_def db' overallocatable_def find_item_def replace_assignment_def)
  show "iv_items db' = iv_items db" by (simp add: db' asg)
qed

lemma delete_ok:
  assumes run: "assignment_delete perm obj now a db = Inr db'" and keys: "stock_keys_ok db"
    and old: "find_assignment db (ag_kind a) (ag_id a) = Some a" and live: "ag_deleted a = None"
  shows "balance db' k i l = balance db k i l" and "stock_keys_ok db'" and "quantities_ok db \<Longrightarrow> quantities_ok db'"
    and "iv_items db' = iv_items db"
    and "find_assignment db' (ag_kind a) (ag_id a) = Some (a\<lparr>ag_deleted := Some now\<rparr>)"
    and "pool_qty db' k i l = pool_qty db k i l + moved a (ag_qty a) k i l"
proof -
  let ?f = "\<lambda>x. if ag_kind x = ag_kind a \<and> ag_id x = ag_id a then x\<lparr>ag_deleted := Some now\<rparr> else x"
  obtain db1 db2 where r: "move_stock db a (ag_qty a) = Inr db1" and e: "adjust_existing_assignment db1 (a\<lparr>ag_deleted := Some now\<rparr>) = Inr db2"
    and db'0: "db' = db2\<lparr>iv_assignments := map ?f (iv_assignments db2)\<rparr>"
    using run by (auto simp: assignment_delete_def adjust_inventory_stock_def restore_deleted_assignment_def bindE_eq_Inr Let_def split: if_splits)
  note mv = move_stock_ok[OF r keys]
  have asg: "iv_assignments db1 = iv_assignments db" "iv_items db1 = iv_items db" by (subst mv(2), simp)+
  have "find_assignment db1 (ag_kind a) (ag_id a) = Some a" using old by (simp add: find_assignment_def asg)
  then have db2: "db2 = db1" using e live by (simp add: adjust_existing_assignment_def)
  note db' = db'0[unfolded db2]
  have o: "a \<in> set (iv_assignments db)" using find_assignmentD[OF old] by auto
  have keys': "distinct (map (\<lambda>a. (ag_kind a, ag_id a)) (iv_assignments db))" using keys by (simp add: stock_keys_ok_def)
  have same: "x = a" if "x \<in> set (iv_assignments db)" "ag_kind x = ag_kind a" "ag_id x = ag_id a" for x
    using keys' o that by (auto simp: distinct_map inj_on_def)
  have out: "out_qty db' k i l = out_qty db k i l - drawn a k i l + drawn (a\<lparr>ag_deleted := Some now\<rparr>) k i l"
    unfolding out_qty_def db'
    by (simp add: asg) (rule out_replaced[OF keys' o]; use same in auto)
  have "drawn (a\<lparr>ag_deleted := Some now\<rparr>) k i l = 0" by (simp add: drawn_def draws_def)
  moreover have "pool_qty db' k i l = pool_qty db1 k i l" by (simp add: db' pool_qty_def)
  moreover from this show "pool_qty db' k i l = pool_qty db k i l + moved a (ag_qty a) k i l" by (simp add: mv(1))
  ultimately show "balance db' k i l = balance db k i l" by (simp add: balance_def out mv(1) drawn_moved live)
  have "map (\<lambda>a. (ag_kind a, ag_id a)) (iv_assignments db') = map (\<lambda>a. (ag_kind a, ag_id a)) (iv_assignments db1)"
    "iv_pools db' = iv_pools db1" by (simp_all add: db')
  then show "stock_keys_ok db'" using mv(3) by (simp only: stock_keys_ok_def)
  show "quantities_ok db \<Longrightarrow> quantities_ok db'"
    using mv(4) by (auto simp: quantities_ok_def db' overallocatable_def find_item_def)
  show "iv_items db' = iv_items db" by (simp add: db' asg)
  have "List.find (\<lambda>x. ag_kind x = ag_kind a \<and> ag_id x = ag_id a) (map ?f rows) =
      map_option (\<lambda>x. x\<lparr>ag_deleted := Some now\<rparr>) (List.find (\<lambda>x. ag_kind x = ag_kind a \<and> ag_id x = ag_id a) rows)" for rows :: "assignment list"
    by (induction rows) auto
  then show "find_assignment db' (ag_kind a) (ag_id a) = Some (a\<lparr>ag_deleted := Some now\<rparr>)"
    using old by (simp add: find_assignment_def db' asg)
qed

text \<open>Without the permit for the very instance nothing is written.\<close>

lemma unpermitted_write:
  assumes "perm \<noteq> Permit obj (fingerprint_of a)"
  shows "assignment_insert perm obj a db = Inl WriteNotPermitted" "assignment_update perm obj a db = Inl WriteNotPermitted"
    "assignment_delete perm obj now a db = Inl WriteNotPermitted"
  using assms by (simp_all add: assignment_insert_def assignment_update_def assignment_delete_def adjust_inventory_stock_def write_is_permitted_def)

text \<open>A created assignment stays within one tenant, or names a grant that covers it.\<close>

lemma insert_clean:
  assumes run: "assignment_insert perm obj a db = Inr (a2, db')" and keys: "stock_keys_ok db"
  shows "\<exists>db1 a1. db1 = db\<lparr>iv_pools := iv_pools db1\<rparr> \<and> assignment_clean perm obj True db1 a = Inr a1 \<and>
    assignment_ck a1 = Inr () \<and> (\<exists>n. a2 = a1\<lparr>ag_id := n\<rparr>) \<and> db' = db1\<lparr>iv_assignments := iv_assignments db1 @ [a2]\<rparr>"
proof -
  obtain db1 a1 where m: "move_stock db a (- ag_qty a) = Inr db1" and r: "assignment_clean perm obj True db1 a = Inr a1"
    "assignment_ck a1 = Inr ()" "a2 = a1\<lparr>ag_id := next_id (map ag_id (iv_assignments db1))\<rparr>"
    "db' = db1\<lparr>iv_assignments := iv_assignments db1 @ [a2]\<rparr>"
    using run by (auto simp: assignment_insert_def adjust_inventory_stock_def deduct_new_assignment_def Let_def bindE_eq_Inr
        split: if_splits)
  show ?thesis using move_stock_ok(2)[OF m keys] r by blast
qed

lemma covers_frame:
  assumes "db' = db1\<lparr>iv_assignments := rows\<rparr>"
  shows "grant_covers_assignment db' g (a\<lparr>ag_id := n\<rparr>) = grant_covers_assignment db1 g a"
  by (simp add: assms grant_covers_assignment_def source_stock_def cong: option.case_cong)

lemma insert_within_tenant:
  assumes run: "assignment_insert perm obj a db = Inr (a2, db')" and keys: "stock_keys_ok db" and cr: "crosses_tenants a2"
  shows "\<exists>g \<in> set (sh_shares db). ag_grant a2 = Some (sg_id g) \<and> grant_covers_assignment db' g a2"
proof -
  obtain db1 a1 n where c: "assignment_clean perm obj True db1 a = Inr a1" and frame: "db1 = db\<lparr>iv_pools := iv_pools db1\<rparr>"
    and a2: "a2 = a1\<lparr>ag_id := n\<rparr>" and db': "db' = db1\<lparr>iv_assignments := iv_assignments db1 @ [a2]\<rparr>"
    using insert_clean[OF run keys] by blast
  have sh: "sh_shares db1 = sh_shares db" by (subst frame) simp
  have "crosses_tenants a1" using cr by (simp add: a2 crosses_tenants_def)
  then obtain g where g: "Option.bind (ag_grant a1) (\<lambda>g. find_row sg_id g (sh_shares db1)) = Some g"
      and cov: "grant_covers_assignment db1 g a1"
    using c by (auto simp: assignment_clean_def Let_def crosses_tenants_def split: if_splits option.splits)
  then have "g \<in> set (sh_shares db)" "ag_grant a1 = Some (sg_id g)"
    using sh by (auto simp: bind_eq_Some_conv dest!: find_row_SomeD)
  then show ?thesis using cov covers_frame[OF db'] by (auto simp: a2)
qed

lemma live_tenant_of_find:
  "(case find_row dn_id i rows of None \<Rightarrow> False | Some d \<Rightarrow> dn_tenant d = Some t \<and> dn_deleted d = None) \<Longrightarrow>
     live_tenant_of rows i = Some t"
  by (auto simp: live_tenant_of_def split: option.splits)

end
