(* ===== verification/Checkout.thy ===== *)
theory Checkout
  imports Stock
begin

text \<open>
  The checkout and return services of \<^verbatim>\<open>inventory/services.py\<close>.  A service reads the request context and
  the acting user from the \<open>world\<close>; an error leaves the store as it was.  Objects passed in by the
  caller are their primary keys, since every service re-reads the row it works on.  The instance a
  service saves is its own, so the write permit it takes is for exactly that instance.
\<close>

section \<open>Errors and targets\<close>

datatype checkout_error =
  NoTarget | RequiresLiveTenant | TargetOutsideTenant | CheckoutNotAuthorized | ProvenanceSupplied
  | UnsupportedFields | ItemDoesNotExist | LocationDoesNotExist | CrossTenantDenied access_reason
  | NoStockAvailable | InsufficientAtLocation | StockError stock_error | SystemOnly
  | AllocationDoesNotExist | OutsideBoundary | ShapeImmutable | SourceChanged | ProvenanceChanged
  | AssignmentNotFound | ReturnDenied | NotSoftDeleted

definition CHECKOUT_OPERATION :: string where "CHECKOUT_OPERATION = ''inventory.checkout''"
definition COMPONENT_ALLOCATION_OPERATION :: string where
  "COMPONENT_ALLOCATION_OPERATION = ''inventory.component_allocation''"
definition SYSTEM_PROVENANCE_FIELDS :: "string list" where
  "SYSTEM_PROVENANCE_FIELDS = [''system_authorization_operation'', ''system_authorization_reason'']"

definition live_destination :: "destination list \<Rightarrow> pk \<Rightarrow> pk \<Rightarrow> bool" where
  "live_destination rows tenant i \<longleftrightarrow> 
     (case find_row dn_id i rows of None \<Rightarrow> False | Some d \<Rightarrow> dn_tenant d = Some tenant \<and> dn_deleted d = None)"

definition live_location :: "inventory \<Rightarrow> pk \<Rightarrow> pk \<Rightarrow> bool" where
  "live_location db tenant i \<longleftrightarrow> 
     (case find_row lc_id i (sh_locations db) of None \<Rightarrow> False | Some l \<Rightarrow> lc_tenant l = Some tenant \<and> lc_deleted l = None)"

definition absent_or :: "('a \<Rightarrow> bool) \<Rightarrow> 'a option \<Rightarrow> bool" where
  "absent_or P x = (case x of None \<Rightarrow> True | Some y \<Rightarrow> P y)"

definition validate_checkout_targets ::
    "inventory \<Rightarrow> tenant option \<Rightarrow> pk option \<Rightarrow> pk option \<Rightarrow> pk option \<Rightarrow> checkout_error + tenant" where
  "validate_checkout_targets db active holder location asset =
     (case active of
        None \<Rightarrow> Inl RequiresLiveTenant
      | Some t \<Rightarrow>
          if \<not> tenant_is_live db (tn_id t) then Inl RequiresLiveTenant
          else if absent_or (live_destination (iv_holders db) (tn_id t)) holder
                  \<and> absent_or (live_location db (tn_id t)) location
                  \<and> absent_or (live_destination (iv_assets db) (tn_id t)) asset
          then Inr t else Inl TargetOutsideTenant)"

definition acting_user :: "user option \<Rightarrow> world \<Rightarrow> user option" where
  "acting_user user w = (if user = None then cx_user (w_ctx w) else user)"

definition system_authorization_provenance ::
    "user option \<Rightarrow> sysauth option \<Rightarrow> string list \<Rightarrow> checkout_error + string option \<times> string option" where
  "system_authorization_provenance actor sysauth supplied =
     (if set SYSTEM_PROVENANCE_FIELDS \<inter> set supplied \<noteq> {} then Inl ProvenanceSupplied
      else if actor \<noteq> None then Inr (None, None)
      else Inr (map_option sa_operation sysauth, map_option sa_reason sysauth))"

definition add_permission :: "item_kind \<Rightarrow> string" where
  "add_permission k = ''inventory.add_'' @ assignment_label k"

definition live_pool_at :: "inventory \<Rightarrow> item_kind \<Rightarrow> pk \<Rightarrow> pk \<Rightarrow> pool option" where
  "live_pool_at db k i l = List.find (\<lambda>p. pool_of k i l p \<and> po_deleted p = None) (iv_pools db)"

section \<open>The grant of a checkout\<close>

definition resolve_grant_for_checkout ::
    "inventory \<Rightarrow> instant \<Rightarrow> item_kind \<Rightarrow> pk \<Rightarrow> pk option \<Rightarrow> user option \<Rightarrow> sysauth option \<Rightarrow> world
       \<Rightarrow> (checkout_error + share option) \<times> world" where
  "resolve_grant_for_checkout db now k i source_location user sysauth w =
     (case Option.bind source_location (live_pool_at db k i) of
        None \<Rightarrow> (Inr None, w)
      | Some p \<Rightarrow>
          (case (cx_tenant (w_ctx w), location_tenant db (po_location p)) of
             (Some active, Some owner) \<Rightarrow>
               if owner = tn_id active then (Inr None, w)
               else
                 (let (d, w1) = resolve_stock_access (stock_view db) now (acting_user user w)
                                  \<lparr>ar_label = Some (stock_label k), ar_id = Some (po_id p)\<rparr> ''use'' (add_permission k)
                                  (Some active) sysauth (Some CHECKOUT_OPERATION) w
                  in if de_allowed d then (Inr (de_grant d), w1) else (Inl (CrossTenantDenied (de_reason d)), w1))
           | _ \<Rightarrow> (Inr None, w)))"

section \<open>Checkout\<close>

definition live_item :: "inventory \<Rightarrow> item_kind \<Rightarrow> pk \<Rightarrow> item option" where
  "live_item db k i = Option.bind (find_item db k i) (\<lambda>it. if it_deleted it = None then Some it else None)"

text \<open>\<open>Location.objects.get\<close> with a live tenant, or none.\<close>

definition live_source_location :: "inventory \<Rightarrow> pk \<Rightarrow> bool" where
  "live_source_location db l \<longleftrightarrow>
     (case find_row lc_id l (sh_locations db) of
        None \<Rightarrow> False
      | Some loc \<Rightarrow> lc_deleted loc = None \<and> (case lc_tenant loc of None \<Rightarrow> True | Some t \<Rightarrow> tenant_is_live db t))"

definition new_assignment ::
    "item_kind \<Rightarrow> pk \<Rightarrow> int \<Rightarrow> pk option \<Rightarrow> pk option \<Rightarrow> pk option \<Rightarrow> pk option \<Rightarrow> string \<Rightarrow> share option
       \<Rightarrow> string option \<times> string option \<Rightarrow> assignment" where
  "new_assignment k i qty holder location asset source_location notes grant provenance =
     \<lparr>ag_kind = k, ag_id = 0, ag_item = i, ag_holder = holder, ag_location = location, ag_asset = asset,
      ag_from = source_location, ag_qty = qty, ag_notes = notes, ag_source = None, ag_target = None,
      ag_grant = map_option sg_id grant, ag_operation = fst provenance, ag_reason = snd provenance, ag_deleted = None\<rparr>"

text \<open>Saving the service's own new instance under its permit.\<close>

definition insert_permitted :: "assignment \<Rightarrow> inventory \<Rightarrow> checkout_error + assignment \<times> inventory" where
  "insert_permitted a db =
     (case assignment_insert (Permit 0 (fingerprint_of a)) 0 a db of Inl e \<Rightarrow> Inl (StockError e) | Inr r \<Rightarrow> Inr r)"

text \<open>The atomic block of \<open>checkout_inventory_item\<close>.\<close>

definition checkout_locked ::
    "inventory \<Rightarrow> instant \<Rightarrow> item_kind \<Rightarrow> pk \<Rightarrow> int \<Rightarrow> pk option \<Rightarrow> pk option \<Rightarrow> pk option \<Rightarrow> user option \<Rightarrow> string
       \<Rightarrow> pk option \<Rightarrow> sysauth option \<Rightarrow> string option \<times> string option \<Rightarrow> world
       \<Rightarrow> (checkout_error + assignment \<times> inventory) \<times> world" where
  "checkout_locked db now k i qty holder location asset user notes source_location sysauth provenance w =
     (case live_item db k i of
        None \<Rightarrow> (Inl ItemDoesNotExist, w)
      | Some it \<Rightarrow>
          if \<not> absent_or (live_source_location db) source_location then (Inl LocationDoesNotExist, w)
          else
            (case resolve_grant_for_checkout db now k i source_location user sysauth w of
               (Inl e, w1) \<Rightarrow> (Inl e, w1)
             | (Inr grant, w1) \<Rightarrow>
                 if grant = None \<and> \<not> it_overallocate it \<and> available db k i < qty then (Inl NoStockAvailable, w1)
                 else if (case source_location of
                            None \<Rightarrow> False
                          | Some l \<Rightarrow> \<not> it_overallocate it \<and>
                              (case live_pool_at db k i l of None \<Rightarrow> 0 | Some p \<Rightarrow> po_qty p) < qty)
                 then (Inl InsufficientAtLocation, w1)
                 else (insert_permitted (new_assignment k i qty holder location asset source_location notes grant provenance) db, w1)))"

definition checkout_inventory_item ::
    "inventory \<Rightarrow> instant \<Rightarrow> item_kind \<Rightarrow> pk \<Rightarrow> int \<Rightarrow> pk option \<Rightarrow> pk option \<Rightarrow> pk option \<Rightarrow> user option \<Rightarrow> string
       \<Rightarrow> pk option \<Rightarrow> sysauth option \<Rightarrow> string list \<Rightarrow> world \<Rightarrow> (checkout_error + assignment \<times> inventory) \<times> world" where
  "checkout_inventory_item db now k i qty holder location asset user notes source_location sysauth extra w =
     (if holder = None \<and> location = None \<and> asset = None then (Inl NoTarget, w)
      else (case validate_checkout_targets db (cx_tenant (w_ctx w)) holder location asset of
        Inl e \<Rightarrow> (Inl e, w)
      | Inr t \<Rightarrow>
          (let actor = acting_user user w;
               (permitted, w1) = authorize_tenant_operation (stock_view db) now actor (Some t) (add_permission k) sysauth
                                   (Some CHECKOUT_OPERATION) w
           in if \<not> permitted then (Inl CheckoutNotAuthorized, w1)
              else (case system_authorization_provenance actor sysauth extra of
                Inl e \<Rightarrow> (Inl e, w1)
              | Inr provenance \<Rightarrow>
                  if extra \<noteq> [] then (Inl UnsupportedFields, w1)
                  else checkout_locked db now k i qty holder location asset user notes source_location sysauth provenance w1))))"

definition create_component_allocation ::
    "inventory \<Rightarrow> instant \<Rightarrow> pk \<Rightarrow> int \<Rightarrow> pk option \<Rightarrow> pk option \<Rightarrow> pk option \<Rightarrow> user option \<Rightarrow> string \<Rightarrow> sysauth option
       \<Rightarrow> bool \<Rightarrow> world \<Rightarrow> (checkout_error + assignment \<times> inventory) \<times> world" where
  "create_component_allocation db now i qty holder location asset user notes sysauth system_allow_overallocate w =
     (case validate_checkout_targets db (cx_tenant (w_ctx w)) holder location asset of
        Inl e \<Rightarrow> (Inl e, w)
      | Inr t \<Rightarrow>
          (let actor = acting_user user w;
               (permitted, w1) = authorize_tenant_operation (stock_view db) now actor (Some t)
                                   ''inventory.add_componentallocation'' sysauth (Some COMPONENT_ALLOCATION_OPERATION) w
           in if \<not> permitted then (Inl CheckoutNotAuthorized, w1)
              else if system_allow_overallocate \<and> actor \<noteq> None then (Inl SystemOnly, w1)
              else (case system_authorization_provenance actor sysauth [] of
                Inl e \<Rightarrow> (Inl e, w1)
              | Inr provenance \<Rightarrow>
                  (case live_item db Component i of
                     None \<Rightarrow> (Inl ItemDoesNotExist, w1)
                   | Some it \<Rightarrow>
                       if \<not> it_overallocate it \<and> \<not> system_allow_overallocate \<and> available db Component i < qty
                       then (Inl NoStockAvailable, w1)
                       else (insert_permitted (new_assignment Component i qty holder location asset None notes None provenance) db, w1)))))"

section \<open>Update of an allocation\<close>

definition provenance_of :: "assignment \<Rightarrow> pk option \<times> pk option \<times> pk option \<times> string option \<times> string option" where
  "provenance_of a = (ag_source a, ag_target a, ag_grant a, ag_operation a, ag_reason a)"

definition shape_of :: "assignment \<Rightarrow> pk option \<times> pk option \<times> pk option \<times> pk option \<times> pk option" where
  "shape_of a = (Some (ag_item a), ag_holder a, ag_location a, ag_asset a, ag_from a)"

definition update_locked ::
    "inventory \<Rightarrow> instant \<Rightarrow> tenant \<Rightarrow> pk \<Rightarrow> pk option \<Rightarrow> int \<Rightarrow> pk option \<Rightarrow> pk option \<Rightarrow> pk option \<Rightarrow> pk option
       \<Rightarrow> user option \<Rightarrow> string \<Rightarrow> world \<Rightarrow> (checkout_error + assignment \<times> inventory) \<times> world" where
  "update_locked db now t assignment_pk component qty holder location asset source_location actor notes w =
     (case find_assignment db Component assignment_pk of
        None \<Rightarrow> (Inl AllocationDoesNotExist, w)
      | Some a \<Rightarrow>
          if ag_deleted a \<noteq> None \<or> ag_target a \<noteq> Some (tn_id t) then (Inl OutsideBoundary, w)
          else if (component, holder, location, asset, source_location) \<noteq> shape_of a then (Inl ShapeImmutable, w)
          else (case live_item db Component (ag_item a) of
            None \<Rightarrow> (Inl ItemDoesNotExist, w)
          | Some it \<Rightarrow>
              if qty - ag_qty a > 0 \<and> \<not> it_overallocate it \<and> available db Component (ag_item a) < qty - ag_qty a
              then (Inl NoStockAvailable, w)
              else
                (case resolve_grant_for_checkout db now Component (ag_item a) source_location actor None w of
                   (Inl e, w1) \<Rightarrow> (Inl e, w1)
                 | (Inr grant, w1) \<Rightarrow>
                     if map_option sg_id grant \<noteq> ag_grant a then (Inl SourceChanged, w1)
                     else
                       (let a1 = a\<lparr>ag_qty := qty, ag_notes := notes\<rparr> in
                        case assignment_update (Permit 0 (fingerprint_of a1)) 0 a1 db of
                          Inl e \<Rightarrow> (Inl (StockError e), w1)
                        | Inr (a2, db1) \<Rightarrow>
                            if provenance_of a2 \<noteq> provenance_of a then (Inl ProvenanceChanged, w1)
                            else (Inr (a2, db1), w1)))))"

definition update_component_allocation ::
    "inventory \<Rightarrow> instant \<Rightarrow> pk \<Rightarrow> pk option \<Rightarrow> int \<Rightarrow> pk option \<Rightarrow> pk option \<Rightarrow> pk option \<Rightarrow> pk option
       \<Rightarrow> user option \<Rightarrow> string \<Rightarrow> world \<Rightarrow> (checkout_error + assignment \<times> inventory) \<times> world" where
  "update_component_allocation db now assignment_pk component qty holder location asset source_location user notes w =
     (case validate_checkout_targets db (cx_tenant (w_ctx w)) holder location asset of
        Inl e \<Rightarrow> (Inl e, w)
      | Inr t \<Rightarrow>
          (let actor = acting_user user w;
               (permitted, w1) = authorize_tenant_operation (stock_view db) now actor (Some t)
                                   ''inventory.change_componentallocation'' None None w
           in if \<not> permitted then (Inl CheckoutNotAuthorized, w1)
              else update_locked db now t assignment_pk component qty holder location asset source_location actor notes w1))"

section \<open>Return and purge\<close>

definition authorized_return_assignment ::
    "inventory \<Rightarrow> instant \<Rightarrow> item_kind \<Rightarrow> pk \<Rightarrow> user option \<Rightarrow> string \<Rightarrow> world \<Rightarrow> (checkout_error + assignment) \<times> world" where
  "authorized_return_assignment db now k assignment_pk user perm w =
     (case cx_tenant (w_ctx w) of
        None \<Rightarrow> (Inl AssignmentNotFound, w)
      | Some t \<Rightarrow>
          if \<not> tenant_is_live db (tn_id t) then (Inl AssignmentNotFound, w)
          else (case find_assignment db k assignment_pk of
            None \<Rightarrow> (Inl AssignmentNotFound, w)
          | Some a \<Rightarrow>
              if ag_deleted a \<noteq> None \<or> (ag_source a \<noteq> Some (tn_id t) \<and> ag_target a \<noteq> Some (tn_id t))
              then (Inl AssignmentNotFound, w)
              else (case user of
                None \<Rightarrow> (Inl ReturnDenied, w)
              | Some u \<Rightarrow>
                  (let (ok, w1) = has_perm (base_tenancy (stock_view db)) now u perm (Some \<lparr>ob_tenant = None, ob_self = Some t\<rparr>) w
                   in if ok then (Inr a, w1) else (Inl ReturnDenied, w1)))))"

text \<open>\<open>_checkin_assignment\<close>: the item, the quantity and the recipient, first of holder, location, asset.\<close>

definition checkin_assignment ::
    "inventory \<Rightarrow> instant \<Rightarrow> item_kind \<Rightarrow> pk \<Rightarrow> user option \<Rightarrow> string \<Rightarrow> world
       \<Rightarrow> (checkout_error + (pk \<times> int) \<times> inventory) \<times> world" where
  "checkin_assignment db now k assignment_pk user perm w =
     (case authorized_return_assignment db now k assignment_pk user perm w of
        (Inl e, w1) \<Rightarrow> (Inl e, w1)
      | (Inr a, w1) \<Rightarrow>
          (case assignment_delete (Permit 0 (fingerprint_of a)) 0 now a db of
             Inl e \<Rightarrow> (Inl (StockError e), w1)
           | Inr db1 \<Rightarrow> (Inr ((ag_item a, ag_qty a), db1), w1)))"

definition checkin_accessory ::
    "inventory \<Rightarrow> instant \<Rightarrow> pk \<Rightarrow> user option \<Rightarrow> world \<Rightarrow> (checkout_error + (pk \<times> int) \<times> inventory) \<times> world" where
  "checkin_accessory db now i user w = checkin_assignment db now Accessory i user ''inventory.change_accessory'' w"

definition checkin_component ::
    "inventory \<Rightarrow> instant \<Rightarrow> pk \<Rightarrow> user option \<Rightarrow> world \<Rightarrow> (checkout_error + (pk \<times> int) \<times> inventory) \<times> world" where
  "checkin_component db now i user w = checkin_assignment db now Component i user ''inventory.change_component'' w"

definition purge_inventory_assignment :: "inventory \<Rightarrow> item_kind \<Rightarrow> pk \<Rightarrow> checkout_error + inventory" where
  "purge_inventory_assignment db k i =
     (case find_assignment db k i of
        None \<Rightarrow> Inl AssignmentNotFound
      | Some a \<Rightarrow>
          if ag_deleted a = None then Inl NotSoftDeleted
          else Inr (db\<lparr>iv_assignments := filter (\<lambda>x. \<not> (ag_kind x = k \<and> ag_id x = i)) (iv_assignments db)\<rparr>))"

section \<open>What the services do to the store\<close>

lemma insert_permittedD:
  "insert_permitted a db = Inr r \<Longrightarrow> assignment_insert (Permit 0 (fingerprint_of a)) 0 a db = Inr r"
  by (simp add: insert_permitted_def split: sum.splits)

lemma checkout_inserts:
  assumes "checkout_inventory_item db now k i qty h l x user notes src sysauth extra w = (Inr (a, db'), w')"
  shows "\<exists>t grant prov. cx_tenant (w_ctx w) = Some t \<and> validate_checkout_targets db (Some t) h l x = Inr t \<and>
    assignment_insert (Permit 0 (fingerprint_of (new_assignment k i qty h l x src notes grant prov))) 0
      (new_assignment k i qty h l x src notes grant prov) db = Inr (a, db')"
proof -
  obtain t where t: "validate_checkout_targets db (cx_tenant (w_ctx w)) h l x = Inr t"
    using assms by (auto simp: checkout_inventory_item_def split: if_splits sum.splits)
  then have c: "cx_tenant (w_ctx w) = Some t" by (auto simp: validate_checkout_targets_def split: option.splits if_splits)
  obtain prov w1 where "checkout_locked db now k i qty h l x user notes src sysauth prov w1 = (Inr (a, db'), w')"
    using assms t by (auto simp: checkout_inventory_item_def Let_def split: if_splits sum.splits prod.splits)
  then obtain grant where "insert_permitted (new_assignment k i qty h l x src notes grant prov) db = Inr (a, db')"
    by (auto simp: checkout_locked_def split: if_splits sum.splits prod.splits option.splits)
  from insert_permittedD[OF this] show ?thesis using c t[unfolded c] by blast
qed

lemma allocation_inserts:
  assumes "create_component_allocation db now i qty h l x user notes sysauth allow w = (Inr (a, db'), w')"
  shows "\<exists>t prov. cx_tenant (w_ctx w) = Some t \<and> validate_checkout_targets db (Some t) h l x = Inr t \<and>
    assignment_insert (Permit 0 (fingerprint_of (new_assignment Component i qty h l x None notes None prov))) 0
      (new_assignment Component i qty h l x None notes None prov) db = Inr (a, db')"
proof -
  obtain t where t: "validate_checkout_targets db (cx_tenant (w_ctx w)) h l x = Inr t"
    using assms by (auto simp: create_component_allocation_def split: if_splits sum.splits)
  then have c: "cx_tenant (w_ctx w) = Some t" by (auto simp: validate_checkout_targets_def split: option.splits if_splits)
  obtain prov where "insert_permitted (new_assignment Component i qty h l x None notes None prov) db = Inr (a, db')"
    using assms t by (auto simp: create_component_allocation_def Let_def split: if_splits sum.splits prod.splits option.splits)
  from insert_permittedD[OF this] show ?thesis using c t[unfolded c] by blast
qed

lemma update_updates:
  assumes "update_component_allocation db now p c qty h l x src user notes w = (Inr (a, db'), w')"
  shows "\<exists>old. find_assignment db Component p = Some old \<and> ag_deleted old = None \<and> shape_of old = (c, h, l, x, src) \<and>
    provenance_of a = provenance_of old \<and>
    assignment_update (Permit 0 (fingerprint_of (old\<lparr>ag_qty := qty, ag_notes := notes\<rparr>))) 0
      (old\<lparr>ag_qty := qty, ag_notes := notes\<rparr>) db = Inr (a, db')"
proof -
  obtain t actor w1 where "update_locked db now t p c qty h l x src actor notes w1 = (Inr (a, db'), w')"
    using assms by (auto simp: update_component_allocation_def Let_def split: if_splits sum.splits prod.splits)
  then show ?thesis
    by (auto simp: update_locked_def Let_def split: if_splits sum.splits prod.splits option.splits)
qed

lemma checkin_deletes:
  assumes "checkin_assignment db now k p user perm w = (Inr ((i, q), db'), w')"
  shows "\<exists>a. find_assignment db k p = Some a \<and> ag_deleted a = None \<and> i = ag_item a \<and> q = ag_qty a \<and>
    assignment_delete (Permit 0 (fingerprint_of a)) 0 now a db = Inr db'"
  using assms
  by (auto simp: checkin_assignment_def authorized_return_assignment_def Let_def split: if_splits sum.splits prod.splits option.splits)

inductive inventory_step :: "inventory \<Rightarrow> inventory \<Rightarrow> bool" where
  step_checkout: "checkout_inventory_item db now k i qty h l x user notes src sysauth extra w = (Inr (a, db'), w') \<Longrightarrow>
     inventory_step db db'"
| step_allocate: "create_component_allocation db now i qty h l x user notes sysauth allow w = (Inr (a, db'), w') \<Longrightarrow>
     inventory_step db db'"
| step_update: "update_component_allocation db now p c qty h l x src user notes w = (Inr (a, db'), w') \<Longrightarrow>
     inventory_step db db'"
| step_checkin: "checkin_assignment db now k p user perm w = (Inr (r, db'), w') \<Longrightarrow> inventory_step db db'"
| step_purge: "purge_inventory_assignment db k p = Inr db' \<Longrightarrow> inventory_step db db'"

abbreviation inventory_steps :: "inventory \<Rightarrow> inventory \<Rightarrow> bool" where
  "inventory_steps \<equiv> inventory_step\<^sup>*\<^sup>*"

definition kept :: "inventory \<Rightarrow> inventory \<Rightarrow> bool" where
  "kept db db' \<longleftrightarrow> stock_keys_ok db' \<and> (\<forall>k i l. balance db' k i l = balance db k i l) \<and> (quantities_ok db \<longrightarrow> quantities_ok db')
     \<and> iv_items db' = iv_items db"

lemma new_live: "ag_deleted (new_assignment k i qty h l x src notes grant prov) = None"
  by (simp add: new_assignment_def)

lemma purge_kept:
  assumes "purge_inventory_assignment db k p = Inr db'" "stock_keys_ok db"
  shows "kept db db'"
proof -
  obtain a where a: "find_assignment db k p = Some a" "ag_deleted a \<noteq> None"
    and db': "db' = db\<lparr>iv_assignments := filter (\<lambda>x. \<not> (ag_kind x = k \<and> ag_id x = p)) (iv_assignments db)\<rparr>"
    using assms(1) by (auto simp: purge_inventory_assignment_def split: option.splits if_splits)
  have keys: "distinct (map (\<lambda>a. (ag_kind a, ag_id a)) (iv_assignments db))" using assms(2) by (simp add: stock_keys_ok_def)
  have "\<not> draws k' i l x" if "x \<in> set (iv_assignments db)" "ag_kind x = k" "ag_id x = p" for x k' i l
  proof -
    have "x = a" using that find_assignmentD[OF a(1)] keys by (auto simp: distinct_map inj_on_def)
    then show ?thesis using a(2) by (simp add: draws_def)
  qed
  then have "filter (\<lambda>x. (ag_kind x = k \<longrightarrow> ag_id x \<noteq> p) \<and> draws k' i l x) (iv_assignments db) = filter (draws k' i l) (iv_assignments db)"
    for k' i l by (intro filter_cong refl) blast
  then have "out_qty db' k' i l = out_qty db k' i l" for k' i l by (simp add: out_qty_def db')
  moreover have "pool_qty db' k' i l = pool_qty db k' i l" for k' i l by (simp add: pool_qty_def db')
  moreover have "stock_keys_ok db'" using assms(2) by (auto simp: stock_keys_ok_def db' distinct_map inj_on_def)
  moreover have "quantities_ok db \<longrightarrow> quantities_ok db'" by (auto simp: quantities_ok_def db' overallocatable_def find_item_def)
  ultimately show ?thesis by (simp add: kept_def balance_def) (simp add: db')
qed

lemma inventory_step_kept: "inventory_step db db' \<Longrightarrow> stock_keys_ok db \<Longrightarrow> kept db db'"
proof (induction rule: inventory_step.induct)
  case (step_checkout db now k i qty h l x user nts src sysauth extra w a db' w')
  obtain grant prov where ins: "assignment_insert (Permit 0 (fingerprint_of (new_assignment k i qty h l x src nts grant prov))) 0
      (new_assignment k i qty h l x src nts grant prov) db = Inr (a, db')" using checkout_inserts[OF step_checkout(1)] by blast
  show ?case using insert_ok(1-4)[OF ins step_checkout(2) new_live] by (simp add: kept_def)
next
  case (step_allocate db now i qty h l x user nts sysauth allow w a db' w')
  obtain prov where ins: "assignment_insert (Permit 0 (fingerprint_of (new_assignment Component i qty h l x None nts None prov))) 0
      (new_assignment Component i qty h l x None nts None prov) db = Inr (a, db')" using allocation_inserts[OF step_allocate(1)] by blast
  show ?case using insert_ok(1-4)[OF ins step_allocate(2) new_live] by (simp add: kept_def)
next
  case (step_update db now p c qty h l x src user nts w a db' w')
  obtain old where old: "find_assignment db Component p = Some old" "ag_deleted old = None"
    "assignment_update (Permit 0 (fingerprint_of (old\<lparr>ag_qty := qty, ag_notes := nts\<rparr>))) 0
      (old\<lparr>ag_qty := qty, ag_notes := nts\<rparr>) db = Inr (a, db')" using update_updates[OF step_update(1)] by blast
  have f: "find_assignment db (ag_kind (old\<lparr>ag_qty := qty, ag_notes := nts\<rparr>)) (ag_id (old\<lparr>ag_qty := qty, ag_notes := nts\<rparr>)) = Some old"
    using old(1) find_assignmentD[OF old(1)] by simp
  show ?case using update_ok(1-4)[OF old(3) step_update(2) f old(2)] old(2) by (simp add: kept_def)
next
  case (step_checkin db now k p user perm w r db' w')
  obtain a where a: "find_assignment db k p = Some a" "ag_deleted a = None"
    "assignment_delete (Permit 0 (fingerprint_of a)) 0 now a db = Inr db'"
    using checkin_deletes[of db now k p user perm w "fst r" "snd r"] step_checkin(1) by auto
  have f: "find_assignment db (ag_kind a) (ag_id a) = Some a" using a(1) find_assignmentD[OF a(1)] by simp
  show ?case using delete_ok(1-4)[OF a(3) step_checkin(2) f a(2)] by (simp add: kept_def)
next
  case (step_purge db k p db')
  then show ?case by (rule purge_kept)
qed

lemma inventory_steps_kept: "inventory_steps db db' \<Longrightarrow> stock_keys_ok db \<Longrightarrow> kept db db'"
proof (induction rule: rtranclp_induct)
  case base
  then show ?case by (simp add: kept_def)
next
  case (step y z)
  then show ?case using inventory_step_kept[OF step(2)] by (auto simp: kept_def)
qed

text \<open>The destination of a new row is in the tenant its targets were validated for.\<close>

lemma insert_target:
  assumes v: "validate_checkout_targets db (Some t) h l x = Inr t"
    and ins: "assignment_insert perm obj (new_assignment k i qty h l x src nts grant prov) db = Inr (a, db')"
    and keys: "stock_keys_ok db"
  shows "ag_target a = Some (tn_id t)"
proof -
  let ?a = "new_assignment k i qty h l x src nts grant prov"
  obtain db1 a1 n where c: "assignment_clean perm obj True db1 ?a = Inr a1" and ck: "assignment_ck a1 = Inr ()"
    and frame: "db1 = db\<lparr>iv_pools := iv_pools db1\<rparr>" and a: "a = a1\<lparr>ag_id := n\<rparr>"
    using insert_clean[OF ins keys] by blast
  have rows: "iv_holders db1 = iv_holders db" "iv_assets db1 = iv_assets db" "sh_locations db1 = sh_locations db"
    by (subst frame, simp)+
  have a1: "ag_target a1 = derive_target_tenant_id db1 ?a" "ag_holder a1 = h" "ag_location a1 = l" "ag_asset a1 = x"
    by (subst clean_frame(1)[OF c], simp add: new_assignment_def)+
  have some: "h \<noteq> None \<or> l \<noteq> None \<or> x \<noteq> None" using ck a1(2-4) by (auto simp: assignment_ck_def split: if_splits)
  have valid: "absent_or (live_destination (iv_holders db) (tn_id t)) h" "absent_or (live_location db (tn_id t)) l"
    "absent_or (live_destination (iv_assets db) (tn_id t)) x"
    using v by (auto simp: validate_checkout_targets_def split: if_splits)
  have "derive_target_tenant_id db1 ?a = Some (tn_id t)"
  proof (cases h)
    case (Some y)
    then show ?thesis using valid(1) live_tenant_of_find[where i = y and rows = "iv_holders db" and t = "tn_id t"]
      by (simp add: derive_target_tenant_id_def new_assignment_def absent_or_def live_destination_def rows)
  next
    case no_holder: None
    show ?thesis
    proof (cases l)
      case (Some y)
      then show ?thesis using valid(2) no_holder
        by (auto simp: derive_target_tenant_id_def new_assignment_def absent_or_def live_location_def rows split: option.splits)
    next
      case None
      then obtain y where "x = Some y" using some no_holder by blast
      then show ?thesis using valid(3) no_holder None live_tenant_of_find[where i = y and rows = "iv_assets db" and t = "tn_id t"]
        by (simp add: derive_target_tenant_id_def new_assignment_def absent_or_def live_destination_def rows)
    qed
  qed
  then show ?thesis by (simp add: a a1(1))
qed

section \<open>Properties\<close>

text \<open>C27. Stock is conserved: through any sequence of successful checkouts, allocations, allocation updates,
  returns and purges, what lies in the pools of an item at a location plus what is checked out from
  there stays the same, and no pool of an item without over-allocation goes below zero.\<close>

theorem stock_conserved:
  assumes "inventory_steps db db'" and "stock_keys_ok db"
  shows "balance db' k i l = balance db k i l \<and> (quantities_ok db \<longrightarrow> quantities_ok db')"
  using inventory_steps_kept[OF assms] by (simp add: kept_def)

text \<open>C29. Returning undoes a checkout: when an assignment that was just checked out is returned, the service
  reports the item and the quantity of the checkout, and every pool balance is what it was before.\<close>

theorem checkout_return_roundtrip:
  assumes out: "checkout_inventory_item db now k i qty h l x user nts src sysauth extra w = (Inr (a, db1), w1)"
    and ret: "checkin_assignment db1 now' k (ag_id a) user' perm w' = (Inr (r, db2), w2)" and keys: "stock_keys_ok db"
  shows "r = (i, qty) \<and> (\<forall>k' i' l'. pool_qty db2 k' i' l' = pool_qty db k' i' l')"
proof -
  obtain grant prov where ins: "assignment_insert (Permit 0 (fingerprint_of (new_assignment k i qty h l x src nts grant prov))) 0
      (new_assignment k i qty h l x src nts grant prov) db = Inr (a, db1)" using checkout_inserts[OF out] by blast
  note o = insert_ok[OF ins keys new_live]
  have a: "ag_kind a = k" "ag_item a = i" "ag_from a = src" "ag_qty a = qty" "ag_deleted a = None"
    using o(6-10) by (simp_all add: new_assignment_def)
  have f: "find_assignment db1 k (ag_id a) = Some a" using o(11) a(1) by simp
  obtain ri rq where rq: "r = (ri, rq)" by (cases r)
  have "\<exists>b. find_assignment db1 k (ag_id a) = Some b \<and> ag_deleted b = None \<and> ri = ag_item b \<and> rq = ag_qty b \<and>
      assignment_delete (Permit 0 (fingerprint_of b)) 0 now' b db1 = Inr db2"
    by (rule checkin_deletes) (rule ret[unfolded rq])
  then have del: "assignment_delete (Permit 0 (fingerprint_of a)) 0 now' a db1 = Inr db2" and r: "r = (i, qty)"
    using f a rq by auto
  note d = delete_ok[OF del o(2) _ a(5)]
  have "pool_qty db2 k' i' l' = pool_qty db k' i' l'" for k' i' l'
    using d(6)[of k' i' l'] o(5)[of k' i' l'] f a by (simp add: moved_def new_assignment_def)
  then show ?thesis using r by blast
qed

text \<open>C28. Stock leaves a tenant only under a grant: a successful checkout was authorized in the live active
  tenant and assigns to a destination of that tenant; when its source belongs to another tenant, the
  row names a share, unrevoked and for use, by the source's owner, of exactly the pool drawn on, whose
  grantee is the active tenant or a live group above it.\<close>

theorem checkout_needs_grant:
  assumes out: "checkout_inventory_item db now k i qty h l x user nts src sysauth extra w = (Inr (a, db'), w')"
    and keys: "stock_keys_ok db"
  shows "\<exists>t. cx_tenant (w_ctx w) = Some t \<and> tenant_is_live db (tn_id t) \<and> ag_target a = Some (tn_id t) \<and>
    fst (authorize_tenant_operation (stock_view db) now (acting_user user w) (Some t) (add_permission k) sysauth (Some CHECKOUT_OPERATION) w) \<and>
    (ag_source a = None \<or> ag_source a = Some (tn_id t) \<or>
     (\<exists>g \<in> set (sh_shares db). ag_grant a = Some (sg_id g) \<and> grant_covers_assignment db' g a))"
proof -
  obtain t grant prov where t: "cx_tenant (w_ctx w) = Some t" "validate_checkout_targets db (Some t) h l x = Inr t"
    and ins: "assignment_insert (Permit 0 (fingerprint_of (new_assignment k i qty h l x src nts grant prov))) 0
      (new_assignment k i qty h l x src nts grant prov) db = Inr (a, db')" using checkout_inserts[OF out] by blast
  have live: "tenant_is_live db (tn_id t)" using t(2) by (auto simp: validate_checkout_targets_def split: if_splits)
  have tgt: "ag_target a = Some (tn_id t)" by (rule insert_target[OF t(2) ins keys])
  have auth: "fst (authorize_tenant_operation (stock_view db) now (acting_user user w) (Some t) (add_permission k) sysauth (Some CHECKOUT_OPERATION) w)"
    using out t by (auto simp: checkout_inventory_item_def Let_def split: if_splits prod.splits)
  have "ag_source a = None \<or> ag_source a = Some (tn_id t) \<or> crosses_tenants a" using tgt by (auto simp: crosses_tenants_def)
  then show ?thesis using t(1) live tgt auth insert_within_tenant[OF ins keys] by blast
qed

text \<open>Item availability is a total over every tenant: it does not depend on who owns the pools of an
  item, so giving all of them to other tenants leaves the availability that a checkout without a
  source location is measured against as it was.\<close>

theorem availability_ignores_owners:
  "available (db\<lparr>iv_pools := map (\<lambda>p. p\<lparr>po_tenant := owner p\<rparr>) (iv_pools db)\<rparr>) k i = available db k i"
proof -
  have "map po_qty (filter (\<lambda>p. po_kind p = k \<and> po_item p = i \<and> po_deleted p = None) (map (\<lambda>p. p\<lparr>po_tenant := owner p\<rparr>) pools)) =
      map po_qty (filter (\<lambda>p. po_kind p = k \<and> po_item p = i \<and> po_deleted p = None) pools)" for pools :: "pool list"
    by (induction pools) simp_all
  then show ?thesis
    by (simp add: available_def total_stock_def live_pools_def target_only_qty_def live_assignments_def Let_def)
qed

text \<open>What the return of a row with a source location does to the pools of its item.\<close>

lemma two_pools:
  assumes "p \<in> set (iv_pools db)" "q \<in> set (iv_pools db)" "p \<noteq> q" "pool_of k i l p" "pool_of k i l q"
  shows "get_or_create_pool db k i l = Inl MultiplePools"
proof -
  have "p \<in> set (filter (pool_of k i l) (iv_pools db))" "q \<in> set (filter (pool_of k i l) (iv_pools db))" using assms by auto
  then obtain x y rest where "filter (pool_of k i l) (iv_pools db) = x # y # rest"
    using assms(3) by (cases "filter (pool_of k i l) (iv_pools db)" rule: remdups_adj.cases) auto
  then show ?thesis by (simp add: get_or_create_pool_def)
qed

lemma deleted_row_edit:
  assumes "distinct (map (\<lambda>p. (po_kind p, po_id p)) pools)" "p \<in> set pools" "po_deleted p \<noteq> None"
  shows "filter (\<lambda>x. po_kind x = k \<and> po_item x = i \<and> po_deleted x = None) (set_pool_qty p q pools) =
    filter (\<lambda>x. po_kind x = k \<and> po_item x = i \<and> po_deleted x = None) pools"
proof -
  have "\<forall>x \<in> set pools. po_kind x = po_kind p \<and> po_id x = po_id p \<longrightarrow> x = p"
    using assms(1,2) by (auto simp: distinct_map inj_on_def)
  then have "\<forall>x \<in> set pools. po_kind x = po_kind p \<and> po_id x = po_id p \<longrightarrow> po_deleted x \<noteq> None" using assms(3) by auto
  then show ?thesis unfolding set_pool_qty_def by (induction pools) auto
qed

lemma return_effect:
  assumes ret: "checkin_assignment db now k p user perm w = (Inr (r, db'), w')"
    and a: "find_assignment db k p = Some a" and l: "ag_from a = Some l"
  shows "\<exists>allow db1. update_stock db k (ag_item a) l (ag_qty a) allow = Inr db1 \<and> iv_pools db' = iv_pools db1 \<and>
    iv_assignments db' = map (\<lambda>x. if ag_kind x = k \<and> ag_id x = p then x\<lparr>ag_deleted := Some now\<rparr> else x) (iv_assignments db)"
proof -
  obtain i q where rq: "r = (i, q)" by (cases r)
  have "\<exists>b. find_assignment db k p = Some b \<and> ag_deleted b = None \<and> i = ag_item b \<and> q = ag_qty b \<and>
      assignment_delete (Permit 0 (fingerprint_of b)) 0 now b db = Inr db'"
    by (rule checkin_deletes) (rule ret[unfolded rq])
  then have live: "ag_deleted a = None" and del: "assignment_delete (Permit 0 (fingerprint_of a)) 0 now a db = Inr db'" using a by auto
  note ka = find_assignmentD[OF a]
  obtain db1 db2 where m: "move_stock db a (ag_qty a) = Inr db1"
    and e: "adjust_existing_assignment db1 (a\<lparr>ag_deleted := Some now\<rparr>) = Inr db2"
    and db': "db' = db2\<lparr>iv_assignments := map (\<lambda>x. if ag_kind x = ag_kind a \<and> ag_id x = ag_id a
        then x\<lparr>ag_deleted := Some now\<rparr> else x) (iv_assignments db2)\<rparr>"
    using del by (auto simp: assignment_delete_def adjust_inventory_stock_def restore_deleted_assignment_def bindE_eq_Inr Let_def split: if_splits)
  obtain allow where u: "update_stock db k (ag_item a) l (ag_qty a) allow = Inr db1"
    using m l ka by (auto simp: move_stock_def split: option.splits)
  have asg: "iv_assignments db1 = iv_assignments db" using u by (auto simp: update_stock_def split: sum.splits if_splits)
  then have "find_assignment db1 (ag_kind a) (ag_id a) = Some a" using a ka by (simp add: find_assignment_def)
  then have "db2 = db1" using e live by (simp add: adjust_existing_assignment_def)
  then show ?thesis using u asg db' ka by auto
qed

lemma filter_map_kept: "(\<And>x. x \<in> set xs \<Longrightarrow> R (f x) = R x) \<Longrightarrow> (\<And>x. x \<in> set xs \<Longrightarrow> R x \<Longrightarrow> f x = x) \<Longrightarrow>
    filter R (map f xs) = filter R xs"
  by (induction xs) simp_all

lemma target_only_kept:
  assumes "\<forall>x \<in> set rows. P x \<longrightarrow> ag_from x \<noteq> None"
  shows "filter (\<lambda>x. ag_from x = None) (filter (\<lambda>x. ag_kind x = k \<and> ag_item x = i \<and> ag_deleted x = None)
     (map (\<lambda>x. if P x then x\<lparr>ag_deleted := Some now\<rparr> else x) rows)) =
   filter (\<lambda>x. ag_from x = None) (filter (\<lambda>x. ag_kind x = k \<and> ag_item x = i \<and> ag_deleted x = None) rows)"
  unfolding filter_filter by (rule filter_map_kept) (use assms in \<open>fastforce split: if_splits\<close>)+

text \<open>A deleted pool swallows what is returned into it: pools are looked up without regard to soft
  deletion, so once a pool with open checkouts has been deleted, a return either books the units into the
  deleted row, where the item's availability does not see them, or, when the pool has been created
  anew, fails for good.\<close>

theorem deleted_pool_swallows_returns:
  assumes keys: "stock_keys_ok db" and a: "find_assignment db k p = Some a" "ag_from a = Some l"
    and dead: "q \<in> set (iv_pools db)" "pool_of k (ag_item a) l q" "po_deleted q \<noteq> None"
  shows "case fst (checkin_assignment db now k p user perm w) of
      Inl _ \<Rightarrow> True
    | Inr (r, db') \<Rightarrow> live_pool_at db k (ag_item a) l = None \<and> available db' k (ag_item a) = available db k (ag_item a)"
proof (cases "fst (checkin_assignment db now k p user perm w)")
  case (Inl e)
  then show ?thesis by simp
next
  case (Inr x)
  obtain r db' w' where c: "checkin_assignment db now k p user perm w = (Inr (r, db'), w')"
    using Inr by (cases x; cases "checkin_assignment db now k p user perm w") auto
  obtain allow db1 where u: "update_stock db k (ag_item a) l (ag_qty a) allow = Inr db1" and db': "iv_pools db' = iv_pools db1"
    "iv_assignments db' = map (\<lambda>x. if ag_kind x = k \<and> ag_id x = p then x\<lparr>ag_deleted := Some now\<rparr> else x) (iv_assignments db)"
    using return_effect[OF c a] by blast
  have dist: "distinct (map (\<lambda>p. (po_kind p, po_id p)) (iv_pools db))" using keys by (simp add: stock_keys_ok_def)
  obtain s pools where g: "get_or_create_pool db k (ag_item a) l = Inr (s, pools)" using u by (auto simp: update_stock_def split: sum.splits)
  note ok = get_or_create_ok[OF g dist]
  have pools: "pools = iv_pools db"
  proof -
    have "filter (pool_of k (ag_item a) l) (iv_pools db) \<noteq> []" using dead(1,2) by (auto simp: filter_empty_conv)
    then show ?thesis using g by (auto simp: get_or_create_pool_def split: list.splits)
  qed
  have "q \<in> set (filter (pool_of k (ag_item a) l) pools)" using dead(1,2) pools by simp
  then have "s = q" using conjunct1[OF ok] by simp
  then have s: "s \<in> set pools" "po_deleted s \<noteq> None" using dead pools by auto
  have none: "live_pool_at db k (ag_item a) l = None"
  proof (rule ccontr)
    assume "live_pool_at db k (ag_item a) l \<noteq> None"
    then obtain y where y: "y \<in> set (iv_pools db)" "pool_of k (ag_item a) l y" "po_deleted y = None"
      by (auto simp: live_pool_at_def dest!: find_SomeD)
    then have "y \<noteq> q" using dead(3) by auto
    then show False using two_pools[OF y(1) dead(1) _ y(2) dead(2)] g by simp
  qed
  have "iv_pools db1 = set_pool_qty s (po_qty s + ag_qty a) pools" using u by (auto simp: update_stock_def g split: if_splits)
  then have tot: "total_stock db' k (ag_item a) = total_stock db k (ag_item a)"
    using deleted_row_edit[OF _ s] dist by (simp add: total_stock_def live_pools_def db' pools)
  have "target_only_qty db' k (ag_item a) = target_only_qty db k (ag_item a)"
  proof -
    have "x = a" if "x \<in> set (iv_assignments db)" "ag_kind x = k" "ag_id x = p" for x
      using keys that find_assignmentD[OF a(1)] by (auto simp: stock_keys_ok_def distinct_map inj_on_def)
    then have "\<forall>x \<in> set (iv_assignments db). ag_kind x = k \<and> ag_id x = p \<longrightarrow> ag_from x \<noteq> None" using a(2) by auto
    then show ?thesis unfolding target_only_qty_def live_assignments_def db'(2)
      by (subst target_only_kept[where P = "\<lambda>x. ag_kind x = k \<and> ag_id x = p"]) (assumption, rule refl)
  qed
  then show ?thesis using none tot by (simp add: c available_def)
qed

section \<open>Concrete runs\<close>

text \<open>Component 50 of tenant 2 with five pieces at location 20; three of them are checked out to holder 60 by
  an administrator.\<close>

definition sample_pool :: pool where
  "sample_pool = \<lparr>po_kind = Component, po_id = 30, po_item = 50, po_location = 20, po_tenant = 2, po_qty = 5, po_deleted = None\<rparr>"

definition sample_inventory :: inventory where
  "sample_inventory = sharing.extend sample_sharing
     \<lparr>iv_items = [\<lparr>it_kind = Component, it_id = 50, it_tenant = Some 2, it_overallocate = False, it_deleted = None\<rparr>],
      iv_pools = [sample_pool], iv_assignments = [],
      iv_holders = [\<lparr>dn_id = 60, dn_tenant = Some 2, dn_deleted = None\<rparr>], iv_assets = []\<rparr>"

definition sample_assignment :: assignment where
  "sample_assignment = \<lparr>ag_kind = Component, ag_id = 1, ag_item = 50, ag_holder = Some 60, ag_location = None, ag_asset = None,
     ag_from = Some 20, ag_qty = 3, ag_notes = [], ag_source = Some 2, ag_target = Some 2, ag_grant = None,
     ag_operation = None, ag_reason = None, ag_deleted = None\<rparr>"

definition sample_checked_out :: inventory where
  "sample_checked_out = sample_inventory\<lparr>iv_pools := [sample_pool\<lparr>po_qty := 2\<rparr>], iv_assignments := [sample_assignment]\<rparr>"

lemmas sample_inventory_defs = sample_inventory_def sharing.extend_def sample_sharing_def tenancy.extend_def sample_tenancy_def
  sample_pool_def

lemma sample_inventory_tables:
  "iv_items sample_inventory = [\<lparr>it_kind = Component, it_id = 50, it_tenant = Some 2, it_overallocate = False, it_deleted = None\<rparr>]"
  "iv_pools sample_inventory = [sample_pool]" "iv_assignments sample_inventory = []"
  "iv_holders sample_inventory = [\<lparr>dn_id = 60, dn_tenant = Some 2, dn_deleted = None\<rparr>]"
  "sh_locations sample_inventory = [\<lparr>lc_id = 20, lc_tenant = Some 2, lc_deleted = None\<rparr>]"
  "sh_shares sample_inventory = [sample_share]"
  "td_tenants sample_inventory = [sample_provider, sample_customer, sample_stranger]"
  by (simp_all add: sample_inventory_defs)

lemma sample_inventory_live: "tenant_is_live sample_inventory 2" "tenant_is_live (stock_view sample_inventory) 2"
  by (simp_all add: tenant_is_live_def stock_view_def sharing.truncate_def sample_inventory_tables sample_tenants tn_live_def)

lemma sample_admin_allowed: "authorize_tenant_operation (stock_view sample_inventory) now (Some sample_admin) (Some sample_customer) perm s op w = (True, w)"
proof -
  have "tn_id sample_customer = 2" by (simp add: sample_tenants)
  then show ?thesis
    by (simp add: authorize_tenant_operation_def actor_or_system_has_permission_def has_perm_def sample_inventory_live sample_admin_def sample_user_def)
qed

lemma sample_checkout:
  "checkout_inventory_item sample_inventory 100 Component 50 3 (Some 60) None None (Some sample_admin) [] (Some 20) None [] sample_world
     = (Inr (sample_assignment, sample_checked_out), sample_world)"
proof -
  let ?db = sample_inventory
  note t = sample_inventory_tables
  have ctx: "cx_tenant (w_ctx sample_world) = Some sample_customer" by (simp add: sample_world_def sample_ctx_def)
  have id: "tn_id sample_customer = 2" by (simp add: sample_tenants)
  have v: "validate_checkout_targets ?db (Some sample_customer) (Some 60) None None = Inr sample_customer"
    by (simp add: validate_checkout_targets_def id sample_inventory_live absent_or_def live_destination_def t)
  have act: "acting_user (Some sample_admin) sample_world = Some sample_admin" by (simp add: acting_user_def)
  have prov: "system_authorization_provenance (Some sample_admin) None [] = Inr (None, None)"
    by (simp add: system_authorization_provenance_def)
  have loc: "location_tenant ?db 20 = Some 2" by (simp add: location_tenant_def t)
  have pool: "live_pool_at ?db Component 50 20 = Some sample_pool" by (simp add: live_pool_at_def t pool_of_def sample_pool_def)
  have g: "resolve_grant_for_checkout ?db 100 Component 50 (Some 20) (Some sample_admin) None sample_world = (Inr None, sample_world)"
  proof -
    have "po_location sample_pool = 20" by (simp add: sample_pool_def)
    then show ?thesis by (simp add: resolve_grant_for_checkout_def pool ctx loc id)
  qed
  have it: "live_item ?db Component 50 = Some \<lparr>it_kind = Component, it_id = 50, it_tenant = Some 2, it_overallocate = False, it_deleted = None\<rparr>"
    by (simp add: live_item_def find_item_def t)
  have src: "live_source_location ?db 20" by (simp add: live_source_location_def t sample_inventory_live)
  have av: "available ?db Component 50 = 5"
    by (simp add: available_def total_stock_def live_pools_def target_only_qty_def live_assignments_def t sample_pool_def)
  let ?a = "new_assignment Component 50 3 (Some 60) None None (Some 20) [] None (None, None)"
  let ?db1 = "?db\<lparr>iv_pools := [sample_pool\<lparr>po_qty := 2\<rparr>]\<rparr>"
  have it': "find_item ?db Component 50 = Some \<lparr>it_kind = Component, it_id = 50, it_tenant = Some 2, it_overallocate = False, it_deleted = None\<rparr>"
    by (simp add: find_item_def t)
  have m: "move_stock ?db ?a (- 3) = Inr ?db1"
    by (simp add: move_stock_def new_assignment_def it' update_stock_def get_or_create_pool_def t pool_of_def loc set_pool_qty_def)
       (simp add: sample_pool_def)
  have c: "assignment_clean (Permit 0 (fingerprint_of ?a)) 0 True ?db1 ?a = Inr (sample_assignment\<lparr>ag_id := 0\<rparr>)"
    by (simp add: assignment_clean_def derive_source_tenant_id_def derive_target_tenant_id_def live_tenant_of_def new_assignment_def
        t write_is_authorized_def write_is_permitted_def fingerprint_of_def crosses_tenants_def tenant_is_live_def sample_assignment_def)
       (simp add: sample_tenants tn_live_def)
  have "insert_permitted ?a ?db = Inr (sample_assignment, sample_checked_out)"
    using m c by (simp add: insert_permitted_def assignment_insert_def adjust_inventory_stock_def write_is_permitted_def
        deduct_new_assignment_def new_assignment_def assignment_ck_def sample_assignment_def t next_id_def sample_checked_out_def Let_def)
  then have "checkout_locked ?db 100 Component 50 3 (Some 60) None None (Some sample_admin) [] (Some 20) None (None, None) sample_world
      = (Inr (sample_assignment, sample_checked_out), sample_world)"
    by (simp add: checkout_locked_def it src absent_or_def g av pool) (simp add: sample_pool_def)
  then show ?thesis by (simp add: checkout_inventory_item_def ctx v act sample_admin_allowed prov)
qed

lemma sample_keys: "stock_keys_ok sample_inventory" "stock_keys_ok sample_checked_out"
  by (simp_all add: stock_keys_ok_def sample_inventory_tables sample_checked_out_def)

lemma stock_conserved_witness:
  "balance sample_checked_out Component 50 20 = balance sample_inventory Component 50 20 \<and> quantities_ok sample_checked_out"
proof -
  have "quantities_ok sample_inventory" by (simp add: quantities_ok_def sample_inventory_tables sample_pool_def)
  then show ?thesis
    using stock_conserved[OF r_into_rtranclp[of inventory_step, OF step_checkout[OF sample_checkout]] sample_keys(1)] by blast
qed

lemma checkout_needs_grant_witness:
  "ag_target sample_assignment = Some 2 \<and> tenant_is_live sample_inventory 2"
proof -
  have "cx_tenant (w_ctx sample_world) = Some sample_customer" "tn_id sample_customer = 2"
    by (simp_all add: sample_world_def sample_ctx_def sample_tenants)
  then show ?thesis using checkout_needs_grant[OF sample_checkout sample_keys(1)] by auto
qed

lemma sample_return_access:
  "has_perm (base_tenancy (stock_view db)) now sample_admin perm (Some \<lparr>ob_tenant = None, ob_self = Some t\<rparr>) w = (True, w)"
  by (simp add: has_perm_def sample_admin_def sample_user_def)

lemma sample_return:
  "\<exists>db2. checkin_assignment sample_checked_out 200 Component 1 (Some sample_admin) p sample_world = (Inr ((50, 3), db2), sample_world)"
proof -
  let ?db = sample_checked_out
  have ctx: "cx_tenant (w_ctx sample_world) = Some sample_customer" "tn_id sample_customer = 2"
    by (simp_all add: sample_world_def sample_ctx_def sample_tenants)
  have live: "tenant_is_live ?db 2" using sample_inventory_live(1) by (simp add: sample_checked_out_def tenant_is_live_def)
  have f: "find_assignment ?db Component 1 = Some sample_assignment"
    by (simp add: find_assignment_def sample_checked_out_def sample_assignment_def)
  have auth: "authorized_return_assignment ?db 200 Component 1 (Some sample_admin) p sample_world = (Inr sample_assignment, sample_world)"
    by (simp add: authorized_return_assignment_def ctx live f sample_return_access) (simp add: sample_assignment_def)
  note t = sample_inventory_tables
  have m: "move_stock ?db sample_assignment 3 = Inr (?db\<lparr>iv_pools := [sample_pool]\<rparr>)"
    by (simp add: move_stock_def sample_assignment_def find_item_def sample_checked_out_def t update_stock_def get_or_create_pool_def
        pool_of_def set_pool_qty_def location_tenant_def) (simp add: sample_pool_def)
  have "\<exists>db2. assignment_delete (Permit 0 (fingerprint_of sample_assignment)) 0 200 sample_assignment ?db = Inr db2"
    using m by (simp add: assignment_delete_def adjust_inventory_stock_def write_is_permitted_def restore_deleted_assignment_def
        fingerprint_of_def sample_assignment_def adjust_existing_assignment_def find_assignment_def sample_checked_out_def
        assignment_clean_def derive_source_tenant_id_def derive_target_tenant_id_def live_tenant_of_def crosses_tenants_def t Let_def)
  then show ?thesis using auth by (auto simp: checkin_assignment_def sample_assignment_def)
qed

lemma checkout_return_roundtrip_witness:
  "\<exists>r db2. checkin_assignment sample_checked_out 200 Component 1 (Some sample_admin) [] sample_world = (Inr (r, db2), sample_world)
     \<and> r = (50, 3) \<and> pool_qty db2 Component 50 20 = pool_qty sample_inventory Component 50 20"
proof -
  obtain db2 where r: "checkin_assignment sample_checked_out 200 Component 1 (Some sample_admin) [] sample_world = (Inr ((50, 3), db2), sample_world)"
    using sample_return by blast
  have "ag_id sample_assignment = 1" by (simp add: sample_assignment_def)
  then have "checkin_assignment sample_checked_out 200 Component (ag_id sample_assignment) (Some sample_admin) [] sample_world
      = (Inr ((50, 3), db2), sample_world)" using r by simp
  from checkout_return_roundtrip[OF sample_checkout this sample_keys(1)] show ?thesis using r by blast
qed

text \<open>The same store after the emptied pool has been deleted.\<close>

lemma deleted_pool_swallows_returns_witness:
  "case fst (checkin_assignment (pool_delete sample_checked_out Component 30 150) 200 Component 1 (Some sample_admin) [] sample_world) of
      Inl _ \<Rightarrow> True
    | Inr (r, db') \<Rightarrow> live_pool_at (pool_delete sample_checked_out Component 30 150) Component 50 20 = None \<and>
        available db' Component 50 = available (pool_delete sample_checked_out Component 30 150) Component 50"
proof -
  let ?db = "pool_delete sample_checked_out Component 30 150"
  let ?q = "sample_pool\<lparr>po_qty := 2, po_deleted := Some 150\<rparr>"
  have pools: "iv_pools ?db = [?q]" by (simp add: pool_delete_def sample_checked_out_def) (simp add: sample_pool_def)
  have keys: "stock_keys_ok ?db" using sample_keys(2) by (simp add: stock_keys_ok_def pools) (simp add: pool_delete_def)
  have f: "find_assignment ?db Component 1 = Some sample_assignment"
    by (simp add: find_assignment_def pool_delete_def sample_checked_out_def sample_assignment_def)
  have a: "ag_from sample_assignment = Some 20" "ag_item sample_assignment = 50" by (simp_all add: sample_assignment_def)
  have q: "?q \<in> set (iv_pools ?db)" "pool_of Component (ag_item sample_assignment) 20 ?q" "po_deleted ?q \<noteq> None"
    unfolding pools by (simp_all add: pool_of_def a) (simp_all add: sample_pool_def)
  show ?thesis using deleted_pool_swallows_returns[OF keys f a(1) q] unfolding a(2) .
qed

end
