(* ===== verification/AssetData.thy ===== *)
theory AssetData
  imports Checkout Complex_Main
begin

text \<open>
  The rows of the asset side of the database: \<^verbatim>\<open>assets/models/\<close> (asset types, status labels, depreciation
  policies, assets, assignments, disposals, reservations, maintenance records, tag sequences, requests),
  \<^verbatim>\<open>compliance/models.py\<close> (custody templates, receipts and signing sessions)
  and \<^verbatim>\<open>procurement/models.py\<close> (purchase orders, their lines, the links between lines and requests).  \<open>estate\<close> adds these tables to
  the inventory.  Decimal amounts are exact rationals; calendar dates are ordered lexicographically.
  Lists are in the default ordering of their model, so that \<open>first()\<close> is the first match.
\<close>

section \<open>Calendar dates\<close>

datatype date = Date (dt_year: int) (dt_month: int) (dt_day: int)

instantiation date :: linorder
begin

definition less_eq_date :: "date \<Rightarrow> date \<Rightarrow> bool" where
  "less_eq_date a b \<longleftrightarrow> dt_year a < dt_year b \<or> dt_year a = dt_year b \<and>
     (dt_month a < dt_month b \<or> dt_month a = dt_month b \<and> dt_day a \<le> dt_day b)"

definition less_date :: "date \<Rightarrow> date \<Rightarrow> bool" where
  "less_date a b \<longleftrightarrow> a \<le> b \<and> \<not> b \<le> (a :: date)"

instance
  by standard (auto simp: less_eq_date_def less_date_def intro: date.expand)

end

section \<open>Choices\<close>

datatype status_type = PENDING | DEPLOYABLE | DEPLOYED | UNDEPLOYABLE | ARCHIVED | IN_REPAIR | ON_ORDER

datatype depreciation_method = StraightLine | NoDepreciation
datatype depreciation_convention = ExcludePurchaseMonth | IncludePurchaseMonth
datatype reservation_status = ReservationPending | ReservationActive | ReservationFulfilled | ReservationCancelled
datatype request_status = RequestPending | RequestApproved | RequestProcurement | RequestDenied | RequestFulfilled | RequestCancelled
datatype order_status = OrderDraft | OrderApproved | OrderOrdered | OrderPartial | OrderReceived | OrderCancelled
datatype receipt_status = ReceiptPending | ReceiptAccepted | ReceiptDeclined | ReceiptSuperseded
datatype maintenance_type = Upgrade | Repair | Calibration | SoftwareSupport | HardwareSupport

section \<open>Rows\<close>

record depreciation =
  dp_id :: pk
  dp_months :: int
  dp_method :: depreciation_method
  dp_convention :: depreciation_convention
  dp_threshold :: "rat option"

record asset_type =
  at_id :: pk
  at_name :: string
  at_category :: "pk option"
  at_requestable :: bool
  at_depreciation :: "pk option"

record status_label =
  sl_id :: pk
  sl_type :: status_type
  sl_deleted :: "instant option"

record asset =
  as_id :: pk
  as_tenant :: "pk option"
  as_type :: "pk option"
  as_name :: string
  as_tag :: string
  as_serial :: string
  as_status :: "pk option"
  as_location :: "pk option"
  as_cost_center :: "pk option"
  as_line :: "pk option"
  as_purchase_cost :: "rat option"
  as_salvage_value :: "rat option"
  as_currency :: string
  as_purchase_date :: "date option"
  as_in_service_date :: "date option"
  as_override :: "pk option"
  as_requestable :: "bool option"
  as_disposed_at :: "instant option"
  as_disposal_value :: "rat option"
  as_deleted :: "instant option"

record asset_assignment =
  aa_id :: pk
  aa_asset :: pk
  aa_user :: "pk option"
  aa_location :: "pk option"
  aa_target :: "pk option"
  aa_pre_status :: "pk option"
  aa_by :: "pk option"
  aa_at :: instant
  aa_active :: bool
  aa_checked_in :: "instant option"
  aa_loan :: bool
  aa_due :: "date option"
  aa_returned :: "date option"
  aa_maintenance :: "pk option"
  aa_deleted :: "instant option"

record disposal =
  di_id :: pk
  di_asset :: pk
  di_date :: date
  di_proceeds :: "rat option"
  di_currency :: string
  di_maintenance :: "pk option"
  di_cancelled_at :: "instant option"
  di_cancelled_by :: "pk option"
  di_reason :: string
  di_deleted :: "instant option"

record reservation =
  rv_id :: pk
  rv_asset :: pk
  rv_holder :: "pk option"
  rv_start :: date
  rv_end :: date
  rv_status :: reservation_status
  rv_deleted :: "instant option"

record custody_template =
  ct_id :: pk
  ct_tenant :: "pk option"
  ct_group :: "pk option"
  ct_category :: "pk option"
  ct_active :: bool
  ct_require_acceptance :: bool
  ct_email_request :: bool
  ct_deleted :: "instant option"

record custody_receipt =
  cr_id :: pk
  cr_asset :: pk
  cr_holder :: pk
  cr_assignment :: "pk option"
  cr_template :: "pk option"
  cr_status :: receipt_status

record signing_session =
  cs_id :: pk
  cs_receipt :: pk
  cs_operator :: pk
  cs_holder :: "pk option"
  cs_expires :: instant
  cs_consumed :: "instant option"
  cs_canceled :: "instant option"

record maintenance =
  mt_id :: pk
  mt_asset :: pk
  mt_type :: maintenance_type
  mt_completion :: "date option"

record tag_sequence =
  sq_id :: pk
  sq_tenant :: "pk option"
  sq_category :: "pk option"
  sq_prefix :: string
  sq_next :: nat
  sq_padding :: nat
  sq_active :: bool
  sq_deleted :: "instant option"

record po_line =
  pl_id :: pk
  pl_tenant :: "pk option"
  pl_order :: pk
  pl_asset_type :: "pk option"
  pl_component :: "pk option"
  pl_accessory :: "pk option"
  pl_consumable :: "pk option"
  pl_license :: "pk option"
  pl_ordered :: int
  pl_received :: int
  pl_unit_price :: "rat option"
  pl_deleted :: "instant option"

record purchase_order =
  pu_id :: pk
  pu_tenant :: "pk option"
  pu_number :: string
  pu_currency :: string
  pu_status :: order_status
  pu_order_date :: "date option"
  pu_location :: pk
  pu_created_by :: "pk option"
  pu_deleted :: "instant option"

record fulfillment_link =
  fl_id :: pk
  fl_tenant :: "pk option"
  fl_request :: pk
  fl_line :: pk
  fl_allocated :: int
  fl_received :: "int option"
  fl_deleted :: "instant option"

record asset_request =
  rq_id :: pk
  rq_tenant :: "pk option"
  rq_requester :: pk
  rq_asset :: "pk option"
  rq_asset_type :: "pk option"
  rq_component :: "pk option"
  rq_accessory :: "pk option"
  rq_consumable :: "pk option"
  rq_qty :: int
  rq_status :: request_status
  rq_date :: instant
  rq_response_date :: "instant option"
  rq_responded_by :: "pk option"
  rq_user :: "pk option"
  rq_location :: "pk option"
  rq_target :: "pk option"
  rq_parent :: "pk option"
  rq_group :: bool
  rq_response_notes :: string
  rq_deleted :: "instant option"

record estate = inventory +
  es_policies :: "depreciation list"
  es_tenant_policies :: "(pk \<times> pk) list"
  es_types :: "asset_type list"
  es_labels :: "status_label list"
  es_assets :: "asset list"
  es_assignments :: "asset_assignment list"
  es_disposals :: "disposal list"
  es_reservations :: "reservation list"
  es_maintenances :: "maintenance list"
  es_templates :: "custody_template list"
  es_receipts :: "custody_receipt list"
  es_sessions :: "signing_session list"
  es_sequences :: "tag_sequence list"
  es_orders :: "purchase_order list"
  es_lines :: "po_line list"
  es_links :: "fulfillment_link list"
  es_requests :: "asset_request list"
  es_cost_centers :: "(pk \<times> pk option) list"

end
