(* ===== verification/AssetTags.thy ===== *)
theory AssetTags
  imports AssetData
begin

text \<open>
  Automatic asset tags: \<^verbatim>\<open>assets/models/tagsequence.py\<close>.  A sequence row is read, then locked and
  re-read; what other transactions commit in between is an argument, a function on the table, so that
  a sequence archived under the caller's feet is an ordinary case.  The widths and the counter are
  unbounded here (the columns are 32-bit).
\<close>

section \<open>Tags\<close>

text \<open>\<open>f"{n:0{width}d}"\<close>\<close>

definition zero_pad :: "nat \<Rightarrow> nat \<Rightarrow> string" where
  "zero_pad width n = (let s = decimal_digits n in replicate (width - length s) CHR ''0'' @ s)"

definition next_tag_preview :: "tag_sequence \<Rightarrow> string" where
  "next_tag_preview s = sq_prefix s @ zero_pad (sq_padding s) (sq_next s)"

datatype tag_error = NoLiveSequence | MultipleSequences

definition next_tag :: "pk \<Rightarrow> tag_sequence list \<Rightarrow> tag_error + string \<times> tag_sequence list" where
  "next_tag p rows =
     (case List.find (\<lambda>s. sq_id s = p \<and> sq_deleted s = None) rows of
        None \<Rightarrow> Inl NoLiveSequence
      | Some s \<Rightarrow> Inr (next_tag_preview s, map (\<lambda>x. if sq_id x = p then x\<lparr>sq_next := sq_next x + 1\<rparr> else x) rows))"

section \<open>The sequence of an asset\<close>

definition active_sequence :: "pk option \<Rightarrow> pk option \<Rightarrow> tag_sequence list \<Rightarrow> tag_sequence option" where
  "active_sequence tenant category rows =
     List.find (\<lambda>s. sq_tenant s = tenant \<and> sq_category s = category \<and> sq_active s \<and> sq_deleted s = None) rows"

text \<open>The first three steps of the fallback chain.\<close>

definition specific_sequence :: "pk option \<Rightarrow> pk option \<Rightarrow> tag_sequence list \<Rightarrow> tag_sequence option" where
  "specific_sequence tenant category rows =
     (case (if tenant \<noteq> None \<and> category \<noteq> None then active_sequence tenant category rows else None) of
        Some s \<Rightarrow> Some s
      | None \<Rightarrow>
          (case (if tenant \<noteq> None then active_sequence tenant None rows else None) of
             Some s \<Rightarrow> Some s
           | None \<Rightarrow> if category \<noteq> None then active_sequence None category rows else None))"

definition is_global_default :: "tag_sequence \<Rightarrow> bool" where
  "is_global_default s \<longleftrightarrow> sq_tenant s = None \<and> sq_category s = None \<and> sq_prefix s = ''ASSET-'' \<and> sq_deleted s = None"

definition default_sequence :: "tag_sequence list \<Rightarrow> tag_sequence" where
  "default_sequence rows = \<lparr>sq_id = next_id (map sq_id rows), sq_tenant = None, sq_category = None, sq_prefix = ''ASSET-'',
     sq_next = 1, sq_padding = 6, sq_active = True, sq_deleted = None\<rparr>"

text \<open>The five attempts and the last one re-select on the same table.\<close>

fun select_global_default_with_retry :: "nat \<Rightarrow> tag_sequence list \<Rightarrow> tag_error + tag_sequence" where
  "select_global_default_with_retry attempts rows =
     (case filter is_global_default rows of
        [s] \<Rightarrow> Inr s
      | [] \<Rightarrow> (case attempts of 0 \<Rightarrow> Inl NoLiveSequence | Suc n \<Rightarrow> select_global_default_with_retry n rows)
      | _ \<Rightarrow> Inl MultipleSequences)"

text \<open>The insertion of the default row violates \<open>unique_global_prefix\<close> when a live global row has its prefix.\<close>

definition get_or_create_global_default :: "tag_sequence list \<Rightarrow> (tag_error + tag_sequence) \<times> tag_sequence list" where
  "get_or_create_global_default rows =
     (case filter is_global_default rows of
        [s] \<Rightarrow> (Inr s, rows)
      | [] \<Rightarrow>
          if \<exists>s \<in> set rows. sq_tenant s = None \<and> sq_prefix s = ''ASSET-'' \<and> sq_deleted s = None
          then (select_global_default_with_retry 5 rows, rows)
          else (Inr (default_sequence rows), rows @ [default_sequence rows])
      | _ \<Rightarrow> (Inl MultipleSequences, rows))"

definition resolve_sequence_for_asset ::
    "pk option \<Rightarrow> pk option \<Rightarrow> tag_sequence list \<Rightarrow> (tag_error + tag_sequence) \<times> tag_sequence list" where
  "resolve_sequence_for_asset tenant category rows =
     (case specific_sequence tenant category rows of
        Some s \<Rightarrow> (Inr s, rows)
      | None \<Rightarrow> get_or_create_global_default rows)"

text \<open>One attempt: \<open>others\<close> is what is committed between reading the sequence and locking it.\<close>

definition allocate_next_tag_for_asset ::
    "(tag_sequence list \<Rightarrow> tag_sequence list) \<Rightarrow> pk option \<Rightarrow> pk option \<Rightarrow> tag_sequence list
       \<Rightarrow> (tag_error + string) \<times> tag_sequence list" where
  "allocate_next_tag_for_asset others tenant category rows =
     (case resolve_sequence_for_asset tenant category rows of
        (Inl e, rows1) \<Rightarrow> (Inl e, rows1)
      | (Inr s, rows1) \<Rightarrow>
          (case next_tag (sq_id s) (others rows1) of
             Inl e \<Rightarrow> (Inl e, others rows1)
           | Inr (tag, rows2) \<Rightarrow> (Inr tag, rows2)))"

fun allocate_attempts ::
    "(tag_sequence list \<Rightarrow> tag_sequence list) list \<Rightarrow> pk option \<Rightarrow> pk option \<Rightarrow> tag_sequence list
       \<Rightarrow> (tag_error + string) \<times> tag_sequence list" where
  "allocate_attempts [] tenant category rows = (Inl NoLiveSequence, rows)"
| "allocate_attempts (others # rest) tenant category rows =
     (case allocate_next_tag_for_asset others tenant category rows of
        (Inl NoLiveSequence, rows1) \<Rightarrow> allocate_attempts rest tenant category rows1
      | r \<Rightarrow> r)"

definition get_next_tag_for_asset ::
    "(tag_sequence list \<Rightarrow> tag_sequence list) list \<Rightarrow> pk option \<Rightarrow> pk option \<Rightarrow> tag_sequence list
       \<Rightarrow> (tag_error + string) \<times> tag_sequence list" where
  "get_next_tag_for_asset others = allocate_attempts (take 5 others)"

definition undisturbed :: "(tag_sequence list \<Rightarrow> tag_sequence list) list" where
  "undisturbed = replicate 5 (\<lambda>rows. rows)"

section \<open>Reading a tag back\<close>

lemma zero_pad_inject: "zero_pad w n = zero_pad w m \<longleftrightarrow> n = m"
  unfolding zero_pad_def Let_def by (metis digits_value_decimal digits_value_zeros)

text \<open>A table later than another: rows keep their identity and format, counters do not go back.\<close>

definition later_table :: "tag_sequence list \<Rightarrow> tag_sequence list \<Rightarrow> bool" where
  "later_table rows rows' \<longleftrightarrow> keyed sq_id rows' \<and> (\<forall>s \<in> set rows. \<forall>s' \<in> set rows'. sq_id s' = sq_id s \<longrightarrow>
     sq_prefix s' = sq_prefix s \<and> sq_padding s' = sq_padding s \<and> sq_next s \<le> sq_next s')"

definition bump_sequence :: "pk \<Rightarrow> tag_sequence list \<Rightarrow> tag_sequence list" where
  "bump_sequence p rows = map (\<lambda>x. if sq_id x = p then x\<lparr>sq_next := sq_next x + 1\<rparr> else x) rows"

lemma next_tag_ok:
  assumes "next_tag p rows = Inr (tag, rows')"
  obtains s where "s \<in> set rows" "sq_id s = p" "sq_deleted s = None" "tag = next_tag_preview s" "rows' = bump_sequence p rows"
  using assms by (auto simp: next_tag_def bump_sequence_def split: option.splits dest!: find_SomeD)

lemma next_tag_live:
  "keyed sq_id rows \<Longrightarrow> s \<in> set rows \<Longrightarrow> sq_deleted s = None \<Longrightarrow>
     next_tag (sq_id s) rows = Inr (next_tag_preview s, bump_sequence (sq_id s) rows)"
proof -
  assume a: "keyed sq_id rows" "s \<in> set rows" "sq_deleted s = None"
  obtain x where x: "List.find (\<lambda>x. sq_id x = sq_id s \<and> sq_deleted x = None) rows = Some x"
    using a by (cases "List.find (\<lambda>x. sq_id x = sq_id s \<and> sq_deleted x = None) rows") (auto simp: find_None_iff)
  then have "x = s" using a(1,2) by (auto simp: keyed_inj dest!: find_SomeD)
  then show ?thesis using x by (simp add: next_tag_def bump_sequence_def)
qed

lemma specific_sequence_ok:
  assumes "specific_sequence tenant category rows = Some s"
  shows "s \<in> set rows \<and> sq_deleted s = None \<and> sq_active s \<and> sq_tenant s \<in> {tenant, None} \<and> sq_category s \<in> {category, None}"
  using assms by (auto simp: specific_sequence_def active_sequence_def split: option.splits if_splits dest!: find_SomeD)

lemma reselect_fails: "filter is_global_default rows = [] \<Longrightarrow> select_global_default_with_retry n rows = Inl NoLiveSequence"
  by (induction n) (subst select_global_default_with_retry.simps, simp)+

text \<open>An attempt that finds no other writer decides the allocation.\<close>

lemma attempts_fail:
  assumes "allocate_next_tag_for_asset (\<lambda>rows. rows) tenant category rows = (Inl NoLiveSequence, rows)"
  shows "allocate_attempts (replicate n (\<lambda>rows. rows)) tenant category rows = (Inl NoLiveSequence, rows)"
  using assms by (induction n) simp_all

lemma first_padded_tag: "zero_pad 6 1 = ''000001''"
  by code_simp

section \<open>Properties\<close>

text \<open>C38. A sequence never issues a tag twice: after it has issued a tag, any later table in which sequences
  keep their identity and format and no counter has gone back (whatever else has been added, archived
  or issued meanwhile) yields a different tag.\<close>

theorem tag_never_reissued:
  assumes "keyed sq_id rows" and "next_tag p rows = Inr (tag, rows1)" and "later_table rows1 rows2"
    and "next_tag p rows2 = Inr (tag2, rows3)"
  shows "tag2 \<noteq> tag"
proof -
  obtain s where s: "s \<in> set rows" "sq_id s = p" "tag = next_tag_preview s" "rows1 = bump_sequence p rows"
    using next_tag_ok[OF assms(2)] by metis
  obtain s2 where s2: "s2 \<in> set rows2" "sq_id s2 = p" "tag2 = next_tag_preview s2"
    using next_tag_ok[OF assms(4)] by metis
  have "s\<lparr>sq_next := sq_next s + 1\<rparr> \<in> set rows1" using s by (force simp: bump_sequence_def)
  then have "sq_prefix s2 = sq_prefix s" "sq_padding s2 = sq_padding s" "sq_next s < sq_next s2"
    using assms(3) s2 s(2) by (fastforce simp: later_table_def)+
  then show ?thesis by (simp add: s s2 next_tag_preview_def zero_pad_inject)
qed

text \<open>C39. Automatic tagging is exact: with no other writer, the tag comes from the most specific live active
  sequence (tenant and category, tenant, category), else from the global default sequence whether or not
  it is active, else from a default sequence created on the spot; the counter used moves by one and
  nothing else changes.  The one failure is that a live global sequence of some category already has the
  prefix of the default: then the default can neither be found nor created, and every allocation that
  needs it fails.\<close>

theorem automatic_tag_exact:
  assumes keys: "keyed sq_id rows" and one: "length (filter is_global_default rows) \<le> 1"
  shows "get_next_tag_for_asset undisturbed tenant category rows =
    (case specific_sequence tenant category rows of
       Some s \<Rightarrow> (Inr (next_tag_preview s), bump_sequence (sq_id s) rows)
     | None \<Rightarrow>
         (case List.find is_global_default rows of
            Some s \<Rightarrow> (Inr (next_tag_preview s), bump_sequence (sq_id s) rows)
          | None \<Rightarrow>
              if \<exists>s \<in> set rows. sq_tenant s = None \<and> sq_category s \<noteq> None \<and> sq_prefix s = ''ASSET-'' \<and> sq_deleted s = None
              then (Inl NoLiveSequence, rows)
              else (Inr ''ASSET-000001'', rows @ [(default_sequence rows)\<lparr>sq_next := 2\<rparr>])))"
proof -
  have five: "take 5 undisturbed = (\<lambda>rows. rows) # replicate 4 (\<lambda>rows. rows)"
    by (simp add: undisturbed_def eval_nat_numeral)
  have first: "get_next_tag_for_asset undisturbed tenant category rows = (Inr t, rows')"
    if "allocate_next_tag_for_asset (\<lambda>rows. rows) tenant category rows = (Inr t, rows')" for t rows'
    using that by (simp add: get_next_tag_for_asset_def five)
  have served: "allocate_next_tag_for_asset (\<lambda>rows. rows) tenant category rows = (Inr (next_tag_preview s), bump_sequence (sq_id s) rows)"
    if "resolve_sequence_for_asset tenant category rows = (Inr s, rows)" "s \<in> set rows" "sq_deleted s = None" for s
    using that keys by (simp add: allocate_next_tag_for_asset_def next_tag_live)
  show ?thesis
  proof (cases "specific_sequence tenant category rows")
    case (Some s)
    then show ?thesis using first[OF served[of s]] specific_sequence_ok[OF Some] by (simp add: resolve_sequence_for_asset_def)
  next
    case none: None
    show ?thesis
    proof (cases "filter is_global_default rows")
      case (Cons s rest)
      then have s: "filter is_global_default rows = [s]" using one by simp
      then have in_s: "s \<in> set rows" "is_global_default s" using filter_singleton by metis+
      have found: "List.find is_global_default rows = Some s"
        using Cons by (induction rows) (auto split: if_splits)
      then show ?thesis using first[OF served[of s]] in_s s none
        by (simp add: resolve_sequence_for_asset_def get_or_create_global_default_def is_global_default_def)
    next
      case Nil
      then have not_found: "List.find is_global_default rows = None" by (auto simp: find_None_iff filter_empty_conv)
      let ?taken = "\<exists>s \<in> set rows. sq_tenant s = None \<and> sq_category s \<noteq> None \<and> sq_prefix s = ''ASSET-'' \<and> sq_deleted s = None"
      have taken: "(\<exists>s \<in> set rows. sq_tenant s = None \<and> sq_prefix s = ''ASSET-'' \<and> sq_deleted s = None) = ?taken"
        using Nil unfolding filter_empty_conv is_global_default_def by blast
      show ?thesis
      proof (cases ?taken)
        case True
        then have "allocate_next_tag_for_asset (\<lambda>rows. rows) tenant category rows = (Inl NoLiveSequence, rows)"
          using none Nil taken by (simp add: allocate_next_tag_for_asset_def resolve_sequence_for_asset_def
              get_or_create_global_default_def reselect_fails)
        from attempts_fail[OF this, of 5] show ?thesis
          using none not_found True by (simp add: get_next_tag_for_asset_def undisturbed_def)
      next
        case False
        let ?d = "default_sequence rows"
        have fresh: "sq_id s \<noteq> sq_id ?d" if "s \<in> set rows" for s
          using next_id_fresh[of "sq_id s" "map sq_id rows"] that by (auto simp: default_sequence_def)
        then have "sq_id ?d \<notin> sq_id ` set rows" by (metis image_iff)
        then have "keyed sq_id (rows @ [?d])" using keys by (simp add: keyed_def)
        then have n: "next_tag (sq_id ?d) (rows @ [?d]) = Inr (next_tag_preview ?d, bump_sequence (sq_id ?d) (rows @ [?d]))"
          by (rule next_tag_live) (simp_all add: default_sequence_def)
        have b: "bump_sequence (sq_id ?d) (rows @ [?d]) = rows @ [?d\<lparr>sq_next := 2\<rparr>]"
          using fresh by (auto simp: bump_sequence_def default_sequence_def intro!: map_idI)
        have t: "next_tag_preview ?d = ''ASSET-000001''"
          using first_padded_tag by (simp add: next_tag_preview_def default_sequence_def)
        have "allocate_next_tag_for_asset (\<lambda>rows. rows) tenant category rows = (Inr (next_tag_preview ?d), rows @ [?d\<lparr>sq_next := 2\<rparr>])"
          using none Nil taken False n b
          by (simp add: allocate_next_tag_for_asset_def resolve_sequence_for_asset_def get_or_create_global_default_def)
        from first[OF this] show ?thesis using none not_found False t by simp
      qed
    qed
  qed
qed

section \<open>Concrete runs\<close>

text \<open>A laptop sequence of category 7 that was given the default prefix, and tenant 2's own sequence.\<close>

definition laptop_sequence :: tag_sequence where
  "laptop_sequence = \<lparr>sq_id = 1, sq_tenant = None, sq_category = Some 7, sq_prefix = ''ASSET-'', sq_next = 1, sq_padding = 6,
     sq_active = True, sq_deleted = None\<rparr>"

definition tenant_sequence :: tag_sequence where
  "tenant_sequence = \<lparr>sq_id = 2, sq_tenant = Some 2, sq_category = None, sq_prefix = ''T-'', sq_next = 41, sq_padding = 4,
     sq_active = True, sq_deleted = None\<rparr>"

lemma tag_never_reissued_witness:
  "next_tag 2 [laptop_sequence, tenant_sequence] = Inr (''T-0041'', [laptop_sequence, tenant_sequence\<lparr>sq_next := 42\<rparr>])
   \<and> ''T-0042'' \<noteq> ''T-0041''"
proof -
  have a: "next_tag 2 [laptop_sequence, tenant_sequence] = Inr (''T-0041'', [laptop_sequence, tenant_sequence\<lparr>sq_next := 42\<rparr>])"
    by code_simp
  have b: "next_tag 2 [laptop_sequence, tenant_sequence\<lparr>sq_next := 42\<rparr>]
      = Inr (''T-0042'', [laptop_sequence, tenant_sequence\<lparr>sq_next := 43\<rparr>])" by code_simp
  have "keyed sq_id [laptop_sequence, tenant_sequence]" "later_table [laptop_sequence, tenant_sequence\<lparr>sq_next := 42\<rparr>] [laptop_sequence, tenant_sequence\<lparr>sq_next := 42\<rparr>]"
    by (simp_all add: keyed_def later_table_def laptop_sequence_def tenant_sequence_def)
  from tag_never_reissued[OF this(1) a this(2) b] a show ?thesis by blast
qed

lemma automatic_tag_exact_witness:
  "get_next_tag_for_asset undisturbed (Some 3) (Some 8) [laptop_sequence, tenant_sequence] = (Inl NoLiveSequence, [laptop_sequence, tenant_sequence])"
proof -
  have k: "keyed sq_id [laptop_sequence, tenant_sequence]" "length (filter is_global_default [laptop_sequence, tenant_sequence]) \<le> 1"
    by (simp_all add: keyed_def laptop_sequence_def tenant_sequence_def is_global_default_def)
  have "specific_sequence (Some 3) (Some 8) [laptop_sequence, tenant_sequence] = None"
    "List.find is_global_default [laptop_sequence, tenant_sequence] = None" by code_simp+
  then show ?thesis using automatic_tag_exact[OF k, of "Some 3" "Some 8"] by (simp add: laptop_sequence_def)
qed

end
