(* ===== verification/BookValue.thy ===== *)
theory BookValue
  imports AssetTags
begin

text \<open>
  Depreciated book values: \<^verbatim>\<open>assets/model_book_value.py\<close>.  Amounts are Python decimals: every operation
  rounds its exact result to 28 significant digits, ties to even (the default context), and the final
  \<open>quantize\<close> rounds to cents, ties away from zero.
\<close>

section \<open>Decimal arithmetic\<close>

definition round_half_even :: "rat \<Rightarrow> int" where
  "round_half_even x =
     (let f = \<lfloor>x\<rfloor>; r = x - of_int f
      in if r < 1/2 then f else if r > 1/2 then f + 1 else if even f then f else f + 1)"

text \<open>The exponent of the leading digit of a positive number.\<close>

definition exponent10 :: "rat \<Rightarrow> int" where
  "exponent10 x =
     (let (p, q) = quotient_of x;
          e = int (length (decimal_digits (nat p))) - int (length (decimal_digits (nat q)))
      in if x < 10 powi e then e - 1 else e)"

definition context_pos :: "rat \<Rightarrow> rat" where
  "context_pos x = (let k = 27 - exponent10 x in of_int (round_half_even (x * 10 powi k)) / 10 powi k)"

definition in_context :: "rat \<Rightarrow> rat" where
  "in_context x = (if x = 0 then 0 else if x > 0 then context_pos x else - context_pos (- x))"

text \<open>\<open>quantize(Decimal("0.01"), rounding=ROUND_HALF_UP)\<close>\<close>

definition round_cents :: "rat \<Rightarrow> rat" where
  "round_cents x = sgn x * of_int \<lfloor>\<bar>x\<bar> * 100 + 1/2\<rfloor> / 100"

section \<open>The schedule\<close>

definition find_policy :: "estate \<Rightarrow> pk option \<Rightarrow> depreciation option" where
  "find_policy db p = Option.bind p (\<lambda>i. find_row dp_id i (es_policies db))"

definition asset_type_of :: "estate \<Rightarrow> asset \<Rightarrow> asset_type option" where
  "asset_type_of db a = Option.bind (as_type a) (\<lambda>i. find_row at_id i (es_types db))"

definition resolve_policy :: "estate \<Rightarrow> asset \<Rightarrow> depreciation option" where
  "resolve_policy db a =
     (case find_policy db (as_override a) of
        Some p \<Rightarrow> Some p
      | None \<Rightarrow>
          (case find_policy db (Option.bind (as_tenant a) (map_of (es_tenant_policies db))) of
             Some p \<Rightarrow> Some p
           | None \<Rightarrow> find_policy db (Option.bind (asset_type_of db a) at_depreciation)))"

definition clock_start :: "asset \<Rightarrow> date option" where
  "clock_start a = (case as_in_service_date a of Some d \<Rightarrow> Some d | None \<Rightarrow> as_purchase_date a)"

definition months_held :: "date \<Rightarrow> date \<Rightarrow> depreciation_convention \<Rightarrow> int" where
  "months_held start on_date conv =
     (let diff = (dt_year on_date - dt_year start) * 12 + dt_month on_date - dt_month start
      in if conv = IncludePurchaseMonth then max (diff + 1) 0 else max diff 0)"

definition threshold_value :: "rat \<Rightarrow> rat \<Rightarrow> rat option \<Rightarrow> int \<Rightarrow> rat option" where
  "threshold_value cost salvage threshold elapsed =
     (case threshold of
        None \<Rightarrow> None
      | Some t \<Rightarrow> if cost > t then None else Some (if elapsed \<ge> 1 then salvage else cost))"

definition policy_value :: "rat \<Rightarrow> rat \<Rightarrow> depreciation \<Rightarrow> int \<Rightarrow> rat" where
  "policy_value cost salvage p elapsed =
     (if dp_method p = NoDepreciation \<or> dp_months p \<le> 0 \<or> elapsed = 0 then cost
      else if elapsed \<ge> dp_months p then salvage
      else
        (let base = in_context (cost - salvage);
             monthly = in_context (base / of_int (dp_months p));
             current = in_context (cost - in_context (monthly * of_int elapsed))
         in max current salvage))"

definition compute_book_value :: "estate \<Rightarrow> date \<Rightarrow> asset \<Rightarrow> rat option" where
  "compute_book_value db on_date a =
     (if as_disposed_at a \<noteq> None then as_disposal_value a
      else
        (case as_purchase_cost a of
           None \<Rightarrow> None
         | Some cost \<Rightarrow>
             if cost = 0 then None
             else
               (let salvage = (case as_salvage_value a of None \<Rightarrow> 0 | Some s \<Rightarrow> s)
                in case resolve_policy db a of
                     None \<Rightarrow> Some (round_cents cost)
                   | Some p \<Rightarrow>
                       (case clock_start a of
                          None \<Rightarrow> Some (round_cents cost)
                        | Some start \<Rightarrow>
                            if on_date < start then Some (round_cents cost)
                            else
                              (let elapsed = months_held start on_date (dp_convention p)
                               in if dp_method p = NoDepreciation \<or> dp_months p \<le> 0 then Some (round_cents cost)
                                  else Some (round_cents (case threshold_value cost salvage (dp_threshold p) elapsed of
                                               Some v \<Rightarrow> v
                                             | None \<Rightarrow> policy_value cost salvage p elapsed)))))))"

section \<open>Rounding is monotone\<close>

lemma round_half_even_bounds: "\<lfloor>x\<rfloor> \<le> round_half_even x" "round_half_even x \<le> \<lfloor>x\<rfloor> + 1"
  by (auto simp: round_half_even_def Let_def)

lemma round_half_even_of_int [simp]: "round_half_even (of_int n) = n"
  by (simp add: round_half_even_def)

lemma round_half_even_numeral [simp]: "round_half_even (numeral k) = numeral k"
  using round_half_even_of_int[of "numeral k"] by simp

lemma round_half_even_mono: "x \<le> y \<Longrightarrow> round_half_even x \<le> round_half_even y"
proof (cases "\<lfloor>x\<rfloor> < \<lfloor>y\<rfloor>")
  case True
  then show ?thesis using round_half_even_bounds[of x] round_half_even_bounds[of y] by linarith
next
  case False
  moreover assume "x \<le> y"
  ultimately have "\<lfloor>x\<rfloor> = \<lfloor>y\<rfloor>" using floor_mono[of x y] by simp
  then show ?thesis using \<open>x \<le> y\<close> by (auto simp: round_half_even_def Let_def)
qed

lemma decimal_digits_bounds: "0 < n \<Longrightarrow> 10 ^ (length (decimal_digits n) - 1) \<le> n" "n < 10 ^ length (decimal_digits n)"
proof (induction n rule: decimal_digits.induct)
  case (1 n)
  have pos: "0 < length (decimal_digits m)" for m by (subst decimal_digits.simps) simp
  show "0 < n \<Longrightarrow> 10 ^ (length (decimal_digits n) - 1) \<le> n"
  proof (cases "n < 10")
    case False
    then have "10 ^ (length (decimal_digits (n div 10)) - 1) \<le> n div 10" using 1(1) by simp
    then have "10 ^ length (decimal_digits (n div 10)) \<le> 10 * (n div 10)" using pos[of "n div 10"]
      by (cases "length (decimal_digits (n div 10))") simp_all
    then show ?thesis using False by (subst decimal_digits.simps) simp
  qed (subst decimal_digits.simps, simp)
  show "n < 10 ^ length (decimal_digits n)"
  proof (cases "n < 10")
    case True
    then show ?thesis by (subst decimal_digits.simps) simp
  next
    case False
    then have "n div 10 < 10 ^ length (decimal_digits (n div 10))" using 1(2) by simp
    then have "n < 10 * 10 ^ length (decimal_digits (n div 10))" by linarith
    then show ?thesis using False by (subst decimal_digits.simps) simp
  qed
qed


lemma digits_powi:
  assumes "0 < (n :: int)"
  shows "10 powi (int (length (decimal_digits (nat n))) - 1) \<le> (of_int n :: rat)" "(of_int n :: rat) < 10 powi int (length (decimal_digits (nat n)))"
proof -
  have "0 < length (decimal_digits (nat n))" by (subst decimal_digits.simps) simp
  then obtain k where l: "length (decimal_digits (nat n)) = Suc k" using gr0_implies_Suc by blast
  have "10 ^ k \<le> nat n" using decimal_digits_bounds(1)[of "nat n"] assms by (simp add: l)
  then have "(of_nat (10 ^ k) :: rat) \<le> of_nat (nat n)" by (simp only: of_nat_le_iff)
  then show "10 powi (int (length (decimal_digits (nat n))) - 1) \<le> (of_int n :: rat)" using assms by (simp add: l)
  have "nat n < 10 ^ Suc k" using decimal_digits_bounds(2)[of "nat n"] by (simp only: l)
  then have "(of_nat (nat n) :: rat) < of_nat (10 ^ Suc k)" by (simp only: of_nat_less_iff)
  then have "(of_int n :: rat) < 10 ^ Suc k" using assms by simp
  then show "(of_int n :: rat) < 10 powi int (length (decimal_digits (nat n)))" unfolding l power_int_of_nat .
qed

lemma powi_less: "(10 :: rat) powi e < 10 powi f \<Longrightarrow> e < f"
  using power_int_increasing[of f e "10 :: rat"] by force

lemma exponent10_bounds:
  assumes "0 < x"
  shows "10 powi exponent10 x \<le> x" "x < 10 powi (exponent10 x + 1)"
proof -
  obtain p q where pq: "quotient_of x = (p, q)" by force
  have q: "0 < q" and x: "x = of_int p / of_int q" using pq by (auto intro: quotient_of_denom_pos quotient_of_div)
  then have p: "0 < p" using assms by (simp add: zero_less_divide_iff)
  define a where "a = int (length (decimal_digits (nat p)))"
  define b where "b = int (length (decimal_digits (nat q)))"
  have P: "10 powi (a - 1) \<le> (of_int p :: rat)" "(of_int p :: rat) < 10 powi a" using digits_powi[OF p] by (simp_all add: a_def)
  have Q: "10 powi (b - 1) \<le> (of_int q :: rat)" "(of_int q :: rat) < 10 powi b" using digits_powi[OF q] by (simp_all add: b_def)
  have "x * 10 powi (b - 1) \<le> x * of_int q" using Q(1) assms by (simp add: mult_left_mono)
  also have "\<dots> = of_int p" using x q by simp
  also have "\<dots> < 10 powi a" by (rule P(2))
  finally have "x * 10 powi (b - 1) < 10 powi (a - b + 1) * 10 powi (b - 1)" by (simp add: power_int_add[symmetric])
  then have upper: "x < 10 powi (a - b + 1)" by (simp add: mult_less_cancel_right)
  have "10 powi (a - b - 1) * 10 powi b = (10 :: rat) powi (a - 1)" by (simp add: power_int_add[symmetric])
  also have "\<dots> \<le> of_int p" by (rule P(1))
  also have "\<dots> = x * of_int q" using x q by simp
  also have "\<dots> \<le> x * 10 powi b" using Q(2) assms by simp
  finally have lower: "10 powi (a - b - 1) \<le> x" by (simp add: mult_le_cancel_right)
  have e: "exponent10 x = (if x < 10 powi (a - b) then a - b - 1 else a - b)"
    by (simp add: exponent10_def pq a_def b_def Let_def)
  show "10 powi exponent10 x \<le> x" using lower by (simp add: e)
  show "x < 10 powi (exponent10 x + 1)" using upper by (simp add: e)
qed

lemma context_pos_bounds:
  assumes "0 < x"
  shows "10 powi exponent10 x \<le> context_pos x" "context_pos x \<le> 10 powi (exponent10 x + 1)"
proof -
  let ?e = "exponent10 x"
  let ?s = "(10 :: rat) powi (27 - ?e)"
  have s: "0 < ?s" by simp
  have "10 powi ?e * ?s = (of_int (10 ^ 27) :: rat)" by (simp add: power_int_add[symmetric])
  moreover have "10 powi ?e * ?s \<le> x * ?s" using exponent10_bounds(1)[OF assms] by simp
  ultimately have "10 ^ 27 \<le> round_half_even (x * ?s)"
    using round_half_even_mono[of "of_int (10 ^ 27)" "x * ?s"] by simp
  then have "(of_int (10 ^ 27) :: rat) \<le> of_int (round_half_even (x * ?s))" by (simp only: of_int_le_iff)
  then have "10 powi ?e * ?s \<le> of_int (round_half_even (x * ?s))" by (simp add: power_int_add[symmetric])
  then show "10 powi ?e \<le> context_pos x" using s by (simp add: context_pos_def Let_def pos_le_divide_eq)
  have "10 powi (?e + 1) * ?s = (of_int (10 ^ 28) :: rat)" by (simp add: power_int_add[symmetric])
  moreover have "x * ?s \<le> 10 powi (?e + 1) * ?s" using exponent10_bounds(2)[OF assms] by simp
  ultimately have "round_half_even (x * ?s) \<le> 10 ^ 28"
    using round_half_even_mono[of "x * ?s" "of_int (10 ^ 28)"] by simp
  then have "(of_int (round_half_even (x * ?s)) :: rat) \<le> of_int (10 ^ 28)" by (simp only: of_int_le_iff)
  then have "of_int (round_half_even (x * ?s)) \<le> 10 powi (?e + 1) * ?s" by (simp add: power_int_add[symmetric])
  then show "context_pos x \<le> 10 powi (?e + 1)" using s by (simp add: context_pos_def Let_def pos_divide_le_eq)
qed

lemma context_pos_mono:
  assumes "0 < x" "x \<le> y"
  shows "context_pos x \<le> context_pos y"
proof (cases "exponent10 x = exponent10 y")
  case True
  then show ?thesis using assms round_half_even_mono[of "x * 10 powi (27 - exponent10 y)" "y * 10 powi (27 - exponent10 y)"]
    by (simp add: context_pos_def Let_def divide_right_mono)
next
  case False
  have "(10 :: rat) powi exponent10 x \<le> x" by (rule exponent10_bounds(1)[OF assms(1)])
  also have "\<dots> < 10 powi (exponent10 y + 1)" using assms exponent10_bounds(2)[of y] by simp
  finally have "exponent10 x < exponent10 y + 1" by (rule powi_less)
  then have "exponent10 x + 1 \<le> exponent10 y" using False by simp
  then have "(10 :: rat) powi (exponent10 x + 1) \<le> 10 powi exponent10 y" by (rule power_int_increasing) simp
  then show ?thesis using context_pos_bounds(2)[OF assms(1)] context_pos_bounds(1)[of y] assms by linarith
qed

lemma context_pos_pos: "0 < x \<Longrightarrow> 0 < context_pos x"
  using context_pos_bounds(1)[of x] by (meson less_le_trans zero_less_numeral zero_less_power_int)

lemma in_context_mono: "x \<le> y \<Longrightarrow> in_context x \<le> in_context y"
  using context_pos_mono[of x y] context_pos_mono[of "- y" "- x"] context_pos_pos[of y] context_pos_pos[of "- x"]
  by (auto simp: in_context_def)

lemma in_context_0 [simp]: "in_context 0 = 0"
  by (simp add: in_context_def)

lemma in_context_nonneg: "0 \<le> x \<Longrightarrow> 0 \<le> in_context x"
  using in_context_mono[of 0 x] by simp

text \<open>An amount in cents below ten to the twentieth fits in the context.\<close>

lemma in_context_cents:
  assumes "0 \<le> n" "n < 10 ^ 20"
  shows "in_context (of_int n / 100) = of_int n / 100"
proof (cases "n = 0")
  case False
  let ?x = "(of_int n :: rat) / 100"
  have pos: "0 < ?x" using assms False by simp
  have "(10 :: rat) powi exponent10 ?x \<le> ?x" by (rule exponent10_bounds(1)[OF pos])
  also have "\<dots> < 10 powi 20"
  proof -
    have "(of_int n :: rat) < of_int (10 ^ 20)" using assms(2) by (simp only: of_int_less_iff)
    then show ?thesis by simp
  qed
  finally have "exponent10 ?x < 20" by (rule powi_less)
  then obtain m where m: "27 - exponent10 ?x = int (m + 2)"
    using that[of "nat (25 - exponent10 ?x)"] by simp
  then have s: "(10 :: rat) powi (27 - exponent10 ?x) = 100 * 10 ^ m" by (simp only: power_int_of_nat) simp
  then have "?x * 10 powi (27 - exponent10 ?x) = of_int (n * 10 ^ m)" by simp
  then have "round_half_even (?x * 10 powi (27 - exponent10 ?x)) = n * 10 ^ m" by (simp only: round_half_even_of_int)
  then show ?thesis using pos by (simp add: in_context_def context_pos_def Let_def s)
qed simp

lemma round_cents_mono: "0 \<le> x \<Longrightarrow> x \<le> y \<Longrightarrow> round_cents x \<le> round_cents y"
proof -
  assume a: "0 \<le> x" "x \<le> y"
  have "\<lfloor>x * 100 + 1/2\<rfloor> \<le> \<lfloor>y * 100 + 1/2\<rfloor>" using a by (intro floor_mono) simp
  moreover have "0 \<le> \<lfloor>y * 100 + 1/2\<rfloor>" using a by simp
  ultimately show ?thesis using a by (auto simp: round_cents_def sgn_if divide_right_mono)
qed

lemma round_cents_cents: "0 \<le> n \<Longrightarrow> round_cents (of_int n / 100) = of_int n / 100"
proof -
  assume "0 \<le> n"
  moreover have "\<lfloor>(of_int n :: rat) + 1/2\<rfloor> = n" by (simp add: floor_unique)
  ultimately show ?thesis by (simp add: round_cents_def sgn_if)
qed

section \<open>The value of a schedule\<close>

lemma policy_value_range:
  assumes "0 \<le> salvage" "salvage \<le> cost" "in_context cost = cost" "0 \<le> e"
  shows "salvage \<le> policy_value cost salvage p e \<and> policy_value cost salvage p e \<le> cost"
proof -
  let ?m = "in_context (in_context (cost - salvage) / of_int (dp_months p))"
  have "in_context (cost - in_context (?m * of_int e)) \<le> in_context cost" if "0 < dp_months p"
    using assms that by (intro in_context_mono) (simp add: in_context_nonneg)
  then show ?thesis using assms by (auto simp: policy_value_def Let_def)
qed

lemma policy_value_falls:
  assumes "0 \<le> salvage" "salvage \<le> cost" "in_context cost = cost" "0 \<le> e" "e \<le> e'"
  shows "policy_value cost salvage p e' \<le> policy_value cost salvage p e"
proof (cases "dp_method p = NoDepreciation \<or> dp_months p \<le> 0 \<or> e = 0 \<or> dp_months p \<le> e'")
  case True
  then show ?thesis
    using assms policy_value_range[OF assms(1-4), of p] policy_value_range[OF assms(1-3), of e' p] by (auto simp: policy_value_def)
next
  case False
  let ?m = "in_context (in_context (cost - salvage) / of_int (dp_months p))"
  have "0 \<le> ?m" using False assms by (simp add: in_context_nonneg)
  then have "in_context (?m * of_int e) \<le> in_context (?m * of_int e')"
    using assms(5) by (intro in_context_mono mult_left_mono) simp_all
  then have "in_context (cost - in_context (?m * of_int e')) \<le> in_context (cost - in_context (?m * of_int e))"
    by (intro in_context_mono) simp
  then show ?thesis using False assms(4,5) by (auto simp: policy_value_def Let_def)
qed

definition scheduled_value :: "rat \<Rightarrow> rat \<Rightarrow> depreciation \<Rightarrow> int \<Rightarrow> rat" where
  "scheduled_value cost salvage p elapsed =
     (case threshold_value cost salvage (dp_threshold p) elapsed of Some v \<Rightarrow> v | None \<Rightarrow> policy_value cost salvage p elapsed)"

lemma scheduled_value_ok:
  assumes "0 \<le> salvage" "salvage \<le> cost" "in_context cost = cost" "0 \<le> e" "e \<le> e'"
  shows "salvage \<le> scheduled_value cost salvage p e'" "scheduled_value cost salvage p e' \<le> scheduled_value cost salvage p e"
    "scheduled_value cost salvage p e \<le> cost"
  using policy_value_range[OF assms(1-4), of p] policy_value_range[OF assms(1-3), of e' p] policy_value_falls[OF assms, of p] assms
  by (auto simp: scheduled_value_def threshold_value_def split: option.splits)

lemma months_held_mono:
  assumes "d \<le> d'" "dt_month d \<in> {1..12}" "dt_month d' \<in> {1..12}"
  shows "0 \<le> months_held start d conv \<and> months_held start d conv \<le> months_held start d' conv"
proof -
  have "dt_year d * 12 + dt_month d \<le> dt_year d' * 12 + dt_month d'"
    using assms by (auto simp: less_eq_date_def)
  then have "(dt_year d - dt_year start) * 12 + dt_month d - dt_month start
      \<le> (dt_year d' - dt_year start) * 12 + dt_month d' - dt_month start" by (simp add: algebra_simps)
  then show ?thesis by (auto simp: months_held_def Let_def)
qed

text \<open>C40. Book values are bounded and only fall: for an undisposed asset with a purchase cost and a residual
  value between nothing and that cost, both in whole cents, the book value exists on every date, lies
  between the residual value and the cost whatever policy applies and however the decimal arithmetic
  rounds, and is never higher on a later date.\<close>

theorem book_value_bounded_and_falling:
  assumes live: "as_disposed_at a = None" and cost: "as_purchase_cost a = Some (of_int c / 100)"
    and salvage: "as_salvage_value a = Some (of_int s / 100)" and order: "0 \<le> s" "s \<le> c" "0 < c" "c < 10 ^ 20"
    and dates: "d \<le> d'" "dt_month d \<in> {1..12}" "dt_month d' \<in> {1..12}"
  shows "\<exists>v v'. compute_book_value db d a = Some v \<and> compute_book_value db d' a = Some v' \<and>
    of_int s / 100 \<le> v' \<and> v' \<le> v \<and> v \<le> of_int c / 100"
proof -
  let ?c = "(of_int c :: rat) / 100" and ?s = "(of_int s :: rat) / 100"
  have sc: "0 \<le> ?s" "?s \<le> ?c" and fit: "in_context ?c = ?c" using order in_context_cents[of c] by (simp_all add: divide_right_mono)
  have cents: "round_cents ?c = ?c" "round_cents ?s = ?s" using order by (simp_all add: round_cents_cents)
  have amount: "compute_book_value db x a = Some (round_cents
      (case resolve_policy db a of None \<Rightarrow> ?c | Some p \<Rightarrow> (case clock_start a of None \<Rightarrow> ?c | Some start \<Rightarrow>
         if x < start \<or> dp_method p = NoDepreciation \<or> dp_months p \<le> 0 then ?c
         else scheduled_value ?c ?s p (months_held start x (dp_convention p)))))" for x
    using order(3) by (auto simp: compute_book_value_def live cost salvage scheduled_value_def Let_def split: option.splits)
  have bounded: "?s \<le> round_cents v' \<and> round_cents v' \<le> round_cents v \<and> round_cents v \<le> ?c"
    if "?s \<le> v'" "v' \<le> v" "v \<le> ?c" for v v'
    using that sc round_cents_mono[of ?s v'] round_cents_mono[of v' v] round_cents_mono[of v ?c] by (simp add: cents)
  show ?thesis
  proof (cases "resolve_policy db a = None \<or> clock_start a = None")
    case True
    then show ?thesis using bounded[of ?c ?c] sc by (auto simp: amount split: option.splits)
  next
    case False
    then obtain p start where p: "resolve_policy db a = Some p" "clock_start a = Some start" by (cases "resolve_policy db a"; cases "clock_start a") auto
    let ?v = "\<lambda>x. if x < start \<or> dp_method p = NoDepreciation \<or> dp_months p \<le> 0 then ?c
      else scheduled_value ?c ?s p (months_held start x (dp_convention p))"
    note m = months_held_mono[OF dates, of start "dp_convention p"]
    note ok = scheduled_value_ok[OF sc fit conjunct1[OF m] conjunct2[OF m], of p]
    have "?s \<le> ?v d' \<and> ?v d' \<le> ?v d \<and> ?v d \<le> ?c"
      using ok sc dates(1) by auto
    then show ?thesis using bounded[of "?v d'" "?v d"] by (simp add: amount p)
  qed
qed

section \<open>Concrete values\<close>

definition sample_policy :: depreciation where
  "sample_policy = \<lparr>dp_id = 4, dp_months = 36, dp_method = StraightLine, dp_convention = IncludePurchaseMonth, dp_threshold = Some 800\<rparr>"

definition sample_type :: asset_type where
  "sample_type = \<lparr>at_id = 70, at_name = ''Laptop'', at_category = Some 7, at_requestable = True, at_depreciation = Some 4\<rparr>"

definition sample_asset :: asset where
  "sample_asset = \<lparr>as_id = 80, as_tenant = Some 2, as_type = Some 70, as_name = ''Laptop'', as_tag = ''T-0001'', as_serial = [],
     as_status = Some 1, as_location = Some 20, as_cost_center = None, as_line = None, as_purchase_cost = Some (of_int 100000 / 100),
     as_salvage_value = Some (of_int 10000 / 100), as_currency = ''EUR'', as_purchase_date = Some (Date 2024 1 15), as_in_service_date = None,
     as_override = None, as_requestable = None, as_disposed_at = None, as_disposal_value = None, as_deleted = None\<rparr>"

definition sample_estate :: estate where
  "sample_estate = inventory.extend sample_inventory
     \<lparr>es_policies = [sample_policy], es_tenant_policies = [], es_types = [sample_type],
      es_labels = [\<lparr>sl_id = 1, sl_type = DEPLOYABLE, sl_deleted = None\<rparr>, \<lparr>sl_id = 2, sl_type = DEPLOYED, sl_deleted = None\<rparr>,
                   \<lparr>sl_id = 3, sl_type = ARCHIVED, sl_deleted = None\<rparr>, \<lparr>sl_id = 4, sl_type = PENDING, sl_deleted = None\<rparr>],
      es_assets = [sample_asset], es_assignments = [], es_disposals = [], es_reservations = [], es_maintenances = [],
      es_templates = [], es_receipts = [], es_sessions = [], es_sequences = [laptop_sequence, tenant_sequence], es_orders = [], es_lines = [], es_links = [], es_requests = [],
      es_cost_centers = []\<rparr>"

lemma sample_estate_tables:
  "es_policies sample_estate = [sample_policy]" "es_tenant_policies sample_estate = []" "es_types sample_estate = [sample_type]"
  "es_assets sample_estate = [sample_asset]" "es_assignments sample_estate = []" "es_disposals sample_estate = []"
  "es_reservations sample_estate = []" "es_maintenances sample_estate = []" "es_templates sample_estate = []"
  "es_receipts sample_estate = []" "es_sessions sample_estate = []" "es_sequences sample_estate = [laptop_sequence, tenant_sequence]"
  "es_orders sample_estate = []" "es_lines sample_estate = []" "es_links sample_estate = []" "es_requests sample_estate = []"
  "es_cost_centers sample_estate = []"
  "es_labels sample_estate = [\<lparr>sl_id = 1, sl_type = DEPLOYABLE, sl_deleted = None\<rparr>, \<lparr>sl_id = 2, sl_type = DEPLOYED, sl_deleted = None\<rparr>,
     \<lparr>sl_id = 3, sl_type = ARCHIVED, sl_deleted = None\<rparr>, \<lparr>sl_id = 4, sl_type = PENDING, sl_deleted = None\<rparr>]"
  by (simp_all add: sample_estate_def inventory.extend_def)

text \<open>After twelve months of thirty-six; a third of nine hundred has gone.\<close>

lemma sample_quarter: "policy_value 1000 100 sample_policy 12 = 700"
  by code_simp

lemma book_value_bounded_and_falling_witness:
  "\<exists>v v'. compute_book_value sample_estate (Date 2024 12 31) sample_asset = Some v \<and>
     compute_book_value sample_estate (Date 2026 1 1) sample_asset = Some v' \<and>
     of_int 10000 / 100 \<le> v' \<and> v' \<le> v \<and> v \<le> of_int 100000 / 100"
proof -
  have d: "Date 2024 12 31 \<le> Date 2026 1 1" "dt_month (Date 2024 12 31) \<in> {1..12}" "dt_month (Date 2026 1 1) \<in> {1..12}"
    by (simp_all add: less_eq_date_def)
  have a: "as_disposed_at sample_asset = None" "as_purchase_cost sample_asset = Some (of_int 100000 / 100)"
    "as_salvage_value sample_asset = Some (of_int 10000 / 100)"
    unfolding sample_asset_def asset.simps by (rule refl)+
  show ?thesis by (rule book_value_bounded_and_falling[OF a _ _ _ _ d]) simp_all
qed

end
