(* ===== verification/AssetLife.thy ===== *)
theory AssetLife
  imports BookValue
begin

text \<open>
  The life of an asset: \<^verbatim>\<open>assets/models/asset.py\<close> (state machine, validation, saving),
  \<^verbatim>\<open>assets/models/assignment.py\<close>, \<^verbatim>\<open>assets/models/lifecycle.py\<close> and the services of
  \<^verbatim>\<open>assets/services/__init__.py\<close> that check assets out and in, dispose of them and close repairs, with the
  custody receipts a checkout creates and a check-in closes.  A service is one transaction: an error
  leaves the store as it was.  Instances handed in by a caller are rows, as the caller loaded them.  Free
  text, audit entries and outgoing mail are left out, as are the custom validators of the settings file
  and the specification cols of asset types.
\<close>

section \<open>Errors\<close>

datatype asset_error =
  DeployedIsManaged | IllegalTransition status_type status_type | CheckedOutTransition | ActiveDisposalTransition
  | AssignmentNeedsDeployed | CrossTenantReference | DuplicateTag | DuplicateSerial | TagUnavailable tag_error
  | AssetDoesNotExist | AssetRowMissing | NoAssignmentTarget | NotIssuable | CheckoutOfDisposed | NoDeployedLabel
  | ReservedForAnother | TargetDoesNotExist | SeveralTargets | CrossTenantTarget | CrossTenantMaintenance
  | ActiveAssignmentExists | OpenLoanExists | HolderWithoutEmail | NegativeProceeds | ForeignProceeds
  | AlreadyDisposed | NoArchivedLabel | NoPendingLabel | ReasonRequired | ActorRequired | DisposalDoesNotExist
  | AlreadyCancelled | DisposalIncoherent | NothingSubmitted | DisposalIsEvidence | RestoreOfCancelled | RestoreClash
  | NotARepair | LoanerIsUnitUnderRepair | NoHolderToLendTo | LoanerTenantDiffers | MaintenanceDoesNotExist
  | LoanAlreadyOpen | NoOpenLoan | ReservationOverlap | ReservationWindow | LabelDoesNotExist

section \<open>The state machine\<close>

fun ALLOWED_TRANSITIONS :: "status_type \<Rightarrow> status_type list" where
  "ALLOWED_TRANSITIONS PENDING = [DEPLOYABLE, UNDEPLOYABLE, ARCHIVED, ON_ORDER, IN_REPAIR]"
| "ALLOWED_TRANSITIONS DEPLOYABLE = [PENDING, UNDEPLOYABLE, ARCHIVED, DEPLOYED, IN_REPAIR]"
| "ALLOWED_TRANSITIONS DEPLOYED = [DEPLOYABLE, UNDEPLOYABLE, ARCHIVED, PENDING, IN_REPAIR]"
| "ALLOWED_TRANSITIONS UNDEPLOYABLE = [PENDING, DEPLOYABLE, ARCHIVED, IN_REPAIR]"
| "ALLOWED_TRANSITIONS ARCHIVED = [PENDING]"
| "ALLOWED_TRANSITIONS IN_REPAIR = [DEPLOYABLE, UNDEPLOYABLE, ARCHIVED]"
| "ALLOWED_TRANSITIONS ON_ORDER = [PENDING, DEPLOYABLE, ARCHIVED]"

definition validate_transition :: "status_type \<Rightarrow> status_type \<Rightarrow> bool \<Rightarrow> bool \<Rightarrow> asset_error + unit" where
  "validate_transition old_type new_type is_checked_out managed =
     (if old_type = new_type then Inr ()
      else if \<not> managed \<and> (old_type = DEPLOYED \<or> new_type = DEPLOYED) then Inl DeployedIsManaged
      else if new_type \<notin> set (ALLOWED_TRANSITIONS old_type) then Inl (IllegalTransition old_type new_type)
      else if is_checked_out \<and> new_type \<in> {UNDEPLOYABLE, ARCHIVED} then Inl CheckedOutTransition
      else Inr ())"

section \<open>Reading an asset\<close>

definition find_asset :: "estate \<Rightarrow> pk \<Rightarrow> asset option" where
  "find_asset db p = find_row as_id p (es_assets db)"

definition status_type_of :: "estate \<Rightarrow> pk option \<Rightarrow> status_type option" where
  "status_type_of db p = Option.bind p (\<lambda>i. map_option sl_type (find_row sl_id i (es_labels db)))"

definition asset_status_type :: "estate \<Rightarrow> asset \<Rightarrow> status_type option" where
  "asset_status_type db a = status_type_of db (as_status a)"

text \<open>\<open>StatusLabel.objects.filter(type=...).first()\<close>\<close>

definition first_label :: "estate \<Rightarrow> status_type \<Rightarrow> pk option" where
  "first_label db t = map_option sl_id (List.find (\<lambda>l. sl_type l = t \<and> sl_deleted l = None) (es_labels db))"

definition asset_category :: "estate \<Rightarrow> asset \<Rightarrow> pk option" where
  "asset_category db a = Option.bind (asset_type_of db a) at_category"

text \<open>\<open>has_active_assignment\<close> reads all rows, \<open>active_assignment\<close> only live ones.\<close>

definition has_active_assignment :: "estate \<Rightarrow> pk \<Rightarrow> bool" where
  "has_active_assignment db p \<longleftrightarrow> (\<exists>r \<in> set (es_assignments db). aa_asset r = p \<and> aa_active r)"

definition active_assignment :: "estate \<Rightarrow> pk \<Rightarrow> asset_assignment option" where
  "active_assignment db p = List.find (\<lambda>r. aa_asset r = p \<and> aa_active r \<and> aa_deleted r = None) (es_assignments db)"

definition is_disposed :: "estate \<Rightarrow> pk \<Rightarrow> bool" where
  "is_disposed db p \<longleftrightarrow> (\<exists>r \<in> set (es_disposals db). di_asset r = p \<and> di_cancelled_at r = None)"

definition is_issuable :: "estate \<Rightarrow> asset \<Rightarrow> bool" where
  "is_issuable db a \<longleftrightarrow> asset_status_type db a = Some DEPLOYABLE \<and> \<not> has_active_assignment db (as_id a) \<and> \<not> is_disposed db (as_id a)"

definition is_requestable :: "estate \<Rightarrow> asset \<Rightarrow> bool" where
  "is_requestable db a =
     (case as_requestable a of
        Some b \<Rightarrow> b
      | None \<Rightarrow> (case asset_type_of db a of None \<Rightarrow> False | Some t \<Rightarrow> at_requestable t))"

section \<open>Validation\<close>

datatype asset_operation = CheckoutOperation | CheckinOperation

definition is_managed_deployed_transition :: "asset_operation option \<Rightarrow> status_type \<Rightarrow> status_type \<Rightarrow> bool" where
  "is_managed_deployed_transition op old new \<longleftrightarrow>
     op = Some CheckoutOperation \<and> new = DEPLOYED \<and> old \<noteq> DEPLOYED \<or>
     op = Some CheckinOperation \<and> old = DEPLOYED \<and> new \<noteq> DEPLOYED"

definition validate_assignment_status :: "estate \<Rightarrow> asset_operation option \<Rightarrow> bool \<Rightarrow> asset \<Rightarrow> asset_error + unit" where
  "validate_assignment_status db op adding a =
     (let t = asset_status_type db a; held_now = \<not> adding \<and> has_active_assignment db (as_id a) in
      if t = Some DEPLOYED \<and> (adding \<or> \<not> held_now \<and> op \<noteq> Some CheckoutOperation) then Inl DeployedIsManaged
      else if held_now \<and> t \<noteq> Some DEPLOYED then Inl AssignmentNeedsDeployed
      else Inr ())"

definition validate_disposal_status_transition :: "estate \<Rightarrow> pk \<Rightarrow> status_type \<Rightarrow> status_type \<Rightarrow> asset_error + unit" where
  "validate_disposal_status_transition db p old new =
     (if old \<noteq> ARCHIVED \<or> new = ARCHIVED then Inr () else if is_disposed db p then Inl ActiveDisposalTransition else Inr ())"

definition validate_status_transition :: "estate \<Rightarrow> asset_operation option \<Rightarrow> bool \<Rightarrow> asset \<Rightarrow> asset_error + unit" where
  "validate_status_transition db op adding a =
     (if adding then Inr ()
      else (case as_status a of None \<Rightarrow> Inr () | Some s \<Rightarrow>
        (case find_asset db (as_id a) of None \<Rightarrow> Inr () | Some old \<Rightarrow>
        (case as_status old of None \<Rightarrow> Inr () | Some s0 \<Rightarrow>
           if s0 = s then Inr ()
           else
             (case status_type_of db (Some s0) of None \<Rightarrow> Inl LabelDoesNotExist | Some old_type \<Rightarrow>
             (case status_type_of db (Some s) of None \<Rightarrow> Inl LabelDoesNotExist | Some new_type \<Rightarrow>
                (let managed = is_managed_deployed_transition op old_type new_type in
                 if (old_type = DEPLOYED \<or> new_type = DEPLOYED) \<and> \<not> managed then Inl DeployedIsManaged
                 else bindE (validate_transition old_type new_type (has_active_assignment db (as_id a)) managed)
                        (\<lambda>_. validate_disposal_status_transition db (as_id a) old_type new_type))))))))"

text \<open>The tenants of the rows an asset refers to.\<close>

definition reference_tenants :: "estate \<Rightarrow> asset \<Rightarrow> pk option list" where
  "reference_tenants db a =
     [Option.bind (as_location a) (\<lambda>l. Option.bind (find_row lc_id l (sh_locations db)) lc_tenant),
      Option.bind (as_cost_center a) (\<lambda>c. case map_of (es_cost_centers db) c of None \<Rightarrow> None | Some t \<Rightarrow> t),
      Option.bind (as_line a) (\<lambda>l. Option.bind (find_row pl_id l (es_lines db)) pl_tenant)]"

definition asset_clean :: "estate \<Rightarrow> asset_operation option \<Rightarrow> bool \<Rightarrow> asset \<Rightarrow> asset_error + unit" where
  "asset_clean db op adding a =
     (if as_tenant a \<noteq> None \<and> (\<exists>t \<in> set (reference_tenants db a). t \<noteq> None \<and> t \<noteq> as_tenant a) then Inl CrossTenantReference
      else bindE (validate_assignment_status db op adding a) (\<lambda>_. validate_status_transition db op adding a))"

section \<open>Saving\<close>

text \<open>The columns an \<open>update_fields\<close> list of the services can name; \<open>None\<close> saves every column.\<close>

datatype asset_field = StatusField | LocationField | DisposedAtField | DisposalValueField

definition writes :: "asset_field list option \<Rightarrow> asset_field \<Rightarrow> bool" where
  "writes cols f = (case cols of None \<Rightarrow> True | Some fs \<Rightarrow> f \<in> set fs)"

definition write_columns :: "asset_field list option \<Rightarrow> asset \<Rightarrow> asset \<Rightarrow> asset" where
  "write_columns cols a old =
     (if cols = None then a
      else old\<lparr>as_status := (if writes cols StatusField then as_status a else as_status old),
               as_location := (if writes cols LocationField then as_location a else as_location old),
               as_disposed_at := (if writes cols DisposedAtField then as_disposed_at a else as_disposed_at old),
               as_disposal_value := (if writes cols DisposalValueField then as_disposal_value a else as_disposal_value old)\<rparr>)"

definition prepare_asset_tag ::
    "(tag_sequence list \<Rightarrow> tag_sequence list) list \<Rightarrow> asset_field list option \<Rightarrow> asset \<Rightarrow> estate \<Rightarrow> asset_error + asset \<times> estate" where
  "prepare_asset_tag others cols a db =
     (if cols \<noteq> None then Inr (a, db)
      else if as_tag a = [] then
        (case get_next_tag_for_asset others (as_tenant a) (asset_category db a) (es_sequences db) of
           (Inl e, _) \<Rightarrow> Inl (TagUnavailable e)
         | (Inr tag, seqs) \<Rightarrow> Inr (a\<lparr>as_tag := tag\<rparr>, db\<lparr>es_sequences := seqs\<rparr>))
      else
        (case resolve_sequence_for_asset (as_tenant a) (asset_category db a) (es_sequences db) of
           (Inl e, _) \<Rightarrow> Inl (TagUnavailable e)
         | (Inr s, seqs) \<Rightarrow>
             if as_tag a = next_tag_preview s
             then (case next_tag (sq_id s) seqs of
                     Inl e \<Rightarrow> Inl (TagUnavailable e)
                   | Inr (_, seqs1) \<Rightarrow> Inr (a, db\<lparr>es_sequences := seqs1\<rparr>))
             else Inr (a, db\<lparr>es_sequences := seqs\<rparr>)))"

text \<open>The freeze of the sign-off value, in the instance.\<close>

definition freeze_disposal :: "estate \<Rightarrow> date \<Rightarrow> instant \<Rightarrow> asset \<Rightarrow> asset" where
  "freeze_disposal db today now a =
     (case find_asset db (as_id a) of
        None \<Rightarrow> a
      | Some old \<Rightarrow>
          if asset_status_type db old \<noteq> Some ARCHIVED \<and> asset_status_type db a = Some ARCHIVED
          then a\<lparr>as_disposal_value := Some (case compute_book_value db today a of None \<Rightarrow> 0 | Some v \<Rightarrow> v), as_disposed_at := Some now\<rparr>
          else if asset_status_type db old = Some ARCHIVED \<and> asset_status_type db a \<noteq> Some ARCHIVED
          then a\<lparr>as_disposed_at := None, as_disposal_value := None\<rparr>
          else a)"

text \<open>The unique constraints of the table.\<close>

definition asset_unique :: "asset list \<Rightarrow> asset \<Rightarrow> asset_error + unit" where
  "asset_unique rows a =
     (let rest = filter (\<lambda>x. as_id x \<noteq> as_id a) rows in
      if \<exists>x \<in> set rest. as_tenant x = as_tenant a \<and> as_tag x = as_tag a then Inl DuplicateTag
      else if as_tenant a \<noteq> None \<and> as_deleted a = None \<and> as_serial a \<noteq> [] \<and>
              (\<exists>x \<in> set rest. as_tenant x = as_tenant a \<and> as_serial x = as_serial a \<and> as_deleted x = None) then Inl DuplicateSerial
      else Inr ())"

text \<open>\<open>save\<close> of a stored asset: the instance after the save, and the store.\<close>

definition asset_save ::
    "(tag_sequence list \<Rightarrow> tag_sequence list) list \<Rightarrow> date \<Rightarrow> instant \<Rightarrow> asset_operation option \<Rightarrow> asset_field list option
       \<Rightarrow> asset \<Rightarrow> estate \<Rightarrow> asset_error + asset \<times> estate" where
  "asset_save others today now op cols a db =
     bindE (prepare_asset_tag others cols a db) (\<lambda>(a1, db1).
     let a2 = freeze_disposal db1 today now a1 in
     bindE (asset_clean db1 op False a2) (\<lambda>_.
     (case find_asset db1 (as_id a2) of
        None \<Rightarrow> Inl AssetRowMissing
      | Some old \<Rightarrow>
          (let row = write_columns cols a2 old
           in bindE (asset_unique (es_assets db1) row) (\<lambda>_.
                Inr (a2, db1\<lparr>es_assets := save_row as_id row (es_assets db1)\<rparr>))))))"

definition asset_create ::
    "(tag_sequence list \<Rightarrow> tag_sequence list) list \<Rightarrow> asset \<Rightarrow> estate \<Rightarrow> asset_error + asset \<times> estate" where
  "asset_create others a db =
     bindE (prepare_asset_tag others None a db) (\<lambda>(a1, db1).
     bindE (asset_clean db1 None True a1) (\<lambda>_.
     let row = a1\<lparr>as_id := next_id (map as_id (es_assets db1))\<rparr>
     in bindE (asset_unique (es_assets db1) row) (\<lambda>_. Inr (row, db1\<lparr>es_assets := es_assets db1 @ [row]\<rparr>))))"

end
