(* ===== verification/AssetServices.thy ===== *)
theory AssetServices
  imports AssetLife
begin

text \<open>
  The services of \<^verbatim>\<open>assets/services/__init__.py\<close> on single assets, with \<^verbatim>\<open>AssetAssignment\<close>,
  \<^verbatim>\<open>AssetDisposal\<close> and \<^verbatim>\<open>AssetReservation\<close> and the receipts of \<^verbatim>\<open>compliance/services.py\<close>.
\<close>

section \<open>Assignments\<close>

definition asset_tenant_of :: "estate \<Rightarrow> pk \<Rightarrow> pk option" where
  "asset_tenant_of db p = Option.bind (find_asset db p) as_tenant"

definition maintenance_tenant :: "estate \<Rightarrow> pk \<Rightarrow> pk option" where
  "maintenance_tenant db m = Option.bind (find_row mt_id m (es_maintenances db)) (\<lambda>r. asset_tenant_of db (mt_asset r))"

definition targets_of :: "asset_assignment \<Rightarrow> nat" where
  "targets_of r = length (filter (\<lambda>t. t \<noteq> None) [aa_user r, aa_location r, aa_target r])"

definition target_tenant :: "estate \<Rightarrow> asset_assignment \<Rightarrow> pk option" where
  "target_tenant db r =
     (case aa_user r of
        Some h \<Rightarrow> Option.bind (find_row dn_id h (iv_holders db)) dn_tenant
      | None \<Rightarrow>
          (case aa_location r of
             Some l \<Rightarrow> Option.bind (find_row lc_id l (sh_locations db)) lc_tenant
           | None \<Rightarrow> (case aa_target r of Some t \<Rightarrow> asset_tenant_of db t | None \<Rightarrow> None)))"

text \<open>\<open>clean\<close>; \<open>a\<close> is the asset instance the assignment holds.\<close>

definition assignment_row_clean :: "estate \<Rightarrow> asset \<Rightarrow> asset_assignment \<Rightarrow> asset_error + unit" where
  "assignment_row_clean db a r =
     (if (case aa_maintenance r of None \<Rightarrow> False | Some m \<Rightarrow> maintenance_tenant db m \<noteq> as_tenant a) then Inl CrossTenantMaintenance
      else if \<not> aa_active r then Inr ()
      else if targets_of r = 0 then Inl NoAssignmentTarget
      else if targets_of r > 1 then Inl SeveralTargets
      else if asset_status_type db a \<noteq> Some DEPLOYED then Inl AssignmentNeedsDeployed
      else if target_tenant db r \<noteq> as_tenant a then Inl CrossTenantTarget
      else Inr ())"

text \<open>The conditional unique constraints, on the table without the row itself.\<close>

definition assignment_row_unique :: "asset_assignment list \<Rightarrow> asset_assignment \<Rightarrow> asset_error + unit" where
  "assignment_row_unique rows r =
     (let live = filter (\<lambda>x. aa_id x \<noteq> aa_id r \<and> aa_active x \<and> aa_deleted x = None) rows in
      if aa_active r \<and> aa_deleted r = None \<and> (\<exists>x \<in> set live. aa_asset x = aa_asset r) then Inl ActiveAssignmentExists
      else if aa_active r \<and> aa_deleted r = None \<and> aa_loan r \<and> aa_maintenance r \<noteq> None \<and>
              (\<exists>x \<in> set live. aa_loan x \<and> aa_maintenance x = aa_maintenance r) then Inl OpenLoanExists
      else Inr ())"

definition assignment_row_create :: "asset \<Rightarrow> asset_assignment \<Rightarrow> estate \<Rightarrow> asset_error + asset_assignment \<times> estate" where
  "assignment_row_create a r db =
     bindE (assignment_row_clean db a r) (\<lambda>_.
     let row = r\<lparr>aa_id := next_id (map aa_id (es_assignments db))\<rparr>
     in bindE (assignment_row_unique (es_assignments db) row) (\<lambda>_.
          Inr (row, db\<lparr>es_assignments := es_assignments db @ [row]\<rparr>)))"

definition assignment_row_save :: "asset \<Rightarrow> asset_assignment \<Rightarrow> estate \<Rightarrow> asset_error + estate" where
  "assignment_row_save a r db =
     bindE (assignment_row_clean db a r) (\<lambda>_.
     bindE (assignment_row_unique (es_assignments db) r) (\<lambda>_.
       Inr (db\<lparr>es_assignments := save_row aa_id r (es_assignments db)\<rparr>)))"

text \<open>Deleting an assignment through the API: the row is kept, stamped as deleted.\<close>

definition assignment_row_delete :: "instant \<Rightarrow> pk \<Rightarrow> estate \<Rightarrow> asset_error + estate" where
  "assignment_row_delete now p db =
     (case List.find (\<lambda>r. aa_id r = p \<and> aa_deleted r = None) (es_assignments db) of
        None \<Rightarrow> Inl NoAssignmentTarget
      | Some r \<Rightarrow>
          (case find_asset db (aa_asset r) of
             None \<Rightarrow> Inl AssetRowMissing
           | Some a \<Rightarrow> assignment_row_save a (r\<lparr>aa_deleted := Some now\<rparr>) db))"

section \<open>Custody receipts\<close>

definition first_template :: "estate \<Rightarrow> (custody_template \<Rightarrow> bool) \<Rightarrow> custody_template option" where
  "first_template db P = List.find (\<lambda>t. P t \<and> ct_active t \<and> ct_deleted t = None) (es_templates db)"

text \<open>The template a checkout resolves: tenant, tenant group, global (where the setting allows it).\<close>

definition resolve_custody_template :: "estate \<Rightarrow> bool \<Rightarrow> pk option \<Rightarrow> pk \<Rightarrow> custody_template option" where
  "resolve_custody_template db allow_global holder_tenant category =
     (let grp = Option.bind holder_tenant (\<lambda>t. Option.bind (find_row tn_id t (td_tenants db)) tn_group) in
      case (if holder_tenant \<noteq> None then first_template db (\<lambda>t. ct_tenant t = holder_tenant \<and> ct_category t = Some category) else None) of
        Some t \<Rightarrow> Some t
      | None \<Rightarrow>
          (case (if grp \<noteq> None then first_template db (\<lambda>t. ct_group t = grp \<and> ct_category t = Some category) else None) of
             Some t \<Rightarrow> Some t
           | None \<Rightarrow>
               if allow_global
               then first_template db (\<lambda>t. ct_tenant t = None \<and> ct_group t = None \<and> ct_category t = Some category)
               else None))"

text \<open>What the settings and the mail configuration contribute to a checkout.\<close>

record custody_config =
  cc_allow_global :: bool
  cc_mail_ready :: bool
  cc_holder_mail :: "pk \<Rightarrow> bool"

definition create_custody_receipt ::
    "custody_config \<Rightarrow> bool \<Rightarrow> pk \<Rightarrow> asset \<Rightarrow> asset_assignment \<Rightarrow> estate \<Rightarrow> asset_error + estate" where
  "create_custody_receipt cfg has_request holder a r db =
     (case asset_category db a of
        None \<Rightarrow> Inr db
      | Some category \<Rightarrow>
          (case resolve_custody_template db (cc_allow_global cfg) (target_tenant db r) category of
             None \<Rightarrow> Inr db
           | Some t \<Rightarrow>
               if \<not> ct_require_acceptance t then Inr db
               else if ct_email_request t \<and> has_request \<and> cc_mail_ready cfg \<and> \<not> cc_holder_mail cfg holder then Inl HolderWithoutEmail
               else Inr (db\<lparr>es_receipts := es_receipts db @
                      [\<lparr>cr_id = next_id (map cr_id (es_receipts db)), cr_asset = as_id a, cr_holder = holder,
                        cr_assignment = Some (aa_id r), cr_template = Some (ct_id t), cr_status = ReceiptPending\<rparr>]\<rparr>)))"

definition custody_period :: "asset_assignment \<Rightarrow> custody_receipt \<Rightarrow> bool" where
  "custody_period r c \<longleftrightarrow> cr_assignment c = Some (aa_id r) \<or>
     aa_user r \<noteq> None \<and> cr_assignment c = None \<and> cr_asset c = aa_asset r \<and> Some (cr_holder c) = aa_user r"

definition supersede_pending_receipts :: "instant \<Rightarrow> asset_assignment \<Rightarrow> estate \<Rightarrow> estate" where
  "supersede_pending_receipts now r db =
     (let closed = map cr_id (filter (\<lambda>c. custody_period r c \<and> cr_status c = ReceiptPending) (es_receipts db)) in
      db\<lparr>es_sessions := map (\<lambda>s. if cs_receipt s \<in> set closed \<and> cs_consumed s = None \<and> cs_canceled s = None
                                 then s\<lparr>cs_canceled := Some now\<rparr> else s) (es_sessions db),
         es_receipts := map (\<lambda>c. if cr_id c \<in> set closed then c\<lparr>cr_status := ReceiptSuperseded\<rparr> else c) (es_receipts db)\<rparr>)"

section \<open>Checkout\<close>

text \<open>\<open>Asset.objects.for_scope(Scope.current()).get(pk=...)\<close>\<close>

definition scoped_asset :: "estate \<Rightarrow> instant \<Rightarrow> pk \<Rightarrow> world \<Rightarrow> asset option \<times> world" where
  "scoped_asset db now p w =
     (let live = filter (\<lambda>a. as_deleted a = None) (es_assets db);
          (rows, w1) = filter_by_tenant (tenancy.truncate db) now asset_model (map (\<lambda>a. asset_row (as_id a) (as_tenant a)) live) w
      in (List.find (\<lambda>a. as_id a = p \<and> as_id a \<in> set (map sr_id rows)) live, w1))"

definition blocking_reservation :: "estate \<Rightarrow> date \<Rightarrow> pk \<Rightarrow> pk option \<Rightarrow> reservation option" where
  "blocking_reservation db today p holder =
     List.find (\<lambda>r. rv_asset r = p \<and> rv_deleted r = None \<and> rv_status r \<in> {ReservationActive, ReservationPending}
       \<and> rv_start r \<le> today \<and> today \<le> rv_end r \<and> (holder = None \<or> rv_holder r \<noteq> holder)) (es_reservations db)"

record checkout_terms =
  tm_actor :: "pk option"
  tm_status :: "pk option"
  tm_at :: "instant option"
  tm_loan :: bool
  tm_due :: "date option"
  tm_maintenance :: "pk option"
  tm_has_request :: bool
  tm_suppress_receipt :: bool

definition target_exists :: "estate \<Rightarrow> pk option \<Rightarrow> pk option \<Rightarrow> pk option \<Rightarrow> bool" where
  "target_exists db holder location target \<longleftrightarrow>
     absent_or (\<lambda>h. find_row dn_id h (iv_holders db) \<noteq> None) holder \<and>
     absent_or (\<lambda>l. find_row lc_id l (sh_locations db) \<noteq> None) location \<and>
     absent_or (\<lambda>t. find_asset db t \<noteq> None) target"

text \<open>The base location after a checkout: a person assignment keeps it.\<close>

definition checkout_location :: "estate \<Rightarrow> pk option \<Rightarrow> pk option \<Rightarrow> pk option \<Rightarrow> asset \<Rightarrow> pk option" where
  "checkout_location db holder location target a =
     (if holder \<noteq> None then as_location a
      else if location \<noteq> None then location
      else (case target of Some t \<Rightarrow> Option.bind (find_asset db t) as_location | None \<Rightarrow> as_location a))"

definition checkout_row :: "checkout_terms \<Rightarrow> instant \<Rightarrow> pk option \<Rightarrow> pk option \<Rightarrow> pk option \<Rightarrow> asset \<Rightarrow> asset_assignment" where
  "checkout_row tm now holder location target a =
     \<lparr>aa_id = 0, aa_asset = as_id a, aa_user = holder,
      aa_location = (if holder = None then location else None),
      aa_target = (if holder = None \<and> location = None then target else None),
      aa_pre_status = as_status a, aa_by = tm_actor tm, aa_at = (case tm_at tm of Some t \<Rightarrow> t | None \<Rightarrow> now),
      aa_active = True, aa_checked_in = None, aa_loan = tm_loan tm, aa_due = tm_due tm, aa_returned = None,
      aa_maintenance = tm_maintenance tm, aa_deleted = None\<rparr>"

text \<open>The transaction of \<open>checkout_asset\<close> once the row is locked.\<close>

definition checkout_locked_asset ::
    "custody_config \<Rightarrow> checkout_terms \<Rightarrow> date \<Rightarrow> instant \<Rightarrow> pk option \<Rightarrow> pk option \<Rightarrow> pk option \<Rightarrow> asset \<Rightarrow> estate
       \<Rightarrow> asset_error + asset_assignment \<times> estate" where
  "checkout_locked_asset cfg tm today now holder location target a db =
     (if \<not> is_issuable db a then Inl (if is_disposed db (as_id a) then CheckoutOfDisposed else NotIssuable)
      else
        (case (case tm_status tm of Some s \<Rightarrow> Some s | None \<Rightarrow> first_label db DEPLOYED) of
           None \<Rightarrow> Inl NoDeployedLabel
         | Some s \<Rightarrow>
             if blocking_reservation db today (as_id a) holder \<noteq> None then Inl ReservedForAnother
             else if \<not> target_exists db holder location target then Inl TargetDoesNotExist
             else
               (let cols = (if holder \<noteq> None then [StatusField] else [StatusField, LocationField]);
                    a1 = a\<lparr>as_status := Some s, as_location := checkout_location db holder location target a\<rparr>
                in bindE (asset_save undisturbed today now (Some CheckoutOperation) (Some cols) a1 db) (\<lambda>(a2, db1).
                   bindE (assignment_row_create a2 (checkout_row tm now holder location target a) db1) (\<lambda>(r, db2).
                   (case holder of
                      None \<Rightarrow> Inr (r, db2)
                    | Some h \<Rightarrow>
                        if tm_suppress_receipt tm then Inr (r, db2)
                        else bindE (create_custody_receipt cfg (tm_has_request tm) h a2 r db2) (\<lambda>db3. Inr (r, db3))))))))"

definition checkout_asset ::
    "custody_config \<Rightarrow> checkout_terms \<Rightarrow> date \<Rightarrow> instant \<Rightarrow> pk \<Rightarrow> pk option \<Rightarrow> pk option \<Rightarrow> pk option \<Rightarrow> estate \<Rightarrow> world
       \<Rightarrow> (asset_error + asset_assignment \<times> estate) \<times> world" where
  "checkout_asset cfg tm today now p holder location target db w =
     (if holder = None \<and> location = None \<and> target = None then (Inl NoAssignmentTarget, w)
      else (case scoped_asset db now p w of
              (None, w1) \<Rightarrow> (Inl AssetDoesNotExist, w1)
            | (Some a, w1) \<Rightarrow> (checkout_locked_asset cfg tm today now holder location target a db, w1)))"

section \<open>Check-in\<close>

definition checkin_status :: "estate \<Rightarrow> pk option \<Rightarrow> pk option \<Rightarrow> pk option \<Rightarrow> pk option" where
  "checkin_status db status pre unchanged =
     (case status of
        Some s \<Rightarrow> Some s
      | None \<Rightarrow> (case pre of Some s \<Rightarrow> Some s | None \<Rightarrow> (case first_label db DEPLOYABLE of Some s \<Rightarrow> Some s | None \<Rightarrow> unchanged)))"

text \<open>The day a check-in is booked for, and the instant it is stamped with: midnight of a given day.\<close>

definition close_row :: "(date \<times> instant) option \<Rightarrow> date \<Rightarrow> instant \<Rightarrow> asset_assignment \<Rightarrow> asset_assignment" where
  "close_row booked today now r = r\<lparr>aa_active := False,
     aa_checked_in := Some (case booked of Some (_, midnight) \<Rightarrow> midnight | None \<Rightarrow> now),
     aa_returned := (if aa_loan r \<and> aa_returned r = None
                     then Some (case booked of Some (day, _) \<Rightarrow> day | None \<Rightarrow> today) else aa_returned r)\<rparr>"

definition checkin_save :: "pk option \<Rightarrow> pk option \<Rightarrow> pk option \<Rightarrow> date \<Rightarrow> instant \<Rightarrow> asset \<Rightarrow> estate \<Rightarrow> asset_error + asset \<times> estate" where
  "checkin_save status pre location today now a db =
     asset_save undisturbed today now (Some CheckinOperation) (Some [StatusField, LocationField])
       (a\<lparr>as_status := checkin_status db status pre (as_status a),
          as_location := (if location \<noteq> None then location else as_location a)\<rparr>) db"

text \<open>The instance \<open>a\<close> is the caller's; \<open>None\<close> says that there was nothing to check in.\<close>

definition checkin_asset ::
    "pk option \<Rightarrow> pk option \<Rightarrow> (date \<times> instant) option \<Rightarrow> date \<Rightarrow> instant \<Rightarrow> asset \<Rightarrow> estate
       \<Rightarrow> asset_error + (asset \<times> estate) option" where
  "checkin_asset status location booked today now a db =
     (case active_assignment db (as_id a) of
        Some r \<Rightarrow>
          (let closed = close_row booked today now r in
           bindE (assignment_row_save a closed db) (\<lambda>db1.
           bindE (checkin_save status (aa_pre_status r) location today now a (supersede_pending_receipts now closed db1))
             (\<lambda>res. Inr (Some res))))
      | None \<Rightarrow>
          if as_location a \<noteq> None
          then bindE (checkin_save status None location today now a db) (\<lambda>res. Inr (Some res))
          else Inr None)"

section \<open>Disposal\<close>

definition validate_disposal_proceeds :: "asset \<Rightarrow> rat option \<Rightarrow> string \<Rightarrow> asset_error + unit" where
  "validate_disposal_proceeds a proceeds currency =
     (case proceeds of
        None \<Rightarrow> Inr ()
      | Some p \<Rightarrow>
          if p < 0 then Inl NegativeProceeds
          else if currency \<noteq> [] \<and> as_currency a \<noteq> [] \<and> currency \<noteq> as_currency a then Inl ForeignProceeds
          else Inr ())"

definition disposal_snapshot_value :: "estate \<Rightarrow> asset \<Rightarrow> disposal \<Rightarrow> rat" where
  "disposal_snapshot_value db a d =
     (case di_proceeds d of
        Some p \<Rightarrow> p
      | None \<Rightarrow> (case compute_book_value db (di_date d) a of Some v \<Rightarrow> v | None \<Rightarrow> 0))"

definition disposal_clean :: "estate \<Rightarrow> disposal \<Rightarrow> asset_error + unit" where
  "disposal_clean db d =
     (if (case di_maintenance d of None \<Rightarrow> False | Some m \<Rightarrow> maintenance_tenant db m \<noteq> asset_tenant_of db (di_asset d))
      then Inl CrossTenantMaintenance
      else
        (let reason = py_strip (di_reason d) in
         if di_cancelled_at d \<noteq> None
         then (if di_cancelled_by d = None \<or> reason = [] then Inl DisposalIncoherent else Inr ())
         else (if di_cancelled_by d \<noteq> None \<or> reason \<noteq> [] then Inl DisposalIncoherent else Inr ())))"

text \<open>\<open>full_clean\<close> adds the field validator and the constraints: one uncancelled record per asset, deleted
  or not.\<close>

definition disposal_full_clean :: "estate \<Rightarrow> disposal \<Rightarrow> asset_error + unit" where
  "disposal_full_clean db d =
     (if (case di_proceeds d of None \<Rightarrow> False | Some p \<Rightarrow> p < 0) then Inl NegativeProceeds
      else bindE (disposal_clean db d) (\<lambda>_.
        if di_cancelled_at d = None \<and>
           (\<exists>x \<in> set (es_disposals db). di_id x \<noteq> di_id d \<and> di_asset x = di_asset d \<and> di_cancelled_at x = None)
        then Inl AlreadyDisposed else Inr ()))"

definition new_disposal :: "estate \<Rightarrow> pk \<Rightarrow> date \<Rightarrow> rat option \<Rightarrow> string \<Rightarrow> pk option \<Rightarrow> disposal" where
  "new_disposal db p day proceeds currency maintenance =
     \<lparr>di_id = next_id (map di_id (es_disposals db)), di_asset = p, di_date = day, di_proceeds = proceeds, di_currency = currency,
      di_maintenance = maintenance, di_cancelled_at = None, di_cancelled_by = None, di_reason = [], di_deleted = None\<rparr>"

text \<open>The record, the stamp and the archived status, once nothing is checked out any more.\<close>

definition record_disposal ::
    "pk \<Rightarrow> date \<Rightarrow> rat option \<Rightarrow> string \<Rightarrow> pk option \<Rightarrow> date \<Rightarrow> instant \<Rightarrow> asset \<Rightarrow> estate \<Rightarrow> asset_error + disposal \<times> estate" where
  "record_disposal archived day proceeds currency maintenance today now a db =
     (let d = new_disposal db (as_id a) day proceeds currency maintenance in
      bindE (disposal_full_clean db d) (\<lambda>_.
      let db1 = db\<lparr>es_disposals := es_disposals db @ [d]\<rparr>;
          a0 = a\<lparr>as_disposed_at := None, as_disposal_value := None\<rparr> in
      bindE (validate_disposal_proceeds a0 proceeds currency) (\<lambda>_.
      let a1 = a0\<lparr>as_disposal_value := Some (disposal_snapshot_value db1 a0 d), as_disposed_at := Some now, as_status := Some archived\<rparr> in
      bindE (asset_save undisturbed today now None (Some [DisposedAtField, DisposalValueField, StatusField]) a1 db1)
        (\<lambda>(_, db2). Inr (d, db2)))))"

definition dispose_asset ::
    "pk \<Rightarrow> date \<Rightarrow> rat option \<Rightarrow> string \<Rightarrow> pk option \<Rightarrow> date \<Rightarrow> instant \<Rightarrow> estate \<Rightarrow> asset_error + disposal \<times> estate" where
  "dispose_asset p day proceeds currency maintenance today now db =
     (case find_asset db p of
        None \<Rightarrow> Inl AssetDoesNotExist
      | Some a \<Rightarrow>
          if is_disposed db p then Inl AlreadyDisposed
          else
            (case first_label db ARCHIVED of
               None \<Rightarrow> Inl NoArchivedLabel
             | Some archived \<Rightarrow>
                 if active_assignment db p = None
                 then record_disposal archived day proceeds currency maintenance today now a db
                 else bindE (checkin_asset None None None today now a db) (\<lambda>res.
                        let db1 = (case res of None \<Rightarrow> db | Some (_, db') \<Rightarrow> db') in
                        (case find_asset db1 p of
                           None \<Rightarrow> Inl AssetDoesNotExist
                         | Some a1 \<Rightarrow> record_disposal archived day proceeds currency maintenance today now a1 db1))))"

definition disposal_save :: "disposal \<Rightarrow> estate \<Rightarrow> asset_error + estate" where
  "disposal_save d db = bindE (disposal_clean db d) (\<lambda>_. Inr (db\<lparr>es_disposals := save_row di_id d (es_disposals db)\<rparr>))"

definition cancel_asset_disposal ::
    "pk \<Rightarrow> pk option \<Rightarrow> string \<Rightarrow> date \<Rightarrow> instant \<Rightarrow> estate \<Rightarrow> asset_error + disposal \<times> estate" where
  "cancel_asset_disposal dp user reason today now db =
     (let reason = py_strip reason in
      if reason = [] then Inl ReasonRequired
      else if user = None then Inl ActorRequired
      else
        (case find_row di_id dp (es_disposals db) of
           None \<Rightarrow> Inl DisposalDoesNotExist
         | Some d \<Rightarrow>
             (case find_asset db (di_asset d) of
                None \<Rightarrow> Inl AssetDoesNotExist
              | Some a \<Rightarrow>
                  if di_cancelled_at d \<noteq> None then Inl AlreadyCancelled
                  else
                    (case first_label db PENDING of
                       None \<Rightarrow> Inl NoPendingLabel
                     | Some pending \<Rightarrow>
                         (let d1 = d\<lparr>di_cancelled_at := Some now, di_cancelled_by := user, di_reason := reason\<rparr> in
                          bindE (disposal_save d1 db) (\<lambda>db1.
                          let cols = [DisposedAtField, DisposalValueField] @ (if as_status a \<noteq> Some pending then [StatusField] else []);
                              a1 = a\<lparr>as_disposed_at := None, as_disposal_value := None, as_status := Some pending\<rparr> in
                          bindE (asset_save undisturbed today now None (Some cols) a1 db1) (\<lambda>(_, db2). Inr (d1, db2))))))))"

text \<open>The metadata an amendment can submit.\<close>

record disposal_change =
  dc_date :: "date option"
  dc_proceeds :: "rat option option"
  dc_currency :: "string option"
  dc_maintenance :: "pk option option"
  dc_other :: bool

definition apply_change :: "disposal_change \<Rightarrow> disposal \<Rightarrow> disposal" where
  "apply_change c d = d\<lparr>di_date := (case dc_date c of None \<Rightarrow> di_date d | Some x \<Rightarrow> x),
     di_proceeds := (case dc_proceeds c of None \<Rightarrow> di_proceeds d | Some x \<Rightarrow> x),
     di_currency := (case dc_currency c of None \<Rightarrow> di_currency d | Some x \<Rightarrow> x),
     di_maintenance := (case dc_maintenance c of None \<Rightarrow> di_maintenance d | Some x \<Rightarrow> x)\<rparr>"

definition update_asset_disposal ::
    "pk \<Rightarrow> disposal_change \<Rightarrow> date \<Rightarrow> instant \<Rightarrow> estate \<Rightarrow> asset_error + disposal \<times> estate" where
  "update_asset_disposal dp c today now db =
     (if dc_date c = None \<and> dc_proceeds c = None \<and> dc_currency c = None \<and> dc_maintenance c = None \<and> \<not> dc_other c
      then Inl NothingSubmitted
      else
        (case find_row di_id dp (es_disposals db) of
           None \<Rightarrow> Inl DisposalDoesNotExist
         | Some d0 \<Rightarrow>
             (case find_asset db (di_asset d0) of
                None \<Rightarrow> Inl AssetDoesNotExist
              | Some a \<Rightarrow>
                  (let d = apply_change c d0 in
                   bindE (validate_disposal_proceeds a (di_proceeds d) (di_currency d)) (\<lambda>_.
                   bindE (disposal_full_clean db d) (\<lambda>_.
                   bindE (disposal_save d db) (\<lambda>db1.
                     if di_cancelled_at d \<noteq> None then Inr (d, db1)
                     else
                       (let a0 = a\<lparr>as_disposed_at := None, as_disposal_value := None\<rparr>;
                            a1 = a0\<lparr>as_disposal_value := Some (disposal_snapshot_value db1 a0 d),
                                    as_disposed_at := Some (case as_disposed_at a of Some t \<Rightarrow> t | None \<Rightarrow> now)\<rparr>
                        in bindE (asset_save undisturbed today now None (Some [DisposalValueField, DisposedAtField]) a1 db1)
                             (\<lambda>(_, db2). Inr (d, db2))))))))))"

text \<open>Deleting a record outright is refused, restoring one must not produce a second active record.\<close>

definition disposal_delete :: "pk \<Rightarrow> estate \<Rightarrow> asset_error + estate" where
  "disposal_delete dp db = Inl DisposalIsEvidence"

definition disposal_restore :: "pk \<Rightarrow> estate \<Rightarrow> asset_error + estate" where
  "disposal_restore dp db =
     (case find_row di_id dp (es_disposals db) of
        None \<Rightarrow> Inl DisposalDoesNotExist
      | Some d \<Rightarrow>
          if di_cancelled_at d \<noteq> None then Inl RestoreOfCancelled
          else if \<exists>x \<in> set (es_disposals db). di_asset x = di_asset d \<and> di_cancelled_at x = None \<and> di_id x \<noteq> dp then Inl RestoreClash
          else disposal_save (d\<lparr>di_deleted := None\<rparr>) db)"

section \<open>Repairs\<close>

text \<open>Rows that are scoped through the tenant of their asset.\<close>

definition asset_child_model :: model_meta where
  "asset_child_model = \<lparr>mm_scope_self = None, mm_lookup = Some ''asset__tenant'', mm_fields = [''id'', ''asset''],
     mm_allow_global = False, mm_deny_global = False\<rparr>"

definition asset_child_row :: "estate \<Rightarrow> pk \<Rightarrow> pk \<Rightarrow> scoped_row" where
  "asset_child_row db i p = \<lparr>sr_id = i, sr_tenant = None, sr_group = None, sr_filter_tenants = [],
     sr_lookup = (\<lambda>_. asset_tenant_of db p)\<rparr>"

definition scoped_ids :: "estate \<Rightarrow> instant \<Rightarrow> (pk \<times> pk) list \<Rightarrow> world \<Rightarrow> pk list \<times> world" where
  "scoped_ids db now pairs w =
     (let (rows, w1) = filter_by_tenant (tenancy.truncate db) now asset_child_model (map (\<lambda>(i, p). asset_child_row db i p) pairs) w
      in (map sr_id rows, w1))"

definition active_repair_loan :: "estate \<Rightarrow> instant \<Rightarrow> pk \<Rightarrow> world \<Rightarrow> asset_assignment option \<times> world" where
  "active_repair_loan db now m w =
     (let live = filter (\<lambda>r. aa_deleted r = None) (es_assignments db);
          (ids, w1) = scoped_ids db now (map (\<lambda>r. (aa_id r, aa_asset r)) live) w
      in (List.find (\<lambda>r. aa_maintenance r = Some m \<and> aa_loan r \<and> aa_active r \<and> aa_id r \<in> set ids) live, w1))"

definition repair_holder :: "estate \<Rightarrow> pk \<Rightarrow> pk option" where
  "repair_holder db p = Option.bind (active_assignment db p) aa_user"

definition loan_terms :: "pk option \<Rightarrow> date option \<Rightarrow> pk \<Rightarrow> bool \<Rightarrow> checkout_terms" where
  "loan_terms actor due m has_request =
     \<lparr>tm_actor = actor, tm_status = None, tm_at = None, tm_loan = True, tm_due = due, tm_maintenance = Some m,
      tm_has_request = has_request, tm_suppress_receipt = False\<rparr>"

definition hand_back_terms :: "pk option \<Rightarrow> bool \<Rightarrow> checkout_terms" where
  "hand_back_terms actor has_request =
     \<lparr>tm_actor = actor, tm_status = None, tm_at = None, tm_loan = False, tm_due = None, tm_maintenance = None,
      tm_has_request = has_request, tm_suppress_receipt = False\<rparr>"

definition issue_repair_loaner ::
    "custody_config \<Rightarrow> maintenance \<Rightarrow> asset \<Rightarrow> pk option \<Rightarrow> date option \<Rightarrow> bool \<Rightarrow> date \<Rightarrow> instant \<Rightarrow> estate \<Rightarrow> world
       \<Rightarrow> (asset_error + asset_assignment \<times> estate) \<times> world" where
  "issue_repair_loaner cfg m loaner actor due has_request today now db w =
     (if mt_type m \<noteq> Repair then (Inl NotARepair, w)
      else if mt_asset m = as_id loaner then (Inl LoanerIsUnitUnderRepair, w)
      else
        (case repair_holder db (mt_asset m) of
           None \<Rightarrow> (Inl NoHolderToLendTo, w)
         | Some holder \<Rightarrow>
             if as_tenant loaner \<noteq> asset_tenant_of db (mt_asset m) then (Inl LoanerTenantDiffers, w)
             else
               (case find_row mt_id (mt_id m) (es_maintenances db) of
                  None \<Rightarrow> (Inl MaintenanceDoesNotExist, w)
                | Some m' \<Rightarrow>
                    (let (loan, w1) = active_repair_loan db now (mt_id m') w in
                     if loan \<noteq> None then (Inl LoanAlreadyOpen, w1)
                     else checkout_asset cfg (loan_terms actor (case due of Some d \<Rightarrow> Some d | None \<Rightarrow> mt_completion m) (mt_id m') has_request)
                            today now (as_id loaner) (Some holder) None None db w1))))"

datatype repair_action = RepairNone | RepairReturn | RepairReplace

definition checked_in :: "asset_error + (asset \<times> estate) option \<Rightarrow> estate \<Rightarrow> asset_error + estate" where
  "checked_in r db = (case r of Inl e \<Rightarrow> Inl e | Inr None \<Rightarrow> Inr db | Inr (Some (_, db')) \<Rightarrow> Inr db')"

definition checkin_by_id :: "pk \<Rightarrow> date \<Rightarrow> instant \<Rightarrow> estate \<Rightarrow> asset_error + estate" where
  "checkin_by_id p today now db =
     (case find_asset db p of
        None \<Rightarrow> Inl AssetDoesNotExist
      | Some a \<Rightarrow> checked_in (checkin_asset None None None today now a db) db)"

definition return_repair ::
    "custody_config \<Rightarrow> maintenance \<Rightarrow> asset_assignment \<Rightarrow> pk option \<Rightarrow> bool \<Rightarrow> date \<Rightarrow> instant \<Rightarrow> estate \<Rightarrow> world
       \<Rightarrow> (asset_error + asset_assignment \<times> estate) \<times> world" where
  "return_repair cfg m loan actor has_request today now db w =
     (case bindE (checkin_by_id (aa_asset loan) today now db) (checkin_by_id (mt_asset m) today now) of
        Inl e \<Rightarrow> (Inl e, w)
      | Inr db1 \<Rightarrow> checkout_asset cfg (hand_back_terms actor has_request) today now (mt_asset m) (aa_user loan) None None db1 w)"

text \<open>\<open>disposal\<close> is what the operator submitted for the unit that stays behind, if anything.\<close>

definition replace_repair ::
    "maintenance \<Rightarrow> asset_assignment \<Rightarrow> date option option \<Rightarrow> date \<Rightarrow> instant \<Rightarrow> estate \<Rightarrow> asset_error + asset_assignment \<times> estate" where
  "replace_repair m loan disposal today now db =
     (case find_asset db (aa_asset loan) of
        None \<Rightarrow> Inl AssetRowMissing
      | Some a \<Rightarrow>
          (let kept = loan\<lparr>aa_loan := False, aa_due := None\<rparr> in
           bindE (assignment_row_save a kept db) (\<lambda>db1.
             (case disposal of
                None \<Rightarrow> Inr (kept, db1)
              | Some day \<Rightarrow>
                  bindE (dispose_asset (mt_asset m) (case day of Some d \<Rightarrow> d | None \<Rightarrow> today) None [] (Some (mt_id m)) today now db1)
                    (\<lambda>(_, db2). Inr (kept, db2))))))"

definition complete_repair ::
    "custody_config \<Rightarrow> maintenance \<Rightarrow> repair_action \<Rightarrow> pk option \<Rightarrow> date option option \<Rightarrow> bool \<Rightarrow> date \<Rightarrow> instant \<Rightarrow> estate \<Rightarrow> world
       \<Rightarrow> (asset_error + (asset_assignment \<times> estate) option) \<times> world" where
  "complete_repair cfg m act actor disposal has_request today now db w =
     (if mt_type m \<noteq> Repair then (Inl NotARepair, w)
      else if act = RepairNone then (Inr None, w)
      else
        (case find_row mt_id (mt_id m) (es_maintenances db) of
           None \<Rightarrow> (Inl MaintenanceDoesNotExist, w)
         | Some m' \<Rightarrow>
             (case active_repair_loan db now (mt_id m') w of
                (None, w1) \<Rightarrow> (Inl NoOpenLoan, w1)
              | (Some loan, w1) \<Rightarrow>
                  if act = RepairReturn
                  then (let (r, w2) = return_repair cfg m' loan actor has_request today now db w1
                        in (map_sum (\<lambda>e. e) Some r, w2))
                  else (map_sum (\<lambda>e. e) Some (replace_repair m' loan disposal today now db), w1))))"

section \<open>Reservations\<close>

definition holds_window :: "reservation \<Rightarrow> bool" where
  "holds_window r \<longleftrightarrow> rv_status r \<in> {ReservationActive, ReservationPending}"

definition windows_overlap :: "reservation \<Rightarrow> reservation \<Rightarrow> bool" where
  "windows_overlap r s \<longleftrightarrow> rv_asset r = rv_asset s \<and> rv_start r \<le> rv_end s \<and> rv_start s \<le> rv_end r"

text \<open>\<open>clean\<close> looks for an overlap among the reservations the scope shows, the exclusion constraint among all.\<close>

definition reservation_save :: "instant \<Rightarrow> bool \<Rightarrow> reservation \<Rightarrow> estate \<Rightarrow> world \<Rightarrow> (asset_error + estate) \<times> world" where
  "reservation_save now adding r db w =
     (let live = filter (\<lambda>x. rv_deleted x = None) (es_reservations db);
          (ids, w1) = scoped_ids db now (map (\<lambda>x. (rv_id x, rv_asset x)) live) w;
          w2 = (if holds_window r then w1 else w);
          clash = (\<lambda>x. holds_window x \<and> windows_overlap x r \<and> (adding \<or> rv_id x \<noteq> rv_id r)) in
      if rv_end r < rv_start r then (Inl ReservationWindow, w)
      else if holds_window r \<and> (\<exists>x \<in> set live. rv_id x \<in> set ids \<and> clash x) then (Inl ReservationOverlap, w2)
      else if holds_window r \<and> rv_deleted r = None \<and> (\<exists>x \<in> set live. clash x) then (Inl ReservationOverlap, w2)
      else if adding
      then (Inr (db\<lparr>es_reservations := es_reservations db @ [r\<lparr>rv_id := next_id (map rv_id (es_reservations db))\<rparr>]\<rparr>), w2)
      else (Inr (db\<lparr>es_reservations := save_row rv_id r (es_reservations db)\<rparr>), w2))"

end
