(* ===== verification/AssetSafety.thy ===== *)
theory AssetSafety
  imports AssetServices
begin

text \<open>
  What the asset services guarantee: the lifecycle invariant over any sequence of service calls, the
  round trips, and what breaks when a row is edited around the services.
\<close>

section \<open>What a save changes\<close>

lemmas asset_lookup_defs = find_asset_def asset_status_type_def status_type_of_def has_active_assignment_def is_disposed_def
  asset_type_of_def asset_category_def first_label_def active_assignment_def asset_tenant_of_def

lemma seqs_frame [simp]:
  "find_asset (db\<lparr>es_sequences := s\<rparr>) = find_asset db"
  "status_type_of (db\<lparr>es_sequences := s\<rparr>) = status_type_of db"
  "asset_status_type (db\<lparr>es_sequences := s\<rparr>) = asset_status_type db"
  "has_active_assignment (db\<lparr>es_sequences := s\<rparr>) = has_active_assignment db"
  "is_disposed (db\<lparr>es_sequences := s\<rparr>) = is_disposed db"
  by (simp_all add: asset_lookup_defs fun_eq_iff cong: option.case_cong)

lemma seqs_frame_clean [simp]: "asset_clean (db\<lparr>es_sequences := s\<rparr>) op adding a = asset_clean db op adding a"
proof -
  have r: "reference_tenants (db\<lparr>es_sequences := s\<rparr>) a = reference_tenants db a" by (simp add: reference_tenants_def)
  have d: "validate_disposal_status_transition (db\<lparr>es_sequences := s\<rparr>) = validate_disposal_status_transition db"
    by (simp add: validate_disposal_status_transition_def fun_eq_iff)
  show ?thesis
    unfolding asset_clean_def validate_assignment_status_def validate_status_transition_def r d seqs_frame by (rule refl)
qed

text \<open>An instance after a save differs in its tag and its disposal columns at most.\<close>

definition without_stamps :: "asset \<Rightarrow> asset" where
  "without_stamps a = a\<lparr>as_tag := [], as_disposed_at := None, as_disposal_value := None\<rparr>"

definition same_instance :: "asset \<Rightarrow> asset \<Rightarrow> bool" where
  "same_instance a a2 \<longleftrightarrow> without_stamps a2 = without_stamps a"

lemma same_instanceD:
  assumes "same_instance a a2"
  shows "as_id a2 = as_id a" "as_status a2 = as_status a" "as_location a2 = as_location a" "as_tenant a2 = as_tenant a"
    "as_type a2 = as_type a" "asset_status_type db a2 = asset_status_type db a"
proof -
  have e: "without_stamps a2 = without_stamps a" using assms by (simp add: same_instance_def)
  show "as_id a2 = as_id a" "as_location a2 = as_location a" "as_tenant a2 = as_tenant a" "as_type a2 = as_type a"
    using arg_cong[OF e, of as_id] arg_cong[OF e, of as_location] arg_cong[OF e, of as_tenant] arg_cong[OF e, of as_type]
    by (simp_all add: without_stamps_def)
  show s: "as_status a2 = as_status a" using arg_cong[OF e, of as_status] by (simp add: without_stamps_def)
  show "asset_status_type db a2 = asset_status_type db a" by (simp add: asset_status_type_def s)
qed

lemma same_instance_refl: "same_instance a a" "same_instance a (a\<lparr>as_tag := t\<rparr>)"
  by (simp_all add: same_instance_def without_stamps_def)

lemma same_instance_freeze: "same_instance a (freeze_disposal db today now a1) = same_instance a a1"
  by (simp add: same_instance_def without_stamps_def freeze_disposal_def split: option.split)

lemma prepare_asset_tag_ok:
  assumes "prepare_asset_tag others cols a db = Inr (a1, db1)"
  obtains s where "same_instance a a1" "db1 = db\<lparr>es_sequences := s\<rparr>" "cols \<noteq> None \<Longrightarrow> a1 = a \<and> s = es_sequences db"
proof (cases "cols = None")
  case True
  have "same_instance a a1 \<and> db1 = db\<lparr>es_sequences := es_sequences db1\<rparr>"
  proof (cases "as_tag a = []")
    case blank: True
    obtain r seqs where g: "get_next_tag_for_asset others (as_tenant a) (asset_category db a) (es_sequences db) = (r, seqs)" by force
    then show ?thesis using assms True blank by (cases r) (auto simp: prepare_asset_tag_def same_instance_refl)
  next
    case given: False
    obtain r seqs where g: "resolve_sequence_for_asset (as_tenant a) (asset_category db a) (es_sequences db) = (r, seqs)" by force
    then obtain x where r: "r = Inr x" using assms True given by (cases r) (auto simp: prepare_asset_tag_def)
    show ?thesis
    proof (cases "next_tag (sq_id x) seqs")
      case (Inl e)
      then show ?thesis using assms True given by (auto simp: prepare_asset_tag_def g r same_instance_refl split: if_splits)
    next
      case (Inr y)
      then show ?thesis using assms True given by (cases y) (auto simp: prepare_asset_tag_def g r same_instance_refl split: if_splits)
    qed
  qed
  then have "same_instance a a1" "db1 = db\<lparr>es_sequences := es_sequences db1\<rparr>" by (rule conjunct1, rule conjunct2)
  then show thesis by (rule that) (simp add: True)
next
  case False
  then have same: "a1 = a" "db1 = db" using assms by (simp_all add: prepare_asset_tag_def)
  have "db = db\<lparr>es_sequences := es_sequences db\<rparr>" by simp
  then show thesis by (rule that[unfolded same, OF same_instance_refl(1)]) simp
qed

lemma asset_saveE:
  assumes "asset_save others today now op cols a db = Inr (a2, db')"
  obtains old s where "find_asset db (as_id a) = Some old" "same_instance a a2"
    "db' = db\<lparr>es_sequences := s, es_assets := save_row as_id (write_columns cols a2 old) (es_assets db)\<rparr>"
    "cols \<noteq> None \<Longrightarrow> s = es_sequences db \<and> a2 = freeze_disposal db today now a"
    "asset_clean db op False a2 = Inr ()" "asset_unique (es_assets db) (write_columns cols a2 old) = Inr ()"
proof -
  obtain a1 db1 where p: "prepare_asset_tag others cols a db = Inr (a1, db1)"
    using assms unfolding asset_save_def by (cases "prepare_asset_tag others cols a db") auto
  obtain s where a1: "same_instance a a1" and db1: "db1 = db\<lparr>es_sequences := s\<rparr>" and keep: "cols \<noteq> None \<Longrightarrow> a1 = a \<and> s = es_sequences db"
    using prepare_asset_tag_ok[OF p] by blast
  define b where "b = freeze_disposal db1 today now a1"
  have b: "same_instance a b" using a1 by (simp add: b_def same_instance_freeze)
  have r: "bindE (asset_clean db op False b) (\<lambda>_. (case find_asset db (as_id a) of None \<Rightarrow> Inl AssetRowMissing
      | Some old \<Rightarrow> bindE (asset_unique (es_assets db) (write_columns cols b old)) (\<lambda>_.
          Inr (b, db\<lparr>es_sequences := s, es_assets := save_row as_id (write_columns cols b old) (es_assets db)\<rparr>)))) = Inr (a2, db')"
    using assms unfolding asset_save_def p bindE_Inr prod.case Let_def b_def[symmetric]
    unfolding same_instanceD(1)[OF b] by (simp add: db1 cong: option.case_cong)
  have a2: "a2 = b" and c: "asset_clean db op False b = Inr ()" using r by (auto simp: bindE_eq_Inr split: option.splits)
  obtain old where old: "find_asset db (as_id a) = Some old" and u: "asset_unique (es_assets db) (write_columns cols b old) = Inr ()"
    and db': "db' = db\<lparr>es_sequences := s, es_assets := save_row as_id (write_columns cols b old) (es_assets db)\<rparr>"
    using r by (auto simp: bindE_eq_Inr split: option.splits)
  have "s = es_sequences db \<and> b = freeze_disposal db today now a" if "cols \<noteq> None"
    using keep[OF that] by (simp add: b_def db1)
  then show thesis using that[of old s] old b c u db' by (simp add: a2 db1)
qed

section \<open>The lifecycle invariant\<close>

definition status_at :: "estate \<Rightarrow> pk \<Rightarrow> status_type option" where
  "status_at db p = Option.bind (find_asset db p) (asset_status_type db)"

text \<open>Keys, references and the conditional unique constraints.\<close>

definition tables_ok :: "estate \<Rightarrow> bool" where
  "tables_ok db \<longleftrightarrow> keyed sl_id (es_labels db) \<and> keyed as_id (es_assets db) \<and> keyed aa_id (es_assignments db) \<and> keyed di_id (es_disposals db) \<and>
     (\<forall>r \<in> set (es_assignments db). aa_asset r \<in> as_id ` set (es_assets db)) \<and>
     (\<forall>d \<in> set (es_disposals db). di_asset d \<in> as_id ` set (es_assets db)) \<and>
     (\<forall>r \<in> set (es_assignments db). \<forall>s \<in> set (es_assignments db). aa_active r \<and> aa_deleted r = None \<and>
        aa_active s \<and> aa_deleted s = None \<and> aa_asset r = aa_asset s \<longrightarrow> aa_id r = aa_id s) \<and>
     (\<forall>d \<in> set (es_disposals db). \<forall>e \<in> set (es_disposals db). di_cancelled_at d = None \<and> di_cancelled_at e = None \<and>
        di_asset d = di_asset e \<longrightarrow> di_id d = di_id e)"

definition status_ok :: "estate \<Rightarrow> pk \<Rightarrow> bool" where
  "status_ok db p \<longleftrightarrow> (status_at db p = Some DEPLOYED \<longleftrightarrow> has_active_assignment db p) \<and>
     (is_disposed db p \<longrightarrow> status_at db p = Some ARCHIVED)"

definition lifecycle_ok :: "estate \<Rightarrow> bool" where
  "lifecycle_ok db \<longleftrightarrow> tables_ok db \<and> (\<forall>p. status_ok db p)"

text \<open>The tables the invariant reads.\<close>

definition same_core :: "estate \<Rightarrow> estate \<Rightarrow> bool" where
  "same_core db db' \<longleftrightarrow> es_labels db' = es_labels db \<and> es_assets db' = es_assets db \<and>
     es_assignments db' = es_assignments db \<and> es_disposals db' = es_disposals db"

lemma same_core_reads:
  assumes "same_core db db'"
  shows "tables_ok db' = tables_ok db" "find_asset db' = find_asset db" "status_at db' = status_at db"
    "has_active_assignment db' = has_active_assignment db" "is_disposed db' = is_disposed db" "asset_status_type db' = asset_status_type db"
    "lifecycle_ok db' = lifecycle_ok db"
proof -
  note e = assms[unfolded same_core_def]
  show t: "tables_ok db' = tables_ok db" using e by (simp add: tables_ok_def)
  show f: "find_asset db' = find_asset db" "has_active_assignment db' = has_active_assignment db" "is_disposed db' = is_disposed db"
    "asset_status_type db' = asset_status_type db" using e by (simp_all add: asset_lookup_defs fun_eq_iff)
  then show s: "status_at db' = status_at db" by (intro ext) (simp only: status_at_def)
  show "lifecycle_ok db' = lifecycle_ok db" by (simp add: lifecycle_ok_def status_ok_def t s f)
qed

text \<open>A checkout adds a receipt at most, once the assignment is stored.\<close>

definition only_receipts :: "estate \<Rightarrow> estate \<Rightarrow> bool" where
  "only_receipts db db' \<longleftrightarrow> db'\<lparr>es_receipts := []\<rparr> = db\<lparr>es_receipts := []\<rparr>"

lemma only_receipts_refl [simp]: "only_receipts db db" "only_receipts db (db\<lparr>es_receipts := rs\<rparr>)"
  by (simp_all add: only_receipts_def)

lemma only_receipts_frame: "only_receipts db db' \<Longrightarrow> db' = db\<lparr>es_receipts := es_receipts db'\<rparr>"
  by (cases db; cases db') (simp add: only_receipts_def)

lemma only_receipts_core: "only_receipts db db' \<Longrightarrow> same_core db db'"
  by (cases db; cases db') (simp add: only_receipts_def same_core_def)

lemma create_custody_receipt_only: "create_custody_receipt cfg req h a r db = Inr db' \<Longrightarrow> only_receipts db db'"
  by (auto simp: create_custody_receipt_def split: option.splits if_splits)

lemma same_core_supersede: "same_core db (supersede_pending_receipts now r db)"
  by (simp add: supersede_pending_receipts_def same_core_def Let_def)

subsection \<open>Saving an asset\<close>

lemma write_columns_id [simp]: "as_id (write_columns cols a old) = (if cols = None then as_id a else as_id old)"
  by (simp add: write_columns_def)

lemma write_columns_status [simp]: "as_status (write_columns cols a old) = (if writes cols StatusField then as_status a else as_status old)"
  by (auto simp: write_columns_def writes_def)

lemma asset_save_core:
  assumes save: "asset_save others today now op cols a db = Inr (a2, db')" and ok: "tables_ok db"
  shows "tables_ok db'" "es_labels db' = es_labels db" "es_assignments db' = es_assignments db" "es_disposals db' = es_disposals db"
    "as_id ` set (es_assets db') = as_id ` set (es_assets db)"
    "status_at db' q = (if q = as_id a \<and> writes cols StatusField then asset_status_type db a else status_at db q)"
    "find_asset db (as_id a) \<noteq> None" "as_id a2 = as_id a" "asset_status_type db a2 = asset_status_type db a"
    "q \<noteq> as_id a \<Longrightarrow> find_asset db' q = find_asset db q"
    "as_status a2 = as_status a" "as_tenant a2 = as_tenant a"
proof -
  from asset_saveE[OF save] obtain old s where old: "find_asset db (as_id a) = Some old" and inst: "same_instance a a2"
    and db': "db' = db\<lparr>es_sequences := s, es_assets := save_row as_id (write_columns cols a2 old) (es_assets db)\<rparr>" by metis
  note i = same_instanceD[OF inst]
  have oid: "as_id old = as_id a" using old find_row_SomeD by (fastforce simp: find_asset_def)
  let ?row = "write_columns cols a2 old"
  have rid: "as_id ?row = as_id a" by (simp add: i oid)
  show t: "es_labels db' = es_labels db" "es_assignments db' = es_assignments db" "es_disposals db' = es_disposals db" by (simp_all add: db')
  have "map as_id (es_assets db') = map as_id (es_assets db)" by (simp add: db')
  then show ids: "as_id ` set (es_assets db') = as_id ` set (es_assets db)" by (metis set_map)
  have "keyed as_id (es_assets db')" using ok by (simp add: db' tables_ok_def)
  then show "tables_ok db'" using ok unfolding tables_ok_def ids t by blast
  have f: "find_asset db' q = (if q = as_id a then Some ?row else find_asset db q)" for q
    using old rid by (auto simp: find_asset_def db' find_row_save_row)
  then show "q \<noteq> as_id a \<Longrightarrow> find_asset db' q = find_asset db q" by simp
  have ty: "asset_status_type db' = asset_status_type db" by (simp add: asset_status_type_def status_type_of_def t fun_eq_iff)
  show "status_at db' q = (if q = as_id a \<and> writes cols StatusField then asset_status_type db a else status_at db q)"
  proof (cases "q = as_id a")
    case True
    have "asset_status_type db ?row = (if writes cols StatusField then asset_status_type db a else asset_status_type db old)"
      by (simp add: asset_status_type_def i)
    then show ?thesis by (simp add: status_at_def f ty True old)
  qed (simp add: status_at_def f ty)
  show "find_asset db (as_id a) \<noteq> None" "as_id a2 = as_id a" "asset_status_type db a2 = asset_status_type db a"
    "as_status a2 = as_status a" "as_tenant a2 = as_tenant a"
    using old i by simp_all
qed

lemma same_readers:
  assumes "es_assignments db' = es_assignments db" "es_disposals db' = es_disposals db"
  shows "has_active_assignment db' = has_active_assignment db" "is_disposed db' = is_disposed db"
  using assms by (simp_all add: has_active_assignment_def is_disposed_def fun_eq_iff)

text \<open>What a successful save says about assignments and disposals.\<close>

lemma asset_save_valid:
  assumes save: "asset_save others today now op cols a db = Inr (a2, db')"
  shows "asset_status_type db a = Some DEPLOYED \<Longrightarrow> has_active_assignment db (as_id a) \<or> op = Some CheckoutOperation"
    and "has_active_assignment db (as_id a) \<Longrightarrow> asset_status_type db a = Some DEPLOYED"
    and "as_status a \<noteq> None \<Longrightarrow> is_disposed db (as_id a) \<Longrightarrow> status_at db (as_id a) = Some ARCHIVED \<Longrightarrow> asset_status_type db a = Some ARCHIVED"
proof -
  from asset_saveE[OF save] obtain old where old: "find_asset db (as_id a) = Some old" and inst: "same_instance a a2"
    and c: "asset_clean db op False a2 = Inr ()" by metis
  note i = same_instanceD[OF inst]
  have v: "validate_assignment_status db op False a2 = Inr ()" and t: "validate_status_transition db op False a2 = Inr ()"
    using c by (auto simp: asset_clean_def bindE_eq_Inr split: if_splits)
  show "asset_status_type db a = Some DEPLOYED \<Longrightarrow> has_active_assignment db (as_id a) \<or> op = Some CheckoutOperation"
    and "has_active_assignment db (as_id a) \<Longrightarrow> asset_status_type db a = Some DEPLOYED"
    using v by (auto simp: validate_assignment_status_def Let_def i split: if_splits)
  assume s: "as_status a \<noteq> None" and d: "is_disposed db (as_id a)" and ar: "status_at db (as_id a) = Some ARCHIVED"
  obtain x where x: "as_status a = Some x" using s by blast
  obtain s0 where s0: "as_status old = Some s0" "status_type_of db (Some s0) = Some ARCHIVED"
    using ar by (cases "as_status old") (auto simp: status_at_def old asset_status_type_def status_type_of_def)
  show "asset_status_type db a = Some ARCHIVED"
  proof (cases "s0 = x")
    case True
    then show ?thesis using s0 x by (simp add: asset_status_type_def)
  next
    case False
    then have "\<exists>new. status_type_of db (Some x) = Some new \<and> validate_disposal_status_transition db (as_id a) ARCHIVED new = Inr ()"
      using t by (auto simp: validate_status_transition_def i old x s0 Let_def bindE_eq_Inr split: option.splits if_splits)
    then show ?thesis using d x by (auto simp: validate_disposal_status_transition_def asset_status_type_def split: if_splits)
  qed
qed

text \<open>A save outside a checkout keeps the invariant.\<close>

lemma asset_save_keeps:
  assumes save: "asset_save others today now op cols a db = Inr (a2, db')" and ok: "tables_ok db"
    and rest: "\<And>p. p \<noteq> as_id a \<or> \<not> writes cols StatusField \<Longrightarrow> status_ok db p"
    and op: "op \<noteq> Some CheckoutOperation"
    and disposed: "writes cols StatusField \<Longrightarrow> is_disposed db (as_id a) \<Longrightarrow> asset_status_type db a = Some ARCHIVED"
  shows "lifecycle_ok db'"
proof -
  note core = asset_save_core[OF save ok]
  note valid = asset_save_valid(1,2)[OF save]
  have "status_ok db' p" for p
    using rest[of p] valid op disposed by (auto simp: status_ok_def core(6) same_readers[OF core(3,4)])
  then show ?thesis using core(1) by (simp add: lifecycle_ok_def)
qed

lemma asset_save_keeps_ok:
  assumes save: "asset_save others today now op cols a db = Inr (a2, db')" and ok: "lifecycle_ok db"
    and op: "op \<noteq> Some CheckoutOperation" and s: "as_status a \<noteq> None \<or> \<not> is_disposed db (as_id a)"
  shows "lifecycle_ok db'"
  using asset_save_valid(3)[OF save] s ok by (intro asset_save_keeps[OF save _ _ op]) (auto simp: lifecycle_ok_def status_ok_def)

subsection \<open>Assignments and disposals\<close>

lemma tables_ok_assignments:
  assumes ok: "tables_ok db" and db': "db' = db\<lparr>es_assignments := rows\<rparr>" and k: "keyed aa_id rows"
    and fk: "aa_asset ` set rows \<subseteq> as_id ` set (es_assets db)"
    and one: "\<And>r s. r \<in> set rows \<Longrightarrow> s \<in> set rows \<Longrightarrow> aa_active r \<Longrightarrow> aa_deleted r = None \<Longrightarrow> aa_active s \<Longrightarrow> aa_deleted s = None \<Longrightarrow>
      aa_asset r = aa_asset s \<Longrightarrow> aa_id r = aa_id s"
  shows "tables_ok db'"
proof -
  have t: "es_labels db' = es_labels db" "es_assets db' = es_assets db" "es_disposals db' = es_disposals db" "es_assignments db' = rows"
    by (simp_all add: db')
  have "\<forall>r \<in> set rows. aa_asset r \<in> as_id ` set (es_assets db)" using fk by blast
  then show ?thesis using ok k one unfolding tables_ok_def t by blast
qed

lemma status_at_assignments:
  "find_asset (db\<lparr>es_assignments := rows\<rparr>) = find_asset db" "is_disposed (db\<lparr>es_assignments := rows\<rparr>) = is_disposed db"
  "asset_status_type (db\<lparr>es_assignments := rows\<rparr>) = asset_status_type db" "status_at (db\<lparr>es_assignments := rows\<rparr>) = status_at db"
proof -
  show f: "find_asset (db\<lparr>es_assignments := rows\<rparr>) = find_asset db" "is_disposed (db\<lparr>es_assignments := rows\<rparr>) = is_disposed db"
    "asset_status_type (db\<lparr>es_assignments := rows\<rparr>) = asset_status_type db"
    by (simp_all add: asset_lookup_defs fun_eq_iff)
  show "status_at (db\<lparr>es_assignments := rows\<rparr>) = status_at db" by (intro ext) (simp only: status_at_def f)
qed

lemma assignment_create_core:
  assumes "assignment_row_create a r db = Inr (r2, db')" and ok: "tables_ok db" and fk: "aa_asset r \<in> as_id ` set (es_assets db)"
  shows "tables_ok db'" "db' = db\<lparr>es_assignments := es_assignments db @ [r2]\<rparr>" "r2 = r\<lparr>aa_id := aa_id r2\<rparr>"
    "aa_active r \<Longrightarrow> asset_status_type db a = Some DEPLOYED"
    "find_row aa_id (aa_id r2) (es_assignments db') = Some r2"
proof -
  show r2: "r2 = r\<lparr>aa_id := aa_id r2\<rparr>" and db': "db' = db\<lparr>es_assignments := es_assignments db @ [r2]\<rparr>"
    and act: "aa_active r \<Longrightarrow> asset_status_type db a = Some DEPLOYED"
    using assms(1) by (auto simp: assignment_row_create_def bindE_eq_Inr Let_def assignment_row_clean_def split: if_splits)
  have n: "aa_id r2 = next_id (map aa_id (es_assignments db))" and u: "assignment_row_unique (es_assignments db) r2 = Inr ()"
    using assms(1) by (auto simp: assignment_row_create_def bindE_eq_Inr Let_def)
  have fresh: "aa_id x \<noteq> aa_id r2" if "x \<in> set (es_assignments db)" for x
    using next_id_fresh[of "aa_id x" "map aa_id (es_assignments db)"] that by (auto simp: n)
  have free: "\<not> (aa_active x \<and> aa_deleted x = None \<and> aa_asset x = aa_asset r2)"
    if "x \<in> set (es_assignments db)" "aa_active r2" "aa_deleted r2 = None" for x
    using u fresh[OF that(1)] that by (auto simp: assignment_row_unique_def Let_def split: if_splits)
  have "aa_id r2 \<notin> set (map aa_id (es_assignments db))" using fresh by (metis imageE set_map)
  then have k: "keyed aa_id (es_assignments db @ [r2])" using ok by (simp add: keyed_def tables_ok_def)
  then show "find_row aa_id (aa_id r2) (es_assignments db') = Some r2" by (simp add: db' find_row_iff)
  have one: "aa_id x = aa_id y" if "x \<in> set (es_assignments db)" "y \<in> set (es_assignments db)" "aa_active x" "aa_deleted x = None"
    "aa_active y" "aa_deleted y = None" "aa_asset x = aa_asset y" for x y
    using ok that unfolding tables_ok_def by blast
  have "aa_asset r2 = aa_asset r" by (subst r2) simp
  then have "aa_asset ` set (es_assignments db @ [r2]) \<subseteq> as_id ` set (es_assets db)" using ok fk by (auto simp: tables_ok_def)
  then show "tables_ok db'"
  proof (rule tables_ok_assignments[OF ok db' k])
    fix x y assume "x \<in> set (es_assignments db @ [r2])" "y \<in> set (es_assignments db @ [r2])" "aa_active x" "aa_deleted x = None"
      "aa_active y" "aa_deleted y = None" "aa_asset x = aa_asset y"
    then show "aa_id x = aa_id y" using one[of x y] free[of x] free[of y] by (metis Un_iff empty_iff empty_set set_append set_ConsD)
  qed
qed

lemma assignment_save_core:
  assumes "assignment_row_save a r db = Inr db'" and ok: "tables_ok db" and old: "r0 \<in> set (es_assignments db)" "aa_id r = aa_id r0" "aa_asset r = aa_asset r0"
  shows "tables_ok db'" "db' = db\<lparr>es_assignments := save_row aa_id r (es_assignments db)\<rparr>"
    "x \<in> set (es_assignments db') \<longleftrightarrow> x = r \<or> x \<in> set (es_assignments db) \<and> aa_id x \<noteq> aa_id r"
proof -
  show db': "db' = db\<lparr>es_assignments := save_row aa_id r (es_assignments db)\<rparr>"
    using assms(1) by (auto simp: assignment_row_save_def bindE_eq_Inr)
  have u: "assignment_row_unique (es_assignments db) r = Inr ()" using assms(1) by (auto simp: assignment_row_save_def bindE_eq_Inr)
  have mem: "x \<in> set (save_row aa_id r (es_assignments db)) \<longleftrightarrow> x = r \<or> x \<in> set (es_assignments db) \<and> aa_id x \<noteq> aa_id r" for x
    using old by (intro mem_save_row) auto
  then show "x \<in> set (es_assignments db') \<longleftrightarrow> x = r \<or> x \<in> set (es_assignments db) \<and> aa_id x \<noteq> aa_id r" by (simp add: db')
  have k: "keyed aa_id (save_row aa_id r (es_assignments db))" using ok by (simp add: tables_ok_def)
  have free: "\<not> (aa_active x \<and> aa_deleted x = None \<and> aa_asset x = aa_asset r)"
    if "x \<in> set (es_assignments db)" "aa_id x \<noteq> aa_id r" "aa_active r" "aa_deleted r = None" for x
    using u that by (auto simp: assignment_row_unique_def Let_def split: if_splits)
  have one: "aa_id x = aa_id y" if "x \<in> set (es_assignments db)" "y \<in> set (es_assignments db)" "aa_active x" "aa_deleted x = None"
    "aa_active y" "aa_deleted y = None" "aa_asset x = aa_asset y" for x y
    using ok that unfolding tables_ok_def by blast
  have "aa_asset ` set (save_row aa_id r (es_assignments db)) \<subseteq> as_id ` set (es_assets db)"
    using ok old(1,3) by (auto simp: tables_ok_def mem)
  then show "tables_ok db'"
  proof (rule tables_ok_assignments[OF ok db' k])
    fix x y assume "x \<in> set (save_row aa_id r (es_assignments db))" "y \<in> set (save_row aa_id r (es_assignments db))"
      "aa_active x" "aa_deleted x = None" "aa_active y" "aa_deleted y = None" "aa_asset x = aa_asset y"
    then show "aa_id x = aa_id y" using one[of x y] free[of x] free[of y] unfolding mem by metis
  qed
qed

text \<open>A row that stays active, or is deleted while active, does not change who holds an asset.\<close>

lemma assignment_save_keeps:
  assumes "assignment_row_save a r db = Inr db'" and ok: "lifecycle_ok db" and old: "r0 \<in> set (es_assignments db)" "aa_id r = aa_id r0"
    "aa_asset r = aa_asset r0" "aa_active r = aa_active r0"
  shows "lifecycle_ok db'"
proof -
  have t: "tables_ok db" using ok by (simp add: lifecycle_ok_def)
  note core = assignment_save_core[OF assms(1) t old(1-3)]
  have same: "x = r0" if "x \<in> set (es_assignments db)" "aa_id x = aa_id r" for x
    using t that old by (auto simp: tables_ok_def keyed_inj)
  have "has_active_assignment db' p = has_active_assignment db p" for p
  proof
    assume "has_active_assignment db' p"
    then obtain x where "x \<in> set (es_assignments db')" "aa_asset x = p" "aa_active x" by (auto simp: has_active_assignment_def)
    then show "has_active_assignment db p" using old unfolding core(3) has_active_assignment_def by metis
  next
    assume "has_active_assignment db p"
    then obtain x where "x \<in> set (es_assignments db)" "aa_asset x = p" "aa_active x" by (auto simp: has_active_assignment_def)
    then have "(if aa_id x = aa_id r then r else x) \<in> set (es_assignments db')" "aa_asset (if aa_id x = aa_id r then r else x) = p"
      "aa_active (if aa_id x = aa_id r then r else x)" using same[of x] old unfolding core(3) by auto
    then show "has_active_assignment db' p" unfolding has_active_assignment_def by blast
  qed
  moreover have "status_at db' = status_at db" "is_disposed db' = is_disposed db" unfolding core(2) by (simp_all add: status_at_assignments)
  ultimately show ?thesis using ok core(1) by (simp add: lifecycle_ok_def status_ok_def)
qed

lemma tables_ok_disposals:
  assumes ok: "tables_ok db" and db': "db' = db\<lparr>es_disposals := rows\<rparr>" and k: "keyed di_id rows"
    and fk: "di_asset ` set rows \<subseteq> as_id ` set (es_assets db)"
    and one: "\<And>r s. r \<in> set rows \<Longrightarrow> s \<in> set rows \<Longrightarrow> di_cancelled_at r = None \<Longrightarrow> di_cancelled_at s = None \<Longrightarrow>
      di_asset r = di_asset s \<Longrightarrow> di_id r = di_id s"
  shows "tables_ok db'"
proof -
  have t: "es_labels db' = es_labels db" "es_assets db' = es_assets db" "es_disposals db' = rows" "es_assignments db' = es_assignments db"
    by (simp_all add: db')
  have "\<forall>r \<in> set rows. di_asset r \<in> as_id ` set (es_assets db)" using fk by blast
  then show ?thesis using ok k one unfolding tables_ok_def t by blast
qed

lemma status_at_disposals:
  "has_active_assignment (db\<lparr>es_disposals := rows\<rparr>) = has_active_assignment db" "find_asset (db\<lparr>es_disposals := rows\<rparr>) = find_asset db"
  "asset_status_type (db\<lparr>es_disposals := rows\<rparr>) = asset_status_type db" "status_at (db\<lparr>es_disposals := rows\<rparr>) = status_at db"
proof -
  show f: "has_active_assignment (db\<lparr>es_disposals := rows\<rparr>) = has_active_assignment db" "find_asset (db\<lparr>es_disposals := rows\<rparr>) = find_asset db"
    "asset_status_type (db\<lparr>es_disposals := rows\<rparr>) = asset_status_type db"
    by (simp_all add: asset_lookup_defs fun_eq_iff)
  show "status_at (db\<lparr>es_disposals := rows\<rparr>) = status_at db" by (intro ext) (simp only: status_at_def f)
qed

lemma disposal_save_core:
  assumes "disposal_save d db = Inr db'" and ok: "tables_ok db" and old: "d0 \<in> set (es_disposals db)" "di_id d = di_id d0" "di_asset d = di_asset d0"
    and still: "di_cancelled_at d = None \<Longrightarrow> di_cancelled_at d0 = None"
  shows "tables_ok db'" "db' = db\<lparr>es_disposals := save_row di_id d (es_disposals db)\<rparr>"
    "is_disposed db' p \<longleftrightarrow> (if p = di_asset d \<and> di_cancelled_at d0 = None then di_cancelled_at d = None else is_disposed db p)"
proof -
  show db': "db' = db\<lparr>es_disposals := save_row di_id d (es_disposals db)\<rparr>" using assms(1) by (auto simp: disposal_save_def bindE_eq_Inr)
  have mem: "x \<in> set (save_row di_id d (es_disposals db)) \<longleftrightarrow> x = d \<or> x \<in> set (es_disposals db) \<and> di_id x \<noteq> di_id d" for x
    using old by (intro mem_save_row) auto
  have k: "keyed di_id (save_row di_id d (es_disposals db))" using ok by (simp add: tables_ok_def)
  have one: "di_id x = di_id y" if "x \<in> set (es_disposals db)" "y \<in> set (es_disposals db)" "di_cancelled_at x = None" "di_cancelled_at y = None"
    "di_asset x = di_asset y" for x y
    using ok that unfolding tables_ok_def by blast
  have same: "x = d0" if "x \<in> set (es_disposals db)" "di_id x = di_id d" for x
    using ok that old by (auto simp: tables_ok_def keyed_inj)
  have "di_asset ` set (save_row di_id d (es_disposals db)) \<subseteq> as_id ` set (es_assets db)"
    using ok old(1,3) by (auto simp: tables_ok_def mem)
  then show "tables_ok db'"
  proof (rule tables_ok_disposals[OF ok db' k])
    fix x y assume "x \<in> set (save_row di_id d (es_disposals db))" "y \<in> set (save_row di_id d (es_disposals db))"
      "di_cancelled_at x = None" "di_cancelled_at y = None" "di_asset x = di_asset y"
    then show "di_id x = di_id y" unfolding mem using one[of x y] one[of d0 y] one[of x d0] old still by metis
  qed
  have dis: "is_disposed db' p \<longleftrightarrow> (di_asset d = p \<and> di_cancelled_at d = None) \<or>
      (\<exists>x \<in> set (es_disposals db). di_id x \<noteq> di_id d \<and> di_asset x = p \<and> di_cancelled_at x = None)"
  proof -
    have rows: "es_disposals db' = save_row di_id d (es_disposals db)" by (simp add: db')
    show ?thesis unfolding is_disposed_def rows Bex_def mem by blast
  qed
  show "is_disposed db' p \<longleftrightarrow> (if p = di_asset d \<and> di_cancelled_at d0 = None then di_cancelled_at d = None else is_disposed db p)"
  proof (cases "p = di_asset d \<and> di_cancelled_at d0 = None")
    case True
    then show ?thesis unfolding dis using one[of d0] old by metis
  next
    case False
    then have "(di_asset d = p \<and> di_cancelled_at d = None) \<or>
        (\<exists>x \<in> set (es_disposals db). di_id x \<noteq> di_id d \<and> di_asset x = p \<and> di_cancelled_at x = None) \<longleftrightarrow> is_disposed db p"
      unfolding is_disposed_def using same still old by metis
    then show ?thesis unfolding dis by (simp only: False if_False)
  qed
qed

subsection \<open>The services\<close>

text \<open>A checkout acts on the asset's row as it is in the table.\<close>

lemma scoped_asset_row:
  assumes "scoped_asset db now p w = (Some a, w1)" "keyed as_id (es_assets db)"
  shows "find_asset db p = Some a" "as_id a = p"
proof -
  have "a \<in> set (es_assets db) \<and> as_id a = p"
    using assms(1) by (auto simp: scoped_asset_def Let_def split: prod.splits dest!: find_SomeD)
  then show "find_asset db p = Some a" "as_id a = p" using find_row_mem[OF assms(2)] by (auto simp: find_asset_def)
qed

lemma checkout_lockedE:
  assumes "checkout_locked_asset cfg tm today now holder location target a db = Inr (r, db')"
  obtains s cols a1 a2 db1 db2 where "is_issuable db a" "StatusField \<in> set cols" "a1 = a\<lparr>as_status := Some s, as_location := checkout_location db holder location target a\<rparr>"
    "asset_save undisturbed today now (Some CheckoutOperation) (Some cols) a1 db = Inr (a2, db1)"
    "assignment_row_create a2 (checkout_row tm now holder location target a) db1 = Inr (r, db2)" "only_receipts db2 db'"
    "cols = (if holder \<noteq> None then [StatusField] else [StatusField, LocationField])"
proof -
  define cols where "cols = (if holder \<noteq> None then [StatusField] else [StatusField, LocationField])"
  obtain s where iss: "is_issuable db a" and r0: "bindE (asset_save undisturbed today now (Some CheckoutOperation) (Some cols)
      (a\<lparr>as_status := Some s, as_location := checkout_location db holder location target a\<rparr>) db) (\<lambda>(a2, db1).
      bindE (assignment_row_create a2 (checkout_row tm now holder location target a) db1) (\<lambda>(r, db2).
        (case holder of None \<Rightarrow> Inr (r, db2)
         | Some h \<Rightarrow> if tm_suppress_receipt tm then Inr (r, db2)
                     else bindE (create_custody_receipt cfg (tm_has_request tm) h a2 r db2) (\<lambda>db3. Inr (r, db3))))) = Inr (r, db')"
    using assms unfolding checkout_locked_asset_def cols_def Let_def by (auto split: if_splits option.splits)
  obtain a2 db1 where a2: "asset_save undisturbed today now (Some CheckoutOperation) (Some cols)
      (a\<lparr>as_status := Some s, as_location := checkout_location db holder location target a\<rparr>) db = Inr (a2, db1)"
    and r1: "bindE (assignment_row_create a2 (checkout_row tm now holder location target a) db1) (\<lambda>(r, db2).
        (case holder of None \<Rightarrow> Inr (r, db2)
         | Some h \<Rightarrow> if tm_suppress_receipt tm then Inr (r, db2)
                     else bindE (create_custody_receipt cfg (tm_has_request tm) h a2 r db2) (\<lambda>db3. Inr (r, db3)))) = Inr (r, db')"
    using bindE_pairD[OF r0] by blast
  obtain r' db2 where r': "assignment_row_create a2 (checkout_row tm now holder location target a) db1 = Inr (r', db2)"
    and r2: "(case holder of None \<Rightarrow> Inr (r', db2)
         | Some h \<Rightarrow> if tm_suppress_receipt tm then Inr (r', db2)
                     else bindE (create_custody_receipt cfg (tm_has_request tm) h a2 r' db2) (\<lambda>db3. Inr (r', db3))) = Inr (r, db')"
    using bindE_pairD[OF r1] by blast
  have "r' = r" "only_receipts db2 db'"
    using r2 by (auto simp: bindE_eq_Inr split: option.splits if_splits dest: create_custody_receipt_only)
  then show thesis using that[OF iss _ refl a2 _ _ cols_def] r' by (auto simp: cols_def)
qed

lemma checkout_keeps:
  assumes co: "checkout_asset cfg tm today now p holder location target db w = (Inr (r, db'), w')" and ok: "lifecycle_ok db"
  shows "lifecycle_ok db'"
proof -
  have t: "tables_ok db" using ok by (simp add: lifecycle_ok_def)
  obtain a w1 where sc: "scoped_asset db now p w = (Some a, w1)"
    and lk: "checkout_locked_asset cfg tm today now holder location target a db = Inr (r, db')"
    using co by (auto simp: checkout_asset_def split: if_splits prod.splits option.splits)
  have row: "find_asset db p = Some a" "as_id a = p" using scoped_asset_row[OF sc] t by (auto simp: tables_ok_def)
  from checkout_lockedE[OF lk] obtain s cols a1 a2 db1 db2 where iss: "is_issuable db a" and cols: "StatusField \<in> set cols"
    and a1: "a1 = a\<lparr>as_status := Some s, as_location := checkout_location db holder location target a\<rparr>"
    and sv: "asset_save undisturbed today now (Some CheckoutOperation) (Some cols) a1 db = Inr (a2, db1)"
    and cr: "assignment_row_create a2 (checkout_row tm now holder location target a) db1 = Inr (r, db2)" and rc: "only_receipts db2 db'"
    by metis
  note same = only_receipts_core[OF rc]
  note core = asset_save_core[OF sv t]
  have w: "writes (Some cols) StatusField" using cols by (simp add: writes_def)
  have id: "as_id a1 = p" by (simp add: a1 row)
  have "p \<in> as_id ` set (es_assets db)" using row by (auto simp: find_asset_def dest!: find_row_SomeD)
  then have fk: "aa_asset (checkout_row tm now holder location target a) \<in> as_id ` set (es_assets db1)"
    by (simp add: checkout_row_def row core(5))
  note mk = assignment_create_core[OF cr core(1) fk]
  have r: "aa_asset r = p" "aa_active r" by (subst mk(3), simp add: checkout_row_def row)+
  have ty: "asset_status_type db1 = asset_status_type db" using core(2) by (simp add: asset_status_type_def status_type_of_def fun_eq_iff)
  have dep: "asset_status_type db a1 = Some DEPLOYED" using mk(4) core(9) by (simp add: checkout_row_def ty)
  have free: "\<not> has_active_assignment db p" "\<not> is_disposed db p" using iss by (auto simp: is_issuable_def row)
  have rows: "es_assignments db2 = es_assignments db @ [r]" using core(3) by (simp add: mk(2))
  have "status_ok db2 q" for q
  proof -
    have st: "status_at db2 q = (if q = p then Some DEPLOYED else status_at db q)"
      unfolding mk(2) by (simp add: status_at_assignments core(6) id w dep)
    have ha: "has_active_assignment db2 q \<longleftrightarrow> has_active_assignment db q \<or> q = p"
      unfolding has_active_assignment_def rows using r by auto
    have di: "is_disposed db2 q = is_disposed db q"
      unfolding mk(2) by (simp add: status_at_assignments same_readers[OF core(3,4)])
    show ?thesis using ok free by (auto simp: status_ok_def st ha di lifecycle_ok_def)
  qed
  then have "lifecycle_ok db2" using mk(1) by (simp add: lifecycle_ok_def)
  then show ?thesis using same_core_reads(7)[OF same] by simp
qed

lemma checkin_status_given: "x \<noteq> None \<Longrightarrow> checkin_status db status pre x \<noteq> None"
  by (simp add: checkin_status_def split: option.split)

lemma active_assignmentD:
  "active_assignment db p = Some r \<Longrightarrow> r \<in> set (es_assignments db) \<and> aa_asset r = p \<and> aa_active r \<and> aa_deleted r = None"
  by (auto simp: active_assignment_def dest!: find_SomeD)

lemma checkin_keeps:
  assumes ci: "checkin_asset status location booked today now a db = Inr (Some (a2, db'))" and ok: "lifecycle_ok db"
    and s: "as_status a \<noteq> None \<or> \<not> is_disposed db (as_id a)"
  shows "lifecycle_ok db'"
proof (cases "active_assignment db (as_id a)")
  case None
  then have sv: "checkin_save status None location today now a db = Inr (a2, db')"
    using ci by (auto simp: checkin_asset_def bindE_eq_Inr split: if_splits)
  show ?thesis by (rule asset_save_keeps_ok[OF sv[unfolded checkin_save_def] ok]) (use s checkin_status_given[of "as_status a"] in auto)
next
  case (Some r)
  let ?closed = "close_row booked today now r"
  obtain db1 where cl: "assignment_row_save a ?closed db = Inr db1"
    and sv: "checkin_save status (aa_pre_status r) location today now a (supersede_pending_receipts now ?closed db1) = Inr (a2, db')"
    using ci by (auto simp: checkin_asset_def Some bindE_eq_Inr Let_def)
  let ?db2 = "supersede_pending_receipts now ?closed db1"
  have t: "tables_ok db" using ok by (simp add: lifecycle_ok_def)
  note r = active_assignmentD[OF Some]
  have c: "aa_id ?closed = aa_id r" "aa_asset ?closed = aa_asset r" "\<not> aa_active ?closed" by (simp_all add: close_row_def)
  note core = assignment_save_core[OF cl t conjunct1[OF r] c(1,2)]
  note same = same_core_reads[OF same_core_supersede, of now ?closed db1]
  have t2: "tables_ok ?db2" using core(1) same(1) by simp
  have "has_active_assignment db (as_id a)" using r by (auto simp: has_active_assignment_def)
  then have nd: "\<not> is_disposed db (as_id a)" using ok by (auto simp: lifecycle_ok_def status_ok_def)
  have st: "status_at ?db2 = status_at db"
    using trans[OF same(3) trans[OF arg_cong[OF core(2), of status_at] status_at_assignments(4)]] .
  have di: "is_disposed ?db2 = is_disposed db"
    using trans[OF same(5) trans[OF arg_cong[OF core(2), of is_disposed] status_at_assignments(2)]] .
  have others: "has_active_assignment ?db2 p = has_active_assignment db p" if "p \<noteq> as_id a" for p
  proof -
    have k: "keyed aa_id (es_assignments db)" using t by (simp add: tables_ok_def)
    have "x = r" if "x \<in> set (es_assignments db)" "aa_id x = aa_id r" for x
      by (rule iffD1[OF keyed_inj[OF k that(1) conjunct1[OF r]] that(2)])
    then have "has_active_assignment db1 p = has_active_assignment db p" unfolding has_active_assignment_def Bex_def core(3) using that c r by metis
    then show ?thesis by (simp only: same(4))
  qed
  show ?thesis
  proof (rule asset_save_keeps[OF sv[unfolded checkin_save_def] t2])
    fix p assume "p \<noteq> as_id (a\<lparr>as_status := checkin_status ?db2 status (aa_pre_status r) (as_status a),
        as_location := if location \<noteq> None then location else as_location a\<rparr>) \<or> \<not> writes (Some [StatusField, LocationField]) StatusField"
    then have "p \<noteq> as_id a" by (simp add: writes_def)
    moreover have "status_ok db p" using ok by (simp add: lifecycle_ok_def)
    ultimately show "status_ok ?db2 p" unfolding status_ok_def st di using others[of p] by argo
  next
    assume "is_disposed ?db2 (as_id (a\<lparr>as_status := checkin_status ?db2 status (aa_pre_status r) (as_status a),
        as_location := if location \<noteq> None then location else as_location a\<rparr>))"
    then have "is_disposed db (as_id a)" unfolding di by simp
    then show "asset_status_type ?db2 (a\<lparr>as_status := checkin_status ?db2 status (aa_pre_status r) (as_status a),
        as_location := if location \<noteq> None then location else as_location a\<rparr>) = Some ARCHIVED" using nd by blast
  qed simp
qed

lemma asset_save_labels: "asset_save others today now op cols a db = Inr (a2, db') \<Longrightarrow> es_labels db' = es_labels db"
  by (erule asset_saveE) simp

lemma checkin_labels: "checkin_asset status location booked today now a db = Inr (Some (a2, db')) \<Longrightarrow> es_labels db' = es_labels db"
  by (auto simp: checkin_asset_def checkin_save_def bindE_eq_Inr Let_def assignment_row_save_def supersede_pending_receipts_def
      split: option.splits if_splits dest!: asset_save_labels)

lemma fresh_status:
  assumes "lifecycle_ok db" "find_asset db p = Some a"
  shows "as_status a \<noteq> None \<or> \<not> is_disposed db (as_id a)"
proof -
  have "as_id a = p" using assms(2) by (auto simp: find_asset_def dest: find_row_SomeD)
  then show ?thesis using assms by (auto simp: lifecycle_ok_def status_ok_def status_at_def asset_status_type_def status_type_of_def)
qed

lemma checkin_by_id_keeps: "checkin_by_id p today now db = Inr db' \<Longrightarrow> lifecycle_ok db \<Longrightarrow> lifecycle_ok db'"
  using checkin_keeps[of None None None today now] fresh_status[of db p]
  by (auto simp: checkin_by_id_def checked_in_def split: option.splits sum.splits)

lemma first_label_type:
  assumes "first_label db t = Some l" "keyed sl_id (es_labels db)"
  shows "status_type_of db (Some l) = Some t"
  using assms find_row_mem[of sl_id "es_labels db"] by (auto simp: first_label_def status_type_of_def dest!: find_SomeD)

lemma record_disposal_keeps:
  assumes rec: "record_disposal archived day proceeds currency m today now a db = Inr (d, db')" and ok: "lifecycle_ok db"
    and row: "find_asset db p = Some a" and ar: "status_type_of db (Some archived) = Some ARCHIVED"
  shows "lifecycle_ok db'"
proof -
  have t: "tables_ok db" using ok by (simp add: lifecycle_ok_def)
  let ?d = "new_disposal db (as_id a) day proceeds currency m"
  let ?db1 = "db\<lparr>es_disposals := es_disposals db @ [?d]\<rparr>"
  let ?a0 = "a\<lparr>as_disposed_at := None, as_disposal_value := None\<rparr>"
  let ?a1 = "?a0\<lparr>as_disposal_value := Some (disposal_snapshot_value ?db1 ?a0 ?d), as_disposed_at := Some now, as_status := Some archived\<rparr>"
  have fc: "disposal_full_clean db ?d = Inr ()" and "bindE (asset_save undisturbed today now None
      (Some [DisposedAtField, DisposalValueField, StatusField]) ?a1 ?db1) (\<lambda>(_, db2). Inr (?d, db2)) = Inr (d, db')"
    using rec by (auto simp: record_disposal_def Let_def bindE_eq_Inr)
  then obtain a2 where sv: "asset_save undisturbed today now None (Some [DisposedAtField, DisposalValueField, StatusField]) ?a1 ?db1 = Inr (a2, db')"
    by (auto dest!: bindE_pairD)
  have aid: "as_id a \<in> as_id ` set (es_assets db)" using row by (auto simp: find_asset_def dest!: find_row_SomeD)
  have d: "di_asset ?d = as_id a" "di_cancelled_at ?d = None" "di_id ?d = next_id (map di_id (es_disposals db))" by (simp_all add: new_disposal_def)
  have fresh: "di_id x \<noteq> di_id ?d" if "x \<in> set (es_disposals db)" for x
    using next_id_fresh[of "di_id x" "map di_id (es_disposals db)"] that by (auto simp: d)
  have free: "di_asset x \<noteq> as_id a \<or> di_cancelled_at x \<noteq> None" if "x \<in> set (es_disposals db)" for x
    using fc fresh[OF that] that d(1,2) by (auto simp: disposal_full_clean_def bindE_eq_Inr split: if_splits)
  have one: "di_id x = di_id y" if "x \<in> set (es_disposals db)" "y \<in> set (es_disposals db)" "di_cancelled_at x = None" "di_cancelled_at y = None"
    "di_asset x = di_asset y" for x y
    using t that unfolding tables_ok_def by blast
  have "di_id ?d \<notin> set (map di_id (es_disposals db))" using fresh by (metis imageE set_map)
  then have k: "keyed di_id (es_disposals db @ [?d])" using t by (simp add: keyed_def tables_ok_def)
  have fk: "di_asset ` set (es_disposals db @ [?d]) \<subseteq> as_id ` set (es_assets db)" using t aid by (auto simp: tables_ok_def d)
  have t1: "tables_ok ?db1"
  proof (rule tables_ok_disposals[OF t refl k fk])
    fix x y assume "x \<in> set (es_disposals db @ [?d])" "y \<in> set (es_disposals db @ [?d])" "di_cancelled_at x = None" "di_cancelled_at y = None"
      "di_asset x = di_asset y"
    then show "di_id x = di_id y" using one[of x y] free[of x] free[of y] d(1) by auto
  qed
  have st: "status_at ?db1 = status_at db" "has_active_assignment ?db1 = has_active_assignment db" by (simp_all add: status_at_disposals)
  have di: "is_disposed ?db1 q = is_disposed db q" if "q \<noteq> as_id a" for q using that d by (auto simp: is_disposed_def)
  show ?thesis
  proof (rule asset_save_keeps[OF sv t1])
    fix q assume "q \<noteq> as_id ?a1 \<or> \<not> writes (Some [DisposedAtField, DisposalValueField, StatusField]) StatusField"
    then show "status_ok ?db1 q" using ok di[of q] by (simp add: lifecycle_ok_def status_ok_def st writes_def)
  next
    show "asset_status_type ?db1 ?a1 = Some ARCHIVED" using ar by (simp add: asset_status_type_def status_type_of_def)
  qed simp
qed

lemma dispose_keeps:
  assumes di: "dispose_asset p day proceeds currency m today now db = Inr (d, db')" and ok: "lifecycle_ok db"
  shows "lifecycle_ok db'"
proof -
  obtain a archived where a: "find_asset db p = Some a" and l: "first_label db ARCHIVED = Some archived"
    and run: "(if active_assignment db p = None then record_disposal archived day proceeds currency m today now a db
       else bindE (checkin_asset None None None today now a db) (\<lambda>res.
         let db1 = (case res of None \<Rightarrow> db | Some (_, db') \<Rightarrow> db') in
         (case find_asset db1 p of None \<Rightarrow> Inl AssetDoesNotExist
          | Some a1 \<Rightarrow> record_disposal archived day proceeds currency m today now a1 db1))) = Inr (d, db')"
    using di by (auto simp: dispose_asset_def split: option.splits if_splits)
  have ar: "status_type_of db (Some archived) = Some ARCHIVED"
    using first_label_type[OF l] ok by (simp add: lifecycle_ok_def tables_ok_def)
  show ?thesis
  proof (cases "active_assignment db p = None")
    case True
    then show ?thesis using run record_disposal_keeps[OF _ ok a ar] by simp
  next
    case False
    then obtain res where ci: "checkin_asset None None None today now a db = Inr res"
      and rd: "(case find_asset (case res of None \<Rightarrow> db | Some (_, db') \<Rightarrow> db') p of None \<Rightarrow> Inl AssetDoesNotExist
          | Some a1 \<Rightarrow> record_disposal archived day proceeds currency m today now a1 (case res of None \<Rightarrow> db | Some (_, db') \<Rightarrow> db')) = Inr (d, db')"
      using run by (auto simp: bindE_eq_Inr Let_def)
    show ?thesis
    proof (cases res)
      case None
      then show ?thesis using rd record_disposal_keeps[OF _ ok _ ar] by (auto split: option.splits)
    next
      case (Some x)
      obtain a2 db1 where x: "x = (a2, db1)" by force
      have ok1: "lifecycle_ok db1" using checkin_keeps[of None None None today now a db a2 db1] ci Some x ok fresh_status[OF ok a] by simp
      have "es_labels db1 = es_labels db" using checkin_labels[of None None None today now a db a2 db1] ci Some x by simp
      then have "status_type_of db1 (Some archived) = Some ARCHIVED" using ar by (simp add: status_type_of_def)
      then show ?thesis using rd record_disposal_keeps[OF _ ok1] by (auto simp: Some x split: option.splits)
    qed
  qed
qed

end
