(* ===== verification/AssetInvariant.thy ===== *)
theory AssetInvariant
  imports AssetSafety
begin

text \<open>
  The lifecycle invariant over any sequence of service calls, edits through forms and the API, and
  deletions of assignments, by rule induction on the steps of the estate.
\<close>

section \<open>Disposals\<close>

lemma disposal_row:
  assumes "find_row di_id dp (es_disposals db) = Some d0"
  shows "d0 \<in> set (es_disposals db)" "di_id d0 = dp"
  using find_row_SomeD[OF assms] by auto

lemma find_asset_id: "find_asset db p = Some a \<Longrightarrow> as_id a = p"
  by (auto simp: find_asset_def dest: find_row_SomeD)

text \<open>Saving a record that keeps its asset and stays cancelled or uncancelled changes nothing the invariant reads.\<close>

lemma disposal_save_keeps:
  assumes sv: "disposal_save d db = Inr db'" and ok: "lifecycle_ok db" and old: "d0 \<in> set (es_disposals db)" "di_id d = di_id d0"
    "di_asset d = di_asset d0" "di_cancelled_at d = di_cancelled_at d0"
  shows "lifecycle_ok db'" "find_asset db' = find_asset db" "is_disposed db' = is_disposed db" "asset_status_type db' = asset_status_type db"
proof -
  have t: "tables_ok db" using ok by (simp add: lifecycle_ok_def)
  have still: "di_cancelled_at d = None \<Longrightarrow> di_cancelled_at d0 = None" using old by simp
  note core = disposal_save_core[OF sv t old(1-3) still]
  have "d0 \<in> set (es_disposals db) \<Longrightarrow> di_cancelled_at d0 = None \<Longrightarrow> is_disposed db (di_asset d0)" by (auto simp: is_disposed_def)
  then show dis: "is_disposed db' = is_disposed db" using core(3) old by (intro ext) (auto split: if_splits)
  have frame: "status_at db' = status_at db" "has_active_assignment db' = has_active_assignment db"
    by (simp_all add: core(2) status_at_disposals del: status_at_def)
  show "find_asset db' = find_asset db" "asset_status_type db' = asset_status_type db" by (simp_all add: core(2) status_at_disposals)
  show "lifecycle_ok db'" using ok core(1) by (simp add: lifecycle_ok_def status_ok_def dis frame)
qed

lemma cancel_keeps:
  assumes run: "cancel_asset_disposal dp user reason today now db = Inr (d, db')" and ok: "lifecycle_ok db"
  shows "lifecycle_ok db'"
proof -
  have t: "tables_ok db" using ok by (simp add: lifecycle_ok_def)
  obtain d0 a pending where d0: "find_row di_id dp (es_disposals db) = Some d0" and a: "find_asset db (di_asset d0) = Some a"
    and live: "di_cancelled_at d0 = None" and pe: "first_label db PENDING = Some pending"
    and r: "bindE (disposal_save (d0\<lparr>di_cancelled_at := Some now, di_cancelled_by := user, di_reason := py_strip reason\<rparr>) db) (\<lambda>db1.
        bindE (asset_save undisturbed today now None (Some ([DisposedAtField, DisposalValueField] @ (if as_status a \<noteq> Some pending then [StatusField] else [])))
          (a\<lparr>as_disposed_at := None, as_disposal_value := None, as_status := Some pending\<rparr>) db1)
          (\<lambda>(_, db2). Inr (d0\<lparr>di_cancelled_at := Some now, di_cancelled_by := user, di_reason := py_strip reason\<rparr>, db2))) = Inr (d, db')"
    using run by (auto simp: cancel_asset_disposal_def Let_def split: if_splits option.splits)
  let ?d = "d0\<lparr>di_cancelled_at := Some now, di_cancelled_by := user, di_reason := py_strip reason\<rparr>"
  let ?a = "a\<lparr>as_disposed_at := None, as_disposal_value := None, as_status := Some pending\<rparr>"
  let ?cols = "[DisposedAtField, DisposalValueField] @ (if as_status a \<noteq> Some pending then [StatusField] else [])"
  obtain db1 where s1: "disposal_save ?d db = Inr db1" and r1: "bindE (asset_save undisturbed today now None (Some ?cols) ?a db1) (\<lambda>(_, db2). Inr (?d, db2)) = Inr (d, db')"
    using r by (auto simp: bindE_eq_Inr)
  obtain a2 where sv: "asset_save undisturbed today now None (Some ?cols) ?a db1 = Inr (a2, db')" using bindE_pairD[OF r1] by auto
  note row = disposal_row[OF d0]
  have core: "tables_ok db1" "db1 = db\<lparr>es_disposals := save_row di_id ?d (es_disposals db)\<rparr>"
    "is_disposed db1 p \<longleftrightarrow> p \<noteq> di_asset d0 \<and> is_disposed db p" for p
    using disposal_save_core[OF s1 t row(1)] live by auto
  have id: "as_id a = di_asset d0" using find_asset_id[OF a] .
  have frame: "status_at db1 = status_at db" "has_active_assignment db1 = has_active_assignment db" "find_asset db1 = find_asset db"
    by (simp_all add: core(2) status_at_disposals)
  have free: "status_ok db1 p" for p using ok by (auto simp: lifecycle_ok_def status_ok_def frame core(3))
  show ?thesis by (rule asset_save_keeps[OF sv core(1)]) (use free id core(3) in auto)
qed

lemma amend_keeps:
  assumes run: "update_asset_disposal dp c today now db = Inr (d, db')" and ok: "lifecycle_ok db"
  shows "lifecycle_ok db'"
proof -
  obtain d0 where d0: "find_row di_id dp (es_disposals db) = Some d0"
    using run by (cases "find_row di_id dp (es_disposals db)") (auto simp: update_asset_disposal_def split: if_splits)
  obtain a where a: "find_asset db (di_asset d0) = Some a"
    using run by (cases "find_asset db (di_asset d0)") (auto simp: update_asset_disposal_def d0 split: if_splits)
  note r = bindE_thenD[OF bindE_thenD[OF if_errorD[OF run[unfolded update_asset_disposal_def d0 option.case(2) a Let_def]]]]
  have ch: "di_id (apply_change c d0) = di_id d0" "di_asset (apply_change c d0) = di_asset d0"
    "di_cancelled_at (apply_change c d0) = di_cancelled_at d0" by (simp_all add: apply_change_def)
  obtain db1 where s1: "disposal_save (apply_change c d0) db = Inr db1" using r by (auto simp: bindE_eq_Inr)
  note kept = disposal_save_keeps[OF s1 ok disposal_row(1)[OF d0] ch]
  show ?thesis
  proof (cases "di_cancelled_at d0 = None")
    case False
    then show ?thesis using r kept(1) by (simp add: s1 ch)
  next
    case True
    then obtain a1 a2 where sv: "asset_save undisturbed today now None (Some [DisposalValueField, DisposedAtField]) a1 db1 = Inr (a2, db')"
      using r by (auto simp: s1 ch dest!: bindE_pairD)
    show ?thesis by (rule asset_save_keeps[OF sv]) (use kept(1) in \<open>auto simp: lifecycle_ok_def writes_def\<close>)
  qed
qed

lemma restore_keeps: "disposal_restore dp db = Inr db' \<Longrightarrow> lifecycle_ok db \<Longrightarrow> lifecycle_ok db'"
  by (auto simp: disposal_restore_def split: option.splits if_splits intro: disposal_save_keeps(1) dest: disposal_row(1))

section \<open>Repairs\<close>

lemma loaner_keeps: "issue_repair_loaner cfg m a actor due hr today now db w = (Inr (r, db'), w') \<Longrightarrow> lifecycle_ok db \<Longrightarrow> lifecycle_ok db'"
  by (auto simp: issue_repair_loaner_def Let_def split: if_splits option.splits prod.splits intro: checkout_keeps)

lemma return_repair_keeps:
  assumes run: "return_repair cfg m loan actor hr today now db w = (Inr (r, db'), w')" and ok: "lifecycle_ok db"
  shows "lifecycle_ok db'"
proof -
  obtain db1 db2 where one: "checkin_by_id (aa_asset loan) today now db = Inr db1" and two: "checkin_by_id (mt_asset m) today now db1 = Inr db2"
    and three: "checkout_asset cfg (hand_back_terms actor hr) today now (mt_asset m) (aa_user loan) None None db2 w = (Inr (r, db'), w')"
    using run by (auto simp: return_repair_def bindE_eq_Inr split: sum.splits)
  show ?thesis by (rule checkout_keeps[OF three checkin_by_id_keeps[OF two checkin_by_id_keeps[OF one ok]]])
qed

lemma replace_repair_keeps:
  assumes run: "replace_repair m loan disposal today now db = Inr (r, db')" and ok: "lifecycle_ok db" and loan: "loan \<in> set (es_assignments db)"
  shows "lifecycle_ok db'"
proof -
  obtain a where a: "find_asset db (aa_asset loan) = Some a"
    using run by (cases "find_asset db (aa_asset loan)") (auto simp: replace_repair_def)
  let ?kept = "loan\<lparr>aa_loan := False, aa_due := None\<rparr>"
  obtain db1 where sv: "assignment_row_save a ?kept db = Inr db1" and rest: "(case disposal of None \<Rightarrow> Inr (?kept, db1)
      | Some day \<Rightarrow> bindE (dispose_asset (mt_asset m) (case day of Some d \<Rightarrow> d | None \<Rightarrow> today) None [] (Some (mt_id m)) today now db1)
          (\<lambda>(_, db2). Inr (?kept, db2))) = Inr (r, db')"
    using run[unfolded replace_repair_def a option.case(2) Let_def bindE_eq_Inr] by blast
  have ok1: "lifecycle_ok db1" by (rule assignment_save_keeps[OF sv ok loan]) simp_all
  show ?thesis
  proof (cases disposal)
    case None
    then show ?thesis using rest ok1 by simp
  next
    case (Some day)
    then show ?thesis using rest by (auto dest!: bindE_pairD intro: dispose_keeps[OF _ ok1])
  qed
qed

lemma active_repair_loan_live: "active_repair_loan db now m w = (Some loan, w') \<Longrightarrow> loan \<in> set (es_assignments db) \<and> aa_deleted loan = None"
  by (auto simp: active_repair_loan_def Let_def split: prod.splits dest!: find_SomeD)

lemma complete_repairE:
  assumes run: "complete_repair cfg m act actor disposal hr today now db w = (Inr (Some (r, db')), w')"
  obtains m' loan w1 where "loan \<in> set (es_assignments db)" "aa_deleted loan = None"
    "return_repair cfg m' loan actor hr today now db w1 = (Inr (r, db'), w') \<or> replace_repair m' loan disposal today now db = Inr (r, db')"
proof -
  obtain m' where m': "find_row mt_id (mt_id m) (es_maintenances db) = Some m'"
    using run by (cases "find_row mt_id (mt_id m) (es_maintenances db)") (auto simp: complete_repair_def split: if_splits)
  obtain l w1 where al: "active_repair_loan db now (mt_id m') w = (l, w1)" by force
  obtain loan where l: "l = Some loan" using run al by (cases l) (auto simp: complete_repair_def m' split: if_splits)
  obtain q w2 where q: "return_repair cfg m' loan actor hr today now db w1 = (q, w2)" by force
  have "return_repair cfg m' loan actor hr today now db w1 = (Inr (r, db'), w') \<or> replace_repair m' loan disposal today now db = Inr (r, db')"
    using run by (cases q; cases "replace_repair m' loan disposal today now db") (auto simp: complete_repair_def m' al l q split: if_splits)
  then show thesis using that active_repair_loan_live al l by metis
qed

lemma complete_keeps:
  assumes run: "complete_repair cfg m act actor disposal hr today now db w = (Inr (Some (r, db')), w')" and ok: "lifecycle_ok db"
  shows "lifecycle_ok db'"
  by (rule complete_repairE[OF run]) (use return_repair_keeps[OF _ ok] replace_repair_keeps[OF _ ok] in blast)

section \<open>New assets\<close>

lemma asset_createE:
  assumes "asset_create others a db = Inr (a2, db')"
  obtains s where "same_instance (a\<lparr>as_id := as_id a2\<rparr>) a2" "as_id a2 = next_id (map as_id (es_assets db))"
    "db' = db\<lparr>es_sequences := s, es_assets := es_assets db @ [a2]\<rparr>" "asset_status_type db a2 \<noteq> Some DEPLOYED"
    "asset_unique (es_assets db) a2 = Inr ()"
proof -
  obtain a1 db1 where p: "prepare_asset_tag others None a db = Inr (a1, db1)"
    using assms unfolding asset_create_def by (cases "prepare_asset_tag others None a db") auto
  obtain s where inst: "same_instance a a1" and db1: "db1 = db\<lparr>es_sequences := s\<rparr>" using prepare_asset_tag_ok[OF p] by blast
  have c: "asset_clean db None True a1 = Inr ()" and a2: "a2 = a1\<lparr>as_id := next_id (map as_id (es_assets db))\<rparr>"
    and u: "asset_unique (es_assets db) a2 = Inr ()" and db': "db' = db1\<lparr>es_assets := es_assets db1 @ [a2]\<rparr>"
    using assms unfolding asset_create_def p bindE_Inr prod.case by (auto simp: db1 bindE_eq_Inr Let_def)
  have "asset_status_type db a2 = asset_status_type db a1" by (simp add: a2 asset_status_type_def)
  moreover have "asset_status_type db a1 \<noteq> Some DEPLOYED"
    using c by (auto simp: asset_clean_def bindE_eq_Inr validate_assignment_status_def Let_def split: if_splits)
  moreover have "same_instance (a\<lparr>as_id := as_id a2\<rparr>) a2"
  proof -
    have "without_stamps (b\<lparr>as_id := x\<rparr>) = (without_stamps b)\<lparr>as_id := x\<rparr>" for b x by (cases b) (simp add: without_stamps_def)
    then show ?thesis using inst by (simp add: same_instance_def a2)
  qed
  ultimately show thesis using that[of s] db' db1 u by (simp add: a2)
qed

lemma create_keeps:
  assumes run: "asset_create others a db = Inr (a2, db')" and ok: "lifecycle_ok db"
  shows "lifecycle_ok db'"
proof -
  from asset_createE[OF run] obtain s where id: "as_id a2 = next_id (map as_id (es_assets db))"
    and db': "db' = db\<lparr>es_sequences := s, es_assets := es_assets db @ [a2]\<rparr>" and nd: "asset_status_type db a2 \<noteq> Some DEPLOYED" by metis
  have t: "tables_ok db" using ok by (simp add: lifecycle_ok_def)
  have fresh: "as_id x \<noteq> as_id a2" if "x \<in> set (es_assets db)" for x
    using next_id_fresh[of "as_id x" "map as_id (es_assets db)"] that by (auto simp: id)
  have rows: "es_labels db' = es_labels db" "es_assignments db' = es_assignments db" "es_disposals db' = es_disposals db"
    "es_assets db' = es_assets db @ [a2]" by (simp_all add: db')
  have "as_id a2 \<notin> set (map as_id (es_assets db))" using fresh by (metis imageE set_map)
  then have k: "keyed as_id (es_assets db')" using t by (simp add: keyed_def tables_ok_def rows)
  have "as_id ` set (es_assets db) \<subseteq> as_id ` set (es_assets db')" by (auto simp: rows)
  then have t': "tables_ok db'" using t k unfolding tables_ok_def rows(1-3) by blast
  have free: "\<not> has_active_assignment db (as_id a2)" "\<not> is_disposed db (as_id a2)"
  proof -
    have "as_id a2 \<notin> as_id ` set (es_assets db)" using fresh by (metis imageE)
    then show "\<not> has_active_assignment db (as_id a2)" "\<not> is_disposed db (as_id a2)"
      using t unfolding tables_ok_def has_active_assignment_def is_disposed_def by metis+
  qed
  have f: "find_asset db' q = (if q = as_id a2 then Some a2 else find_asset db q)" for q
  proof (cases "q = as_id a2")
    case True
    have "find_row as_id (as_id a2) (es_assets db') = Some a2" using k by (simp add: rows find_row_iff)
    then show ?thesis by (simp add: find_asset_def True)
  next
    case False
    then show ?thesis by (simp add: find_asset_def rows find_row_append split: option.splits)
  qed
  have ty: "asset_status_type db' = asset_status_type db" by (simp add: asset_status_type_def status_type_of_def rows fun_eq_iff)
  have none: "find_asset db (as_id a2) = None" using fresh by (cases "find_asset db (as_id a2)") (auto simp: find_asset_def dest!: find_row_SomeD)
  have st: "status_at db' q = (if q = as_id a2 then asset_status_type db a2 else status_at db q)" for q
    by (simp add: status_at_def f ty)
  have "status_ok db' q" for q
    using ok nd free by (auto simp: lifecycle_ok_def status_ok_def st same_readers[OF rows(2,3)])
  then show ?thesis using t' by (simp add: lifecycle_ok_def)
qed

section \<open>Assignments and reservations by hand\<close>

lemma delete_assignment_keeps:
  assumes run: "assignment_row_delete now p db = Inr db'" and ok: "lifecycle_ok db"
  shows "lifecycle_ok db'"
proof -
  obtain r a where r: "r \<in> set (es_assignments db)" and sv: "assignment_row_save a (r\<lparr>aa_deleted := Some now\<rparr>) db = Inr db'"
    using run by (auto simp: assignment_row_delete_def split: option.splits dest!: find_SomeD)
  show ?thesis by (rule assignment_save_keeps[OF sv ok r]) simp_all
qed

lemma reservation_same_core: "reservation_save now adding r db w = (Inr db', w') \<Longrightarrow> same_core db db'"
  by (auto simp: reservation_save_def same_core_def Let_def split: prod.splits if_splits)

section \<open>Steps\<close>

text \<open>One step is one committed operation.  Edits act on the instance the form or the API loaded, at any
  earlier time; an edit of a disposed asset that clears its status is excluded here, and treated below.\<close>

inductive estate_step :: "estate \<Rightarrow> estate \<Rightarrow> bool" where
  checkout: "checkout_asset cfg tm today now p holder location target db w = (Inr (r, db'), w') \<Longrightarrow> estate_step db db'"
| checkin: "checkin_asset status location booked today now a db = Inr (Some (a2, db')) \<Longrightarrow>
    as_status a \<noteq> None \<or> \<not> is_disposed db (as_id a) \<Longrightarrow> estate_step db db'"
| dispose: "dispose_asset p day proceeds currency m today now db = Inr (d, db') \<Longrightarrow> estate_step db db'"
| cancel: "cancel_asset_disposal dp user reason today now db = Inr (d, db') \<Longrightarrow> estate_step db db'"
| amend: "update_asset_disposal dp c today now db = Inr (d, db') \<Longrightarrow> estate_step db db'"
| restore: "disposal_restore dp db = Inr db' \<Longrightarrow> estate_step db db'"
| loaner: "issue_repair_loaner cfg mt a actor due hr today now db w = (Inr (r, db'), w') \<Longrightarrow> estate_step db db'"
| complete: "complete_repair cfg mt act actor disposal hr today now db w = (Inr (Some (r, db')), w') \<Longrightarrow> estate_step db db'"
| edit: "asset_save others today now None None a db = Inr (a2, db') \<Longrightarrow>
    as_status a \<noteq> None \<or> \<not> is_disposed db (as_id a) \<Longrightarrow> estate_step db db'"
| create: "asset_create others a db = Inr (a2, db') \<Longrightarrow> estate_step db db'"
| unassign: "assignment_row_delete now p db = Inr db' \<Longrightarrow> estate_step db db'"
| reserve: "reservation_save now adding rv db w = (Inr db', w') \<Longrightarrow> estate_step db db'"

lemma estate_step_keeps: "estate_step db db' \<Longrightarrow> lifecycle_ok db \<Longrightarrow> lifecycle_ok db'"
proof (induction rule: estate_step.induct)
  case (edit others today now a db a2 db')
  then show ?case using asset_save_keeps_ok[OF edit.hyps(1) edit.prems] by simp
next
  case (reserve now adding rv db w db' w')
  then show ?case using same_core_reads(7)[OF reservation_same_core] by metis
qed (rule checkout_keeps checkin_keeps dispose_keeps cancel_keeps amend_keeps restore_keeps loaner_keeps complete_keeps create_keeps
       delete_assignment_keeps; assumption)+

text \<open>C1. The asset lifecycle is sound over any sequence of checkouts, check-ins, disposals, cancellations,
  amendments, restorations, repair loans, edits, creations, deleted assignments and reservations.  Three changes
  the code accepts are no steps here, since they break it: an edit or a check-in that leaves a disposed asset without a status (a later
  edit can then take it out of the archived state), deactivating an assignment without a check-in through the assignment
  API, and changing the type of a stored status label.  Along all sequences of these steps an asset is
  in a deployed status exactly when it has an active assignment, an asset with an uncancelled disposal is
  archived (so it can neither be issued nor be checked out), no asset has two live active assignments or two
  uncancelled disposals, and every assignment and disposal refers to a stored asset.\<close>

theorem lifecycle_invariant:
  assumes "estate_step\<^sup>*\<^sup>* db db'" "lifecycle_ok db"
  shows "lifecycle_ok db'"
  using assms by (induction rule: rtranclp_induct) (auto intro: estate_step_keeps)

lemma lifecycle_ok_check:
  assumes t: "tables_ok db" and ids: "\<forall>a \<in> set (es_assets db). status_ok db (as_id a)"
  shows "lifecycle_ok db"
proof -
  have "status_ok db p" if "p \<notin> as_id ` set (es_assets db)" for p
  proof -
    have "find_asset db p = None" using that by (auto simp: find_asset_def find_row_None_iff)
    then have "status_at db p = None" by (simp add: status_at_def)
    moreover have "\<not> has_active_assignment db p" "\<not> is_disposed db p"
      using t that unfolding tables_ok_def has_active_assignment_def is_disposed_def by metis+
    ultimately show ?thesis by (simp add: status_ok_def)
  qed
  then have "status_ok db p" for p using ids by (cases "p \<in> as_id ` set (es_assets db)") auto
  then show ?thesis using t by (simp add: lifecycle_ok_def)
qed

text \<open>The sample laptop, disposed of on New Year's Day.\<close>

lemma sample_estate_ok: "lifecycle_ok sample_estate"
  by (rule lifecycle_ok_check) code_simp+

definition sample_disposal :: "asset_error + disposal \<times> estate" where
  "sample_disposal = dispose_asset 80 (Date 2025 1 1) None [] None (Date 2025 1 1) 100 sample_estate"

lemma sample_disposal_runs: "\<not> isl sample_disposal"
  by code_simp

lemma lifecycle_invariant_witness: "\<exists>d db. sample_disposal = Inr (d, db) \<and> lifecycle_ok db"
proof -
  obtain d db where d: "sample_disposal = Inr (d, db)" using sample_disposal_runs by (metis isl_def surj_pair sum.exhaust_sel)
  have "estate_step\<^sup>*\<^sup>* sample_estate db" by (rule r_into_rtranclp, rule estate_step.dispose, rule d[unfolded sample_disposal_def])
  then show ?thesis using lifecycle_invariant[OF _ sample_estate_ok] d by blast
qed

end
