(* ===== verification/AssetFlows.thy ===== *)
theory AssetFlows
  imports AssetInvariant
begin

text \<open>
  What happens to a single asset along sequences of operations: a checkout and its check-in, and the
  states that editing an assignment around the services leaves behind.
\<close>

section \<open>Which services touch the assignments\<close>

text \<open>A stranded asset has an active assignment that was deleted, and no live one.\<close>

definition stranded :: "estate \<Rightarrow> pk \<Rightarrow> bool" where
  "stranded db p \<longleftrightarrow> (\<exists>r \<in> set (es_assignments db). aa_asset r = p \<and> aa_active r \<and> aa_deleted r \<noteq> None) \<and>
     (\<forall>r \<in> set (es_assignments db). aa_asset r = p \<and> aa_active r \<longrightarrow> aa_deleted r \<noteq> None)"

lemma stranded_reads: "stranded db p \<Longrightarrow> has_active_assignment db p" "stranded db p \<Longrightarrow> active_assignment db p = None"
  by (auto simp: stranded_def has_active_assignment_def active_assignment_def find_None_iff)

definition keeps_stranded :: "estate \<Rightarrow> estate \<Rightarrow> bool" where
  "keeps_stranded db db' \<longleftrightarrow> (\<forall>p. stranded db p \<longrightarrow> stranded db' p)"

lemma keeps_stranded_trans [trans]: "keeps_stranded db db1 \<Longrightarrow> keeps_stranded db1 db2 \<Longrightarrow> keeps_stranded db db2"
  by (simp add: keeps_stranded_def)

lemma keeps_stranded_frame: "es_assignments db' = es_assignments db \<Longrightarrow> keeps_stranded db db'"
  by (simp add: keeps_stranded_def stranded_def)

lemma keeps_stranded_core: "same_core db db' \<Longrightarrow> keeps_stranded db db'"
  by (rule keeps_stranded_frame) (simp add: same_core_def)

lemma asset_save_stranded: "asset_save others today now op cols a db = Inr (a2, db') \<Longrightarrow> keeps_stranded db db'"
  by (erule asset_saveE, rule keeps_stranded_frame) simp

text \<open>Saving a live row cannot bring a live assignment to an asset that had none.\<close>

lemma assignment_save_stranded:
  assumes sv: "assignment_row_save a r db = Inr db'" and t: "tables_ok db"
    and old: "r0 \<in> set (es_assignments db)" "aa_id r = aa_id r0" "aa_asset r = aa_asset r0" "aa_deleted r0 = None" "aa_active r \<longrightarrow> aa_active r0"
  shows "keeps_stranded db db'"
  unfolding keeps_stranded_def
proof (intro allI impI)
  fix p assume s: "stranded db p"
  note mem = assignment_save_core(3)[OF sv t old(1-3)]
  have k: "keyed aa_id (es_assignments db)" using t by (simp add: tables_ok_def)
  obtain d where d: "d \<in> set (es_assignments db)" "aa_asset d = p" "aa_active d" "aa_deleted d \<noteq> None" using s by (auto simp: stranded_def)
  have "aa_id d \<noteq> aa_id r" using keyed_inj[OF k d(1) old(1)] d(4) old(2,4) by metis
  then have "d \<in> set (es_assignments db')" using d(1) mem by blast
  moreover have "aa_deleted x \<noteq> None" if "x \<in> set (es_assignments db')" "aa_asset x = p" "aa_active x" for x
    using that s old unfolding mem stranded_def by metis
  ultimately show "stranded db' p" using d unfolding stranded_def by blast
qed

lemma checkout_stranded:
  assumes co: "checkout_asset cfg tm today now p holder location target db w = (Inr (r, db'), w')" and ok: "lifecycle_ok db"
  shows "keeps_stranded db db'"
proof -
  have t: "tables_ok db" using ok by (simp add: lifecycle_ok_def)
  obtain a w1 where sc: "scoped_asset db now p w = (Some a, w1)"
    and lk: "checkout_locked_asset cfg tm today now holder location target a db = Inr (r, db')"
    using co by (auto simp: checkout_asset_def split: if_splits prod.splits option.splits)
  from checkout_lockedE[OF lk] obtain s cols a1 a2 db1 db2 where iss: "is_issuable db a"
    and sv: "asset_save undisturbed today now (Some CheckoutOperation) (Some cols) a1 db = Inr (a2, db1)"
    and cr: "assignment_row_create a2 (checkout_row tm now holder location target a) db1 = Inr (r, db2)" and rc: "only_receipts db2 db'"
    by metis
  note same = only_receipts_core[OF rc]
  have e1: "es_assignments db1 = es_assignments db" by (rule asset_save_core(3)[OF sv t])
  have "aa_asset r = as_id a" "es_assignments db2 = es_assignments db1 @ [r]"
    using cr by (auto simp: assignment_row_create_def bindE_eq_Inr Let_def checkout_row_def)
  then have rows: "es_assignments db' = es_assignments db @ [r]" and r: "aa_asset r = as_id a" using same e1 by (simp_all add: same_core_def)
  have "stranded db' q" if q: "stranded db q" for q
  proof -
    have "q \<noteq> as_id a" using stranded_reads(1)[OF q] iss by (auto simp: is_issuable_def)
    then show ?thesis using q r unfolding stranded_def rows by auto
  qed
  then show ?thesis by (simp add: keeps_stranded_def)
qed

lemma checkin_stranded:
  assumes ci: "checkin_asset status location booked today now a db = Inr (Some (a2, db'))" and ok: "lifecycle_ok db"
  shows "keeps_stranded db db'"
proof (cases "active_assignment db (as_id a)")
  case None
  then show ?thesis using ci by (auto simp: checkin_asset_def checkin_save_def bindE_eq_Inr split: if_splits intro: asset_save_stranded)
next
  case (Some r)
  let ?closed = "close_row booked today now r"
  obtain db1 where cl: "assignment_row_save a ?closed db = Inr db1"
    and sv: "checkin_save status (aa_pre_status r) location today now a (supersede_pending_receipts now ?closed db1) = Inr (a2, db')"
    using ci by (auto simp: checkin_asset_def Some bindE_eq_Inr Let_def)
  have "tables_ok db" using ok by (simp add: lifecycle_ok_def)
  then have "keeps_stranded db db1" by (rule assignment_save_stranded[OF cl])
    (use active_assignmentD[OF Some] in \<open>auto simp: close_row_def\<close>)
  also have "keeps_stranded db1 (supersede_pending_receipts now ?closed db1)" by (rule keeps_stranded_core[OF same_core_supersede])
  also have "keeps_stranded (supersede_pending_receipts now ?closed db1) db'" by (rule asset_save_stranded[OF sv[unfolded checkin_save_def]])
  finally show ?thesis .
qed

lemma checkin_by_idE:
  assumes "checkin_by_id p today now db = Inr db'"
  obtains "db' = db" | a a2 where "checkin_asset None None None today now a db = Inr (Some (a2, db'))"
  using assms by (auto simp: checkin_by_id_def checked_in_def split: option.splits sum.splits)

lemma checkin_by_id_stranded: "checkin_by_id p today now db = Inr db' \<Longrightarrow> lifecycle_ok db \<Longrightarrow> keeps_stranded db db'"
  by (erule checkin_by_idE) (simp add: keeps_stranded_def, rule checkin_stranded)

lemma record_disposalE:
  assumes "record_disposal archived day proceeds currency m today now a db = Inr (d, db')"
  obtains a1 a2 where "asset_save undisturbed today now None (Some [DisposedAtField, DisposalValueField, StatusField]) a1
      (db\<lparr>es_disposals := es_disposals db @ [d]\<rparr>) = Inr (a2, db')" "as_id a1 = as_id a" "as_status a1 = Some archived"
proof -
  obtain a1 a2 db2 where sv: "asset_save undisturbed today now None (Some [DisposedAtField, DisposalValueField, StatusField]) a1
      (db\<lparr>es_disposals := es_disposals db @ [new_disposal db (as_id a) day proceeds currency m]\<rparr>) = Inr (a2, db2)"
    and a1: "as_id a1 = as_id a" "as_status a1 = Some archived" and r: "new_disposal db (as_id a) day proceeds currency m = d \<and> db2 = db'"
    using bindE_pairD[OF bindE_thenD[OF bindE_thenD[OF assms[unfolded record_disposal_def Let_def]]]] by fastforce
  show thesis by (rule that[OF sv[unfolded conjunct1[OF r] conjunct2[OF r]] a1])
qed

lemma record_disposal_stranded:
  assumes "record_disposal archived day proceeds currency m today now a db = Inr (d, db')"
  shows "keeps_stranded db db'"
proof -
  from record_disposalE[OF assms] obtain a1 a2 where sv: "asset_save undisturbed today now None
    (Some [DisposedAtField, DisposalValueField, StatusField]) a1 (db\<lparr>es_disposals := es_disposals db @ [d]\<rparr>) = Inr (a2, db')" by metis
  have "keeps_stranded db (db\<lparr>es_disposals := es_disposals db @ [d]\<rparr>)" by (rule keeps_stranded_frame) simp
  then show ?thesis using asset_save_stranded[OF sv] by (rule keeps_stranded_trans)
qed

lemma dispose_stranded:
  assumes di: "dispose_asset p day proceeds currency m today now db = Inr (d, db')" and ok: "lifecycle_ok db"
  shows "keeps_stranded db db'"
proof (cases "active_assignment db p = None")
  case True
  then show ?thesis using di by (auto simp: dispose_asset_def split: option.splits if_splits intro: record_disposal_stranded)
next
  case False
  then obtain a res b archived where ci: "checkin_asset None None None today now a db = Inr res"
    and rd: "record_disposal archived day proceeds currency m today now b (case res of None \<Rightarrow> db | Some (_, db') \<Rightarrow> db') = Inr (d, db')"
    using di by (auto simp: dispose_asset_def bindE_eq_Inr Let_def split: option.splits if_splits)
  have "keeps_stranded db (case res of None \<Rightarrow> db | Some (_, db') \<Rightarrow> db')"
    using ci checkin_stranded[OF _ ok] by (auto simp: keeps_stranded_def split: option.splits)
  then show ?thesis using record_disposal_stranded[OF rd] by (rule keeps_stranded_trans)
qed

lemma disposal_save_stranded: "disposal_save d db = Inr db' \<Longrightarrow> keeps_stranded db db'"
  by (rule keeps_stranded_frame) (auto simp: disposal_save_def bindE_eq_Inr)

lemma cancel_stranded: "cancel_asset_disposal dp user reason today now db = Inr (d, db') \<Longrightarrow> keeps_stranded db db'"
  by (auto simp: cancel_asset_disposal_def Let_def bindE_eq_Inr split: if_splits option.splits
      intro: keeps_stranded_trans[OF disposal_save_stranded asset_save_stranded])

lemma amend_stranded:
  assumes run: "update_asset_disposal dp c today now db = Inr (d, db')"
  shows "keeps_stranded db db'"
proof -
  obtain d0 where d0: "find_row di_id dp (es_disposals db) = Some d0"
    using run by (cases "find_row di_id dp (es_disposals db)") (auto simp: update_asset_disposal_def split: if_splits)
  obtain a where a: "find_asset db (di_asset d0) = Some a"
    using run by (cases "find_asset db (di_asset d0)") (auto simp: update_asset_disposal_def d0 split: if_splits)
  note r = bindE_thenD[OF bindE_thenD[OF if_errorD[OF run[unfolded update_asset_disposal_def d0 option.case(2) a Let_def]]]]
  obtain db1 where s1: "disposal_save (apply_change c d0) db = Inr db1" using r by (auto simp: bindE_eq_Inr)
  have "keeps_stranded db1 db'"
    using r by (auto simp: s1 keeps_stranded_frame split: if_splits dest!: bindE_pairD intro: asset_save_stranded)
  then show ?thesis using disposal_save_stranded[OF s1] keeps_stranded_trans by blast
qed

lemma return_repair_stranded:
  assumes run: "return_repair cfg m loan actor hr today now db w = (Inr (r, db'), w')" and ok: "lifecycle_ok db"
  shows "keeps_stranded db db'"
proof -
  obtain db1 db2 where one: "checkin_by_id (aa_asset loan) today now db = Inr db1" and two: "checkin_by_id (mt_asset m) today now db1 = Inr db2"
    and three: "checkout_asset cfg (hand_back_terms actor hr) today now (mt_asset m) (aa_user loan) None None db2 w = (Inr (r, db'), w')"
    using run by (auto simp: return_repair_def bindE_eq_Inr split: sum.splits)
  note ok1 = checkin_by_id_keeps[OF one ok]
  note ok2 = checkin_by_id_keeps[OF two ok1]
  show ?thesis
    using checkin_by_id_stranded[OF one ok] checkin_by_id_stranded[OF two ok1] checkout_stranded[OF three ok2] keeps_stranded_trans by blast
qed

lemma replace_repair_stranded:
  assumes run: "replace_repair m loan disposal today now db = Inr (r, db')" and ok: "lifecycle_ok db"
    and loan: "loan \<in> set (es_assignments db)" "aa_deleted loan = None"
  shows "keeps_stranded db db'"
proof -
  obtain a where a: "find_asset db (aa_asset loan) = Some a"
    using run by (cases "find_asset db (aa_asset loan)") (auto simp: replace_repair_def)
  let ?kept = "loan\<lparr>aa_loan := False, aa_due := None\<rparr>"
  obtain db1 where sv: "assignment_row_save a ?kept db = Inr db1" and rest: "(case disposal of None \<Rightarrow> Inr (?kept, db1)
      | Some day \<Rightarrow> bindE (dispose_asset (mt_asset m) (case day of Some d \<Rightarrow> d | None \<Rightarrow> today) None [] (Some (mt_id m)) today now db1)
          (\<lambda>(_, db2). Inr (?kept, db2))) = Inr (r, db')"
    using run[unfolded replace_repair_def a option.case(2) Let_def bindE_eq_Inr] by blast
  have ok1: "lifecycle_ok db1" by (rule assignment_save_keeps[OF sv ok loan(1)]) simp_all
  have "tables_ok db" using ok by (simp add: lifecycle_ok_def)
  then have "keeps_stranded db db1" by (rule assignment_save_stranded[OF sv _ loan(1)]) (use loan in simp_all)
  moreover have "keeps_stranded db1 db'"
    using rest by (cases disposal) (auto dest!: bindE_pairD intro: dispose_stranded[OF _ ok1] keeps_stranded_frame)
  ultimately show ?thesis by (rule keeps_stranded_trans)
qed

lemma complete_stranded:
  assumes run: "complete_repair cfg m act actor disposal hr today now db w = (Inr (Some (r, db')), w')" and ok: "lifecycle_ok db"
  shows "keeps_stranded db db'"
  by (rule complete_repairE[OF run]) (use return_repair_stranded[OF _ ok] replace_repair_stranded[OF _ ok] in blast)

lemma unassign_stranded:
  assumes run: "assignment_row_delete now i db = Inr db'" and ok: "lifecycle_ok db"
  shows "keeps_stranded db db'"
proof -
  obtain r a where r: "r \<in> set (es_assignments db)" "aa_deleted r = None" and sv: "assignment_row_save a (r\<lparr>aa_deleted := Some now\<rparr>) db = Inr db'"
    using run by (auto simp: assignment_row_delete_def split: option.splits dest!: find_SomeD)
  have "tables_ok db" using ok by (simp add: lifecycle_ok_def)
  then show ?thesis by (rule assignment_save_stranded[OF sv _ r(1)]) (use r in simp_all)
qed

lemma create_stranded: "asset_create others a db = Inr (a2, db') \<Longrightarrow> keeps_stranded db db'"
  by (erule asset_createE, rule keeps_stranded_frame) simp

lemma estate_step_stranded: "estate_step db db' \<Longrightarrow> lifecycle_ok db \<Longrightarrow> keeps_stranded db db'"
proof (induction rule: estate_step.induct)
  case (restore dp db db')
  then show ?case by (auto simp: disposal_restore_def split: option.splits if_splits intro: disposal_save_stranded)
next
  case (loaner cfg mt a actor due hr today now db w r db' w')
  then show ?case by (auto simp: issue_repair_loaner_def Let_def split: if_splits option.splits prod.splits intro: checkout_stranded)
next
  case (reserve now adding rv db w db' w')
  then show ?case by (intro keeps_stranded_core reservation_same_core)
next
  case (checkin status location booked today now a db a2 db')
  show ?case by (rule checkin_stranded[OF checkin.hyps(1) checkin.prems])
next
  case (edit others today now a db a2 db')
  show ?case by (rule asset_save_stranded[OF edit.hyps(1)])
next
  case (cancel dp user reason today now db d db')
  show ?case by (rule cancel_stranded[OF cancel.hyps])
next
  case (amend dp c today now db d db')
  show ?case by (rule amend_stranded[OF amend.hyps])
next
  case (create others a db a2 db')
  show ?case by (rule create_stranded[OF create.hyps])
qed (rule checkout_stranded dispose_stranded complete_stranded unassign_stranded; assumption)+

section \<open>Deleting an active assignment\<close>

lemma stranded_forever:
  assumes "estate_step\<^sup>*\<^sup>* db db'" "lifecycle_ok db" "stranded db p"
  shows "lifecycle_ok db' \<and> stranded db' p"
  using assms by (induction rule: rtranclp_induct) (use estate_step_keeps estate_step_stranded in \<open>auto simp: keeps_stranded_def\<close>)

lemma unassign_strands:
  assumes run: "assignment_row_delete now i db = Inr db1" and ok: "lifecycle_ok db"
    and r: "find_row aa_id i (es_assignments db) = Some r" "aa_active r" "aa_deleted r = None"
  shows "stranded db1 (aa_asset r)"
proof -
  have t: "tables_ok db" using ok by (simp add: lifecycle_ok_def)
  have row: "r \<in> set (es_assignments db)" "aa_id r = i" using find_row_SomeD[OF r(1)] by auto
  obtain r' a where r': "r' \<in> set (es_assignments db)" "aa_id r' = i" and sv': "assignment_row_save a (r'\<lparr>aa_deleted := Some now\<rparr>) db = Inr db1"
    using run by (auto simp: assignment_row_delete_def split: option.splits dest!: find_SomeD)
  have k: "keyed aa_id (es_assignments db)" using t by (simp add: tables_ok_def)
  have "r' = r" using keyed_inj[OF k r'(1) row(1)] r'(2) row(2) by simp
  then have sv: "assignment_row_save a (r\<lparr>aa_deleted := Some now\<rparr>) db = Inr db1" using sv' by simp
  have mem: "x \<in> set (es_assignments db1) \<longleftrightarrow> x = r\<lparr>aa_deleted := Some now\<rparr> \<or> x \<in> set (es_assignments db) \<and> aa_id x \<noteq> i" for x
    using assignment_save_core(3)[OF sv t row(1)] row(2) by simp
  have one: "aa_id x = i" if "x \<in> set (es_assignments db)" "aa_active x" "aa_deleted x = None" "aa_asset x = aa_asset r" for x
    using t that r row unfolding tables_ok_def by blast
  have "r\<lparr>aa_deleted := Some now\<rparr> \<in> set (es_assignments db1)" using mem by blast
  then have "\<exists>x \<in> set (es_assignments db1). aa_asset x = aa_asset r \<and> aa_active x \<and> aa_deleted x \<noteq> None"
    using r(2) by (intro bexI[of _ "r\<lparr>aa_deleted := Some now\<rparr>"]) simp_all
  moreover have "aa_deleted x \<noteq> None" if "x \<in> set (es_assignments db1)" "aa_asset x = aa_asset r" "aa_active x" for x
    using that one[of x] unfolding mem by auto
  ultimately show ?thesis unfolding stranded_def by blast
qed

lemma stranded_not_disposed:
  assumes ok: "lifecycle_ok db" and s: "stranded db p"
  shows "isl (dispose_asset p day proceeds currency m today now db)"
proof (cases "dispose_asset p day proceeds currency m today now db")
  case (Inr x)
  obtain d db' where x: "x = (d, db')" by force
  obtain a archived where a: "find_asset db p = Some a" and l: "first_label db ARCHIVED = Some archived"
    and rd: "record_disposal archived day proceeds currency m today now a db = Inr (d, db')"
    using Inr x stranded_reads(2)[OF s] by (auto simp: dispose_asset_def split: option.splits if_splits)
  from record_disposalE[OF rd] obtain a1 a2 where sv: "asset_save undisturbed today now None
    (Some [DisposedAtField, DisposalValueField, StatusField]) a1 (db\<lparr>es_disposals := es_disposals db @ [d]\<rparr>) = Inr (a2, db')"
    and a1: "as_id a1 = as_id a" "as_status a1 = Some archived" by metis
  have "has_active_assignment (db\<lparr>es_disposals := es_disposals db @ [d]\<rparr>) (as_id a1)"
    using stranded_reads(1)[OF s] by (simp add: status_at_disposals a1 find_asset_id[OF a])
  then have "asset_status_type db a1 = Some DEPLOYED" using asset_save_valid(2)[OF sv] by (simp add: status_at_disposals)
  moreover have "asset_status_type db a1 = Some ARCHIVED"
    using first_label_type[OF l] ok by (simp add: asset_status_type_def a1 lifecycle_ok_def tables_ok_def)
  ultimately show ?thesis by simp
qed simp

lemma stranded_not_checked_out:
  assumes ok: "lifecycle_ok db" and s: "stranded db p"
  shows "isl (fst (checkout_asset cfg tm today now p holder location target db w))"
proof (cases "scoped_asset db now p w")
  case (Pair x w1)
  show ?thesis
  proof (cases x)
    case (Some a)
    have "find_asset db p = Some a" "as_id a = p" using scoped_asset_row[of db now p w a w1] Pair Some ok by (auto simp: lifecycle_ok_def tables_ok_def)
    then have "\<not> is_issuable db a" using stranded_reads(1)[OF s] by (simp add: is_issuable_def)
    then show ?thesis by (simp add: checkout_asset_def Pair Some checkout_locked_asset_def)
  qed (simp add: checkout_asset_def Pair)
qed

text \<open>Deleting an active assignment through the API strands its asset: whatever checkouts, check-ins,
  disposals, edits and other operations follow (short of restoring the deleted row), the asset stays in a
  deployed status although no live assignment holds it, so there is nothing to check in, and every
  checkout and every disposal of it is refused.\<close>

theorem deleted_assignment_strands_asset:
  assumes "lifecycle_ok db" "find_row aa_id i (es_assignments db) = Some r" "aa_active r" "aa_deleted r = None"
    and "assignment_row_delete now i db = Inr db1" "estate_step\<^sup>*\<^sup>* db1 db2"
  shows "status_at db2 (aa_asset r) = Some DEPLOYED \<and> active_assignment db2 (aa_asset r) = None \<and>
    isl (fst (checkout_asset cfg tm today now' (aa_asset r) holder location target db2 w)) \<and>
    isl (dispose_asset (aa_asset r) day proceeds currency m today now' db2)"
proof -
  have "lifecycle_ok db1" by (rule delete_assignment_keeps[OF assms(5,1)])
  then have ok: "lifecycle_ok db2" and s: "stranded db2 (aa_asset r)"
    using stranded_forever[OF assms(6)] unassign_strands[OF assms(5,1-4)] by auto
  have "status_at db2 (aa_asset r) = Some DEPLOYED" using ok stranded_reads(1)[OF s] by (simp add: lifecycle_ok_def status_ok_def)
  then show ?thesis using stranded_reads(2)[OF s] stranded_not_disposed[OF ok s] stranded_not_checked_out[OF ok s] by blast
qed

text \<open>The laptop of the sample, checked out to its holder.\<close>

definition sample_assignment :: asset_assignment where
  "sample_assignment = \<lparr>aa_id = 900, aa_asset = 80, aa_user = Some 60, aa_location = None, aa_target = None, aa_pre_status = Some 1,
     aa_by = Some 1, aa_at = 50, aa_active = True, aa_checked_in = None, aa_loan = False, aa_due = None, aa_returned = None,
     aa_maintenance = None, aa_deleted = None\<rparr>"

definition sample_deployed :: estate where
  "sample_deployed = sample_estate\<lparr>es_assets := [sample_asset\<lparr>as_status := Some 2\<rparr>], es_assignments := [sample_assignment]\<rparr>"

lemma sample_deployed_ok: "lifecycle_ok sample_deployed"
  by (rule lifecycle_ok_check) code_simp+

definition sample_unassigned :: estate where
  "sample_unassigned = (case assignment_row_delete 100 900 sample_deployed of Inr db \<Rightarrow> db | Inl _ \<Rightarrow> sample_deployed)"

lemma deleted_assignment_strands_asset_witness:
  "status_at sample_unassigned 80 = Some DEPLOYED \<and> active_assignment sample_unassigned 80 = None \<and>
   isl (dispose_asset 80 (Date 2025 1 1) None [] None (Date 2025 1 1) 200 sample_unassigned)"
proof -
  have r: "find_row aa_id 900 (es_assignments sample_deployed) = Some sample_assignment" by (simp add: sample_deployed_def sample_assignment_def)
  have "\<not> isl (assignment_row_delete 100 900 sample_deployed)" by code_simp
  then have d: "assignment_row_delete 100 900 sample_deployed = Inr sample_unassigned"
    by (cases "assignment_row_delete 100 900 sample_deployed") (auto simp: sample_unassigned_def)
  have f: "aa_active sample_assignment" "aa_deleted sample_assignment = None" "aa_asset sample_assignment = 80"
    by (simp_all add: sample_assignment_def)
  show ?thesis using deleted_assignment_strands_asset[OF sample_deployed_ok r f(1,2) d rtranclp.rtrancl_refl] unfolding f(3) by blast
qed

end
