(* ===== verification/AssetReturn.thy ===== *)
theory AssetReturn
  imports AssetFlows
begin

text \<open>
  A checkout to a person and the check-in that follows: the check-in always succeeds, and the asset's row
  is what it was before the checkout.
\<close>

section \<open>A checkout to a holder, forwards\<close>

lemma asset_save_columns:
  assumes "find_asset db (as_id a) = Some old" "freeze_disposal db today now a = a" "asset_clean db op False a = Inr ()"
    "asset_unique (es_assets db) (write_columns (Some cols) a old) = Inr ()"
  shows "asset_save others today now op (Some cols) a db =
    Inr (a, db\<lparr>es_assets := save_row as_id (write_columns (Some cols) a old) (es_assets db)\<rparr>)"
  using assms by (simp add: asset_save_def prepare_asset_tag_def)

lemma freeze_live:
  assumes "find_asset db (as_id a) = Some old" "asset_status_type db old \<noteq> Some ARCHIVED" "asset_status_type db a \<noteq> Some ARCHIVED"
  shows "freeze_disposal db today now a = a"
  using assms by (simp add: freeze_disposal_def)

lemma same_columns:
  "a\<lparr>as_status := s, as_location := as_location a\<rparr> = a\<lparr>as_status := s\<rparr>"
  "write_columns (Some [StatusField]) (a\<lparr>as_status := s\<rparr>) a = a\<lparr>as_status := s\<rparr>"
  "write_columns (Some [StatusField, LocationField]) a (a\<lparr>as_status := s\<rparr>) = a"
  "a\<lparr>as_status := as_status a, as_location := as_location a\<rparr> = a"
  by (cases a; simp add: write_columns_def writes_def)+

lemma assignment_row_clean_id: "assignment_row_clean db a (r\<lparr>aa_id := i\<rparr>) = assignment_row_clean db a r"
proof -
  have t: "targets_of (r\<lparr>aa_id := i\<rparr>) = targets_of r" "target_tenant db (r\<lparr>aa_id := i\<rparr>) = target_tenant db r"
    by (simp_all add: targets_of_def target_tenant_def cong: option.case_cong)
  have s: "aa_maintenance (r\<lparr>aa_id := i\<rparr>) = aa_maintenance r" "aa_active (r\<lparr>aa_id := i\<rparr>) = aa_active r" by simp_all
  show ?thesis unfolding assignment_row_clean_def t s by (rule refl)
qed

lemma assignment_row_clean_frame:
  assumes "find_asset db' = find_asset db" "es_maintenances db' = es_maintenances db" "iv_holders db' = iv_holders db"
    "sh_locations db' = sh_locations db" "es_labels db' = es_labels db"
  shows "assignment_row_clean db' = assignment_row_clean db"
proof -
  have t: "asset_tenant_of db' = asset_tenant_of db" using assms(1) by (simp add: asset_tenant_of_def fun_eq_iff)
  have "maintenance_tenant db' = maintenance_tenant db" "target_tenant db' = target_tenant db" "asset_status_type db' = asset_status_type db"
    using assms t by (simp_all add: maintenance_tenant_def target_tenant_def asset_status_type_def status_type_of_def fun_eq_iff cong: option.case_cong)
  then show ?thesis by (intro ext) (simp only: assignment_row_clean_def)
qed

lemma holder_checkout:
  assumes co: "checkout_asset cfg tm today now p (Some h) None None db w = (Inr (r, db'), w')" and ok: "lifecycle_ok db"
    and a: "find_asset db p = Some a"
  obtains s where "es_assets db' = save_row as_id (a\<lparr>as_status := Some s\<rparr>) (es_assets db)" "es_assignments db' = es_assignments db @ [r]"
    "db' = db\<lparr>es_assets := es_assets db', es_assignments := es_assignments db', es_receipts := es_receipts db'\<rparr>"
    "is_issuable db a" "status_type_of db (Some s) = Some DEPLOYED" "r = (checkout_row tm now (Some h) None None a)\<lparr>aa_id := aa_id r\<rparr>"
    "as_tenant a = None \<or> (\<forall>t \<in> set (reference_tenants db a). t = None \<or> t = as_tenant a)"
    "asset_unique (es_assets db) (a\<lparr>as_status := Some s\<rparr>) = Inr ()"
    "assignment_row_clean db' (a\<lparr>as_status := Some s\<rparr>) r = Inr ()"
proof -
  have t: "tables_ok db" using ok by (simp add: lifecycle_ok_def)
  obtain a' w1 where sc: "scoped_asset db now p w = (Some a', w1)"
    and lk': "checkout_locked_asset cfg tm today now (Some h) None None a' db = Inr (r, db')"
    using co by (auto simp: checkout_asset_def split: if_splits prod.splits option.splits)
  have "a' = a" and id: "as_id a = p" using scoped_asset_row[OF sc] a t by (auto simp: tables_ok_def find_asset_id)
  then have lk: "checkout_locked_asset cfg tm today now (Some h) None None a db = Inr (r, db')" using lk' by simp
  from checkout_lockedE[OF lk] obtain s cols a1 a2 db1 db2 where iss: "is_issuable db a" and cols: "cols = [StatusField]"
    and a1': "a1 = a\<lparr>as_status := Some s, as_location := checkout_location db (Some h) None None a\<rparr>"
    and sv: "asset_save undisturbed today now (Some CheckoutOperation) (Some cols) a1 db = Inr (a2, db1)"
    and cr: "assignment_row_create a2 (checkout_row tm now (Some h) None None a) db1 = Inr (r, db2)" and rc: "only_receipts db2 db'"
    by (metis option.distinct(1))
  let ?b = "a\<lparr>as_status := Some s\<rparr>"
  have a1: "a1 = ?b" by (simp add: a1' checkout_location_def same_columns)
  have ida: "as_id a1 = p" by (simp add: a1 id)
  from asset_saveE[OF sv] obtain old sq where old: "find_asset db (as_id a1) = Some old"
    and db1': "db1 = db\<lparr>es_sequences := sq, es_assets := save_row as_id (write_columns (Some cols) a2 old) (es_assets db)\<rparr>"
    and keep: "sq = es_sequences db \<and> a2 = freeze_disposal db today now a1"
    and cl: "asset_clean db (Some CheckoutOperation) False a2 = Inr ()" and un: "asset_unique (es_assets db) (write_columns (Some cols) a2 old) = Inr ()"
    by (metis option.distinct(1))
  have old_a: "old = a" using old a ida by simp
  note core = asset_save_core[OF sv t]
  have act: "aa_active (checkout_row tm now (Some h) None None a)" by (simp add: checkout_row_def)
  have dep: "asset_status_type db a1 = Some DEPLOYED"
  proof -
    have "asset_status_type db1 a2 = Some DEPLOYED"
      using cr act by (auto simp: assignment_row_create_def bindE_eq_Inr assignment_row_clean_def split: if_splits)
    then show ?thesis using core(2,9) by (simp add: asset_status_type_def status_type_of_def)
  qed
  have a2: "a2 = ?b"
  proof -
    have "freeze_disposal db today now a1 = a1" by (rule freeze_live[OF old]) (use iss dep in \<open>simp_all add: old_a is_issuable_def\<close>)
    then show ?thesis using keep a1 by simp
  qed
  have db1: "db1 = db\<lparr>es_assets := save_row as_id ?b (es_assets db)\<rparr>"
    using db1' keep by (simp add: a2 cols old_a same_columns)
  have cr': "assignment_row_clean db1 ?b (checkout_row tm now (Some h) None None a) = Inr ()" "es_assignments db2 = es_assignments db1 @ [r]"
    "db2 = db1\<lparr>es_assignments := es_assignments db1 @ [r]\<rparr>" "r = (checkout_row tm now (Some h) None None a)\<lparr>aa_id := aa_id r\<rparr>"
    using cr by (auto simp: assignment_row_create_def bindE_eq_Inr Let_def a2)
  have db': "db' = db2\<lparr>es_receipts := es_receipts db'\<rparr>" by (rule only_receipts_frame[OF rc])
  have e: "es_assets db' = save_row as_id ?b (es_assets db)" "es_assignments db' = es_assignments db @ [r]"
    by (subst db', simp add: cr'(3) db1)+
  have whole: "db' = db\<lparr>es_assets := es_assets db', es_assignments := es_assignments db', es_receipts := es_receipts db'\<rparr>"
    unfolding e by (subst db') (simp add: cr'(3) db1)
  have "assignment_row_clean db1 ?b r = Inr ()"
    using cr'(1) by (subst cr'(4)) (simp only: assignment_row_clean_id)
  moreover have "assignment_row_clean db' = assignment_row_clean db1"
    by (rule assignment_row_clean_frame; subst db'; simp add: cr'(3) find_asset_def fun_eq_iff)
  ultimately have rowok: "assignment_row_clean db' ?b r = Inr ()" by simp
  have refs: "as_tenant a = None \<or> (\<forall>t \<in> set (reference_tenants db a). t = None \<or> t = as_tenant a)"
  proof -
    have "reference_tenants db ?b = reference_tenants db a" by (simp add: reference_tenants_def)
    then show ?thesis using cl by (auto simp: asset_clean_def a2 split: if_splits)
  qed
  show thesis
    by (rule that[OF e whole iss _ cr'(4) refs _ rowok]) (use dep un in \<open>simp_all add: asset_status_type_def a1 a2 cols old_a same_columns\<close>)
qed

section \<open>The check-in that follows\<close>

lemma find_snoc: "(\<And>x. x \<in> set xs \<Longrightarrow> \<not> P x) \<Longrightarrow> List.find P (xs @ [y]) = (if P y then Some y else None)"
  by (induction xs) auto

lemma filter_save_row: "filter (\<lambda>x. key x \<noteq> key r) (save_row key r rows) = filter (\<lambda>x. key x \<noteq> key r) rows"
  by (induction rows) (auto simp: save_row_def)

lemma asset_unique_status:
  "asset_unique (save_row as_id (a\<lparr>as_status := s\<rparr>) rows) a = asset_unique rows (a\<lparr>as_status := s\<rparr>)"
proof -
  have p: "as_id (a\<lparr>as_status := s\<rparr>) = as_id a" "as_tenant (a\<lparr>as_status := s\<rparr>) = as_tenant a" "as_tag (a\<lparr>as_status := s\<rparr>) = as_tag a"
    "as_serial (a\<lparr>as_status := s\<rparr>) = as_serial a" "as_deleted (a\<lparr>as_status := s\<rparr>) = as_deleted a" by simp_all
  show ?thesis
    unfolding asset_unique_def p filter_save_row[of as_id "a\<lparr>as_status := s\<rparr>" rows, unfolded p] by (rule refl)
qed

text \<open>Closing the assignment and putting the asset back, once the state after the checkout is known.\<close>

lemma return_state:
  assumes rows: "es_assets db1 = save_row as_id (a\<lparr>as_status := Some s\<rparr>) (es_assets db)" "es_assignments db1 = es_assignments db @ [r]"
    and frame: "db1 = db\<lparr>es_assets := es_assets db1, es_assignments := es_assignments db1, es_receipts := es_receipts db1\<rparr>"
    and iss: "is_issuable db a" and s: "status_type_of db (Some s) = Some DEPLOYED" and r: "r = (checkout_row tm at0 (Some h) None None a)\<lparr>aa_id := aa_id r\<rparr>"
    and refs: "as_tenant a = None \<or> (\<forall>t \<in> set (reference_tenants db a). t = None \<or> t = as_tenant a)"
    and un: "asset_unique (es_assets db) (a\<lparr>as_status := Some s\<rparr>) = Inr ()"
    and a: "find_asset db (as_id a) = Some a" and closed: "es_assignments db3 = save_row aa_id (close_row booked today now r) (es_assignments db1)"
    and db3: "db3 = db1\<lparr>es_assignments := es_assignments db3, es_receipts := es_receipts db3, es_sessions := es_sessions db3\<rparr>"
    and fresh: "\<And>x. x \<in> set (es_assignments db) \<Longrightarrow> aa_id x \<noteq> aa_id r"
  shows "asset_save undisturbed today now (Some CheckinOperation) (Some [StatusField, LocationField]) a db3 =
      Inr (a, db3\<lparr>es_assets := save_row as_id a (es_assets db3)\<rparr>)"
    and "is_issuable (db3\<lparr>es_assets := save_row as_id a (es_assets db3)\<rparr>) a"
    and "find_asset (db3\<lparr>es_assets := save_row as_id a (es_assets db3)\<rparr>) = find_asset db"
    and "active_assignment (db3\<lparr>es_assets := save_row as_id a (es_assets db3)\<rparr>) (as_id a) = None"
proof -
  let ?b = "a\<lparr>as_status := Some s\<rparr>"
  have assets: "es_assets db3 = save_row as_id ?b (es_assets db)" by (subst db3) (simp add: rows)
  have same: "es_labels db3 = es_labels db" "es_disposals db3 = es_disposals db" "sh_locations db3 = sh_locations db"
    "es_cost_centers db3 = es_cost_centers db" "es_lines db3 = es_lines db"
    by ((subst db3, subst frame, simp))+
  have f: "find_asset db3 q = (if q = as_id a then Some ?b else find_asset db q)" for q
    using a by (auto simp: find_asset_def assets find_row_save_row)
  have ty: "asset_status_type db3 = asset_status_type db" by (simp add: asset_status_type_def status_type_of_def same fun_eq_iff)
  have tyb: "asset_status_type db ?b = Some DEPLOYED" using s by (simp add: asset_status_type_def)
  have tya: "asset_status_type db a = Some DEPLOYABLE" and free: "\<not> has_active_assignment db (as_id a)" "\<not> is_disposed db (as_id a)"
    using iss by (auto simp: is_issuable_def)
  obtain s0 where s0: "as_status a = Some s0" "status_type_of db (Some s0) = Some DEPLOYABLE"
    using tya by (cases "as_status a") (auto simp: asset_status_type_def status_type_of_def)
  have st: "status_type_of db3 = status_type_of db" by (simp add: status_type_of_def same fun_eq_iff)
  have diff: "s \<noteq> s0" using s s0 by auto
  have rf: "aa_asset r = as_id a" "aa_active r" by (subst r, simp add: checkout_row_def)+
  have others: "aa_asset x \<noteq> as_id a \<or> \<not> aa_active x" if "x \<in> set (es_assignments db3)" for x
  proof -
    have "x \<in> set (es_assignments db) \<or> \<not> aa_active x"
      using that by (auto simp: closed rows save_row_def close_row_def split: if_splits)
    then show ?thesis using free(1) by (auto simp: has_active_assignment_def)
  qed
  then have na: "\<not> has_active_assignment db3 (as_id a)" by (auto simp: has_active_assignment_def)
  have frz: "freeze_disposal db3 today now a = a" by (rule freeze_live[of db3 a ?b]) (simp_all add: f ty tya tyb)
  have "reference_tenants db3 a = reference_tenants db a" by (simp add: reference_tenants_def same)
  moreover have "validate_assignment_status db3 (Some CheckinOperation) False a = Inr ()"
    using na by (simp add: validate_assignment_status_def ty tya Let_def)
  moreover have "validate_status_transition db3 (Some CheckinOperation) False a = Inr ()"
    using na diff s s0 by (simp add: validate_status_transition_def f st is_managed_deployed_transition_def
        validate_transition_def validate_disposal_status_transition_def Let_def)
  ultimately have cl: "asset_clean db3 (Some CheckinOperation) False a = Inr ()" using refs by (auto simp: asset_clean_def)
  show "asset_save undisturbed today now (Some CheckinOperation) (Some [StatusField, LocationField]) a db3 =
      Inr (a, db3\<lparr>es_assets := save_row as_id a (es_assets db3)\<rparr>)"
    using asset_save_columns[of db3 a ?b today now "Some CheckinOperation" "[StatusField, LocationField]"] f frz cl un
    by (simp add: same_columns assets asset_unique_status)
  show "is_issuable (db3\<lparr>es_assets := save_row as_id a (es_assets db3)\<rparr>) a"
    using na free(2) tya ty by (simp add: is_issuable_def has_active_assignment_def is_disposed_def same asset_status_type_def status_type_of_def)
  show "find_asset (db3\<lparr>es_assets := save_row as_id a (es_assets db3)\<rparr>) = find_asset db"
    using a f by (intro ext) (auto simp: find_asset_def find_row_save_row)
  show "active_assignment (db3\<lparr>es_assets := save_row as_id a (es_assets db3)\<rparr>) (as_id a) = None"
    using others by (auto simp: active_assignment_def find_None_iff)
qed

lemma superseded:
  assumes "c \<in> set (es_receipts (supersede_pending_receipts now r db))" "cr_assignment c = Some (aa_id r)"
  shows "cr_status c \<noteq> ReceiptPending"
  using assms by (force simp: supersede_pending_receipts_def Let_def custody_period_def split: if_splits)

lemma checkin_active:
  assumes "active_assignment db (as_id a) = Some r" "assignment_row_save a (close_row booked today now r) db = Inr db1"
    "checkin_save status (aa_pre_status r) location today now a (supersede_pending_receipts now (close_row booked today now r) db1) = Inr res"
  shows "checkin_asset status location booked today now a db = Inr (Some res)"
  using assms by (simp add: checkin_asset_def Let_def)

text \<open>C37. A checkout to a person followed by a check-in of the asset gives back the world before the checkout:
  the check-in never fails, the asset's row is exactly the row before the checkout (status and location
  included) and no other asset is touched, nothing is assigned and the asset can be issued again, and no
  custody receipt of the closed assignment is still pending.\<close>

theorem checkout_checkin_roundtrip:
  assumes ok: "lifecycle_ok db" and a: "find_asset db p = Some a"
    and co: "checkout_asset cfg tm today now p (Some h) None None db w = (Inr (r, db1), w')" and a1: "find_asset db1 p = Some a1"
  shows "\<exists>db2. checkin_asset None None booked today' now' a1 db1 = Inr (Some (a, db2)) \<and> find_asset db2 = find_asset db \<and>
    active_assignment db2 p = None \<and> is_issuable db2 a \<and>
    (\<forall>c. c \<in> set (es_receipts db2) \<and> cr_assignment c = Some (aa_id r) \<longrightarrow> cr_status c \<noteq> ReceiptPending)"
proof -
  from holder_checkout[OF co ok a] obtain s where rows: "es_assets db1 = save_row as_id (a\<lparr>as_status := Some s\<rparr>) (es_assets db)"
    "es_assignments db1 = es_assignments db @ [r]"
    and frame: "db1 = db\<lparr>es_assets := es_assets db1, es_assignments := es_assignments db1, es_receipts := es_receipts db1\<rparr>"
    and iss: "is_issuable db a" and s: "status_type_of db (Some s) = Some DEPLOYED"
    and r: "r = (checkout_row tm now (Some h) None None a)\<lparr>aa_id := aa_id r\<rparr>"
    and refs: "as_tenant a = None \<or> (\<forall>t \<in> set (reference_tenants db a). t = None \<or> t = as_tenant a)"
    and un: "asset_unique (es_assets db) (a\<lparr>as_status := Some s\<rparr>) = Inr ()"
    and cl: "assignment_row_clean db1 (a\<lparr>as_status := Some s\<rparr>) r = Inr ()" .
  let ?b = "a\<lparr>as_status := Some s\<rparr>" let ?closed = "close_row booked today' now' r"
  have id: "as_id a = p" by (rule find_asset_id[OF a])
  have "find_asset db1 p = Some ?b" using a id by (simp add: find_asset_def rows find_row_save_row)
  then have b: "a1 = ?b" using a1 by simp
  have rf: "aa_asset r = as_id a" "aa_active r" "aa_deleted r = None" "aa_pre_status r = as_status a" by (subst r, simp add: checkout_row_def)+
  have free: "aa_asset x \<noteq> as_id a \<or> \<not> aa_active x" if "x \<in> set (es_assignments db)" for x
    using iss that by (auto simp: is_issuable_def has_active_assignment_def)
  have fresh: "aa_id x \<noteq> aa_id r" if "x \<in> set (es_assignments db)" for x
  proof -
    have "lifecycle_ok db1" by (rule checkout_keeps[OF co ok])
    then have "keyed aa_id (es_assignments db @ [r])" by (simp add: lifecycle_ok_def tables_ok_def rows)
    then show ?thesis using that by (simp add: keyed_def) (metis imageI)
  qed
  have act: "active_assignment db1 (as_id a1) = Some r"
    unfolding active_assignment_def rows b by (subst find_snoc) (use free rf in auto)
  define db2 where "db2 = db1\<lparr>es_assignments := save_row aa_id ?closed (es_assignments db1)\<rparr>"
  have closed: "\<not> aa_active ?closed" "aa_maintenance ?closed = aa_maintenance r" by (simp_all add: close_row_def)
  have "assignment_row_clean db1 ?b ?closed = Inr ()"
    using cl unfolding assignment_row_clean_def closed(2) by (simp add: closed(1) split: if_splits)
  then have save: "assignment_row_save a1 ?closed db1 = Inr db2"
    unfolding assignment_row_save_def b by (simp add: assignment_row_unique_def closed(1) db2_def)
  define db3 where "db3 = supersede_pending_receipts now' ?closed db2"
  have e3: "es_assignments db3 = save_row aa_id ?closed (es_assignments db1)"
    and f3: "db3 = db1\<lparr>es_assignments := es_assignments db3, es_receipts := es_receipts db3, es_sessions := es_sessions db3\<rparr>"
    by (simp_all add: db3_def supersede_pending_receipts_def db2_def Let_def)
  note put = return_state[OF rows frame iss s r refs un a[folded id] e3 f3 fresh]
  let ?db4 = "db3\<lparr>es_assets := save_row as_id a (es_assets db3)\<rparr>"
  have st: "checkin_status db3 None (as_status a) (Some s) = as_status a"
    using iss by (cases "as_status a") (auto simp: checkin_status_def is_issuable_def asset_status_type_def status_type_of_def)
  have "?b\<lparr>as_status := as_status a, as_location := as_location a\<rparr> = a" by (cases a) simp
  then have "checkin_save None (aa_pre_status r) None today' now' ?b db3 = Inr (a, ?db4)"
    by (simp add: checkin_save_def rf(4) st put(1))
  then have "checkin_asset None None booked today' now' a1 db1 = Inr (Some (a, ?db4))"
    using checkin_active[OF act save] unfolding db3_def b by blast
  moreover have "cr_status c \<noteq> ReceiptPending" if "c \<in> set (es_receipts ?db4)" "cr_assignment c = Some (aa_id r)" for c
    using superseded[of c now' ?closed db2] that by (simp add: db3_def close_row_def)
  ultimately show ?thesis using put(2,3,4) unfolding id by blast
qed

text \<open>The sample laptop lent to its holder and brought back the next day.\<close>

definition sample_terms :: checkout_terms where
  "sample_terms = \<lparr>tm_actor = Some 1, tm_status = None, tm_at = None, tm_loan = False, tm_due = None, tm_maintenance = None,
     tm_has_request = False, tm_suppress_receipt = False\<rparr>"

definition sample_custody :: custody_config where
  "sample_custody = \<lparr>cc_allow_global = True, cc_mail_ready = False, cc_holder_mail = (\<lambda>_. True)\<rparr>"

definition sample_lending :: "(asset_error + asset_assignment \<times> estate) \<times> world" where
  "sample_lending = checkout_asset sample_custody sample_terms (Date 2025 1 1) 50 80 (Some 60) None None sample_estate sample_world"

lemma sample_lending_runs: "\<not> isl (fst sample_lending)"
  by code_simp

lemma checkout_checkin_roundtrip_witness:
  "\<exists>r db1 w' a1 db2. sample_lending = (Inr (r, db1), w') \<and>
     checkin_asset None None None (Date 2025 1 2) 51 a1 db1 = Inr (Some (sample_asset, db2)) \<and>
     find_asset db2 80 = Some sample_asset \<and> is_issuable db2 sample_asset"
proof -
  obtain q w' where q: "sample_lending = (q, w')" by force
  have "\<not> isl q" using sample_lending_runs unfolding q by simp
  then obtain z where "q = Inr z" by (cases q) auto
  then obtain r db1 where l: "sample_lending = (Inr (r, db1), w')" using q by (cases z) auto
  note co = l[unfolded sample_lending_def]
  have a: "find_asset sample_estate 80 = Some sample_asset" by (simp add: find_asset_def sample_estate_tables sample_asset_def)
  from holder_checkout[OF co sample_estate_ok a] obtain s where
    "es_assets db1 = save_row as_id (sample_asset\<lparr>as_status := Some s\<rparr>) (es_assets sample_estate)" by metis
  then have "find_asset db1 80 = Some (sample_asset\<lparr>as_status := Some s\<rparr>)"
    by (simp add: find_asset_def sample_estate_tables save_row_def sample_asset_def)
  from checkout_checkin_roundtrip[OF sample_estate_ok a co this, of None "Date 2025 1 2" 51] obtain db2 where
    "checkin_asset None None None (Date 2025 1 2) 51 (sample_asset\<lparr>as_status := Some s\<rparr>) db1 = Inr (Some (sample_asset, db2))"
    "find_asset db2 = find_asset sample_estate" "is_issuable db2 sample_asset" by blast
  then show ?thesis using l a by (intro exI conjI) (assumption | simp)+
qed

end
