(* ===== verification/Requests.thy ===== *)
theory Requests
  imports AssetServices
begin

text \<open>
  Asset requests: \<^verbatim>\<open>assets/models/requests.py\<close> (validation and saving), the actions of
  \<^verbatim>\<open>assets/views/request_views.py\<close> (approve, deny, cancel), the authorization rule of
  \<^verbatim>\<open>assets/services/request_authorization.py\<close> and the manual completion of
  \<^verbatim>\<open>assets/services/request_fulfillment.py\<close>.  The source location a reviewer may allocate and audit
  entries are left out.  Every action is one transaction.
\<close>

datatype flow_error =
  RequestTransition request_status request_status | NoRequestedItem | SeveralRequestedItems | NonPositiveQuantity | NotRequestable
  | RequestOfDisposed | NotAvailable | DuplicateRequest | RequestTypeMismatch | SeveralRequestTargets | RequestMissing
  | RequestNotPending | QuantityExceedsRequest | RequestNotCancellable | CheckoutInitiated | RequestNotApproved
  | ReasonMissing | ActorMissing | NotConfirmed | GroupWithoutUnits | UnitNotApproved | GroupNotCompletable | EvidenceExists
  | PermissionRefused | OrderMissing | OrderTransition order_status | OrderWithoutTenant | ChildOfGroup | GroupMismatch
  | LinkedElsewhere | PartlyLinked | SeveralSerialisedUnits | OrderNotDraft | LinkTenants | DuplicateLink | LineWithoutItem
  | LineWithSeveralItems | AmbiguousTarget | OrderWithoutLines | OwnOrder | NoDeployableLabel | UnstatedReceipt | StaleReceipt | ExceedsOutstanding
  | AssetProblem asset_error | StockProblem stock_error

section \<open>Validation\<close>

fun VALID_TRANSITIONS :: "request_status \<Rightarrow> request_status list" where
  "VALID_TRANSITIONS RequestPending = [RequestApproved, RequestDenied, RequestCancelled, RequestFulfilled]"
| "VALID_TRANSITIONS RequestApproved = [RequestFulfilled, RequestCancelled, RequestProcurement]"
| "VALID_TRANSITIONS RequestProcurement = [RequestFulfilled, RequestCancelled, RequestApproved]"
| "VALID_TRANSITIONS RequestDenied = []"
| "VALID_TRANSITIONS RequestFulfilled = []"
| "VALID_TRANSITIONS RequestCancelled = []"

definition find_request :: "estate \<Rightarrow> pk \<Rightarrow> asset_request option" where
  "find_request db p = find_row rq_id p (es_requests db)"

definition request_transition_ok :: "estate \<Rightarrow> asset_request \<Rightarrow> flow_error + unit" where
  "request_transition_ok db r =
     (case find_request db (rq_id r) of
        None \<Rightarrow> Inr ()
      | Some old \<Rightarrow>
          require (rq_status old = rq_status r \<or> rq_status r \<in> set (VALID_TRANSITIONS (rq_status old)))
            (RequestTransition (rq_status old) (rq_status r)))"

definition categories_filled :: "asset_request \<Rightarrow> nat" where
  "categories_filled r = length (filter (\<lambda>b. b)
     [rq_asset r \<noteq> None \<or> rq_asset_type r \<noteq> None, rq_component r \<noteq> None, rq_accessory r \<noteq> None, rq_consumable r \<noteq> None])"

definition request_item_clean :: "asset_request \<Rightarrow> flow_error + unit" where
  "request_item_clean r =
     (if categories_filled r = 0 then Inl NoRequestedItem
      else if categories_filled r > 1 then Inl SeveralRequestedItems
      else if rq_qty r \<le> 0 then Inl NonPositiveQuantity
      else Inr ())"

definition request_match_clean :: "estate \<Rightarrow> asset_request \<Rightarrow> flow_error + unit" where
  "request_match_clean db r =
     (case (rq_asset r, rq_asset_type r) of
        (Some p, Some t) \<Rightarrow> require (Option.bind (find_asset db p) as_type = Some t) RequestTypeMismatch
      | _ \<Rightarrow> Inr ())"

text \<open>The check constraint on the targets, part of \<open>full_clean\<close>.\<close>

definition request_ck :: "asset_request \<Rightarrow> flow_error + unit" where
  "request_ck r = require (length (filter (\<lambda>t. t \<noteq> None) [rq_user r, rq_location r, rq_target r]) \<le> 1) SeveralRequestTargets"

definition request_clean :: "estate \<Rightarrow> asset_request \<Rightarrow> flow_error + unit" where
  "request_clean db r =
     bindE (request_transition_ok db r) (\<lambda>_. bindE (request_item_clean r) (\<lambda>_. bindE (request_match_clean db r) (\<lambda>_. request_ck r)))"

text \<open>What only a new request is checked for.\<close>

definition open_status :: "request_status \<Rightarrow> bool" where
  "open_status s \<longleftrightarrow> s \<in> {RequestPending, RequestApproved, RequestProcurement}"

definition duplicates :: "asset_request \<Rightarrow> asset_request \<Rightarrow> bool" where
  "duplicates r x \<longleftrightarrow> rq_requester x = rq_requester r \<and> open_status (rq_status x) \<and> rq_user x = rq_user r \<and>
     rq_location x = rq_location r \<and> rq_target x = rq_target r \<and>
     (if rq_asset r \<noteq> None then rq_asset x = rq_asset r
      else if rq_asset_type r \<noteq> None then rq_asset_type x = rq_asset_type r \<and> rq_asset x = None
      else if rq_component r \<noteq> None then rq_component x = rq_component r
      else if rq_accessory r \<noteq> None then rq_accessory x = rq_accessory r
      else rq_consumable r \<noteq> None \<and> rq_consumable x = rq_consumable r)"

definition request_new_clean :: "estate \<Rightarrow> asset_request \<Rightarrow> flow_error + unit" where
  "request_new_clean db r =
     (let asset = Option.bind (rq_asset r) (find_asset db) in
      if (case asset of None \<Rightarrow> False | Some a \<Rightarrow> \<not> is_requestable db a) then Inl NotRequestable
      else if (case asset of None \<Rightarrow> False | Some a \<Rightarrow> is_disposed db (as_id a)) then Inl RequestOfDisposed
      else if (case Option.bind (rq_asset_type r) (\<lambda>t. find_row at_id t (es_types db)) of None \<Rightarrow> False | Some t \<Rightarrow> \<not> at_requestable t)
      then Inl NotRequestable
      else if (case asset of None \<Rightarrow> False | Some a \<Rightarrow> \<not> is_issuable db a) then Inl NotAvailable
      else Inr ())"

section \<open>Saving\<close>

definition request_model :: model_meta where
  "request_model = \<lparr>mm_scope_self = None, mm_lookup = None, mm_fields = [''id'', ''tenant''],
     mm_allow_global = False, mm_deny_global = False\<rparr>"

text \<open>\<open>AssetRequest.objects.for_scope(Scope.current())\<close>\<close>

definition scoped_requests :: "estate \<Rightarrow> instant \<Rightarrow> world \<Rightarrow> asset_request list \<times> world" where
  "scoped_requests db now w =
     (let live = filter (\<lambda>r. rq_deleted r = None) (es_requests db);
          (rows, w1) = filter_by_tenant (tenancy.truncate db) now request_model (map (\<lambda>r. asset_row (rq_id r) (rq_tenant r)) live) w
      in (filter (\<lambda>r. rq_id r \<in> set (map sr_id rows)) live, w1))"

text \<open>A save that names its columns stores the row as it is, a full save fills in the current tenant.\<close>

definition request_store :: "asset_request \<Rightarrow> estate \<Rightarrow> flow_error + estate" where
  "request_store r db = bindE (request_clean db r) (\<lambda>_. Inr (db\<lparr>es_requests := save_row rq_id r (es_requests db)\<rparr>))"

definition with_tenant :: "pk option \<Rightarrow> asset_request \<Rightarrow> asset_request" where
  "with_tenant ct r = (if rq_tenant r = None then r\<lparr>rq_tenant := ct\<rparr> else r)"

definition request_save :: "pk option \<Rightarrow> asset_request \<Rightarrow> estate \<Rightarrow> flow_error + estate" where
  "request_save ct r db = request_store (with_tenant ct r) db"

text \<open>The thresholds of the settings, none when they are not configured.\<close>

record thresholds =
  th_accessory :: int
  th_consumable :: int

definition auto_approve :: "estate \<Rightarrow> thresholds option \<Rightarrow> instant \<Rightarrow> asset_request \<Rightarrow> asset_request" where
  "auto_approve db th now r =
     (let approved = r\<lparr>rq_status := RequestApproved, rq_response_date := Some now, rq_response_notes :=
            ''Automatically approved because the quantity is within the configured threshold and sufficient stock is available.''\<rparr> in
      case th of
        None \<Rightarrow> r
      | Some t \<Rightarrow>
          if rq_status r \<noteq> RequestPending then r
          else
            (case (rq_accessory r, rq_consumable r) of
               (Some i, _) \<Rightarrow>
                 if rq_qty r \<le> th_accessory t \<and> available (inventory.truncate db) Accessory i \<ge> rq_qty r then approved else r
             | (None, Some i) \<Rightarrow>
                 if rq_qty r \<le> th_consumable t \<and> available (inventory.truncate db) Consumable i \<ge> rq_qty r then approved else r
             | (None, None) \<Rightarrow> r))"

definition request_create ::
    "thresholds option \<Rightarrow> pk option \<Rightarrow> bool \<Rightarrow> instant \<Rightarrow> asset_request \<Rightarrow> estate \<Rightarrow> world \<Rightarrow> (flow_error + asset_request \<times> estate) \<times> world" where
  "request_create th ct skip_duplicates now r db w =
     (let r1 = auto_approve db th now (with_tenant ct r) in
      case bindE (request_item_clean r1) (\<lambda>_. request_new_clean db r1) of
        Inl e \<Rightarrow> (Inl e, w)
      | Inr _ \<Rightarrow>
          (let (seen, w1) = (if skip_duplicates then ([], w) else scoped_requests db now w) in
           (bindE (require (\<not> (\<exists>x \<in> set seen. duplicates r1 x)) DuplicateRequest) (\<lambda>_.
            bindE (request_match_clean db r1) (\<lambda>_.
            bindE (request_ck r1) (\<lambda>_.
              let row = r1\<lparr>rq_id := next_id (map rq_id (es_requests db))\<rparr>
              in Inr (row, db\<lparr>es_requests := row # es_requests db\<rparr>)))), w1)))"

section \<open>Who may act\<close>

datatype request_action = ApproveAction | DenyAction | CancelAction | ClaimAction | FulfillAction | MarkFulfilledAction | BulkReceiveAction

fun REQUEST_ACTION_PERMISSIONS :: "request_action \<Rightarrow> string" where
  "REQUEST_ACTION_PERMISSIONS ApproveAction = ''assets.approve_assetrequest''"
| "REQUEST_ACTION_PERMISSIONS DenyAction = ''assets.approve_assetrequest''"
| "REQUEST_ACTION_PERMISSIONS CancelAction = ''assets.approve_assetrequest''"
| "REQUEST_ACTION_PERMISSIONS ClaimAction = ''assets.fulfill_assetrequest''"
| "REQUEST_ACTION_PERMISSIONS FulfillAction = ''assets.fulfill_assetrequest''"
| "REQUEST_ACTION_PERMISSIONS MarkFulfilledAction = ''assets.fulfill_assetrequest''"
| "REQUEST_ACTION_PERMISSIONS BulkReceiveAction = ''assets.fulfill_assetrequest''"

definition STAFF_BYPASS_ACTIONS :: "request_action list" where
  "STAFF_BYPASS_ACTIONS = [CancelAction, ClaimAction, MarkFulfilledAction]"

text \<open>\<open>holder_user\<close> is the account behind an asset holder.\<close>

definition is_self_service_action :: "(pk \<Rightarrow> pk option) \<Rightarrow> user \<Rightarrow> asset_request \<Rightarrow> request_action \<Rightarrow> bool" where
  "is_self_service_action holder_user u r act =
     (case act of
        CancelAction \<Rightarrow> rq_requester r = us_id u
      | ClaimAction \<Rightarrow> rq_requester r = us_id u \<or> Option.bind (rq_user r) holder_user = Some (us_id u)
      | _ \<Rightarrow> False)"

definition request_subject :: "estate \<Rightarrow> asset_request \<Rightarrow> subject" where
  "request_subject db r = \<lparr>ob_tenant = Option.bind (rq_tenant r) (\<lambda>t. find_row tn_id t (td_tenants db)), ob_self = None\<rparr>"

definition can_asset_request_action ::
    "(pk \<Rightarrow> pk option) \<Rightarrow> bool \<Rightarrow> estate \<Rightarrow> instant \<Rightarrow> user \<Rightarrow> asset_request \<Rightarrow> request_action \<Rightarrow> world \<Rightarrow> bool \<times> world" where
  "can_asset_request_action holder_user is_staff db now u r act w =
     (if \<not> us_authenticated u \<or> \<not> us_active u then (False, w)
      else if is_self_service_action holder_user u r act then (True, w)
      else if act \<in> set STAFF_BYPASS_ACTIONS \<and> is_staff then (True, w)
      else if rq_tenant r = None then (False, w)
      else has_perm (tenancy.truncate db) now u (REQUEST_ACTION_PERMISSIONS act) (Some (request_subject db r)) w)"

section \<open>Reviewing\<close>

definition scoped_request :: "estate \<Rightarrow> instant \<Rightarrow> pk \<Rightarrow> world \<Rightarrow> asset_request option \<times> world" where
  "scoped_request db now p w = (let (rows, w1) = scoped_requests db now w in (find_row rq_id p rows, w1))"

definition sub_requests :: "estate \<Rightarrow> pk \<Rightarrow> asset_request list" where
  "sub_requests db p = filter (\<lambda>r. rq_parent r = Some p \<and> rq_deleted r = None) (es_requests db)"

definition respond :: "request_status \<Rightarrow> pk option \<Rightarrow> instant \<Rightarrow> string \<Rightarrow> asset_request \<Rightarrow> asset_request" where
  "respond s actor now note r = r\<lparr>rq_status := s, rq_responded_by := actor, rq_response_date := Some now, rq_response_notes := note\<rparr>"

definition respond_children :: "pk option \<Rightarrow> request_status \<Rightarrow> pk option \<Rightarrow> instant \<Rightarrow> string \<Rightarrow> asset_request \<Rightarrow> estate \<Rightarrow> flow_error + estate" where
  "respond_children ct s actor now note r db =
     (if rq_group r
      then each (\<lambda>c. request_save ct (respond s actor now note c)) (filter (\<lambda>c. rq_status c = RequestPending) (sub_requests db (rq_id r))) db
      else Inr db)"

definition allocate_asset :: "estate \<Rightarrow> pk option \<Rightarrow> asset_request \<Rightarrow> flow_error + asset_request" where
  "allocate_asset db allocated r =
     (case Option.bind allocated (find_asset db) of
        None \<Rightarrow> Inr r
      | Some a \<Rightarrow>
          if \<not> is_requestable db a then Inl NotRequestable
          else if \<not> is_issuable db a then Inl NotAvailable
          else if rq_asset_type r \<noteq> None \<and> as_type a \<noteq> rq_asset_type r then Inl RequestTypeMismatch
          else Inr (r\<lparr>rq_asset := Some (as_id a)\<rparr>))"

definition adjust_quantity :: "int option \<Rightarrow> asset_request \<Rightarrow> flow_error + asset_request" where
  "adjust_quantity qty r =
     (case qty of
        None \<Rightarrow> Inr r
      | Some q \<Rightarrow>
          if rq_component r = None \<and> rq_accessory r = None \<and> rq_consumable r = None then Inr r
          else if q \<le> 0 then Inl NonPositiveQuantity
          else if q > rq_qty r then Inl QuantityExceedsRequest
          else Inr (r\<lparr>rq_qty := q\<rparr>))"

definition approve_asset_request ::
    "pk option \<Rightarrow> pk \<Rightarrow> pk option \<Rightarrow> int option \<Rightarrow> string \<Rightarrow> pk option \<Rightarrow> instant \<Rightarrow> estate \<Rightarrow> world \<Rightarrow> (flow_error + estate) \<times> world" where
  "approve_asset_request ct p allocated qty note actor now db w =
     (case scoped_request db now p w of
        (None, w1) \<Rightarrow> (Inl RequestMissing, w1)
      | (Some r, w1) \<Rightarrow>
          (if rq_status r \<noteq> RequestPending then Inl RequestNotPending
           else bindE (allocate_asset db allocated r) (\<lambda>r1.
                bindE (adjust_quantity qty r1) (\<lambda>r2.
                bindE (request_save ct (respond RequestApproved actor now note r2) db) (\<lambda>db1.
                  respond_children ct RequestApproved actor now note r db1))), w1))"

definition deny_asset_request ::
    "pk option \<Rightarrow> pk \<Rightarrow> string \<Rightarrow> pk option \<Rightarrow> instant \<Rightarrow> estate \<Rightarrow> world \<Rightarrow> (flow_error + estate) \<times> world" where
  "deny_asset_request ct p note actor now db w =
     (case scoped_request db now p w of
        (None, w1) \<Rightarrow> (Inl RequestMissing, w1)
      | (Some r, w1) \<Rightarrow>
          (if rq_status r \<noteq> RequestPending then Inl RequestNotPending
           else bindE (request_save ct (respond RequestDenied actor now note r) db) (\<lambda>db1.
                  respond_children ct RequestDenied actor now note r db1), w1))"

section \<open>Fulfillment links\<close>

definition find_line :: "estate \<Rightarrow> pk \<Rightarrow> po_line option" where
  "find_line db p = find_row pl_id p (es_lines db)"

definition find_order :: "estate \<Rightarrow> pk \<Rightarrow> purchase_order option" where
  "find_order db p = find_row pu_id p (es_orders db)"

text \<open>\<open>clean\<close> of a link runs on every save of it.\<close>

definition link_clean :: "estate \<Rightarrow> fulfillment_link \<Rightarrow> flow_error + unit" where
  "link_clean db l =
     (let line = find_line db (fl_line l);
          tenants = [fl_tenant l, Option.bind (find_request db (fl_request l)) rq_tenant, Option.bind line pl_tenant,
                     Option.bind (Option.bind line (\<lambda>x. find_order db (pl_order x))) pu_tenant]
      in require (\<forall>t \<in> set tenants. t \<noteq> None \<and> t = fl_tenant l) LinkTenants)"

definition link_save :: "fulfillment_link \<Rightarrow> estate \<Rightarrow> flow_error + estate" where
  "link_save l db = bindE (link_clean db l) (\<lambda>_. Inr (db\<lparr>es_links := save_row fl_id l (es_links db)\<rparr>))"

definition link_delete :: "instant \<Rightarrow> fulfillment_link \<Rightarrow> estate \<Rightarrow> flow_error + estate" where
  "link_delete now l = link_save (l\<lparr>fl_deleted := Some now\<rparr>)"

definition live_links :: "estate \<Rightarrow> (fulfillment_link \<Rightarrow> bool) \<Rightarrow> fulfillment_link list" where
  "live_links db P = filter (\<lambda>l. fl_deleted l = None \<and> P l) (sort_key fl_id (es_links db))"

definition lock_unit_fulfillment_links :: "estate \<Rightarrow> pk list \<Rightarrow> fulfillment_link list" where
  "lock_unit_fulfillment_links db ps = live_links db (\<lambda>l. fl_request l \<in> set ps)"

definition release_fulfillment_links :: "instant \<Rightarrow> pk list \<Rightarrow> estate \<Rightarrow> flow_error + estate" where
  "release_fulfillment_links now ps db = each (link_delete now) (lock_unit_fulfillment_links db ps) db"

section \<open>Cancelling\<close>

definition by_request_date :: "asset_request list \<Rightarrow> asset_request list" where
  "by_request_date rows = sort_key rq_date (sort_key rq_id rows)"

definition initiated_checkout :: "estate \<Rightarrow> asset_request \<Rightarrow> bool" where
  "initiated_checkout db r \<longleftrightarrow> rq_status r = RequestApproved \<and>
     (case rq_asset r of None \<Rightarrow> False | Some p \<Rightarrow> active_assignment db p \<noteq> None)"

definition cancel_locked_request :: "pk option \<Rightarrow> instant \<Rightarrow> asset_request \<Rightarrow> estate \<Rightarrow> flow_error + estate" where
  "cancel_locked_request ct now r db =
     (if \<not> open_status (rq_status r) then Inl RequestNotCancellable
      else if initiated_checkout db r then Inl CheckoutInitiated
      else bindE (request_save ct (r\<lparr>rq_status := RequestCancelled\<rparr>) db) (\<lambda>db1.
        let children = (if rq_group r
              then by_request_date (filter (\<lambda>c. rq_status c \<notin> {RequestCancelled, RequestFulfilled}) (sub_requests db1 (rq_id r))) else []) in
        bindE (each (\<lambda>c. request_save ct (c\<lparr>rq_status := RequestCancelled\<rparr>)) children db1) (\<lambda>db2.
          release_fulfillment_links now (map rq_id (r # children)) db2)))"

definition cancel_asset_request :: "bool \<Rightarrow> pk option \<Rightarrow> instant \<Rightarrow> pk \<Rightarrow> estate \<Rightarrow> world \<Rightarrow> (flow_error + estate) \<times> world" where
  "cancel_asset_request allowed ct now p db w =
     (if \<not> allowed then (Inl PermissionRefused, w)
      else (case scoped_request db now p w of
              (None, w1) \<Rightarrow> (Inl RequestMissing, w1)
            | (Some r, w1) \<Rightarrow> (cancel_locked_request ct now r db, w1)))"

section \<open>Manual completion\<close>

text \<open>The audit row that proves a completion; one list for all requests, newest first.\<close>

datatype fulfillment_method = ManualMethod | CheckoutMethod

record evidence =
  ev_tenant :: "pk option"
  ev_request :: pk
  ev_method :: fulfillment_method

definition get_request_fulfillment_evidence :: "evidence list \<Rightarrow> asset_request \<Rightarrow> evidence option" where
  "get_request_fulfillment_evidence trail r = List.find (\<lambda>e. ev_tenant e = rq_tenant r \<and> ev_request e = rq_id r) trail"

definition completion_conflicts :: "evidence option \<Rightarrow> fulfillment_method \<Rightarrow> bool" where
  "completion_conflicts e m = (case e of None \<Rightarrow> False | Some x \<Rightarrow> ev_method x \<noteq> m)"

definition mark_completed :: "pk option \<Rightarrow> pk option \<Rightarrow> instant \<Rightarrow> string \<Rightarrow> asset_request \<Rightarrow> evidence list \<times> estate \<Rightarrow> flow_error + evidence list \<times> estate" where
  "mark_completed ct actor now note r s =
     (let r1 = with_tenant ct (r\<lparr>rq_status := RequestFulfilled, rq_response_date := Some now, rq_responded_by := actor,
                                 rq_response_notes := note\<rparr>)
      in map_sum (\<lambda>e. e) (\<lambda>db1. (\<lparr>ev_tenant = rq_tenant r1, ev_request = rq_id r1, ev_method = ManualMethod\<rparr> # fst s, db1))
           (request_store r1 (snd s)))"

definition append_note :: "string \<Rightarrow> string \<Rightarrow> string" where
  "append_note old note = (let old = py_strip old in if old = [] then note else py_strip (old @ [CHR 0x0A] @ note))"

definition TERMINAL_STATUSES :: "request_status list" where
  "TERMINAL_STATUSES = [RequestFulfilled, RequestDenied, RequestCancelled]"

definition manually_complete_unit :: "pk option \<Rightarrow> pk option \<Rightarrow> instant \<Rightarrow> string \<Rightarrow> asset_request \<Rightarrow> evidence list \<times> estate \<Rightarrow> flow_error + evidence list \<times> estate" where
  "manually_complete_unit ct actor now reason r s =
     (if completion_conflicts (get_request_fulfillment_evidence (fst s) r) ManualMethod then Inl EvidenceExists
      else mark_completed ct actor now (append_note (rq_response_notes r) (''Manual completion reason: '' @ reason)) r s)"

text \<open>Units are read in primary-key order; the group is closed when none of its units stays open.\<close>

definition manually_complete_group :: "pk option \<Rightarrow> pk option \<Rightarrow> instant \<Rightarrow> string \<Rightarrow> asset_request \<Rightarrow> evidence list \<times> estate \<Rightarrow> flow_error + evidence list \<times> estate" where
  "manually_complete_group ct actor now reason r s =
     (let children = sort_key rq_id (filter (\<lambda>c. rq_tenant c = rq_tenant r) (sub_requests (snd s) (rq_id r)));
          open_units = filter (\<lambda>c. rq_status c \<notin> set TERMINAL_STATUSES) children in
      if children = [] then Inl GroupWithoutUnits
      else if \<exists>c \<in> set open_units. rq_status c \<noteq> RequestApproved then Inl UnitNotApproved
      else if open_units = [] then Inl GroupNotCompletable
      else bindE (each (manually_complete_unit ct actor now reason) open_units s) (\<lambda>(trail, db1).
             map_sum (\<lambda>e. e) (\<lambda>db2. (trail, db2))
               (request_store (respond RequestFulfilled actor now
                  (append_note (rq_response_notes r) (''Group manually completed without handover. Reason: '' @ reason)) r) db1)))"

definition manually_complete_request ::
    "pk option \<Rightarrow> pk option \<Rightarrow> string \<Rightarrow> bool \<Rightarrow> instant \<Rightarrow> pk \<Rightarrow> evidence list \<times> estate \<Rightarrow> world
       \<Rightarrow> (flow_error + evidence list \<times> estate) \<times> world" where
  "manually_complete_request ct actor reason confirmed now p s w =
     (let reason = py_strip reason in
      if actor = None then (Inl ActorMissing, w)
      else if reason = [] then (Inl ReasonMissing, w)
      else if \<not> confirmed then (Inl NotConfirmed, w)
      else
        (case scoped_request (snd s) now p w of
           (None, w1) \<Rightarrow> (Inl RequestMissing, w1)
         | (Some r, w1) \<Rightarrow>
             (if rq_status r \<noteq> RequestApproved then Inl RequestNotApproved
              else if rq_group r then manually_complete_group ct actor now reason r s
              else manually_complete_unit ct actor now reason r s, w1)))"

end
