(* ===== verification/Orders.thy ===== *)
theory Orders
  imports Requests
begin

text \<open>
  Purchase orders: \<^verbatim>\<open>procurement/services.py\<close> over the models of \<^verbatim>\<open>procurement/models.py\<close>.  Each service
  locks the rows it changes and is one transaction.  Managers of these models hide deleted rows and
  apply no tenant scope.
\<close>

section \<open>The transition table\<close>

datatype order_action = ApproveOrder | PlaceOrder | ReceiveOrder | CancelOrder | ReopenOrder

fun PURCHASE_ORDER_TRANSITIONS :: "order_action \<Rightarrow> order_status \<Rightarrow> order_status list" where
  "PURCHASE_ORDER_TRANSITIONS ApproveOrder OrderDraft = [OrderApproved]"
| "PURCHASE_ORDER_TRANSITIONS PlaceOrder OrderApproved = [OrderOrdered]"
| "PURCHASE_ORDER_TRANSITIONS ReceiveOrder OrderOrdered = [OrderPartial, OrderReceived]"
| "PURCHASE_ORDER_TRANSITIONS ReceiveOrder OrderPartial = [OrderPartial, OrderReceived]"
| "PURCHASE_ORDER_TRANSITIONS CancelOrder OrderDraft = [OrderCancelled]"
| "PURCHASE_ORDER_TRANSITIONS CancelOrder OrderApproved = [OrderCancelled]"
| "PURCHASE_ORDER_TRANSITIONS CancelOrder OrderOrdered = [OrderCancelled]"
| "PURCHASE_ORDER_TRANSITIONS ReopenOrder OrderCancelled = [OrderDraft]"
| "PURCHASE_ORDER_TRANSITIONS _ _ = []"

definition lock_purchase_order :: "estate \<Rightarrow> pk \<Rightarrow> flow_error + purchase_order" where
  "lock_purchase_order db p =
     (case find_order db p of
        None \<Rightarrow> Inl OrderMissing
      | Some po \<Rightarrow> if pu_deleted po = None then Inr po else Inl OrderMissing)"

definition validate_purchase_order_transition :: "purchase_order \<Rightarrow> order_action \<Rightarrow> flow_error + unit" where
  "validate_purchase_order_transition po act = require (PURCHASE_ORDER_TRANSITIONS act (pu_status po) \<noteq> []) (OrderTransition (pu_status po))"

definition validate_receipt_transition :: "purchase_order \<Rightarrow> order_status \<Rightarrow> flow_error + bool" where
  "validate_receipt_transition po submitted =
     (if pu_status po = OrderReceived \<and> submitted \<in> {OrderOrdered, OrderPartial} then Inr True
      else bindE (validate_purchase_order_transition po ReceiveOrder) (\<lambda>_. Inr False))"

definition order_save :: "purchase_order \<Rightarrow> estate \<Rightarrow> estate" where
  "order_save po db = db\<lparr>es_orders := save_row pu_id po (es_orders db)\<rparr>"

definition transition_purchase_order :: "purchase_order \<Rightarrow> order_action \<Rightarrow> order_status option \<Rightarrow> estate \<Rightarrow> flow_error + estate" where
  "transition_purchase_order po act target db =
     bindE (validate_purchase_order_transition po act) (\<lambda>_.
     let allowed = PURCHASE_ORDER_TRANSITIONS act (pu_status po) in
     (case target of
        None \<Rightarrow> (case allowed of [s] \<Rightarrow> Inr (order_save (po\<lparr>pu_status := s\<rparr>) db) | _ \<Rightarrow> Inl AmbiguousTarget)
      | Some s \<Rightarrow> if s \<in> set allowed then Inr (order_save (po\<lparr>pu_status := s\<rparr>) db) else Inl (OrderTransition (pu_status po))))"

section \<open>Lines\<close>

definition order_lines :: "estate \<Rightarrow> pk \<Rightarrow> po_line list" where
  "order_lines db p = sort_key pl_id (filter (\<lambda>l. pl_order l = p \<and> pl_deleted l = None) (es_lines db))"

definition line_outstanding :: "po_line \<Rightarrow> int" where
  "line_outstanding l = max 0 (pl_ordered l - pl_received l)"

definition line_clean :: "po_line \<Rightarrow> flow_error + unit" where
  "line_clean l =
     (let filled = length (filter (\<lambda>x. x \<noteq> None) [pl_asset_type l, pl_component l, pl_accessory l, pl_consumable l, pl_license l]) in
      if filled = 0 then Inl LineWithoutItem else if filled > 1 then Inl LineWithSeveralItems else Inr ())"

definition line_save :: "po_line \<Rightarrow> estate \<Rightarrow> flow_error + estate" where
  "line_save l db = bindE (line_clean l) (\<lambda>_. Inr (db\<lparr>es_lines := save_row pl_id l (es_lines db)\<rparr>))"

section \<open>Linking a request\<close>

definition order_subject :: "estate \<Rightarrow> purchase_order \<Rightarrow> subject" where
  "order_subject db po = \<lparr>ob_tenant = Option.bind (pu_tenant po) (\<lambda>t. find_row tn_id t (td_tenants db)), ob_self = None\<rparr>"

definition lock_asset_request_for_purchase_order :: "estate \<Rightarrow> pk \<Rightarrow> purchase_order \<Rightarrow> flow_error + asset_request" where
  "lock_asset_request_for_purchase_order db p po =
     (case find_request db p of
        None \<Rightarrow> Inl RequestMissing
      | Some r \<Rightarrow> if rq_tenant r = pu_tenant po \<and> rq_deleted r = None then Inr r else Inl RequestMissing)"

definition requested_item :: "asset_request \<Rightarrow> pk option list" where
  "requested_item r = [rq_asset_type r, rq_component r, rq_accessory r, rq_consumable r]"

definition lock_fulfillment_targets :: "estate \<Rightarrow> asset_request \<Rightarrow> flow_error + asset_request list" where
  "lock_fulfillment_targets db r =
     (if rq_parent r \<noteq> None then Inl ChildOfGroup
      else if \<not> rq_group r then Inr [r]
      else
        (let targets = sort_key rq_id (filter (\<lambda>c. rq_parent c = Some (rq_id r) \<and> rq_tenant c = rq_tenant r \<and> rq_deleted c = None) (es_requests db))
         in if targets = [] \<or> sum_list (map rq_qty targets) \<noteq> rq_qty r \<or> (\<exists>c \<in> set targets. requested_item c \<noteq> requested_item r)
            then Inl GroupMismatch else Inr targets))"

definition existing_fulfillment_link :: "estate \<Rightarrow> asset_request \<Rightarrow> asset_request list \<Rightarrow> purchase_order \<Rightarrow> flow_error + fulfillment_link option" where
  "existing_fulfillment_link db r targets po =
     (let ids = map rq_id targets;
          links = live_links db (\<lambda>l. fl_request l \<in> set (rq_id r # ids)) in
      case links of
        [] \<Rightarrow> Inr None
      | l # _ \<Rightarrow>
          if \<exists>x \<in> set links. map_option pl_order (find_line db (fl_line x)) \<noteq> Some (pu_id po) then Inl LinkedElsewhere
          else if fl_request ` set links \<noteq> set ids \<or> (\<exists>x \<in> set links. fl_line x \<noteq> fl_line l) then Inl PartlyLinked
          else Inr (Some l))"

definition new_line :: "estate \<Rightarrow> purchase_order \<Rightarrow> asset_request \<Rightarrow> po_line" where
  "new_line db po r = \<lparr>pl_id = next_id (map pl_id (es_lines db)), pl_tenant = pu_tenant po, pl_order = pu_id po,
     pl_asset_type = rq_asset_type r, pl_component = rq_component r, pl_accessory = rq_accessory r,
     pl_consumable = rq_consumable r, pl_license = None, pl_ordered = rq_qty r, pl_received = 0, pl_unit_price = None,
     pl_deleted = None\<rparr>"

text \<open>One link and the status of its request; \<open>full_clean\<close> also checks the unique constraint.\<close>

definition link_target :: "purchase_order \<Rightarrow> pk \<Rightarrow> asset_request \<Rightarrow> estate \<Rightarrow> flow_error + estate" where
  "link_target po line r db =
     (let l = \<lparr>fl_id = next_id (map fl_id (es_links db)), fl_tenant = pu_tenant po, fl_request = rq_id r, fl_line = line,
               fl_allocated = rq_qty r, fl_received = Some 0, fl_deleted = None\<rparr> in
      bindE (link_clean db l) (\<lambda>_.
      if \<exists>x \<in> set (es_links db). fl_deleted x = None \<and> fl_request x = rq_id r \<and> fl_line x = line then Inl DuplicateLink
      else request_store (r\<lparr>rq_status := RequestProcurement\<rparr>) (db\<lparr>es_links := es_links db @ [l]\<rparr>)))"

definition create_fulfillment_link :: "purchase_order \<Rightarrow> asset_request \<Rightarrow> asset_request list \<Rightarrow> estate \<Rightarrow> flow_error + estate" where
  "create_fulfillment_link po r targets db =
     (let line = new_line db po r in
      bindE (line_clean line) (\<lambda>_.
      bindE (each (link_target po (pl_id line)) targets (db\<lparr>es_lines := es_lines db @ [line]\<rparr>)) (\<lambda>db1.
        if rq_id r \<in> set (map rq_id targets) then Inr db1
        else request_store (r\<lparr>rq_status := RequestProcurement\<rparr>) db1)))"

text \<open>The checks once both rows are locked and the user was found to be allowed.\<close>

definition link_locked :: "purchase_order \<Rightarrow> asset_request \<Rightarrow> estate \<Rightarrow> flow_error + estate" where
  "link_locked po r db =
     bindE (lock_fulfillment_targets db r) (\<lambda>targets.
     bindE (existing_fulfillment_link db r targets po) (\<lambda>found.
       if found \<noteq> None then Inr db
       else if \<exists>t \<in> set targets. rq_asset_type t \<noteq> None \<and> rq_qty t > 1 then Inl SeveralSerialisedUnits
       else if pu_status po \<noteq> OrderDraft then Inl OrderNotDraft
       else if rq_status r \<noteq> RequestApproved \<or> (\<exists>t \<in> set targets. rq_status t \<noteq> RequestApproved) then Inl RequestNotApproved
       else create_fulfillment_link po r targets db))"

definition link_asset_request_to_purchase_order ::
    "pk \<Rightarrow> pk \<Rightarrow> user option \<Rightarrow> instant \<Rightarrow> estate \<Rightarrow> world \<Rightarrow> (flow_error + estate) \<times> world" where
  "link_asset_request_to_purchase_order p rid u now db w =
     (case bindE (lock_purchase_order db p) (\<lambda>po. if pu_tenant po = None then Inl OrderWithoutTenant else Inr po) of
        Inl e \<Rightarrow> (Inl e, w)
      | Inr po \<Rightarrow>
          (case u of
             None \<Rightarrow> (Inl PermissionRefused, w)
           | Some usr \<Rightarrow>
               (let (may, w1) = has_perm (tenancy.truncate db) now usr ''procurement.change_purchaseorder'' (Some (order_subject db po)) w in
                if \<not> may then (Inl PermissionRefused, w1)
                else
                  (case lock_asset_request_for_purchase_order db rid po of
                     Inl e \<Rightarrow> (Inl e, w1)
                   | Inr r \<Rightarrow>
                       (let (may, w2) = has_perm (tenancy.truncate db) now usr ''assets.fulfill_assetrequest'' (Some (request_subject db r)) w1
                        in if \<not> may then (Inl PermissionRefused, w2) else (link_locked po r db, w2))))))"

section \<open>Receiving\<close>

record asset_detail =
  ad_line :: pk
  ad_name :: string
  ad_serial :: string
  ad_tag :: string

record receipt =
  re_quantities :: "(pk \<times> int) list"
  re_details :: "asset_detail list"
  re_expected :: "(pk \<times> int) list"

definition received_qty :: "receipt \<Rightarrow> pk \<Rightarrow> int" where
  "received_qty rc p = (case map_of (re_quantities rc) p of None \<Rightarrow> 0 | Some q \<Rightarrow> q)"

fun assert_receipt_state :: "receipt \<Rightarrow> po_line list \<Rightarrow> flow_error + unit" where
  "assert_receipt_state rc [] = Inr ()"
| "assert_receipt_state rc (l # ls) =
     (if received_qty rc (pl_id l) \<le> 0 then assert_receipt_state rc ls
      else (case map_of (re_expected rc) (pl_id l) of
              None \<Rightarrow> Inl UnstatedReceipt
            | Some e \<Rightarrow> if pl_received l \<noteq> e then Inl StaleReceipt else assert_receipt_state rc ls))"

subsection \<open>Stock rows\<close>

text \<open>\<open>objects.get_or_create\<close> on live rows.\<close>

definition ensure_stock_row :: "item_kind \<Rightarrow> pk \<Rightarrow> pk \<Rightarrow> estate \<Rightarrow> flow_error + estate" where
  "ensure_stock_row k l i db =
     (if \<exists>p \<in> set (iv_pools db). pool_of k i l p \<and> po_deleted p = None then Inr db
      else (case location_tenant (inventory.truncate db) l of
              None \<Rightarrow> Inl (StockProblem StockLocationWithoutTenant)
            | Some t \<Rightarrow> Inr (db\<lparr>iv_pools := iv_pools db @
                 [\<lparr>po_kind = k, po_id = next_id (map po_id (iv_pools db)), po_item = i, po_location = l, po_tenant = t,
                   po_qty = 0, po_deleted = None\<rparr>]\<rparr>)))"

definition line_item :: "item_kind \<Rightarrow> po_line \<Rightarrow> pk option" where
  "line_item k l = (case k of Component \<Rightarrow> pl_component l | Accessory \<Rightarrow> pl_accessory l | Consumable \<Rightarrow> pl_consumable l)"

definition items_received :: "receipt \<Rightarrow> po_line list \<Rightarrow> item_kind \<Rightarrow> pk list" where
  "items_received rc lines k =
     sort (remdups (concat (map (\<lambda>l. case line_item k l of None \<Rightarrow> [] | Some i \<Rightarrow> if received_qty rc (pl_id l) > 0 then [i] else []) lines)))"

definition lock_receipt_stock_rows :: "receipt \<Rightarrow> po_line list \<Rightarrow> pk \<Rightarrow> estate \<Rightarrow> flow_error + estate" where
  "lock_receipt_stock_rows rc lines loc db =
     bindE (each (ensure_stock_row Component loc) (items_received rc lines Component) db) (\<lambda>db1.
     bindE (each (ensure_stock_row Accessory loc) (items_received rc lines Accessory) db1)
       (each (ensure_stock_row Consumable loc) (items_received rc lines Consumable)))"

definition grow_stock_row :: "item_kind \<Rightarrow> pk \<Rightarrow> pk \<Rightarrow> int \<Rightarrow> estate \<Rightarrow> flow_error + estate" where
  "grow_stock_row k i l qty db =
     (case List.find (\<lambda>p. pool_of k i l p \<and> po_deleted p = None) (iv_pools db) of
        None \<Rightarrow> Inl (StockProblem RowMissing)
      | Some p \<Rightarrow>
          if location_tenant (inventory.truncate db) l = None then Inl (StockProblem StockLocationWithoutTenant)
          else Inr (db\<lparr>iv_pools := set_pool_qty p (po_qty p + qty) (iv_pools db)\<rparr>))"

subsection \<open>Attribution to requests\<close>

definition link_outstanding :: "fulfillment_link \<Rightarrow> int" where
  "link_outstanding l = max 0 (fl_allocated l - (case fl_received l of None \<Rightarrow> 0 | Some q \<Rightarrow> q))"

definition lock_line_fulfillment_links :: "estate \<Rightarrow> pk \<Rightarrow> (asset_request \<times> fulfillment_link) list" where
  "lock_line_fulfillment_links db line =
     (let links = live_links db (\<lambda>l. fl_line l = line);
          pairs = concat (map (\<lambda>l. case find_request db (fl_request l) of
                    None \<Rightarrow> [] | Some r \<Rightarrow> if rq_deleted r = None then [(r, l)] else []) links)
      in sort_key (\<lambda>(r, l). rq_date r) (sort_key (\<lambda>(r, l). rq_id r) pairs))"

definition receivable_fulfillment_pairs :: "estate \<Rightarrow> pk \<Rightarrow> (asset_request \<times> fulfillment_link) list" where
  "receivable_fulfillment_pairs db line =
     filter (\<lambda>(r, l). rq_status r = RequestProcurement \<and> rq_asset r = None \<and> link_outstanding l > 0) (lock_line_fulfillment_links db line)"

definition approve_group_parent :: "asset_request \<Rightarrow> estate \<Rightarrow> flow_error + estate" where
  "approve_group_parent parent db =
     (if \<exists>c \<in> set (es_requests db). rq_parent c = Some (rq_id parent) \<and> rq_status c = RequestProcurement \<and> rq_deleted c = None
      then Inr db else request_store (parent\<lparr>rq_status := RequestApproved\<rparr>) db)"

definition approve_completed_group_parents :: "asset_request list \<Rightarrow> estate \<Rightarrow> flow_error + estate" where
  "approve_completed_group_parents linked db =
     (let parents = filter (\<lambda>r. Some (rq_id r) \<in> set (map rq_parent linked) \<and> rq_status r = RequestProcurement \<and> rq_deleted r = None)
                      (es_requests db)
      in each approve_group_parent parents db)"

fun attribute_pairs :: "(asset_request \<times> fulfillment_link) list \<Rightarrow> int \<Rightarrow> estate \<Rightarrow> flow_error + asset_request list \<times> estate" where
  "attribute_pairs [] remaining db = Inr ([], db)"
| "attribute_pairs ((r, l) # rest) remaining db =
     (if remaining \<le> 0 then Inr ([], db)
      else
        (let attributed = min (link_outstanding l) remaining;
             l1 = l\<lparr>fl_received := Some ((case fl_received l of None \<Rightarrow> 0 | Some q \<Rightarrow> q) + attributed)\<rparr> in
         bindE (link_save l1 db) (\<lambda>db1.
         bindE (if link_outstanding l1 = 0 then request_store (r\<lparr>rq_status := RequestApproved\<rparr>) db1 else Inr db1) (\<lambda>db2.
         bindE (attribute_pairs rest (remaining - attributed) db2) (\<lambda>(touched, db3). Inr (r # touched, db3))))))"

definition attribute_quantity_receipt :: "pk \<Rightarrow> int \<Rightarrow> estate \<Rightarrow> flow_error + estate" where
  "attribute_quantity_receipt line qty db =
     bindE (attribute_pairs (receivable_fulfillment_pairs db line) qty db) (\<lambda>(touched, db1). approve_completed_group_parents touched db1)"

subsection \<open>Lines\<close>

definition receive_stock_line :: "po_line \<Rightarrow> int \<Rightarrow> pk \<Rightarrow> estate \<Rightarrow> flow_error + estate" where
  "receive_stock_line line qty loc db =
     (let grow = (\<lambda>k i. bindE (grow_stock_row k i loc qty db) (attribute_quantity_receipt (pl_id line) qty)) in
      case pl_component line of
        Some i \<Rightarrow> grow Component i
      | None \<Rightarrow>
          (case pl_accessory line of
             Some i \<Rightarrow> grow Accessory i
           | None \<Rightarrow> (case pl_consumable line of Some i \<Rightarrow> grow Consumable i | None \<Rightarrow> Inr db)))"

definition received_asset :: "estate \<Rightarrow> asset_detail option \<Rightarrow> po_line \<Rightarrow> purchase_order \<Rightarrow> pk \<Rightarrow> date \<Rightarrow> asset" where
  "received_asset db detail line po label today =
     (let type_name = (case Option.bind (pl_asset_type line) (\<lambda>t. find_row at_id t (es_types db)) of None \<Rightarrow> [] | Some t \<Rightarrow> at_name t) in
      \<lparr>as_id = 0, as_tenant = pu_tenant po, as_type = pl_asset_type line,
       as_name = py_strip (case detail of Some d \<Rightarrow> (if ad_name d = [] then type_name else ad_name d) | None \<Rightarrow> type_name),
       as_tag = (case detail of Some d \<Rightarrow> py_strip (ad_tag d) | None \<Rightarrow> []),
       as_serial = (case detail of Some d \<Rightarrow> py_strip (ad_serial d) | None \<Rightarrow> []),
       as_status = Some label, as_location = Some (pu_location po), as_cost_center = None, as_line = Some (pl_id line),
       as_purchase_cost = pl_unit_price line, as_salvage_value = None, as_currency = pu_currency po, as_purchase_date = Some today,
       as_in_service_date = None, as_override = None, as_requestable = None, as_disposed_at = None, as_disposal_value = None,
       as_deleted = None\<rparr>)"

text \<open>What the code around a receipt contributes: the current tenant of full saves, concurrent tag allocations
  per created asset, and the day.\<close>

record receipt_context =
  rx_tenant :: "pk option"
  rx_others :: "(tag_sequence list \<Rightarrow> tag_sequence list) list"
  rx_today :: date

definition allocate_unit :: "receipt_context \<Rightarrow> asset \<Rightarrow> asset_request \<Rightarrow> fulfillment_link \<Rightarrow> estate \<Rightarrow> flow_error + estate" where
  "allocate_unit cx a r l db =
     (let received = (case fl_received l of None \<Rightarrow> 0 | Some q \<Rightarrow> q) + 1;
          r1 = r\<lparr>rq_asset := Some (as_id a), rq_status := (if received \<ge> fl_allocated l then RequestApproved else rq_status r)\<rparr> in
      bindE (request_save (rx_tenant cx) r1 db) (link_save (l\<lparr>fl_received := Some received\<rparr>)))"

text \<open>One unit per step: the remaining count, the details and the waiting pairs, and the requests served so far.\<close>

fun receive_units ::
    "receipt_context \<Rightarrow> po_line \<Rightarrow> purchase_order \<Rightarrow> pk \<Rightarrow> nat \<Rightarrow> asset_detail list \<Rightarrow> (asset_request \<times> fulfillment_link) list \<Rightarrow> estate
       \<Rightarrow> flow_error + asset_request list \<times> estate" where
  "receive_units cx line po label 0 details pairs db = Inr ([], db)"
| "receive_units cx line po label (Suc n) details pairs db =
     bindE (map_sum AssetProblem (\<lambda>x. x)
       (asset_create (rx_others cx)
          (received_asset db (case details of [] \<Rightarrow> None | d # _ \<Rightarrow> Some d) line po label (rx_today cx)) db)) (\<lambda>(a, db1).
     (case pairs of
        [] \<Rightarrow> receive_units cx line po label n (tl details) [] db1
      | (r, l) # rest \<Rightarrow>
          bindE (allocate_unit cx a r l db1) (\<lambda>db2.
          bindE (receive_units cx line po label n (tl details) rest db2) (\<lambda>(served, db3). Inr (r # served, db3)))))"

definition receive_asset_line ::
    "receipt_context \<Rightarrow> po_line \<Rightarrow> int \<Rightarrow> asset_detail list \<Rightarrow> purchase_order \<Rightarrow> pk \<Rightarrow> estate \<Rightarrow> flow_error + estate" where
  "receive_asset_line cx line qty details po label db =
     bindE (receive_units cx line po label (nat qty) details (receivable_fulfillment_pairs db (pl_id line)) db)
       (\<lambda>(served, db1). approve_completed_group_parents served db1)"

definition receive_line :: "receipt_context \<Rightarrow> receipt \<Rightarrow> purchase_order \<Rightarrow> pk \<Rightarrow> po_line \<Rightarrow> estate \<Rightarrow> flow_error + estate" where
  "receive_line cx rc po label line db =
     (let qty = received_qty rc (pl_id line) in
      if qty \<le> 0 then Inr db
      else if qty > line_outstanding line then Inl ExceedsOutstanding
      else
        bindE (if pl_asset_type line \<noteq> None
               then receive_asset_line cx line qty (filter (\<lambda>d. ad_line d = pl_id line) (re_details rc)) po label db
               else receive_stock_line line qty (pu_location po) db)
          (line_save (line\<lparr>pl_received := pl_received line + qty\<rparr>)))"

definition still_outstanding :: "receipt \<Rightarrow> po_line \<Rightarrow> bool" where
  "still_outstanding rc l \<longleftrightarrow> line_outstanding (l\<lparr>pl_received := pl_received l + max 0 (received_qty rc (pl_id l))\<rparr>) > 0"

definition receive_locked :: "receipt_context \<Rightarrow> receipt \<Rightarrow> order_status \<Rightarrow> purchase_order \<Rightarrow> estate \<Rightarrow> flow_error + estate" where
  "receive_locked cx rc submitted po db =
     bindE (validate_receipt_transition po submitted) (\<lambda>completed_concurrently.
     let lines = order_lines db (pu_id po) in
     bindE (assert_receipt_state rc lines) (\<lambda>_.
     bindE (if completed_concurrently then validate_purchase_order_transition po ReceiveOrder else Inr ()) (\<lambda>_.
     (case first_label db DEPLOYABLE of
        None \<Rightarrow> Inl NoDeployableLabel
      | Some label \<Rightarrow>
          bindE (lock_receipt_stock_rows rc lines (pu_location po) db) (\<lambda>db1.
          bindE (each (receive_line cx rc po label) lines db1)
            (transition_purchase_order po ReceiveOrder
               (Some (if \<exists>l \<in> set lines. still_outstanding rc l then OrderPartial else OrderReceived))))))))"

definition receive_purchase_order :: "receipt_context \<Rightarrow> receipt \<Rightarrow> order_status \<Rightarrow> pk \<Rightarrow> estate \<Rightarrow> flow_error + estate" where
  "receive_purchase_order cx rc submitted p db =
     bindE (lock_purchase_order db p) (\<lambda>po. receive_locked cx rc submitted po db)"

section \<open>Approval, ordering, cancellation\<close>

definition approve_purchase_order :: "pk option \<Rightarrow> pk \<Rightarrow> estate \<Rightarrow> flow_error + estate" where
  "approve_purchase_order user p db =
     bindE (lock_purchase_order db p) (\<lambda>po.
     bindE (validate_purchase_order_transition po ApproveOrder) (\<lambda>_.
     if order_lines db p = [] then Inl OrderWithoutLines
     else if user \<noteq> None \<and> pu_created_by po \<noteq> None \<and> pu_created_by po = user then Inl OwnOrder
     else transition_purchase_order po ApproveOrder None db))"

definition order_purchase_order :: "date \<Rightarrow> pk \<Rightarrow> estate \<Rightarrow> flow_error + estate" where
  "order_purchase_order today p db =
     bindE (lock_purchase_order db p) (\<lambda>po.
     bindE (validate_purchase_order_transition po PlaceOrder) (\<lambda>_.
       transition_purchase_order (if pu_order_date po = None then po\<lparr>pu_order_date := Some today\<rparr> else po) PlaceOrder None db))"

fun revert_requests :: "fulfillment_link list \<Rightarrow> estate \<Rightarrow> flow_error + asset_request list \<times> estate" where
  "revert_requests [] db = Inr ([], db)"
| "revert_requests (l # ls) db =
     (case find_request db (fl_request l) of
        Some r \<Rightarrow>
          if rq_deleted r = None \<and> rq_status r = RequestProcurement
          then bindE (request_store (r\<lparr>rq_status := RequestApproved\<rparr>) db) (\<lambda>db1.
               bindE (revert_requests ls db1) (\<lambda>(reverted, db2). Inr (r # reverted, db2)))
          else revert_requests ls db
      | None \<Rightarrow> revert_requests ls db)"

definition line_delete :: "instant \<Rightarrow> po_line \<Rightarrow> estate \<Rightarrow> flow_error + estate" where
  "line_delete now l = line_save (l\<lparr>pl_deleted := Some now\<rparr>)"

definition cancel_purchase_order :: "instant \<Rightarrow> pk \<Rightarrow> estate \<Rightarrow> flow_error + estate" where
  "cancel_purchase_order now p db =
     bindE (lock_purchase_order db p) (\<lambda>po.
     bindE (validate_purchase_order_transition po CancelOrder) (\<lambda>_.
     let lines = order_lines db p;
         line_ids = map pl_id lines;
         request_ids = map fl_request (filter (\<lambda>l. fl_line l \<in> set line_ids) (es_links db));
         links = filter (\<lambda>l. fl_line l \<in> set line_ids) (lock_unit_fulfillment_links db request_ids) in
     bindE (revert_requests links db) (\<lambda>(reverted, db1).
     bindE (each (link_delete now) links db1) (\<lambda>db2.
     bindE (each (line_delete now) (filter (\<lambda>l. pl_id l \<in> set (map fl_line links)) lines) db2) (\<lambda>db3.
     bindE (approve_completed_group_parents reverted db3) (transition_purchase_order po CancelOrder None))))))"

definition reopen_purchase_order :: "pk \<Rightarrow> estate \<Rightarrow> flow_error + estate" where
  "reopen_purchase_order p db =
     bindE (lock_purchase_order db p) (\<lambda>po.
     bindE (validate_purchase_order_transition po ReopenOrder) (\<lambda>_. transition_purchase_order po ReopenOrder None db))"

end
