(* ===== verification/PurchaseLines.thy ===== *)
theory PurchaseLines
  imports Orders
begin

text \<open>
  Purchase order lines changed one by one: the line views of \<^verbatim>\<open>procurement/views.py\<close>, the line API
  (\<^verbatim>\<open>procurement/api/serializers.py\<close>) and the archive services of an order (\<^verbatim>\<open>procurement/archive_services.py\<close>).
  \<open>sees\<close> says which tenants the scope of the request covers, \<open>offered\<close> which items its querysets offer.  The permission checks of the
  views come before, and every operation is one transaction on the rows as they are when it runs.
\<close>

datatype line_error =
  LineMissing | LineField | ReceivedQuantityFixed | LineOutOfScope | LinesStillLinked | OrderOutOfScope | OrderNumberTaken
  | LineRefused flow_error

abbreviation refused :: "flow_error + 'a \<Rightarrow> line_error + 'a" where
  "refused \<equiv> map_sum LineRefused (\<lambda>x. x)"

definition visible_line :: "(pk option \<Rightarrow> bool) \<Rightarrow> estate \<Rightarrow> pk \<Rightarrow> po_line option" where
  "visible_line sees db p =
     (case find_line db p of
        None \<Rightarrow> None
      | Some l \<Rightarrow> if pl_deleted l = None \<and> sees (pl_tenant l) then Some l else None)"

definition visible_order :: "(pk option \<Rightarrow> bool) \<Rightarrow> estate \<Rightarrow> pk \<Rightarrow> purchase_order option" where
  "visible_order sees db p =
     (case find_order db p of
        None \<Rightarrow> None
      | Some po \<Rightarrow> if pu_deleted po = None \<and> sees (pu_tenant po) then Some po else None)"

section \<open>The line API\<close>

datatype line_item_field = LineAssetType | LineComponent | LineAccessory | LineConsumable | LineLicense

text \<open>What a request may send; a field that is not sent keeps its value.  The quantity received is read-only and compared only; the
  tenant of a stored line stays unless a superuser moves it.\<close>

record line_change =
  lch_tenant :: "pk option option"
  lch_order :: "pk option"
  lch_items :: "line_item_field \<Rightarrow> pk option option"
  lch_ordered :: "int option"
  lch_received :: "int option"
  lch_unit_price :: "rat option option"

definition sent :: "'a option \<Rightarrow> 'a \<Rightarrow> 'a" where
  "sent new old = (case new of Some x \<Rightarrow> x | None \<Rightarrow> old)"

definition changed_line :: "line_change \<Rightarrow> po_line \<Rightarrow> po_line" where
  "changed_line c l = l\<lparr>pl_tenant := sent (lch_tenant c) (pl_tenant l), pl_order := sent (lch_order c) (pl_order l),
     pl_asset_type := sent (lch_items c LineAssetType) (pl_asset_type l), pl_component := sent (lch_items c LineComponent) (pl_component l),
     pl_accessory := sent (lch_items c LineAccessory) (pl_accessory l), pl_consumable := sent (lch_items c LineConsumable) (pl_consumable l),
     pl_license := sent (lch_items c LineLicense) (pl_license l), pl_ordered := sent (lch_ordered c) (pl_ordered l),
     pl_unit_price := sent (lch_unit_price c) (pl_unit_price l)\<rparr>"

definition line_fields_ok :: "(pk option \<Rightarrow> bool) \<Rightarrow> (line_item_field \<Rightarrow> pk \<Rightarrow> bool) \<Rightarrow> estate \<Rightarrow> line_change \<Rightarrow> bool" where
  "line_fields_ok sees offered db c \<longleftrightarrow>
     pred_option (\<lambda>p. visible_order sees db p \<noteq> None) (lch_order c) \<and> pred_option (\<lambda>n. 0 \<le> n) (lch_ordered c) \<and>
     list_all (\<lambda>f. pred_option (pred_option (offered f)) (lch_items c f)) [LineAssetType, LineComponent, LineAccessory, LineConsumable, LineLicense]"

definition received_as_recorded :: "int option \<Rightarrow> int \<Rightarrow> bool" where
  "received_as_recorded stated recorded \<longleftrightarrow> pred_option (\<lambda>n. 0 \<le> n \<and> n = recorded) stated"

definition line_update ::
    "bool \<Rightarrow> (pk option \<Rightarrow> bool) \<Rightarrow> (line_item_field \<Rightarrow> pk \<Rightarrow> bool) \<Rightarrow> line_change \<Rightarrow> pk \<Rightarrow> estate \<Rightarrow> line_error + estate" where
  "line_update superuser sees offered c p db =
     (case visible_line sees db p of
        None \<Rightarrow> Inl LineMissing
      | Some l \<Rightarrow>
          if \<not> line_fields_ok sees offered db c then Inl LineField
          else if \<not> received_as_recorded (lch_received c) (pl_received l) then Inl ReceivedQuantityFixed
          else
            bindE (refused (line_save (changed_line (if superuser then c else c\<lparr>lch_tenant := None\<rparr>) l) db)) (\<lambda>db1.
              if visible_line sees db1 p = None then Inl LineOutOfScope else Inr db1))"

text \<open>A new line: nothing received yet, whatever order it is for.  Who is no superuser and sends no tenant gets the active one.\<close>

definition blank_line :: "estate \<Rightarrow> pk \<Rightarrow> po_line" where
  "blank_line db p = \<lparr>pl_id = next_id (map pl_id (es_lines db)), pl_tenant = None, pl_order = p, pl_asset_type = None, pl_component = None,
     pl_accessory = None, pl_consumable = None, pl_license = None, pl_ordered = 1, pl_received = 0, pl_unit_price = None, pl_deleted = None\<rparr>"

definition line_add_row :: "po_line \<Rightarrow> estate \<Rightarrow> flow_error + estate" where
  "line_add_row l db = bindE (line_clean l) (\<lambda>_. Inr (db\<lparr>es_lines := es_lines db @ [l]\<rparr>))"

definition owned_row :: "bool \<Rightarrow> pk option \<Rightarrow> po_line \<Rightarrow> po_line" where
  "owned_row superuser active l = (if \<not> superuser \<and> pl_tenant l = None then l\<lparr>pl_tenant := active\<rparr> else l)"

definition line_create ::
    "bool \<Rightarrow> pk option \<Rightarrow> (pk option \<Rightarrow> bool) \<Rightarrow> (line_item_field \<Rightarrow> pk \<Rightarrow> bool) \<Rightarrow> line_change \<Rightarrow> estate \<Rightarrow> line_error + estate" where
  "line_create superuser active sees offered c db =
     (case lch_order c of
        None \<Rightarrow> Inl LineField
      | Some p \<Rightarrow>
          if \<not> line_fields_ok sees offered db c then Inl LineField
          else
            (let l = changed_line c (blank_line db p) in
            if \<not> received_as_recorded (lch_received c) 0 then Inl ReceivedQuantityFixed
            else if \<not> superuser \<and> pl_tenant l = None \<and> active = None then Inl LineOutOfScope
            else
              (let row = owned_row superuser active l in
              bindE (refused (line_add_row row db)) (\<lambda>db1.
                if visible_line sees db1 (pl_id row) = None then Inl LineOutOfScope else Inr db1))))"

section \<open>The line views\<close>

definition line_add ::
    "(pk option \<Rightarrow> bool) \<Rightarrow> (line_item_field \<Rightarrow> pk \<Rightarrow> bool) \<Rightarrow> line_change \<Rightarrow> pk \<Rightarrow> estate \<Rightarrow> line_error + estate" where
  "line_add sees offered c p db =
     (case visible_order sees db p of
        None \<Rightarrow> Inl LineMissing
      | Some po \<Rightarrow>
          if pu_status po \<noteq> OrderDraft then Inl (LineRefused OrderNotDraft)
          else
            (let form = c\<lparr>lch_tenant := None, lch_order := None\<rparr> in
            if \<not> line_fields_ok sees offered db form then Inl LineField
            else refused (line_add_row ((changed_line form (blank_line db p))\<lparr>pl_tenant := pu_tenant po\<rparr>) db)))"

definition order_is_draft :: "estate \<Rightarrow> po_line \<Rightarrow> bool" where
  "order_is_draft db l \<longleftrightarrow> map_option pu_status (find_order db (pl_order l)) = Some OrderDraft"

definition line_edit :: "(pk option \<Rightarrow> bool) \<Rightarrow> int \<Rightarrow> rat option \<Rightarrow> pk \<Rightarrow> estate \<Rightarrow> line_error + estate" where
  "line_edit sees qty price p db =
     (case visible_line sees db p of
        None \<Rightarrow> Inl LineMissing
      | Some l \<Rightarrow>
          if \<not> order_is_draft db l then Inl (LineRefused OrderNotDraft)
          else if qty < 1 \<or> \<not> pred_option (\<lambda>x. 0 \<le> x) price then Inl LineField
          else refused (line_save (l\<lparr>pl_ordered := qty, pl_unit_price := price\<rparr>) db))"

text \<open>The draft guard holds for requests of htmx only; a plain request is handled by the generic delete view.  The API deletes
  without a guard as well.\<close>

definition line_remove :: "bool \<Rightarrow> instant \<Rightarrow> (pk option \<Rightarrow> bool) \<Rightarrow> pk \<Rightarrow> estate \<Rightarrow> line_error + estate" where
  "line_remove htmx now sees p db =
     (case visible_line sees db p of
        None \<Rightarrow> Inl LineMissing
      | Some l \<Rightarrow>
          if htmx \<and> \<not> order_is_draft db l then Inl (LineRefused OrderNotDraft)
          else refused (line_delete now l db))"

definition line_restore :: "pk \<Rightarrow> estate \<Rightarrow> line_error + estate" where
  "line_restore p db =
     (case find_line db p of
        None \<Rightarrow> Inl LineMissing
      | Some l \<Rightarrow> refused (line_save (l\<lparr>pl_deleted := None\<rparr>) db))"

section \<open>Archiving an order\<close>

definition archive_purchase_order :: "instant \<Rightarrow> (pk option \<Rightarrow> bool) \<Rightarrow> pk \<Rightarrow> estate \<Rightarrow> line_error + estate" where
  "archive_purchase_order now sees p db =
     (case find_order db p of
        None \<Rightarrow> Inl OrderOutOfScope
      | Some po \<Rightarrow>
          if \<not> sees (pu_tenant po) then Inl OrderOutOfScope
          else if pu_deleted po \<noteq> None then Inr db
          else
            (let lines = filter (\<lambda>l. sees (pl_tenant l)) (order_lines db p) in
            if \<exists>x \<in> set (es_links db). fl_deleted x = None \<and> sees (fl_tenant x) \<and> fl_line x \<in> set (map pl_id lines) then Inl LinesStillLinked
            else
              bindE (refused (each (line_delete now) lines db)) (\<lambda>db1.
              Inr (order_save (po\<lparr>pu_deleted := Some now\<rparr>) db1))))"

definition restore_purchase_order :: "(pk option \<Rightarrow> bool) \<Rightarrow> pk \<Rightarrow> estate \<Rightarrow> line_error + estate" where
  "restore_purchase_order sees p db =
     (case find_order db p of
        None \<Rightarrow> Inl OrderOutOfScope
      | Some po \<Rightarrow>
          if \<not> sees (pu_tenant po) then Inl OrderOutOfScope
          else if pu_deleted po = None then Inr db
          else if \<exists>q \<in> set (es_orders db). pu_deleted q = None \<and> sees (pu_tenant q) \<and> pu_number q = pu_number po then Inl OrderNumberTaken
          else
            (let lines = sort_key pl_id (filter (\<lambda>l. pl_order l = p \<and> pl_deleted l = pu_deleted po \<and> sees (pl_tenant l)) (es_lines db)) in
            bindE (refused (each (\<lambda>l. line_save (l\<lparr>pl_deleted := None\<rparr>)) lines db)) (\<lambda>db1.
            Inr (order_save (po\<lparr>pu_deleted := None\<rparr>) db1))))"

end
