(* ===== verification/FlowRelations.thy ===== *)
theory FlowRelations
  imports Orders
begin

text \<open>
  Relations between estates that every service of requests and purchase orders respects.  The locale
  \<open>review_relation\<close> asks for a reflexive and transitive relation that saving a request respects,
  \<open>request_relation\<close> for one that changing links respects, too; \<open>flow_relation\<close> adds lines, pools and the creation of assets, \<open>order_relation\<close> the
  order row itself.  Inside each locale the services that change no more than that respect the relation.
\<close>

section \<open>Taking a successful run apart\<close>

lemma cancel_lockedE:
  assumes "cancel_locked_request ct now r db = Inr db'"
  obtains db1 children db2 where "open_status (rq_status r)" "request_save ct (r\<lparr>rq_status := RequestCancelled\<rparr>) db = Inr db1"
    "children = (if rq_group r then by_request_date (filter (\<lambda>c. rq_status c \<notin> {RequestCancelled, RequestFulfilled}) (sub_requests db1 (rq_id r))) else [])"
    "each (\<lambda>c. request_save ct (c\<lparr>rq_status := RequestCancelled\<rparr>)) children db1 = Inr db2"
    "release_fulfillment_links now (map rq_id (r # children)) db2 = Inr db'"
proof -
  have r: "open_status (rq_status r)" "bindE (request_save ct (r\<lparr>rq_status := RequestCancelled\<rparr>) db) (\<lambda>db1.
        let children = (if rq_group r
              then by_request_date (filter (\<lambda>c. rq_status c \<notin> {RequestCancelled, RequestFulfilled}) (sub_requests db1 (rq_id r))) else []) in
        bindE (each (\<lambda>c. request_save ct (c\<lparr>rq_status := RequestCancelled\<rparr>)) children db1) (\<lambda>db2.
          release_fulfillment_links now (map rq_id (r # children)) db2)) = Inr db'"
    using assms by (auto simp: cancel_locked_request_def split: if_splits)
  then show thesis using that unfolding Let_def bindE_eq_Inr by blast
qed


lemma receive_lineE:
  assumes "receive_line cx rc po label line db = Inr db'" and pos: "0 < received_qty rc (pl_id line)"
  obtains db1 where "received_qty rc (pl_id line) \<le> line_outstanding line"
    "(if pl_asset_type line \<noteq> None
      then receive_asset_line cx line (received_qty rc (pl_id line)) (filter (\<lambda>d. ad_line d = pl_id line) (re_details rc)) po label db
      else receive_stock_line line (received_qty rc (pl_id line)) (pu_location po) db) = Inr db1"
    "line_save (line\<lparr>pl_received := pl_received line + received_qty rc (pl_id line)\<rparr>) db1 = Inr db'"
proof -
  have q: "\<not> received_qty rc (pl_id line) \<le> 0" using pos by simp
  note run = assms(1)[unfolded receive_line_def Let_def if_not_P[OF q]]
  have "received_qty rc (pl_id line) \<le> line_outstanding line" using run by (simp split: if_split_asm)
  then show thesis using if_errorD[OF run] that unfolding bindE_eq_Inr by blast
qed

lemma receive_line_skip: "received_qty rc (pl_id line) \<le> 0 \<Longrightarrow> receive_line cx rc po label line db = Inr db"
  by (simp add: receive_line_def)


lemma receive_purchase_orderE:
  assumes "receive_purchase_order cx rc submitted p db = Inr db'"
  obtains po label db1 db2 where "lock_purchase_order db p = Inr po" "PURCHASE_ORDER_TRANSITIONS ReceiveOrder (pu_status po) \<noteq> []"
    "assert_receipt_state rc (order_lines db (pu_id po)) = Inr ()" "first_label db DEPLOYABLE = Some label"
    "lock_receipt_stock_rows rc (order_lines db (pu_id po)) (pu_location po) db = Inr db1"
    "each (receive_line cx rc po label) (order_lines db (pu_id po)) db1 = Inr db2"
    "transition_purchase_order po ReceiveOrder
       (Some (if \<exists>l \<in> set (order_lines db (pu_id po)). still_outstanding rc l then OrderPartial else OrderReceived)) db2 = Inr db'"
proof -
  obtain po c where po: "lock_purchase_order db p = Inr po" and run: "validate_receipt_transition po submitted = Inr c"
    "assert_receipt_state rc (order_lines db (pu_id po)) = Inr ()"
    "(if c then validate_purchase_order_transition po ReceiveOrder else Inr ()) = Inr ()"
    and body: "(case first_label db DEPLOYABLE of None \<Rightarrow> Inl NoDeployableLabel
      | Some label \<Rightarrow>
          bindE (lock_receipt_stock_rows rc (order_lines db (pu_id po)) (pu_location po) db) (\<lambda>db1.
          bindE (each (receive_line cx rc po label) (order_lines db (pu_id po)) db1)
            (transition_purchase_order po ReceiveOrder
               (Some (if \<exists>l \<in> set (order_lines db (pu_id po)). still_outstanding rc l then OrderPartial else OrderReceived))))) = Inr db'"
    using assms unfolding receive_purchase_order_def receive_locked_def Let_def bindE_eq_Inr by auto
  have "PURCHASE_ORDER_TRANSITIONS ReceiveOrder (pu_status po) \<noteq> []"
    using run by (auto simp: validate_receipt_transition_def validate_purchase_order_transition_def bindE_eq_Inr require_eq_Inr split: if_splits)
  moreover obtain label where "first_label db DEPLOYABLE = Some label"
    using body by (cases "first_label db DEPLOYABLE") (simp only: option.case, blast)
  ultimately show thesis using that[OF po _ run(2)] body by (simp only: option.case bindE_eq_Inr) blast
qed

lemma cancel_purchase_orderE:
  assumes "cancel_purchase_order now p db = Inr db'"
  obtains po links reverted db1 db2 db3 db4 where "lock_purchase_order db p = Inr po" "PURCHASE_ORDER_TRANSITIONS CancelOrder (pu_status po) \<noteq> []"
    "links = (let line_ids = map pl_id (order_lines db p); request_ids = map fl_request (filter (\<lambda>l. fl_line l \<in> set line_ids) (es_links db)) in
       filter (\<lambda>l. fl_line l \<in> set line_ids) (lock_unit_fulfillment_links db request_ids))"
    "revert_requests links db = Inr (reverted, db1)" "each (link_delete now) links db1 = Inr db2"
    "each (line_delete now) (filter (\<lambda>l. pl_id l \<in> set (map fl_line links)) (order_lines db p)) db2 = Inr db3"
    "approve_completed_group_parents reverted db3 = Inr db4" "transition_purchase_order po CancelOrder None db4 = Inr db'"
proof -
  obtain po where po: "lock_purchase_order db p = Inr po" and ok: "validate_purchase_order_transition po CancelOrder = Inr ()"
    and run: "(let lines = order_lines db p; line_ids = map pl_id lines;
         request_ids = map fl_request (filter (\<lambda>l. fl_line l \<in> set line_ids) (es_links db));
         links = filter (\<lambda>l. fl_line l \<in> set line_ids) (lock_unit_fulfillment_links db request_ids) in
     bindE (revert_requests links db) (\<lambda>(reverted, db1).
     bindE (each (link_delete now) links db1) (\<lambda>db2.
     bindE (each (line_delete now) (filter (\<lambda>l. pl_id l \<in> set (map fl_line links)) lines) db2) (\<lambda>db3.
     bindE (approve_completed_group_parents reverted db3) (transition_purchase_order po CancelOrder None))))) = Inr db'"
    using assms unfolding cancel_purchase_order_def bindE_eq_Inr by auto
  from ok have "PURCHASE_ORDER_TRANSITIONS CancelOrder (pu_status po) \<noteq> []"
    by (simp add: validate_purchase_order_transition_def require_eq_Inr)
  moreover from bindE_pairD[OF run[unfolded Let_def]] show thesis
    using that[OF po calculation] unfolding Let_def bindE_eq_Inr by blast
qed

context step_relation
begin

text \<open>In a run that succeeds, the step of each row succeeded, in a state between the ends.\<close>

lemma each_member:
  "(\<And>x s s'. x \<in> set xs \<Longrightarrow> f x s = Inr s' \<Longrightarrow> R s s') \<Longrightarrow> each f xs s = Inr s' \<Longrightarrow> x \<in> set xs \<Longrightarrow>
     \<exists>t t'. R s t \<and> f x t = Inr t' \<and> R t' s'"
proof (induction xs arbitrary: s)
  case (Cons y ys)
  then obtain s1 where one: "f y s = Inr s1" and rest: "each f ys s1 = Inr s'" by (auto simp: bindE_eq_Inr)
  have steps: "\<And>x s s'. x \<in> set ys \<Longrightarrow> f x s = Inr s' \<Longrightarrow> R s s'" by (rule Cons.prems(1)) simp_all
  have "R s s1" using Cons.prems(1)[OF _ one] by simp
  show ?case
  proof (cases "x = y")
    case True
    have "R s1 s'" by (rule each_rel[OF _ rest]) (rule steps)
    then show ?thesis using True one refl by blast
  next
    case False
    then have "x \<in> set ys" using Cons.prems(3) by simp
    have "\<exists>t t'. R s1 t \<and> f x t = Inr t' \<and> R t' s'"
      by (rule Cons.IH[OF _ rest \<open>x \<in> set ys\<close>]) (rule steps)
    then obtain t t' where t: "R s1 t" "f x t = Inr t'" "R t' s'" by blast
    show ?thesis using trans[OF \<open>R s s1\<close> t(1)] t(2,3) by blast
  qed
qed simp

end

section \<open>Relations respected by the services\<close>

locale review_relation = step_relation R for R :: "estate \<Rightarrow> estate \<Rightarrow> bool" +
  assumes stores: "request_store r db = Inr db' \<Longrightarrow> R db db'"
begin

lemma request_save_rel: "request_save ct r db = Inr db' \<Longrightarrow> R db db'"
  by (auto simp: request_save_def intro: stores)

lemma respond_children_rel: "respond_children ct s actor now note r db = Inr db' \<Longrightarrow> R db db'"
  by (auto simp: respond_children_def refl split: if_splits intro: each_rel request_save_rel)

lemma approve_parents_rel: "approve_completed_group_parents linked db = Inr db' \<Longrightarrow> R db db'"
  unfolding approve_completed_group_parents_def Let_def
  by (erule each_rel[rotated]) (auto simp: approve_group_parent_def refl split: if_splits intro: stores)

lemma mark_completed_rel: "mark_completed ct actor now note r (trail, db) = Inr (trail', db') \<Longrightarrow> R db db'"
  by (auto simp: mark_completed_def Let_def map_sum_def split: sum.splits intro: stores)

lemma manual_unit_rel: "manually_complete_unit ct actor now reason r (trail, db) = Inr (trail', db') \<Longrightarrow> R db db'"
  by (auto simp: manually_complete_unit_def split: if_splits intro: mark_completed_rel)

end

sublocale review_relation \<subseteq> trail: step_relation "\<lambda>s t. R (snd s) (snd t)"
  by unfold_locales (auto intro: refl trans)

context review_relation
begin

lemma manual_group_rel:
  assumes "manually_complete_group ct actor now reason r (trail, db) = Inr (trail', db')"
  shows "R db db'"
proof -
  obtain units t1 db1 nt where e: "each (manually_complete_unit ct actor now reason) units (trail, db) = Inr (t1, db1)"
    and st: "map_sum (\<lambda>e. e) (\<lambda>db2. (t1, db2)) (request_store (respond RequestFulfilled actor now nt r) db1) = Inr (trail', db')"
    using bindE_pairD[OF if_errorD[OF if_errorD[OF if_errorD[OF assms[unfolded manually_complete_group_def Let_def]]]]] by blast
  have st: "request_store (respond RequestFulfilled actor now nt r) db1 = Inr db'" using st by (auto simp: map_sum_eq_Inr)
  have "R (snd (trail, db)) (snd (t1, db1))" by (rule trail.each_rel[OF _ e]) (auto intro: manual_unit_rel)
  then show ?thesis using stores[OF st] trans by auto
qed

lemma manual_rel: "manually_complete_request ct actor reason confirmed now p (trail, db) w = (Inr (trail', db'), w') \<Longrightarrow> R db db'"
  by (auto simp: manually_complete_request_def Let_def split: if_splits option.splits prod.splits intro: manual_group_rel manual_unit_rel)

lemma approve_request_rel:
  assumes "approve_asset_request ct p allocated qty note actor now db w = (Inr db', w')"
  shows "R db db'"
proof -
  obtain r r2 db1 where "request_save ct (respond RequestApproved actor now note r2) db = Inr db1"
    "respond_children ct RequestApproved actor now note r db1 = Inr db'"
    using assms by (auto simp: approve_asset_request_def bindE_eq_Inr split: prod.splits option.splits if_splits)
  then show ?thesis using request_save_rel respond_children_rel trans by blast
qed

lemma deny_request_rel:
  assumes "deny_asset_request ct p note actor now db w = (Inr db', w')"
  shows "R db db'"
proof -
  obtain r db1 where "request_save ct (respond RequestDenied actor now note r) db = Inr db1"
    "respond_children ct RequestDenied actor now note r db1 = Inr db'"
    using assms by (auto simp: deny_asset_request_def bindE_eq_Inr split: prod.splits option.splits if_splits)
  then show ?thesis using request_save_rel respond_children_rel trans by blast
qed

lemma revert_rel: "revert_requests ls db = Inr (reverted, db') \<Longrightarrow> R db db'"
proof (induction ls db arbitrary: reverted db' rule: revert_requests.induct)
  case (2 l ls db)
  then show ?case
    by (auto split: option.splits if_splits simp: bindE_eq_Inr dest!: bindE_pairD stores intro: trans)
qed (simp add: refl)

end

subsection \<open>Links\<close>

locale request_relation = review_relation +
  assumes links: "R db (db\<lparr>es_links := ls\<rparr>)"
begin

lemma link_save_rel: "link_save l db = Inr db' \<Longrightarrow> R db db'"
  by (auto simp: link_save_def bindE_eq_Inr intro: links)

lemma release_rel: "release_fulfillment_links now ps db = Inr db' \<Longrightarrow> R db db'"
  unfolding release_fulfillment_links_def by (erule each_rel[rotated]) (auto simp: link_delete_def intro: link_save_rel)

lemma cancel_locked_rel:
  assumes "cancel_locked_request ct now r db = Inr db'"
  shows "R db db'"
proof -
  from cancel_lockedE[OF assms] obtain db1 children db2 where one: "request_save ct (r\<lparr>rq_status := RequestCancelled\<rparr>) db = Inr db1"
    and two: "each (\<lambda>c. request_save ct (c\<lparr>rq_status := RequestCancelled\<rparr>)) children db1 = Inr db2"
    and three: "release_fulfillment_links now (map rq_id (r # children)) db2 = Inr db'" by metis
  have "R db1 db2" by (rule each_rel[OF _ two]) (rule request_save_rel)
  then show ?thesis using request_save_rel[OF one] release_rel[OF three] trans by blast
qed

lemma attribute_rel: "attribute_pairs pairs remaining db = Inr (touched, db') \<Longrightarrow> R db db'"
proof (induction pairs remaining db arbitrary: touched db' rule: attribute_pairs.induct)
  case (2 r l rest remaining db)
  show ?case
  proof (cases "remaining \<le> 0")
    case False
    let ?a = "min (link_outstanding l) remaining"
    let ?l = "l\<lparr>fl_received := Some ((case fl_received l of None \<Rightarrow> 0 | Some q \<Rightarrow> q) + ?a)\<rparr>"
    obtain db1 db2 t where one: "link_save ?l db = Inr db1"
      and two: "(if link_outstanding ?l = 0 then request_store (r\<lparr>rq_status := RequestApproved\<rparr>) db1 else Inr db1) = Inr db2"
      and three: "attribute_pairs rest (remaining - ?a) db2 = Inr (t, db')"
      using "2.prems" False by (auto simp: Let_def bindE_eq_Inr dest!: bindE_pairD)
    have "R db1 db2" using two by (auto simp: refl split: if_splits intro: stores)
    moreover have "R db2 db'" by (rule "2.IH"[OF False HOL.refl HOL.refl three])
    ultimately show ?thesis using link_save_rel[OF one] trans by blast
  qed (use "2.prems" in \<open>simp add: refl\<close>)
qed (simp add: refl)

lemma attribute_receipt_rel: "attribute_quantity_receipt line qty db = Inr db' \<Longrightarrow> R db db'"
  unfolding attribute_quantity_receipt_def by (drule bindE_pairD) (blast intro: attribute_rel approve_parents_rel trans)

lemma allocate_unit_rel: "allocate_unit cx a r l db = Inr db' \<Longrightarrow> R db db'"
  by (auto simp: allocate_unit_def Let_def bindE_eq_Inr intro: trans request_save_rel link_save_rel)

lemma link_target_rel: "link_target po line r db = Inr db' \<Longrightarrow> R db db'"
  unfolding link_target_def Let_def by (drule bindE_thenD, drule if_errorD) (blast intro: trans links stores)

end

subsection \<open>Goods\<close>

locale flow_relation = request_relation +
  assumes lines: "R db (db\<lparr>es_lines := rows\<rparr>)"
    and pools: "R db (db\<lparr>iv_pools := ps\<rparr>)"
    and assets: "asset_create others a db = Inr (a2, db') \<Longrightarrow> R db db'"
begin

lemma line_save_rel: "line_save l db = Inr db' \<Longrightarrow> R db db'"
  by (auto simp: line_save_def bindE_eq_Inr intro: lines)

lemma create_link_rel:
  assumes "create_fulfillment_link po r targets db = Inr db'"
  shows "R db db'"
proof -
  let ?db = "db\<lparr>es_lines := es_lines db @ [new_line db po r]\<rparr>"
  obtain db1 where e: "each (link_target po (pl_id (new_line db po r))) targets ?db = Inr db1"
    and rest: "(if rq_id r \<in> set (map rq_id targets) then Inr db1 else request_store (r\<lparr>rq_status := RequestProcurement\<rparr>) db1) = Inr db'"
    using bindE_thenD[OF assms[unfolded create_fulfillment_link_def Let_def]] by (auto simp: bindE_eq_Inr)
  have "R db ?db" by (rule lines)
  moreover have "R ?db db1" by (rule each_rel[OF _ e]) (rule link_target_rel)
  moreover have "R db1 db'" using rest by (auto simp: refl split: if_splits intro: stores)
  ultimately show ?thesis using trans by blast
qed

lemma link_locked_rel: "link_locked po r db = Inr db' \<Longrightarrow> R db db'"
  by (auto simp: link_locked_def bindE_eq_Inr refl split: if_splits intro: create_link_rel)

lemma link_rel: "link_asset_request_to_purchase_order p rid u now db w = (Inr db', w') \<Longrightarrow> R db db'"
  by (auto simp: link_asset_request_to_purchase_order_def Let_def split: sum.splits option.splits prod.splits if_splits intro: link_locked_rel)

lemma stock_rows_rel: "lock_receipt_stock_rows rc lines loc db = Inr db' \<Longrightarrow> R db db'"
proof -
  have e: "R s s'" if "ensure_stock_row k l i s = Inr s'" for k l i s s'
    using that by (auto simp: ensure_stock_row_def split: if_splits option.splits intro: refl pools)
  assume "lock_receipt_stock_rows rc lines loc db = Inr db'"
  then obtain db1 db2 where rows: "each (ensure_stock_row Component loc) (items_received rc lines Component) db = Inr db1"
    "each (ensure_stock_row Accessory loc) (items_received rc lines Accessory) db1 = Inr db2"
    "each (ensure_stock_row Consumable loc) (items_received rc lines Consumable) db2 = Inr db'"
    by (auto simp: lock_receipt_stock_rows_def bindE_eq_Inr)
  have "R s s'" if "each (ensure_stock_row k loc) items s = Inr s'" for k items s s'
    by (rule each_rel[OF _ that]) (rule e)
  from this[OF rows(1)] this[OF rows(2)] this[OF rows(3)] show ?thesis by (blast intro: trans)
qed

lemma grow_rel: "grow_stock_row k i l q db = Inr db' \<Longrightarrow> R db db'"
  by (auto simp: grow_stock_row_def split: option.splits if_splits intro: pools)

lemma receive_stock_rel: "receive_stock_line line qty loc db = Inr db' \<Longrightarrow> R db db'"
  by (auto simp: receive_stock_line_def bindE_eq_Inr refl split: option.splits
      dest!: grow_rel attribute_receipt_rel intro: trans)

lemma receive_units_rel: "receive_units cx line po label n details pairs db = Inr (served, db') \<Longrightarrow> R db db'"
proof (induction n arbitrary: details pairs db served db')
  case (Suc n)
  let ?a = "received_asset db (case details of [] \<Rightarrow> None | d # _ \<Rightarrow> Some d) line po label (rx_today cx)"
  obtain a db1 where one: "asset_create (rx_others cx) ?a db = Inr (a, db1)"
    and rest: "(case pairs of [] \<Rightarrow> receive_units cx line po label n (tl details) [] db1
        | (r, l) # rest \<Rightarrow> bindE (allocate_unit cx a r l db1) (\<lambda>db2.
            bindE (receive_units cx line po label n (tl details) rest db2) (\<lambda>(served, db3). Inr (r # served, db3)))) = Inr (served, db')"
    using bindE_pairD[OF Suc.prems[unfolded receive_units.simps]] by (auto simp: map_sum_def split: sum.splits)
  have "R db db1" by (rule assets[OF one])
  moreover have "R db1 db'"
  proof (cases pairs)
    case Nil
    then show ?thesis using Suc.IH rest by auto
  next
    case (Cons p ps)
    obtain r l where p: "p = (r, l)" by force
    show ?thesis using rest Suc.IH
      by (auto simp: Cons p bindE_eq_Inr dest!: bindE_pairD allocate_unit_rel intro: trans)
  qed
  ultimately show ?case by (rule trans)
qed (simp add: refl)

lemma receive_asset_rel: "receive_asset_line cx line qty details po label db = Inr db' \<Longrightarrow> R db db'"
  unfolding receive_asset_line_def by (drule bindE_pairD) (blast intro: receive_units_rel approve_parents_rel trans)

lemma receive_line_rel:
  assumes "receive_line cx rc po label line db = Inr db'"
  shows "R db db'"
proof (cases "0 < received_qty rc (pl_id line)")
  case True
  show ?thesis
  proof (rule receive_lineE[OF assms True])
    fix db1 assume one: "(if pl_asset_type line \<noteq> None
      then receive_asset_line cx line (received_qty rc (pl_id line)) (filter (\<lambda>d. ad_line d = pl_id line) (re_details rc)) po label db
      else receive_stock_line line (received_qty rc (pl_id line)) (pu_location po) db) = Inr db1"
      and two: "line_save (line\<lparr>pl_received := pl_received line + received_qty rc (pl_id line)\<rparr>) db1 = Inr db'"
    have "R db db1" using one by (simp split: if_split_asm add: receive_asset_rel receive_stock_rel)
    then show ?thesis using line_save_rel[OF two] by (rule trans)
  qed
qed (use assms in \<open>simp add: receive_line_skip refl\<close>)

text \<open>The parts of a receipt that succeeds.\<close>
end

locale order_relation = flow_relation +
  assumes orders: "R db (db\<lparr>es_orders := rows\<rparr>)"
begin

lemma transition_rel: "transition_purchase_order po act target db = Inr db' \<Longrightarrow> R db db'"
  by (auto simp: transition_purchase_order_def order_save_def Let_def bindE_eq_Inr split: option.splits list.splits if_splits intro: orders)

lemma receive_rel:
  assumes "receive_purchase_order cx rc submitted p db = Inr db'"
  shows "R db db'"
proof (rule receive_purchase_orderE[OF assms])
  fix po label db1 db2 target
  assume one: "lock_receipt_stock_rows rc (order_lines db (pu_id po)) (pu_location po) db = Inr db1"
    and two: "each (receive_line cx rc po label) (order_lines db (pu_id po)) db1 = Inr db2"
    and three: "transition_purchase_order po ReceiveOrder
       (Some (if \<exists>l \<in> set (order_lines db (pu_id po)). still_outstanding rc l then OrderPartial else OrderReceived)) db2 = Inr db'"
  have "R db1 db2" by (rule each_rel[OF _ two]) (rule receive_line_rel)
  then show ?thesis using stock_rows_rel[OF one] transition_rel[OF three] by (blast intro: trans)
qed

lemma approve_order_rel: "approve_purchase_order u p db = Inr db' \<Longrightarrow> R db db'"
  by (auto simp: approve_purchase_order_def bindE_eq_Inr split: if_splits intro: transition_rel)

lemma place_order_rel: "order_purchase_order today p db = Inr db' \<Longrightarrow> R db db'"
  by (auto simp: order_purchase_order_def bindE_eq_Inr intro: transition_rel)

lemma reopen_order_rel: "reopen_purchase_order p db = Inr db' \<Longrightarrow> R db db'"
  by (auto simp: reopen_purchase_order_def bindE_eq_Inr intro: transition_rel)

lemma cancel_order_rel: "cancel_purchase_order now p db = Inr db' \<Longrightarrow> R db db'"
proof (erule cancel_purchase_orderE)
  fix po links reverted db1 db2 db3 db4
  assume run: "revert_requests links db = Inr (reverted, db1)" "each (link_delete now) links db1 = Inr db2"
    "each (line_delete now) (filter (\<lambda>l. pl_id l \<in> set (map fl_line links)) (order_lines db p)) db2 = Inr db3"
    "approve_completed_group_parents reverted db3 = Inr db4" "transition_purchase_order po CancelOrder None db4 = Inr db'"
  have "R db1 db2" by (rule each_rel[OF _ run(2)]) (simp add: link_delete_def link_save_rel)
  moreover have "R db2 db3" by (rule each_rel[OF _ run(3)]) (simp add: line_delete_def line_save_rel)
  ultimately show ?thesis
    using revert_rel[OF run(1)] approve_parents_rel[OF run(4)] transition_rel[OF run(5)] by (blast intro: trans)
qed

end

end
