(* ===== verification/RequestSafety.thy ===== *)
theory RequestSafety
  imports FlowRelations
begin

text \<open>
  What requests go through: every operation on requests and orders moves a request along the
  transition table of \<^verbatim>\<open>AssetRequest.clean\<close> only.
\<close>

section \<open>Requests evolve along the table\<close>

definition request_moves :: "request_status \<Rightarrow> request_status \<Rightarrow> bool" where
  "request_moves s t \<longleftrightarrow> (\<lambda>a b. b \<in> set (VALID_TRANSITIONS a))\<^sup>*\<^sup>* s t"

text \<open>Every request of the earlier table is still there, with a status it may have reached.\<close>

definition requests_evolve :: "estate \<Rightarrow> estate \<Rightarrow> bool" where
  "requests_evolve db db' \<longleftrightarrow> (\<forall>p r. find_request db p = Some r \<longrightarrow>
     (\<exists>r'. find_request db' p = Some r' \<and> request_moves (rq_status r) (rq_status r')))"

lemma evolve_frame: "es_requests db' = es_requests db \<Longrightarrow> requests_evolve db db'"
  by (simp add: requests_evolve_def request_moves_def find_request_def)

lemma request_store_evolve:
  assumes "request_store r db = Inr db'"
  shows "requests_evolve db db'"
proof -
  have t: "request_transition_ok db r = Inr ()" and db': "db' = db\<lparr>es_requests := save_row rq_id r (es_requests db)\<rparr>"
    using assms by (auto simp: request_store_def request_clean_def bindE_eq_Inr)
  show ?thesis
    unfolding requests_evolve_def
  proof (intro allI impI)
    fix p x assume x: "find_request db p = Some x"
    show "\<exists>r'. find_request db' p = Some r' \<and> request_moves (rq_status x) (rq_status r')"
    proof (cases "p = rq_id r")
      case True
      then have "rq_status x = rq_status r \<or> rq_status r \<in> set (VALID_TRANSITIONS (rq_status x))"
        using t x by (auto simp: request_transition_ok_def require_eq_Inr)
      then have "request_moves (rq_status x) (rq_status r)" by (auto simp: request_moves_def)
      then show ?thesis using x True by (simp add: find_request_def db' find_row_save_row)
    next
      case False
      then show ?thesis using x by (simp add: find_request_def db' find_row_save_row request_moves_def)
    qed
  qed
qed

interpretation evolve: order_relation requests_evolve
proof
  show "requests_evolve s s" for s by (simp add: requests_evolve_def request_moves_def)
  show "requests_evolve s t \<Longrightarrow> requests_evolve t u \<Longrightarrow> requests_evolve s u" for s t u
    unfolding requests_evolve_def request_moves_def by (meson rtranclp_trans)
  show "requests_evolve db db'" if "asset_create others a db = Inr (a2, db')" for others a a2 db db'
    using that by (intro evolve_frame)
      (auto simp: asset_create_def Let_def bindE_eq_Inr prepare_asset_tag_def split: if_splits prod.splits sum.splits)
qed (simp_all add: evolve_frame request_store_evolve)

section \<open>The state machine of requests\<close>

text \<open>Everything that changes a request: its own actions, an edit of the row, and the services of
  purchase orders.\<close>

inductive request_step :: "estate \<Rightarrow> estate \<Rightarrow> bool" where
  create: "request_create th ct skip now r db w = (Inr (row, db'), w') \<Longrightarrow> request_step db db'"
| edit: "request_save ct r db = Inr db' \<Longrightarrow> request_step db db'"
| approve: "approve_asset_request ct p allocated qty note actor now db w = (Inr db', w') \<Longrightarrow> request_step db db'"
| deny: "deny_asset_request ct p note actor now db w = (Inr db', w') \<Longrightarrow> request_step db db'"
| cancel: "cancel_asset_request allowed ct now p db w = (Inr db', w') \<Longrightarrow> request_step db db'"
| complete: "manually_complete_request ct actor reason confirmed now p (trail, db) w = (Inr (trail', db'), w') \<Longrightarrow> request_step db db'"
| link: "link_asset_request_to_purchase_order po p u now db w = (Inr db', w') \<Longrightarrow> request_step db db'"
| approve_order: "approve_purchase_order actor po db = Inr db' \<Longrightarrow> request_step db db'"
| place_order: "order_purchase_order today po db = Inr db' \<Longrightarrow> request_step db db'"
| receive_order: "receive_purchase_order cx rc submitted po db = Inr db' \<Longrightarrow> request_step db db'"
| cancel_order: "cancel_purchase_order now po db = Inr db' \<Longrightarrow> request_step db db'"
| reopen_order: "reopen_purchase_order po db = Inr db' \<Longrightarrow> request_step db db'"

lemma create_frame:
  "request_create th ct skip now r db w = (Inr (row, db'), w') \<Longrightarrow>
     \<exists>r1. db' = db\<lparr>es_requests := r1\<lparr>rq_id := next_id (map rq_id (es_requests db))\<rparr> # es_requests db\<rparr>"
  by (auto simp: request_create_def Let_def bindE_eq_Inr split: sum.splits prod.splits)

lemma create_evolve:
  assumes "request_create th ct skip now r db w = (Inr (row, db'), w')"
  shows "requests_evolve db db'"
proof -
  have "\<exists>r1. db' = db\<lparr>es_requests := r1\<lparr>rq_id := next_id (map rq_id (es_requests db))\<rparr> # es_requests db\<rparr>"
    by (rule create_frame[OF assms])
  then have "find_request db' p = find_request db p" if "find_request db p \<noteq> None" for p
    using that next_id_fresh[of p "map rq_id (es_requests db)"] find_row_SomeD[of rq_id p "es_requests db"]
    by (fastforce simp: find_request_def)
  then show ?thesis unfolding requests_evolve_def request_moves_def by fastforce
qed

lemma cancel_request_evolve: "cancel_asset_request allowed ct now p db w = (Inr db', w') \<Longrightarrow> requests_evolve db db'"
  by (auto simp: cancel_asset_request_def split: if_splits prod.splits option.splits intro: evolve.cancel_locked_rel)

lemma request_step_evolve: "request_step db db' \<Longrightarrow> requests_evolve db db'"
  by (induction rule: request_step.induct)
    (fact create_evolve evolve.request_save_rel evolve.approve_request_rel evolve.deny_request_rel cancel_request_evolve evolve.manual_rel
      evolve.link_rel evolve.approve_order_rel evolve.place_order_rel evolve.receive_rel evolve.cancel_order_rel evolve.reopen_order_rel)+

lemma request_steps_evolve: "request_step\<^sup>*\<^sup>* db db' \<Longrightarrow> requests_evolve db db'"
  by (induction rule: rtranclp_induct) (blast intro: evolve.refl evolve.trans request_step_evolve)+

lemma request_moves_final: "request_moves s t \<Longrightarrow> s \<in> set TERMINAL_STATUSES \<Longrightarrow> t = s"
  unfolding request_moves_def by (induction rule: rtranclp_induct) (auto simp: TERMINAL_STATUSES_def)

lemma request_moves_reviewed:
  "request_moves s t \<Longrightarrow> s \<in> {RequestApproved, RequestProcurement} \<Longrightarrow>
     t \<in> {RequestApproved, RequestProcurement, RequestFulfilled, RequestCancelled}"
  unfolding request_moves_def by (induction rule: rtranclp_induct) auto

text \<open>C21. The life of a request is a run of the transition table: whatever sequence of reviews,
  cancellations, completions, edits and purchase order services is run, every request that was there is
  still there and its status was reached along VALID_TRANSITIONS; a denied, fulfilled or cancelled
  request never changes its status again, and a request that was approved is never pending or denied
  again.\<close>

theorem request_status_machine:
  assumes "request_step\<^sup>*\<^sup>* db db'" and "find_request db p = Some r"
  shows "\<exists>r'. find_request db' p = Some r' \<and>
           (\<lambda>s t. t \<in> set (VALID_TRANSITIONS s))\<^sup>*\<^sup>* (rq_status r) (rq_status r') \<and>
           (rq_status r \<in> {RequestDenied, RequestFulfilled, RequestCancelled} \<longrightarrow> rq_status r' = rq_status r) \<and>
           (rq_status r \<in> {RequestApproved, RequestProcurement} \<longrightarrow> rq_status r' \<notin> {RequestPending, RequestDenied})"
proof -
  obtain r' where "find_request db' p = Some r'" and m: "request_moves (rq_status r) (rq_status r')"
    using request_steps_evolve[OF assms(1)] assms(2) unfolding requests_evolve_def by blast
  moreover have "(\<lambda>s t. t \<in> set (VALID_TRANSITIONS s))\<^sup>*\<^sup>* (rq_status r) (rq_status r')" using m by (simp add: request_moves_def)
  moreover have "rq_status r \<in> {RequestDenied, RequestFulfilled, RequestCancelled} \<longrightarrow> rq_status r' = rq_status r"
    using request_moves_final[OF m] by (auto simp: TERMINAL_STATUSES_def)
  moreover have "rq_status r \<in> {RequestApproved, RequestProcurement} \<longrightarrow> rq_status r' \<notin> {RequestPending, RequestDenied}"
    using request_moves_reviewed[OF m] by auto
  ultimately show ?thesis by blast
qed

text \<open>An ordered order over two laptops, one of them asked for, and three memory modules of which one has arrived.\<close>

definition sample_request :: asset_request where
  "sample_request = \<lparr>rq_id = 95, rq_tenant = Some 2, rq_requester = 1, rq_asset = None, rq_asset_type = Some 70, rq_component = None,
     rq_accessory = None, rq_consumable = None, rq_qty = 1, rq_status = RequestProcurement, rq_date = 10, rq_response_date = None,
     rq_responded_by = None, rq_user = Some 60, rq_location = None, rq_target = None, rq_parent = None, rq_group = False,
     rq_response_notes = [], rq_deleted = None\<rparr>"

definition sample_order :: purchase_order where
  "sample_order = \<lparr>pu_id = 90, pu_tenant = Some 2, pu_number = ''PO-1'', pu_currency = ''EUR'', pu_status = OrderOrdered,
     pu_order_date = Some (Date 2025 1 1), pu_location = 20, pu_created_by = Some 1, pu_deleted = None\<rparr>"

definition sample_lines :: "po_line list" where
  "sample_lines =
     [\<lparr>pl_id = 91, pl_tenant = Some 2, pl_order = 90, pl_asset_type = Some 70, pl_component = None, pl_accessory = None,
       pl_consumable = None, pl_license = None, pl_ordered = 2, pl_received = 0, pl_unit_price = None, pl_deleted = None\<rparr>,
      \<lparr>pl_id = 92, pl_tenant = Some 2, pl_order = 90, pl_asset_type = None, pl_component = Some 50, pl_accessory = None,
       pl_consumable = None, pl_license = None, pl_ordered = 3, pl_received = 1, pl_unit_price = None, pl_deleted = None\<rparr>]"

definition sample_ordered :: estate where
  "sample_ordered = sample_estate\<lparr>es_orders := [sample_order], es_lines := sample_lines,
     es_links := [\<lparr>fl_id = 93, fl_tenant = Some 2, fl_request = 95, fl_line = 91, fl_allocated = 1, fl_received = Some 0, fl_deleted = None\<rparr>],
     es_requests := [sample_request]\<rparr>"

definition sample_receipt :: receipt where
  "sample_receipt = \<lparr>re_quantities = [(91, 2), (92, 1)],
     re_details = [\<lparr>ad_line = 91, ad_name = [], ad_serial = ''S1'', ad_tag = []\<rparr>],
     re_expected = [(91, 0), (92, 1)]\<rparr>"

definition sample_receiving :: "flow_error + estate" where
  "sample_receiving = receive_purchase_order \<lparr>rx_tenant = Some 2, rx_others = undisturbed, rx_today = Date 2025 2 1\<rparr>
     sample_receipt OrderOrdered 90 sample_ordered"

lemma sample_receiving_runs: "case sample_receiving of Inl _ \<Rightarrow> False
    | Inr db' \<Rightarrow> find_request db' 95 = Some (sample_request\<lparr>rq_status := RequestApproved, rq_asset := Some 81\<rparr>)"
  by code_simp

lemma request_status_machine_witness:
  "\<exists>db' r'. sample_receiving = Inr db' \<and> find_request db' 95 = Some r' \<and>
     (\<lambda>s t. t \<in> set (VALID_TRANSITIONS s))\<^sup>*\<^sup>* RequestProcurement (rq_status r') \<and> rq_status r' \<notin> {RequestPending, RequestDenied}"
proof -
  obtain db' where run: "sample_receiving = Inr db'" using sample_receiving_runs by (auto split: sum.splits)
  have steps: "request_step\<^sup>*\<^sup>* sample_ordered db'"
    using request_step.receive_order[OF run[unfolded sample_receiving_def]] by (rule r_into_rtranclp)
  have "find_request sample_ordered 95 = Some sample_request"
    by (simp add: find_request_def sample_ordered_def sample_request_def)
  note machine = request_status_machine[OF steps this]
  have "rq_status sample_request = RequestProcurement" by (simp add: sample_request_def)
  then show ?thesis using machine run by auto
qed

section \<open>Cancelling a group\<close>

lemma denied_stays:
  assumes "requests_evolve db db'" and "find_request db p = Some r" and "rq_status r = RequestDenied"
  shows "\<exists>r'. find_request db' p = Some r' \<and> rq_status r' = RequestDenied"
proof -
  obtain r' where "find_request db' p = Some r'" "request_moves (rq_status r) (rq_status r')"
    using assms(1,2) unfolding requests_evolve_def by blast
  then show ?thesis using request_moves_final[of "rq_status r" "rq_status r'"] assms(3) by (simp add: TERMINAL_STATUSES_def)
qed

lemma cancel_needs_transition:
  assumes "request_save ct (c\<lparr>rq_status := RequestCancelled\<rparr>) db = Inr db'" and "find_request db (rq_id c) = Some old"
  shows "rq_status old \<noteq> RequestDenied"
  using assms by (auto simp: request_save_def with_tenant_def request_store_def request_clean_def request_transition_ok_def bindE_eq_Inr
      require_eq_Inr split: if_splits)

lemma request_save_tables:
  "request_save ct r db = Inr db' \<Longrightarrow> es_requests db' = save_row rq_id (with_tenant ct r) (es_requests db)"
  by (auto simp: request_save_def request_store_def bindE_eq_Inr)

text \<open>A request group with a denied unit can never be cancelled: RequestCancelView takes every unit that is
  neither cancelled nor fulfilled, a denied one included, and the validation of that unit refuses the
  move from denied to cancelled, which rolls the whole cancellation back.\<close>

theorem denied_unit_blocks_group_cancel:
  assumes "keyed rq_id (es_requests db)" and "find_request db p = Some r" and "rq_group r"
    and "c \<in> set (sub_requests db p)" and "rq_status c = RequestDenied" and "rq_id c \<noteq> p"
  shows "\<exists>e w'. cancel_asset_request allowed ct now p db w = (Inl e, w')"
proof (rule ccontr)
  assume "\<not> ?thesis"
  then obtain db' w' where "cancel_asset_request allowed ct now p db w = (Inr db', w')"
    by (cases "cancel_asset_request allowed ct now p db w" rule: prod.exhaust; cases "fst (cancel_asset_request allowed ct now p db w)") auto
  then obtain x rows w1 where x: "find_row rq_id p rows = Some x" "scoped_requests db now w = (rows, w1)"
    and run: "cancel_locked_request ct now x db = Inr db'"
    by (auto simp: cancel_asset_request_def scoped_request_def Let_def split: if_splits prod.splits option.splits)
  have "x \<in> set (es_requests db)" "rq_id x = p"
    using find_row_SomeD[OF x(1)] x(2) by (auto simp: scoped_requests_def Let_def split: prod.splits)
  then have x: "x = r" using assms(1,2) by (metis find_request_def find_row_iff option.inject)
  have c: "find_request db (rq_id c) = Some c" and child: "rq_parent c = Some p" "rq_deleted c = None"
    using assms(1,4) by (auto simp: find_request_def sub_requests_def find_row_mem)
  obtain db1 db2 where one: "request_save ct (r\<lparr>rq_status := RequestCancelled\<rparr>) db = Inr db1"
    and units: "each (\<lambda>c. request_save ct (c\<lparr>rq_status := RequestCancelled\<rparr>))
      (by_request_date (filter (\<lambda>c. rq_status c \<notin> {RequestCancelled, RequestFulfilled}) (sub_requests db1 p))) db1 = Inr db2"
    using cancel_lockedE[OF run] assms(3) \<open>rq_id x = p\<close> unfolding x by metis
  have "c \<in> set (es_requests db)" using assms(4) by (simp add: sub_requests_def)
  then have "c \<in> set (es_requests db1)"
    using assms(6) \<open>rq_id x = p\<close> unfolding request_save_tables[OF one] x
    by (auto simp: save_row_def with_tenant_def intro!: image_eqI[of c _ c])
  then have "c \<in> set (by_request_date (filter (\<lambda>c. rq_status c \<notin> {RequestCancelled, RequestFulfilled}) (sub_requests db1 p)))"
    using child assms(5) by (simp add: by_request_date_def sub_requests_def)
  then obtain t t' where t: "requests_evolve db1 t" "request_save ct (c\<lparr>rq_status := RequestCancelled\<rparr>) t = Inr t'"
    using evolve.each_member[OF _ units] evolve.request_save_rel by blast
  have "requests_evolve db t" using evolve.request_save_rel[OF one] t(1) by (rule evolve.trans)
  from denied_stays[OF this c assms(5)] show False using cancel_needs_transition[OF t(2)] by auto
qed

definition sample_group :: estate where
  "sample_group = sample_estate\<lparr>es_requests :=
     [sample_request\<lparr>rq_group := True, rq_qty := 2, rq_status := RequestApproved\<rparr>,
      sample_request\<lparr>rq_id := 96, rq_parent := Some 95, rq_status := RequestDenied\<rparr>,
      sample_request\<lparr>rq_id := 97, rq_parent := Some 95, rq_status := RequestApproved\<rparr>]\<rparr>"

lemma denied_unit_blocks_group_cancel_witness:
  "\<exists>e w'. cancel_asset_request True (Some 2) 50 95 sample_group sample_world = (Inl e, w')"
proof (rule denied_unit_blocks_group_cancel)
  show "keyed rq_id (es_requests sample_group)" by (simp add: sample_group_def keyed_def sample_request_def)
  show "find_request sample_group 95 = Some (sample_request\<lparr>rq_group := True, rq_qty := 2, rq_status := RequestApproved\<rparr>)"
    by (simp add: sample_group_def find_request_def sample_request_def)
  show "sample_request\<lparr>rq_id := 96, rq_parent := Some 95, rq_status := RequestDenied\<rparr> \<in> set (sub_requests sample_group 95)"
    by (simp add: sample_group_def sub_requests_def sample_request_def)
qed (simp_all add: sample_request_def)

end

