(* ===== verification/OrderSafety.thy ===== *)
theory OrderSafety
  imports RequestSafety
begin

text \<open>
  What purchase orders go through: the order of approval, ordering and receipt, what a receipt books,
  why it is booked once, and what a cancellation gives back.
\<close>

section \<open>The life of an order\<close>

text \<open>What the services do before the order row itself is saved leaves every order as it is.\<close>

interpretation kept: flow_relation "\<lambda>s t. es_orders t = es_orders s"
proof
  show "es_orders db' = es_orders db" if "request_store r db = Inr db'" for r db db'
    using that by (auto simp: request_store_def bindE_eq_Inr)
  show "es_orders db' = es_orders db" if "asset_create others a db = Inr (a2, db')" for others a a2 db db'
    using that by (auto simp: asset_create_def Let_def bindE_eq_Inr prepare_asset_tag_def split: if_splits prod.splits sum.splits)
qed simp_all

text \<open>A step names the order it moves, or nothing; an approval names the user who approved.\<close>

inductive order_step :: "estate \<Rightarrow> (order_action \<times> pk \<times> pk option) option \<Rightarrow> estate \<Rightarrow> bool" where
  approve: "approve_purchase_order u p db = Inr db' \<Longrightarrow> order_step db (Some (ApproveOrder, p, u)) db'"
| place: "order_purchase_order today p db = Inr db' \<Longrightarrow> order_step db (Some (PlaceOrder, p, None)) db'"
| receive: "receive_purchase_order cx rc submitted p db = Inr db' \<Longrightarrow> order_step db (Some (ReceiveOrder, p, None)) db'"
| cancel: "cancel_purchase_order now p db = Inr db' \<Longrightarrow> order_step db (Some (CancelOrder, p, None)) db'"
| reopen: "reopen_purchase_order p db = Inr db' \<Longrightarrow> order_step db (Some (ReopenOrder, p, None)) db'"
| link: "link_asset_request_to_purchase_order p rid usr now db w = (Inr db', w') \<Longrightarrow> order_step db None db'"
| request_new: "request_create th ct skip now r db w = (Inr (row, db'), w') \<Longrightarrow> order_step db None db'"
| request_edit: "request_save ct r db = Inr db' \<Longrightarrow> order_step db None db'"
| request_approve: "approve_asset_request ct p allocated qty note actor now db w = (Inr db', w') \<Longrightarrow> order_step db None db'"
| request_deny: "deny_asset_request ct p note actor now db w = (Inr db', w') \<Longrightarrow> order_step db None db'"
| request_cancel: "cancel_asset_request allowed ct now p db w = (Inr db', w') \<Longrightarrow> order_step db None db'"
| request_complete: "manually_complete_request ct actor reason confirmed now p (trail, db) w = (Inr (trail', db'), w') \<Longrightarrow>
    order_step db None db'"

inductive order_run :: "estate \<Rightarrow> (order_action \<times> pk \<times> pk option) option list \<Rightarrow> estate \<Rightarrow> bool" where
  start: "order_run db [] db"
| more: "order_run db es db1 \<Longrightarrow> order_step db1 e db2 \<Longrightarrow> order_run db (es @ [e]) db2"

lemma transition_effect:
  assumes "transition_purchase_order po act target db = Inr db'"
  shows "\<exists>s \<in> set (PURCHASE_ORDER_TRANSITIONS act (pu_status po)). (target = None \<or> target = Some s) \<and> db' = order_save (po\<lparr>pu_status := s\<rparr>) db"
  using assms by (auto simp: transition_purchase_order_def Let_def bindE_eq_Inr split: option.splits list.splits if_splits)

lemma lock_order_ok: "lock_purchase_order db p = Inr po \<Longrightarrow> find_order db p = Some po \<and> pu_deleted po = None \<and> pu_id po = p"
  by (auto simp: lock_purchase_order_def find_order_def dest: find_row_SomeD split: option.splits if_splits)

text \<open>What a step does to the orders.\<close>

definition order_effect :: "estate \<Rightarrow> order_action \<Rightarrow> pk \<Rightarrow> pk option \<Rightarrow> estate \<Rightarrow> bool" where
  "order_effect db act p u db' \<longleftrightarrow> (\<exists>po s d. find_order db p = Some po \<and> pu_id po = p \<and>
     s \<in> set (PURCHASE_ORDER_TRANSITIONS act (pu_status po)) \<and>
     es_orders db' = save_row pu_id (po\<lparr>pu_order_date := d, pu_status := s\<rparr>) (es_orders db) \<and>
     (act = ApproveOrder \<longrightarrow> u = None \<or> pu_created_by po = None \<or> pu_created_by po \<noteq> u))"

lemma transition_order_effect:
  assumes "transition_purchase_order (po\<lparr>pu_order_date := d\<rparr>) act target db1 = Inr db'" and "lock_purchase_order db p = Inr po"
    and "es_orders db1 = es_orders db" and "act = ApproveOrder \<longrightarrow> u = None \<or> pu_created_by po = None \<or> pu_created_by po \<noteq> u"
  shows "order_effect db act p u db'"
proof -
  obtain s where s: "s \<in> set (PURCHASE_ORDER_TRANSITIONS act (pu_status po))"
    "db' = order_save (po\<lparr>pu_order_date := d, pu_status := s\<rparr>) db1" using transition_effect[OF assms(1)] by auto
  have "es_orders db' = save_row pu_id (po\<lparr>pu_order_date := d, pu_status := s\<rparr>) (es_orders db)"
    using s(2) assms(3) by (simp add: order_save_def)
  then show ?thesis using lock_order_ok[OF assms(2)] s(1) assms(4) unfolding order_effect_def by blast
qed

lemma same_date_effect:
  assumes "transition_purchase_order po act target db1 = Inr db'" and "lock_purchase_order db p = Inr po"
    and "es_orders db1 = es_orders db" and "act = ApproveOrder \<longrightarrow> u = None \<or> pu_created_by po = None \<or> pu_created_by po \<noteq> u"
  shows "order_effect db act p u db'"
proof -
  have "po\<lparr>pu_order_date := pu_order_date po\<rparr> = po" by simp
  then show ?thesis using transition_order_effect[where po = po and d = "pu_order_date po"] assms by simp
qed

lemma approve_effect: "approve_purchase_order u p db = Inr db' \<Longrightarrow> order_effect db ApproveOrder p u db'"
  unfolding approve_purchase_order_def by (auto simp: bindE_eq_Inr split: if_splits intro!: same_date_effect)

lemma place_effect:
  assumes "order_purchase_order today p db = Inr db'"
  shows "order_effect db PlaceOrder p None db'"
proof -
  obtain po where po: "lock_purchase_order db p = Inr po"
    and t: "transition_purchase_order (if pu_order_date po = None then po\<lparr>pu_order_date := Some today\<rparr> else po) PlaceOrder None db = Inr db'"
    using assms by (auto simp: order_purchase_order_def bindE_eq_Inr)
  have "(if pu_order_date po = None then po\<lparr>pu_order_date := Some today\<rparr> else po) =
      po\<lparr>pu_order_date := (if pu_order_date po = None then Some today else pu_order_date po)\<rparr>" by simp
  from transition_order_effect[OF t[unfolded this] po] show ?thesis by simp
qed

lemma reopen_effect: "reopen_purchase_order p db = Inr db' \<Longrightarrow> order_effect db ReopenOrder p None db'"
  unfolding reopen_purchase_order_def by (auto simp: bindE_eq_Inr intro!: same_date_effect)

lemma receive_effect:
  assumes "receive_purchase_order cx rc submitted p db = Inr db'"
  shows "order_effect db ReceiveOrder p None db'"
proof (rule receive_purchase_orderE[OF assms])
  fix po label db1 db2
  assume po: "lock_purchase_order db p = Inr po"
    and one: "lock_receipt_stock_rows rc (order_lines db (pu_id po)) (pu_location po) db = Inr db1"
    and two: "each (receive_line cx rc po label) (order_lines db (pu_id po)) db1 = Inr db2"
    and three: "transition_purchase_order po ReceiveOrder
       (Some (if \<exists>l \<in> set (order_lines db (pu_id po)). still_outstanding rc l then OrderPartial else OrderReceived)) db2 = Inr db'"
  have "es_orders db2 = es_orders db1" by (rule kept.each_rel[OF _ two]) (rule kept.receive_line_rel)
  then have "es_orders db2 = es_orders db" using kept.stock_rows_rel[OF one] by simp
  then show ?thesis using same_date_effect[OF three po] by simp
qed

lemma cancel_effect:
  assumes "cancel_purchase_order now p db = Inr db'"
  shows "order_effect db CancelOrder p None db'"
proof (rule cancel_purchase_orderE[OF assms])
  fix po links reverted db1 db2 db3 db4
  assume po: "lock_purchase_order db p = Inr po" and run: "revert_requests links db = Inr (reverted, db1)" "each (link_delete now) links db1 = Inr db2"
    "each (line_delete now) (filter (\<lambda>l. pl_id l \<in> set (map fl_line links)) (order_lines db p)) db2 = Inr db3"
    "approve_completed_group_parents reverted db3 = Inr db4" "transition_purchase_order po CancelOrder None db4 = Inr db'"
  have "es_orders db2 = es_orders db1" by (rule kept.each_rel[OF _ run(2)]) (simp add: link_delete_def kept.link_save_rel)
  moreover have "es_orders db3 = es_orders db2" by (rule kept.each_rel[OF _ run(3)]) (simp add: line_delete_def kept.line_save_rel)
  ultimately have "es_orders db4 = es_orders db" using kept.revert_rel[OF run(1)] kept.approve_parents_rel[OF run(4)] by simp
  then show ?thesis using same_date_effect[OF run(5) po] by simp
qed

lemma order_step_effect:
  "order_step db e db' \<Longrightarrow> (case e of None \<Rightarrow> es_orders db' = es_orders db | Some (act, p, u) \<Rightarrow> order_effect db act p u db')"
proof (induction rule: order_step.induct)
  case (request_new th ct skip now r db w row db' w')
  then show ?case using create_frame by fastforce
next
  case (request_cancel allowed ct now p db w db' w')
  then show ?case by (auto simp: cancel_asset_request_def split: if_splits prod.splits option.splits intro: kept.cancel_locked_rel)
qed (simp_all add: approve_effect place_effect receive_effect cancel_effect reopen_effect kept.link_rel kept.request_save_rel
      kept.approve_request_rel kept.deny_request_rel kept.manual_rel)

text \<open>What a run has shown of an order \<open>q\<close> since it was \<open>po\<close>.\<close>

definition order_history :: "(order_action \<times> pk \<times> pk option) option list \<Rightarrow> pk \<Rightarrow> purchase_order \<Rightarrow> purchase_order \<Rightarrow> bool" where
  "order_history es q po po' \<longleftrightarrow> pu_created_by po' = pu_created_by po \<and>
     (pu_status po = OrderReceived \<longrightarrow> pu_status po' = OrderReceived) \<and>
     (pu_status po \<in> {OrderDraft, OrderCancelled} \<longrightarrow> pu_status po' \<notin> {OrderDraft, OrderCancelled} \<longrightarrow>
        (\<exists>u. Some (ApproveOrder, q, u) \<in> set es \<and> (u = None \<or> pu_created_by po = None \<or> pu_created_by po \<noteq> u)))"

lemma transitions_from:
  "s \<in> set (PURCHASE_ORDER_TRANSITIONS act t) \<Longrightarrow>
     t \<noteq> OrderReceived \<and> (act \<noteq> ApproveOrder \<longrightarrow> t \<in> {OrderDraft, OrderCancelled} \<longrightarrow> s \<in> {OrderDraft, OrderCancelled})"
  by (cases act; cases t) auto

lemma order_history_move:
  assumes "order_history es q po po1" and "s \<in> set (PURCHASE_ORDER_TRANSITIONS act (pu_status po1))"
    and "act = ApproveOrder \<longrightarrow> u = None \<or> pu_created_by po1 = None \<or> pu_created_by po1 \<noteq> u"
  shows "order_history (es @ [Some (act, q, u)]) q po (po1\<lparr>pu_order_date := d, pu_status := s\<rparr>)"
proof -
  note moves = transitions_from[OF assms(2)]
  have c: "pu_created_by po1 = pu_created_by po" and r: "pu_status po \<noteq> OrderReceived"
    and a: "pu_status po \<in> {OrderDraft, OrderCancelled} \<Longrightarrow> pu_status po1 \<notin> {OrderDraft, OrderCancelled} \<Longrightarrow>
       \<exists>u. Some (ApproveOrder, q, u) \<in> set es \<and> (u = None \<or> pu_created_by po = None \<or> pu_created_by po \<noteq> u)"
    using assms(1) moves unfolding order_history_def by argo+
  have "\<exists>u'. Some (ApproveOrder, q, u') \<in> set (es @ [Some (act, q, u)]) \<and> (u' = None \<or> pu_created_by po = None \<or> pu_created_by po \<noteq> u')"
    if p: "pu_status po \<in> {OrderDraft, OrderCancelled}" and s: "s \<notin> {OrderDraft, OrderCancelled}"
  proof (cases "act = ApproveOrder")
    case True
    then show ?thesis using assms(3) c by (intro exI[of _ u]) simp
  next
    case False
    then have "pu_status po1 \<notin> {OrderDraft, OrderCancelled}" using moves s by blast
    from a[OF p this] show ?thesis by auto
  qed
  then show ?thesis using c r unfolding order_history_def by simp
qed

lemma order_history_step:
  assumes "order_history es q po po1" and "find_order db1 q = Some po1" and "order_step db1 e db2"
  shows "\<exists>po2. find_order db2 q = Some po2 \<and> order_history (es @ [e]) q po po2"
proof -
  have weak: "order_history (es @ [e]) q po po1" using assms(1) unfolding order_history_def by auto
  consider (kept) "es_orders db2 = es_orders db1" | (moved) act p u where "e = Some (act, p, u)" "order_effect db1 act p u db2"
    using order_step_effect[OF assms(3)] by (auto split: option.splits)
  then show ?thesis
  proof cases
    case kept
    then show ?thesis using weak assms(2) by (auto simp: find_order_def)
  next
    case moved
    from moved(2)[unfolded order_effect_def] obtain x s d where x: "find_order db1 p = Some x" "pu_id x = p"
      and s: "s \<in> set (PURCHASE_ORDER_TRANSITIONS act (pu_status x))"
      and o: "es_orders db2 = save_row pu_id (x\<lparr>pu_order_date := d, pu_status := s\<rparr>) (es_orders db1)"
      and u: "act = ApproveOrder \<longrightarrow> u = None \<or> pu_created_by x = None \<or> pu_created_by x \<noteq> u" by blast
    show ?thesis
    proof (cases "p = q")
      case True
      then have x1: "x = po1" using x assms(2) by simp
      have "find_order db2 q = Some (po1\<lparr>pu_order_date := d, pu_status := s\<rparr>)"
        using x True x1 by (simp add: find_order_def o find_row_save_row)
      moreover have "order_history (es @ [Some (act, q, u)]) q po (po1\<lparr>pu_order_date := d, pu_status := s\<rparr>)"
        by (rule order_history_move[OF assms(1)]) (use s u x1 in simp_all)
      ultimately show ?thesis unfolding moved(1) True by blast
    next
      case False
      then have "find_order db2 q = Some po1" using x assms(2) by (simp add: find_order_def o find_row_save_row)
      then show ?thesis using weak by blast
    qed
  qed
qed

text \<open>C24. No order is placed or received on its creator's own word: a run that takes a draft or cancelled order to
  approved, ordered, partially received or received contains an approval of that very order, and the
  approving user is not the user who created it (an approval without a user and an order without a
  creator are the internal calls that the code lets pass).  The creator of an order never changes, and
  a received order stays received whatever is called.\<close>

theorem received_orders_were_approved:
  assumes "order_run db es db'" and "find_order db q = Some po"
  shows "\<exists>po'. find_order db' q = Some po' \<and> pu_created_by po' = pu_created_by po \<and>
           (pu_status po = OrderReceived \<longrightarrow> pu_status po' = OrderReceived) \<and>
           (pu_status po \<in> {OrderDraft, OrderCancelled} \<and> pu_status po' \<in> {OrderApproved, OrderOrdered, OrderPartial, OrderReceived} \<longrightarrow>
              (\<exists>u. Some (ApproveOrder, q, u) \<in> set es \<and> (u = None \<or> pu_created_by po = None \<or> pu_created_by po \<noteq> u)))"
proof -
  have "\<exists>po'. find_order db' q = Some po' \<and> order_history es q po po'"
    using assms
  proof (induction rule: order_run.induct)
    case (start db)
    then show ?case by (auto simp: order_history_def)
  next
    case (more db es db1 e db2)
    then show ?case using order_history_step by blast
  qed
  then show ?thesis unfolding order_history_def by fastforce
qed


definition sample_draft :: estate where
  "sample_draft = sample_ordered\<lparr>es_orders := [sample_order\<lparr>pu_status := OrderDraft\<rparr>]\<rparr>"

definition sample_calls :: "(order_action \<times> pk \<times> pk option) option list" where
  "sample_calls = [Some (ApproveOrder, 90, Some 9), Some (PlaceOrder, 90, None)]"

definition sample_placing :: "flow_error + estate" where
  "sample_placing = bindE (approve_purchase_order (Some 9) 90 sample_draft) (order_purchase_order (Date 2025 1 3) 90)"

lemma sample_placing_runs: "case sample_placing of Inl _ \<Rightarrow> False | Inr db \<Rightarrow> map_option pu_status (find_order db 90) = Some OrderOrdered"
  by code_simp

lemma received_orders_were_approved_witness:
  "\<exists>db po'. sample_placing = Inr db \<and> find_order db 90 = Some po' \<and> pu_status po' = OrderOrdered \<and> pu_created_by po' = Some 1 \<and>
     (\<exists>u. Some (ApproveOrder, 90, u) \<in> set sample_calls \<and> u \<noteq> Some 1)"
proof -
  obtain db where run: "sample_placing = Inr db" and st: "map_option pu_status (find_order db 90) = Some OrderOrdered"
    using sample_placing_runs by (auto split: sum.splits)
  then obtain db1 where one: "approve_purchase_order (Some 9) 90 sample_draft = Inr db1"
    and two: "order_purchase_order (Date 2025 1 3) 90 db1 = Inr db" unfolding sample_placing_def by (auto simp: bindE_eq_Inr)
  let ?po = "sample_order\<lparr>pu_status := OrderDraft\<rparr>"
  have steps: "order_run sample_draft sample_calls db"
    using order_run.more[OF order_run.more[OF order_run.start order_step.approve[OF one]] order_step.place[OF two]] by (simp add: sample_calls_def)
  have draft: "find_order sample_draft 90 = Some ?po" by (simp add: sample_draft_def find_order_def sample_order_def)
  have po: "pu_status ?po = OrderDraft" "pu_created_by ?po = Some 1" by (simp_all add: sample_order_def)
  from received_orders_were_approved[OF steps draft, unfolded po] obtain po' where
    po': "find_order db 90 = Some po'" "pu_created_by po' = Some 1"
    and approved: "OrderDraft \<in> {OrderDraft, OrderCancelled} \<and> pu_status po' \<in> {OrderApproved, OrderOrdered, OrderPartial, OrderReceived} \<longrightarrow>
       (\<exists>u. Some (ApproveOrder, 90, u) \<in> set sample_calls \<and>
         (u = None \<or> Some (1 :: pk) = None \<or> Some 1 \<noteq> u))" by blast
  have "pu_status po' = OrderOrdered" using st po'(1) by simp
  with approved have "\<exists>u. Some (ApproveOrder, 90, u) \<in> set sample_calls \<and> u \<noteq> Some 1"
    by auto
  then show ?thesis using run po' \<open>pu_status po' = OrderOrdered\<close> by blast
qed

end
