(* ===== verification/ReceiptBooking.thy ===== *)
theory ReceiptBooking
  imports OrderSafety AssetInvariant
begin

text \<open>
  What a receipt books: the received quantities of the lines, one asset per unit of an asset line, the
  stock of the destination for every other line, and the status of the order.
\<close>

section \<open>Stock of a place\<close>

definition booked_stock :: "estate \<Rightarrow> item_kind \<Rightarrow> pk \<Rightarrow> pk \<Rightarrow> int" where
  "booked_stock db k i l = sum_list (map po_qty (filter (\<lambda>p. pool_of k i l p \<and> po_deleted p = None) (iv_pools db)))"

definition pool_keys_ok :: "estate \<Rightarrow> bool" where
  "pool_keys_ok db \<longleftrightarrow> distinct (map (\<lambda>p. (po_kind p, po_id p)) (iv_pools db))"

lemma ensure_stock_row_books:
  assumes "ensure_stock_row k l i db = Inr db'" and "pool_keys_ok db"
  shows "pool_keys_ok db' \<and> booked_stock db' = booked_stock db \<and> es_lines db' = es_lines db \<and> es_assets db' = es_assets db"
proof (cases "\<exists>p \<in> set (iv_pools db). pool_of k i l p \<and> po_deleted p = None")
  case False
  then obtain t where db': "db' = db\<lparr>iv_pools := iv_pools db @ [\<lparr>po_kind = k, po_id = next_id (map po_id (iv_pools db)), po_item = i,
      po_location = l, po_tenant = t, po_qty = 0, po_deleted = None\<rparr>]\<rparr>"
    using assms(1)[unfolded ensure_stock_row_def if_not_P[OF False]] by (auto split: option.splits)
  have "next_id (map po_id (iv_pools db)) \<noteq> po_id p" if "p \<in> set (iv_pools db)" for p
    using next_id_fresh[of "po_id p" "map po_id (iv_pools db)"] that by auto
  then show ?thesis using assms(2) by (auto simp: db' pool_keys_ok_def booked_stock_def fun_eq_iff)
qed (use assms in \<open>simp add: ensure_stock_row_def\<close>)

lemma ensure_rows_book:
  "each (ensure_stock_row k l) items db = Inr db' \<Longrightarrow> pool_keys_ok db \<Longrightarrow>
     pool_keys_ok db' \<and> booked_stock db' = booked_stock db \<and> es_lines db' = es_lines db \<and> es_assets db' = es_assets db"
proof (induction items arbitrary: db)
  case (Cons i items)
  then obtain db1 where "ensure_stock_row k l i db = Inr db1" "each (ensure_stock_row k l) items db1 = Inr db'" by (auto simp: bindE_eq_Inr)
  then show ?case using ensure_stock_row_books[of k l i db db1] Cons.IH[of db1] Cons.prems(2) by simp
qed simp

lemma stock_rows_book:
  assumes "lock_receipt_stock_rows rc lines loc db = Inr db'" and "pool_keys_ok db"
  shows "pool_keys_ok db' \<and> booked_stock db' = booked_stock db \<and> es_lines db' = es_lines db \<and> es_assets db' = es_assets db"
  using assms unfolding lock_receipt_stock_rows_def bindE_eq_Inr by (auto dest!: ensure_rows_book)

lemma grow_stock_row_books:
  assumes "grow_stock_row k i l q db = Inr db'" and "pool_keys_ok db"
  shows "pool_keys_ok db'" "booked_stock db' k' i' l = booked_stock db k' i' l + (if k' = k \<and> i' = i then q else 0)"
    "es_lines db' = es_lines db" "es_assets db' = es_assets db"
proof -
  obtain p where p: "List.find (\<lambda>p. pool_of k i l p \<and> po_deleted p = None) (iv_pools db) = Some p"
    and db': "db' = db\<lparr>iv_pools := set_pool_qty p (po_qty p + q) (iv_pools db)\<rparr>"
    using assms(1) by (auto simp: grow_stock_row_def split: option.splits if_splits)
  have pool: "p \<in> set (iv_pools db)" "pool_of k i l p" "po_deleted p = None" using find_SomeD[OF p] by auto
  show "pool_keys_ok db'" "es_lines db' = es_lines db" "es_assets db' = es_assets db"
    using assms(2) by (simp_all add: pool_keys_ok_def db' set_pool_qty_keys)
  show "booked_stock db' k' i' l = booked_stock db k' i' l + (if k' = k \<and> i' = i then q else 0)"
    using sum_set_pool_qty[OF assms(2)[unfolded pool_keys_ok_def] pool(1), of "\<lambda>p. pool_of k' i' l p \<and> po_deleted p = None" "po_qty p + q"] pool
    by (auto simp: booked_stock_def db' pool_of_def)
qed

section \<open>Lines\<close>

text \<open>Attribution to requests touches links and requests only.\<close>

interpretation still: request_relation "\<lambda>s t. iv_pools t = iv_pools s \<and> es_lines t = es_lines s \<and> es_assets t = es_assets s"
  by unfold_locales (auto simp: request_store_def bindE_eq_Inr)

definition delivered :: "po_line \<Rightarrow> purchase_order \<Rightarrow> asset \<Rightarrow> bool" where
  "delivered l po a \<longleftrightarrow> as_line a = Some (pl_id l) \<and> as_type a = pl_asset_type l \<and> as_tenant a = pu_tenant po \<and> as_location a = Some (pu_location po)"

lemma created_delivered:
  assumes "asset_create others (received_asset db detail line po label today) db = Inr (a, db')"
  shows "delivered line po a \<and> iv_pools db' = iv_pools db \<and> es_lines db' = es_lines db \<and> es_assets db' = es_assets db @ [a]"
proof (rule asset_createE[OF assms])
  fix s assume same: "same_instance (received_asset db detail line po label today\<lparr>as_id := as_id a\<rparr>) a"
    and db': "db' = db\<lparr>es_sequences := s, es_assets := es_assets db @ [a]\<rparr>"
  have "as_line a = Some (pl_id line)"
    using arg_cong[OF same[unfolded same_instance_def], of as_line] by (simp add: without_stamps_def received_asset_def Let_def)
  then have "delivered line po a" using same_instanceD[OF same] by (simp add: delivered_def received_asset_def Let_def)
  then show ?thesis by (simp add: db')
qed

lemma units_booked:
  "receive_units cx line po label n details pairs db = Inr (served, db') \<Longrightarrow>
     iv_pools db' = iv_pools db \<and> es_lines db' = es_lines db \<and>
     (\<exists>new. es_assets db' = es_assets db @ new \<and> length new = n \<and> (\<forall>a \<in> set new. delivered line po a))"
proof (induction n arbitrary: details pairs db served db')
  case (Suc n)
  let ?a = "received_asset db (case details of [] \<Rightarrow> None | d # _ \<Rightarrow> Some d) line po label (rx_today cx)"
  obtain a db1 where one: "asset_create (rx_others cx) ?a db = Inr (a, db1)"
    and rest: "(case pairs of [] \<Rightarrow> receive_units cx line po label n (tl details) [] db1
        | (r, l) # rest \<Rightarrow> bindE (allocate_unit cx a r l db1) (\<lambda>db2.
            bindE (receive_units cx line po label n (tl details) rest db2) (\<lambda>(served, db3). Inr (r # served, db3)))) = Inr (served, db')"
    using bindE_pairD[OF Suc.prems[unfolded receive_units.simps]] by (auto simp: map_sum_def split: sum.splits)
  obtain db2 pairs' served' where mid: "iv_pools db2 = iv_pools db1 \<and> es_lines db2 = es_lines db1 \<and> es_assets db2 = es_assets db1"
    and units: "receive_units cx line po label n (tl details) pairs' db2 = Inr (served', db')"
  proof (cases pairs)
    case Nil
    then show thesis using rest that by auto
  next
    case (Cons p ps)
    obtain r l where p: "p = (r, l)" by force
    then obtain db2 s2 where "allocate_unit cx a r l db1 = Inr db2" "receive_units cx line po label n (tl details) ps db2 = Inr (s2, db')"
      using rest by (auto simp: Cons bindE_eq_Inr dest!: bindE_pairD)
    then show thesis using that still.allocate_unit_rel by blast
  qed
  from Suc.IH[OF units] obtain new where "es_assets db' = es_assets db2 @ new" "length new = n" "\<forall>a \<in> set new. delivered line po a"
    and same: "iv_pools db' = iv_pools db2 \<and> es_lines db' = es_lines db2" by blast
  then show ?case using created_delivered[OF one] mid by (intro conjI exI[of _ "a # new"]) simp_all
qed simp

lemma asset_line_books:
  assumes "receive_asset_line cx line q details po label db = Inr db'"
  shows "iv_pools db' = iv_pools db \<and> es_lines db' = es_lines db \<and>
    (\<exists>new. es_assets db' = es_assets db @ new \<and> length new = nat q \<and> (\<forall>a \<in> set new. delivered line po a))"
proof -
  obtain served db1 where "receive_units cx line po label (nat q) details (receivable_fulfillment_pairs db (pl_id line)) db = Inr (served, db1)"
    "approve_completed_group_parents served db1 = Inr db'"
    using bindE_pairD[OF assms[unfolded receive_asset_line_def]] by blast
  then show ?thesis using units_booked still.approve_parents_rel by metis
qed

lemma stock_line_books:
  assumes "receive_stock_line line q loc db = Inr db'" and "pool_keys_ok db" and "line_clean line = Inr ()" and "pl_asset_type line = None"
  shows "pool_keys_ok db' \<and> es_lines db' = es_lines db \<and> es_assets db' = es_assets db \<and>
    (\<forall>k i. booked_stock db' k i loc = booked_stock db k i loc + (if line_item k line = Some i then q else 0))"
proof -
  have grown: "pool_keys_ok db' \<and> es_lines db' = es_lines db \<and> es_assets db' = es_assets db \<and>
      (\<forall>k i. booked_stock db' k i loc = booked_stock db k i loc + (if k = k0 \<and> i = i0 then q else 0))"
    if run: "bindE (grow_stock_row k0 i0 loc q db) (attribute_quantity_receipt (pl_id line) q) = Inr db'" for k0 i0
  proof -
    obtain db1 where one: "grow_stock_row k0 i0 loc q db = Inr db1" and two: "attribute_quantity_receipt (pl_id line) q db1 = Inr db'"
      using run by (auto simp: bindE_eq_Inr)
    from still.attribute_receipt_rel[OF two] grow_stock_row_books[OF one assms(2)] show ?thesis
      by (simp add: booked_stock_def pool_keys_ok_def)
  qed
  have one_item: "\<And>k k' i i'. line_item k line = Some i \<Longrightarrow> line_item k' line = Some i' \<Longrightarrow> k' = k \<and> i' = i"
    using assms(3) by (auto simp: line_clean_def line_item_def Let_def split: if_splits item_kind.splits)
  show ?thesis
  proof (cases "\<exists>k i. line_item k line = Some i")
    case True
    then obtain k0 i0 where item: "line_item k0 line = Some i0" by blast
    have "bindE (grow_stock_row k0 i0 loc q db) (attribute_quantity_receipt (pl_id line) q) = Inr db'"
    proof -
      have none: "line_item k line = None" if "k \<noteq> k0" for k
        using one_item[OF item, of k] that by (cases "line_item k line") auto
      show ?thesis
        using assms(1) item none[of Component] none[of Accessory] unfolding receive_stock_line_def Let_def
        by (cases k0) (simp_all add: line_item_def)
    qed
    moreover have "(line_item k line = Some i) = (k = k0 \<and> i = i0)" for k i using one_item[OF item] item by blast
    ultimately show ?thesis using grown by simp
  next
    case False
    then have "db' = db" using assms(1) by (auto simp: receive_stock_line_def line_item_def Let_def split: option.splits item_kind.splits)
    then show ?thesis using False assms(2) by auto
  qed
qed

text \<open>The line row after the receipt, also where nothing is received for it.\<close>

definition received_line :: "receipt \<Rightarrow> po_line \<Rightarrow> po_line" where
  "received_line rc l = l\<lparr>pl_received := pl_received l + max 0 (received_qty rc (pl_id l))\<rparr>"

lemma received_line_fields [simp]:
  "pl_id (received_line rc l) = pl_id l" "pl_order (received_line rc l) = pl_order l" "pl_deleted (received_line rc l) = pl_deleted l"
  "pl_received (received_line rc l) = pl_received l + max 0 (received_qty rc (pl_id l))"
  by (simp_all add: received_line_def)

definition asset_units :: "receipt \<Rightarrow> po_line \<Rightarrow> nat" where
  "asset_units rc l = (if pl_asset_type l = None then 0 else nat (received_qty rc (pl_id l)))"

definition stock_units :: "receipt \<Rightarrow> item_kind \<Rightarrow> pk \<Rightarrow> po_line \<Rightarrow> int" where
  "stock_units rc k i l = (if line_item k l = Some i then max 0 (received_qty rc (pl_id l)) else 0)"

lemma save_row_one:
  assumes "keyed key rows" and "x \<in> set rows" and "key y = key x"
  shows "save_row key y rows = map (\<lambda>z. if z = x then y else z) rows"
  unfolding save_row_def by (rule map_cong) (use assms keyed_inj[of key rows] in auto)

lemma line_books:
  assumes "receive_line cx rc po label l db = Inr db'" and "pool_keys_ok db" and "keyed pl_id (es_lines db)" and "l \<in> set (es_lines db)"
  shows "pool_keys_ok db'" "es_lines db' = map (\<lambda>x. if x = l then received_line rc l else x) (es_lines db)"
    "\<exists>new. es_assets db' = es_assets db @ new \<and> length new = asset_units rc l \<and> (\<forall>a \<in> set new. delivered l po a)"
    "booked_stock db' k i (pu_location po) = booked_stock db k i (pu_location po) + stock_units rc k i l"
    "max 0 (received_qty rc (pl_id l)) \<le> line_outstanding l"
proof -
  let ?q = "received_qty rc (pl_id l)"
  have "pool_keys_ok db' \<and> es_lines db' = map (\<lambda>x. if x = l then received_line rc l else x) (es_lines db) \<and>
    (\<exists>new. es_assets db' = es_assets db @ new \<and> length new = asset_units rc l \<and> (\<forall>a \<in> set new. delivered l po a)) \<and>
    booked_stock db' k i (pu_location po) = booked_stock db k i (pu_location po) + stock_units rc k i l \<and> max 0 ?q \<le> line_outstanding l"
  proof (cases "0 < ?q")
    case False
    then have "db' = db" using assms(1) by (simp add: receive_line_skip)
    moreover have "map (\<lambda>x. if x = l then received_line rc l else x) (es_lines db) = es_lines db"
      by (rule map_idI) (use False in \<open>simp add: received_line_def\<close>)
    ultimately show ?thesis using False assms(2) by (simp add: asset_units_def stock_units_def line_outstanding_def)
  next
    case True
    then obtain db1 where out: "?q \<le> line_outstanding l"
      and one: "(if pl_asset_type l \<noteq> None
         then receive_asset_line cx l ?q (filter (\<lambda>d. ad_line d = pl_id l) (re_details rc)) po label db
         else receive_stock_line l ?q (pu_location po) db) = Inr db1"
      and two: "line_save (l\<lparr>pl_received := pl_received l + ?q\<rparr>) db1 = Inr db'" using receive_lineE[OF assms(1)] by metis
    have row: "l\<lparr>pl_received := pl_received l + ?q\<rparr> = received_line rc l" using True by (simp add: received_line_def)
    have clean: "line_clean l = Inr ()" and db': "db' = db1\<lparr>es_lines := save_row pl_id (received_line rc l) (es_lines db1)\<rparr>"
      using two unfolding row by (auto simp: line_save_def bindE_eq_Inr line_clean_def received_line_def)
    have save: "save_row pl_id (received_line rc l) (es_lines db) = map (\<lambda>x. if x = l then received_line rc l else x) (es_lines db)"
      by (rule save_row_one) (use assms(3,4) in simp_all)
    show ?thesis
    proof (cases "pl_asset_type l = None")
      case stock: True
      then have "receive_stock_line l ?q (pu_location po) db = Inr db1" using one by simp
      from stock_line_books[OF this assms(2) clean stock] show ?thesis
        using True out stock save by (simp add: db' asset_units_def stock_units_def pool_keys_ok_def booked_stock_def)
    next
      case False
      then have run: "receive_asset_line cx l ?q (filter (\<lambda>d. ad_line d = pl_id l) (re_details rc)) po label db = Inr db1" using one by simp
      have "line_item k l = None"
        using clean False by (auto simp: line_clean_def line_item_def Let_def split: if_splits item_kind.splits)
      moreover have "asset_units rc l = nat ?q" unfolding asset_units_def if_not_P[OF False] by (rule refl)
      ultimately show ?thesis using asset_line_books[OF run] assms(2) True out save
        by (simp add: db' stock_units_def pool_keys_ok_def booked_stock_def)
    qed
  qed
  then show "pool_keys_ok db'" "es_lines db' = map (\<lambda>x. if x = l then received_line rc l else x) (es_lines db)"
    "\<exists>new. es_assets db' = es_assets db @ new \<and> length new = asset_units rc l \<and> (\<forall>a \<in> set new. delivered l po a)"
    "booked_stock db' k i (pu_location po) = booked_stock db k i (pu_location po) + stock_units rc k i l"
    "max 0 ?q \<le> line_outstanding l" by blast+
qed

text \<open>All lines, one after the other.\<close>

definition books :: "receipt \<Rightarrow> purchase_order \<Rightarrow> po_line list \<Rightarrow> estate \<Rightarrow> estate \<Rightarrow> bool" where
  "books rc po ls db db' \<longleftrightarrow> es_lines db' = map (\<lambda>x. if x \<in> set ls then received_line rc x else x) (es_lines db) \<and>
     (\<exists>new. es_assets db' = es_assets db @ new \<and>
        (\<forall>a \<in> set new. \<exists>l \<in> set ls. delivered l po a) \<and>
        (\<forall>l \<in> set ls. length (filter (\<lambda>a. as_line a = Some (pl_id l)) new) = asset_units rc l)) \<and>
     (\<forall>k i. booked_stock db' k i (pu_location po) = booked_stock db k i (pu_location po) + sum_list (map (stock_units rc k i) ls)) \<and>
     (\<forall>l \<in> set ls. max 0 (received_qty rc (pl_id l)) \<le> line_outstanding l) \<and> pool_keys_ok db'"

lemma lines_book:
  "each (receive_line cx rc po label) ls db = Inr db' \<Longrightarrow> pool_keys_ok db \<Longrightarrow> keyed pl_id (es_lines db) \<Longrightarrow>
     set ls \<subseteq> set (es_lines db) \<Longrightarrow> distinct (map pl_id ls) \<Longrightarrow> books rc po ls db db'"
proof (induction ls arbitrary: db)
  case Nil
  then show ?case by (simp add: books_def)
next
  case (Cons l ls)
  obtain db1 where one: "receive_line cx rc po label l db = Inr db1" and rest: "each (receive_line cx rc po label) ls db1 = Inr db'"
    using Cons.prems(1) by (auto simp: bindE_eq_Inr)
  have l: "l \<in> set (es_lines db)" using Cons.prems(4) by simp
  have other: "pl_id x \<noteq> pl_id l" if "x \<in> set ls" for x using Cons.prems(5) imageI[OF that, of pl_id] by auto
  note b = line_books[OF one Cons.prems(2,3) l]
  have "map pl_id (es_lines db1) = map pl_id (es_lines db)" by (simp add: b(2))
  then have keyed: "keyed pl_id (es_lines db1)" using Cons.prems(3) unfolding keyed_def by simp
  have sub: "set ls \<subseteq> set (es_lines db1)"
  proof
    fix x assume x: "x \<in> set ls"
    then have "x \<in> set (es_lines db)" "x \<noteq> l" using Cons.prems(4) other by auto
    then show "x \<in> set (es_lines db1)" unfolding b(2) by (auto intro!: image_eqI[of x _ x])
  qed
  have "books rc po ls db1 db'" by (rule Cons.IH[OF rest b(1) keyed sub]) (use Cons.prems(5) in simp)
  then have ih: "es_lines db' = map (\<lambda>x. if x \<in> set ls then received_line rc x else x) (es_lines db1)"
    "\<exists>new. es_assets db' = es_assets db1 @ new \<and> (\<forall>a \<in> set new. \<exists>l \<in> set ls. delivered l po a) \<and>
        (\<forall>l \<in> set ls. length (filter (\<lambda>a. as_line a = Some (pl_id l)) new) = asset_units rc l)"
    "\<forall>k i. booked_stock db' k i (pu_location po) = booked_stock db1 k i (pu_location po) + sum_list (map (stock_units rc k i) ls)"
    "\<forall>l \<in> set ls. max 0 (received_qty rc (pl_id l)) \<le> line_outstanding l" "pool_keys_ok db'" unfolding books_def by blast+
  have "received_line rc l \<notin> set ls" using other[of "received_line rc l"] by auto
  then have lines: "es_lines db' = map (\<lambda>x. if x \<in> set (l # ls) then received_line rc x else x) (es_lines db)"
    unfolding ih(1) b(2) using other by (auto simp: o_def)
  obtain new1 where new1: "es_assets db1 = es_assets db @ new1" "length new1 = asset_units rc l" "\<forall>a \<in> set new1. delivered l po a"
    using b(3) by blast
  obtain new2 where new2: "es_assets db' = es_assets db1 @ new2" "\<forall>a \<in> set new2. \<exists>l \<in> set ls. delivered l po a"
    "\<forall>l \<in> set ls. length (filter (\<lambda>a. as_line a = Some (pl_id l)) new2) = asset_units rc l" using ih(2) by blast
  have mine: "filter (\<lambda>a. as_line a = Some (pl_id l)) new1 = new1" "filter (\<lambda>a. as_line a = Some (pl_id l)) new2 = []"
    using new1(3) new2(2) other by (auto simp: delivered_def filter_empty_conv filter_id_conv)
  have theirs: "filter (\<lambda>a. as_line a = Some (pl_id x)) new1 = []" if "x \<in> set ls" for x
    using new1(3) other[OF that] by (auto simp: delivered_def filter_empty_conv)
  have "\<exists>new. es_assets db' = es_assets db @ new \<and> (\<forall>a \<in> set new. \<exists>l \<in> set (l # ls). delivered l po a) \<and>
      (\<forall>x \<in> set (l # ls). length (filter (\<lambda>a. as_line a = Some (pl_id x)) new) = asset_units rc x)"
    using new1 new2 mine theirs by (intro exI[of _ "new1 @ new2"]) auto
  moreover have "\<forall>k i. booked_stock db' k i (pu_location po) =
      booked_stock db k i (pu_location po) + sum_list (map (stock_units rc k i) (l # ls))"
    using ih(3) b(4) by simp
  moreover have "\<forall>x \<in> set (l # ls). max 0 (received_qty rc (pl_id x)) \<le> line_outstanding x" using ih(4) b(5) by simp
  ultimately show ?case unfolding books_def using lines ih(5) by blast
qed

section \<open>The whole receipt\<close>

lemma order_lines_set: "x \<in> set (order_lines db p) \<longleftrightarrow> x \<in> set (es_lines db) \<and> pl_order x = p \<and> pl_deleted x = None"
  by (auto simp: order_lines_def)

lemma order_lines_distinct:
  assumes "keyed pl_id (es_lines db)"
  shows "distinct (map pl_id (order_lines db p))"
proof -
  have "distinct (order_lines db p)" using assms by (simp add: order_lines_def keyed_def distinct_map distinct_filter)
  moreover have "inj_on pl_id (set (order_lines db p))"
    by (rule inj_onI) (use keyed_inj[OF assms] in \<open>simp add: order_lines_set\<close>)
  ultimately show ?thesis by (simp add: distinct_map)
qed

text \<open>A receipt that succeeds, with the rows of the order before and after it.\<close>

lemma receipt_books:
  assumes "receive_purchase_order cx rc submitted p db = Inr db'" and "pool_keys_ok db" and "keyed pl_id (es_lines db)"
  obtains po where "find_order db p = Some po" "books rc po (order_lines db p) db db'"
    "find_order db' p = Some (po\<lparr>pu_status :=
       (if \<exists>l \<in> set (order_lines db p). still_outstanding rc l then OrderPartial else OrderReceived)\<rparr>)"
    "assert_receipt_state rc (order_lines db p) = Inr ()"
proof (rule receive_purchase_orderE[OF assms(1)])
  fix po label db1 db2
  assume po: "lock_purchase_order db p = Inr po" and ck: "assert_receipt_state rc (order_lines db (pu_id po)) = Inr ()"
    and one: "lock_receipt_stock_rows rc (order_lines db (pu_id po)) (pu_location po) db = Inr db1"
    and two: "each (receive_line cx rc po label) (order_lines db (pu_id po)) db1 = Inr db2"
    and three: "transition_purchase_order po ReceiveOrder
       (Some (if \<exists>l \<in> set (order_lines db (pu_id po)). still_outstanding rc l then OrderPartial else OrderReceived)) db2 = Inr db'"
  have id: "pu_id po = p" and row: "find_order db p = Some po" using lock_order_ok[OF po] by simp_all
  have db1: "pool_keys_ok db1" "booked_stock db1 = booked_stock db" "es_lines db1 = es_lines db" "es_assets db1 = es_assets db"
    using stock_rows_book[OF one assms(2)] by simp_all
  have "books rc po (order_lines db p) db1 db2"
    by (rule lines_book[OF two[unfolded id] db1(1)])
      (use assms(3) order_lines_distinct[OF assms(3)] in \<open>auto simp: db1(3) order_lines_set\<close>)
  then have books: "books rc po (order_lines db p) db db2" by (simp add: books_def db1)
  have db': "db' = order_save (po\<lparr>pu_status :=
      (if \<exists>l \<in> set (order_lines db p). still_outstanding rc l then OrderPartial else OrderReceived)\<rparr>) db2"
    using transition_effect[OF three[unfolded id]] by auto
  have "es_orders db2 = es_orders db1" by (rule kept.each_rel[OF _ two]) (rule kept.receive_line_rel)
  then have "es_orders db2 = es_orders db" using kept.stock_rows_rel[OF one] by simp
  then have "find_order db' p = Some (po\<lparr>pu_status :=
      (if \<exists>l \<in> set (order_lines db p). still_outstanding rc l then OrderPartial else OrderReceived)\<rparr>)"
    using row id by (simp add: db' order_save_def find_order_def find_row_save_row)
  moreover have "books rc po (order_lines db p) db db'" using books by (simp add: db' order_save_def books_def booked_stock_def pool_keys_ok_def)
  ultimately show thesis by (intro that[OF row] ck[unfolded id])
qed

lemma received_order_lines:
  assumes "es_lines db' = map (\<lambda>x. if x \<in> set (order_lines db p) then received_line rc x else x) (es_lines db)"
  shows "set (order_lines db' p) = received_line rc ` set (order_lines db p)"
proof (intro set_eqI iffI)
  fix x assume "x \<in> set (order_lines db' p)"
  then have x: "x \<in> set (es_lines db')" "pl_order x = p" "pl_deleted x = None" by (simp_all add: order_lines_set)
  then obtain y where y: "y \<in> set (es_lines db)" "x = (if y \<in> set (order_lines db p) then received_line rc y else y)"
    unfolding assms by auto
  have "y \<in> set (order_lines db p)"
  proof (rule ccontr)
    assume no: "y \<notin> set (order_lines db p)"
    then have "x = y" using y(2) by simp
    then show False using x(2,3) y(1) no by (simp add: order_lines_set)
  qed
  then show "x \<in> received_line rc ` set (order_lines db p)" using y(2) by simp
next
  fix x assume "x \<in> received_line rc ` set (order_lines db p)"
  then obtain y where y: "y \<in> set (order_lines db p)" "x = received_line rc y" by blast
  then have "y \<in> set (es_lines db)" by (simp add: order_lines_set)
  then have "x \<in> set (es_lines db')" unfolding assms using y by (auto intro!: image_eqI[of x _ y])
  then show "x \<in> set (order_lines db' p)" using y by (simp add: order_lines_set)
qed

text \<open>C23. A receipt books exactly what it says.  Every live line of the order grows by the submitted quantity (never
  beyond what was outstanding, negative quantities count as nothing) and no other line changes; one asset
  per unit is created for each asset line, carrying that line, its type, the tenant and the destination of
  the order, and no other asset is created or changed; at the destination the live stock of every
  component, accessory and consumable grows by the sum over the lines that order it; and the order is
  received if and only if nothing is outstanding on its lines any more, partially received otherwise.\<close>

theorem receipt_exact:
  assumes "receive_purchase_order cx rc submitted p db = Inr db'" and "pool_keys_ok db" and "keyed pl_id (es_lines db)"
  shows "\<exists>po po' new. find_order db p = Some po \<and> find_order db' p = Some po' \<and>
    es_lines db' = map (\<lambda>x. if x \<in> set (order_lines db p) then x\<lparr>pl_received := pl_received x + max 0 (received_qty rc (pl_id x))\<rparr> else x) (es_lines db) \<and>
    (\<forall>l \<in> set (order_lines db p). max 0 (received_qty rc (pl_id l)) \<le> line_outstanding l) \<and>
    es_assets db' = es_assets db @ new \<and>
    (\<forall>a \<in> set new. \<exists>l \<in> set (order_lines db p). as_line a = Some (pl_id l) \<and> as_type a = pl_asset_type l \<and>
        as_tenant a = pu_tenant po \<and> as_location a = Some (pu_location po)) \<and>
    (\<forall>l \<in> set (order_lines db p). length (filter (\<lambda>a. as_line a = Some (pl_id l)) new) =
        (if pl_asset_type l = None then 0 else nat (received_qty rc (pl_id l)))) \<and>
    (\<forall>k i. booked_stock db' k i (pu_location po) = booked_stock db k i (pu_location po) +
        sum_list (map (\<lambda>l. if line_item k l = Some i then max 0 (received_qty rc (pl_id l)) else 0) (order_lines db p))) \<and>
    pu_status po' = (if \<exists>l \<in> set (order_lines db' p). line_outstanding l > 0 then OrderPartial else OrderReceived)"
proof (rule receipt_books[OF assms])
  fix po assume po: "find_order db p = Some po" and b: "books rc po (order_lines db p) db db'"
    and po': "find_order db' p = Some (po\<lparr>pu_status :=
       (if \<exists>l \<in> set (order_lines db p). still_outstanding rc l then OrderPartial else OrderReceived)\<rparr>)"
  note b' = b[unfolded books_def received_line_def delivered_def asset_units_def stock_units_def]
  from b'[THEN conjunct2, THEN conjunct1] obtain new where new: "es_assets db' = es_assets db @ new"
    "\<forall>a \<in> set new. \<exists>l \<in> set (order_lines db p). as_line a = Some (pl_id l) \<and> as_type a = pl_asset_type l \<and>
        as_tenant a = pu_tenant po \<and> as_location a = Some (pu_location po)"
    "\<forall>l \<in> set (order_lines db p). length (filter (\<lambda>a. as_line a = Some (pl_id l)) new) =
        (if pl_asset_type l = None then 0 else nat (received_qty rc (pl_id l)))" by blast
  have "set (order_lines db' p) = received_line rc ` set (order_lines db p)"
    by (rule received_order_lines) (use b in \<open>simp add: books_def\<close>)
  then have iff: "(\<exists>l \<in> set (order_lines db' p). line_outstanding l > 0) \<longleftrightarrow> (\<exists>l \<in> set (order_lines db p). still_outstanding rc l)"
    by (simp add: still_outstanding_def received_line_def)
  show ?thesis
  proof (intro exI conjI)
    show "find_order db p = Some po" by (rule po)
    show "find_order db' p = Some (po\<lparr>pu_status :=
       (if \<exists>l \<in> set (order_lines db p). still_outstanding rc l then OrderPartial else OrderReceived)\<rparr>)" by (rule po')
    show "pu_status (po\<lparr>pu_status := (if \<exists>l \<in> set (order_lines db p). still_outstanding rc l then OrderPartial else OrderReceived)\<rparr>) =
      (if \<exists>l \<in> set (order_lines db' p). line_outstanding l > 0 then OrderPartial else OrderReceived)"
      unfolding iff by simp
  qed (fact new b'[THEN conjunct1] b'[THEN conjunct2, THEN conjunct2, THEN conjunct1]
      b'[THEN conjunct2, THEN conjunct2, THEN conjunct2, THEN conjunct1])+
qed


lemma receipt_exact_witness:
  "\<exists>db' po'. sample_receiving = Inr db' \<and> find_order db' 90 = Some po' \<and> pu_status po' = OrderPartial \<and>
     booked_stock db' Component 50 20 = booked_stock sample_ordered Component 50 20 + 1"
proof -
  obtain db' where run: "sample_receiving = Inr db'" using sample_receiving_runs by (auto split: sum.splits)
  have ok: "pool_keys_ok sample_ordered" "keyed pl_id (es_lines sample_ordered)" by code_simp+
  from receipt_exact[OF run[unfolded sample_receiving_def] ok] obtain po po' where
    po: "find_order sample_ordered 90 = Some po" and po': "find_order db' 90 = Some po'"
    and l: "es_lines db' = map (\<lambda>x. if x \<in> set (order_lines sample_ordered 90)
        then x\<lparr>pl_received := pl_received x + max 0 (received_qty sample_receipt (pl_id x))\<rparr> else x) (es_lines sample_ordered)"
    and s: "\<forall>k i. booked_stock db' k i (pu_location po) = booked_stock sample_ordered k i (pu_location po) +
        sum_list (map (\<lambda>l. if line_item k l = Some i then max 0 (received_qty sample_receipt (pl_id l)) else 0) (order_lines sample_ordered 90))"
    and st: "pu_status po' = (if \<exists>l \<in> set (order_lines db' 90). line_outstanding l > 0 then OrderPartial else OrderReceived)" by blast
  have rows: "order_lines sample_ordered 90 = sample_lines" "es_lines sample_ordered = sample_lines" by code_simp+
  have "po = sample_order" using po by (simp add: find_order_def sample_ordered_def sample_order_def)
  then have "pu_location po = 20" by (simp add: sample_order_def)
  then have "booked_stock db' Component 50 20 = booked_stock sample_ordered Component 50 20 + 1"
    using s unfolding rows by (simp add: sample_lines_def line_item_def received_qty_def sample_receipt_def)
  moreover have "\<exists>x \<in> set (order_lines db' 90). line_outstanding x > 0"
    unfolding Bex_def order_lines_set l rows
    by (intro exI[of _ "(sample_lines ! 1)\<lparr>pl_received := 2\<rparr>"])
      (simp add: sample_lines_def received_qty_def sample_receipt_def line_outstanding_def)
  ultimately show ?thesis using run po' st by auto
qed

end
