(* ===== verification/ReceiptReplay.thy ===== *)
theory ReceiptReplay
  imports ReceiptBooking PurchaseLines
begin

text \<open>
  A submission of the receiving form is booked at most once, whatever happens between its first and a
  later delivery.
\<close>

lemma find_row_map: "(\<And>r. key (f r) = key r) \<Longrightarrow> find_row key k (map f rows) = map_option f (find_row key k rows)"
  by (induction rows) auto

lemma receipt_state_stated:
  "assert_receipt_state rc ls = Inr () \<Longrightarrow> l \<in> set ls \<Longrightarrow> 0 < received_qty rc (pl_id l) \<Longrightarrow>
     map_of (re_expected rc) (pl_id l) = Some (pl_received l)"
  by (induction ls) (auto split: if_splits option.splits)

section \<open>What a step does to the lines\<close>

text \<open>Every line keeps its row and its order and does not shrink; only lines of the order \<open>q\<close> can be deleted.\<close>

definition lines_kept :: "pk option \<Rightarrow> estate \<Rightarrow> estate \<Rightarrow> bool" where
  "lines_kept q db db' \<longleftrightarrow> pool_keys_ok db' \<and> keyed pl_id (es_lines db') \<and>
     (\<forall>x l. find_line db x = Some l \<longrightarrow> (\<exists>l'. find_line db' x = Some l' \<and> pl_order l' = pl_order l \<and> pl_received l \<le> pl_received l' \<and>
        (pl_deleted l' = pl_deleted l \<or> q = Some (pl_order l))))"

lemma lines_kept_same:
  "pool_keys_ok db \<Longrightarrow> keyed pl_id (es_lines db) \<Longrightarrow> es_lines db' = es_lines db \<Longrightarrow> iv_pools db' = iv_pools db \<Longrightarrow> lines_kept q db db'"
  by (simp add: lines_kept_def pool_keys_ok_def find_line_def)

lemma lines_kept_saved:
  assumes "pool_keys_ok db" and "keyed pl_id (es_lines db)" and "find_line db (pl_id l) = Some y" and "line_save l db = Inr db'"
    and "pl_order l = pl_order y" "pl_received l = pl_received y" "pl_deleted l = pl_deleted y \<or> q = Some (pl_order y)"
  shows "lines_kept q db db'"
proof -
  have db': "db' = db\<lparr>es_lines := save_row pl_id l (es_lines db)\<rparr>" using assms(4) by (auto simp: line_save_def bindE_eq_Inr)
  have f: "find_line db' x = (if x = pl_id l then Some l else find_line db x)" for x
    using assms(3) by (auto simp: db' find_line_def find_row_save_row)
  have "keyed pl_id (es_lines db')" using assms(2) by (simp add: db')
  moreover have "pool_keys_ok db'" using assms(1) by (simp add: db' pool_keys_ok_def)
  ultimately show ?thesis using assms(3,5,6,7) by (simp add: lines_kept_def f)
qed

lemma lines_kept_added:
  assumes "pool_keys_ok db" and "keyed pl_id (es_lines db)" and "pl_id l = next_id (map pl_id (es_lines db))"
    and "es_lines db' = es_lines db @ [l]" and "iv_pools db' = iv_pools db"
  shows "lines_kept q db db'"
proof -
  have "pl_id l \<noteq> pl_id y" if "y \<in> set (es_lines db)" for y
    using next_id_fresh[of "pl_id y" "map pl_id (es_lines db)"] that by (auto simp: assms(3))
  then have "keyed pl_id (es_lines db')" using assms(2) by (auto simp: keyed_def assms(4))
  moreover have "find_line db' x = Some y" if "find_line db x = Some y" for x y
    using that by (simp add: find_line_def assms(4) find_row_append)
  ultimately show ?thesis using assms(1) by (simp add: lines_kept_def pool_keys_ok_def assms(5))
qed

lemma lines_kept_trans: "lines_kept q db1 db2 \<Longrightarrow> lines_kept q db2 db3 \<Longrightarrow> lines_kept q db1 db3"
proof -
  assume one: "lines_kept q db1 db2" and two: "lines_kept q db2 db3"
  have "\<exists>c. find_line db3 x = Some c \<and> pl_order c = pl_order a \<and> pl_received a \<le> pl_received c \<and> (pl_deleted c = pl_deleted a \<or> q = Some (pl_order a))"
    if a: "find_line db1 x = Some a" for x a
  proof -
    obtain b where b: "find_line db2 x = Some b" "pl_order b = pl_order a" "pl_received a \<le> pl_received b"
      "pl_deleted b = pl_deleted a \<or> q = Some (pl_order a)" using one a unfolding lines_kept_def by blast
    obtain c where "find_line db3 x = Some c" "pl_order c = pl_order b" "pl_received b \<le> pl_received c"
      "pl_deleted c = pl_deleted b \<or> q = Some (pl_order b)" using two b(1) unfolding lines_kept_def by blast
    then show ?thesis using b by auto
  qed
  then show ?thesis using two unfolding lines_kept_def by blast
qed

lemma lines_kept_ok: "lines_kept q db db' \<Longrightarrow> pool_keys_ok db' \<and> keyed pl_id (es_lines db')"
  by (simp add: lines_kept_def)

text \<open>Saving the rows of distinct lines, each with another mark of deletion.\<close>

lemma marked_lines:
  assumes "each (\<lambda>l. line_save (l\<lparr>pl_deleted := d\<rparr>)) ls db = Inr db'" and "pool_keys_ok db" and "keyed pl_id (es_lines db)"
    and "set ls \<subseteq> {l \<in> set (es_lines db). q = Some (pl_order l)}" and "distinct (map pl_id ls)"
  shows "lines_kept q db db'"
  using assms
proof (induction ls arbitrary: db)
  case Nil
  then show ?case by (simp add: lines_kept_same)
next
  case (Cons l ls)
  then obtain db1 where one: "line_save (l\<lparr>pl_deleted := d\<rparr>) db = Inr db1"
    and rest: "each (\<lambda>l. line_save (l\<lparr>pl_deleted := d\<rparr>)) ls db1 = Inr db'" by (auto simp: bindE_eq_Inr)
  have l: "find_line db (pl_id l) = Some l" "q = Some (pl_order l)"
    using Cons.prems(3,4) by (simp_all add: find_line_def find_row_mem)
  have kept: "lines_kept q db db1"
    by (rule lines_kept_saved[where y = l, OF Cons.prems(2,3) _ one]) (use l in simp_all)
  have "es_lines db1 = save_row pl_id (l\<lparr>pl_deleted := d\<rparr>) (es_lines db)" using one by (auto simp: line_save_def bindE_eq_Inr)
  moreover have "pl_id y \<noteq> pl_id l" if "y \<in> set ls" for y using Cons.prems(5) that by (auto simp: image_iff)
  ultimately have "set ls \<subseteq> {l \<in> set (es_lines db1). q = Some (pl_order l)}"
    using Cons.prems(4) by (force simp: save_row_def)
  then show ?case using Cons.IH[OF rest] lines_kept_ok[OF kept] Cons.prems(5) lines_kept_trans[OF kept] by simp
qed

section \<open>Order services\<close>

lemma link_lines:
  assumes "link_asset_request_to_purchase_order p rid u now db w = (Inr db', w')"
  shows "iv_pools db' = iv_pools db \<and> (es_lines db' = es_lines db \<or> (\<exists>po r. es_lines db' = es_lines db @ [new_line db po r]))"
proof -
  obtain po r where "link_locked po r db = Inr db'"
    using assms by (auto simp: link_asset_request_to_purchase_order_def Let_def split: sum.splits option.splits prod.splits if_splits)
  then consider "db' = db" | targets where "create_fulfillment_link po r targets db = Inr db'"
    by (auto simp: link_locked_def bindE_eq_Inr split: if_splits)
  then show ?thesis
  proof cases
    case (2 targets)
    let ?db = "db\<lparr>es_lines := es_lines db @ [new_line db po r]\<rparr>"
    obtain db1 where e: "each (link_target po (pl_id (new_line db po r))) targets ?db = Inr db1"
      and rest: "(if rq_id r \<in> set (map rq_id targets) then Inr db1 else request_store (r\<lparr>rq_status := RequestProcurement\<rparr>) db1) = Inr db'"
      using bindE_thenD[OF 2[unfolded create_fulfillment_link_def Let_def]] by (auto simp: bindE_eq_Inr)
    have "iv_pools db1 = iv_pools ?db \<and> es_lines db1 = es_lines ?db \<and> es_assets db1 = es_assets ?db"
      by (rule still.each_rel[OF _ e]) (rule still.link_target_rel)
    moreover have "iv_pools db' = iv_pools db1 \<and> es_lines db' = es_lines db1" using rest still.stores by (auto split: if_splits)
    ultimately show ?thesis by auto
  qed simp
qed

lemma lines_kept_link:
  assumes "pool_keys_ok db" and "keyed pl_id (es_lines db)" and "link_asset_request_to_purchase_order p rid u now db w = (Inr db', w')"
  shows "lines_kept q db db'"
proof -
  note effect = link_lines[OF assms(3)]
  then have pools: "iv_pools db' = iv_pools db" by blast
  from effect consider "es_lines db' = es_lines db" | po r where "es_lines db' = es_lines db @ [new_line db po r]" by blast
  then show ?thesis
  proof cases
    case 1
    then show ?thesis using lines_kept_same[OF assms(1,2)] pools by blast
  next
    case (2 po r)
    then show ?thesis using pools by (intro lines_kept_added[OF assms(1,2)]) (simp_all add: new_line_def)
  qed
qed

lemma lines_kept_receive:
  assumes "pool_keys_ok db" and "keyed pl_id (es_lines db)" and "receive_purchase_order cx rc submitted p db = Inr db'"
  shows "lines_kept q db db'"
proof (rule receipt_books[OF assms(3,1,2)])
  fix po assume "books rc po (order_lines db p) db db'"
  then have l: "es_lines db' = map (\<lambda>x. if x \<in> set (order_lines db p) then received_line rc x else x) (es_lines db)"
    and k: "pool_keys_ok db'" unfolding books_def by blast+
  have "map pl_id (es_lines db') = map pl_id (es_lines db)" by (simp add: l)
  then have "keyed pl_id (es_lines db')" using assms(2) by (simp add: keyed_def)
  moreover have "find_line db' x = map_option (\<lambda>x. if x \<in> set (order_lines db p) then received_line rc x else x) (find_line db x)" for x
    by (simp add: find_line_def l find_row_map)
  ultimately show ?thesis using k by (simp add: lines_kept_def received_line_def)
qed

lemma lines_kept_cancel:
  assumes "pool_keys_ok db" and "keyed pl_id (es_lines db)" and "cancel_purchase_order now p db = Inr db'"
  shows "lines_kept (Some p) db db'"
proof (rule cancel_purchase_orderE[OF assms(3)])
  fix po links reverted db1 db2 db3 db4
  assume run: "revert_requests links db = Inr (reverted, db1)" "each (link_delete now) links db1 = Inr db2"
    "each (line_delete now) (filter (\<lambda>l. pl_id l \<in> set (map fl_line links)) (order_lines db p)) db2 = Inr db3"
    "approve_completed_group_parents reverted db3 = Inr db4" "transition_purchase_order po CancelOrder None db4 = Inr db'"
  have before: "iv_pools db2 = iv_pools db" "es_lines db2 = es_lines db"
    using still.revert_rel[OF run(1)] still.each_rel[OF _ run(2)] still.link_save_rel unfolding link_delete_def by simp_all
  have after: "iv_pools db' = iv_pools db3" "es_lines db' = es_lines db3"
    using still.approve_parents_rel[OF run(4)] transition_effect[OF run(5)] by (auto simp: order_save_def)
  have one: "lines_kept (Some p) db db2" using before by (intro lines_kept_same[OF assms(1,2)])
  have lines: "set (order_lines db p) \<subseteq> {l \<in> set (es_lines db2). Some p = Some (pl_order l)}" by (auto simp: order_lines_set before)
  have two: "lines_kept (Some p) db2 db3"
  proof (rule marked_lines)
    show "each (\<lambda>l. line_save (l\<lparr>pl_deleted := Some now\<rparr>)) (filter (\<lambda>l. pl_id l \<in> set (map fl_line links)) (order_lines db p)) db2 = Inr db3"
      using run(3) unfolding line_delete_def[abs_def] .
    show "distinct (map pl_id (filter (\<lambda>l. pl_id l \<in> set (map fl_line links)) (order_lines db p)))"
      using order_lines_distinct[OF assms(2)] by (rule distinct_map_filter)
  qed (use lines lines_kept_ok[OF one] in auto)
  have three: "lines_kept (Some p) db3 db'" using after lines_kept_ok[OF two] by (intro lines_kept_same) simp_all
  show ?thesis by (rule lines_kept_trans[OF lines_kept_trans[OF one two] three])
qed

definition cancelled_order :: "(order_action \<times> pk \<times> pk option) option \<Rightarrow> pk option" where
  "cancelled_order ev = (case ev of Some (CancelOrder, p, _) \<Rightarrow> Some p | _ \<Rightarrow> None)"

lemma order_step_lines:
  assumes "order_step db ev db'" and ok: "pool_keys_ok db" "keyed pl_id (es_lines db)"
  shows "lines_kept (cancelled_order ev) db db'"
  using assms(1)
proof (cases rule: order_step.cases)
  case (approve u q)
  then show ?thesis
    by (auto simp: approve_purchase_order_def bindE_eq_Inr order_save_def split: if_splits dest!: transition_effect intro!: lines_kept_same[OF ok])
next
  case (place today q)
  then show ?thesis
    by (auto simp: order_purchase_order_def bindE_eq_Inr order_save_def dest!: transition_effect intro!: lines_kept_same[OF ok])
next
  case (reopen q)
  then show ?thesis
    by (auto simp: reopen_purchase_order_def bindE_eq_Inr order_save_def dest!: transition_effect intro!: lines_kept_same[OF ok])
next
  case (receive cx rc submitted q)
  show ?thesis by (rule lines_kept_receive[OF ok receive(2)])
next
  case (cancel now q)
  show ?thesis using lines_kept_cancel[OF ok cancel(2)] by (simp add: cancelled_order_def cancel(1))
next
  case (link q rid usr now w w')
  show ?thesis by (rule lines_kept_link[OF ok link(2)])
next
  case (request_new th ct skip now r w row w')
  then show ?thesis using create_frame[OF request_new(2)] by (intro lines_kept_same[OF ok]) auto
next
  case (request_edit ct r)
  then show ?thesis using still.request_save_rel[OF request_edit(2)] by (intro lines_kept_same[OF ok]) auto
next
  case (request_approve ct q allocated qty nt actor now w w')
  then show ?thesis using still.approve_request_rel[OF request_approve(2)] by (intro lines_kept_same[OF ok]) auto
next
  case (request_deny ct q nt actor now w w')
  then show ?thesis using still.deny_request_rel[OF request_deny(2)] by (intro lines_kept_same[OF ok]) auto
next
  case (request_complete ct actor reason confirmed now q trail w trail' w')
  then show ?thesis using still.manual_rel[OF request_complete(2)] by (intro lines_kept_same[OF ok]) auto
next
  case (request_cancel allowed ct now q w w')
  then have "iv_pools db' = iv_pools db \<and> es_lines db' = es_lines db \<and> es_assets db' = es_assets db"
    by (auto simp: cancel_asset_request_def split: if_splits prod.splits option.splits dest!: still.cancel_locked_rel)
  then show ?thesis by (intro lines_kept_same[OF ok]) auto
qed

lemma receiving_stays:
  assumes "order_step db ev db'" and "find_order db p = Some po" and "pu_status po \<in> {OrderPartial, OrderReceived}"
  shows "\<exists>po'. find_order db' p = Some po' \<and> pu_status po' \<in> {OrderPartial, OrderReceived}"
    and "ev = Some (act, p, u) \<Longrightarrow> act = ReceiveOrder"
proof -
  have moves: "act = ReceiveOrder \<and> s \<in> {OrderPartial, OrderReceived}" if "s \<in> set (PURCHASE_ORDER_TRANSITIONS act (pu_status po))" for act s
    using that assms(3) by (cases act) auto
  show "\<exists>po'. find_order db' p = Some po' \<and> pu_status po' \<in> {OrderPartial, OrderReceived}"
  proof (cases ev)
    case None
    then show ?thesis using order_step_effect[OF assms(1)] assms(2,3) by (auto simp: find_order_def)
  next
    case (Some z)
    obtain act q u where z: "z = (act, q, u)" by (cases z) auto
    have "order_effect db act q u db'" using order_step_effect[OF assms(1)] by (simp add: Some z)
    then obtain x s d where x: "find_order db q = Some x" "pu_id x = q" "s \<in> set (PURCHASE_ORDER_TRANSITIONS act (pu_status x))"
      "es_orders db' = save_row pu_id (x\<lparr>pu_order_date := d, pu_status := s\<rparr>) (es_orders db)" unfolding order_effect_def by blast
    show ?thesis
    proof (cases "q = p")
      case True
      then have "x = po" using x(1) assms(2) by simp
      then have "s \<in> {OrderPartial, OrderReceived}" using moves[of s act] x(3) by simp
      then show ?thesis using x(1,2) True by (simp add: find_order_def x(4) find_row_save_row)
    next
      case False
      then show ?thesis using x(2) assms(2,3) by (simp add: find_order_def x(4) find_row_save_row)
    qed
  qed
  show "act = ReceiveOrder" if "ev = Some (act, p, u)"
  proof -
    have "order_effect db act p u db'" using order_step_effect[OF assms(1)] by (simp add: that)
    then obtain s where "s \<in> set (PURCHASE_ORDER_TRANSITIONS act (pu_status po))" using assms(2) unfolding order_effect_def by auto
    then show ?thesis using moves by blast
  qed
qed

text \<open>What stays, over the services alone, once more than \<open>e\<close> has been received on line \<open>x\<close> of order \<open>p\<close>.\<close>

definition moved_on :: "pk \<Rightarrow> pk \<Rightarrow> int \<Rightarrow> estate \<Rightarrow> bool" where
  "moved_on p x e db \<longleftrightarrow> pool_keys_ok db \<and> keyed pl_id (es_lines db) \<and>
     (\<exists>po. find_order db p = Some po \<and> pu_status po \<in> {OrderPartial, OrderReceived}) \<and>
     (\<exists>l. find_line db x = Some l \<and> pl_order l = p \<and> pl_deleted l = None \<and> e < pl_received l)"

lemma moved_on_step:
  assumes "order_step db ev db'" and "moved_on p x e db"
  shows "moved_on p x e db'"
proof -
  obtain po l where po: "find_order db p = Some po" "pu_status po \<in> {OrderPartial, OrderReceived}"
    and l: "find_line db x = Some l" "pl_order l = p" "pl_deleted l = None" "e < pl_received l"
    and ok: "pool_keys_ok db" "keyed pl_id (es_lines db)" using assms(2) unfolding moved_on_def by blast
  have "cancelled_order ev \<noteq> Some p"
    using receiving_stays(2)[OF assms(1) po] by (auto simp: cancelled_order_def split: option.splits prod.splits order_action.splits)
  then obtain l' where "find_line db' x = Some l'" "pl_order l' = p" "pl_deleted l' = None" "e < pl_received l'"
    using order_step_lines[OF assms(1) ok] l unfolding lines_kept_def by fastforce
  then show ?thesis
    using lines_kept_ok[OF order_step_lines[OF assms(1) ok]] receiving_stays(1)[OF assms(1) po] unfolding moved_on_def by blast
qed

section \<open>Lines changed one by one\<close>

text \<open>One step of the procurement application: an order or request service, a change of a line in a view or through the API, an order
  archived or restored, or anything else that leaves all lines alone.\<close>

inductive receipt_step :: "estate \<Rightarrow> estate \<Rightarrow> bool" where
  service: "order_step db ev db' \<Longrightarrow> receipt_step db db'"
| update: "line_update superuser sees offered c p db = Inr db' \<Longrightarrow> receipt_step db db'"
| create: "line_create superuser active sees offered c db = Inr db' \<Longrightarrow> receipt_step db db'"
| add: "line_add sees offered c p db = Inr db' \<Longrightarrow> receipt_step db db'"
| edit: "line_edit sees qty price p db = Inr db' \<Longrightarrow> receipt_step db db'"
| remove: "line_remove htmx now sees p db = Inr db' \<Longrightarrow> receipt_step db db'"
| undelete: "line_restore p db = Inr db' \<Longrightarrow> receipt_step db db'"
| archive: "archive_purchase_order now sees p db = Inr db' \<Longrightarrow> receipt_step db db'"
| restore: "restore_purchase_order sees p db = Inr db' \<Longrightarrow> receipt_step db db'"
| elsewhere: "es_lines db' = es_lines db \<Longrightarrow> pool_keys_ok db' \<Longrightarrow> receipt_step db db'"

text \<open>None of them takes back a quantity received.\<close>

definition grown :: "pk \<Rightarrow> int \<Rightarrow> estate \<Rightarrow> bool" where
  "grown x e db \<longleftrightarrow> pool_keys_ok db \<and> keyed pl_id (es_lines db) \<and> (\<exists>l. find_line db x = Some l \<and> e < pl_received l)"

lemma grown_kept: "lines_kept q db db' \<Longrightarrow> grown x e db \<Longrightarrow> grown x e db'"
  unfolding lines_kept_def grown_def by fastforce

lemma grown_saved:
  assumes "grown x e db" and "find_line db (pl_id l) = Some y" and "refused (line_save l db) = Inr db'" and "pl_received l = pl_received y"
  shows "grown x e db'"
proof -
  have db': "db' = db\<lparr>es_lines := save_row pl_id l (es_lines db)\<rparr>"
    using assms(3) by (cases "line_save l db") (auto simp: line_save_def bindE_eq_Inr)
  have "find_line db' x = (if x = pl_id l then Some l else find_line db x)"
    using assms(2) by (auto simp: db' find_line_def find_row_save_row)
  then show ?thesis using assms(1,2,4) by (auto simp: grown_def db' pool_keys_ok_def)
qed

lemma grown_added:
  assumes "grown x e db" and "pl_id l = next_id (map pl_id (es_lines db))" and "refused (line_add_row l db) = Inr db'"
  shows "grown x e db'"
proof -
  have "db' = db\<lparr>es_lines := es_lines db @ [l]\<rparr>"
    using assms(3) by (cases "line_add_row l db") (auto simp: line_add_row_def bindE_eq_Inr)
  then have "lines_kept None db db'" using assms(1,2) by (intro lines_kept_added) (simp_all add: grown_def)
  then show ?thesis using grown_kept assms(1) by blast
qed

lemma visible_lineD: "visible_line sees db p = Some l \<Longrightarrow> find_line db (pl_id l) = Some l"
  by (auto simp: visible_line_def find_line_def dest: find_row_SomeD split: option.splits if_splits)

lemma grown_marked:
  assumes "grown x e db" and "refused (each (\<lambda>l. line_save (l\<lparr>pl_deleted := d\<rparr>)) ls db) = Inr db1"
    and "set ls \<subseteq> {l \<in> set (es_lines db). Some p = Some (pl_order l)}" and "distinct (map pl_id ls)"
  shows "grown x e (order_save po db1)"
proof -
  have "each (\<lambda>l. line_save (l\<lparr>pl_deleted := d\<rparr>)) ls db = Inr db1"
    using assms(2) by (cases "each (\<lambda>l. line_save (l\<lparr>pl_deleted := d\<rparr>)) ls db") auto
  then have "lines_kept (Some p) db db1" using marked_lines assms(1,3,4) unfolding grown_def by blast
  then have "grown x e db1" using grown_kept assms(1) by blast
  then show ?thesis by (simp add: grown_def order_save_def pool_keys_ok_def find_line_def)
qed

lemma distinct_line_keys:
  assumes "keyed pl_id (es_lines db)"
  shows "distinct (map pl_id (filter P (order_lines db p)))" and "distinct (map pl_id (sort_key pl_id (filter P (es_lines db))))"
proof -
  show "distinct (map pl_id (filter P (order_lines db p)))" using order_lines_distinct[OF assms] by (rule distinct_map_filter)
  have "distinct (map pl_id (filter P (es_lines db)))" using assms unfolding keyed_def by (rule distinct_map_filter)
  then show "distinct (map pl_id (sort_key pl_id (filter P (es_lines db))))" by (simp add: distinct_map)
qed

lemma grown_archive:
  assumes "archive_purchase_order now sees p db = Inr db'" and "grown x e db"
  shows "grown x e db'"
proof -
  consider "db' = db" | po db1 where "db' = order_save (po\<lparr>pu_deleted := Some now\<rparr>) db1"
      "refused (each (line_delete now) (filter (\<lambda>l. sees (pl_tenant l)) (order_lines db p)) db) = Inr db1"
    using assms(1) by (auto simp: archive_purchase_order_def Let_def bindE_eq_Inr split: option.splits if_splits)
  then show ?thesis
  proof cases
    case (2 po db1)
    show ?thesis unfolding 2(1)
    proof (rule grown_marked[OF assms(2)])
      show "refused (each (\<lambda>l. line_save (l\<lparr>pl_deleted := Some now\<rparr>)) (filter (\<lambda>l. sees (pl_tenant l)) (order_lines db p)) db) = Inr db1"
        using 2(2) unfolding line_delete_def[abs_def] .
      show "set (filter (\<lambda>l. sees (pl_tenant l)) (order_lines db p)) \<subseteq> {l \<in> set (es_lines db). Some p = Some (pl_order l)}"
        by (auto simp: order_lines_set)
    qed (use assms(2) distinct_line_keys(1) grown_def in blast)
  qed (use assms(2) in simp)
qed

lemma grown_restore:
  assumes "restore_purchase_order sees p db = Inr db'" and "grown x e db"
  shows "grown x e db'"
proof -
  obtain po d where "db' = db \<or> (\<exists>db1. db' = order_save (po\<lparr>pu_deleted := None\<rparr>) db1 \<and>
      refused (each (\<lambda>l. line_save (l\<lparr>pl_deleted := None\<rparr>))
        (sort_key pl_id (filter (\<lambda>l. pl_order l = p \<and> pl_deleted l = d \<and> sees (pl_tenant l)) (es_lines db))) db) = Inr db1)"
    using assms(1) by (fastforce simp: restore_purchase_order_def Let_def bindE_eq_Inr split: option.split_asm if_split_asm)
  then show ?thesis
  proof (elim disjE exE conjE)
    fix db1 assume db': "db' = order_save (po\<lparr>pu_deleted := None\<rparr>) db1"
      and run: "refused (each (\<lambda>l. line_save (l\<lparr>pl_deleted := None\<rparr>))
        (sort_key pl_id (filter (\<lambda>l. pl_order l = p \<and> pl_deleted l = d \<and> sees (pl_tenant l)) (es_lines db))) db) = Inr db1"
    have "distinct (map pl_id (sort_key pl_id (filter (\<lambda>l. pl_order l = p \<and> pl_deleted l = d \<and> sees (pl_tenant l)) (es_lines db))))"
      using assms(2) distinct_line_keys(2) unfolding grown_def by blast
    then show ?thesis unfolding db' by (intro grown_marked[OF assms(2) run, where p = p]) auto
  qed (use assms(2) in simp)
qed

lemma grown_step: "receipt_step db db' \<Longrightarrow> grown x e db \<Longrightarrow> grown x e db'"
proof (induction rule: receipt_step.induct)
  case (service db ev db')
  then show ?case using order_step_lines grown_kept unfolding grown_def by meson
next
  case (update superuser sees offered c p db db')
  then obtain l d where "visible_line sees db p = Some l" "refused (line_save (changed_line d l) db) = Inr db'"
    by (auto simp: line_update_def bindE_eq_Inr split: option.splits if_splits)
  then show ?case using grown_saved[OF update.prems, of "changed_line d l" l] visible_lineD by (auto simp: changed_line_def)
next
  case (create superuser active sees offered c db db')
  then obtain q where "lch_order c = Some q" by (cases "lch_order c") (auto simp: line_create_def)
  let ?row = "owned_row superuser active (changed_line c (blank_line db q))"
  have "refused (line_add_row ?row db) = Inr db'"
    using create.hyps \<open>lch_order c = Some q\<close> by (auto simp: line_create_def Let_def bindE_eq_Inr split: if_split_asm)
  moreover have "pl_id ?row = next_id (map pl_id (es_lines db))" by (simp add: owned_row_def changed_line_def blank_line_def)
  ultimately show ?case using grown_added[OF create.prems] by blast
next
  case (add sees offered c p db db')
  then obtain po :: purchase_order where "refused (line_add_row ((changed_line (c\<lparr>lch_tenant := None, lch_order := None\<rparr>) (blank_line db p))\<lparr>pl_tenant := pu_tenant po\<rparr>) db)
      = Inr db'" unfolding line_add_def Let_def by (auto split: option.split_asm if_split_asm)
  then show ?case by (rule grown_added[OF add.prems, rotated]) (simp add: changed_line_def blank_line_def)
next
  case (edit sees qty price p db db')
  then obtain l where "visible_line sees db p = Some l" "refused (line_save (l\<lparr>pl_ordered := qty, pl_unit_price := price\<rparr>) db) = Inr db'"
    by (auto simp: line_edit_def split: option.splits if_splits)
  then show ?case using grown_saved[OF edit.prems, of "l\<lparr>pl_ordered := qty, pl_unit_price := price\<rparr>" l] visible_lineD by auto
next
  case (remove htmx now sees p db db')
  then obtain l where "visible_line sees db p = Some l" "refused (line_save (l\<lparr>pl_deleted := Some now\<rparr>) db) = Inr db'"
    by (auto simp: line_remove_def line_delete_def split: option.splits if_splits)
  then show ?case using grown_saved[OF remove.prems, of "l\<lparr>pl_deleted := Some now\<rparr>" l] visible_lineD by auto
next
  case (undelete p db db')
  then obtain l where "find_line db p = Some l" "refused (line_save (l\<lparr>pl_deleted := None\<rparr>) db) = Inr db'"
    by (auto simp: line_restore_def split: option.splits)
  moreover then have "find_line db (pl_id l) = Some l" by (auto simp: find_line_def dest: find_row_SomeD)
  ultimately show ?case using grown_saved[OF undelete.prems, of "l\<lparr>pl_deleted := None\<rparr>" l] by auto
next
  case (archive now sees p db db')
  then show ?case by (rule grown_archive)
next
  case (restore sees p db db')
  then show ?case by (rule grown_restore)
next
  case (elsewhere db' db)
  then show ?case by (simp add: grown_def find_line_def)
qed

text \<open>The first booking: the submission states the quantity the line had, and the line has more now.\<close>

lemma first_booking:
  assumes "receive_purchase_order cx rc submitted p db = Inr db1" and "pool_keys_ok db" and "keyed pl_id (es_lines db)"
    and "l \<in> set (order_lines db p)" and "0 < received_qty rc (pl_id l)"
  shows "map_of (re_expected rc) (pl_id l) = Some (pl_received l) \<and> moved_on p (pl_id l) (pl_received l) db1"
proof (rule receipt_books[OF assms(1-3)])
  fix po assume b: "books rc po (order_lines db p) db db1" and ck: "assert_receipt_state rc (order_lines db p) = Inr ()"
    and o: "find_order db1 p = Some (po\<lparr>pu_status := (if \<exists>l \<in> set (order_lines db p). still_outstanding rc l then OrderPartial else OrderReceived)\<rparr>)"
  have lines: "es_lines db1 = map (\<lambda>x. if x \<in> set (order_lines db p) then received_line rc x else x) (es_lines db)"
    and k: "pool_keys_ok db1" using b unfolding books_def by blast+
  have "find_line db (pl_id l) = Some l" using assms(3,4) by (simp add: find_line_def find_row_mem order_lines_set)
  then have "find_line db1 (pl_id l) = Some (received_line rc l)" using assms(4) by (simp add: find_line_def lines find_row_map)
  moreover have "map pl_id (es_lines db1) = map pl_id (es_lines db)" by (simp add: lines)
  ultimately have "moved_on p (pl_id l) (pl_received l) db1"
    using assms(3-5) k o by (simp add: moved_on_def keyed_def order_lines_set)
  then show ?thesis using receipt_state_stated[OF ck assms(4,5)] by blast
qed

lemma state_checked: "receive_purchase_order cx rc submitted p db = Inr db' \<Longrightarrow> assert_receipt_state rc (order_lines db p) = Inr ()"
proof (erule receive_purchase_orderE)
  fix po assume "lock_purchase_order db p = Inr po" "assert_receipt_state rc (order_lines db (pu_id po)) = Inr ()"
  then show ?thesis using lock_order_ok by metis
qed

text \<open>A submission that states less than was received for a line does not book that line: it fails, or the line is gone from the order.\<close>

lemma stale_submission:
  assumes "receive_purchase_order cx rc submitted p db = Inr db'" and "grown x e db"
    and "map_of (re_expected rc) x = Some e" and "0 < received_qty rc x"
  shows "x \<notin> pl_id ` set (order_lines db p) \<and> find_line db' x = find_line db x"
proof -
  obtain y where y: "find_line db x = Some y" "e < pl_received y" and ok: "pool_keys_ok db" "keyed pl_id (es_lines db)"
    using assms(2) unfolding grown_def by blast
  have id: "pl_id y = x" using y(1) by (auto simp: find_line_def dest: find_row_SomeD)
  have gone: "z \<notin> set (order_lines db p)" if "pl_id z = x" for z
  proof
    assume z: "z \<in> set (order_lines db p)"
    then have "find_line db x = Some z" using ok(2) that by (auto simp: find_line_def order_lines_set find_row_mem)
    then show False using receipt_state_stated[OF state_checked[OF assms(1)] z] that assms(3,4) y by simp
  qed
  moreover have "find_line db' x = find_line db x"
  proof (rule receipt_books[OF assms(1) ok])
    fix po assume "books rc po (order_lines db p) db db'"
    then have "es_lines db' = map (\<lambda>x. if x \<in> set (order_lines db p) then received_line rc x else x) (es_lines db)"
      unfolding books_def by blast
    then show ?thesis using y(1) gone[OF id] by (simp add: find_line_def find_row_map)
  qed
  ultimately show ?thesis by blast
qed

text \<open>C22. A submission is booked at most once.  Once a receipt with a quantity for some live line of the order has succeeded, the same
  submission is refused after any sequence of order and request services: none of them deletes the line, takes back what was
  received, or takes the order back to a state before receipt.  Lines can also be edited, moved, deleted and restored one by one, by the
  views and by the API, even on an order with receipts, and orders can be archived and restored.  After any sequence of these
  as well, a submission that succeeds again books nothing on that line: it is no live line of the order any more, and its row
  stays as it was.  (Each change reads the rows as they are when it runs; an API update that loaded a line before a concurrent
  receipt and writes it afterwards is not covered.)\<close>

theorem receipt_never_booked_twice:
  assumes "receive_purchase_order cx rc submitted p db = Inr db1" and "pool_keys_ok db" and "keyed pl_id (es_lines db)"
    and "l \<in> set (order_lines db p)" and "0 < received_qty rc (pl_id l)"
  shows "(\<forall>es db2 cx' submitted'. order_run db1 es db2 \<longrightarrow> (\<exists>e. receive_purchase_order cx' rc submitted' p db2 = Inl e)) \<and>
    (\<forall>db2 cx' submitted' db3. receipt_step\<^sup>*\<^sup>* db1 db2 \<longrightarrow> receive_purchase_order cx' rc submitted' p db2 = Inr db3 \<longrightarrow>
      pl_id l \<notin> pl_id ` set (order_lines db2 p) \<and> find_line db3 (pl_id l) = find_line db2 (pl_id l))"
proof (intro conjI allI impI)
  note first = first_booking[OF assms(1-5)]
  show "\<exists>e. receive_purchase_order cx' rc submitted' p db2 = Inl e" if run: "order_run db1 es db2" for es db2 cx' submitted'
  proof (cases "receive_purchase_order cx' rc submitted' p db2")
    case (Inr db3)
    have "moved_on p (pl_id l) (pl_received l) db2"
      using run conjunct2[OF first] by (induction rule: order_run.induct) (use moved_on_step in blast)+
    then obtain y where y: "y \<in> set (order_lines db2 p)" "pl_id y = pl_id l" "grown (pl_id l) (pl_received l) db2"
      unfolding moved_on_def grown_def find_line_def order_lines_set by (blast dest: find_row_SomeD)
    then show ?thesis using stale_submission[OF Inr y(3)] first assms(5) by (metis image_eqI)
  qed simp
  fix db2 cx' submitted' db3
  assume run: "receipt_step\<^sup>*\<^sup>* db1 db2" and again: "receive_purchase_order cx' rc submitted' p db2 = Inr db3"
  have "grown (pl_id l) (pl_received l) db1" using first unfolding moved_on_def grown_def by blast
  with run have "grown (pl_id l) (pl_received l) db2" by (induction rule: rtranclp_induct) (use grown_step in blast)+
  from stale_submission[OF again this] first assms(5)
  show "pl_id l \<notin> pl_id ` set (order_lines db2 p)" "find_line db3 (pl_id l) = find_line db2 (pl_id l)" by simp_all
qed

text \<open>The sample receipt, delivered again after another receipt has completed the order.\<close>

definition sample_rest :: receipt where
  "sample_rest = \<lparr>re_quantities = [(92, 1)], re_details = [], re_expected = [(92, 2)]\<rparr>"

definition sample_context :: receipt_context where
  "sample_context = \<lparr>rx_tenant = Some 2, rx_others = undisturbed, rx_today = Date 2025 2 1\<rparr>"

definition sample_completing :: "flow_error + estate" where
  "sample_completing = bindE sample_receiving (receive_purchase_order sample_context sample_rest OrderPartial 90)"

lemma sample_completing_runs: "case sample_completing of Inl _ \<Rightarrow> False
    | Inr db \<Rightarrow> map_option pu_status (find_order db 90) = Some OrderReceived"
  by code_simp

text \<open>Both lines of the partly received order deleted one by one, as requests without htmx may; then the receipt once more.\<close>

definition sample_emptied :: "estate \<Rightarrow> line_error + estate" where
  "sample_emptied db = bindE (line_remove False 70 (\<lambda>_. True) 92 db) (line_remove False 70 (\<lambda>_. True) 91)"

lemma sample_emptied_runs: "case sample_receiving of Inl _ \<Rightarrow> False
    | Inr db \<Rightarrow> (case sample_emptied db of Inl _ \<Rightarrow> False
      | Inr db2 \<Rightarrow> \<not> isl (receive_purchase_order sample_context sample_receipt OrderOrdered 90 db2))"
  by code_simp

lemma receipt_never_booked_twice_witness:
  "\<exists>db1 db2 db3 db4 e. sample_receiving = Inr db1 \<and> sample_completing = Inr db2 \<and>
     receive_purchase_order sample_context sample_receipt OrderOrdered 90 db2 = Inl e \<and>
     sample_emptied db1 = Inr db3 \<and> receive_purchase_order sample_context sample_receipt OrderOrdered 90 db3 = Inr db4 \<and>
     find_line db4 91 = find_line db3 91"
proof -
  obtain db2 where run: "sample_completing = Inr db2" using sample_completing_runs by (auto split: sum.splits)
  then obtain db1 where one: "sample_receiving = Inr db1" and two: "receive_purchase_order sample_context sample_rest OrderPartial 90 db1 = Inr db2"
    unfolding sample_completing_def by (auto simp: bindE_eq_Inr)
  obtain db3 where "sample_emptied db1 = Inr db3" "\<not> isl (receive_purchase_order sample_context sample_receipt OrderOrdered 90 db3)"
    using sample_emptied_runs unfolding one by (simp split: sum.splits)
  then obtain db4 where emptied: "sample_emptied db1 = Inr db3"
      "receive_purchase_order sample_context sample_receipt OrderOrdered 90 db3 = Inr db4"
    by (cases "receive_purchase_order sample_context sample_receipt OrderOrdered 90 db3") simp_all
  then obtain db0 where "line_remove False 70 (\<lambda>_. True) 92 db1 = Inr db0" "line_remove False 70 (\<lambda>_. True) 91 db0 = Inr db3"
    by (auto simp: sample_emptied_def bindE_eq_Inr)
  then have run3: "receipt_step\<^sup>*\<^sup>* db1 db3"
    using receipt_step.remove by (metis converse_rtranclp_into_rtranclp rtranclp.rtrancl_refl)
  have ok: "pool_keys_ok sample_ordered" "keyed pl_id (es_lines sample_ordered)" by code_simp+
  have lines: "order_lines sample_ordered 90 = sample_lines" by code_simp
  have l: "hd sample_lines \<in> set (order_lines sample_ordered 90)" "0 < received_qty sample_receipt (pl_id (hd sample_lines))"
    unfolding lines by (simp_all add: sample_lines_def received_qty_def sample_receipt_def)
  have id: "pl_id (hd sample_lines) = 91" by (simp add: sample_lines_def)
  have run2: "order_run db1 [Some (ReceiveOrder, 90, None)] db2"
    using order_run.more[OF order_run.start order_step.receive[OF two]] by simp
  note both = receipt_never_booked_twice[OF one[unfolded sample_receiving_def] ok l]
  obtain e where "receive_purchase_order sample_context sample_receipt OrderOrdered 90 db2 = Inl e"
    using both[THEN conjunct1, rule_format, OF run2] by blast
  moreover have "find_line db4 91 = find_line db3 91"
    using both[THEN conjunct2, rule_format, OF run3 emptied(2)] unfolding id by simp
  ultimately show ?thesis using run one emptied by blast
qed

end
