(* ===== verification/OrderCancel.thy ===== *)
theory OrderCancel
  imports OrderSafety
begin

text \<open>
  What the cancellation of an order gives back, and when an order can no longer be cancelled.
\<close>

section \<open>Requests given back\<close>

text \<open>Requests waiting for procurement may have become approved again, every other one is as it was.\<close>

definition given_back :: "estate \<Rightarrow> estate \<Rightarrow> bool" where
  "given_back db db' \<longleftrightarrow> (\<forall>q r. find_request db q = Some r \<longrightarrow> find_request db' q = Some r \<or>
     rq_status r = RequestProcurement \<and> find_request db' q = Some (r\<lparr>rq_status := RequestApproved\<rparr>))"

interpretation giving: step_relation given_back
proof
  show "given_back s u" if st: "given_back s t" and tu: "given_back t u" for s t u
    unfolding given_back_def
  proof (intro allI impI)
    fix q r assume "find_request s q = Some r"
    then consider "find_request t q = Some r" | "rq_status r = RequestProcurement" "find_request t q = Some (r\<lparr>rq_status := RequestApproved\<rparr>)"
      using st unfolding given_back_def by blast
    then show "find_request u q = Some r \<or> rq_status r = RequestProcurement \<and> find_request u q = Some (r\<lparr>rq_status := RequestApproved\<rparr>)"
      using tu unfolding given_back_def by cases fastforce+
  qed
qed (simp add: given_back_def)

interpretation ids: review_relation "\<lambda>s t. map rq_id (es_requests t) = map rq_id (es_requests s)"
  by unfold_locales (auto simp: request_store_def bindE_eq_Inr save_row_def)

interpretation links_kept: review_relation "\<lambda>s t. es_links t = es_links s \<and> es_lines t = es_lines s"
  by unfold_locales (auto simp: request_store_def bindE_eq_Inr)

lemma store_gives_back:
  assumes "request_store (r\<lparr>rq_status := RequestApproved\<rparr>) db = Inr db'" and "find_request db (rq_id r) = Some r"
    and "rq_status r = RequestProcurement"
  shows "given_back db db'" "find_request db' q = (if q = rq_id r then Some (r\<lparr>rq_status := RequestApproved\<rparr>) else find_request db q)"
proof -
  have db': "db' = db\<lparr>es_requests := save_row rq_id (r\<lparr>rq_status := RequestApproved\<rparr>) (es_requests db)\<rparr>"
    using assms(1) by (auto simp: request_store_def bindE_eq_Inr)
  have find: "find_request db' q = (if q = rq_id r then Some (r\<lparr>rq_status := RequestApproved\<rparr>) else find_request db q)" for q
    using assms(2) by (auto simp: find_request_def db' find_row_save_row)
  then show "find_request db' q = (if q = rq_id r then Some (r\<lparr>rq_status := RequestApproved\<rparr>) else find_request db q)" .
  show "given_back db db'" using assms(2,3) by (auto simp: given_back_def find)
qed

definition waiting_for :: "estate \<Rightarrow> fulfillment_link \<Rightarrow> asset_request \<Rightarrow> bool" where
  "waiting_for db l r \<longleftrightarrow> find_request db (fl_request l) = Some r \<and> rq_deleted r = None \<and> rq_status r = RequestProcurement"

lemma approved_stays: "given_back db db' \<Longrightarrow> find_request db q = Some (r\<lparr>rq_status := RequestApproved\<rparr>) \<Longrightarrow>
    find_request db' q = Some (r\<lparr>rq_status := RequestApproved\<rparr>)"
  unfolding given_back_def by fastforce

lemma revert_gives_back:
  "revert_requests ls db = Inr (reverted, db') \<Longrightarrow>
     given_back db db' \<and> (\<forall>l \<in> set ls. \<forall>r. waiting_for db l r \<longrightarrow> find_request db' (fl_request l) = Some (r\<lparr>rq_status := RequestApproved\<rparr>))"
proof (induction ls arbitrary: db reverted)
  case (Cons l ls)
  show ?case
  proof (cases "\<exists>r. waiting_for db l r")
    case True
    then obtain r where r: "find_request db (fl_request l) = Some r" "rq_deleted r = None" "rq_status r = RequestProcurement"
      unfolding waiting_for_def by blast
    then have id: "rq_id r = fl_request l" using find_row_SomeD by (fastforce simp: find_request_def)
    obtain db1 rev1 where one: "request_store (r\<lparr>rq_status := RequestApproved\<rparr>) db = Inr db1" and rest: "revert_requests ls db1 = Inr (rev1, db')"
      using Cons.prems r by (auto simp: bindE_eq_Inr dest!: bindE_pairD)
    note st = store_gives_back[OF one r(1)[folded id] r(3)]
    note ih = Cons.IH[OF rest]
    have mine: "find_request db' (fl_request l) = Some (r\<lparr>rq_status := RequestApproved\<rparr>)"
      using approved_stays[of db1 db'] ih st(2)[of "fl_request l"] id by simp
    have "find_request db' (fl_request l') = Some (x\<lparr>rq_status := RequestApproved\<rparr>)" if l': "l' \<in> set ls" "waiting_for db l' x" for l' x
    proof (cases "fl_request l' = fl_request l")
      case True
      then show ?thesis using mine r(1) l'(2) by (simp add: waiting_for_def)
    next
      case False
      then have "waiting_for db1 l' x" using l'(2) st(2)[of "fl_request l'"] id by (simp add: waiting_for_def)
      then show ?thesis using ih l'(1) by blast
    qed
    moreover have "given_back db db'" using giving.trans[OF st(1)] ih by blast
    moreover have "x = r" if "waiting_for db l x" for x using that r(1) by (simp add: waiting_for_def)
    ultimately show ?thesis using mine by auto
  next
    case False
    then have "revert_requests ls db = Inr (reverted, db')"
      using Cons.prems by (auto simp: waiting_for_def split: option.splits if_splits)
    from Cons.IH[OF this] show ?thesis using False by auto
  qed
qed (simp add: giving.refl)

lemma parents_give_back:
  "each approve_group_parent ps db = Inr db' \<Longrightarrow> distinct (map rq_id ps) \<Longrightarrow>
     (\<And>x. x \<in> set ps \<Longrightarrow> find_request db (rq_id x) = Some x \<and> rq_status x = RequestProcurement) \<Longrightarrow> given_back db db'"
proof (induction ps arbitrary: db)
  case (Cons p ps)
  then obtain db1 where one: "approve_group_parent p db = Inr db1" and rest: "each approve_group_parent ps db1 = Inr db'" by (auto simp: bindE_eq_Inr)
  have p: "find_request db (rq_id p) = Some p" "rq_status p = RequestProcurement" using Cons.prems(3)[of p] by simp_all
  consider "db1 = db" | "request_store (p\<lparr>rq_status := RequestApproved\<rparr>) db = Inr db1"
    using one unfolding approve_group_parent_def by (split if_split_asm) blast+
  then have step: "given_back db db1 \<and> (\<forall>q. q \<noteq> rq_id p \<longrightarrow> find_request db1 q = find_request db q)"
  proof cases
    case 2
    show ?thesis using store_gives_back[OF 2 p] by simp
  qed (simp add: giving.refl)
  have "given_back db1 db'"
  proof (rule Cons.IH[OF rest])
    show "distinct (map rq_id ps)" using Cons.prems(2) by simp
    fix x assume x: "x \<in> set ps"
    have "rq_id p \<notin> rq_id ` set ps" using Cons.prems(2) by simp
    then have "rq_id x \<noteq> rq_id p" using imageI[OF x, of rq_id] by metis
    then show "find_request db1 (rq_id x) = Some x \<and> rq_status x = RequestProcurement" using step Cons.prems(3)[of x] x by simp
  qed
  then show ?case using step giving.trans by blast
qed (simp add: giving.refl)

lemma approve_parents_give_back:
  assumes "approve_completed_group_parents linked db = Inr db'" and "keyed rq_id (es_requests db)"
  shows "given_back db db'"
proof (rule parents_give_back[OF assms(1)[unfolded approve_completed_group_parents_def Let_def]])
  show "distinct (map rq_id (filter (\<lambda>r. Some (rq_id r) \<in> set (map rq_parent linked) \<and> rq_status r = RequestProcurement \<and> rq_deleted r = None)
      (es_requests db)))" using assms(2) unfolding keyed_def by (rule distinct_map_filter)
qed (use assms(2) in \<open>simp add: find_request_def find_row_mem\<close>)

section \<open>Rows deleted\<close>

lemma delete_each:
  assumes "each (link_delete now) ls db = Inr db'"
  shows "es_requests db' = es_requests db \<and> es_lines db' = es_lines db \<and>
    (\<forall>x \<in> set (es_links db'). fl_deleted x = None \<longrightarrow> x \<in> set (es_links db) \<and> fl_id x \<notin> fl_id ` set ls)"
  using assms
proof (induction ls arbitrary: db)
  case (Cons l ls)
  then obtain db1 where one: "link_delete now l db = Inr db1" and rest: "each (link_delete now) ls db1 = Inr db'" by (auto simp: bindE_eq_Inr)
  have db1: "db1 = db\<lparr>es_links := save_row fl_id (l\<lparr>fl_deleted := Some now\<rparr>) (es_links db)\<rparr>"
    using one by (auto simp: link_delete_def link_save_def bindE_eq_Inr)
  have "x \<in> set (es_links db) \<and> fl_id x \<noteq> fl_id l" if "x \<in> set (es_links db1)" "fl_deleted x = None" for x
    using that by (auto simp: db1 save_row_def split: if_splits)
  then show ?case using Cons.IH[OF rest] by (auto simp: db1)
qed simp

lemma delete_lines_each:
  assumes "each (line_delete now) ls db = Inr db'"
  shows "es_requests db' = es_requests db \<and> es_links db' = es_links db \<and>
    (\<forall>x. pl_deleted x = None \<longrightarrow> (x \<in> set (es_lines db') \<longleftrightarrow> x \<in> set (es_lines db) \<and> pl_id x \<notin> pl_id ` set ls))"
  using assms
proof (induction ls arbitrary: db)
  case (Cons l ls)
  then obtain db1 where one: "line_delete now l db = Inr db1" and rest: "each (line_delete now) ls db1 = Inr db'" by (auto simp: bindE_eq_Inr)
  have db1: "db1 = db\<lparr>es_lines := save_row pl_id (l\<lparr>pl_deleted := Some now\<rparr>) (es_lines db)\<rparr>"
    using one by (auto simp: line_delete_def line_save_def bindE_eq_Inr)
  have "x \<in> set (es_lines db1) \<longleftrightarrow> x \<in> set (es_lines db) \<and> pl_id x \<noteq> pl_id l" if "pl_deleted x = None" for x
    using that by (auto simp: db1 save_row_def split: if_splits intro!: image_eqI[of x _ x])
  then show ?case using Cons.IH[OF rest] by (auto simp: db1)
qed simp

text \<open>C25. What a cancellation gives back: the order is cancelled,
  no live link is left on its lines, every request that waited for procurement through one of the links that were live
  is approved again, requests change in no other way than from procurement back to approved, and of
  the lines of the order exactly those with a live link to a request are deleted: a line added by hand stays, and so does
  a line that was created for a request whose link has been closed since.\<close>

theorem cancel_gives_back:
  assumes "cancel_purchase_order now p db = Inr db'" and "keyed rq_id (es_requests db)"
  shows "\<exists>po. find_order db p = Some po \<and> find_order db' p = Some (po\<lparr>pu_status := OrderCancelled\<rparr>) \<and>
    (\<forall>x \<in> set (es_links db'). fl_deleted x = None \<longrightarrow> fl_line x \<notin> pl_id ` set (order_lines db p)) \<and>
    (\<forall>x \<in> set (es_links db). \<forall>r. fl_deleted x = None \<and> fl_line x \<in> pl_id ` set (order_lines db p) \<and>
       find_request db (fl_request x) = Some r \<and> rq_deleted r = None \<and> rq_status r = RequestProcurement \<longrightarrow>
       find_request db' (fl_request x) = Some (r\<lparr>rq_status := RequestApproved\<rparr>)) \<and>
    (\<forall>q r. find_request db q = Some r \<longrightarrow> find_request db' q = Some r \<or>
       rq_status r = RequestProcurement \<and> find_request db' q = Some (r\<lparr>rq_status := RequestApproved\<rparr>)) \<and>
    set (order_lines db' p) = {l \<in> set (order_lines db p). \<forall>x \<in> set (es_links db). fl_deleted x = None \<longrightarrow> fl_line x \<noteq> pl_id l}"
proof (rule cancel_purchase_orderE[OF assms(1)])
  fix po links reverted db1 db2 db3 db4
  assume po: "lock_purchase_order db p = Inr po" and links: "links = (let line_ids = map pl_id (order_lines db p);
       request_ids = map fl_request (filter (\<lambda>l. fl_line l \<in> set line_ids) (es_links db)) in
       filter (\<lambda>l. fl_line l \<in> set line_ids) (lock_unit_fulfillment_links db request_ids))"
    and run: "revert_requests links db = Inr (reverted, db1)" "each (link_delete now) links db1 = Inr db2"
    "each (line_delete now) (filter (\<lambda>l. pl_id l \<in> set (map fl_line links)) (order_lines db p)) db2 = Inr db3"
    "approve_completed_group_parents reverted db3 = Inr db4" "transition_purchase_order po CancelOrder None db4 = Inr db'"
  have member: "x \<in> set links \<longleftrightarrow> x \<in> set (es_links db) \<and> fl_deleted x = None \<and> fl_line x \<in> pl_id ` set (order_lines db p)" for x
    unfolding links by (auto simp: Let_def lock_unit_fulfillment_links_def live_links_def)
  obtain s where s: "s \<in> set (PURCHASE_ORDER_TRANSITIONS CancelOrder (pu_status po))" and db': "db' = order_save (po\<lparr>pu_status := s\<rparr>) db4"
    using transition_effect[OF run(5)] by auto
  have "s = OrderCancelled" using s by (cases "pu_status po") auto
  have orders: "es_orders db4 = es_orders db"
  proof -
    have "es_orders db2 = es_orders db1" by (rule kept.each_rel[OF _ run(2)]) (simp add: link_delete_def kept.link_save_rel)
    moreover have "es_orders db3 = es_orders db2" by (rule kept.each_rel[OF _ run(3)]) (simp add: line_delete_def kept.line_save_rel)
    ultimately show ?thesis using kept.revert_rel[OF run(1)] kept.approve_parents_rel[OF run(4)] by simp
  qed
  note l = links_kept.revert_rel[OF run(1)] links_kept.approve_parents_rel[OF run(4)]
  note d = delete_each[OF run(2)] delete_lines_each[OF run(3)]
  have tables: "es_links db' = es_links db2" "es_lines db' = es_lines db3" "find_request db' = find_request db4"
    using l(2) d(2) by (simp_all add: db' order_save_def find_request_def fun_eq_iff)
  have mid: "find_request db3 = find_request db1" using d by (simp add: find_request_def fun_eq_iff)
  have "keyed rq_id (es_requests db3)" using ids.revert_rel[OF run(1)] d assms(2) by (simp add: keyed_def)
  then have back2: "given_back db1 db'"
    using approve_parents_give_back[OF run(4)] unfolding given_back_def mid tables(3) by blast
  note back1 = revert_gives_back[OF run(1)]
  show ?thesis
  proof (intro exI conjI)
    show "find_order db p = Some po" using lock_order_ok[OF po] by simp
    show "find_order db' p = Some (po\<lparr>pu_status := OrderCancelled\<rparr>)"
      using lock_order_ok[OF po] \<open>s = OrderCancelled\<close> by (simp add: db' order_save_def find_order_def find_row_save_row orders)
    show "\<forall>x \<in> set (es_links db'). fl_deleted x = None \<longrightarrow> fl_line x \<notin> pl_id ` set (order_lines db p)"
      unfolding tables using d(1) l(1) member by auto
    show "\<forall>x \<in> set (es_links db). \<forall>r. fl_deleted x = None \<and> fl_line x \<in> pl_id ` set (order_lines db p) \<and>
       find_request db (fl_request x) = Some r \<and> rq_deleted r = None \<and> rq_status r = RequestProcurement \<longrightarrow>
       find_request db' (fl_request x) = Some (r\<lparr>rq_status := RequestApproved\<rparr>)"
    proof (intro ballI allI impI)
      fix x r assume "x \<in> set (es_links db)" and x: "fl_deleted x = None \<and> fl_line x \<in> pl_id ` set (order_lines db p) \<and>
       find_request db (fl_request x) = Some r \<and> rq_deleted r = None \<and> rq_status r = RequestProcurement"
      then have "x \<in> set links" "waiting_for db x r" by (simp_all add: member waiting_for_def)
      then have "find_request db1 (fl_request x) = Some (r\<lparr>rq_status := RequestApproved\<rparr>)" using back1 by blast
      then show "find_request db' (fl_request x) = Some (r\<lparr>rq_status := RequestApproved\<rparr>)" by (rule approved_stays[OF back2])
    qed
    have "given_back db db'" using giving.trans[of db db1 db'] back1 back2 by blast
    then show "\<forall>q r. find_request db q = Some r \<longrightarrow> find_request db' q = Some r \<or>
       rq_status r = RequestProcurement \<and> find_request db' q = Some (r\<lparr>rq_status := RequestApproved\<rparr>)" unfolding given_back_def .
    show "set (order_lines db' p) = {l \<in> set (order_lines db p). \<forall>x \<in> set (es_links db). fl_deleted x = None \<longrightarrow> fl_line x \<noteq> pl_id l}"
    proof (intro set_eqI)
      fix x
      have "x \<in> set (order_lines db' p) \<longleftrightarrow> x \<in> set (order_lines db p) \<and> pl_id x \<notin> fl_line ` set links"
        using d l(1) by (auto simp: order_lines_def tables)
      moreover have "pl_id x \<in> fl_line ` set links \<longleftrightarrow> (\<exists>y \<in> set (es_links db). fl_deleted y = None \<and> fl_line y = pl_id x)"
        if "x \<in> set (order_lines db p)" using member that by (force simp: image_iff)
      ultimately show "x \<in> set (order_lines db' p) \<longleftrightarrow>
          x \<in> {l \<in> set (order_lines db p). \<forall>x \<in> set (es_links db). fl_deleted x = None \<longrightarrow> fl_line x \<noteq> pl_id l}" by blast
    qed
  qed
qed

definition sample_cancelling :: "flow_error + estate" where
  "sample_cancelling = cancel_purchase_order 70 90 sample_ordered"

lemma sample_cancelling_runs: "case sample_cancelling of Inl _ \<Rightarrow> False | Inr db \<Rightarrow> length (es_lines db) = 2"
  by code_simp

lemma cancel_gives_back_witness:
  "\<exists>db. sample_cancelling = Inr db \<and> find_order db 90 = Some (sample_order\<lparr>pu_status := OrderCancelled\<rparr>) \<and>
     find_request db 95 = Some (sample_request\<lparr>rq_status := RequestApproved\<rparr>) \<and> 92 \<in> pl_id ` set (order_lines db 90)"
proof -
  obtain db where run: "sample_cancelling = Inr db" using sample_cancelling_runs by (auto split: sum.splits)
  have k: "keyed rq_id (es_requests sample_ordered)" by code_simp
  let ?l = "\<lparr>fl_id = 93, fl_tenant = Some 2, fl_request = 95, fl_line = 91, fl_allocated = 1, fl_received = Some 0, fl_deleted = None\<rparr>"
  have o: "find_order sample_ordered 90 = Some sample_order" "find_request sample_ordered 95 = Some sample_request"
    by (simp_all add: sample_ordered_def sample_order_def sample_request_def find_order_def find_request_def)
  have links: "es_links sample_ordered = [?l]" by (simp add: sample_ordered_def)
  have rows: "order_lines sample_ordered 90 = sample_lines" "pl_id ` set sample_lines = {91, 92}" by code_simp+
  from cancel_gives_back[OF run[unfolded sample_cancelling_def] k] obtain po where po: "find_order sample_ordered 90 = Some po"
    "find_order db 90 = Some (po\<lparr>pu_status := OrderCancelled\<rparr>)"
    and given: "\<forall>x \<in> set (es_links sample_ordered). \<forall>r. fl_deleted x = None \<and> fl_line x \<in> pl_id ` set (order_lines sample_ordered 90) \<and>
       find_request sample_ordered (fl_request x) = Some r \<and> rq_deleted r = None \<and> rq_status r = RequestProcurement \<longrightarrow>
       find_request db (fl_request x) = Some (r\<lparr>rq_status := RequestApproved\<rparr>)"
    and lines: "set (order_lines db 90) = {l \<in> set (order_lines sample_ordered 90). \<forall>x \<in> set (es_links sample_ordered). fl_deleted x = None \<longrightarrow> fl_line x \<noteq> pl_id l}"
    by blast
  have "find_request db 95 = Some (sample_request\<lparr>rq_status := RequestApproved\<rparr>)"
    using given unfolding links rows by (simp add: o rows) (simp add: sample_request_def)
  moreover have "92 \<in> pl_id ` set (order_lines db 90)"
    unfolding lines rows links by (rule image_eqI[of _ _ "sample_lines ! 1"]) (simp_all add: sample_lines_def)
  moreover have "find_order db 90 = Some (sample_order\<lparr>pu_status := OrderCancelled\<rparr>)" using po o by simp
  ultimately show ?thesis using run by blast
qed

section \<open>Orders that can no longer be cancelled\<close>

text \<open>A submission of the receiving form without a single unit moves an ordered order to partially received:
  nothing is booked, no row but the order's status changes, and from then on the order can neither be
  cancelled nor reopened.\<close>

theorem empty_receipt_blocks_cancellation:
  assumes "find_order db p = Some po" and "pu_deleted po = None" and "pu_status po = OrderOrdered"
    and "first_label db DEPLOYABLE \<noteq> None"
    and "\<forall>l \<in> set (order_lines db p). received_qty rc (pl_id l) \<le> 0" and "\<exists>l \<in> set (order_lines db p). line_outstanding l > 0"
  shows "receive_purchase_order cx rc submitted p db = Inr (order_save (po\<lparr>pu_status := OrderPartial\<rparr>) db) \<and>
    cancel_purchase_order now p (order_save (po\<lparr>pu_status := OrderPartial\<rparr>) db) = Inl (OrderTransition OrderPartial) \<and>
    reopen_purchase_order p (order_save (po\<lparr>pu_status := OrderPartial\<rparr>) db) = Inl (OrderTransition OrderPartial)"
proof -
  have id: "pu_id po = p" using assms(1) by (auto simp: find_order_def dest: find_row_SomeD)
  have lock: "lock_purchase_order db p = Inr po" using assms(1,2) by (simp add: lock_purchase_order_def)
  obtain label where label: "first_label db DEPLOYABLE = Some label" using assms(4) by blast
  have state: "assert_receipt_state rc ls = Inr ()" if "\<forall>l \<in> set ls. received_qty rc (pl_id l) \<le> 0" for ls
    using that by (induction ls) simp_all
  have rows: "each (receive_line cx rc po label) ls db = Inr db" if "\<forall>l \<in> set ls. received_qty rc (pl_id l) \<le> 0" for ls
    using that by (induction ls) (simp_all add: receive_line_skip)
  have none: "items_received rc (order_lines db p) k = []" for k
  proof -
    have "set (items_received rc (order_lines db p) k) = {}"
      using assms(5) by (auto simp: items_received_def split: option.splits if_splits)
    then show ?thesis by simp
  qed
  have stock: "lock_receipt_stock_rows rc (order_lines db p) (pu_location po) db = Inr db"
    by (simp add: lock_receipt_stock_rows_def none)
  have out: "\<exists>l \<in> set (order_lines db p). still_outstanding rc l"
  proof -
    have "max 0 (received_qty rc (pl_id l)) = 0" if "l \<in> set (order_lines db p)" for l using assms(5) that by simp
    then show ?thesis using assms(6) by (simp add: still_outstanding_def)
  qed
  have "receive_purchase_order cx rc submitted p db = Inr (order_save (po\<lparr>pu_status := OrderPartial\<rparr>) db)"
    using out by (simp add: receive_purchase_order_def receive_locked_def lock validate_receipt_transition_def
        validate_purchase_order_transition_def assms(3) id state[OF assms(5)] label stock rows[OF assms(5)] transition_purchase_order_def)
  moreover have "lock_purchase_order (order_save (po\<lparr>pu_status := OrderPartial\<rparr>) db) p = Inr (po\<lparr>pu_status := OrderPartial\<rparr>)"
    using assms(1,2) id by (simp add: lock_purchase_order_def order_save_def find_order_def find_row_save_row)
  ultimately show ?thesis
    by (simp add: cancel_purchase_order_def reopen_purchase_order_def validate_purchase_order_transition_def)
qed

definition sample_empty :: receipt where
  "sample_empty = \<lparr>re_quantities = [], re_details = [], re_expected = []\<rparr>"

lemma empty_receipt_blocks_cancellation_witness:
  "receive_purchase_order \<lparr>rx_tenant = Some 2, rx_others = undisturbed, rx_today = Date 2025 2 1\<rparr> sample_empty OrderOrdered 90 sample_ordered =
     Inr (order_save (sample_order\<lparr>pu_status := OrderPartial\<rparr>) sample_ordered) \<and>
   cancel_purchase_order 70 90 (order_save (sample_order\<lparr>pu_status := OrderPartial\<rparr>) sample_ordered) = Inl (OrderTransition OrderPartial)"
proof -
  have po: "find_order sample_ordered 90 = Some sample_order" "pu_deleted sample_order = None" "pu_status sample_order = OrderOrdered"
    by (simp_all add: sample_ordered_def sample_order_def find_order_def)
  have label: "first_label sample_ordered DEPLOYABLE \<noteq> None" by code_simp
  have rows: "order_lines sample_ordered 90 = sample_lines" by code_simp
  have q: "\<forall>l \<in> set (order_lines sample_ordered 90). received_qty sample_empty (pl_id l) \<le> 0"
    by (simp add: received_qty_def sample_empty_def)
  have out: "\<exists>l \<in> set (order_lines sample_ordered 90). line_outstanding l > 0"
    unfolding rows by (simp add: sample_lines_def line_outstanding_def)
  from empty_receipt_blocks_cancellation[OF po label q out] show ?thesis by blast
qed

end
