(* ===== verification/GrantPlans.thy ===== *)
theory GrantPlans
  imports Delegation
begin

text \<open>
  Planning the role grants of one membership: the read-only half of
  \<^verbatim>\<open>organization/services/rolegrants.py\<close>.  A set of ids is a list read through \<^const>\<open>set\<close>; a message is
  the data it is built from.
\<close>

section \<open>Plans\<close>

record own_grant_spec =
  os_role :: role
  os_reason :: string
  os_valid_until :: "instant option"

text \<open>The literals \<^verbatim>\<open>explicit\<close>, \<^verbatim>\<open>tenant_group\<close> and \<^verbatim>\<open>all_managed\<close>.\<close>

datatype managed_scope = CoverExplicit | CoverTenantGroup | CoverAllManaged

record managed_grant_spec =
  ms_role :: role
  ms_scope :: managed_scope
  ms_grant_id :: "pk option"
  ms_scope_group :: "pk option"
  ms_tenants :: "tenant list"
  ms_reason :: string
  ms_valid_until :: "instant option"
  ms_row_index :: "nat option"

record grant_plan =
  gp_own :: "own_grant_spec list"
  gp_managed :: "managed_grant_spec list"

record validated_plan =
  vp_principal_tenant :: tenant
  vp_membership :: "pk option"
  vp_plan :: grant_plan
  vp_actor :: "user option"
  vp_revalidate :: bool
  vp_own_role_ids :: "pk list"
  vp_managed_grant_ids :: "pk list"

definition MANAGED_SCOPE_TYPES :: "scope_type list" where
  "MANAGED_SCOPE_TYPES = [ScopeTenant, ScopeTenantGroup, ScopeAllManaged]"

definition role_assignable_in :: "role \<Rightarrow> tenant \<Rightarrow> bool" where
  "role_assignable_in r t =
     (if tn_id (ro_tenant r) = tn_id t then True
      else ro_shared_with_managed r \<and> tn_is_provider (ro_tenant r) \<and> tn_managed_by t = Some (tn_id (ro_tenant r)))"

section \<open>Live rows\<close>

definition of_membership :: "pk \<Rightarrow> role_grant \<Rightarrow> bool" where
  "of_membership m g \<longleftrightarrow> map_option mb_id (rg_membership g) = Some m"

definition live_own_grants :: "tenancy \<Rightarrow> instant \<Rightarrow> pk \<Rightarrow> role_grant list" where
  "live_own_grants db now m =
     filter (\<lambda>g. of_membership m g \<and> (\<exists>s \<in> set (rg_scopes g). sc_type s = ScopeOwn) \<and> ro_deleted (rg_role g) = None \<and>
                 grant_is_active now g) (td_grants db)"

definition live_managed_grants :: "tenancy \<Rightarrow> instant \<Rightarrow> pk \<Rightarrow> role_grant list" where
  "live_managed_grants db now m =
     filter (\<lambda>g. of_membership m g \<and> ro_deleted (rg_role g) = None \<and>
                 (\<exists>s \<in> set (rg_scopes g). sc_type s \<in> set MANAGED_SCOPE_TYPES) \<and> grant_is_active now g) (td_grants db)"

section \<open>Rejections\<close>

datatype rejection_class = CrossTenantObject | MembershipServiceError | ElevatedGrantIncomplete | EscalationDenied

datatype rejection_message =
  RoleNotAvailableHere string | NotAManagingTenant | RoleTwice string | NeedsOwnRole | GroupMissing | GroupCoversNothing pk
  | NoTenantPicked | NotManagedHere "string list" | ReasonRequired | ExpirationRequired | ExpirationPast
  | GuardMessage delegation_error

record rejection =
  rj_class :: rejection_class
  rj_message :: rejection_message
  rj_field :: string
  rj_row :: "nat option"

definition rejected :: "rejection_class \<Rightarrow> rejection_message \<Rightarrow> string \<Rightarrow> nat option \<Rightarrow> rejection" where
  "rejected c msg f row = \<lparr>rj_class = c, rj_message = msg, rj_field = f, rj_row = row\<rparr>"

text \<open>\<open>_Rejections.add\<close>: the same complaint in the same place is reported once.\<close>

definition add_rejection :: "rejection \<Rightarrow> rejection list \<Rightarrow> rejection list" where
  "add_rejection r rs =
     (if \<exists>x \<in> set rs. rj_message x = rj_message r \<and> rj_field x = rj_field r \<and> rj_row x = rj_row r then rs else rs @ [r])"

definition add_rejections :: "rejection list \<Rightarrow> rejection list \<Rightarrow> rejection list" where
  "add_rejections new rs = fold add_rejection new rs"

definition raise_if_any :: "rejection list \<Rightarrow> (rejection_class \<times> rejection list) + unit" where
  "raise_if_any rs =
     (case remdups (map rj_class rs) of
        [] \<Rightarrow> Inr ()
      | [c] \<Rightarrow> Inl (c, rs)
      | _ \<Rightarrow> Inl (MembershipServiceError, rs))"

section \<open>Shape and reach\<close>

definition group_expansion :: "tenancy \<Rightarrow> world \<Rightarrow> tenant \<Rightarrow> pk \<Rightarrow> pk list" where
  "group_expansion db w owner tg =
     (let ids = fst (get_descendant_tenant_group_ids (td_groups db) (Some tg) False (cx_tree_cache (w_ctx w)))
      in map tn_id (filter (\<lambda>t. tn_managed_by t = Some (tn_id owner) \<and>
           (case tn_group t of None \<Rightarrow> False | Some g \<Rightarrow> g \<in> set ids)) (td_tenants db)))"

text \<open>A row without a group never gets past the shape checks.\<close>

definition requested_tenant_ids_for :: "tenancy \<Rightarrow> world \<Rightarrow> tenant \<Rightarrow> managed_grant_spec \<Rightarrow> pk list option" where
  "requested_tenant_ids_for db w owner spec =
     (case ms_scope spec of
        CoverAllManaged \<Rightarrow> None
      | CoverTenantGroup \<Rightarrow> Some (case ms_scope_group spec of None \<Rightarrow> [] | Some g \<Rightarrow> group_expansion db w owner g)
      | CoverExplicit \<Rightarrow> Some (map tn_id (ms_tenants spec)))"

definition own_shape :: "tenant \<Rightarrow> own_grant_spec \<Rightarrow> rejection list" where
  "own_shape owner spec =
     (if role_assignable_in (os_role spec) owner then []
      else [rejected CrossTenantObject (RoleNotAvailableHere (ro_name (os_role spec))) [] None])"

text \<open>\<open>_validate_managed_row_basics\<close>, with the roles seen so far.\<close>

definition managed_row_basics :: "tenant \<Rightarrow> managed_grant_spec \<Rightarrow> pk list \<Rightarrow> rejection option \<times> pk list" where
  "managed_row_basics owner spec seen =
     (let r = ms_role spec; reject = (\<lambda>c m. Some (rejected c m [] (ms_row_index spec))) in
      if \<not> tn_is_provider owner then (reject CrossTenantObject NotAManagingTenant, seen)
      else if ro_id r \<in> set seen then (reject MembershipServiceError (RoleTwice (ro_name r)), seen)
      else if \<not> role_assignable_in r owner then (reject CrossTenantObject (RoleNotAvailableHere (ro_name r)), ro_id r # seen)
      else if tn_id (ro_tenant r) \<noteq> tn_id owner \<or> \<not> tn_is_provider (ro_tenant r)
      then (reject CrossTenantObject NeedsOwnRole, ro_id r # seen)
      else (None, ro_id r # seen))"

definition managed_group_coverage :: "tenancy \<Rightarrow> world \<Rightarrow> tenant \<Rightarrow> managed_grant_spec \<Rightarrow> rejection list" where
  "managed_group_coverage db w owner spec =
     (case ms_scope_group spec of
        None \<Rightarrow> [rejected MembershipServiceError GroupMissing ''scope_group'' (ms_row_index spec)]
      | Some g \<Rightarrow>
          if group_expansion db w owner g = []
          then [rejected CrossTenantObject (GroupCoversNothing g) ''scope_group'' (ms_row_index spec)] else [])"

definition managed_explicit_coverage :: "tenant \<Rightarrow> managed_grant_spec \<Rightarrow> rejection list" where
  "managed_explicit_coverage owner spec =
     (if ms_tenants spec = [] then [rejected MembershipServiceError NoTenantPicked ''assigned_tenants'' (ms_row_index spec)]
      else (let outside = filter (\<lambda>t. tn_managed_by t \<noteq> Some (tn_id owner)) (ms_tenants spec)
            in if outside \<noteq> []
               then [rejected CrossTenantObject (NotManagedHere (map tn_name outside)) ''assigned_tenants'' (ms_row_index spec)]
               else []))"

definition managed_row_coverage :: "tenancy \<Rightarrow> world \<Rightarrow> tenant \<Rightarrow> managed_grant_spec \<Rightarrow> rejection list" where
  "managed_row_coverage db w owner spec =
     (case ms_scope spec of
        CoverAllManaged \<Rightarrow> []
      | CoverTenantGroup \<Rightarrow> managed_group_coverage db w owner spec
      | CoverExplicit \<Rightarrow> managed_explicit_coverage owner spec)"

fun managed_shape :: "tenancy \<Rightarrow> world \<Rightarrow> tenant \<Rightarrow> managed_grant_spec list \<Rightarrow> pk list \<Rightarrow> rejection list" where
  "managed_shape db w owner [] seen = []"
| "managed_shape db w owner (spec # specs) seen =
     (case managed_row_basics owner spec seen of
        (Some r, seen') \<Rightarrow> r # managed_shape db w owner specs seen'
      | (None, seen') \<Rightarrow> managed_row_coverage db w owner spec @ managed_shape db w owner specs seen')"

definition shape_and_reach :: "tenancy \<Rightarrow> world \<Rightarrow> tenant \<Rightarrow> grant_plan \<Rightarrow> rejection list" where
  "shape_and_reach db w owner plan =
     concat (map (own_shape owner) (gp_own plan)) @ managed_shape db w owner (gp_managed plan) []"

section \<open>Elevated roles\<close>

definition check_elevated :: "string \<Rightarrow> instant option \<Rightarrow> instant \<Rightarrow> nat option \<Rightarrow> rejection list" where
  "check_elevated reason valid_until now row =
     (if py_strip reason = [] then [rejected ElevatedGrantIncomplete ReasonRequired ''reason'' row] else []) @
     (case valid_until of
        None \<Rightarrow> [rejected ElevatedGrantIncomplete ExpirationRequired ''valid_until'' row]
      | Some v \<Rightarrow> if v \<le> now then [rejected ElevatedGrantIncomplete ExpirationPast ''valid_until'' row] else [])"

definition elevated_metadata :: "instant \<Rightarrow> grant_plan \<Rightarrow> pk list \<Rightarrow> rejection list" where
  "elevated_metadata now plan existing_own_role_ids =
     concat (map (\<lambda>s. if ro_id (os_role s) \<in> set existing_own_role_ids \<or> \<not> role_is_privileged (os_role s) then []
                      else check_elevated (os_reason s) (os_valid_until s) now None) (gp_own plan)) @
     concat (map (\<lambda>s. if \<not> role_is_privileged (ms_role s) then []
                      else check_elevated (ms_reason s) (ms_valid_until s) now (ms_row_index s)) (gp_managed plan))"

section \<open>Escalation\<close>

definition guard_scope :: "managed_scope \<Rightarrow> scope_type" where
  "guard_scope c = (case c of CoverExplicit \<Rightarrow> ScopeOther ''explicit'' | CoverTenantGroup \<Rightarrow> ScopeTenantGroup | CoverAllManaged \<Rightarrow> ScopeAllManaged)"

definition guard_rejection :: "nat option \<Rightarrow> delegation_error \<Rightarrow> rejection" where
  "guard_rejection row e = rejected EscalationDenied (GuardMessage e) [] row"

fun own_escalation :: "tenancy \<Rightarrow> instant \<Rightarrow> user option \<Rightarrow> tenant \<Rightarrow> own_grant_spec list \<Rightarrow> world \<Rightarrow> rejection list \<times> world" where
  "own_escalation db now actor owner [] w = ([], w)"
| "own_escalation db now actor owner (s # ss) w =
     (let (r, w1) = validate_role_grant db now actor (os_role s) owner ScopeOwn None w;
          (rs, w2) = own_escalation db now actor owner ss w1
      in (case r of Inl e \<Rightarrow> guard_rejection None e # rs | Inr _ \<Rightarrow> rs, w2))"

fun managed_escalation :: "tenancy \<Rightarrow> instant \<Rightarrow> user option \<Rightarrow> tenant \<Rightarrow> managed_grant_spec list \<Rightarrow> world \<Rightarrow> rejection list \<times> world" where
  "managed_escalation db now actor owner [] w = ([], w)"
| "managed_escalation db now actor owner (s # ss) w =
     (let (r, w1) = validate_role_grant db now actor (ms_role s) owner (guard_scope (ms_scope s)) (requested_tenant_ids_for db w owner s) w;
          (rs, w2) = managed_escalation db now actor owner ss w1
      in (case r of Inl e \<Rightarrow> guard_rejection (ms_row_index s) e # rs | Inr _ \<Rightarrow> rs, w2))"

text \<open>The live groups that a membership is retained in; a group that no grant names has nothing to check.\<close>

definition retained_groups :: "tenancy \<Rightarrow> pk \<Rightarrow> user_group list" where
  "retained_groups db m =
     remdups (filter (\<lambda>ug. m \<in> mb_id ` set (ug_members ug) \<and> ug_active ug \<and> ug_deleted ug = None)
       (List.map_filter rg_user_group (td_grants db)))"

fun group_escalation :: "tenancy \<Rightarrow> instant \<Rightarrow> user option \<Rightarrow> user_group list \<Rightarrow> world \<Rightarrow> rejection list \<times> world" where
  "group_escalation db now actor [] w = ([], w)"
| "group_escalation db now actor (ug # ugs) w =
     (let (r, w1) = validate_group_membership_grant db now actor ug w;
          (rs, w2) = group_escalation db now actor ugs w1
      in (case r of Inl es \<Rightarrow> map (guard_rejection None) es @ rs | Inr _ \<Rightarrow> rs, w2))"

text \<open>\<open>validate_grant_plan\<close>: the shape checks halt before the checks relative to the actor.\<close>

definition validate_grant_plan ::
    "tenancy \<Rightarrow> instant \<Rightarrow> user option \<Rightarrow> tenant \<Rightarrow> grant_plan \<Rightarrow> membership option \<Rightarrow> bool \<Rightarrow> world \<Rightarrow>
       ((rejection_class \<times> rejection list) + validated_plan) \<times> world" where
  "validate_grant_plan db now actor owner plan m revalidate w =
     (let own_ids = (case m of None \<Rightarrow> [] | Some m \<Rightarrow> map (\<lambda>g. ro_id (rg_role g)) (live_own_grants db now (mb_id m)));
          managed_ids = (case m of None \<Rightarrow> [] | Some m \<Rightarrow> map rg_id (live_managed_grants db now (mb_id m)))
      in case raise_if_any (add_rejections (shape_and_reach db w owner plan) []) of
           Inl e \<Rightarrow> (Inl e, w)
         | Inr _ \<Rightarrow>
             (let elevated = elevated_metadata now plan own_ids;
                  (own_errors, w1) = own_escalation db now actor owner (gp_own plan) w;
                  (managed_errors, w2) = managed_escalation db now actor owner (gp_managed plan) w1;
                  (group_errors, w3) = (case m of
                      None \<Rightarrow> ([], w2)
                    | Some m \<Rightarrow> if revalidate then group_escalation db now actor (retained_groups db (mb_id m)) w2 else ([], w2))
              in (map_sum (\<lambda>e. e) (\<lambda>_. \<lparr>vp_principal_tenant = owner, vp_membership = map_option mb_id m, vp_plan = plan, vp_actor = actor,
                     vp_revalidate = revalidate, vp_own_role_ids = own_ids, vp_managed_grant_ids = managed_ids\<rparr>)
                    (raise_if_any (add_rejections (elevated @ own_errors @ managed_errors @ group_errors) [])), w3)))"

section \<open>What a validated plan satisfies\<close>

lemma add_rejections_Nil: "add_rejections rs [] = [] \<longleftrightarrow> rs = []"
proof -
  have grow: "xs \<noteq> [] \<Longrightarrow> fold add_rejection ys xs \<noteq> []" for ys xs
    by (induction ys arbitrary: xs) (auto simp: add_rejection_def)
  show ?thesis using grow by (cases rs) (auto simp: add_rejections_def add_rejection_def)
qed

lemma raise_if_any_Inr: "raise_if_any rs = Inr u \<longleftrightarrow> rs = []"
  by (cases rs) (auto simp: raise_if_any_def split: list.splits)


text \<open>A row that passed the shape checks.\<close>

definition sound_row :: "tenancy \<Rightarrow> world \<Rightarrow> tenant \<Rightarrow> managed_grant_spec \<Rightarrow> bool" where
  "sound_row db w owner s \<longleftrightarrow> tn_is_provider owner \<and> tn_id (ro_tenant (ms_role s)) = tn_id owner \<and> tn_is_provider (ro_tenant (ms_role s)) \<and>
     managed_row_coverage db w owner s = []"

lemma managed_shape_Nil:
  "managed_shape db w owner specs seen = [] \<Longrightarrow>
     (\<forall>s \<in> set specs. sound_row db w owner s) \<and> distinct (map (\<lambda>s. ro_id (ms_role s)) specs) \<and>
     (\<forall>s \<in> set specs. ro_id (ms_role s) \<notin> set seen)"
proof (induction specs arbitrary: seen)
  case (Cons s specs)
  obtain r seen' where b: "managed_row_basics owner s seen = (r, seen')" by force
  then have r: "r = None" and rest: "managed_row_coverage db w owner s = []" "managed_shape db w owner specs seen' = []"
    using Cons.prems by (cases r; simp)+
  have "seen' = ro_id (ms_role s) # seen" "ro_id (ms_role s) \<notin> set seen" "sound_row db w owner s"
    using b r rest(1) by (simp_all add: managed_row_basics_def sound_row_def Let_def split: if_split_asm)
  then show ?case using Cons.IH[OF rest(2)] by auto
qed simp

lemma own_escalation_ok:
  "current db now u w \<Longrightarrow> owner \<in> set (td_tenants db) \<Longrightarrow> own_escalation db now (Some u) owner ss w = (rs, w') \<Longrightarrow>
     current db now u w' \<and> (rs = [] \<longrightarrow> (\<forall>s \<in> set ss. \<exists>w0. current db now u w0 \<and>
       fst (validate_role_grant db now (Some u) (os_role s) owner ScopeOwn None w0) = Inr ()))"
proof (induction ss arbitrary: w rs w')
  case (Cons s ss)
  obtain r w1 where one: "validate_role_grant db now (Some u) (os_role s) owner ScopeOwn None w = (r, w1)" by force
  obtain rs1 w2 where rest: "own_escalation db now (Some u) owner ss w1 = (rs1, w2)" by force
  have w1: "current db now u w1" by (rule validate_role_grant_current[OF Cons.prems(1,2) one])
  have run: "w' = w2" "rs = (case r of Inl e \<Rightarrow> guard_rejection None e # rs1 | Inr _ \<Rightarrow> rs1)"
    using Cons.prems(3) by (auto simp: one rest)
  then show ?case using Cons.IH[OF w1 Cons.prems(2) rest] Cons.prems(1) one by (cases r) force+
qed simp

lemma managed_escalation_ok:
  "current db now u w \<Longrightarrow> owner \<in> set (td_tenants db) \<Longrightarrow> managed_escalation db now (Some u) owner ss w = (rs, w') \<Longrightarrow>
     current db now u w' \<and> (rs = [] \<longrightarrow> (\<forall>s \<in> set ss. \<exists>w0. current db now u w0 \<and>
       fst (validate_role_grant db now (Some u) (ms_role s) owner (guard_scope (ms_scope s)) (requested_tenant_ids_for db w0 owner s) w0) = Inr ()))"
proof (induction ss arbitrary: w rs w')
  case (Cons s ss)
  obtain r w1 where one: "validate_role_grant db now (Some u) (ms_role s) owner (guard_scope (ms_scope s)) (requested_tenant_ids_for db w owner s) w = (r, w1)"
    by force
  obtain rs1 w2 where rest: "managed_escalation db now (Some u) owner ss w1 = (rs1, w2)" by force
  have w1: "current db now u w1" by (rule validate_role_grant_current[OF Cons.prems(1,2) one])
  have run: "w' = w2" "rs = (case r of Inl e \<Rightarrow> guard_rejection (ms_row_index s) e # rs1 | Inr _ \<Rightarrow> rs1)"
    using Cons.prems(3) by (auto simp: one rest)
  then show ?case using Cons.IH[OF w1 Cons.prems(2) rest] Cons.prems(1) one by (cases r) force+
qed simp


lemma raised_nothing [simp]: "raise_if_any (add_rejections rs []) = Inr u \<longleftrightarrow> rs = []"
  by (simp add: raise_if_any_Inr add_rejections_Nil)

definition live_rows :: "tenancy \<Rightarrow> instant \<Rightarrow> membership option \<Rightarrow> pk list \<times> pk list" where
  "live_rows db now m =
     (case m of None \<Rightarrow> ([], [])
      | Some m \<Rightarrow> (map (\<lambda>g. ro_id (rg_role g)) (live_own_grants db now (mb_id m)), map rg_id (live_managed_grants db now (mb_id m))))"

lemma validated_planE:
  assumes "fst (validate_grant_plan db now actor owner plan m rv w) = Inr v"
  obtains w1 w2 where
    "v = \<lparr>vp_principal_tenant = owner, vp_membership = map_option mb_id m, vp_plan = plan, vp_actor = actor, vp_revalidate = rv,
       vp_own_role_ids = fst (live_rows db now m), vp_managed_grant_ids = snd (live_rows db now m)\<rparr>"
    "shape_and_reach db w owner plan = []" "elevated_metadata now plan (fst (live_rows db now m)) = []"
    "own_escalation db now actor owner (gp_own plan) w = ([], w1)"
    "managed_escalation db now actor owner (gp_managed plan) w1 = ([], w2)"
    "rv \<Longrightarrow> m \<noteq> None \<Longrightarrow> fst (group_escalation db now actor (retained_groups db (mb_id (the m))) w2) = []"
proof -
  obtain oe w1 where own: "own_escalation db now actor owner (gp_own plan) w = (oe, w1)" by force
  obtain me w2 where managed: "managed_escalation db now actor owner (gp_managed plan) w1 = (me, w2)" by force
  obtain ge w3 where group: "(case m of None \<Rightarrow> ([], w2)
      | Some m \<Rightarrow> if rv then group_escalation db now actor (retained_groups db (mb_id m)) w2 else ([], w2)) = (ge, w3)" by force
  have rows: "(case m of None \<Rightarrow> [] | Some m \<Rightarrow> map (\<lambda>g. ro_id (rg_role g)) (live_own_grants db now (mb_id m))) = fst (live_rows db now m)"
    "(case m of None \<Rightarrow> [] | Some m \<Rightarrow> map rg_id (live_managed_grants db now (mb_id m))) = snd (live_rows db now m)"
    by (simp_all add: live_rows_def split: option.split)
  note run = assms[unfolded validate_grant_plan_def Let_def rows]
  show thesis
  proof (cases "raise_if_any (add_rejections (shape_and_reach db w owner plan) [])")
    case (Inl e)
    then show thesis using run by simp
  next
    case (Inr x)
    then have shape: "shape_and_reach db w owner plan = []" by simp
    have "map_sum (\<lambda>e. e) (\<lambda>_. \<lparr>vp_principal_tenant = owner, vp_membership = map_option mb_id m, vp_plan = plan, vp_actor = actor, vp_revalidate = rv,
       vp_own_role_ids = fst (live_rows db now m), vp_managed_grant_ids = snd (live_rows db now m)\<rparr>)
        (raise_if_any (add_rejections (elevated_metadata now plan (fst (live_rows db now m)) @ oe @ me @ ge) [])) = Inr v"
      using run by (simp only: Inr own managed group sum.case prod.case fst_conv)
    then have none: "elevated_metadata now plan (fst (live_rows db now m)) @ oe @ me @ ge = []" and v: "v = \<lparr>vp_principal_tenant = owner, vp_membership = map_option mb_id m,
       vp_plan = plan, vp_actor = actor, vp_revalidate = rv, vp_own_role_ids = fst (live_rows db now m), vp_managed_grant_ids = snd (live_rows db now m)\<rparr>"
      unfolding map_sum_eq_Inr raised_nothing by auto
    have "fst (group_escalation db now actor (retained_groups db (mb_id (the m))) w2) = []" if "rv" "m \<noteq> None"
      using group none that by auto
    with none own managed show thesis by (intro that[OF v shape]) simp_all
  qed
qed

lemma shape_and_reach_Nil:
  assumes "shape_and_reach db w owner plan = []"
  shows "\<forall>s \<in> set (gp_own plan). role_assignable_in (os_role s) owner" "\<forall>s \<in> set (gp_managed plan). sound_row db w owner s"
    "distinct (map (\<lambda>s. ro_id (ms_role s)) (gp_managed plan))"
  using assms managed_shape_Nil[of db w owner "gp_managed plan" "[]"]
  by (auto simp: shape_and_reach_def own_shape_def split: if_splits)

end
