(* ===== verification/GrantSync.thy ===== *)
theory GrantSync
  imports GrantPlans Stock
begin

text \<open>
  The write half of \<^verbatim>\<open>organization/services/rolegrants.py\<close>: reconciling the grants of a membership with a
  validated plan.  Grants and their scopes are created with the next free key; a save runs the model's
  \<open>clean\<close>; the write phase happens at one instant.  Deleting the scopes of a grant and then the grant when it
  has none left is one operation.
\<close>

section \<open>Results\<close>

datatype grant_action = GrantCreated | GrantUpdated | GrantRevoked | GrantUnchanged

record grant_change =
  gc_action :: grant_action
  gc_reach :: reach
  gc_role :: pk
  gc_grant :: pk
  gc_scope_types :: "scope_type list"

definition grant_change :: "grant_action \<Rightarrow> reach \<Rightarrow> pk \<Rightarrow> pk \<Rightarrow> scope_type list \<Rightarrow> grant_change" where
  "grant_change a rc r g ss = \<lparr>gc_action = a, gc_reach = rc, gc_role = r, gc_grant = g, gc_scope_types = ss\<rparr>"

definition wrote_anything :: "grant_change list \<Rightarrow> bool" where
  "wrote_anything cs \<longleftrightarrow> (\<exists>c \<in> set cs. gc_action c \<noteq> GrantUnchanged)"

datatype sync_error =
  NotInTransaction | PlanOfAnotherMembership | PlanOfAnotherTenant | MembershipGone | ConcurrentGrantChange
  | GrantRefused grant_error | ScopeRefused scope_error | ScopeTwice | GrantGone

text \<open>The order of the wire values.\<close>

definition scope_rank :: "scope_type \<Rightarrow> nat" where
  "scope_rank t = (case t of ScopeAllManaged \<Rightarrow> 0 | ScopeOwn \<Rightarrow> 1 | ScopeTenant \<Rightarrow> 2 | ScopeTenantGroup \<Rightarrow> 3 | ScopeOther _ \<Rightarrow> 4)"

section \<open>Rows\<close>

type_synonym scope_key = "scope_type \<times> pk option \<times> pk option"

definition scope_key :: "grant_scope \<Rightarrow> scope_key" where
  "scope_key s = (sc_type s, sc_tenant s, sc_group s)"

definition desired_scope_keys :: "managed_grant_spec \<Rightarrow> scope_key list" where
  "desired_scope_keys spec =
     (case ms_scope spec of
        CoverAllManaged \<Rightarrow> [(ScopeAllManaged, None, None)]
      | CoverTenantGroup \<Rightarrow> [(ScopeTenantGroup, None, ms_scope_group spec)]
      | CoverExplicit \<Rightarrow> remdups (map (\<lambda>t. (ScopeTenant, Some (tn_id t), None)) (ms_tenants spec)))"

definition without_scopes :: "(grant_scope \<Rightarrow> bool) \<Rightarrow> role_grant \<Rightarrow> role_grant option" where
  "without_scopes P g =
     (let rest = filter (\<lambda>s. \<not> P s) (rg_scopes g) in if rest = [] then None else Some (g\<lparr>rg_scopes := rest\<rparr>))"

definition revoke_scopes :: "(grant_scope \<Rightarrow> bool) \<Rightarrow> pk \<Rightarrow> tenancy \<Rightarrow> tenancy" where
  "revoke_scopes P i db =
     db\<lparr>td_grants := List.map_filter (\<lambda>g. if rg_id g = i then without_scopes P g else Some g) (td_grants db)\<rparr>"

definition change_grant :: "(role_grant \<Rightarrow> role_grant) \<Rightarrow> pk \<Rightarrow> tenancy \<Rightarrow> tenancy" where
  "change_grant f i db = db\<lparr>td_grants := map (\<lambda>g. if rg_id g = i then f g else g) (td_grants db)\<rparr>"

definition create_grant ::
    "instant \<Rightarrow> membership \<Rightarrow> role \<Rightarrow> string \<Rightarrow> instant option \<Rightarrow> tenancy \<Rightarrow> sync_error + role_grant \<times> tenancy" where
  "create_grant now m r reason valid_until db =
     (let g = \<lparr>rg_id = next_id (map rg_id (td_grants db)), rg_membership = Some m, rg_user_group = None, rg_role = r,
               rg_scopes = [], rg_reason = reason, rg_valid_until = valid_until\<rparr>
      in bindE (map_sum GrantRefused (\<lambda>u. u) (role_grant_clean now g))
           (\<lambda>_. Inr (g, db\<lparr>td_grants := td_grants db @ [g]\<rparr>)))"

text \<open>A new scope; the four uniqueness constraints say that a grant has no two scopes with the same key.\<close>

definition create_scope :: "pk \<Rightarrow> scope_key \<Rightarrow> tenancy \<Rightarrow> sync_error + tenancy" where
  "create_scope i k db =
     (case find_row rg_id i (td_grants db) of
        None \<Rightarrow> Inl GrantGone
      | Some g \<Rightarrow>
          (let s = \<lparr>sc_id = next_id (concat (map (\<lambda>g. map sc_id (rg_scopes g)) (td_grants db))),
                    sc_type = fst k, sc_tenant = fst (snd k), sc_group = snd (snd k)\<rparr>
           in bindE (map_sum ScopeRefused (\<lambda>u. u) (role_grant_scope_clean (td_tenants db) False (Some g) s))
                (\<lambda>_. if k \<in> scope_key ` set (rg_scopes g) then Inl ScopeTwice
                     else Inr (change_grant (\<lambda>g. g\<lparr>rg_scopes := rg_scopes g @ [s]\<rparr>) i db))))"

section \<open>Own reach\<close>

fun revoke_own :: "pk list \<Rightarrow> role_grant list \<Rightarrow> tenancy \<times> grant_change list \<Rightarrow> tenancy \<times> grant_change list" where
  "revoke_own selected [] (db, cs) = (db, cs)"
| "revoke_own selected (g # gs) (db, cs) =
     (if ro_id (rg_role g) \<in> set selected then revoke_own selected gs (db, cs)
      else revoke_own selected gs (revoke_scopes (\<lambda>s. sc_type s = ScopeOwn) (rg_id g) db,
             cs @ [grant_change GrantRevoked ReachOwn (ro_id (rg_role g)) (rg_id g) [ScopeOwn]]))"

definition create_own ::
    "instant \<Rightarrow> membership \<Rightarrow> role_grant list \<Rightarrow> own_grant_spec \<Rightarrow> tenancy \<times> grant_change list \<Rightarrow> sync_error + tenancy \<times> grant_change list" where
  "create_own now m existing spec = (\<lambda>(db, cs).
     (case List.find (\<lambda>g. ro_id (rg_role g) = ro_id (os_role spec)) existing of
        Some g \<Rightarrow> Inr (db, cs @ [grant_change GrantUnchanged ReachOwn (ro_id (os_role spec)) (rg_id g) [ScopeOwn]])
      | None \<Rightarrow>
          (let privileged = role_is_privileged (os_role spec) in
           bindE (create_grant now m (os_role spec) (if privileged then os_reason spec else [])
                    (if privileged then os_valid_until spec else None) db)
             (\<lambda>(g, db1). bindE (create_scope (rg_id g) (ScopeOwn, None, None) db1)
                (\<lambda>db2. Inr (db2, cs @ [grant_change GrantCreated ReachOwn (ro_id (os_role spec)) (rg_id g) [ScopeOwn]]))))))"

definition sync_own_reach ::
    "instant \<Rightarrow> membership \<Rightarrow> validated_plan \<Rightarrow> tenancy \<times> grant_change list \<Rightarrow> sync_error + tenancy \<times> grant_change list" where
  "sync_own_reach now m v = (\<lambda>(db, cs).
     (let existing = live_own_grants db now (mb_id m); selected = map (\<lambda>s. ro_id (os_role s)) (gp_own (vp_plan v))
      in each (create_own now m existing) (gp_own (vp_plan v)) (revoke_own selected existing (db, cs))))"

section \<open>Managed reach\<close>

definition claimed_grant :: "role_grant list \<Rightarrow> managed_grant_spec \<Rightarrow> role_grant option" where
  "claimed_grant existing spec =
     (case Option.bind (ms_grant_id spec) (\<lambda>i. find_row rg_id i existing) of
        None \<Rightarrow> None
      | Some g \<Rightarrow> if ro_id (rg_role g) \<noteq> ro_id (ms_role spec) then None else Some g)"

definition intended_managed_rows :: "validated_plan \<Rightarrow> role_grant list \<Rightarrow> (role_grant option \<times> managed_grant_spec) list" where
  "intended_managed_rows v existing = map (\<lambda>spec. (claimed_grant existing spec, spec)) (gp_managed (vp_plan v))"

fun revoke_obsolete :: "pk list \<Rightarrow> role_grant list \<Rightarrow> tenancy \<times> grant_change list \<Rightarrow> tenancy \<times> grant_change list" where
  "revoke_obsolete retained [] (db, cs) = (db, cs)"
| "revoke_obsolete retained (g # gs) (db, cs) =
     (if rg_id g \<in> set retained then revoke_obsolete retained gs (db, cs)
      else revoke_obsolete retained gs (revoke_scopes (\<lambda>s. sc_type s \<noteq> ScopeOwn) (rg_id g) db,
             cs @ [grant_change GrantRevoked ReachManaged (ro_id (rg_role g)) (rg_id g)
               (sort_key scope_rank (map sc_type (filter (\<lambda>s. sc_type s \<noteq> ScopeOwn) (rg_scopes g))))]))"

definition upsert_managed_grant ::
    "instant \<Rightarrow> membership \<Rightarrow> role_grant option \<Rightarrow> managed_grant_spec \<Rightarrow> tenancy \<Rightarrow> sync_error + role_grant \<times> grant_action \<times> tenancy" where
  "upsert_managed_grant now m claimed spec db =
     (case claimed of
        None \<Rightarrow> bindE (create_grant now m (ms_role spec) (ms_reason spec) (ms_valid_until spec) db) (\<lambda>(g, db1). Inr (g, GrantCreated, db1))
      | Some g \<Rightarrow>
          if rg_reason g \<noteq> ms_reason spec \<or> rg_valid_until g \<noteq> ms_valid_until spec
          then (let upd = (\<lambda>g. g\<lparr>rg_reason := ms_reason spec, rg_valid_until := ms_valid_until spec\<rparr>)
                in bindE (map_sum GrantRefused (\<lambda>u. u) (role_grant_clean now (upd g)))
                     (\<lambda>_. Inr (upd g, GrantUpdated, change_grant upd (rg_id g) db)))
          else Inr (g, GrantUnchanged, db))"

definition touch :: "bool \<Rightarrow> grant_action \<Rightarrow> grant_action" where
  "touch b a = (if b \<and> a = GrantUnchanged then GrantUpdated else a)"

definition sync_managed_row ::
    "instant \<Rightarrow> membership \<Rightarrow> role_grant option \<times> managed_grant_spec \<Rightarrow> tenancy \<times> grant_change list \<Rightarrow> sync_error + tenancy \<times> grant_change list" where
  "sync_managed_row now m = (\<lambda>(claimed, spec) (db, cs).
     bindE (upsert_managed_grant now m claimed spec db) (\<lambda>(g, touched, db1).
       (let desired = desired_scope_keys spec;
            current = map scope_key (filter (\<lambda>s. sc_type s \<noteq> ScopeOwn) (rg_scopes g));
            missing = filter (\<lambda>k. k \<notin> set current) desired;
            obsolete = filter (\<lambda>k. k \<notin> set desired) current;
            db2 = change_grant (\<lambda>g. g\<lparr>rg_scopes := filter (\<lambda>s. sc_type s = ScopeOwn \<or> scope_key s \<in> set desired) (rg_scopes g)\<rparr>)
                    (rg_id g) db1
        in bindE (each (create_scope (rg_id g)) missing db2) (\<lambda>db3.
             Inr (db3, cs @ [grant_change (touch (obsolete \<noteq> [] \<or> missing \<noteq> []) touched) ReachManaged (ro_id (ms_role spec)) (rg_id g)
                       (sort_key scope_rank (map fst desired))])))))"

definition sync_managed_reach ::
    "instant \<Rightarrow> membership \<Rightarrow> validated_plan \<Rightarrow> tenancy \<times> grant_change list \<Rightarrow> sync_error + tenancy \<times> grant_change list" where
  "sync_managed_reach now m v = (\<lambda>(db, cs).
     (let existing = live_managed_grants db now (mb_id m);
          kept = intended_managed_rows v existing;
          retained = map rg_id (List.map_filter fst kept)
      in each (sync_managed_row now m) kept (revoke_obsolete retained existing (db, cs))))"

section \<open>The write phase\<close>

definition sync_membership_grants ::
    "instant \<Rightarrow> bool \<Rightarrow> membership \<Rightarrow> validated_plan \<Rightarrow> tenancy \<Rightarrow> sync_error + tenancy \<times> grant_change list" where
  "sync_membership_grants now in_atomic_block m v db =
     (if \<not> in_atomic_block then Inl NotInTransaction
      else if vp_membership v \<noteq> Some (mb_id m) then Inl PlanOfAnotherMembership
      else if tn_id (vp_principal_tenant v) \<noteq> tn_id (mb_tenant m) then Inl PlanOfAnotherTenant
      else case find_row mb_id (mb_id m) (td_memberships db) of
        None \<Rightarrow> Inl MembershipGone
      | Some locked \<Rightarrow>
          if set (map (\<lambda>g. ro_id (rg_role g)) (live_own_grants db now (mb_id locked))) \<noteq> set (vp_own_role_ids v) \<or>
             set (map rg_id (live_managed_grants db now (mb_id locked))) \<noteq> set (vp_managed_grant_ids v)
          then Inl ConcurrentGrantChange
          else bindE (sync_own_reach now locked v (db, [])) (sync_managed_reach now locked v))"


section \<open>Row by row\<close>

lemma change_grant_simps [simp]:
  "td_grants (change_grant f i db) = map (\<lambda>g. if rg_id g = i then f g else g) (td_grants db)"
  "td_tenants (change_grant f i db) = td_tenants db" "td_groups (change_grant f i db) = td_groups db"
  "td_memberships (change_grant f i db) = td_memberships db"
  by (simp_all add: change_grant_def)

text \<open>Only the grants of a database change.\<close>

definition same_rest :: "tenancy \<Rightarrow> tenancy \<Rightarrow> bool" where
  "same_rest db db' \<longleftrightarrow> td_tenants db' = td_tenants db \<and> td_groups db' = td_groups db \<and> td_memberships db' = td_memberships db"

lemma same_rest_refl [simp]: "same_rest db db" by (simp add: same_rest_def)

lemma same_rest_trans: "same_rest a b \<Longrightarrow> same_rest b c \<Longrightarrow> same_rest a c"
  by (simp add: same_rest_def)

lemma same_rest_change [simp]: "same_rest db (change_grant f i db)" "same_rest db (db\<lparr>td_grants := gs\<rparr>)"
  by (simp_all add: same_rest_def change_grant_def)

lemma same_rest_simps:
  assumes "same_rest db db'"
  shows "td_tenants db' = td_tenants db" "td_groups db' = td_groups db" "td_memberships db' = td_memberships db"
  using assms by (simp_all add: same_rest_def)

lemma next_id_new: "next_id ids \<notin> set ids"
  using next_id_fresh by force

lemma create_grantE:
  assumes "create_grant now m r reason valid_until db = Inr (g, db')"
  shows "g = \<lparr>rg_id = next_id (map rg_id (td_grants db)), rg_membership = Some m, rg_user_group = None, rg_role = r,
      rg_scopes = [], rg_reason = reason, rg_valid_until = valid_until\<rparr>" "db' = db\<lparr>td_grants := td_grants db @ [g]\<rparr>"
    "rg_id g \<notin> rg_id ` set (td_grants db)"
  using assms next_id_new[of "map rg_id (td_grants db)"] by (auto simp: create_grant_def Let_def bindE_eq_Inr)

lemma create_scopeE:
  assumes "create_scope i k db = Inr db'"
  shows "\<exists>s. scope_key s = k \<and> db' = change_grant (\<lambda>g. g\<lparr>rg_scopes := rg_scopes g @ [s]\<rparr>) i db"
proof (cases "find_row rg_id i (td_grants db)")
  case (Some g)
  let ?s = "\<lparr>sc_id = next_id (concat (map (\<lambda>g. map sc_id (rg_scopes g)) (td_grants db))), sc_type = fst k, sc_tenant = fst (snd k), sc_group = snd (snd k)\<rparr>"
  have "db' = change_grant (\<lambda>g. g\<lparr>rg_scopes := rg_scopes g @ [?s]\<rparr>) i db"
    using assms Some by (auto simp: create_scope_def bindE_eq_Inr Let_def split: if_split_asm)
  then show ?thesis by (intro exI[of _ ?s]) (simp add: scope_key_def)
qed (use assms in \<open>simp add: create_scope_def\<close>)

lemma create_scopesE:
  "each (create_scope i) ks db = Inr db' \<Longrightarrow>
     \<exists>ss. map scope_key ss = ks \<and> db' = change_grant (\<lambda>g. g\<lparr>rg_scopes := rg_scopes g @ ss\<rparr>) i db"
proof (induction ks arbitrary: db)
  case Nil
  then show ?case by (simp add: change_grant_def map_idI)
next
  case (Cons k ks)
  then obtain db1 where one: "create_scope i k db = Inr db1" and rest: "each (create_scope i) ks db1 = Inr db'" by (auto simp: bindE_eq_Inr)
  obtain s where s: "scope_key s = k" "db1 = change_grant (\<lambda>g. g\<lparr>rg_scopes := rg_scopes g @ [s]\<rparr>) i db"
    using create_scopeE[OF one] by blast
  obtain ss where ss: "map scope_key ss = ks" "db' = change_grant (\<lambda>g. g\<lparr>rg_scopes := rg_scopes g @ ss\<rparr>) i db1"
    using Cons.IH[OF rest] by blast
  show ?case using s ss by (intro exI[of _ "s # ss"]) (simp add: change_grant_def)
qed

lemma change_absent:
  assumes "i \<notin> rg_id ` set gs"
  shows "map (\<lambda>g. if rg_id g = i then f g else g) gs = gs"
proof (rule map_idI)
  fix g assume "g \<in> set gs"
  then have "rg_id g \<noteq> i" using assms by (metis imageI)
  then show "(if rg_id g = i then f g else g) = g" by simp
qed

subsection \<open>Revocation\<close>

definition revoke_all :: "(grant_scope \<Rightarrow> bool) \<Rightarrow> pk set \<Rightarrow> tenancy \<Rightarrow> tenancy" where
  "revoke_all P I db = db\<lparr>td_grants := List.map_filter (\<lambda>g. if rg_id g \<in> I then without_scopes P g else Some g) (td_grants db)\<rparr>"

lemma without_scopes_Some:
  "without_scopes P g = Some g' \<longleftrightarrow> filter (\<lambda>s. \<not> P s) (rg_scopes g) \<noteq> [] \<and> g' = g\<lparr>rg_scopes := filter (\<lambda>s. \<not> P s) (rg_scopes g)\<rparr>"
  by (auto simp: without_scopes_def Let_def)

lemma without_scopes_again: "without_scopes P g = Some g' \<Longrightarrow> without_scopes P g' = Some g'"
  by (auto simp: without_scopes_Some)

lemma map_filter_twice:
  "(\<And>x. x \<in> set xs \<Longrightarrow> Option.bind (f x) g = h x) \<Longrightarrow> List.map_filter g (List.map_filter f xs) = List.map_filter h xs"
proof (induction xs)
  case (Cons x xs)
  have "Option.bind (f x) g = h x" "List.map_filter g (List.map_filter f xs) = List.map_filter h xs"
    using Cons.prems[of x] Cons.IH Cons.prems by simp_all
  then show ?case by (cases "f x"; cases "h x") (simp_all add: map_filter_simps)
qed (simp add: map_filter_simps)

lemma revoke_all_step: "revoke_all P I (revoke_scopes P i db) = revoke_all P (insert i I) db"
proof -
  have "Option.bind (if rg_id g = i then without_scopes P g else Some g) (\<lambda>g. if rg_id g \<in> I then without_scopes P g else Some g)
      = (if rg_id g \<in> insert i I then without_scopes P g else Some g)" for g
  proof (cases "rg_id g = i")
    case True
    show ?thesis
    proof (cases "without_scopes P g")
      case (Some g')
      then have "rg_id g' = rg_id g" by (auto simp: without_scopes_Some)
      then show ?thesis using without_scopes_again[OF Some] Some True by simp
    qed (simp add: True)
  qed simp
  then show ?thesis by (simp add: revoke_all_def revoke_scopes_def map_filter_twice)
qed

lemma revoke_own_eq:
  "fst (revoke_own selected gs (db, cs)) =
     revoke_all (\<lambda>s. sc_type s = ScopeOwn) (rg_id ` {g \<in> set gs. ro_id (rg_role g) \<notin> set selected}) db"
proof (induction gs arbitrary: db cs)
  case Nil
  then show ?case by (simp add: revoke_all_def map_filter_def)
next
  case (Cons g gs)
  have "insert (rg_id g) (rg_id ` {h \<in> set gs. ro_id (rg_role h) \<notin> set selected}) = rg_id ` {h \<in> set (g # gs). ro_id (rg_role h) \<notin> set selected}"
    if "ro_id (rg_role g) \<notin> set selected" using that by auto
  moreover have "{h \<in> set (g # gs). ro_id (rg_role h) \<notin> set selected} = {h \<in> set gs. ro_id (rg_role h) \<notin> set selected}"
    if "ro_id (rg_role g) \<in> set selected" using that by auto
  ultimately show ?case by (simp add: Cons.IH revoke_all_step)
qed

lemma revoke_obsolete_eq:
  "fst (revoke_obsolete retained gs (db, cs)) = revoke_all (\<lambda>s. sc_type s \<noteq> ScopeOwn) (rg_id ` set gs - set retained) db"
proof (induction gs arbitrary: db cs)
  case Nil
  then show ?case by (simp add: revoke_all_def map_filter_def)
next
  case (Cons g gs)
  have "insert (rg_id g) (rg_id ` set gs - set retained) = rg_id ` set (g # gs) - set retained" if "rg_id g \<notin> set retained" using that by auto
  moreover have "rg_id ` set (g # gs) - set retained = rg_id ` set gs - set retained" if "rg_id g \<in> set retained" using that by auto
  ultimately show ?case by (simp add: Cons.IH revoke_all_step)
qed

lemma in_map_filter: "y \<in> set (List.map_filter f xs) \<longleftrightarrow> (\<exists>x \<in> set xs. f x = Some y)"
  by (induction xs) (auto simp: map_filter_simps split: option.splits)

lemma revoke_all_rows:
  "g' \<in> set (td_grants (revoke_all P I db)) \<longleftrightarrow>
     (\<exists>g \<in> set (td_grants db). if rg_id g \<in> I then without_scopes P g = Some g' else g' = g)"
proof -
  have "(if rg_id g \<in> I then without_scopes P g else Some g) = Some g' \<longleftrightarrow> (if rg_id g \<in> I then without_scopes P g = Some g' else g' = g)" for g
    by auto
  then show ?thesis by (simp add: revoke_all_def in_map_filter)
qed

lemma revoke_all_keyed: "keyed rg_id (td_grants db) \<Longrightarrow> keyed rg_id (td_grants (revoke_all P I db))"
proof -
  have "distinct (map rg_id gs) \<Longrightarrow>
      distinct (map rg_id (List.map_filter (\<lambda>g. if rg_id g \<in> I then without_scopes P g else Some g) gs)) \<and>
      rg_id ` set (List.map_filter (\<lambda>g. if rg_id g \<in> I then without_scopes P g else Some g) gs) \<subseteq> rg_id ` set gs" for gs
    by (induction gs) (auto simp: map_filter_simps without_scopes_def Let_def split: option.splits)
  then show "keyed rg_id (td_grants db) \<Longrightarrow> keyed rg_id (td_grants (revoke_all P I db))" by (simp add: keyed_def revoke_all_def)
qed

lemma revoke_all_rest [simp]: "same_rest db (revoke_all P I db)"
  by (simp add: revoke_all_def)


subsection \<open>New own grants\<close>

definition own_row :: "membership \<Rightarrow> own_grant_spec \<Rightarrow> role_grant \<Rightarrow> bool" where
  "own_row m spec g \<longleftrightarrow> rg_membership g = Some m \<and> rg_user_group g = None \<and> rg_role g = os_role spec \<and>
     map scope_key (rg_scopes g) = [(ScopeOwn, None, None)] \<and>
     rg_valid_until g = (if role_is_privileged (os_role spec) then os_valid_until spec else None)"

definition surviving :: "role_grant list \<Rightarrow> own_grant_spec \<Rightarrow> bool" where
  "surviving existing spec \<longleftrightarrow> (\<exists>g \<in> set existing. ro_id (rg_role g) = ro_id (os_role spec))"

lemma create_ownE:
  assumes "create_own now m existing spec (db, cs) = Inr (db', cs')"
  shows "if surviving existing spec then db' = db
    else \<exists>g. td_grants db' = td_grants db @ [g] \<and> same_rest db db' \<and> rg_id g \<notin> rg_id ` set (td_grants db) \<and> own_row m spec g"
proof (cases "List.find (\<lambda>g. ro_id (rg_role g) = ro_id (os_role spec)) existing")
  case (Some g)
  then have "surviving existing spec" by (auto simp: surviving_def find_Some_iff)
  then show ?thesis using assms Some by (simp add: create_own_def)
next
  case None
  then have new: "\<not> surviving existing spec" by (auto simp: surviving_def find_None_iff)
  obtain g db1 where one: "create_grant now m (os_role spec) (if role_is_privileged (os_role spec) then os_reason spec else [])
      (if role_is_privileged (os_role spec) then os_valid_until spec else None) db = Inr (g, db1)"
    and two: "create_scope (rg_id g) (ScopeOwn, None, None) db1 = Inr db'"
    using assms None by (auto simp: create_own_def bindE_eq_Inr Let_def)
  note g = create_grantE[OF one]
  obtain s where s: "scope_key s = (ScopeOwn, None, None)" "db' = change_grant (\<lambda>g. g\<lparr>rg_scopes := rg_scopes g @ [s]\<rparr>) (rg_id g) db1"
    using create_scopeE[OF two] by blast
  have "map (\<lambda>h. if rg_id h = rg_id g then h\<lparr>rg_scopes := rg_scopes h @ [s]\<rparr> else h) (td_grants db) = td_grants db"
    by (rule change_absent[OF g(3)])
  then have "td_grants db' = td_grants db @ [g\<lparr>rg_scopes := [s]\<rparr>]" using g(1) by (simp add: s(2) g(2))
  moreover have "same_rest db db'" by (simp add: s(2) g(2) same_rest_def)
  moreover have "own_row m spec (g\<lparr>rg_scopes := [s]\<rparr>)" using s(1) by (simp add: own_row_def g(1))
  ultimately show ?thesis unfolding if_not_P[OF new] using g(3) by (intro exI[of _ "g\<lparr>rg_scopes := [s]\<rparr>"]) simp_all
qed

lemma create_ownsE:
  "each (create_own now m existing) specs s = Inr s' \<Longrightarrow> keyed rg_id (td_grants (fst s)) \<Longrightarrow>
     same_rest (fst s) (fst s') \<and> keyed rg_id (td_grants (fst s')) \<and>
     (\<exists>new. td_grants (fst s') = td_grants (fst s) @ new \<and>
        (\<forall>g \<in> set new. \<exists>spec \<in> set specs. own_row m spec g \<and> \<not> surviving existing spec) \<and>
        (\<forall>spec \<in> set specs. \<not> surviving existing spec \<longrightarrow> (\<exists>g \<in> set new. own_row m spec g)))"
proof (induction specs arbitrary: s)
  case (Cons spec specs)
  then obtain s1 where one: "create_own now m existing spec s = Inr s1" and rest: "each (create_own now m existing) specs s1 = Inr s'"
    by (auto simp: bindE_eq_Inr)
  obtain db cs db1 cs1 where s: "s = (db, cs)" "s1 = (db1, cs1)" by (metis surj_pair)
  note step = create_ownE[OF one[unfolded s]]
  show ?case
  proof (cases "surviving existing spec")
    case True
    then have "fst s1 = fst s" using step s by simp
    then show ?thesis using Cons.IH[OF rest] Cons.prems(2) True by auto
  next
    case False
    then obtain g where g: "td_grants db1 = td_grants db @ [g]" "same_rest db db1" "rg_id g \<notin> rg_id ` set (td_grants db)" "own_row m spec g"
      using step by auto
    then have "keyed rg_id (td_grants (fst s1))" using Cons.prems(2) s by (simp add: keyed_def)
    note later = Cons.IH[OF rest this]
    then obtain new where new: "td_grants (fst s') = td_grants (fst s1) @ new"
        "\<forall>g \<in> set new. \<exists>spec \<in> set specs. own_row m spec g \<and> \<not> surviving existing spec"
        "\<forall>spec \<in> set specs. \<not> surviving existing spec \<longrightarrow> (\<exists>g \<in> set new. own_row m spec g)" by blast
    have "same_rest (fst s) (fst s')" using later g(2) s by (auto intro: same_rest_trans)
    then show ?thesis using later new g False s by (intro conjI exI[of _ "g # new"]) auto
  qed
qed simp


subsection \<open>Managed rows\<close>

definition put_grant :: "role_grant \<Rightarrow> role_grant list \<Rightarrow> role_grant list" where
  "put_grant g gs = map (\<lambda>h. if rg_id h = rg_id g then g else h) gs"

lemma change_grant_put:
  assumes "keyed rg_id (td_grants db)" and "g \<in> set (td_grants db)" and "rg_id (f g) = rg_id g"
  shows "td_grants (change_grant f (rg_id g) db) = put_grant (f g) (td_grants db)"
  unfolding change_grant_simps put_grant_def assms(3) by (rule map_cong[OF refl]) (use assms(1,2) keyed_inj in \<open>metis (full_types)\<close>)

lemma put_grant_twice: "rg_id g = rg_id h \<Longrightarrow> put_grant h (put_grant g gs) = put_grant h gs"
  by (simp add: put_grant_def)

lemma put_grant_append: "rg_id g \<notin> rg_id ` set gs \<Longrightarrow> put_grant g (gs @ [h]) = gs @ (if rg_id h = rg_id g then [g] else [h])"
  by (simp add: put_grant_def change_absent)

lemma put_grant_self: "keyed rg_id gs \<Longrightarrow> g \<in> set gs \<Longrightarrow> put_grant g gs = gs"
  unfolding put_grant_def by (rule map_idI) (use keyed_inj in \<open>metis (full_types)\<close>)

lemma put_grant_keyed [simp]: "keyed rg_id (put_grant g gs) = keyed rg_id gs"
  by (simp add: keyed_def put_grant_def comp_def if_distrib[of rg_id] cong: if_cong)

text \<open>What a row of the plan makes of the grant it claims, or of a new grant.\<close>

definition realizes :: "membership \<Rightarrow> role_grant option \<Rightarrow> managed_grant_spec \<Rightarrow> role_grant \<Rightarrow> bool" where
  "realizes m claimed spec g \<longleftrightarrow>
     (case claimed of
        None \<Rightarrow> rg_membership g = Some m \<and> rg_user_group g = None \<and> rg_role g = ms_role spec \<and> filter (\<lambda>s. sc_type s = ScopeOwn) (rg_scopes g) = []
      | Some c \<Rightarrow> rg_id g = rg_id c \<and> rg_membership g = rg_membership c \<and> rg_user_group g = rg_user_group c \<and> rg_role g = rg_role c \<and>
          filter (\<lambda>s. sc_type s = ScopeOwn) (rg_scopes g) = filter (\<lambda>s. sc_type s = ScopeOwn) (rg_scopes c)) \<and>
     rg_valid_until g = ms_valid_until spec \<and>
     scope_key ` {s \<in> set (rg_scopes g). sc_type s \<noteq> ScopeOwn} = set (desired_scope_keys spec)"

definition placed :: "role_grant option \<Rightarrow> role_grant \<Rightarrow> role_grant list \<Rightarrow> role_grant list \<Rightarrow> bool" where
  "placed claimed g gs gs' \<longleftrightarrow>
     (case claimed of None \<Rightarrow> rg_id g \<notin> rg_id ` set gs \<and> gs' = gs @ [g] | Some c \<Rightarrow> rg_id g = rg_id c \<and> gs' = put_grant g gs)"

lemma placed_again:
  assumes "placed claimed g gs gs'" and "rg_id h = rg_id g"
  shows "placed claimed h gs (put_grant h gs')"
  using assms by (cases claimed) (auto simp: placed_def put_grant_append put_grant_twice)

lemma upsertE:
  assumes "upsert_managed_grant now m claimed spec db = Inr (g, a, db')" and keyed: "keyed rg_id (td_grants db)"
    and "\<And>c. claimed = Some c \<Longrightarrow> c \<in> set (td_grants db)"
  shows "same_rest db db' \<and> placed claimed g (td_grants db) (td_grants db') \<and> g \<in> set (td_grants db') \<and> keyed rg_id (td_grants db') \<and>
    rg_valid_until g = ms_valid_until spec \<and>
    (case claimed of None \<Rightarrow> rg_membership g = Some m \<and> rg_user_group g = None \<and> rg_role g = ms_role spec \<and> rg_scopes g = []
     | Some c \<Rightarrow> rg_id g = rg_id c \<and> rg_membership g = rg_membership c \<and> rg_user_group g = rg_user_group c \<and> rg_role g = rg_role c \<and> rg_scopes g = rg_scopes c)"
proof (cases claimed)
  case None
  then have "create_grant now m (ms_role spec) (ms_reason spec) (ms_valid_until spec) db = Inr (g, db')"
    using assms(1) by (auto simp: upsert_managed_grant_def bindE_eq_Inr)
  note new = create_grantE[OF this]
  show ?thesis using new(3) keyed None by (simp add: placed_def new(2) same_rest_def keyed_def) (simp add: new(1))
next
  case (Some c)
  note c = assms(3)[OF Some]
  let ?upd = "\<lambda>g. g\<lparr>rg_reason := ms_reason spec, rg_valid_until := ms_valid_until spec\<rparr>"
  show ?thesis
  proof (cases "rg_reason c \<noteq> ms_reason spec \<or> rg_valid_until c \<noteq> ms_valid_until spec")
    case True
    then have r: "g = ?upd c" "db' = change_grant ?upd (rg_id c) db"
      using assms(1) Some by (auto simp: upsert_managed_grant_def Let_def bindE_eq_Inr)
    have gs: "td_grants db' = put_grant g (td_grants db)"
      unfolding r using change_grant_put[OF keyed c, of ?upd] by simp
    have "g \<in> set (put_grant g (td_grants db))" using c r(1) by (auto simp: put_grant_def image_iff)
    moreover have "same_rest db db'" "rg_id g = rg_id c" "rg_valid_until g = ms_valid_until spec" "rg_membership g = rg_membership c"
      "rg_user_group g = rg_user_group c" "rg_role g = rg_role c" "rg_scopes g = rg_scopes c" by (simp_all add: r)
    ultimately show ?thesis using gs keyed Some by (simp add: placed_def)
  next
    case False
    then have "g = c" "db' = db" using assms(1) Some by (auto simp: upsert_managed_grant_def)
    then show ?thesis using c keyed Some False by (simp add: placed_def put_grant_self)
  qed
qed

lemma sync_managed_rowE:
  assumes run: "sync_managed_row now m (claimed, spec) (db, cs) = Inr (db', cs')" and keyed: "keyed rg_id (td_grants db)"
    and claimed: "\<And>c. claimed = Some c \<Longrightarrow> c \<in> set (td_grants db)"
    and desired: "\<forall>k \<in> set (desired_scope_keys spec). fst k \<noteq> ScopeOwn"
  shows "\<exists>g. same_rest db db' \<and> keyed rg_id (td_grants db') \<and> placed claimed g (td_grants db) (td_grants db') \<and> realizes m claimed spec g"
proof -
  obtain g a db1 where one: "upsert_managed_grant now m claimed spec db = Inr (g, a, db1)"
    using run by (auto simp: sync_managed_row_def bindE_eq_Inr)
  note up = upsertE[OF one keyed claimed]
  let ?desired = "desired_scope_keys spec"
  let ?keep = "\<lambda>g. g\<lparr>rg_scopes := filter (\<lambda>s. sc_type s = ScopeOwn \<or> scope_key s \<in> set ?desired) (rg_scopes g)\<rparr>"
  let ?missing = "filter (\<lambda>k. k \<notin> set (map scope_key (filter (\<lambda>s. sc_type s \<noteq> ScopeOwn) (rg_scopes g)))) ?desired"
  have two: "each (create_scope (rg_id g)) ?missing (change_grant ?keep (rg_id g) db1) = Inr db'"
    using run one by (auto simp: sync_managed_row_def bindE_eq_Inr Let_def)
  obtain ss where ss: "map scope_key ss = ?missing"
      "db' = change_grant (\<lambda>g. g\<lparr>rg_scopes := rg_scopes g @ ss\<rparr>) (rg_id g) (change_grant ?keep (rg_id g) db1)"
    using create_scopesE[OF two] by blast
  define h where "h = (?keep g)\<lparr>rg_scopes := rg_scopes (?keep g) @ ss\<rparr>"
  have "db' = change_grant (\<lambda>g. (?keep g)\<lparr>rg_scopes := rg_scopes (?keep g) @ ss\<rparr>) (rg_id g) db1"
    unfolding ss(2) change_grant_def by simp
  then have gs: "td_grants db' = put_grant h (td_grants db1)"
    using change_grant_put[of db1 g "\<lambda>g. (?keep g)\<lparr>rg_scopes := rg_scopes (?keep g) @ ss\<rparr>"] up by (simp add: h_def)
  have h: "rg_id h = rg_id g" "rg_membership h = rg_membership g" "rg_user_group h = rg_user_group g" "rg_role h = rg_role g"
    "rg_valid_until h = rg_valid_until g" by (simp_all add: h_def)
  have scopes: "rg_scopes h = filter (\<lambda>s. sc_type s = ScopeOwn \<or> scope_key s \<in> set ?desired) (rg_scopes g) @ ss" by (simp add: h_def)
  have keys: "scope_key ` set ss = set ?missing" using ss(1) by (metis set_map)
  have types: "sc_type s \<noteq> ScopeOwn" if "s \<in> set ss" for s
  proof -
    have "scope_key s \<in> set ?missing" using keys that by blast
    then have "fst (scope_key s) \<noteq> ScopeOwn" using desired by auto
    then show ?thesis by (simp add: scope_key_def)
  qed
  have own: "filter (\<lambda>s. sc_type s = ScopeOwn) (rg_scopes h) = filter (\<lambda>s. sc_type s = ScopeOwn) (rg_scopes g)"
    using types by (auto simp: scopes filter_empty_conv intro: filter_cong)
  have "scope_key ` {s \<in> set (rg_scopes h). sc_type s \<noteq> ScopeOwn} =
      scope_key ` {s \<in> set (rg_scopes g). sc_type s \<noteq> ScopeOwn \<and> scope_key s \<in> set ?desired} \<union> scope_key ` set ss"
    using types by (auto simp: scopes)
  also have "\<dots> = set ?desired" unfolding keys by auto
  finally have "realizes m claimed spec h" using up own h by (cases claimed) (simp_all add: realizes_def)
  moreover have "placed claimed h (td_grants db) (td_grants db')" unfolding gs using placed_again[of claimed g _ _ h] up h(1) by blast
  moreover have "same_rest db db'" using up ss(2) by (simp add: same_rest_def)
  moreover have "keyed rg_id (td_grants db')" using up gs by simp
  ultimately show ?thesis by blast
qed


lemma placed_rows:
  assumes "placed claimed g gs gs'" and "keyed rg_id gs" and "\<forall>c. claimed = Some c \<longrightarrow> c \<in> set gs"
  shows "set gs' = {h \<in> set gs. \<forall>c. claimed = Some c \<longrightarrow> rg_id h \<noteq> rg_id c} \<union> {g}"
    and "claimed = None \<Longrightarrow> rg_id g \<notin> rg_id ` set gs" and "claimed = Some c \<Longrightarrow> rg_id g = rg_id c"
  using assms by (auto simp: placed_def put_grant_def split: option.splits)

abbreviation claims :: "(role_grant option \<times> managed_grant_spec) list \<Rightarrow> pk list" where
  "claims kept \<equiv> map rg_id (List.map_filter fst kept)"

lemma sync_managed_rowsE:
  "each (sync_managed_row now m) kept s = Inr s' \<Longrightarrow> keyed rg_id (td_grants (fst s)) \<Longrightarrow>
     set (List.map_filter fst kept) \<subseteq> set (td_grants (fst s)) \<Longrightarrow> distinct (claims kept) \<Longrightarrow>
     (\<forall>x \<in> set kept. \<forall>k \<in> set (desired_scope_keys (snd x)). fst k \<noteq> ScopeOwn) \<Longrightarrow>
     same_rest (fst s) (fst s') \<and> keyed rg_id (td_grants (fst s')) \<and>
     (\<exists>rows. list_all2 (\<lambda>x g. realizes m (fst x) (snd x) g) kept rows \<and>
        set (td_grants (fst s')) = {g \<in> set (td_grants (fst s)). rg_id g \<notin> set (claims kept)} \<union> set rows)"
proof (induction kept arbitrary: s)
  case Nil
  then show ?case by (simp add: map_filter_simps)
next
  case (Cons x kept)
  obtain c spec where x: "x = (c, spec)" by force
  obtain s1 where one: "sync_managed_row now m (c, spec) s = Inr s1" and rest: "each (sync_managed_row now m) kept s1 = Inr s'"
    using Cons.prems(1) x by (auto simp: bindE_eq_Inr)
  obtain db cs db1 cs1 where s: "s = (db, cs)" "s1 = (db1, cs1)" by (metis surj_pair)
  have c: "c' \<in> set (td_grants db)" if "c = Some c'" for c' using Cons.prems(3) that x s by (simp add: map_filter_simps)
  have keyed: "keyed rg_id (td_grants db)" using Cons.prems(2) s by simp
  have desired: "\<forall>k \<in> set (desired_scope_keys spec). fst k \<noteq> ScopeOwn" using Cons.prems(5) x by simp
  obtain g where g: "same_rest db db1" "keyed rg_id (td_grants db1)" "placed c g (td_grants db) (td_grants db1)" "realizes m c spec g"
    using sync_managed_rowE[OF one[unfolded s] keyed c desired] by blast
  have "\<forall>c'. c = Some c' \<longrightarrow> c' \<in> set (td_grants db)" using c by blast
  note rows1 = placed_rows[OF g(3) keyed this]
  have rest_claims: "set (List.map_filter fst kept) \<subseteq> set (td_grants db)" "distinct (claims kept)"
    "\<And>c'. c = Some c' \<Longrightarrow> rg_id c' \<notin> set (claims kept)"
    using Cons.prems(3,4) x s by (auto simp: map_filter_simps split: option.splits)
  have "set (List.map_filter fst kept) \<subseteq> set (td_grants (fst s1))"
  proof
    fix d assume d: "d \<in> set (List.map_filter fst kept)"
    then have "rg_id d \<noteq> rg_id c'" if "c = Some c'" for c' using rest_claims(3)[OF that] d by (metis image_eqI set_map)
    then show "d \<in> set (td_grants (fst s1))" using d rest_claims(1) rows1(1) s by auto
  qed
  then obtain rows where rows: "same_rest db1 (fst s')" "keyed rg_id (td_grants (fst s'))"
      "list_all2 (\<lambda>x g. realizes m (fst x) (snd x) g) kept rows"
      "set (td_grants (fst s')) = {h \<in> set (td_grants db1). rg_id h \<notin> set (claims kept)} \<union> set rows"
    using Cons.IH[OF rest _ _ rest_claims(2)] Cons.prems(5) g(2) s by auto
  have "rg_id g \<notin> set (claims kept)"
  proof (cases c)
    case None
    then have "rg_id g \<notin> rg_id ` set (td_grants db)" using rows1(2) by blast
    moreover have "set (claims kept) \<subseteq> rg_id ` set (td_grants db)" using rest_claims(1) by (auto simp del: map_map)
    ultimately show ?thesis by blast
  next
    case (Some c')
    then show ?thesis using rest_claims(3) rows1(3) by simp
  qed
  then have "{h \<in> set (td_grants db1). rg_id h \<notin> set (claims kept)} = {h \<in> set (td_grants db). rg_id h \<notin> set (claims (x # kept))} \<union> {g}"
    unfolding rows1(1) by (cases c) (auto simp: map_filter_simps x)
  then show ?case using rows g(1,4) x s by (intro conjI exI[of _ "g # rows"]) (auto intro: same_rest_trans)
qed


section \<open>The effect of the write phase\<close>

definition live_grant :: "instant \<Rightarrow> role_grant \<Rightarrow> bool" where
  "live_grant now g \<longleftrightarrow> ro_deleted (rg_role g) = None \<and> grant_is_active now g"

lemma in_live_own:
  "g \<in> set (live_own_grants db now m) \<longleftrightarrow>
     g \<in> set (td_grants db) \<and> of_membership m g \<and> live_grant now g \<and> (\<exists>s \<in> set (rg_scopes g). sc_type s = ScopeOwn)"
  by (auto simp: live_own_grants_def live_grant_def)

lemma in_live_managed:
  "g \<in> set (live_managed_grants db now m) \<longleftrightarrow>
     g \<in> set (td_grants db) \<and> of_membership m g \<and> live_grant now g \<and> (\<exists>s \<in> set (rg_scopes g). sc_type s \<in> set MANAGED_SCOPE_TYPES)"
  by (auto simp: live_managed_grants_def live_grant_def)

lemma desired_types: "k \<in> set (desired_scope_keys spec) \<Longrightarrow> fst k \<in> set MANAGED_SCOPE_TYPES"
  by (auto simp: desired_scope_keys_def MANAGED_SCOPE_TYPES_def split: managed_scope.splits)

lemma managed_types_not_own: "t \<in> set MANAGED_SCOPE_TYPES \<Longrightarrow> t \<noteq> ScopeOwn"
  by (auto simp: MANAGED_SCOPE_TYPES_def)

lemma claimed_grantD:
  "claimed_grant existing spec = Some c \<Longrightarrow> c \<in> set existing \<and> ms_grant_id spec = Some (rg_id c) \<and> ro_id (rg_role c) = ro_id (ms_role spec)"
  by (auto simp: claimed_grant_def bind_eq_Some_conv dest: find_row_SomeD split: option.splits if_split_asm)

lemma intended_claims:
  assumes "keyed rg_id existing" and "distinct (map (\<lambda>s. ro_id (ms_role s)) specs)"
  shows "distinct (claims (map (\<lambda>s. (claimed_grant existing s, s)) specs))"
    and "set (List.map_filter fst (map (\<lambda>s. (claimed_grant existing s, s)) specs)) \<subseteq> set existing"
proof -
  show sub: "set (List.map_filter fst (map (\<lambda>s. (claimed_grant existing s, s)) specs)) \<subseteq> set existing"
    by (auto simp: in_map_filter dest: claimed_grantD)
  show "distinct (claims (map (\<lambda>s. (claimed_grant existing s, s)) specs))"
    using assms(2)
  proof (induction specs)
    case (Cons s specs)
    have "rg_id c \<notin> set (claims (map (\<lambda>s. (claimed_grant existing s, s)) specs))" if c: "claimed_grant existing s = Some c" for c
    proof
      assume "rg_id c \<in> set (claims (map (\<lambda>s. (claimed_grant existing s, s)) specs))"
      then obtain t d where t: "t \<in> set specs" "claimed_grant existing t = Some d" "rg_id d = rg_id c" by (auto simp: in_map_filter)
      have "d = c" using t(3) claimed_grantD[OF c] claimed_grantD[OF t(2)] keyed_inj[OF assms(1)] by blast
      then have "ro_id (ms_role t) = ro_id (ms_role s)" using claimed_grantD[OF c] claimed_grantD[OF t(2)] by simp
      then have "ro_id (ms_role s) \<in> (\<lambda>s. ro_id (ms_role s)) ` set specs" using t(1) by (intro image_eqI[of _ _ t]) simp_all
      then show False using Cons.prems by simp
    qed
    then show ?case using Cons by (auto simp: map_filter_simps split: option.split)
  qed (simp add: map_filter_simps)
qed

lemma live_managed_keyed: "keyed rg_id (td_grants db) \<Longrightarrow> keyed rg_id (live_managed_grants db now m)"
  by (simp add: keyed_def live_managed_grants_def distinct_map_filter)

text \<open>The tables after the own pass (\<open>db1\<close>) and after the managed pass, with the new own grants, the managed grants
  met in between and the rows made of the plan.\<close>

definition sync_shape :: "instant \<Rightarrow> membership \<Rightarrow> validated_plan \<Rightarrow> tenancy \<Rightarrow> tenancy \<Rightarrow> membership \<Rightarrow> tenancy \<Rightarrow> role_grant list \<Rightarrow> role_grant list \<Rightarrow> role_grant list \<Rightarrow> bool" where
  "sync_shape now m v db db' locked db1 new existing rows \<longleftrightarrow>
     find_row mb_id (mb_id m) (td_memberships db) = Some locked \<and> mb_id locked = mb_id m \<and> tn_id (vp_principal_tenant v) = tn_id (mb_tenant m) \<and>
     set (map (\<lambda>g. ro_id (rg_role g)) (live_own_grants db now (mb_id m))) = set (vp_own_role_ids v) \<and>
     td_grants db1 = td_grants (revoke_all (\<lambda>s. sc_type s = ScopeOwn)
       (rg_id ` {g \<in> set (live_own_grants db now (mb_id m)). ro_id (rg_role g) \<notin> (\<lambda>s. ro_id (os_role s)) ` set (gp_own (vp_plan v))}) db) @ new \<and>
     (\<forall>g \<in> set new. \<exists>s \<in> set (gp_own (vp_plan v)). own_row locked s g \<and> \<not> surviving (live_own_grants db now (mb_id m)) s) \<and>
     (\<forall>s \<in> set (gp_own (vp_plan v)). \<not> surviving (live_own_grants db now (mb_id m)) s \<longrightarrow> (\<exists>g \<in> set new. own_row locked s g)) \<and>
     keyed rg_id (td_grants db1) \<and> existing = live_managed_grants db1 now (mb_id m) \<and> same_rest db db' \<and> keyed rg_id (td_grants db') \<and>
     list_all2 (\<lambda>s g. realizes locked (claimed_grant existing s) s g) (gp_managed (vp_plan v)) rows \<and>
     set (td_grants db') = {g \<in> set (td_grants (revoke_all (\<lambda>s. sc_type s \<noteq> ScopeOwn)
        (rg_id ` set existing - set (claims (intended_managed_rows v existing))) db1)).
        rg_id g \<notin> set (claims (intended_managed_rows v existing))} \<union> set rows"

lemma sync_shape_exists:
  assumes run: "sync_membership_grants now atomic m v db = Inr (db', cs)" and keyed: "keyed rg_id (td_grants db)"
    and roles: "distinct (map (\<lambda>s. ro_id (ms_role s)) (gp_managed (vp_plan v)))"
  obtains locked db1 new existing rows where "sync_shape now m v db db' locked db1 new existing rows"
proof -
  obtain locked where locked: "find_row mb_id (mb_id m) (td_memberships db) = Some locked"
    using run by (auto simp: sync_membership_grants_def split: if_split_asm option.splits)
  have id: "mb_id locked = mb_id m" using find_row_SomeD[OF locked] by simp
  have gates: "tn_id (vp_principal_tenant v) = tn_id (mb_tenant m)"
    "set (map (\<lambda>g. ro_id (rg_role g)) (live_own_grants db now (mb_id m))) = set (vp_own_role_ids v)"
    and body: "bindE (sync_own_reach now locked v (db, [])) (sync_managed_reach now locked v) = Inr (db', cs)"
    using run by (simp_all add: sync_membership_grants_def locked id split: if_split_asm)
  let ?own = "live_own_grants db now (mb_id m)" and ?specs = "gp_own (vp_plan v)"
  obtain s1 where own: "sync_own_reach now locked v (db, []) = Inr s1" and managed: "sync_managed_reach now locked v s1 = Inr (db', cs)"
    using body by (auto simp: bindE_eq_Inr)
  obtain db1 cs1 where s1: "s1 = (db1, cs1)" by force
  define R where "R = fst (revoke_own (map (\<lambda>s. ro_id (os_role s)) ?specs) ?own (db, []))"
  have R: "R = revoke_all (\<lambda>s. sc_type s = ScopeOwn) (rg_id ` {g \<in> set ?own. ro_id (rg_role g) \<notin> (\<lambda>s. ro_id (os_role s)) ` set ?specs}) db"
    by (simp add: R_def revoke_own_eq)
  have "keyed rg_id (td_grants R)" unfolding R by (rule revoke_all_keyed[OF keyed])
  then obtain new where new: "td_grants db1 = td_grants R @ new" "same_rest R db1" "keyed rg_id (td_grants db1)"
      "\<forall>g \<in> set new. \<exists>s \<in> set ?specs. own_row locked s g \<and> \<not> surviving ?own s"
      "\<forall>s \<in> set ?specs. \<not> surviving ?own s \<longrightarrow> (\<exists>g \<in> set new. own_row locked s g)"
    using create_ownsE[of now locked ?own ?specs "revoke_own (map (\<lambda>s. ro_id (os_role s)) ?specs) ?own (db, [])" s1] own s1
    by (auto simp: sync_own_reach_def Let_def id R_def)
  define existing where "existing = live_managed_grants db1 now (mb_id m)"
  define kept where "kept = intended_managed_rows v existing"
  have existing: "keyed rg_id existing" unfolding existing_def by (rule live_managed_keyed[OF new(3)])
  note claims = intended_claims[OF existing roles, folded intended_managed_rows_def kept_def]
  define S where "S = fst (revoke_obsolete (claims kept) existing (db1, cs1))"
  have S: "S = revoke_all (\<lambda>s. sc_type s \<noteq> ScopeOwn) (rg_id ` set existing - set (claims kept)) db1"
    by (simp add: S_def revoke_obsolete_eq)
  have keyed_S: "keyed rg_id (td_grants S)" unfolding S by (rule revoke_all_keyed[OF new(3)])
  have kept_S: "set (List.map_filter fst kept) \<subseteq> set (td_grants S)"
  proof
    fix c assume c: "c \<in> set (List.map_filter fst kept)"
    then have "c \<in> set (td_grants db1)" "rg_id c \<in> set (claims kept)" using claims(2) by (auto simp: existing_def in_live_managed)
    then show "c \<in> set (td_grants S)" unfolding S revoke_all_rows by (intro bexI[of _ c]) auto
  qed
  have not_own: "\<forall>x \<in> set kept. \<forall>k \<in> set (desired_scope_keys (snd x)). fst k \<noteq> ScopeOwn"
    using desired_types managed_types_not_own by blast
  have loop: "each (sync_managed_row now locked) kept (revoke_obsolete (claims kept) existing (db1, cs1)) = Inr (db', cs)"
    using managed s1 by (simp add: sync_managed_reach_def Let_def id existing_def kept_def)
  obtain rows where rows: "same_rest S db'" "keyed rg_id (td_grants db')"
      "list_all2 (\<lambda>x g. realizes locked (fst x) (snd x) g) kept rows"
      "set (td_grants db') = {g \<in> set (td_grants S). rg_id g \<notin> set (claims kept)} \<union> set rows"
    using sync_managed_rowsE[OF loop, folded S_def, OF keyed_S kept_S claims(1) not_own] by auto
  have "list_all2 (\<lambda>s g. realizes locked (claimed_grant existing s) s g) (gp_managed (vp_plan v)) rows"
    using rows(3) by (simp add: kept_def intended_managed_rows_def list_all2_map1)
  moreover have "same_rest db db'" using rows(1) new(2) unfolding S R by (simp add: same_rest_def revoke_all_def)
  ultimately have "sync_shape now m v db db' locked db1 new existing rows"
    using locked id gates new(1,3-5) rows(2,4) by (simp add: sync_shape_def R S existing_def kept_def)
  then show thesis by (rule that)
qed

end
