(* ===== verification/GrantPlanSafety.thy ===== *)
theory GrantPlanSafety
  imports GrantSync
begin

text \<open>
  What writing a validated plan does: the live grants of the membership are those of the plan, nothing they
  confer goes beyond what the actor holds, and no other grant is touched.
\<close>

section \<open>The live grants afterwards\<close>

lemma list_all2_right: "list_all2 P xs ys \<Longrightarrow> y \<in> set ys \<Longrightarrow> \<exists>x \<in> set xs. P x y"
  by (induction rule: list_all2_induct) auto

lemma list_all2_left: "list_all2 P xs ys \<Longrightarrow> x \<in> set xs \<Longrightarrow> \<exists>y \<in> set ys. P x y"
  by (induction rule: list_all2_induct) auto

lemma realizesD:
  assumes "realizes m c spec g"
  shows "\<And>s. s \<in> set (rg_scopes g) \<Longrightarrow> sc_type s \<noteq> ScopeOwn \<Longrightarrow> scope_key s \<in> set (desired_scope_keys spec)"
    and "rg_valid_until g = ms_valid_until spec"
  using assms by (auto simp: realizes_def)

lemma kept_grantD:
  assumes "without_scopes P g = Some g'"
  shows "rg_id g' = rg_id g" "rg_membership g' = rg_membership g" "rg_user_group g' = rg_user_group g" "rg_role g' = rg_role g"
    "rg_valid_until g' = rg_valid_until g" "s \<in> set (rg_scopes g') \<longleftrightarrow> s \<in> set (rg_scopes g) \<and> \<not> P s"
  using assms by (auto simp: without_scopes_Some)

lemma live_grant_kept: "without_scopes P g = Some g' \<Longrightarrow> live_grant now g' = live_grant now g"
  by (simp add: live_grant_def grant_is_active_def kept_grantD)

lemma of_membership_kept: "without_scopes P g = Some g' \<Longrightarrow> of_membership i g' = of_membership i g"
  by (simp add: of_membership_def kept_grantD)

lemma sync_shapeD:
  assumes "sync_shape now m v db db' locked db1 new existing rows"
  shows "find_row mb_id (mb_id m) (td_memberships db) = Some locked" "mb_id locked = mb_id m"
    "td_grants db1 = td_grants (revoke_all (\<lambda>s. sc_type s = ScopeOwn)
       (rg_id ` {g \<in> set (live_own_grants db now (mb_id m)). ro_id (rg_role g) \<notin> (\<lambda>s. ro_id (os_role s)) ` set (gp_own (vp_plan v))}) db) @ new"
    "\<forall>g \<in> set new. \<exists>s \<in> set (gp_own (vp_plan v)). own_row locked s g \<and> \<not> surviving (live_own_grants db now (mb_id m)) s"
    "\<forall>s \<in> set (gp_own (vp_plan v)). \<not> surviving (live_own_grants db now (mb_id m)) s \<longrightarrow> (\<exists>g \<in> set new. own_row locked s g)"
    "keyed rg_id (td_grants db1)" "existing = live_managed_grants db1 now (mb_id m)" "same_rest db db' \<and> keyed rg_id (td_grants db')"
    "list_all2 (\<lambda>s g. realizes locked (claimed_grant existing s) s g) (gp_managed (vp_plan v)) rows"
    "set (td_grants db') = {g \<in> set (td_grants (revoke_all (\<lambda>s. sc_type s \<noteq> ScopeOwn)
        (rg_id ` set existing - set (claims (intended_managed_rows v existing))) db1)).
        rg_id g \<notin> set (claims (intended_managed_rows v existing))} \<union> set rows"
  using assms unfolding sync_shape_def by blast+

lemma direct_grants_follow_plan:
  assumes run: "sync_membership_grants now atomic m v db = Inr (db', cs)" and keyed: "keyed rg_id (td_grants db)"
    and roles: "distinct (map (\<lambda>s. ro_id (ms_role s)) (gp_managed (vp_plan v)))"
    and g: "g \<in> set (td_grants db')" "of_membership (mb_id m) g" "live_grant now g"
  shows "s \<in> set (rg_scopes g) \<Longrightarrow> sc_type s = ScopeOwn \<Longrightarrow> \<exists>spec \<in> set (gp_own (vp_plan v)). ro_id (rg_role g) = ro_id (os_role spec)"
    and "s \<in> set (rg_scopes g) \<Longrightarrow> sc_type s \<in> set MANAGED_SCOPE_TYPES \<Longrightarrow>
       \<exists>spec \<in> set (gp_managed (vp_plan v)). ro_id (rg_role g) = ro_id (ms_role spec) \<and> scope_key s \<in> set (desired_scope_keys spec)"
    and "rg_role g \<in> rg_role ` set (td_grants db) \<union> os_role ` set (gp_own (vp_plan v)) \<union> ms_role ` set (gp_managed (vp_plan v))"
    and "rg_membership g \<in> insert (find_row mb_id (mb_id m) (td_memberships db)) (rg_membership ` set (td_grants db))"
proof -
  let ?own = "live_own_grants db now (mb_id m)" and ?specs = "gp_own (vp_plan v)" and ?is_own = "\<lambda>s. sc_type s = ScopeOwn"
  obtain locked db1 new existing rows where shape: "sync_shape now m v db db' locked db1 new existing rows"
    by (rule sync_shape_exists[OF run keyed roles])
  note locked = sync_shapeD(1)[OF shape] and db1 = sync_shapeD(3)[OF shape] and new = sync_shapeD(4)[OF shape]
    and existing = sync_shapeD(7)[OF shape] and rows = sync_shapeD(9)[OF shape] and final = sync_shapeD(10)[OF shape]
  have own1: "\<exists>spec \<in> set ?specs. ro_id (rg_role h) = ro_id (os_role spec)"
    if h: "h \<in> set (td_grants db1)" "of_membership (mb_id m) h" "live_grant now h" "s \<in> set (rg_scopes h)" "?is_own s" for h s
  proof (cases "h \<in> set new")
    case True
    then show ?thesis using bspec[OF new True] by (auto simp: own_row_def)
  next
    case False
    define I where "I = rg_id ` {g \<in> set ?own. ro_id (rg_role g) \<notin> (\<lambda>s. ro_id (os_role s)) ` set ?specs}"
    obtain h0 where h0: "h0 \<in> set (td_grants db)" "if rg_id h0 \<in> I then without_scopes ?is_own h0 = Some h else h = h0"
      using h(1) False db1 revoke_all_rows unfolding I_def by auto
    have "rg_id h0 \<notin> I" using h0(2) h(4,5) kept_grantD(6)[of ?is_own h0 h s] by (metis (full_types))
    then have "h = h0" "h \<in> set ?own" using h0 h by (auto simp: in_live_own)
    then show ?thesis using \<open>rg_id h0 \<notin> I\<close> unfolding I_def by auto
  qed
  let ?members = "insert (Some locked) (rg_membership ` set (td_grants db))"
  have origin1: "rg_role h \<in> rg_role ` set (td_grants db) \<union> os_role ` set ?specs \<and> rg_membership h \<in> ?members" if "h \<in> set (td_grants db1)" for h
  proof (cases "h \<in> set new")
    case True
    then show ?thesis using bspec[OF new True] by (auto simp: own_row_def)
  next
    case False
    then have "h \<in> set (td_grants (revoke_all ?is_own (rg_id ` {g \<in> set ?own. ro_id (rg_role g) \<notin> (\<lambda>s. ro_id (os_role s)) ` set ?specs}) db))"
      using that db1 by auto
    then show ?thesis unfolding revoke_all_rows by (auto dest: kept_grantD(2,4) split: if_split_asm)
  qed
  have all: "(\<forall>s \<in> set (rg_scopes g). ?is_own s \<longrightarrow> (\<exists>spec \<in> set ?specs. ro_id (rg_role g) = ro_id (os_role spec))) \<and>
    (\<forall>s \<in> set (rg_scopes g). sc_type s \<in> set MANAGED_SCOPE_TYPES \<longrightarrow>
       (\<exists>spec \<in> set (gp_managed (vp_plan v)). ro_id (rg_role g) = ro_id (ms_role spec) \<and> scope_key s \<in> set (desired_scope_keys spec))) \<and>
    rg_role g \<in> rg_role ` set (td_grants db) \<union> os_role ` set ?specs \<union> ms_role ` set (gp_managed (vp_plan v)) \<and>
    rg_membership g \<in> ?members"
  proof (cases "g \<in> set rows")
    case True
    then obtain spec where spec: "spec \<in> set (gp_managed (vp_plan v))" "realizes locked (claimed_grant existing spec) spec g"
      using list_all2_right[OF rows True] by blast
    show ?thesis
    proof (cases "claimed_grant existing spec")
      case None
      then have "rg_role g = ms_role spec" "filter ?is_own (rg_scopes g) = []" "rg_membership g = Some locked"
        using spec(2) by (simp_all add: realizes_def)
      then show ?thesis using spec realizesD(1)[OF spec(2)] managed_types_not_own by (auto simp: filter_empty_conv)
    next
      case (Some c)
      note c = claimed_grantD[OF Some]
      then have c1: "c \<in> set (td_grants db1)" "of_membership (mb_id m) c" "live_grant now c" by (auto simp: existing in_live_managed)
      have r: "rg_role g = rg_role c" "rg_membership g = rg_membership c" "filter ?is_own (rg_scopes g) = filter ?is_own (rg_scopes c)"
        using spec(2) Some by (simp_all add: realizes_def)
      have "s \<in> set (rg_scopes c)" if "s \<in> set (rg_scopes g)" "?is_own s" for s
      proof -
        have "s \<in> set (filter ?is_own (rg_scopes g))" using that by simp
        then show ?thesis unfolding r(3) by simp
      qed
      then show ?thesis using own1[OF c1] origin1[OF c1(1)] r(1,2) c spec(1) realizesD(1)[OF spec(2)] managed_types_not_own by auto
    qed
  next
    case False
    define J where "J = rg_id ` set existing - set (claims (intended_managed_rows v existing))"
    have kept: "g \<in> set (td_grants (revoke_all (\<lambda>s. sc_type s \<noteq> ScopeOwn) J db1))" "rg_id g \<notin> set (claims (intended_managed_rows v existing))"
      using g(1) False final unfolding J_def by auto
    then obtain h where h: "h \<in> set (td_grants db1)" "if rg_id h \<in> J then without_scopes (\<lambda>s. sc_type s \<noteq> ScopeOwn) h = Some g else g = h"
      unfolding revoke_all_rows by blast
    show ?thesis
    proof (cases "rg_id h \<in> J")
      case True
      then have w: "without_scopes (\<lambda>s. sc_type s \<noteq> ScopeOwn) h = Some g" using h(2) by simp
      note k = kept_grantD[OF w]
      have "of_membership (mb_id m) h" "live_grant now h" using g(2,3) live_grant_kept[OF w] of_membership_kept[OF w] by simp_all
      then show ?thesis using own1[OF h(1)] origin1[OF h(1)] k(2,4,6) managed_types_not_own by auto
    next
      case False
      then have "g = h" "g \<notin> set existing" using h(2) kept(2) unfolding J_def by auto
      then show ?thesis using own1[OF h(1)] origin1[OF h(1)] g(2,3) h(1) by (auto simp: existing in_live_managed)
    qed
  qed
  show "s \<in> set (rg_scopes g) \<Longrightarrow> sc_type s = ScopeOwn \<Longrightarrow> \<exists>spec \<in> set ?specs. ro_id (rg_role g) = ro_id (os_role spec)"
    using all by blast
  show "s \<in> set (rg_scopes g) \<Longrightarrow> sc_type s \<in> set MANAGED_SCOPE_TYPES \<Longrightarrow>
       \<exists>spec \<in> set (gp_managed (vp_plan v)). ro_id (rg_role g) = ro_id (ms_role spec) \<and> scope_key s \<in> set (desired_scope_keys spec)"
    using all by blast
  show "rg_role g \<in> rg_role ` set (td_grants db) \<union> os_role ` set ?specs \<union> ms_role ` set (gp_managed (vp_plan v))"
    using all by blast
  show "rg_membership g \<in> insert (find_row mb_id (mb_id m) (td_memberships db)) (rg_membership ` set (td_grants db))"
    unfolding locked using all by blast
qed


section \<open>No escalation\<close>

text \<open>Rows with the same key are the same row, in the grants and in the plan.\<close>

definition plan_roles :: "tenancy \<Rightarrow> grant_plan \<Rightarrow> role set" where
  "plan_roles db plan = rg_role ` set (td_grants db) \<union> os_role ` set (gp_own plan) \<union> ms_role ` set (gp_managed plan)"

definition roles_agree :: "tenancy \<Rightarrow> grant_plan \<Rightarrow> bool" where
  "roles_agree db plan \<longleftrightarrow> (\<forall>r \<in> plan_roles db plan. ro_tenant r \<in> set (td_tenants db) \<and>
     (\<forall>r' \<in> plan_roles db plan. ro_id r = ro_id r' \<longrightarrow> r = r'))"

lemma guard_covers:
  assumes "scope_key s \<in> set (desired_scope_keys spec)"
  shows "scope_within (guard_scope (ms_scope spec)) (requested_tenant_ids_for db w owner spec) s"
  using assms by (auto simp: desired_scope_keys_def guard_scope_def requested_tenant_ids_for_def scope_within_def scope_key_def split: managed_scope.splits)

lemma validated_grants_held:
  assumes w: "current db now u w" and emb: "tenants_embedded db" and "\<not> us_superuser u" and owner: "owner \<in> set (td_tenants db)"
    and agree: "roles_agree db plan" and valid: "fst (validate_grant_plan db now (Some u) owner plan m rv w) = Inr v"
    and role: "rg_role g \<in> plan_roles db plan" and t: "t \<in> set (td_tenants db)" "tn_live t"
    and s: "scope_covers (walk_desc (td_groups db)) g (tn_id owner) t s"
    and own: "sc_type s = ScopeOwn \<Longrightarrow> \<exists>spec \<in> set (gp_own plan). ro_id (rg_role g) = ro_id (os_role spec)"
    and managed: "sc_type s \<in> set MANAGED_SCOPE_TYPES \<Longrightarrow>
      \<exists>spec \<in> set (gp_managed plan). ro_id (rg_role g) = ro_id (ms_role spec) \<and> scope_key s \<in> set (desired_scope_keys spec)"
  shows "set (ro_permissions (rg_role g)) \<subseteq> held db now (us_id u) t"
proof -
  obtain w1 w2 where checks: "own_escalation db now (Some u) owner (gp_own plan) w = ([], w1)"
      "managed_escalation db now (Some u) owner (gp_managed plan) w1 = ([], w2)"
    by (rule validated_planE[OF valid])
  note first = own_escalation_ok[OF w owner checks(1)]
  then have "current db now u w1" by blast
  note second = managed_escalation_ok[OF this owner checks(2)]
  have tenant: "ro_tenant (rg_role g) \<in> set (td_tenants db)" using agree role by (simp add: roles_agree_def)
  have same: "rg_role g = r" if "r \<in> plan_roles db plan" "ro_id (rg_role g) = ro_id r" for r
    using agree role that unfolding roles_agree_def by blast
  consider (own) "sc_type s = ScopeOwn" | (managed) "sc_type s \<in> set MANAGED_SCOPE_TYPES"
    using s by (cases "sc_type s") (simp_all add: MANAGED_SCOPE_TYPES_def scope_covers_def Let_def split: if_split_asm)
  then show ?thesis
  proof cases
    case own
    then obtain spec where spec: "spec \<in> set (gp_own plan)" "ro_id (rg_role g) = ro_id (os_role spec)" using assms(11) by blast
    have r: "rg_role g = os_role spec" using same[OF _ spec(2)] spec(1) by (simp add: plan_roles_def)
    obtain w0 where w0: "current db now u w0" "fst (validate_role_grant db now (Some u) (rg_role g) owner ScopeOwn None w0) = Inr ()"
      using first spec(1) r by auto
    have "scope_within ScopeOwn None s" using own by (simp add: scope_within_def)
    then show ?thesis by (rule delegated_scope_held[OF w0(1) assms(3) emb owner tenant w0(2) _ t s])
  next
    case managed
    then obtain spec where spec: "spec \<in> set (gp_managed plan)" "ro_id (rg_role g) = ro_id (ms_role spec)" "scope_key s \<in> set (desired_scope_keys spec)"
      using assms(12) by blast
    have r: "rg_role g = ms_role spec" using same[OF _ spec(2)] spec(1) by (simp add: plan_roles_def)
    obtain w0 where w0: "current db now u w0" "fst (validate_role_grant db now (Some u) (rg_role g) owner (guard_scope (ms_scope spec))
        (requested_tenant_ids_for db w0 owner spec) w0) = Inr ()"
      using second spec(1) r by auto
    show ?thesis by (rule delegated_scope_held[OF w0(1) assms(3) emb owner tenant w0(2) guard_covers[OF spec(3)] t s])
  qed
qed

text \<open>C8. The grants that a write leaves: the plan of an actor who is no superuser and whose memos hold nothing expired when it is
  validated (those of a fresh \<open>User\<close> instance hold nothing at all; with an expired entry the check can pass without the
  permission), validated and written to the same tables, gives the member nothing that the actor does not hold.  Whatever live
  tenant a grant of the membership covers at any later time, the actor held all permissions of its role there when
  the plan was validated.\<close>

theorem plan_never_escalates:
  assumes "world_ok db now (us_id u) w" "memo_current db now (us_id u) (w_memo w)" and emb: "tenants_embedded db" and "\<not> us_superuser u"
    and m: "mb_tenant m \<in> set (td_tenants db)" "find_row mb_id (mb_id m) (td_memberships db) = Some m"
    and rows: "keyed rg_id (td_grants db)" "\<And>h x. h \<in> set (td_grants db) \<Longrightarrow> rg_membership h = Some x \<Longrightarrow> mb_id x = mb_id m \<Longrightarrow> x = m"
    and agree: "roles_agree db plan"
    and valid: "fst (validate_grant_plan db now (Some u) (mb_tenant m) plan (Some m) rv w) = Inr v"
    and run: "sync_membership_grants now' atomic m v db = Inr (db', cs)" and "now' \<le> later"
    and g: "g \<in> set (td_grants db')" "of_membership (mb_id m) g"
    and t: "t \<in> set (td_tenants db)" "tn_live t" and covers: "covers_tenant (walk_desc (td_groups db)) later g t"
  shows "set (ro_permissions (rg_role g)) \<subseteq> held db now (us_id u) t"
proof -
  have w: "current db now u w" using assms(1,2) by simp
  have plan: "vp_plan v = plan" and roles: "distinct (map (\<lambda>s. ro_id (ms_role s)) (gp_managed plan))"
    using valid by (auto elim!: validated_planE dest: shape_and_reach_Nil(3))
  have live: "live_grant now' g"
    using covers assms(12) by (auto simp: covers_tenant_def live_grant_def grant_is_active_def split: if_split_asm option.splits)
  note follow = direct_grants_follow_plan[OF run rows(1) roles[folded plan] g live, unfolded plan]
  have "rg_membership g = Some m"
    using follow(4) g(2) rows(2) m(2) by (auto simp: of_membership_def)
  then have "principal_tenant_id g = Some (tn_id (mb_tenant m))" by (simp add: principal_tenant_id_def)
  then obtain s where s: "s \<in> set (rg_scopes g)" "scope_covers (walk_desc (td_groups db)) g (tn_id (mb_tenant m)) t s"
    using covering_scope[OF covers] by blast
  have "rg_role g \<in> plan_roles db plan" using follow(3) by (simp add: plan_roles_def)
  then show ?thesis
    by (rule validated_grants_held[OF w emb assms(4) m(1) agree valid _ t s(2) follow(1,2)[OF s(1)]])
qed


section \<open>The plan is what holds afterwards\<close>

text \<open>The abstract state of a membership: the roles it has in its own tenant, and the managed coverage of each role.\<close>

definition own_reach :: "tenancy \<Rightarrow> instant \<Rightarrow> pk \<Rightarrow> pk set" where
  "own_reach db now m = {ro_id (rg_role g) | g s. g \<in> set (td_grants db) \<and> of_membership m g \<and> live_grant now g \<and>
     s \<in> set (rg_scopes g) \<and> sc_type s = ScopeOwn}"

definition managed_reach :: "tenancy \<Rightarrow> instant \<Rightarrow> pk \<Rightarrow> (pk \<times> scope_key) set" where
  "managed_reach db now m = {(ro_id (rg_role g), scope_key s) | g s. g \<in> set (td_grants db) \<and> of_membership m g \<and> live_grant now g \<and>
     s \<in> set (rg_scopes g) \<and> sc_type s \<in> set MANAGED_SCOPE_TYPES}"

definition not_expired :: "instant \<Rightarrow> instant option \<Rightarrow> bool" where
  "not_expired now e \<longleftrightarrow> (case e of None \<Rightarrow> True | Some v \<Rightarrow> v > now)"

text \<open>The roles of the plan are live and its expirations in the future.\<close>

definition effective_plan :: "instant \<Rightarrow> grant_plan \<Rightarrow> bool" where
  "effective_plan now plan \<longleftrightarrow>
     (\<forall>s \<in> set (gp_own plan). ro_deleted (os_role s) = None \<and> not_expired now (os_valid_until s)) \<and>
     (\<forall>s \<in> set (gp_managed plan). ro_deleted (ms_role s) = None \<and> not_expired now (ms_valid_until s))"

lemma unclaimed_kept:
  assumes g: "g \<in> set (td_grants db)" and "keyed rg_id (td_grants db)" and "set gs \<subseteq> set (td_grants db)"
  shows "g \<in> set gs \<longleftrightarrow> rg_id g \<in> rg_id ` set gs"
  using assms keyed_inj[OF assms(2)] by blast

text \<open>C9. The write phase implements the plan: whatever live grants the membership had, afterwards it has in its own tenant
  exactly the roles of the plan, and over managed tenants, role by role, exactly the coverage of the plan, provided
  that no role of the plan is deleted and no expiry lies in the past.\<close>

theorem sync_implements_plan:
  assumes run: "sync_membership_grants now' atomic m v db = Inr (db', cs)" and keyed: "keyed rg_id (td_grants db)"
    and valid: "fst (validate_grant_plan db now actor (mb_tenant m) plan (Some m) rv w) = Inr v" and effective: "effective_plan now' plan"
  shows "own_reach db' now' (mb_id m) = (\<lambda>s. ro_id (os_role s)) ` set (gp_own plan) \<and>
    managed_reach db' now' (mb_id m) = {(ro_id (ms_role s), k) | s k. s \<in> set (gp_managed plan) \<and> k \<in> set (desired_scope_keys s)}"
proof -
  have plan: "vp_plan v = plan" and distinct: "distinct (map (\<lambda>s. ro_id (ms_role s)) (gp_managed plan))"
    using valid by (auto elim!: validated_planE dest: shape_and_reach_Nil(3))
  let ?own = "live_own_grants db now' (mb_id m)" and ?specs = "gp_own plan"
  obtain locked db1 new existing rows where shape: "sync_shape now' m v db db' locked db1 new existing rows"
    by (rule sync_shape_exists[OF run keyed distinct[folded plan]])
  note locked = sync_shapeD(2)[OF shape] and db1 = sync_shapeD(3)[OF shape] and new = sync_shapeD(5)[OF shape]
    and keyed1 = sync_shapeD(6)[OF shape] and existing = sync_shapeD(7)[OF shape] and rows = sync_shapeD(9)[OF shape] and final = sync_shapeD(10)[OF shape]
  note follow = direct_grants_follow_plan[OF run keyed distinct[folded plan], unfolded plan]
  have row_live: "\<exists>g \<in> set (td_grants db'). of_membership (mb_id m) g \<and> live_grant now' g \<and> ro_id (rg_role g) = ro_id (ms_role spec) \<and>
      realizes locked (claimed_grant existing spec) spec g" if spec: "spec \<in> set (gp_managed plan)" for spec
  proof -
    obtain g where g: "g \<in> set rows" "realizes locked (claimed_grant existing spec) spec g"
      using list_all2_left[OF rows[unfolded plan] spec] by blast
    have exp: "not_expired now' (rg_valid_until g)" and "ro_deleted (ms_role spec) = None"
      using effective spec realizesD(2)[OF g(2)] by (simp_all add: effective_plan_def)
    have "of_membership (mb_id m) g \<and> ro_deleted (rg_role g) = None \<and> ro_id (rg_role g) = ro_id (ms_role spec)"
    proof (cases "claimed_grant existing spec")
      case None
      then show ?thesis using g(2) locked \<open>ro_deleted (ms_role spec) = None\<close> by (simp add: realizes_def of_membership_def)
    next
      case (Some c)
      then have "c \<in> set existing" "ro_id (rg_role c) = ro_id (ms_role spec)" using claimed_grantD by auto
      then show ?thesis using g(2) Some by (auto simp: realizes_def existing in_live_managed of_membership_def live_grant_def)
    qed
    then show ?thesis using g final exp by (intro bexI[of _ g]) (auto simp: live_grant_def grant_is_active_def not_expired_def)
  qed
  have own_kept: "ro_id (rg_role g) \<in> own_reach db' now' (mb_id m)"
    if g: "g \<in> set (td_grants db1)" "of_membership (mb_id m) g" "live_grant now' g" "s \<in> set (rg_scopes g)" "sc_type s = ScopeOwn" for g s
  proof (cases "rg_id g \<in> set (claims (intended_managed_rows v existing))")
    case True
    then obtain spec c where c: "spec \<in> set (gp_managed plan)" "claimed_grant existing spec = Some c" "rg_id c = rg_id g"
      by (auto simp: intended_managed_rows_def in_map_filter plan)
    then have "c \<in> set existing" using claimed_grantD by blast
    then have "c = g" using c(3) g(1) keyed_inj[OF keyed1] unfolding existing in_live_managed by blast
    obtain h where h: "h \<in> set (td_grants db')" "of_membership (mb_id m) h" "live_grant now' h" "realizes locked (Some g) spec h"
      using row_live[OF c(1)] c(2) \<open>c = g\<close> by auto
    then have "rg_role h = rg_role g" "s \<in> set (filter (\<lambda>s. sc_type s = ScopeOwn) (rg_scopes h))" using g(4,5) by (simp_all add: realizes_def)
    then show ?thesis using h g(5) unfolding own_reach_def by (auto intro!: exI[of _ h] exI[of _ s])
  next
    case False
    define J where "J = rg_id ` set existing - set (claims (intended_managed_rows v existing))"
    obtain h where h: "h \<in> set (td_grants (revoke_all (\<lambda>s. sc_type s \<noteq> ScopeOwn) J db1))" "rg_id h = rg_id g" "rg_role h = rg_role g"
        "of_membership (mb_id m) h" "live_grant now' h" "s \<in> set (rg_scopes h)"
    proof (cases "rg_id g \<in> J")
      case True
      have "without_scopes (\<lambda>s. sc_type s \<noteq> ScopeOwn) g \<noteq> None"
        using g(4,5) by (auto simp: without_scopes_def Let_def filter_empty_conv)
      then obtain h where w: "without_scopes (\<lambda>s. sc_type s \<noteq> ScopeOwn) g = Some h" by blast
      have "h \<in> set (td_grants (revoke_all (\<lambda>s. sc_type s \<noteq> ScopeOwn) J db1))"
        unfolding revoke_all_rows using g(1) True w by (intro bexI[of _ g]) simp_all
      then show ?thesis using that[of h] g kept_grantD[OF w] live_grant_kept[OF w] of_membership_kept[OF w] by simp
    next
      case False
      then have "g \<in> set (td_grants (revoke_all (\<lambda>s. sc_type s \<noteq> ScopeOwn) J db1))"
        unfolding revoke_all_rows using g(1) by (intro bexI[of _ g]) simp_all
      then show ?thesis using that[of g] g by simp
    qed
    then have "h \<in> set (td_grants db')" using False final unfolding J_def by auto
    then show ?thesis using h g(5) unfolding own_reach_def by (auto intro!: exI[of _ h] exI[of _ s])
  qed
  have own_new: "ro_id (os_role spec) \<in> own_reach db' now' (mb_id m)" if spec: "spec \<in> set ?specs" for spec
  proof (cases "surviving ?own spec")
    case True
    then obtain g where g: "g \<in> set ?own" "ro_id (rg_role g) = ro_id (os_role spec)" by (auto simp: surviving_def)
    define I where "I = rg_id ` {g \<in> set ?own. ro_id (rg_role g) \<notin> (\<lambda>s. ro_id (os_role s)) ` set ?specs}"
    have db: "g \<in> set (td_grants db)" using g(1) by (simp add: in_live_own)
    have "rg_id g \<notin> I"
    proof
      assume "rg_id g \<in> I"
      then obtain h where "h \<in> set ?own" "ro_id (rg_role h) \<notin> (\<lambda>s. ro_id (os_role s)) ` set ?specs" "rg_id h = rg_id g" by (auto simp: I_def)
      then have "h = g" "ro_id (rg_role h) \<noteq> ro_id (os_role spec)" using keyed_inj[OF keyed _ db] spec by (auto simp: in_live_own)
      then show False using g(2) by simp
    qed
    then have "g \<in> set (td_grants db1)" using db unfolding db1 plan I_def[symmetric] by (auto simp: revoke_all_rows)
    then show ?thesis using own_kept[of g] g by (auto simp: in_live_own)
  next
    case False
    then obtain g where g: "g \<in> set new" "own_row locked spec g" using new spec unfolding plan by blast
    obtain s where s: "rg_scopes g = [s]" "sc_type s = ScopeOwn" using g(2) by (auto simp: own_row_def scope_key_def)
    have "g \<in> set (td_grants db1)" using g(1) unfolding db1 by simp
    moreover have "of_membership (mb_id m) g" "live_grant now' g" "rg_role g = os_role spec"
      using g(2) locked effective spec
      by (auto simp: own_row_def of_membership_def live_grant_def grant_is_active_def effective_plan_def not_expired_def)
    ultimately show ?thesis using own_kept[of g s] s by simp
  qed
  have "own_reach db' now' (mb_id m) \<subseteq> (\<lambda>s. ro_id (os_role s)) ` set ?specs"
    using follow(1) unfolding own_reach_def by blast
  moreover have "managed_reach db' now' (mb_id m) \<subseteq> {(ro_id (ms_role s), k) | s k. s \<in> set (gp_managed plan) \<and> k \<in> set (desired_scope_keys s)}"
    using follow(2) unfolding managed_reach_def by blast
  moreover have "(ro_id (ms_role spec), k) \<in> managed_reach db' now' (mb_id m)" if spec: "spec \<in> set (gp_managed plan)" "k \<in> set (desired_scope_keys spec)" for spec k
  proof -
    obtain g where g: "g \<in> set (td_grants db')" "of_membership (mb_id m) g" "live_grant now' g" "ro_id (rg_role g) = ro_id (ms_role spec)"
      "realizes locked (claimed_grant existing spec) spec g" using row_live[OF spec(1)] by blast
    have "k \<in> scope_key ` {s \<in> set (rg_scopes g). sc_type s \<noteq> ScopeOwn}" using g(5) spec(2) unfolding realizes_def by blast
    then obtain s where s: "s \<in> set (rg_scopes g)" "scope_key s = k" by blast
    moreover have "sc_type s \<in> set MANAGED_SCOPE_TYPES" using desired_types[OF spec(2)] s(2) by (auto simp: scope_key_def)
    ultimately show ?thesis using g(1-4) unfolding managed_reach_def mem_Collect_eq by (intro exI[of _ g] exI[of _ s]) simp
  qed
  ultimately show ?thesis using own_new by blast
qed

text \<open>C10. Grants of anybody else, and grants that have expired or whose role is deleted, are left exactly as they are;
  nothing is created for anybody else.\<close>

theorem sync_touches_nothing_else:
  assumes run: "sync_membership_grants now' atomic m v db = Inr (db', cs)" and keyed: "keyed rg_id (td_grants db)"
    and valid: "fst (validate_grant_plan db now actor (mb_tenant m) plan (Some m) rv w) = Inr v"
  shows "td_tenants db' = td_tenants db \<and> td_groups db' = td_groups db \<and> td_memberships db' = td_memberships db \<and>
    {g \<in> set (td_grants db). \<not> (of_membership (mb_id m) g \<and> live_grant now' g)} \<subseteq> set (td_grants db') \<and>
    {g \<in> set (td_grants db'). \<not> of_membership (mb_id m) g} \<subseteq> set (td_grants db)"
proof -
  have plan: "vp_plan v = plan" and distinct: "distinct (map (\<lambda>s. ro_id (ms_role s)) (gp_managed plan))"
    using valid by (auto elim!: validated_planE dest: shape_and_reach_Nil(3))
  let ?own = "live_own_grants db now' (mb_id m)"
  obtain locked db1 new existing rows where shape: "sync_shape now' m v db db' locked db1 new existing rows"
    by (rule sync_shape_exists[OF run keyed distinct[folded plan]])
  note locked = sync_shapeD(2)[OF shape] and db1 = sync_shapeD(3)[OF shape] and new = sync_shapeD(4)[OF shape]
    and keyed1 = sync_shapeD(6)[OF shape] and existing = sync_shapeD(7)[OF shape] and rows = sync_shapeD(9)[OF shape] and final = sync_shapeD(10)[OF shape]
  define I where "I = rg_id ` {g \<in> set ?own. ro_id (rg_role g) \<notin> (\<lambda>s. ro_id (os_role s)) ` set (gp_own (vp_plan v))}"
  define C where "C = set (claims (intended_managed_rows v existing))"
  have C: "C \<subseteq> rg_id ` set existing"
  proof
    fix i assume "i \<in> C"
    then obtain spec c where "claimed_grant existing spec = Some c" "i = rg_id c" by (auto simp: C_def intended_managed_rows_def in_map_filter)
    then show "i \<in> rg_id ` set existing" using claimed_grantD by blast
  qed
  have "g \<in> set (td_grants db')" if g: "g \<in> set (td_grants db)" "\<not> (of_membership (mb_id m) g \<and> live_grant now' g)" for g
  proof -
    have "rg_id g \<notin> I"
    proof
      assume "rg_id g \<in> I"
      then obtain h where "h \<in> set ?own" "rg_id h = rg_id g" by (auto simp: I_def)
      then have "h = g" using keyed_inj[OF keyed _ g(1)] by (auto simp: in_live_own)
      then show False using \<open>h \<in> set ?own\<close> g(2) by (simp add: in_live_own)
    qed
    then have g1: "g \<in> set (td_grants db1)" using g(1) unfolding db1 I_def[symmetric] by (auto simp: revoke_all_rows)
    have "rg_id g \<notin> rg_id ` set existing"
    proof
      assume "rg_id g \<in> rg_id ` set existing"
      then obtain h where "h \<in> set existing" "rg_id h = rg_id g" by auto
      then have "h = g" using keyed_inj[OF keyed1 _ g1] by (auto simp: existing in_live_managed)
      then show False using \<open>h \<in> set existing\<close> g(2) by (simp add: existing in_live_managed)
    qed
    then show ?thesis using g1 C unfolding final C_def[symmetric] by (auto simp: revoke_all_rows)
  qed
  moreover have "g \<in> set (td_grants db)" if g: "g \<in> set (td_grants db')" "\<not> of_membership (mb_id m) g" for g
  proof -
    have "g \<notin> set rows"
    proof
      assume "g \<in> set rows"
      then obtain spec where "realizes locked (claimed_grant existing spec) spec g" using list_all2_right[OF rows] by blast
      then show False using g(2) locked claimed_grantD[of existing spec]
        by (cases "claimed_grant existing spec") (auto simp: realizes_def of_membership_def existing in_live_managed)
    qed
    then obtain h where h: "h \<in> set (td_grants db1)" "if rg_id h \<in> rg_id ` set existing - C then without_scopes (\<lambda>s. sc_type s \<noteq> ScopeOwn) h = Some g else g = h"
      using g(1) unfolding final C_def[symmetric] by (auto simp: revoke_all_rows)
    have "rg_id h \<notin> rg_id ` set existing"
    proof
      assume "rg_id h \<in> rg_id ` set existing"
      then obtain k where "k \<in> set existing" "rg_id k = rg_id h" by auto
      then have "h \<in> set existing" using keyed_inj[OF keyed1 _ h(1)] by (auto simp: existing in_live_managed)
      then show False using g(2) h(2) by (auto simp: existing in_live_managed dest: of_membership_kept split: if_split_asm)
    qed
    then have "g = h" using h(2) by (simp split: if_split_asm)
    moreover have "h \<notin> set new" using new g(2) locked \<open>g = h\<close> by (fastforce simp: own_row_def of_membership_def)
    ultimately have "g \<in> set (td_grants (revoke_all (\<lambda>s. sc_type s = ScopeOwn) I db))" using h(1) unfolding db1 I_def[symmetric] by simp
    then obtain k where k: "k \<in> set (td_grants db)" "if rg_id k \<in> I then without_scopes (\<lambda>s. sc_type s = ScopeOwn) k = Some g else g = k"
      unfolding revoke_all_rows by blast
    have "rg_id k \<notin> I"
    proof
      assume "rg_id k \<in> I"
      then obtain h where "h \<in> set ?own" "rg_id h = rg_id k" by (auto simp: I_def)
      then have "k \<in> set ?own" using keyed_inj[OF keyed _ k(1)] by (auto simp: in_live_own)
      then show False using g(2) k(2) \<open>rg_id k \<in> I\<close> by (auto simp: in_live_own dest: of_membership_kept)
    qed
    then show ?thesis using k by simp
  qed
  moreover have "same_rest db db'" using sync_shapeD(8)[OF shape] by blast
  ultimately show ?thesis by (auto simp: same_rest_def)
qed

section \<open>A plan written\<close>

text \<open>A technician with a grant over one customer gets the same role in the provider as well; an outdated grant of
  another role is withdrawn.\<close>

definition visitor_role :: role where
  "visitor_role = sample_role\<lparr>ro_id := 23, ro_name := ''Visitor''\<rparr>"

definition plan_tenancy :: tenancy where
  "plan_tenancy = sample_tenancy\<lparr>td_memberships := [sample_member, technician],
     td_grants := [granting_grant, coverage_grant, coverage_grant\<lparr>rg_id := 14, rg_role := visitor_role\<rparr>]\<rparr>"

definition sample_plan :: grant_plan where
  "sample_plan = \<lparr>gp_own = [\<lparr>os_role = sample_role, os_reason = [], os_valid_until = None\<rparr>],
     gp_managed = [\<lparr>ms_role = sample_role, ms_scope = CoverExplicit, ms_grant_id = Some 13, ms_scope_group = None, ms_tenants = [sample_customer],
       ms_reason = [], ms_valid_until = None, ms_row_index = Some 0\<rparr>]\<rparr>"

definition sample_validated :: validated_plan where
  "sample_validated = \<lparr>vp_principal_tenant = sample_provider, vp_membership = Some 6, vp_plan = sample_plan, vp_actor = Some sample_user,
     vp_revalidate = False, vp_own_role_ids = [], vp_managed_grant_ids = [13, 14]\<rparr>"

lemma sample_plan_valid:
  "fst (validate_grant_plan plan_tenancy 50 (Some sample_user) (mb_tenant technician) sample_plan (Some technician) False sample_world) = Inr sample_validated"
  by code_simp

definition sample_sync :: "sync_error + tenancy \<times> grant_change list" where
  "sample_sync = sync_membership_grants 50 True technician sample_validated plan_tenancy"

lemma sample_sync_runs:
  "case sample_sync of Inl _ \<Rightarrow> False
   | Inr (db, cs) \<Rightarrow> map (\<lambda>c. (gc_action c, gc_grant c)) cs = [(GrantCreated, 15), (GrantRevoked, 14), (GrantUnchanged, 13)] \<and>
       map rg_id (td_grants db) = [12, 13, 15] \<and>
       list_ex (\<lambda>g. rg_id g = 13 \<and> of_membership 6 g \<and> covers_tenant (walk_desc sample_groups) 500 g sample_customer \<and>
         set (ro_permissions (rg_role g)) = {Perm ''assets.view_asset''}) (td_grants db)"
  by code_simp


lemma plan_tenancy_ok:
  "world_ok plan_tenancy now uid sample_world" "memo_current plan_tenancy now uid (w_memo sample_world)" "tenants_embedded plan_tenancy"
  "td_tenants plan_tenancy = [sample_provider, sample_customer, sample_stranger]" "td_groups plan_tenancy = sample_groups"
  "keyed rg_id (td_grants plan_tenancy)" "find_row mb_id (mb_id technician) (td_memberships plan_tenancy) = Some technician"
  "mb_tenant technician = sample_provider" "mb_id technician = 6" "roles_agree plan_tenancy sample_plan"
  "keyed tn_id (td_tenants plan_tenancy)"
proof -
  show "world_ok plan_tenancy now uid sample_world" using sample_keyed
    by (simp add: plan_tenancy_def world_ok_def sample_world_def sample_ctx_def sample_tenancy_def cache_sound_def)
  show "memo_current plan_tenancy now uid (w_memo sample_world)" by (simp add: sample_world_def)
  show "tenants_embedded plan_tenancy" using sample_keyed
    by (simp add: tenants_embedded_def plan_tenancy_def sample_tenancy_def granting_rows visitor_role_def) (simp add: keyed_def sample_groups_def)
  show "roles_agree plan_tenancy sample_plan"
    by (simp add: roles_agree_def plan_roles_def plan_tenancy_def sample_tenancy_def sample_plan_def granting_rows visitor_role_def)
  show "keyed tn_id (td_tenants plan_tenancy)" using sample_keyed by (simp add: plan_tenancy_def sample_tenancy_def)
qed (simp_all add: plan_tenancy_def sample_tenancy_def keyed_def granting_rows)

lemma plan_tenancy_rows:
  "h \<in> set (td_grants plan_tenancy) \<Longrightarrow> rg_membership h = Some x \<Longrightarrow> mb_id x = mb_id technician \<Longrightarrow> x = technician"
  "h \<in> set (td_grants plan_tenancy) \<Longrightarrow> of_membership (mb_id technician) h \<Longrightarrow> rg_membership h = Some technician \<and> rg_user_group h = None"
  by (auto simp: plan_tenancy_def of_membership_def granting_rows)

lemma sample_synced:
  obtains db cs where "sync_membership_grants 50 True technician sample_validated plan_tenancy = Inr (db, cs)"
    "\<exists>g \<in> set (td_grants db). of_membership 6 g \<and> covers_tenant (walk_desc sample_groups) 500 g sample_customer \<and>
       set (ro_permissions (rg_role g)) = {Perm ''assets.view_asset''}"
  using sample_sync_runs that unfolding sample_sync_def by (auto simp: list_ex_iff split: sum.splits)

theorem plan_never_escalates_witness: "Perm ''assets.view_asset'' \<in> held plan_tenancy 50 9 sample_customer"
proof -
  obtain db cs where run: "sync_membership_grants 50 True technician sample_validated plan_tenancy = Inr (db, cs)"
    and ex: "\<exists>g \<in> set (td_grants db). of_membership 6 g \<and> covers_tenant (walk_desc sample_groups) 500 g sample_customer \<and>
       set (ro_permissions (rg_role g)) = {Perm ''assets.view_asset''}" by (rule sample_synced)
  then obtain g where g: "g \<in> set (td_grants db)" "of_membership 6 g" "covers_tenant (walk_desc sample_groups) 500 g sample_customer"
    "set (ro_permissions (rg_role g)) = {Perm ''assets.view_asset''}" by blast
  show ?thesis
    using plan_never_escalates[OF plan_tenancy_ok(1-3) granting_ok(7) _ plan_tenancy_ok(7,6) plan_tenancy_rows(1) plan_tenancy_ok(10)
        sample_plan_valid run _ g(1), where later = 500 and t = sample_customer] g granting_ok(8)
    by (simp add: plan_tenancy_ok) (simp add: tn_live_def sample_customer_def)
qed

theorem sync_implements_plan_witness:
  "case sync_membership_grants 50 True technician sample_validated plan_tenancy of Inl _ \<Rightarrow> False
   | Inr (db, cs) \<Rightarrow> own_reach db 50 6 = {7} \<and> managed_reach db 50 6 = {(7, ScopeTenant, Some 2, None)}"
proof -
  obtain db cs where run: "sync_membership_grants 50 True technician sample_validated plan_tenancy = Inr (db, cs)"
    by (rule sample_synced)
  have "effective_plan 50 sample_plan" by (simp add: effective_plan_def sample_plan_def sample_role_def not_expired_def)
  note reach = sync_implements_plan[OF run plan_tenancy_ok(6) sample_plan_valid this]
  show ?thesis using reach by (simp add: run plan_tenancy_ok(9)) (auto simp: sample_plan_def sample_role_def desired_scope_keys_def sample_customer_def)
qed

theorem sync_touches_nothing_else_witness:
  "case sync_membership_grants 50 True technician sample_validated plan_tenancy of Inl _ \<Rightarrow> False
   | Inr (db, cs) \<Rightarrow> granting_grant \<in> set (td_grants db)"
proof -
  obtain db cs where run: "sync_membership_grants 50 True technician sample_validated plan_tenancy = Inr (db, cs)"
    by (rule sample_synced)
  have "granting_grant \<in> set (td_grants plan_tenancy)" "\<not> of_membership (mb_id technician) granting_grant"
    by (simp_all add: plan_tenancy_def of_membership_def granting_rows)
  then show ?thesis using sync_touches_nothing_else[OF run plan_tenancy_ok(6) sample_plan_valid] by (auto simp: run)
qed

end
