(* ===== verification/PlanProgress.thy ===== *)
theory PlanProgress
  imports GrantPlanSafety
begin

text \<open>
  A validated plan is always applied: none of the saves of the write phase is refused.  What the read-only
  checks accept is what \<open>RoleGrant.clean\<close> and \<open>RoleGrantScope.clean\<close> accept.
\<close>

section \<open>Saves that pass\<close>

lemma role_grant_clean_passes:
  assumes "rg_membership g = Some m" and "rg_user_group g = None" and "role_assignable_in (rg_role g) (mb_tenant m)"
    and "role_is_privileged (rg_role g) \<Longrightarrow> check_elevated (rg_reason g) (rg_valid_until g) now row = []"
  shows "role_grant_clean now g = Inr ()"
proof -
  have avail: "\<not> (tn_id (ro_tenant (rg_role g)) \<noteq> tn_id (mb_tenant m) \<and>
      \<not> (ro_shared_with_managed (rg_role g) \<and> tn_is_provider (ro_tenant (rg_role g)) \<and>
         tn_managed_by (mb_tenant m) = Some (tn_id (ro_tenant (rg_role g)))))"
    using assms(3) by (auto simp: role_assignable_in_def split: if_split_asm)
  have elevated: "py_strip (rg_reason g) \<noteq> [] \<and> expiry_problem_of now (rg_valid_until g) = None" if "role_is_privileged (rg_role g)"
    using assms(4)[OF that] by (auto simp: check_elevated_def expiry_problem_of_def split: option.splits if_split_asm)
  show ?thesis using avail elevated assms(1,2) by (auto simp: role_grant_clean_def principal_tenant_id_def Let_def)
qed

text \<open>A scope is judged by the header of its grant.\<close>

lemma scope_clean_header:
  assumes "rg_membership g' = rg_membership g" "rg_user_group g' = rg_user_group g" "rg_role g' = rg_role g"
  shows "role_grant_scope_clean ts b (Some g') s = role_grant_scope_clean ts b (Some g) s"
proof -
  have "principal_tenant_id g' = principal_tenant_id g" unfolding principal_tenant_id_def assms by (rule HOL.refl)
  then show ?thesis unfolding role_grant_scope_clean_def option.case assms by simp
qed

lemma create_scopes_succeed:
  "find_row rg_id i (td_grants db) = Some g \<Longrightarrow> distinct ks \<Longrightarrow> set ks \<inter> scope_key ` set (rg_scopes g) = {} \<Longrightarrow>
     (\<And>s. scope_key s \<in> set ks \<Longrightarrow> role_grant_scope_clean (td_tenants db) False (Some g) s = Inr ()) \<Longrightarrow>
     \<exists>db'. each (create_scope i) ks db = Inr db'"
proof (induction ks arbitrary: db g)
  case (Cons k ks)
  let ?s = "\<lparr>sc_id = next_id (concat (map (\<lambda>g. map sc_id (rg_scopes g)) (td_grants db))), sc_type = fst k, sc_tenant = fst (snd k), sc_group = snd (snd k)\<rparr>"
  let ?f = "\<lambda>g. g\<lparr>rg_scopes := rg_scopes g @ [?s]\<rparr>"
  have key: "scope_key ?s = k" by (simp add: scope_key_def)
  have one: "create_scope i k db = Inr (change_grant ?f i db)"
    using Cons.prems(1,3) Cons.prems(4)[of ?s] key by (auto simp: create_scope_def Let_def)
  have row: "find_row rg_id i (td_grants (change_grant ?f i db)) = Some (?f g)"
  proof -
    have "find_row rg_id i gs = Some g \<Longrightarrow> find_row rg_id i (map (\<lambda>h. if rg_id h = i then ?f h else h) gs) = Some (?f g)" for gs
      by (induction gs) (auto split: if_split_asm)
    then show ?thesis using Cons.prems(1) by simp
  qed
  have "\<exists>db'. each (create_scope i) ks (change_grant ?f i db) = Inr db'"
  proof (rule Cons.IH[OF row])
    show "distinct ks" using Cons.prems(2) by simp
    show "set ks \<inter> scope_key ` set (rg_scopes (?f g)) = {}" using Cons.prems(2,3) key by auto
    fix s assume "scope_key s \<in> set ks"
    then show "role_grant_scope_clean (td_tenants (change_grant ?f i db)) False (Some (?f g)) s = Inr ()"
      using Cons.prems(4)[of s] scope_clean_header[of "?f g" g] by simp
  qed
  then show ?case using one by simp
qed simp

lemma own_scope_passes:
  assumes "rg_membership g = Some m" and "role_assignable_in (rg_role g) (mb_tenant m)" and "scope_key s = (ScopeOwn, None, None)"
  shows "role_grant_scope_clean ts False (Some g) s = Inr ()"
proof -
  have s: "sc_type s = ScopeOwn" "sc_tenant s = None" "sc_group s = None" using assms(3) by (simp_all add: scope_key_def)
  then have "scope_shape s = Inr ()" by (simp add: scope_shape_def)
  then show ?thesis using assms(1,2) s
    by (auto simp: role_grant_scope_clean_def principal_tenant_id_def role_assignable_in_def split: if_split_asm)
qed

lemma managed_scope_passes:
  assumes g: "rg_membership g = Some m" "rg_role g = ms_role spec" and row: "sound_row db w (mb_tenant m) spec"
    and tenants: "keyed tn_id ts" "set (ms_tenants spec) \<subseteq> set ts" and key: "scope_key s \<in> set (desired_scope_keys spec)"
  shows "role_grant_scope_clean ts False (Some g) s = Inr ()"
proof -
  have owner: "principal_tenant_id g = Some (tn_id (ro_tenant (rg_role g)))" "tn_is_provider (ro_tenant (rg_role g))"
    using g row by (simp_all add: principal_tenant_id_def sound_row_def)
  consider (all) "scope_key s = (ScopeAllManaged, None, None)"
    | (group) tg where "scope_key s = (ScopeTenantGroup, None, Some tg)"
    | (tenant) t where "t \<in> set (ms_tenants spec)" "scope_key s = (ScopeTenant, Some (tn_id t), None)" "tn_managed_by t = Some (tn_id (mb_tenant m))"
    using key row
    by (cases "ms_scope spec")
      (auto simp: desired_scope_keys_def sound_row_def managed_row_coverage_def managed_group_coverage_def managed_explicit_coverage_def
          Let_def filter_empty_conv split: option.splits if_split_asm)
  then show ?thesis
  proof cases
    case all
    then have "sc_type s = ScopeAllManaged" "scope_shape s = Inr ()" by (simp_all add: scope_key_def scope_shape_def)
    then show ?thesis using owner by (simp add: role_grant_scope_clean_def)
  next
    case group
    then have "sc_type s = ScopeTenantGroup" "scope_shape s = Inr ()" by (simp_all add: scope_key_def scope_shape_def)
    then show ?thesis using owner by (simp add: role_grant_scope_clean_def)
  next
    case tenant
    then have s: "sc_type s = ScopeTenant" "sc_tenant s = Some (tn_id t)" "scope_shape s = Inr ()" by (simp_all add: scope_key_def scope_shape_def)
    have "find_row tn_id (tn_id t) ts = Some t" using find_row_mem[OF tenants(1)] tenants(2) tenant(1) by blast
    moreover have "tn_managed_by t = principal_tenant_id g" using tenant(3) g(1) by (simp add: principal_tenant_id_def)
    ultimately show ?thesis using owner s by (simp add: role_grant_scope_clean_def)
  qed
qed


section \<open>Passes that succeed\<close>

lemma each_succeeds:
  assumes "\<And>x s. x \<in> set xs \<Longrightarrow> \<exists>s'. f x s = Inr s'"
  shows "\<exists>s'. each f xs s = Inr s'"
  using assms
proof (induction xs arbitrary: s)
  case (Cons x xs)
  obtain s1 where "f x s = Inr s1" using Cons.prems[of x s] by auto
  moreover obtain s' where "each f xs s1 = Inr s'" using Cons.IH[of s1] Cons.prems by auto
  ultimately show ?case by simp
qed simp

lemma create_own_succeeds:
  assumes "role_assignable_in (os_role spec) (mb_tenant m)"
    and "\<not> surviving existing spec \<Longrightarrow> role_is_privileged (os_role spec) \<Longrightarrow> check_elevated (os_reason spec) (os_valid_until spec) now None = []"
  shows "\<exists>s'. create_own now m existing spec s = Inr s'"
proof -
  obtain db cs where s: "s = (db, cs)" by force
  show ?thesis
  proof (cases "List.find (\<lambda>g. ro_id (rg_role g) = ro_id (os_role spec)) existing")
    case (Some g)
    then show ?thesis by (simp add: s create_own_def)
  next
    case None
    then have "\<not> surviving existing spec" by (auto simp: surviving_def find_None_iff)
    let ?priv = "role_is_privileged (os_role spec)"
    define g where "g = \<lparr>rg_id = next_id (map rg_id (td_grants db)), rg_membership = Some m, rg_user_group = None, rg_role = os_role spec,
               rg_scopes = [], rg_reason = (if ?priv then os_reason spec else []), rg_valid_until = (if ?priv then os_valid_until spec else None)\<rparr>"
    have clean: "role_grant_clean now g = Inr ()"
      using assms \<open>\<not> surviving existing spec\<close> by (intro role_grant_clean_passes[of g m now None]) (simp_all add: g_def)
    let ?db = "db\<lparr>td_grants := td_grants db @ [g]\<rparr>"
    have one: "create_grant now m (os_role spec) (if ?priv then os_reason spec else []) (if ?priv then os_valid_until spec else None) db = Inr (g, ?db)"
      using clean unfolding create_grant_def Let_def g_def by simp
    have "rg_id g \<notin> rg_id ` set (td_grants db)" using next_id_new[of "map rg_id (td_grants db)"] by (simp add: g_def)
    then have row: "find_row rg_id (rg_id g) (td_grants ?db) = Some g" by (simp add: find_row_append find_row_None_iff[THEN iffD2])
    have "\<exists>db'. each (create_scope (rg_id g)) [(ScopeOwn, None, None)] ?db = Inr db'"
      using row assms(1) by (intro create_scopes_succeed[OF row]) (auto simp: g_def intro: own_scope_passes)
    then obtain db' where "create_scope (rg_id g) (ScopeOwn, None, None) ?db = Inr db'" by (auto simp: bindE_eq_Inr)
    then show ?thesis using None one by (simp add: s create_own_def Let_def)
  qed
qed

text \<open>What the plan and the tables guarantee of a row.\<close>

definition ready_row :: "instant \<Rightarrow> tenant list \<Rightarrow> membership \<Rightarrow> role_grant option \<Rightarrow> managed_grant_spec \<Rightarrow> bool" where
  "ready_row now ts m claimed spec \<longleftrightarrow> (\<exists>db w. sound_row db w (mb_tenant m) spec) \<and> set (ms_tenants spec) \<subseteq> set ts \<and>
     (role_is_privileged (ms_role spec) \<longrightarrow> check_elevated (ms_reason spec) (ms_valid_until spec) now (ms_row_index spec) = []) \<and>
     (\<forall>c. claimed = Some c \<longrightarrow> rg_membership c = Some m \<and> rg_user_group c = None \<and> rg_role c = ms_role spec)"

lemma upsert_succeeds:
  assumes "ready_row now ts m claimed spec"
  shows "\<exists>g a db'. upsert_managed_grant now m claimed spec db = Inr (g, a, db') \<and>
    rg_membership g = Some m \<and> rg_user_group g = None \<and> rg_role g = ms_role spec"
proof -
  have assignable: "role_assignable_in (ms_role spec) (mb_tenant m)"
    using assms by (auto simp: ready_row_def sound_row_def role_assignable_in_def)
  have elevated: "role_is_privileged (ms_role spec) \<Longrightarrow> check_elevated (ms_reason spec) (ms_valid_until spec) now (ms_row_index spec) = []"
    using assms by (simp add: ready_row_def)
  show ?thesis
  proof (cases claimed)
    case None
    define g where "g = \<lparr>rg_id = next_id (map rg_id (td_grants db)), rg_membership = Some m, rg_user_group = None, rg_role = ms_role spec,
               rg_scopes = [], rg_reason = ms_reason spec, rg_valid_until = ms_valid_until spec\<rparr>"
    have "role_grant_clean now g = Inr ()"
      using assignable elevated by (intro role_grant_clean_passes[of g m now "ms_row_index spec"]) (simp_all add: g_def)
    then have "create_grant now m (ms_role spec) (ms_reason spec) (ms_valid_until spec) db = Inr (g, db\<lparr>td_grants := td_grants db @ [g]\<rparr>)"
      unfolding create_grant_def Let_def g_def by simp
    then show ?thesis using None by (simp add: upsert_managed_grant_def) (simp add: g_def)
  next
    case (Some c)
    have c: "rg_membership c = Some m" "rg_user_group c = None" "rg_role c = ms_role spec" using assms Some by (simp_all add: ready_row_def)
    let ?upd = "\<lambda>g. g\<lparr>rg_reason := ms_reason spec, rg_valid_until := ms_valid_until spec\<rparr>"
    have "role_grant_clean now (?upd c) = Inr ()"
      using c assignable elevated by (intro role_grant_clean_passes[of "?upd c" m now "ms_row_index spec"]) simp_all
    then show ?thesis using Some c by (simp add: upsert_managed_grant_def Let_def)
  qed
qed

lemma sync_managed_row_succeeds:
  assumes ready: "ready_row now (td_tenants db) m claimed spec" and keyed: "keyed rg_id (td_grants db)" "keyed tn_id (td_tenants db)"
    and claimed: "\<And>c. claimed = Some c \<Longrightarrow> c \<in> set (td_grants db)"
  shows "\<exists>s'. sync_managed_row now m (claimed, spec) (db, cs) = Inr s'"
proof -
  obtain g a db1 where one: "upsert_managed_grant now m claimed spec db = Inr (g, a, db1)"
    and head: "rg_membership g = Some m" "rg_user_group g = None" "rg_role g = ms_role spec" using upsert_succeeds[OF ready] by blast
  have up: "same_rest db db1" "g \<in> set (td_grants db1)" "keyed rg_id (td_grants db1)" using upsertE[OF one keyed(1) claimed] by simp_all
  let ?desired = "desired_scope_keys spec"
  let ?keep = "\<lambda>g. g\<lparr>rg_scopes := filter (\<lambda>s. sc_type s = ScopeOwn \<or> scope_key s \<in> set ?desired) (rg_scopes g)\<rparr>"
  let ?missing = "filter (\<lambda>k. k \<notin> set (map scope_key (filter (\<lambda>s. sc_type s \<noteq> ScopeOwn) (rg_scopes g)))) ?desired"
  let ?db2 = "change_grant ?keep (rg_id g) db1"
  have "td_grants ?db2 = put_grant (?keep g) (td_grants db1)" using change_grant_put[OF up(3,2), of ?keep] by simp
  moreover have "?keep g \<in> set (put_grant (?keep g) (td_grants db1))" using up(2) by (auto simp: put_grant_def image_iff)
  ultimately have row: "find_row rg_id (rg_id g) (td_grants ?db2) = Some (?keep g)"
    using find_row_mem[of rg_id "put_grant (?keep g) (td_grants db1)" "?keep g"] up(3) by simp
  have "\<exists>db'. each (create_scope (rg_id g)) ?missing ?db2 = Inr db'"
  proof (rule create_scopes_succeed[OF row])
    show "distinct ?missing" by (auto simp: desired_scope_keys_def split: managed_scope.splits)
    show "set ?missing \<inter> scope_key ` set (rg_scopes (?keep g)) = {}"
      using desired_types managed_types_not_own by (fastforce simp: scope_key_def)
    fix s assume "scope_key s \<in> set ?missing"
    then have key: "scope_key s \<in> set ?desired" by simp
    obtain db0 w where "sound_row db0 w (mb_tenant m) spec" using ready by (auto simp: ready_row_def)
    then show "role_grant_scope_clean (td_tenants ?db2) False (Some (?keep g)) s = Inr ()"
      using head keyed(2) ready up(1) key by (intro managed_scope_passes[of _ m spec db0 w]) (simp_all add: same_rest_def ready_row_def)
  qed
  then show ?thesis using one by (auto simp: sync_managed_row_def Let_def)
qed

lemma sync_managed_rows_succeed:
  "keyed rg_id (td_grants (fst s)) \<Longrightarrow> keyed tn_id (td_tenants (fst s)) \<Longrightarrow> set (List.map_filter fst kept) \<subseteq> set (td_grants (fst s)) \<Longrightarrow>
     distinct (claims kept) \<Longrightarrow> (\<forall>x \<in> set kept. ready_row now (td_tenants (fst s)) m (fst x) (snd x)) \<Longrightarrow>
     \<exists>s'. each (sync_managed_row now m) kept s = Inr s'"
proof (induction kept arbitrary: s)
  case (Cons x kept)
  obtain c spec db cs where x: "x = (c, spec)" "s = (db, cs)" by (metis surj_pair)
  have c: "c' \<in> set (td_grants db)" if "c = Some c'" for c' using Cons.prems(3) that x by (simp add: map_filter_simps)
  have keyed: "keyed rg_id (td_grants db)" "keyed tn_id (td_tenants db)" using Cons.prems(1,2) x by simp_all
  obtain db1 cs1 where one: "sync_managed_row now m (c, spec) (db, cs) = Inr (db1, cs1)"
    using sync_managed_row_succeeds[OF _ keyed, of now m c spec cs] c Cons.prems(5) x by fastforce
  have desired: "\<forall>k \<in> set (desired_scope_keys spec). fst k \<noteq> ScopeOwn" using desired_types managed_types_not_own by blast
  obtain g where g: "same_rest db db1" "keyed rg_id (td_grants db1)" "placed c g (td_grants db) (td_grants db1)"
    using sync_managed_rowE[OF one keyed(1) c desired] by blast
  have "\<forall>c'. c = Some c' \<longrightarrow> c' \<in> set (td_grants db)" using c by blast
  note others = placed_rows(1)[OF g(3) keyed(1) this]
  have "set (List.map_filter fst kept) \<subseteq> set (td_grants db1)"
  proof
    fix d assume d: "d \<in> set (List.map_filter fst kept)"
    then have "rg_id d \<in> set (claims kept)" by simp
    then have "rg_id d \<noteq> rg_id c'" if "c = Some c'" for c' using Cons.prems(4) x that by (auto simp: map_filter_simps)
    moreover have "d \<in> set (td_grants db)" using Cons.prems(3) d x by (auto simp: map_filter_simps split: option.splits)
    ultimately show "d \<in> set (td_grants db1)" unfolding others by blast
  qed
  moreover have "distinct (claims kept)" using Cons.prems(4) x by (auto simp: map_filter_simps split: option.splits)
  ultimately have "\<exists>s'. each (sync_managed_row now m) kept (db1, cs1) = Inr s'"
    using Cons.IH[of "(db1, cs1)"] g Cons.prems(5) keyed(2) x by (simp add: same_rest_def)
  then show ?case using one x by simp
qed simp


lemma concat_map_Nil: "concat (map f xs) = [] \<Longrightarrow> x \<in> set xs \<Longrightarrow> f x = []"
  by auto

lemma elevated_metadata_Nil:
  assumes "elevated_metadata now plan ids = []"
  shows "s \<in> set (gp_own plan) \<Longrightarrow> ro_id (os_role s) \<notin> set ids \<Longrightarrow> role_is_privileged (os_role s) \<Longrightarrow>
      check_elevated (os_reason s) (os_valid_until s) now None = []"
    and "x \<in> set (gp_managed plan) \<Longrightarrow> role_is_privileged (ms_role x) \<Longrightarrow>
      check_elevated (ms_reason x) (ms_valid_until x) now (ms_row_index x) = []"
proof -
  note parts = assms[unfolded elevated_metadata_def append_is_Nil_conv]
  show "s \<in> set (gp_own plan) \<Longrightarrow> ro_id (os_role s) \<notin> set ids \<Longrightarrow> role_is_privileged (os_role s) \<Longrightarrow>
      check_elevated (os_reason s) (os_valid_until s) now None = []"
    using concat_map_Nil[OF conjunct1[OF parts], of s] by simp
  show "x \<in> set (gp_managed plan) \<Longrightarrow> role_is_privileged (ms_role x) \<Longrightarrow>
      check_elevated (ms_reason x) (ms_valid_until x) now (ms_row_index x) = []"
    using concat_map_Nil[OF conjunct2[OF parts], of x] by simp
qed

text \<open>C11. A plan that was validated for a membership is written in full: at the moment of its validation the write phase
  raises neither a concurrency error nor a validation error from any of its saves.\<close>

theorem validated_plan_applies:
  assumes keyed: "keyed rg_id (td_grants db)" "keyed tn_id (td_tenants db)" and m: "find_row mb_id (mb_id m) (td_memberships db) = Some m"
    and rows: "\<And>h. h \<in> set (td_grants db) \<Longrightarrow> of_membership (mb_id m) h \<Longrightarrow> rg_membership h = Some m \<and> rg_user_group h = None"
    and agree: "roles_agree db plan" and tenants: "\<And>s. s \<in> set (gp_managed plan) \<Longrightarrow> set (ms_tenants s) \<subseteq> set (td_tenants db)"
    and valid: "fst (validate_grant_plan db now actor (mb_tenant m) plan (Some m) rv w) = Inr v"
  shows "\<exists>db' changes. sync_membership_grants now True m v db = Inr (db', changes)"
proof -
  let ?own = "live_own_grants db now (mb_id m)"
  obtain w1 w2 where v: "v = \<lparr>vp_principal_tenant = mb_tenant m, vp_membership = map_option mb_id (Some m), vp_plan = plan, vp_actor = actor, vp_revalidate = rv,
       vp_own_role_ids = fst (live_rows db now (Some m)), vp_managed_grant_ids = snd (live_rows db now (Some m))\<rparr>"
    and shape: "shape_and_reach db w (mb_tenant m) plan = []" and elevated: "elevated_metadata now plan (fst (live_rows db now (Some m))) = []"
    by (rule validated_planE[OF valid])
  note shapes = shape_and_reach_Nil[OF shape]
  have own_ok: "check_elevated (os_reason s) (os_valid_until s) now None = []"
    if "s \<in> set (gp_own plan)" "\<not> surviving ?own s" "role_is_privileged (os_role s)" for s
  proof -
    have "ro_id (os_role s) \<notin> set (fst (live_rows db now (Some m)))" using that(2) by (auto simp: live_rows_def surviving_def)
    then show ?thesis by (rule elevated_metadata_Nil(1)[OF elevated that(1) _ that(3)])
  qed
  note managed_ok = elevated_metadata_Nil(2)[OF elevated]
  define R where "R = revoke_own (map (\<lambda>s. ro_id (os_role s)) (gp_own plan)) ?own (db, [])"
  have R: "fst R = revoke_all (\<lambda>s. sc_type s = ScopeOwn) (rg_id ` {g \<in> set ?own. ro_id (rg_role g) \<notin> set (map (\<lambda>s. ro_id (os_role s)) (gp_own plan))}) db"
    unfolding R_def by (rule revoke_own_eq)
  have one_own: "\<exists>s'. create_own now m ?own s x = Inr s'" if "s \<in> set (gp_own plan)" for s x
    using that shapes(1) own_ok[OF that] by (intro create_own_succeeds) simp_all
  obtain s1 where first: "each (create_own now m ?own) (gp_own plan) R = Inr s1"
    using each_succeeds[of "gp_own plan" "create_own now m ?own" R] one_own by blast
  obtain db1 cs1 where s1: "s1 = (db1, cs1)" by force
  have "keyed rg_id (td_grants (fst R))" unfolding R by (rule revoke_all_keyed[OF keyed(1)])
  then obtain new where new: "same_rest (fst R) db1" "keyed rg_id (td_grants db1)" "td_grants db1 = td_grants (fst R) @ new"
      "\<forall>g \<in> set new. \<exists>s \<in> set (gp_own plan). own_row m s g \<and> \<not> surviving ?own s"
    using create_ownsE[OF first] s1 by auto
  define existing where "existing = live_managed_grants db1 now (mb_id m)"
  define kept where "kept = intended_managed_rows v existing"
  have "keyed rg_id existing" unfolding existing_def by (rule live_managed_keyed[OF new(2)])
  note claims = intended_claims[OF this shapes(3)]
  have kept: "kept = map (\<lambda>s. (claimed_grant existing s, s)) (gp_managed plan)" by (simp add: kept_def intended_managed_rows_def v)
  define S where "S = revoke_obsolete (claims kept) existing (db1, cs1)"
  have S: "fst S = revoke_all (\<lambda>s. sc_type s \<noteq> ScopeOwn) (rg_id ` set existing - set (claims kept)) db1"
    unfolding S_def by (rule revoke_obsolete_eq)
  have head: "rg_membership g = Some m \<and> rg_user_group g = None \<and> rg_role g \<in> plan_roles db plan"
    if g: "g \<in> set (td_grants db1)" "of_membership (mb_id m) g" for g
  proof (cases "g \<in> set new")
    case True
    then show ?thesis using bspec[OF new(4) True] by (auto simp: own_row_def plan_roles_def)
  next
    case False
    then have "g \<in> set (td_grants (fst R))" using g(1) new(3) by simp
    then obtain h where h: "h \<in> set (td_grants db)" "rg_membership g = rg_membership h" "rg_user_group g = rg_user_group h" "rg_role g = rg_role h"
      unfolding R revoke_all_rows by (auto dest: kept_grantD(2-4) split: if_split_asm)
    then have "of_membership (mb_id m) h" using g(2) by (simp add: of_membership_def)
    then show ?thesis using rows[OF h(1)] h by (auto simp: plan_roles_def)
  qed
  have ready: "ready_row now (td_tenants db) m (claimed_grant existing s) s" if s: "s \<in> set (gp_managed plan)" for s
  proof -
    have "rg_membership c = Some m \<and> rg_user_group c = None \<and> rg_role c = ms_role s" if c: "claimed_grant existing s = Some c" for c
    proof -
      have "c \<in> set (td_grants db1)" "of_membership (mb_id m) c" "ro_id (rg_role c) = ro_id (ms_role s)"
        using claimed_grantD[OF c] by (auto simp: existing_def in_live_managed)
      moreover have "ms_role s \<in> plan_roles db plan" using s by (simp add: plan_roles_def)
      ultimately show ?thesis using head agree unfolding roles_agree_def by blast
    qed
    then show ?thesis using shapes(2) s tenants[OF s] managed_ok[OF s] by (auto simp: ready_row_def)
  qed
  have sub: "set (List.map_filter fst kept) \<subseteq> set (td_grants (fst S))"
  proof
    fix c assume c: "c \<in> set (List.map_filter fst kept)"
    then have "c \<in> set (td_grants db1)" "rg_id c \<in> set (claims kept)" using claims(2)[folded kept] by (auto simp: existing_def in_live_managed)
    then show "c \<in> set (td_grants (fst S))" unfolding S revoke_all_rows by (intro bexI[of _ c]) auto
  qed
  have same: "td_tenants (fst S) = td_tenants db" using new(1) unfolding S R by (simp add: same_rest_def revoke_all_def)
  have "keyed rg_id (td_grants (fst S))" unfolding S by (rule revoke_all_keyed[OF new(2)])
  then obtain s' where second: "each (sync_managed_row now m) kept S = Inr s'"
    using sync_managed_rows_succeed[of S kept now m] keyed(2) sub claims(1)[folded kept] ready unfolding same kept by force
  have "sync_own_reach now m v (db, []) = Inr s1" using first by (simp add: sync_own_reach_def Let_def v R_def)
  moreover have "sync_managed_reach now m v s1 = Inr s'"
    using second by (simp add: sync_managed_reach_def Let_def s1 existing_def[symmetric] kept_def[symmetric] S_def)
  ultimately have "sync_membership_grants now True m v db = Inr s'"
    using m by (simp add: sync_membership_grants_def v live_rows_def)
  then show ?thesis by (cases s') auto
qed


theorem validated_plan_applies_witness:
  "\<exists>db changes. sync_membership_grants 50 True technician sample_validated plan_tenancy = Inr (db, changes)"
proof -
  have "set (ms_tenants s) \<subseteq> set (td_tenants plan_tenancy)" if "s \<in> set (gp_managed sample_plan)" for s
    using that by (simp add: sample_plan_def plan_tenancy_ok(4))
  from validated_plan_applies[OF plan_tenancy_ok(6,11,7) plan_tenancy_rows(2) plan_tenancy_ok(10) this sample_plan_valid] show ?thesis .
qed

end
