(* ===== verification/UserAccounts.thy ===== *)
theory UserAccounts
  imports PyText Stock
begin

text \<open>
  Accounts created inline, \<^verbatim>\<open>users/services.py\<close>: an email address is resolved to the one account that has it, or a
  new account is created under a free username.  The user manager's \<open>normalize_email\<close>, the hex digest of SHA-256
  and the length of the username column are arguments; \<open>iexact\<close> is comparison without ASCII case.  What other requests commit
  between the statements of a creation are functions on the table.
\<close>

section \<open>State\<close>

record account =
  ac_id :: pk
  ac_username :: string
  ac_email :: string
  ac_first_name :: string
  ac_last_name :: string
  ac_active :: bool

datatype account_error = AmbiguousEmail string | UsernameTaken

definition iexact :: "string \<Rightarrow> string \<Rightarrow> bool" where
  "iexact a b \<longleftrightarrow> py_lower a = py_lower b"

definition normalize_email :: "(string \<Rightarrow> string) \<Rightarrow> string \<Rightarrow> string" where
  "normalize_email domain_lower email = domain_lower (py_strip email)"

definition resolve_existing_user :: "(string \<Rightarrow> string) \<Rightarrow> account list \<Rightarrow> string \<Rightarrow> account_error + account option" where
  "resolve_existing_user domain_lower users email =
     (let normalized = normalize_email domain_lower email in
      if normalized = [] then Inr None
      else (case take 2 (filter (\<lambda>u. iexact (ac_email u) normalized) users) of
              [] \<Rightarrow> Inr None
            | [u] \<Rightarrow> Inr (Some u)
            | _ \<Rightarrow> Inl (AmbiguousEmail normalized)))"

section \<open>Usernames\<close>

text \<open>\<open>s[:k]\<close>\<close>

definition slice_to :: "int \<Rightarrow> string \<Rightarrow> string" where
  "slice_to k s = (if k < 0 then take (nat (int (length s) + k)) s else take (nat k) s)"

definition rstrip_dash :: "string \<Rightarrow> string" where
  "rstrip_dash s = rev (dropWhile (\<lambda>c. c = CHR ''-'') (rev s))"

definition numbered :: "nat \<Rightarrow> string \<Rightarrow> nat \<Rightarrow> string" where
  "numbered max_len candidate n =
     (let suffix = CHR ''-'' # py_str_int (int n)
      in slice_to (int max_len - int (length suffix)) candidate @ suffix)"

text \<open>The loop \<open>while User.objects.filter(username=unique).exists()\<close>.\<close>

partial_function (option) free_username :: "string list \<Rightarrow> nat \<Rightarrow> string \<Rightarrow> string \<Rightarrow> nat \<Rightarrow> string option" where
  "free_username taken max_len candidate unique n =
     (if unique \<in> set taken then free_username taken max_len candidate (numbered max_len candidate (n + 1)) (n + 1)
      else Some unique)"

declare free_username.simps [code]

definition username_candidate :: "(string \<Rightarrow> string) \<Rightarrow> nat \<Rightarrow> string \<Rightarrow> string" where
  "username_candidate sha256 max_len email =
     (let digest = take 12 (sha256 email);
          stripped = rstrip_dash (slice_to (int max_len - int (length digest) - 1) email);
          prefix = (if stripped = [] then ''user'' else stripped)
      in take max_len (prefix @ CHR ''-'' # digest))"

definition fitting_username :: "(string \<Rightarrow> string) \<Rightarrow> nat \<Rightarrow> account list \<Rightarrow> string \<Rightarrow> string option" where
  "fitting_username sha256 max_len users email =
     (let taken = map ac_username users in
      if length email \<le> max_len \<and> email \<notin> set taken then Some email
      else (let candidate = username_candidate sha256 max_len email
            in free_username taken max_len candidate candidate 0))"

section \<open>Creation\<close>

text \<open>Each statement reads what is committed then: \<open>after_lookup\<close> is what other requests commit between the lookup of the
  address and the choice of a username, \<open>before_insert\<close> what they commit between that choice and the insert.  The insert fails on
  the unique username when another request took it; the address is then resolved again.  No result stands for a loop that does not end.\<close>

definition new_account :: "string \<Rightarrow> string \<Rightarrow> string \<Rightarrow> string \<Rightarrow> account list \<Rightarrow> account" where
  "new_account username normalized first_name last_name users =
     \<lparr>ac_id = next_id (map ac_id users), ac_username = username, ac_email = normalized,
       ac_first_name = py_strip first_name, ac_last_name = py_strip last_name, ac_active = True\<rparr>"

definition resolve_or_create_user ::
    "(string \<Rightarrow> string) \<Rightarrow> (string \<Rightarrow> string) \<Rightarrow> nat \<Rightarrow> (account list \<Rightarrow> account list) \<Rightarrow> (account list \<Rightarrow> account list) \<Rightarrow>
       string \<Rightarrow> string \<Rightarrow> string \<Rightarrow> account list \<Rightarrow> (account_error + account \<times> bool \<times> account list) option" where
  "resolve_or_create_user domain_lower sha256 max_len after_lookup before_insert email first_name last_name users =
     (let normalized = normalize_email domain_lower email in
      case resolve_existing_user domain_lower users normalized of
        Inl e \<Rightarrow> Some (Inl e)
      | Inr (Some u) \<Rightarrow> Some (Inr (u, False, users))
      | Inr None \<Rightarrow>
          (let users1 = after_lookup users in
           case fitting_username sha256 max_len users1 normalized of
             None \<Rightarrow> None
           | Some username \<Rightarrow>
               (let users2 = before_insert users1 in
                if username \<notin> set (map ac_username users2)
                then (let u = new_account username normalized first_name last_name users2 in Some (Inr (u, True, users2 @ [u])))
                else (case resolve_existing_user domain_lower users2 normalized of
                        Inl e \<Rightarrow> Some (Inl e)
                      | Inr (Some u) \<Rightarrow> Some (Inr (u, False, users2))
                      | Inr None \<Rightarrow> Some (Inl UsernameTaken)))))"

section \<open>The search for a username ends\<close>

lemma decimal_digits_chars: "c \<in> set (decimal_digits n) \<Longrightarrow> c \<noteq> CHR ''-''"
proof (induction n rule: decimal_digits.induct)
  case (1 n)
  have digit: "char_of (48 + k) \<noteq> CHR ''-''" if "k < 10" for k :: nat
  proof
    assume "char_of (48 + k) = CHR ''-''"
    then have "of_char (char_of (48 + k) :: char) = (of_char (CHR ''-'') :: nat)" by (rule arg_cong)
    then show False using that by simp
  qed
  show ?case
  proof (cases "n < 10")
    case True
    then have "decimal_digits n = [char_of (48 + n)]" by (subst decimal_digits.simps) simp
    then have "c = char_of (48 + n)" using 1(2) by simp
    then show ?thesis using digit[OF True] by simp
  next
    case False
    then have split: "decimal_digits n = decimal_digits (n div 10) @ [char_of (48 + n mod 10)]" by (subst decimal_digits.simps) simp
    consider "c \<in> set (decimal_digits (n div 10))" | "c = char_of (48 + n mod 10)" using 1(2) unfolding split by auto
    then show ?thesis
    proof cases
      case 1
      then show ?thesis using "1.IH"[OF False] by blast
    next
      case 2
      then show ?thesis using digit[of "n mod 10"] by simp
    qed
  qed
qed

lemma py_str_int_nat: "py_str_int (int n) = decimal_digits n"
  by (simp add: py_str_int_def)

text \<open>The number can be read off the end of a numbered name.\<close>

lemma numbered_inj: "numbered max_len candidate a = numbered max_len candidate b \<Longrightarrow> a = b"
proof -
  have tail: "takeWhile (\<lambda>c. c \<noteq> CHR ''-'') (rev (numbered max_len candidate n)) = rev (decimal_digits n)" for n
  proof -
    have all: "c \<noteq> CHR ''-''" if "c \<in> set (rev (decimal_digits n))" for c using decimal_digits_chars that by simp
    have "rev (numbered max_len candidate n) =
        rev (decimal_digits n) @ CHR ''-'' # rev (slice_to (int max_len - int (length (CHR ''-'' # py_str_int (int n)))) candidate)"
      by (simp add: numbered_def Let_def py_str_int_nat)
    moreover have "takeWhile (\<lambda>c. c \<noteq> CHR ''-'') (rev (decimal_digits n) @ CHR ''-'' # t) = rev (decimal_digits n)" for t
      using all by (subst takeWhile_append2) auto
    ultimately show ?thesis by simp
  qed
  assume "numbered max_len candidate a = numbered max_len candidate b"
  then have "rev (decimal_digits a) = rev (decimal_digits b)" using tail by metis
  then show "a = b" using decimal_digits_inj by simp
qed

lemma free_username_stops:
  assumes "numbered max_len candidate k \<notin> set taken" and "0 < d" "n + d = k"
  shows "\<exists>j. n < j \<and> j \<le> k \<and> free_username taken max_len candidate (numbered max_len candidate (n + 1)) (n + 1) = Some (numbered max_len candidate j) \<and>
    numbered max_len candidate j \<notin> set taken"
  using assms
proof (induction d arbitrary: n)
  case (Suc d)
  show ?case
  proof (cases "numbered max_len candidate (n + 1) \<in> set taken")
    case False
    then have "free_username taken max_len candidate (numbered max_len candidate (n + 1)) (n + 1) = Some (numbered max_len candidate (n + 1))"
      by (subst free_username.simps) simp
    then show ?thesis using False Suc.prems by (intro exI[of _ "n + 1"]) simp
  next
    case True
    then have "0 < d" using Suc.prems by (cases d) auto
    then obtain j where "n + 1 < j" "j \<le> k" "numbered max_len candidate j \<notin> set taken"
        "free_username taken max_len candidate (numbered max_len candidate (n + 1 + 1)) (n + 1 + 1) = Some (numbered max_len candidate j)"
      using Suc.IH[of "n + 1"] Suc.prems by auto
    moreover have "free_username taken max_len candidate (numbered max_len candidate (n + 1)) (n + 1) =
        free_username taken max_len candidate (numbered max_len candidate (n + 1 + 1)) (n + 1 + 1)"
      using True by (subst free_username.simps) simp
    ultimately show ?thesis by (intro exI[of _ j]) simp
  qed
qed simp

text \<open>Among one more numbered names than there are names taken, one is free.\<close>

lemma free_number: "\<exists>k. 0 < k \<and> k \<le> Suc (length taken) \<and> numbered max_len candidate k \<notin> set taken"
proof (rule ccontr)
  assume "\<not> ?thesis"
  then have "numbered max_len candidate ` {1..Suc (length taken)} \<subseteq> set taken" by auto
  then have "card (numbered max_len candidate ` {1..Suc (length taken)}) \<le> length taken"
    using card_mono[of "set taken"] card_length[of taken] by (meson List.finite_set le_trans)
  moreover have "card (numbered max_len candidate ` {1..Suc (length taken)}) = Suc (length taken)"
    by (subst card_image) (auto intro: inj_onI numbered_inj)
  ultimately show False by simp
qed

lemma decimal_digits_mono: "a \<le> b \<Longrightarrow> length (decimal_digits a) \<le> length (decimal_digits b)"
proof (induction b arbitrary: a rule: decimal_digits.induct)
  case (1 b)
  show ?case
  proof (cases "a < 10")
    case True
    then have "length (decimal_digits a) = 1" by (subst decimal_digits.simps) simp
    moreover have "1 \<le> length (decimal_digits b)" by (subst decimal_digits.simps) simp
    ultimately show ?thesis by simp
  next
    case False
    then have "\<not> b < 10" "a div 10 \<le> b div 10" using 1(2) by (simp_all add: div_le_mono)
    then have "length (decimal_digits (a div 10)) \<le> length (decimal_digits (b div 10))" using 1(1) by simp
    then show ?thesis using False \<open>\<not> b < 10\<close> by (subst (1 2) decimal_digits.simps) simp
  qed
qed

lemma numbered_length:
  assumes "length (decimal_digits n) < max_len"
  shows "length (numbered max_len candidate n) \<le> max_len"
  using assms by (simp add: numbered_def Let_def py_str_int_nat slice_to_def)

lemma fitting_username_ends:
  "\<exists>name. fitting_username sha256 max_len users email = Some name \<and> name \<notin> ac_username ` set users \<and>
     (length (decimal_digits (Suc (length users))) < max_len \<longrightarrow> length name \<le> max_len)"
proof (cases "length email \<le> max_len \<and> email \<notin> ac_username ` set users")
  case True
  then show ?thesis by (intro exI[of _ email]) (simp add: fitting_username_def)
next
  case False
  let ?taken = "map ac_username users" and ?c = "username_candidate sha256 max_len email"
  have run: "fitting_username sha256 max_len users email = free_username ?taken max_len ?c ?c 0"
    unfolding fitting_username_def Let_def using False by auto
  show ?thesis
  proof (cases "?c \<in> set ?taken")
    case False
    moreover have "length ?c \<le> max_len" by (simp add: username_candidate_def Let_def)
    ultimately show ?thesis using run by (intro exI[of _ ?c]) (simp add: free_username.simps)
  next
    case True
    obtain k where k: "0 < k" "k \<le> Suc (length ?taken)" "numbered max_len ?c k \<notin> set ?taken" using free_number by blast
    obtain j where j: "j \<le> k" "free_username ?taken max_len ?c (numbered max_len ?c (0 + 1)) (0 + 1) = Some (numbered max_len ?c j)"
        "numbered max_len ?c j \<notin> set ?taken" using free_username_stops[OF k(3), of k 0] k(1) by auto
    have "length (decimal_digits j) \<le> length (decimal_digits (Suc (length users)))" using j(1) k(2) by (intro decimal_digits_mono) simp
    then have "length (decimal_digits (Suc (length users))) < max_len \<longrightarrow> length (numbered max_len ?c j) \<le> max_len"
      using numbered_length[of j max_len ?c] by simp
    moreover have "free_username ?taken max_len ?c ?c 0 = Some (numbered max_len ?c j)"
      using j(2) True by (subst free_username.simps) simp
    ultimately show ?thesis using run j(3) by auto
  qed
qed

section \<open>One account for an address\<close>

definition holders :: "account list \<Rightarrow> string \<Rightarrow> account list" where
  "holders users email = filter (\<lambda>u. iexact (ac_email u) email) users"

definition emails_unambiguous :: "account list \<Rightarrow> bool" where
  "emails_unambiguous users \<longleftrightarrow> (\<forall>u \<in> set users. ac_email u \<noteq> [] \<longrightarrow> length (holders users (ac_email u)) = 1)"

lemma take2_cases:
  "(case take 2 xs of [] \<Rightarrow> a | [u] \<Rightarrow> b u | _ \<Rightarrow> c) = (if xs = [] then a else if length xs = 1 then b (hd xs) else c)"
  by (cases xs; cases "tl xs") (auto simp: numeral_2_eq_2)

lemma resolve_existing_user_eq:
  "resolve_existing_user domain_lower users email =
     (let m = normalize_email domain_lower email in
      if m = [] \<or> holders users m = [] then Inr None
      else if length (holders users m) = 1 then Inr (Some (hd (holders users m))) else Inl (AmbiguousEmail m))"
  unfolding resolve_existing_user_def take2_cases holders_def Let_def by simp

lemma holders_append: "holders (users @ added) email = holders users email @ holders added email"
  by (simp add: holders_def)

lemma holders_self: "holders [u] (ac_email u) = [u]"
  by (simp add: holders_def iexact_def)

text \<open>The two ways a creation ends when the address is free at the lookup.\<close>

lemma create_when_free:
  assumes "resolve_existing_user domain_lower users (normalize_email domain_lower email) = Inr None"
    and "fitting_username sha256 max_len (after_lookup users) (normalize_email domain_lower email) = Some name"
    and "name \<notin> set (map ac_username (before_insert (after_lookup users)))"
  shows "resolve_or_create_user domain_lower sha256 max_len after_lookup before_insert email f l users =
    (let u = new_account name (normalize_email domain_lower email) f l (before_insert (after_lookup users))
     in Some (Inr (u, True, before_insert (after_lookup users) @ [u])))"
  unfolding resolve_or_create_user_def using assms by (simp add: Let_def)

lemma create_when_taken:
  assumes "resolve_existing_user domain_lower users (normalize_email domain_lower email) = Inr None"
    and "fitting_username sha256 max_len (after_lookup users) (normalize_email domain_lower email) = Some name"
    and "name \<in> set (map ac_username (before_insert (after_lookup users)))"
    and "resolve_existing_user domain_lower (before_insert (after_lookup users)) (normalize_email domain_lower email) = Inr (Some u)"
  shows "resolve_or_create_user domain_lower sha256 max_len after_lookup before_insert email f l users =
    Some (Inr (u, False, before_insert (after_lookup users)))"
  unfolding resolve_or_create_user_def using assms by (simp add: Let_def)

lemma created_account:
  assumes "resolve_or_create_user domain_lower sha256 max_len id id email f l users = Some (Inr (w, True, users1))"
  obtains name where "resolve_existing_user domain_lower users (normalize_email domain_lower email) = Inr None"
    and "fitting_username sha256 max_len users (normalize_email domain_lower email) = Some name"
    and "w = new_account name (normalize_email domain_lower email) f l users" and "users1 = users @ [w]"
  using assms unfolding resolve_or_create_user_def Let_def by (auto split: sum.splits option.splits if_splits)

lemma found_account:
  assumes "resolve_or_create_user domain_lower sha256 max_len id id email f l users = Some (Inr (u, False, users1))"
  shows "resolve_existing_user domain_lower users (normalize_email domain_lower email) = Inr (Some u) \<and> users1 = users"
proof (cases "resolve_existing_user domain_lower users (normalize_email domain_lower email)")
  case (Inl e)
  then show ?thesis using assms by (simp add: resolve_or_create_user_def Let_def)
next
  case (Inr found)
  then show ?thesis using assms
    by (cases found) (simp_all add: resolve_or_create_user_def Let_def split: option.splits if_splits)
qed

text \<open>With a normalisation that leaves a normalised address alone, an address is free at the lookup when nobody holds it.\<close>

lemma resolve_normalized:
  assumes "normalize_email domain_lower (normalize_email domain_lower email) = normalize_email domain_lower email"
  shows "resolve_existing_user domain_lower users (normalize_email domain_lower email) = resolve_existing_user domain_lower users email"
  unfolding resolve_existing_user_eq assms by (rule refl)

lemma resolve_free:
  assumes "resolve_existing_user domain_lower users email = Inr None" "normalize_email domain_lower email \<noteq> []"
  shows "holders users (normalize_email domain_lower email) = []"
  using assms unfolding resolve_existing_user_eq Let_def by (simp split: if_splits)

lemma new_account_email [simp]: "ac_email (new_account name m f l users) = m"
  and new_account_username [simp]: "ac_username (new_account name m f l users) = name"
  by (simp_all add: new_account_def)

lemma resolve_found:
  assumes "holders users (normalize_email domain_lower email) = [u]" "normalize_email domain_lower email \<noteq> []"
  shows "resolve_existing_user domain_lower users email = Inr (Some u)"
  unfolding resolve_existing_user_eq using assms by (simp add: Let_def)

lemma holders_new: "holders [new_account name m f l users] m = [new_account name m f l users]"
  using holders_self[of "new_account name m f l users"] by simp

text \<open>An example: the first account.\<close>

definition digest_ex :: "string \<Rightarrow> string" where
  "digest_ex s = ''0123456789abcdef''"

definition first_ex :: account where
  "first_ex = \<lparr>ac_id = 1, ac_username = ''ann@x'', ac_email = ''ann@x'', ac_first_name = ''Ann'', ac_last_name = [], ac_active = True\<rparr>"

lemma first_run: "resolve_or_create_user id digest_ex 150 id id '' ann@x'' ''Ann'' [] [] = Some (Inr (first_ex, True, [first_ex]))"
  by code_simp

lemma first_email: "normalize_email id (normalize_email id '' ann@x'') = normalize_email id '' ann@x''"
  "normalize_email id '' ann@x'' \<noteq> []"
  by code_simp+

text \<open>A request that takes the username between the search and the insert wins: the other request is given its account.\<close>

theorem insert_race_reuses_winner:
  assumes idem: "normalize_email domain_lower (normalize_email domain_lower email) = normalize_email domain_lower email"
    and nonempty: "normalize_email domain_lower email \<noteq> []"
    and winner: "resolve_or_create_user domain_lower sha256 max_len id id email f l users = Some (Inr (w, True, users1))"
  shows "resolve_or_create_user domain_lower sha256 max_len id (\<lambda>_. users1) email f' l' users = Some (Inr (w, False, users1))"
proof -
  obtain name where free: "resolve_existing_user domain_lower users (normalize_email domain_lower email) = Inr None"
    and name: "fitting_username sha256 max_len users (normalize_email domain_lower email) = Some name"
    and w: "w = new_account name (normalize_email domain_lower email) f l users" and users1: "users1 = users @ [w]"
    using created_account[OF winner] .
  have "holders users (normalize_email domain_lower email) = []"
    using resolve_free[of domain_lower users email] free nonempty unfolding resolve_normalized[OF idem] by blast
  then have "holders users1 (normalize_email domain_lower email) = [w]"
    unfolding users1 w holders_append holders_new by simp
  then have "resolve_existing_user domain_lower users1 (normalize_email domain_lower email) = Inr (Some w)"
    unfolding resolve_normalized[OF idem] using nonempty by (rule resolve_found)
  then show ?thesis
    using create_when_taken[of domain_lower users email sha256 max_len id name "\<lambda>_. users1" w f' l'] free name w users1 by simp
qed

theorem insert_race_reuses_winner_witness:
  "resolve_or_create_user id digest_ex 150 id (\<lambda>_. [first_ex]) '' ann@x'' ''Bob'' [] [] = Some (Inr (first_ex, False, [first_ex]))"
  using insert_race_reuses_winner[OF first_email first_run] .

text \<open>A request that is done between the lookup and the choice of the username is not noticed: a second account is made
  for the address, and the address is ambiguous from then on.\<close>

theorem lookup_race_duplicates:
  assumes idem: "normalize_email domain_lower (normalize_email domain_lower email) = normalize_email domain_lower email"
    and nonempty: "normalize_email domain_lower email \<noteq> []"
    and winner: "resolve_or_create_user domain_lower sha256 max_len id id email f l users = Some (Inr (w, True, users1))"
  shows "\<exists>u users2. resolve_or_create_user domain_lower sha256 max_len (\<lambda>_. users1) id email f' l' users = Some (Inr (u, True, users2)) \<and>
    ac_id u \<noteq> ac_id w \<and> resolve_existing_user domain_lower users2 email = Inl (AmbiguousEmail (normalize_email domain_lower email))"
proof -
  obtain name where free: "resolve_existing_user domain_lower users (normalize_email domain_lower email) = Inr None"
    and w: "w = new_account name (normalize_email domain_lower email) f l users" and users1: "users1 = users @ [w]"
    using created_account[OF winner] .
  obtain name' where name': "fitting_username sha256 max_len users1 (normalize_email domain_lower email) = Some name'"
      "name' \<notin> ac_username ` set users1"
    using fitting_username_ends by blast
  define u where "u = new_account name' (normalize_email domain_lower email) f' l' users1"
  have run: "resolve_or_create_user domain_lower sha256 max_len (\<lambda>_. users1) id email f' l' users = Some (Inr (u, True, users1 @ [u]))"
    using create_when_free[of domain_lower users email sha256 max_len "\<lambda>_. users1" name' id f' l'] free name' by (simp add: u_def Let_def)
  have "holders users1 (normalize_email domain_lower email) \<noteq> []" "holders [u] (normalize_email domain_lower email) = [u]"
    unfolding users1 holders_append w u_def holders_new by simp_all
  then have "holders (users1 @ [u]) (normalize_email domain_lower email) \<noteq> []"
      "length (holders (users1 @ [u]) (normalize_email domain_lower email)) \<noteq> 1"
    unfolding holders_append by (simp_all add: neq_Nil_conv)
  then have "resolve_existing_user domain_lower (users1 @ [u]) email = Inl (AmbiguousEmail (normalize_email domain_lower email))"
    unfolding resolve_existing_user_eq using nonempty by (simp add: Let_def)
  moreover have "ac_id u \<noteq> ac_id w"
    using next_id_fresh[of "ac_id w" "map ac_id users1"] users1 by (auto simp: u_def new_account_def)
  ultimately show ?thesis using run by blast
qed

theorem lookup_race_duplicates_witness:
  "\<exists>u users2. resolve_or_create_user id digest_ex 150 (\<lambda>_. [first_ex]) id '' ann@x'' ''Bob'' [] [] = Some (Inr (u, True, users2)) \<and>
    ac_id u \<noteq> ac_id first_ex \<and> resolve_existing_user id users2 '' ann@x'' = Inl (AmbiguousEmail (normalize_email id '' ann@x''))"
  using lookup_race_duplicates[OF first_email first_run] .

lemma holders_iexact: "iexact a b \<Longrightarrow> holders users a = holders users b"
  by (simp add: holders_def iexact_def)

lemma holders_free: "holders users m = [] \<Longrightarrow> u \<in> set users \<Longrightarrow> \<not> iexact (ac_email u) m"
  by (auto simp: holders_def filter_empty_conv)

lemma unambiguous_snoc:
  assumes "emails_unambiguous users" "m = [] \<or> holders users m = []"
  shows "emails_unambiguous (users @ [new_account name m f l others])"
  unfolding emails_unambiguous_def
proof (intro ballI impI)
  fix u
  assume u: "u \<in> set (users @ [new_account name m f l others])" and ne: "ac_email u \<noteq> []"
  let ?n = "new_account name m f l others"
  show "length (holders (users @ [?n]) (ac_email u)) = 1"
  proof (cases "u \<in> set users")
    case True
    have "\<not> iexact m (ac_email u)"
    proof (cases "m = []")
      case True
      then show ?thesis using ne by (simp add: iexact_def py_lower_def)
    next
      case False
      then show ?thesis using holders_free[of users m u] \<open>u \<in> set users\<close> assms(2) by (metis iexact_def)
    qed
    then have "holders [?n] (ac_email u) = []" by (simp add: holders_def)
    then show ?thesis using assms(1) True ne unfolding emails_unambiguous_def holders_append by simp
  next
    case False
    then have "u = ?n" using u by simp
    then show ?thesis using assms(2) ne unfolding holders_append by (simp add: holders_new)
  qed
qed

text \<open>Requests that do not overlap keep every address with at most one account, and a later request for the address of an
  earlier one, in any case of letters the lookup ignores, is given the account of the earlier one unchanged.\<close>

theorem accounts_one_per_address:
  assumes idem: "normalize_email domain_lower (normalize_email domain_lower email) = normalize_email domain_lower email"
    and ok: "emails_unambiguous users"
    and run: "resolve_or_create_user domain_lower sha256 max_len id id email f l users = Some (Inr (u, created, users1))"
    and again: "iexact (normalize_email domain_lower email2) (normalize_email domain_lower email)" "normalize_email domain_lower email2 \<noteq> []"
      "normalize_email domain_lower (normalize_email domain_lower email2) = normalize_email domain_lower email2"
  shows "emails_unambiguous users1 \<and>
    resolve_or_create_user domain_lower sha256 max_len id id email2 f2 l2 users1 = Some (Inr (u, False, users1))"
proof -
  let ?m = "normalize_email domain_lower email" and ?m2 = "normalize_email domain_lower email2"
  have ne: "?m \<noteq> []" using again(1,2) by (auto simp: iexact_def py_lower_def)
  have "emails_unambiguous users1 \<and> holders users1 ?m = [u]"
  proof (cases created)
    case True
    then have "resolve_or_create_user domain_lower sha256 max_len id id email f l users = Some (Inr (u, True, users1))" using run by simp
    then obtain name where free: "resolve_existing_user domain_lower users ?m = Inr None"
      and u: "u = new_account name ?m f l users" and users1: "users1 = users @ [u]"
      by (rule created_account)
    have none: "holders users ?m = []"
      using resolve_free[of domain_lower users email] free ne unfolding resolve_normalized[OF idem] by blast
    show ?thesis unfolding users1 u holders_append holders_new none using unambiguous_snoc[OF ok] none by simp
  next
    case False
    then have found: "resolve_existing_user domain_lower users ?m = Inr (Some u) \<and> users1 = users"
      using found_account[of domain_lower sha256 max_len email f l users u users1] run by simp
    then have "length (holders users ?m) = 1 \<and> u = hd (holders users ?m)"
      unfolding resolve_existing_user_eq idem by (simp add: Let_def split: if_splits)
    then show ?thesis using ok found by (cases "holders users ?m") auto
  qed
  then have unamb: "emails_unambiguous users1" and "holders users1 ?m2 = [u]" using holders_iexact[OF again(1)] by simp_all
  then have "resolve_existing_user domain_lower users1 ?m2 = Inr (Some u)"
    unfolding resolve_normalized[OF again(3)] using again(2) by (intro resolve_found)
  then show ?thesis using unamb unfolding resolve_or_create_user_def by (simp add: Let_def)
qed

theorem accounts_one_per_address_witness:
  "emails_unambiguous [first_ex] \<and> resolve_or_create_user id digest_ex 150 id id ''ANN@x'' ''Zed'' [] [first_ex] = Some (Inr (first_ex, False, [first_ex]))"
proof -
  have "emails_unambiguous []" by (simp add: emails_unambiguous_def)
  moreover have "iexact (normalize_email id ''ANN@x'') (normalize_email id '' ann@x'')" "normalize_email id ''ANN@x'' \<noteq> []"
    "normalize_email id (normalize_email id ''ANN@x'') = normalize_email id ''ANN@x''"
    by code_simp+
  ultimately show ?thesis using accounts_one_per_address[OF first_email(1) _ first_run] by blast
qed

section \<open>Termination\<close>

text \<open>C33. The search for a username ends with a name that nobody has, which fits the column as long as the number of
  accounts has fewer digits than the column has characters; so a request returns whatever other requests commit meanwhile,
  and it is never refused for the username when none overlaps it.\<close>

theorem username_search_ends:
  "(\<exists>name. fitting_username sha256 max_len users email = Some name \<and> name \<notin> ac_username ` set users \<and>
     (length (decimal_digits (Suc (length users))) < max_len \<longrightarrow> length name \<le> max_len)) \<and>
   resolve_or_create_user domain_lower sha256 max_len after_lookup before_insert email f l users \<noteq> None \<and>
   resolve_or_create_user domain_lower sha256 max_len id id email f l users \<noteq> Some (Inl UsernameTaken)"
proof (intro conjI)
  show "\<exists>name. fitting_username sha256 max_len users email = Some name \<and> name \<notin> ac_username ` set users \<and>
     (length (decimal_digits (Suc (length users))) < max_len \<longrightarrow> length name \<le> max_len)"
    by (rule fitting_username_ends)
  let ?m = "normalize_email domain_lower email"
  show "resolve_or_create_user domain_lower sha256 max_len after_lookup before_insert email f l users \<noteq> None"
  proof -
    obtain name where "fitting_username sha256 max_len (after_lookup users) ?m = Some name" using fitting_username_ends by blast
    then show ?thesis by (simp add: resolve_or_create_user_def Let_def split: sum.split option.split)
  qed
  show "resolve_or_create_user domain_lower sha256 max_len id id email f l users \<noteq> Some (Inl UsernameTaken)"
  proof -
    obtain name where "fitting_username sha256 max_len users ?m = Some name" "name \<notin> ac_username ` set users"
      using fitting_username_ends by blast
    moreover have "e \<noteq> UsernameTaken" if "resolve_existing_user domain_lower users ?m = Inl e" for e
      using that unfolding resolve_existing_user_eq Let_def by (auto split: if_splits)
    ultimately show ?thesis by (simp add: resolve_or_create_user_def Let_def split: sum.split option.split)
  qed
qed

text \<open>The address is taken as a username: the handle made from the digest is free and fits.\<close>

theorem username_search_ends_witness:
  "\<exists>name. fitting_username digest_ex 150 [first_ex] ''ann@x'' = Some name \<and> name \<noteq> ''ann@x'' \<and> length name \<le> 150"
proof -
  have "length (decimal_digits (Suc (length [first_ex]))) < 150" by code_simp
  moreover have "ac_username ` set [first_ex] = {''ann@x''}" by (simp add: first_ex_def)
  ultimately show ?thesis
    using username_search_ends[of digest_ex 150 "[first_ex]" "''ann@x''"] by auto
qed

end
