(* ===== verification/Workspaces.thy ===== *)
theory Workspaces
  imports Rbac UserAccounts
begin

text \<open>
  Workspace selection, the second half of \<^verbatim>\<open>users/services.py\<close>: the keys under which a personal default workspace is stored, the
  choices a user is offered and the resolution of a stored key against the access the user has now.  A stored value is a text or some
  other JSON value; group names, which the group table of the model leaves out, are an argument.
\<close>

section \<open>Keys\<close>

datatype stored_value = StoredText string | StoredOther

datatype workspace_key = KeyAll | KeyTenant pk | KeyGroup pk

definition WORKSPACE_AUTOMATIC :: string where "WORKSPACE_AUTOMATIC = []"

definition WORKSPACE_ALL :: string where "WORKSPACE_ALL = ''all''"

definition WORKSPACE_TENANT_PREFIX :: string where "WORKSPACE_TENANT_PREFIX = ''tenant:''"

definition WORKSPACE_GROUP_PREFIX :: string where "WORKSPACE_GROUP_PREFIX = ''group:''"

text \<open>\<open>s.isdecimal()\<close>; the first 256 characters have no other decimal digits.  Stored keys have fewer than the 4300 digits
  from which on \<open>int\<close> raises.\<close>

definition isdecimal :: "string \<Rightarrow> bool" where
  "isdecimal s \<longleftrightarrow> s \<noteq> [] \<and> (\<forall>c \<in> set s. 48 \<le> (of_char c :: nat) \<and> (of_char c :: nat) \<le> 57)"

definition positive_id :: "(pk \<Rightarrow> workspace_key) \<Rightarrow> string \<Rightarrow> workspace_key option" where
  "positive_id kind raw_id =
     (if isdecimal raw_id \<and> 0 < digits_value raw_id then Some (kind (int (digits_value raw_id))) else None)"

definition parse_workspace_key :: "stored_value option \<Rightarrow> workspace_key option" where
  "parse_workspace_key val =
     (case val of
        Some (StoredText s) \<Rightarrow>
          if s = WORKSPACE_ALL then Some KeyAll
          else if starts_with s WORKSPACE_TENANT_PREFIX then positive_id KeyTenant (drop (length WORKSPACE_TENANT_PREFIX) s)
          else if starts_with s WORKSPACE_GROUP_PREFIX then positive_id KeyGroup (drop (length WORKSPACE_GROUP_PREFIX) s)
          else None
      | _ \<Rightarrow> None)"

definition key_text :: "workspace_key \<Rightarrow> string" where
  "key_text k =
     (case k of
        KeyAll \<Rightarrow> WORKSPACE_ALL
      | KeyTenant i \<Rightarrow> WORKSPACE_TENANT_PREFIX @ py_str_int i
      | KeyGroup i \<Rightarrow> WORKSPACE_GROUP_PREFIX @ py_str_int i)"

section \<open>Access\<close>

text \<open>\<open>_accessible_tenant_ids\<close>: no restriction for a superuser.\<close>

definition workspace_tenant_ids :: "tenancy \<Rightarrow> instant \<Rightarrow> user option \<Rightarrow> world \<Rightarrow> pk list option \<times> world" where
  "workspace_tenant_ids db now u w =
     (if (case u of None \<Rightarrow> False | Some x \<Rightarrow> us_superuser x) then (None, w)
      else (let (ids, w1) = accessible_tenant_ids db now u w in (Some ids, w1)))"

text \<open>\<open>_accessible_group_ids\<close> for a given set of tenants.\<close>

definition workspace_group_ids :: "tenancy \<Rightarrow> pk list \<Rightarrow> pk list" where
  "workspace_group_ids db accessible =
     (let own_group_ids = concat (map (\<lambda>t. case tn_group t of None \<Rightarrow> [] | Some g \<Rightarrow> [g])
                                  (filter (\<lambda>t. tn_id t \<in> set accessible \<and> tn_live t) (td_tenants db)))
      in concat (map (\<lambda>g. get_ancestor_tenant_group_ids (td_groups db) (Some g) True) own_group_ids))"

section \<open>Choices\<close>

definition order_by_name :: "(string \<Rightarrow> string \<Rightarrow> bool) \<Rightarrow> ('a \<Rightarrow> string) \<Rightarrow> 'a list \<Rightarrow> 'a list" where
  "order_by_name le label rows =
     foldr (\<lambda>x ys. takeWhile (\<lambda>y. \<not> le (label x) (label y)) ys @ x # dropWhile (\<lambda>y. \<not> le (label x) (label y)) ys) rows []"

definition listed_choices :: "(string \<Rightarrow> string \<Rightarrow> bool) \<Rightarrow> (pk \<Rightarrow> string) \<Rightarrow> tenant_group list \<Rightarrow> tenant list \<Rightarrow> (string \<times> string) list" where
  "listed_choices le group_name groups tenants =
     [(WORKSPACE_AUTOMATIC, ''Automatic''), (WORKSPACE_ALL, ''All Tenants'')] @
     map (\<lambda>g. (key_text (KeyGroup (tg_id g)), group_name (tg_id g))) (order_by_name le (\<lambda>g. group_name (tg_id g)) groups) @
     map (\<lambda>t. (key_text (KeyTenant (tn_id t)), tn_name t)) (order_by_name le tn_name tenants)"

definition workspace_choices ::
    "tenancy \<Rightarrow> (pk \<Rightarrow> string) \<Rightarrow> instant \<Rightarrow> user option \<Rightarrow> world \<Rightarrow> (string \<times> string) list \<times> world" where
  "workspace_choices db group_name now u w =
     (let (accessible, w1) = workspace_tenant_ids db now u w in
      case accessible of
        None \<Rightarrow> (listed_choices (td_name_le db) group_name (filter tg_live (td_groups db)) (filter tn_live (td_tenants db)), w1)
      | Some ids \<Rightarrow>
          if ids = [] then ([(WORKSPACE_AUTOMATIC, ''Automatic'')], w1)
          else (let tenants = filter (\<lambda>t. tn_id t \<in> set ids \<and> tn_live t) (td_tenants db);
                    group_ids = workspace_group_ids db ids;
                    groups = filter (\<lambda>g. tg_id g \<in> set group_ids \<and> tg_live g) (td_groups db)
                in (listed_choices (td_name_le db) group_name groups tenants, w1)))"

section \<open>Resolution\<close>

record workspace_selection =
  ws_tenant :: "tenant option"
  ws_group :: "tenant_group option"
  ws_all_accessible :: bool

definition no_selection :: workspace_selection where
  "no_selection = \<lparr>ws_tenant = None, ws_group = None, ws_all_accessible = False\<rparr>"

definition resolve_all_workspace :: "pk list option \<Rightarrow> workspace_selection option" where
  "resolve_all_workspace accessible =
     (case accessible of
        None \<Rightarrow> Some no_selection
      | Some ids \<Rightarrow> if ids \<noteq> [] then Some (no_selection\<lparr>ws_all_accessible := True\<rparr>) else None)"

definition resolve_tenant_workspace :: "tenancy \<Rightarrow> pk \<Rightarrow> pk list option \<Rightarrow> workspace_selection option" where
  "resolve_tenant_workspace db object_id accessible =
     (if (case accessible of None \<Rightarrow> False | Some ids \<Rightarrow> object_id \<notin> set ids) then None
      else map_option (\<lambda>t. no_selection\<lparr>ws_tenant := Some t\<rparr>) (find (\<lambda>t. tn_id t = object_id \<and> tn_live t) (td_tenants db)))"

definition resolve_group_workspace :: "tenancy \<Rightarrow> pk \<Rightarrow> pk list option \<Rightarrow> world \<Rightarrow> workspace_selection option \<times> world" where
  "resolve_group_workspace db object_id accessible w =
     (case find (\<lambda>g. tg_id g = object_id \<and> tg_live g) (td_groups db) of
        None \<Rightarrow> (None, w)
      | Some g \<Rightarrow>
          (case accessible of
             None \<Rightarrow> (Some (no_selection\<lparr>ws_group := Some g\<rparr>), w)
           | Some ids \<Rightarrow>
               (let (descendants, cache) = get_descendant_tenant_group_ids (td_groups db) (Some (tg_id g)) True (cx_tree_cache (w_ctx w));
                    w1 = w\<lparr>w_ctx := (w_ctx w)\<lparr>cx_tree_cache := cache\<rparr>\<rparr>;
                    group_tenants = filter (\<lambda>t. (case tn_group t of None \<Rightarrow> False | Some h \<Rightarrow> h \<in> set descendants) \<and> tn_live t) (td_tenants db)
                in (if \<exists>t \<in> set group_tenants. tn_id t \<in> set ids then Some (no_selection\<lparr>ws_group := Some g\<rparr>) else None, w1))))"

definition resolve_workspace_selection ::
    "tenancy \<Rightarrow> instant \<Rightarrow> user option \<Rightarrow> stored_value option \<Rightarrow> world \<Rightarrow> workspace_selection option \<times> world" where
  "resolve_workspace_selection db now u val w =
     (case parse_workspace_key val of
        None \<Rightarrow> (None, w)
      | Some key \<Rightarrow>
          (let (accessible, w1) = workspace_tenant_ids db now u w in
           case key of
             KeyAll \<Rightarrow> (resolve_all_workspace accessible, w1)
           | KeyTenant i \<Rightarrow> (resolve_tenant_workspace db i accessible, w1)
           | KeyGroup i \<Rightarrow> resolve_group_workspace db i accessible w1))"

text \<open>The preference row holds a dictionary, or something else, or does not exist.\<close>

definition DEFAULT_WORKSPACE_KEY :: string where "DEFAULT_WORKSPACE_KEY = ''default_workspace''"

definition resolve_default_workspace ::
    "tenancy \<Rightarrow> instant \<Rightarrow> user option \<Rightarrow> (string \<Rightarrow> stored_value option) option \<Rightarrow> world \<Rightarrow> workspace_selection option \<times> world" where
  "resolve_default_workspace db now u data w =
     (case data of None \<Rightarrow> (None, w) | Some d \<Rightarrow> resolve_workspace_selection db now u (d DEFAULT_WORKSPACE_KEY) w)"

definition WORKSPACE_SESSION_KEYS :: "string list" where
  "WORKSPACE_SESSION_KEYS = [''active_tenant_id'', ''active_tenant_group_id'', ''active_all_accessible'']"

definition clear_workspace_session :: "(string \<Rightarrow> 'v option) \<Rightarrow> (string \<Rightarrow> 'v option)" where
  "clear_workspace_session session = fold (\<lambda>key s. s(key := None)) WORKSPACE_SESSION_KEYS session"

section \<open>Keys are read back\<close>

lemma decimal_digits_isdecimal: "isdecimal (decimal_digits n)"
proof (induction n rule: decimal_digits.induct)
  case (1 n)
  have digit: "48 \<le> (of_char (char_of (48 + k) :: char) :: nat) \<and> (of_char (char_of (48 + k) :: char) :: nat) \<le> 57" if "k < 10" for k :: nat
    using that by simp
  show ?case
  proof (cases "n < 10")
    case True
    then have "decimal_digits n = [char_of (48 + n)]" by (subst decimal_digits.simps) simp
    then show ?thesis using digit[OF True] by (simp add: isdecimal_def)
  next
    case False
    then have "decimal_digits n = decimal_digits (n div 10) @ [char_of (48 + n mod 10)]" by (subst decimal_digits.simps) simp
    then show ?thesis using 1[OF False] digit[of "n mod 10"] by (auto simp: isdecimal_def)
  qed
qed

lemma positive_id_str: "0 < i \<Longrightarrow> positive_id kind (py_str_int i) = Some (kind i)"
  using decimal_digits_isdecimal[of "nat i"] by (simp add: positive_id_def py_str_int_def digits_value_decimal)

definition positive_key :: "workspace_key \<Rightarrow> bool" where
  "positive_key k = (case k of KeyAll \<Rightarrow> True | KeyTenant i \<Rightarrow> 0 < i | KeyGroup i \<Rightarrow> 0 < i)"

lemmas workspace_words = WORKSPACE_AUTOMATIC_def WORKSPACE_ALL_def WORKSPACE_TENANT_PREFIX_def WORKSPACE_GROUP_PREFIX_def

lemma parse_key_text: "positive_key k \<Longrightarrow> parse_workspace_key (Some (StoredText (key_text k))) = Some k"
  by (cases k) (simp_all add: parse_workspace_key_def key_text_def workspace_words starts_with_def positive_id_str positive_key_def)

section \<open>The accessible tenants\<close>

definition workspace_reach :: "tenancy \<Rightarrow> instant \<Rightarrow> user \<Rightarrow> pk set" where
  "workspace_reach db now u = (if us_superuser u then tn_id ` set (filter tn_live (td_tenants db))
     else if us_authenticated u then reachable db now (us_id u) else {})"

lemma workspace_tenant_ids_ok:
  assumes w: "world_current db now (us_id u) w" and run: "workspace_tenant_ids db now (Some u) w = (ids, w1)"
  shows "world_current db now (us_id u) w1 \<and> w_ctx w1 = w_ctx w \<and> (ids = None \<longleftrightarrow> us_superuser u) \<and>
    (\<forall>xs. ids = Some xs \<longrightarrow> set xs = workspace_reach db now u)"
proof (cases "us_superuser u")
  case True
  then show ?thesis using assms by (simp add: workspace_tenant_ids_def)
next
  case False
  obtain r w' where acc: "accessible_tenant_ids_with_expiry db now (Some u) w = (r, w')"
    by (cases "accessible_tenant_ids_with_expiry db now (Some u) w")
  then have out: "ids = Some (fst r)" "w1 = w'"
    using run False by (simp_all add: workspace_tenant_ids_def accessible_tenant_ids_def Let_def)
  show ?thesis
  proof (cases "us_authenticated u")
    case True
    then show ?thesis using accessible_with_expiry_ok[OF w True acc] False out by (simp add: workspace_reach_def)
  next
    case anon: False
    then have "r = ([], None)" "w' = w" using acc by (simp_all add: accessible_tenant_ids_with_expiry_def)
    then show ?thesis using anon False out w by (simp add: workspace_reach_def)
  qed
qed

lemma reachable_live: "x \<in> reachable db now uid \<Longrightarrow> \<exists>t \<in> set (td_tenants db). tn_live t \<and> tn_id t = x"
  by (auto simp: reachable_def covered_in_table_def membership_tenant_ids_def)

lemma workspace_reach_live: "x \<in> workspace_reach db now u \<Longrightarrow> \<exists>t \<in> set (td_tenants db). tn_live t \<and> tn_id t = x"
  using reachable_live by (auto simp: workspace_reach_def split: if_splits)

lemma set_order_by_name [simp]: "set (order_by_name le label rows) = set rows"
proof -
  have "set (foldr (\<lambda>x ys. takeWhile (\<lambda>y. \<not> le (label x) (label y)) ys @ x # dropWhile (\<lambda>y. \<not> le (label x) (label y)) ys) rows []) = set rows"
  proof (induction rows)
    case (Cons x rows)
    let ?ys = "foldr (\<lambda>x ys. takeWhile (\<lambda>y. \<not> le (label x) (label y)) ys @ x # dropWhile (\<lambda>y. \<not> le (label x) (label y)) ys) rows []"
    have "set (takeWhile P ?ys) \<union> set (dropWhile P ?ys) = set ?ys" for P
      using set_append[of "takeWhile P ?ys" "dropWhile P ?ys"] by (simp only: takeWhile_dropWhile_id)
    then show ?case using Cons.IH by auto
  qed simp
  then show ?thesis by (simp add: order_by_name_def)
qed

section \<open>What may be selected\<close>

text \<open>The rule the resolution implements: a tenant the user reaches, a live group with such a tenant in its subtree, all tenants
  when there is one; a superuser is bound only by what is live.\<close>

definition may_select :: "tenancy \<Rightarrow> instant \<Rightarrow> user \<Rightarrow> workspace_key \<Rightarrow> bool" where
  "may_select db now u key =
     (case key of
        KeyAll \<Rightarrow> us_superuser u \<or> workspace_reach db now u \<noteq> {}
      | KeyTenant i \<Rightarrow> i \<in> workspace_reach db now u
      | KeyGroup i \<Rightarrow> i \<in> tg_id ` set (filter tg_live (td_groups db)) \<and>
          (us_superuser u \<or>
           (\<exists>t \<in> set (td_tenants db). \<exists>h. tn_live t \<and> tn_id t \<in> workspace_reach db now u \<and> tn_group t = Some h \<and>
              h \<in> set (descendants_of (td_groups db) i True))))"

definition selection_for :: "tenancy \<Rightarrow> user \<Rightarrow> workspace_key \<Rightarrow> workspace_selection" where
  "selection_for db u key =
     (case key of
        KeyAll \<Rightarrow> no_selection\<lparr>ws_all_accessible := \<not> us_superuser u\<rparr>
      | KeyTenant i \<Rightarrow> no_selection\<lparr>ws_tenant := find (\<lambda>t. tn_id t = i \<and> tn_live t) (td_tenants db)\<rparr>
      | KeyGroup i \<Rightarrow> no_selection\<lparr>ws_group := find (\<lambda>g. tg_id g = i \<and> tg_live g) (td_groups db)\<rparr>)"

lemma find_exists: "x \<in> set xs \<Longrightarrow> P x \<Longrightarrow> \<exists>y. find P xs = Some y \<and> P y \<and> y \<in> set xs"
  by (metis find_None_iff find_Some_iff nth_mem option.exhaust)

lemma resolve_tenant_exact:
  assumes "ids = None \<longleftrightarrow> us_superuser u" "\<And>xs. ids = Some xs \<Longrightarrow> set xs = workspace_reach db now u"
  shows "resolve_tenant_workspace db i ids =
    (if may_select db now u (KeyTenant i) then Some (selection_for db u (KeyTenant i)) else None)"
proof (cases "i \<in> workspace_reach db now u")
  case True
  then obtain t where "t \<in> set (td_tenants db)" "tn_live t \<and> tn_id t = i" using workspace_reach_live by blast
  then obtain t' where "find (\<lambda>t. tn_id t = i \<and> tn_live t) (td_tenants db) = Some t'"
    using find_exists[of t "td_tenants db" "\<lambda>t. tn_id t = i \<and> tn_live t"] by blast
  then show ?thesis using True assms(2)
    by (auto simp: resolve_tenant_workspace_def may_select_def selection_for_def split: option.split)
next
  case False
  show ?thesis
  proof (cases ids)
    case None
    then have "i \<notin> tn_id ` set (filter tn_live (td_tenants db))" using False assms(1) by (simp add: workspace_reach_def)
    then have "find (\<lambda>t. tn_id t = i \<and> tn_live t) (td_tenants db) = None" by (auto simp: find_None_iff)
    then show ?thesis using None False by (simp add: resolve_tenant_workspace_def may_select_def)
  next
    case (Some xs)
    then show ?thesis using assms(2) False by (simp add: resolve_tenant_workspace_def may_select_def)
  qed
qed

lemma resolve_group_exact:
  assumes "ids = None \<longleftrightarrow> us_superuser u" "\<And>xs. ids = Some xs \<Longrightarrow> set xs = workspace_reach db now u"
    and "cache_sound (td_groups db) (cx_tree_cache (w_ctx w))"
  shows "fst (resolve_group_workspace db i ids w) =
    (if may_select db now u (KeyGroup i) then Some (selection_for db u (KeyGroup i)) else None)"
proof (cases "find (\<lambda>g. tg_id g = i \<and> tg_live g) (td_groups db)")
  case None
  then have "i \<notin> tg_id ` set (filter tg_live (td_groups db))" by (auto simp: find_None_iff)
  then show ?thesis using None by (simp add: resolve_group_workspace_def may_select_def)
next
  case (Some g)
  then have g: "g \<in> set (td_groups db)" "tg_id g = i" "tg_live g" by (auto simp: find_Some_iff)
  then have live: "i \<in> tg_id ` set (filter tg_live (td_groups db))" by force
  show ?thesis
  proof (cases ids)
    case None
    then show ?thesis using Some live assms(1) by (simp add: resolve_group_workspace_def may_select_def selection_for_def)
  next
    case ids: (Some xs)
    let ?d = "descendants_of (td_groups db) i True"
    have walk: "fst (get_descendant_tenant_group_ids (td_groups db) (Some i) True (cx_tree_cache (w_ctx w))) = ?d"
      using get_descendants_sound[OF assms(3)] by blast
    obtain d cache where dc: "get_descendant_tenant_group_ids (td_groups db) (Some i) True (cx_tree_cache (w_ctx w)) = (d, cache)" "d = ?d"
      using walk by (cases "get_descendant_tenant_group_ids (td_groups db) (Some i) True (cx_tree_cache (w_ctx w))") auto
    have "\<not> us_superuser u" using ids assms(1) by simp
    then have "may_select db now u (KeyGroup i) \<longleftrightarrow>
        (\<exists>t \<in> set (filter (\<lambda>t. (case tn_group t of None \<Rightarrow> False | Some h \<Rightarrow> h \<in> set ?d) \<and> tn_live t) (td_tenants db)). tn_id t \<in> set xs)"
      using live assms(2)[OF ids] by (auto simp: may_select_def split: option.splits)
    then show ?thesis using Some g(2) ids dc by (auto simp: resolve_group_workspace_def selection_for_def)
  qed
qed

lemma resolve_selection_eq:
  assumes w: "world_current db now (us_id u) w"
  shows "fst (resolve_workspace_selection db now (Some u) val w) =
    (case parse_workspace_key val of
       None \<Rightarrow> None | Some key \<Rightarrow> if may_select db now u key then Some (selection_for db u key) else None)"
proof (cases "parse_workspace_key val")
  case None
  then show ?thesis by (simp add: resolve_workspace_selection_def)
next
  case (Some key)
  obtain ids w1 where acc: "workspace_tenant_ids db now (Some u) w = (ids, w1)" by (cases "workspace_tenant_ids db now (Some u) w")
  note ok = workspace_tenant_ids_ok[OF w acc]
  have "fst (resolve_workspace_selection db now (Some u) val w) =
      (if may_select db now u key then Some (selection_for db u key) else None)"
  proof (cases key)
    case KeyAll
    have "resolve_all_workspace ids = (if may_select db now u KeyAll then Some (selection_for db u KeyAll) else None)"
      using ok by (auto simp: resolve_all_workspace_def may_select_def selection_for_def no_selection_def split: option.split)
    then show ?thesis using KeyAll Some acc by (simp add: resolve_workspace_selection_def)
  next
    case (KeyTenant i)
    then show ?thesis using Some acc resolve_tenant_exact[of ids u db now i] ok by (simp add: resolve_workspace_selection_def)
  next
    case (KeyGroup i)
    have "cache_sound (td_groups db) (cx_tree_cache (w_ctx w1))" using ok unfolding world_ok_def by blast
    then show ?thesis using KeyGroup Some acc resolve_group_exact[of ids u db now w1 i] ok by (simp add: resolve_workspace_selection_def)
  qed
  then show ?thesis using Some by simp
qed

text \<open>C16. For a user whose memos hold nothing expired, a stored value resolves exactly when it is the key of something the user may
  select now, and then to just that.  So a stored default does not widen the access of its user, and with a fresh \<open>User\<close> instance it
  resolves no longer once that access is lost; an instance that outlives a managed grant can still resolve it from its
  memo (\<open>expired_managed_reach_survives\<close>).\<close>

theorem stored_workspace_exact:
  assumes w: "world_current db now (us_id u) w"
  shows "fst (resolve_workspace_selection db now (Some u) val w) = Some sel \<longleftrightarrow>
    (\<exists>key. parse_workspace_key val = Some key \<and> may_select db now u key \<and> sel = selection_for db u key)"
  by (auto simp: resolve_selection_eq[OF w] split: option.splits)

section \<open>What is offered resolves\<close>

lemma in_workspace_group_ids:
  "h \<in> set (workspace_group_ids db ids) \<longleftrightarrow>
    (\<exists>t \<in> set (td_tenants db). \<exists>g. tn_live t \<and> tn_id t \<in> set ids \<and> tn_group t = Some g \<and>
       h \<in> set (get_ancestor_tenant_group_ids (td_groups db) (Some g) True))"
proof -
  have "set (case tn_group t of None \<Rightarrow> [] | Some g \<Rightarrow> [g]) = set_option (tn_group t)" for t
    by (cases "tn_group t") auto
  then have "h \<in> set (workspace_group_ids db ids) \<longleftrightarrow>
      (\<exists>t \<in> set (filter (\<lambda>t. tn_id t \<in> set ids \<and> tn_live t) (td_tenants db)).
         \<exists>g \<in> set_option (tn_group t). h \<in> set (get_ancestor_tenant_group_ids (td_groups db) (Some g) True))"
    unfolding workspace_group_ids_def Let_def set_concat set_map by blast
  then show ?thesis unfolding set_filter elem_set by blast
qed

lemma ancestor_has_descendant:
  assumes "keyed tg_id rows" "h \<in> set (get_ancestor_tenant_group_ids rows (Some g) True)"
  shows "h \<in> tg_id ` set (filter tg_live rows) \<and> g \<in> set (descendants_of rows h True)"
proof -
  have "get_ancestor_tenant_group_ids rows (Some g) True \<noteq> []" using assms(2) by auto
  then have "g \<in> set (fst (get_descendant_tenant_group_ids rows (Some h) True Map.empty))"
    using ancestors_match_descendants[OF assms(1)] assms(2) by blast
  moreover have "fst (get_descendant_tenant_group_ids rows (Some h) True Map.empty) = descendants_of rows h True"
    by (rule get_descendants_sound) simp
  moreover have "h \<in> tg_id ` set (filter tg_live rows)"
    using ancestors_visible[OF assms] by (simp add: visible_groups_def)
  ultimately show ?thesis by simp
qed

text \<open>Every offered key apart from the automatic one is that of something the user may select.\<close>

lemma offered_may_select:
  assumes w: "world_current db now (us_id u) w" and groups: "keyed tg_id (td_groups db)"
    and offered: "(text, label) \<in> set (fst (workspace_choices db group_name now (Some u) w))" "text \<noteq> WORKSPACE_AUTOMATIC"
  shows "\<exists>key. text = key_text key \<and> may_select db now u key \<and>
    (\<forall>i. key = KeyTenant i \<longrightarrow> i \<in> tn_id ` set (td_tenants db)) \<and> (\<forall>i. key = KeyGroup i \<longrightarrow> i \<in> tg_id ` set (td_groups db))"
proof -
  obtain ids w1 where acc: "workspace_tenant_ids db now (Some u) w = (ids, w1)" by (cases "workspace_tenant_ids db now (Some u) w")
  note ok = workspace_tenant_ids_ok[OF w acc]
  have kinds: ?thesis if listed: "(text, label) \<in> set (listed_choices le group_name gs ts)"
      and all: "may_select db now u KeyAll"
      and g: "\<And>x. x \<in> set gs \<Longrightarrow> x \<in> set (td_groups db) \<and> may_select db now u (KeyGroup (tg_id x))"
      and t: "\<And>x. x \<in> set ts \<Longrightarrow> x \<in> set (td_tenants db) \<and> may_select db now u (KeyTenant (tn_id x))" for le gs ts
  proof -
    consider "text = key_text KeyAll" | x where "x \<in> set gs" "text = key_text (KeyGroup (tg_id x))"
      | x where "x \<in> set ts" "text = key_text (KeyTenant (tn_id x))"
      using listed offered(2) by (auto simp: listed_choices_def key_text_def)
    then show ?thesis
    proof cases
      case 1
      then show ?thesis using all by (intro exI[of _ KeyAll]) simp
    next
      case (2 x)
      then show ?thesis using g[of x] by (intro exI[of _ "KeyGroup (tg_id x)"]) simp
    next
      case (3 x)
      then show ?thesis using t[of x] by (intro exI[of _ "KeyTenant (tn_id x)"]) simp
    qed
  qed
  show ?thesis
  proof (cases ids)
    case None
    then have su: "us_superuser u" using ok by simp
    have "(text, label) \<in> set (listed_choices (td_name_le db) group_name (filter tg_live (td_groups db)) (filter tn_live (td_tenants db)))"
      using offered(1) None acc by (simp add: workspace_choices_def)
    then show ?thesis by (rule kinds) (use su in \<open>auto simp: may_select_def workspace_reach_def\<close>)
  next
    case (Some xs)
    then have reach: "set xs = workspace_reach db now u" using ok by simp
    have "xs \<noteq> []" using offered Some acc by (auto simp: workspace_choices_def)
    then have listed: "(text, label) \<in> set (listed_choices (td_name_le db) group_name
        (filter (\<lambda>g. tg_id g \<in> set (workspace_group_ids db xs) \<and> tg_live g) (td_groups db))
        (filter (\<lambda>t. tn_id t \<in> set xs \<and> tn_live t) (td_tenants db)))"
      using offered(1) Some acc by (simp add: workspace_choices_def Let_def)
    have group: "may_select db now u (KeyGroup h)" if h: "h \<in> set (workspace_group_ids db xs)" for h
    proof -
      obtain t g where t: "t \<in> set (td_tenants db)" "tn_live t" "tn_id t \<in> set xs" "tn_group t = Some g"
          "h \<in> set (get_ancestor_tenant_group_ids (td_groups db) (Some g) True)"
        using h unfolding in_workspace_group_ids by blast
      then show ?thesis using ancestor_has_descendant[OF groups t(5)] reach by (auto simp: may_select_def)
    qed
    have all: "may_select db now u KeyAll" using \<open>xs \<noteq> []\<close> reach by (cases xs) (auto simp: may_select_def)
    show ?thesis using listed all
    proof (rule kinds)
      show "x \<in> set (td_groups db) \<and> may_select db now u (KeyGroup (tg_id x))"
        if "x \<in> set (filter (\<lambda>g. tg_id g \<in> set (workspace_group_ids db xs) \<and> tg_live g) (td_groups db))" for x
        using that group by simp
      show "x \<in> set (td_tenants db) \<and> may_select db now u (KeyTenant (tn_id x))"
        if "x \<in> set (filter (\<lambda>t. tn_id t \<in> set xs \<and> tn_live t) (td_tenants db))" for x
        using that reach by (simp add: may_select_def)
    qed
  qed
qed

text \<open>Every workspace a user is offered resolves, at the same instant and whatever was memoised in between, to just the tenant, the
  group or the union that it names.\<close>

theorem offered_workspace_resolves:
  assumes "world_current db now (us_id u) w" "world_current db now (us_id u) w2" "keyed tg_id (td_groups db)"
    and "\<forall>t \<in> set (td_tenants db). 0 < tn_id t" "\<forall>g \<in> set (td_groups db). 0 < tg_id g"
    and "(text, label) \<in> set (fst (workspace_choices db group_name now (Some u) w))" "text \<noteq> WORKSPACE_AUTOMATIC"
  shows "\<exists>key. text = key_text key \<and> parse_workspace_key (Some (StoredText text)) = Some key \<and>
    fst (resolve_workspace_selection db now (Some u) (Some (StoredText text)) w2) = Some (selection_for db u key)"
proof -
  obtain key where key: "text = key_text key" "may_select db now u key"
      "\<forall>i. key = KeyTenant i \<longrightarrow> i \<in> tn_id ` set (td_tenants db)" "\<forall>i. key = KeyGroup i \<longrightarrow> i \<in> tg_id ` set (td_groups db)"
    using offered_may_select[OF assms(1,3,6,7)] by blast
  have "positive_key key" using key(3,4) assms(4,5) by (cases key) (auto simp: positive_key_def)
  then have parse: "parse_workspace_key (Some (StoredText text)) = Some key" using parse_key_text key(1) by simp
  then have "fst (resolve_workspace_selection db now (Some u) (Some (StoredText text)) w2) = Some (selection_for db u key)"
    using resolve_selection_eq[OF assms(2)] key(2) by simp
  then show ?thesis using key(1) parse by blast
qed

lemma sample_choices:
  "fst (workspace_choices sample_tenancy (\<lambda>_. ''G'') 50 (Some sample_user) sample_world) =
     [([], ''Automatic''), (''all'', ''All Tenants''), (''group:1'', ''G''), (''group:2'', ''G''), (''tenant:1'', ''msp''),
      (''tenant:2'', ''cust'')]"
  by code_simp

lemma sample_current: "world_current sample_tenancy 50 (us_id sample_user) sample_world"
  using sample_world_ok by (simp add: sample_world_def)

lemma sample_reach: "workspace_reach sample_tenancy 50 sample_user = {1, 2}"
proof -
  obtain ids w1 where run: "workspace_tenant_ids sample_tenancy 50 (Some sample_user) sample_world = (ids, w1)"
    by (cases "workspace_tenant_ids sample_tenancy 50 (Some sample_user) sample_world")
  have "fst (workspace_tenant_ids sample_tenancy 50 (Some sample_user) sample_world) = Some [1, 2]" by code_simp
  then have "ids = Some [1, 2]" using run by simp
  then show ?thesis using workspace_tenant_ids_ok[OF sample_current run] by auto
qed

theorem offered_workspace_resolves_witness:
  "fst (resolve_workspace_selection sample_tenancy 50 (Some sample_user) (Some (StoredText ''group:2'')) sample_world) =
     Some (no_selection\<lparr>ws_group := Some \<lparr>tg_id = 2, tg_parent = Some 1, tg_deleted = None\<rparr>\<rparr>)"
proof -
  have ids: "keyed tg_id (td_groups sample_tenancy)" "\<forall>t \<in> set (td_tenants sample_tenancy). 0 < tn_id t"
      "\<forall>g \<in> set (td_groups sample_tenancy). 0 < tg_id g"
    by (simp_all add: sample_db sample_groups_def keyed_def)
  have in_list: "(''group:2'', ''G'') \<in> set (fst (workspace_choices sample_tenancy (\<lambda>_. ''G'') 50 (Some sample_user) sample_world))"
      "''group:2'' \<noteq> WORKSPACE_AUTOMATIC"
    by (simp_all add: sample_choices WORKSPACE_AUTOMATIC_def)
  have parse: "parse_workspace_key (Some (StoredText ''group:2'')) = Some (KeyGroup 2)" by code_simp
  have sel: "selection_for sample_tenancy sample_user (KeyGroup 2) =
      no_selection\<lparr>ws_group := Some \<lparr>tg_id = 2, tg_parent = Some 1, tg_deleted = None\<rparr>\<rparr>"
    by code_simp
  show ?thesis
    using offered_workspace_resolves[OF sample_current sample_current ids in_list] parse sel by auto
qed

theorem stored_workspace_exact_witness:
  "fst (resolve_workspace_selection sample_tenancy 50 (Some sample_user) (Some (StoredText ''tenant:3'')) sample_world) = None"
proof -
  have "parse_workspace_key (Some (StoredText ''tenant:3'')) = Some (KeyTenant 3)" by code_simp
  moreover have "\<not> may_select sample_tenancy 50 sample_user (KeyTenant 3)" by (simp add: may_select_def sample_reach)
  ultimately show ?thesis using stored_workspace_exact[OF sample_current, of "Some (StoredText ''tenant:3'')"] by auto
qed

end
