(* ===== verification/TenantSession.thy ===== *)
theory TenantSession
  imports Workspaces
begin

text \<open>
  The tenant middleware, \<open>TenantMiddleware\<close> of \<^verbatim>\<open>itambox/middleware.py\<close>: it turns the session, the switch parameters
  of the query and the stored default workspace into the tenancy scope that a request runs under, and keeps the session in step.  A session is a map
  from keys to JSON values; the request carries its session and the scope attributes set on it, the \<open>world\<close> of \<^verbatim>\<open>Rbac\<close> the
  context and the memos.  Rows come in table order, which stands for the order the database chooses among the memberships of one user.
\<close>

section \<open>Requests and sessions\<close>

datatype session_value = SvNone | SvInt int | SvText string | SvBool bool

type_synonym session = "string \<Rightarrow> session_value option"

definition truthy :: "session_value \<Rightarrow> bool" where
  "truthy v = (case v of SvNone \<Rightarrow> False | SvInt i \<Rightarrow> i \<noteq> 0 | SvText s \<Rightarrow> s \<noteq> [] | SvBool b \<Rightarrow> b)"

definition session_get :: "session \<Rightarrow> string \<Rightarrow> session_value" where
  "session_get s key = (case s key of None \<Rightarrow> SvNone | Some v \<Rightarrow> v)"

definition session_pop :: "string \<Rightarrow> session \<Rightarrow> session" where
  "session_pop key s = s(key := None)"

definition session_put :: "string \<Rightarrow> session_value \<Rightarrow> session \<Rightarrow> session" where
  "session_put key v s = s(key \<mapsto> v)"

record request_scope =
  rs_tenant :: "tenant option"
  rs_group :: "tenant_group option"
  rs_membership :: "membership option"
  rs_all_accessible :: bool

definition no_scope :: request_scope where
  "no_scope = \<lparr>rs_tenant = None, rs_group = None, rs_membership = None, rs_all_accessible = False\<rparr>"

record http_request =
  hr_user :: "user option"
  hr_get :: "string \<Rightarrow> string option"
  hr_authorization :: string
  hr_session :: session
  hr_scope :: request_scope
  hr_scope_notice :: bool

datatype middleware_error = BadIdentifier | GroupMissing

abbreviation TENANT_ID :: string where "TENANT_ID \<equiv> ''active_tenant_id''"

abbreviation GROUP_ID :: string where "GROUP_ID \<equiv> ''active_tenant_group_id''"

abbreviation ALL_ACCESSIBLE :: string where "ALL_ACCESSIBLE \<equiv> ''active_all_accessible''"

text \<open>\<open>int(value)\<close> of a text: blanks around it, a sign, and single underscores between digits are accepted, and no more than
  4300 digits.\<close>

definition is_digit :: "char \<Rightarrow> bool" where
  "is_digit c \<longleftrightarrow> 48 \<le> (of_char c :: nat) \<and> (of_char c :: nat) \<le> 57"

fun digit_groups :: "bool \<Rightarrow> string \<Rightarrow> bool" where
  "digit_groups after_digit [] = after_digit"
| "digit_groups after_digit (c # cs) =
     (if is_digit c then digit_groups True cs else after_digit \<and> c = CHR ''_'' \<and> digit_groups False cs)"

definition py_int :: "string \<Rightarrow> int option" where
  "py_int s =
     (let t = py_strip s;
          (sign, body) = (case t of CHR ''-'' # cs \<Rightarrow> (- 1, cs) | CHR ''+'' # cs \<Rightarrow> (1, cs) | _ \<Rightarrow> (1, t));
          digits = filter is_digit body
      in if digit_groups False body \<and> length digits \<le> 4300 then Some (sign * int (digits_value digits)) else None)"

definition parse_id :: "session_value \<Rightarrow> int option" where
  "parse_id v = (case v of SvNone \<Rightarrow> None | SvInt i \<Rightarrow> Some i | SvText s \<Rightarrow> py_int s | SvBool b \<Rightarrow> Some (of_bool b))"

section \<open>Switching\<close>

definition apply_default_workspace ::
    "tenancy \<Rightarrow> instant \<Rightarrow> (string \<Rightarrow> stored_value option) option \<Rightarrow> http_request \<Rightarrow> world \<Rightarrow> session \<times> world" where
  "apply_default_workspace db now data rq w =
     (let (selection, w1) = resolve_default_workspace db now (hr_user rq) data w in
      case selection of
        None \<Rightarrow> (hr_session rq, w1)
      | Some sel \<Rightarrow>
          (let s = session_pop ALL_ACCESSIBLE (session_pop GROUP_ID (session_pop TENANT_ID (hr_session rq)))
           in (case ws_tenant sel of
                 Some t \<Rightarrow> session_put TENANT_ID (SvInt (tn_id t)) s
               | None \<Rightarrow>
                   (case ws_group sel of
                      Some g \<Rightarrow> session_put GROUP_ID (SvInt (tg_id g)) s
                    | None \<Rightarrow> if ws_all_accessible sel then session_put ALL_ACCESSIBLE (SvBool True) s else s), w1)))"

record scope_ids =
  si_tenant :: session_value
  si_group :: session_value
  si_all :: bool

definition session_scope :: "session \<Rightarrow> scope_ids" where
  "session_scope s = \<lparr>si_tenant = session_get s TENANT_ID, si_group = session_get s GROUP_ID,
     si_all = truthy (session_get s ALL_ACCESSIBLE)\<rparr>"

text \<open>\<open>_resolve_switch_params\<close>: the ids after the switch, the session and the world.\<close>

definition resolve_switch_params ::
    "tenancy \<Rightarrow> instant \<Rightarrow> (string \<Rightarrow> stored_value option) option \<Rightarrow> http_request \<Rightarrow> scope_ids \<Rightarrow> world \<Rightarrow> scope_ids \<times> session \<times> world" where
  "resolve_switch_params db now data rq ids w =
     (let s = hr_session rq in
      case hr_get rq ''switch_tenant'' of
        Some q \<Rightarrow>
          (let v = (if q = [] then SvNone else SvText q)
           in (\<lparr>si_tenant = v, si_group = SvNone, si_all = False\<rparr>,
               session_pop ALL_ACCESSIBLE (session_pop GROUP_ID (session_put TENANT_ID v s)), w))
      | None \<Rightarrow>
          (case hr_get rq ''switch_tenant_group'' of
             Some q \<Rightarrow>
               (let v = (if q = [] then SvNone else SvText q)
                in (\<lparr>si_tenant = SvNone, si_group = v, si_all = False\<rparr>,
                    session_pop ALL_ACCESSIBLE (session_pop TENANT_ID (session_put GROUP_ID v s)), w))
           | None \<Rightarrow>
               (if hr_get rq ''switch_all_accessible'' \<noteq> None
                then (\<lparr>si_tenant = SvNone, si_group = SvNone, si_all = True\<rparr>,
                      session_pop GROUP_ID (session_pop TENANT_ID (session_put ALL_ACCESSIBLE (SvBool True) s)), w)
                else if hr_authorization rq = [] \<and> s TENANT_ID = None \<and> s GROUP_ID = None \<and> s ALL_ACCESSIBLE = None
                then (let (s1, w1) = apply_default_workspace db now data rq w in (session_scope s1, s1, w1))
                else (ids, s, w))))"

text \<open>\<open>str(value)\<close>; \<open>_scope_signature\<close> and the notice of a switch that changed the scope.\<close>

definition session_str :: "session_value \<Rightarrow> string" where
  "session_str v = (case v of SvNone \<Rightarrow> ''None'' | SvInt i \<Rightarrow> py_str_int i | SvText s \<Rightarrow> s | SvBool b \<Rightarrow> if b then ''True'' else ''False'')"

definition scope_signature :: "scope_ids \<Rightarrow> string option \<times> string option \<times> bool" where
  "scope_signature ids =
     (let part = (\<lambda>v. if v = SvNone \<or> v = SvText [] then None else Some (session_str v))
      in (part (si_tenant ids), part (si_group ids), si_all ids))"

definition apply_scope_notice :: "http_request \<Rightarrow> bool" where
  "apply_scope_notice rq \<longleftrightarrow>
     hr_get rq ''scope_notice'' = Some ''filters'' \<and> hr_get rq ''tenant'' = None \<and>
     (\<exists>key \<in> set [''switch_tenant'', ''switch_tenant_group'', ''switch_all_accessible'']. hr_get rq key \<noteq> None)"

section \<open>Resolution\<close>

definition live_tenant :: "tenancy \<Rightarrow> int \<Rightarrow> tenant option" where
  "live_tenant db i = find (\<lambda>t. tn_id t = i \<and> tn_live t) (td_tenants db)"

definition resolve_superuser_scope :: "tenancy \<Rightarrow> scope_ids \<Rightarrow> session \<Rightarrow> middleware_error + request_scope \<times> session" where
  "resolve_superuser_scope db ids s0 =
     (let s = session_pop ALL_ACCESSIBLE s0 in
      if truthy (si_tenant ids)
      then (case parse_id (si_tenant ids) of
              None \<Rightarrow> Inl BadIdentifier
            | Some i \<Rightarrow>
                (case live_tenant db i of
                   Some t \<Rightarrow> Inr (no_scope\<lparr>rs_tenant := Some t\<rparr>, s)
                 | None \<Rightarrow> Inr (no_scope, session_pop TENANT_ID s)))
      else if truthy (si_group ids)
      then (case parse_id (si_group ids) of
              None \<Rightarrow> Inl BadIdentifier
            | Some i \<Rightarrow>
                (case find (\<lambda>g. tg_id g = i \<and> tg_live g) (td_groups db) of
                   Some g \<Rightarrow> Inr (no_scope\<lparr>rs_group := Some g\<rparr>, s)
                 | None \<Rightarrow> Inr (no_scope, session_pop GROUP_ID s)))
      else Inr (no_scope, s))"

definition usable_membership :: "pk \<Rightarrow> membership \<Rightarrow> bool" where
  "usable_membership uid m \<longleftrightarrow> mb_user m = uid \<and> tn_live (mb_tenant m) \<and> mb_active m"

definition active_membership :: "tenancy \<Rightarrow> pk \<Rightarrow> pk \<Rightarrow> membership option" where
  "active_membership db uid tenant_id =
     find (\<lambda>m. usable_membership uid m \<and> tn_id (mb_tenant m) = tenant_id) (td_memberships db)"

definition first_active_membership_in :: "tenancy \<Rightarrow> pk \<Rightarrow> pk list \<Rightarrow> membership option" where
  "first_active_membership_in db uid ids =
     (if ids = [] then None
      else find (\<lambda>m. usable_membership uid m \<and> tn_id (mb_tenant m) \<in> set ids) (td_memberships db))"

definition resolve_selected_tenant :: "tenancy \<Rightarrow> pk \<Rightarrow> session_value \<Rightarrow> pk list \<Rightarrow> tenant option \<times> membership option" where
  "resolve_selected_tenant db uid selected accessible =
     (case parse_id selected of
        None \<Rightarrow> (None, None)
      | Some i \<Rightarrow>
          if i \<notin> set accessible then (None, None)
          else (case active_membership db uid i of
                  Some m \<Rightarrow> (Some (mb_tenant m), Some m)
                | None \<Rightarrow> (live_tenant db i, None)))"

definition resolve_selected_group ::
    "tenancy \<Rightarrow> pk \<Rightarrow> session_value \<Rightarrow> pk list \<Rightarrow> world \<Rightarrow> (middleware_error + (tenant_group \<times> membership option) option) \<times> world" where
  "resolve_selected_group db uid selected accessible w =
     (let group_id = parse_id selected;
          (descendants, cache) = get_descendant_tenant_group_ids (td_groups db) group_id True (cx_tree_cache (w_ctx w));
          w1 = w\<lparr>w_ctx := (w_ctx w)\<lparr>cx_tree_cache := cache\<rparr>\<rparr>;
          group_tenant_ids = map tn_id (filter (\<lambda>t. (case tn_group t of None \<Rightarrow> False | Some h \<Rightarrow> h \<in> set descendants) \<and> tn_live t) (td_tenants db));
          authorized = filter (\<lambda>i. i \<in> set group_tenant_ids) accessible
      in case group_id of
           None \<Rightarrow> (Inr None, w1)
         | Some gid \<Rightarrow>
             if authorized = [] then (Inr None, w1)
             else (case find (\<lambda>g. tg_id g = gid) (td_groups db) of
                     None \<Rightarrow> (Inl GroupMissing, w1)
                   | Some g \<Rightarrow> (Inr (Some (g, first_active_membership_in db uid authorized)), w1)))"

definition resolve_default_scope :: "tenancy \<Rightarrow> pk \<Rightarrow> pk list \<Rightarrow> tenant option \<times> membership option" where
  "resolve_default_scope db uid accessible =
     (case first_active_membership_in db uid accessible of
        Some m \<Rightarrow> (Some (mb_tenant m), Some m)
      | None \<Rightarrow>
          if accessible = [] then (None, None)
          else (case order_by_name (td_name_le db) tn_name (filter (\<lambda>t. tn_id t \<in> set accessible \<and> tn_live t) (td_tenants db)) of
                  [] \<Rightarrow> (None, None)
                | t # _ \<Rightarrow> (Some t, None)))"

text \<open>The scope of the session's choice, before the default: \<open>_resolve_all_accessible\<close>, then the tenant, then the group.\<close>

definition resolve_chosen_scope ::
    "tenancy \<Rightarrow> pk \<Rightarrow> scope_ids \<Rightarrow> pk list \<Rightarrow> session \<Rightarrow> world \<Rightarrow> (middleware_error + request_scope \<times> session) \<times> world" where
  "resolve_chosen_scope db uid ids accessible s w =
     (if si_all ids
      then (if accessible \<noteq> [] then (Inr (no_scope\<lparr>rs_all_accessible := True\<rparr>, s), w)
            else (Inr (no_scope, session_pop ALL_ACCESSIBLE s), w))
      else if truthy (si_tenant ids)
      then (let (t, m) = resolve_selected_tenant db uid (si_tenant ids) accessible
            in (Inr (no_scope\<lparr>rs_tenant := t, rs_membership := m\<rparr>, if t = None then session_pop TENANT_ID s else s), w))
      else if truthy (si_group ids)
      then (let (r, w1) = resolve_selected_group db uid (si_group ids) accessible w
            in (case r of
                  Inl e \<Rightarrow> (Inl e, w1)
                | Inr None \<Rightarrow> (Inr (no_scope, session_pop GROUP_ID s), w1)
                | Inr (Some (g, m)) \<Rightarrow> (Inr (no_scope\<lparr>rs_group := Some g, rs_membership := m\<rparr>, s), w1)))
      else (Inr (no_scope, s), w))"

definition default_if_unscoped :: "tenancy \<Rightarrow> pk \<Rightarrow> pk list \<Rightarrow> request_scope \<Rightarrow> session \<Rightarrow> request_scope \<times> session" where
  "default_if_unscoped db uid accessible sc s =
     (if rs_tenant sc = None \<and> rs_group sc = None \<and> \<not> rs_all_accessible sc
      then (let (t, m) = resolve_default_scope db uid accessible
            in (sc\<lparr>rs_tenant := t, rs_membership := m\<rparr>,
                (case t of
                   Some x \<Rightarrow> session_pop GROUP_ID (session_put TENANT_ID (SvInt (tn_id x)) s)
                 | None \<Rightarrow> session_pop GROUP_ID (session_pop TENANT_ID s))))
      else (sc, s))"

definition resolve_standard_scope ::
    "tenancy \<Rightarrow> pk \<Rightarrow> scope_ids \<Rightarrow> pk list \<Rightarrow> session \<Rightarrow> world \<Rightarrow> (middleware_error + request_scope \<times> session) \<times> world" where
  "resolve_standard_scope db uid ids accessible s w =
     (let (r, w1) = resolve_chosen_scope db uid ids accessible s w
      in (case r of Inl e \<Rightarrow> Inl e | Inr (sc, s1) \<Rightarrow> Inr (default_if_unscoped db uid accessible sc s1), w1))"

section \<open>The middleware\<close>

definition bind_scope :: "request_scope \<Rightarrow> ctx \<Rightarrow> ctx" where
  "bind_scope sc c =
     set_current_all_accessible (rs_all_accessible sc)
       (set_current_membership (rs_membership sc)
         (set_current_tenant_group (map_option tg_id (rs_group sc)) (set_current_tenant (rs_tenant sc) c)))"

definition bind_request_scope :: "request_scope \<Rightarrow> http_request \<Rightarrow> world \<Rightarrow> http_request \<times> world" where
  "bind_request_scope sc rq w = (rq\<lparr>hr_scope := sc\<rparr>, w\<lparr>w_ctx := bind_scope sc (w_ctx w)\<rparr>)"

text \<open>\<open>process_request\<close> without the saved context it returns, which is the one it was called in.\<close>

definition process_request ::
    "tenancy \<Rightarrow> instant \<Rightarrow> (string \<Rightarrow> stored_value option) option \<Rightarrow> http_request \<Rightarrow> world \<Rightarrow> middleware_error + http_request \<times> world" where
  "process_request db now data rq w0 =
     (let w = w0\<lparr>w_ctx := (w_ctx w0)\<lparr>cx_tree_cache := Map.empty\<rparr>\<rparr> in
      case hr_user rq of
        None \<Rightarrow> Inr (bind_request_scope no_scope rq w)
      | Some u \<Rightarrow>
          if \<not> us_authenticated u then Inr (bind_request_scope no_scope rq w)
          else
            (let before = session_scope (hr_session rq);
                 (ids, s, w1) = resolve_switch_params db now data rq before w;
                 rq1 = rq\<lparr>hr_session := s, hr_scope_notice := (scope_signature ids \<noteq> scope_signature before \<and> apply_scope_notice rq)\<rparr>
             in if us_superuser u
                then (case resolve_superuser_scope db ids s of
                        Inl e \<Rightarrow> Inl e
                      | Inr (sc, s1) \<Rightarrow> Inr (bind_request_scope sc (rq1\<lparr>hr_session := s1\<rparr>) w1))
                else (let (accessible, w2) = accessible_tenant_ids db now (Some u) w1;
                          (r, w3) = resolve_standard_scope db (us_id u) ids accessible s w2
                      in (case r of
                            Inl e \<Rightarrow> Inl e
                          | Inr (sc, s1) \<Rightarrow> Inr (bind_request_scope sc (rq1\<lparr>hr_session := s1\<rparr>) w3)))))"

text \<open>\<open>process_response\<close> puts the four variables back, after a response and after an exception alike.\<close>

definition process_response :: "ctx \<Rightarrow> world \<Rightarrow> world" where
  "process_response prev w =
     w\<lparr>w_ctx := set_current_all_accessible (cx_all_accessible prev)
        (set_current_membership (cx_membership prev)
          (set_current_tenant_group (cx_group prev) (set_current_tenant (cx_tenant prev) (w_ctx w))))\<rparr>"

definition run_request ::
    "tenancy \<Rightarrow> instant \<Rightarrow> (string \<Rightarrow> stored_value option) option \<Rightarrow> (http_request \<Rightarrow> world \<Rightarrow> 'r \<times> world) \<Rightarrow> http_request \<Rightarrow> world \<Rightarrow>
       middleware_error + 'r \<times> world" where
  "run_request db now data get_response rq w =
     (case process_request db now data rq w of
        Inl e \<Rightarrow> Inl e
      | Inr (rq1, w1) \<Rightarrow> (let (response, w2) = get_response rq1 w1 in Inr (response, process_response (w_ctx w) w2)))"

text \<open>\<open>CurrentUserMiddleware\<close>, which runs around it: the user and a fresh request id are bound, the invalidation marks of the
  request are opened, and all three are put back.\<close>

definition enter_user_request :: "int \<Rightarrow> user option \<Rightarrow> world \<Rightarrow> world" where
  "enter_user_request request_id u w =
     w\<lparr>w_ctx := (w_ctx w)\<lparr>cx_user := (case u of None \<Rightarrow> None | Some x \<Rightarrow> if us_authenticated x then Some x else None),
                         cx_request := Some request_id\<rparr>,
       w_az := begin_authorization_request request_id (w_az w)\<rparr>"

definition exit_user_request :: "world \<Rightarrow> world \<Rightarrow> world" where
  "exit_user_request outer w =
     w\<lparr>w_az := end_authorization_request (az_inval (w_az outer)) (w_az w),
       w_ctx := (w_ctx w)\<lparr>cx_user := cx_user (w_ctx outer), cx_request := cx_request (w_ctx outer)\<rparr>\<rparr>"

text \<open>The two middlewares around a view, which may do anything to the world.\<close>

definition serve ::
    "tenancy \<Rightarrow> instant \<Rightarrow> (string \<Rightarrow> stored_value option) option \<Rightarrow> int \<Rightarrow> (http_request \<Rightarrow> world \<Rightarrow> 'r \<times> world) \<Rightarrow> http_request \<Rightarrow> world \<Rightarrow>
       middleware_error + 'r \<times> world" where
  "serve db now data request_id get_response rq w =
     (case run_request db now data get_response rq (enter_user_request request_id (hr_user rq) w) of
        Inl e \<Rightarrow> Inl e
      | Inr (response, w1) \<Rightarrow> Inr (response, exit_user_request w w1))"

text \<open>A served request leaves the scope, the user, the request id and the invalidation marks of its context as they were,
  whatever the view did to them.\<close>

theorem served_request_restores:
  assumes "serve db now data request_id get_response rq w = Inr (response, w')"
  shows "cx_tenant (w_ctx w') = cx_tenant (w_ctx w) \<and> cx_group (w_ctx w') = cx_group (w_ctx w) \<and>
    cx_membership (w_ctx w') = cx_membership (w_ctx w) \<and> cx_all_accessible (w_ctx w') = cx_all_accessible (w_ctx w) \<and>
    cx_user (w_ctx w') = cx_user (w_ctx w) \<and> cx_request (w_ctx w') = cx_request (w_ctx w) \<and> az_inval (w_az w') = az_inval (w_az w)"
proof -
  obtain rq1 w1 where "run_request db now data get_response rq (enter_user_request request_id (hr_user rq) w) = Inr (response, w1)"
      "w' = exit_user_request w w1"
    using assms by (auto simp: serve_def split: sum.splits prod.splits)
  then obtain w2 where "w' = exit_user_request w (process_response (w_ctx (enter_user_request request_id (hr_user rq) w)) w2)"
    by (auto simp: run_request_def Let_def split: sum.splits prod.splits)
  then show ?thesis
    by (simp add: exit_user_request_def process_response_def enter_user_request_def end_authorization_request_def ctx_setters)
qed

text \<open>Without an authenticated user no scope is bound, whatever the session holds.\<close>

theorem anonymous_request_unscoped:
  assumes "case hr_user rq of None \<Rightarrow> True | Some u \<Rightarrow> \<not> us_authenticated u"
  shows "\<exists>rq' w'. process_request db now data rq w = Inr (rq', w') \<and> hr_scope rq' = no_scope \<and> hr_session rq' = hr_session rq \<and>
    cx_tenant (w_ctx w') = None \<and> cx_group (w_ctx w') = None \<and> cx_membership (w_ctx w') = None \<and> \<not> cx_all_accessible (w_ctx w')"
  using assms by (cases "hr_user rq")
    (simp_all add: process_request_def bind_request_scope_def bind_scope_def no_scope_def ctx_setters Let_def)

text \<open>A switch parameter that is not a number is ignored for other users, but ends the request of a superuser with an uncaught error.\<close>

theorem superuser_switch_raises:
  assumes "hr_user rq = Some u" "us_authenticated u" "us_superuser u" "hr_get rq ''switch_tenant'' = Some q" "q \<noteq> []" "py_int q = None"
  shows "process_request db now data rq w = Inl BadIdentifier"
  using assms
  by (simp add: process_request_def resolve_switch_params_def resolve_superuser_scope_def truthy_def parse_id_def Let_def)

section \<open>Which scopes are allowed\<close>

text \<open>At most one of tenant, group and union; a live tenant the user reaches; a live group with such a tenant in its subtree; the
  union only for someone who reaches a tenant; and a membership of the user inside the bound tenant or group.\<close>

definition scope_allowed :: "tenancy \<Rightarrow> instant \<Rightarrow> pk \<Rightarrow> request_scope \<Rightarrow> bool" where
  "scope_allowed db now uid sc \<longleftrightarrow>
     (\<forall>t. rs_tenant sc = Some t \<longrightarrow>
        t \<in> set (td_tenants db) \<and> tn_live t \<and> tn_id t \<in> reachable db now uid \<and> rs_group sc = None \<and> \<not> rs_all_accessible sc) \<and>
     (\<forall>g. rs_group sc = Some g \<longrightarrow>
        g \<in> set (td_groups db) \<and> tg_live g \<and> \<not> rs_all_accessible sc \<and>
        (\<exists>t \<in> set (td_tenants db). tn_live t \<and> tn_id t \<in> reachable db now uid \<and> in_group db (tg_id g) t)) \<and>
     (rs_all_accessible sc \<longrightarrow> reachable db now uid \<noteq> {}) \<and>
     (\<forall>m. rs_membership sc = Some m \<longrightarrow>
        m \<in> set (td_memberships db) \<and> usable_membership uid m \<and> tn_id (mb_tenant m) \<in> reachable db now uid \<and>
        (rs_tenant sc = Some (mb_tenant m) \<or> (\<exists>g. rs_group sc = Some g \<and> in_group db (tg_id g) (mb_tenant m))))"

definition scoped :: "request_scope \<Rightarrow> bool" where
  "scoped sc \<longleftrightarrow> rs_tenant sc \<noteq> None \<or> rs_group sc \<noteq> None \<or> rs_all_accessible sc"

definition memberships_ok :: "tenancy \<Rightarrow> bool" where
  "memberships_ok db \<longleftrightarrow> (\<forall>m \<in> set (td_memberships db). mb_tenant m \<in> set (td_tenants db))"

lemma find_some: "find P xs = Some x \<Longrightarrow> x \<in> set xs \<and> P x"
  by (auto simp: find_Some_iff)

lemma active_membership_some:
  assumes "active_membership db uid i = Some m"
  shows "m \<in> set (td_memberships db) \<and> usable_membership uid m \<and> tn_id (mb_tenant m) = i"
  using find_some[OF assms[unfolded active_membership_def]] .

lemma first_active_some:
  assumes "first_active_membership_in db uid ids = Some m"
  shows "m \<in> set (td_memberships db) \<and> usable_membership uid m \<and> tn_id (mb_tenant m) \<in> set ids"
proof -
  have "find (\<lambda>m. usable_membership uid m \<and> tn_id (mb_tenant m) \<in> set ids) (td_memberships db) = Some m"
    using assms by (simp add: first_active_membership_in_def split: if_splits)
  then show ?thesis by (rule find_some)
qed

lemma live_tenant_some:
  assumes "live_tenant db i = Some t"
  shows "t \<in> set (td_tenants db) \<and> tn_id t = i \<and> tn_live t"
  using find_some[OF assms[unfolded live_tenant_def]] .

lemma allowed_none: "scope_allowed db now uid no_scope"
  by (simp add: scope_allowed_def no_scope_def)

lemma allowed_tenant:
  assumes "t \<in> set (td_tenants db)" "tn_live t" "tn_id t \<in> reachable db now uid"
    and "\<And>m. mb = Some m \<Longrightarrow> m \<in> set (td_memberships db) \<and> usable_membership uid m \<and> mb_tenant m = t"
  shows "scope_allowed db now uid (no_scope\<lparr>rs_tenant := Some t, rs_membership := mb\<rparr>)"
  using assms by (auto simp: scope_allowed_def no_scope_def)

lemma in_group_descendants: "in_group db grp t \<longleftrightarrow> (\<exists>h. tn_group t = Some h \<and> h \<in> set (descendants_of (td_groups db) grp True))"
  by (simp add: in_group_def walk_desc_def)

lemma selected_tenant_allowed:
  assumes "memberships_ok db" "set accessible = reachable db now uid"
    and "resolve_selected_tenant db uid selected accessible = (Some t, mb)"
  shows "scope_allowed db now uid (no_scope\<lparr>rs_tenant := Some t, rs_membership := mb\<rparr>) \<and> parse_id selected = Some (tn_id t)"
proof -
  obtain i where i: "parse_id selected = Some i" "i \<in> set accessible"
    using assms(3) by (auto simp: resolve_selected_tenant_def split: option.splits if_splits)
  show ?thesis
  proof (cases "active_membership db uid i")
    case (Some m)
    then have m: "m \<in> set (td_memberships db)" "usable_membership uid m" "tn_id (mb_tenant m) = i"
      using active_membership_some[OF Some] by blast+
    have "t = mb_tenant m" "mb = Some m" using assms(3) i Some by (simp_all add: resolve_selected_tenant_def)
    moreover have "mb_tenant m \<in> set (td_tenants db)" "tn_live (mb_tenant m)"
      using m(1,2) assms(1) by (simp_all add: memberships_ok_def usable_membership_def)
    moreover have "tn_id (mb_tenant m) \<in> reachable db now uid" using m(3) i(2) assms(2) by simp
    ultimately show ?thesis using m i(1) by (auto intro: allowed_tenant)
  next
    case None
    then have found: "live_tenant db i = Some t" "mb = None" using assms(3) i by (simp_all add: resolve_selected_tenant_def)
    then have t: "t \<in> set (td_tenants db)" "tn_live t" "tn_id t = i" using live_tenant_some[OF found(1)] by blast+
    then show ?thesis using allowed_tenant[of t db now uid mb] \<open>mb = None\<close> i assms(2) by simp
  qed
qed

lemma default_scope_allowed:
  assumes "memberships_ok db" "set accessible = reachable db now uid"
    and "resolve_default_scope db uid accessible = (t, mb)"
  shows "scope_allowed db now uid (no_scope\<lparr>rs_tenant := t, rs_membership := mb\<rparr>) \<and> (accessible \<noteq> [] \<longrightarrow> t \<noteq> None)"
proof (cases "first_active_membership_in db uid accessible")
  case (Some m)
  then have m: "m \<in> set (td_memberships db)" "usable_membership uid m" "tn_id (mb_tenant m) \<in> set accessible"
    using first_active_some[OF Some] by blast+
  have "t = Some (mb_tenant m)" "mb = Some m" using assms(3) Some by (simp_all add: resolve_default_scope_def)
  moreover have "mb_tenant m \<in> set (td_tenants db)" "tn_live (mb_tenant m)"
    using m(1,2) assms(1) by (simp_all add: memberships_ok_def usable_membership_def)
  moreover have "tn_id (mb_tenant m) \<in> reachable db now uid" using m(3) assms(2) by simp
  ultimately show ?thesis using m by (auto intro: allowed_tenant)
next
  case None
  let ?rows = "filter (\<lambda>t. tn_id t \<in> set accessible \<and> tn_live t) (td_tenants db)"
  show ?thesis
  proof (cases "order_by_name (td_name_le db) tn_name ?rows")
    case Nil
    then have "set ?rows = {}" using set_order_by_name[of "td_name_le db" tn_name ?rows] by simp
    then have "accessible = []" using reachable_live[of "hd accessible" db now uid] assms(2) by (cases accessible) auto
    then show ?thesis using assms(3) None allowed_none
      by (simp add: resolve_default_scope_def no_scope_def)
  next
    case (Cons x xs)
    then have x: "x \<in> set ?rows" by (metis list.set_intros(1) set_order_by_name)
    then have "accessible \<noteq> []" by auto
    then have "t = Some x" "mb = None" using assms(3) None Cons by (simp_all add: resolve_default_scope_def)
    then show ?thesis using x allowed_tenant[of x db now uid mb] assms(2) by simp
  qed
qed

section \<open>The memos stay current\<close>

lemma walk_keeps_current:
  assumes "world_current db now uid w"
    and "get_descendant_tenant_group_ids (td_groups db) g live (cx_tree_cache (w_ctx w)) = (d, cache)"
  shows "world_current db now uid (w\<lparr>w_ctx := (w_ctx w)\<lparr>cx_tree_cache := cache\<rparr>\<rparr>)"
proof -
  have "cache_sound (td_groups db) (cx_tree_cache (w_ctx w))" using assms(1) unfolding world_ok_def by blast
  then have "cache_sound (td_groups db) cache"
    using assms(2) get_descendants_sound(2)[of "td_groups db" "cx_tree_cache (w_ctx w)" _ live] by (cases g) (simp, metis snd_conv)
  then show ?thesis using assms(1) by (simp add: world_ok_def)
qed

lemma reset_keeps_current:
  "world_current db now uid w \<Longrightarrow> world_current db now uid (w\<lparr>w_ctx := (w_ctx w)\<lparr>cx_tree_cache := Map.empty\<rparr>\<rparr>)"
  by (simp add: world_ok_def)

lemma group_workspace_world:
  assumes "world_current db now uid w"
  shows "world_current db now uid (snd (resolve_group_workspace db i ids w))"
proof -
  obtain d cache where walk: "get_descendant_tenant_group_ids (td_groups db) (Some i) True (cx_tree_cache (w_ctx w)) = (d, cache)"
    by (cases "get_descendant_tenant_group_ids (td_groups db) (Some i) True (cx_tree_cache (w_ctx w))")
  show ?thesis
  proof (cases "find (\<lambda>g. tg_id g = i \<and> tg_live g) (td_groups db)")
    case None
    then show ?thesis using assms by (simp add: resolve_group_workspace_def)
  next
    case (Some g)
    then have i: "tg_id g = i" using find_some[OF Some] by blast
    show ?thesis
    proof (cases ids)
      case None
      then show ?thesis using Some assms by (simp add: resolve_group_workspace_def)
    next
      case ids: (Some xs)
      have "snd (resolve_group_workspace db i ids w) = w\<lparr>w_ctx := (w_ctx w)\<lparr>cx_tree_cache := cache\<rparr>\<rparr>"
        using Some ids i walk by (simp add: resolve_group_workspace_def Let_def)
      then show ?thesis using walk_keeps_current[OF assms walk] by simp
    qed
  qed
qed

lemma selection_world:
  assumes "world_current db now (us_id u) w"
  shows "world_current db now (us_id u) (snd (resolve_workspace_selection db now (Some u) val w))"
proof (cases "parse_workspace_key val")
  case None
  then show ?thesis using assms by (simp add: resolve_workspace_selection_def)
next
  case (Some key)
  obtain ids w1 where acc: "workspace_tenant_ids db now (Some u) w = (ids, w1)" by (cases "workspace_tenant_ids db now (Some u) w")
  have ok: "world_current db now (us_id u) w1" using workspace_tenant_ids_ok[OF assms acc] by blast
  show ?thesis
  proof (cases key)
    case (KeyGroup i)
    have "snd (resolve_workspace_selection db now (Some u) val w) = snd (resolve_group_workspace db i ids w1)"
      using Some KeyGroup acc by (simp add: resolve_workspace_selection_def)
    then show ?thesis using group_workspace_world[OF ok] by simp
  qed (use Some acc ok in \<open>simp_all add: resolve_workspace_selection_def\<close>)
qed

lemma switch_world:
  assumes "world_current db now (us_id u) w" "hr_user rq = Some u"
  shows "world_current db now (us_id u) (snd (snd (resolve_switch_params db now data rq ids w)))"
proof -
  have "world_current db now (us_id u) (snd (apply_default_workspace db now data rq w))"
    using assms selection_world[OF assms(1)]
    by (cases data) (simp_all add: apply_default_workspace_def resolve_default_workspace_def split_def Let_def split: option.split)
  then show ?thesis using assms(1) by (simp add: resolve_switch_params_def Let_def split_def split: option.split)
qed

lemma accessible_tenant_ids_ok:
  assumes "world_current db now (us_id u) w" "us_authenticated u" "accessible_tenant_ids db now (Some u) w = (ids, w1)"
  shows "world_current db now (us_id u) w1 \<and> set ids = reachable db now (us_id u)"
proof -
  obtain r w' where run: "accessible_tenant_ids_with_expiry db now (Some u) w = (r, w')"
    by (cases "accessible_tenant_ids_with_expiry db now (Some u) w")
  then have "ids = fst r" "w1 = w'" using assms(3) by (simp_all add: accessible_tenant_ids_def)
  then show ?thesis using accessible_with_expiry_ok[OF assms(1,2) run] by blast
qed

section \<open>The resolved scope is allowed\<close>

lemma selected_group_allowed:
  assumes "memberships_ok db" "set accessible = reachable db now uid" "cache_sound (td_groups db) (cx_tree_cache (w_ctx w))"
    and "keyed tg_id (td_groups db)" "keyed tn_id (td_tenants db)"
  shows "\<exists>r. fst (resolve_selected_group db uid selected accessible w) = Inr r \<and>
    (\<forall>g mb. r = Some (g, mb) \<longrightarrow> parse_id selected = Some (tg_id g) \<and>
       scope_allowed db now uid (no_scope\<lparr>rs_group := Some g, rs_membership := mb\<rparr>))"
proof (cases "parse_id selected")
  case None
  then show ?thesis by (simp add: resolve_selected_group_def Let_def split_def)
next
  case (Some i)
  let ?walk = "get_descendant_tenant_group_ids (td_groups db) (Some i) True (cx_tree_cache (w_ctx w))"
  let ?here = "filter (\<lambda>t. (case tn_group t of None \<Rightarrow> False | Some h \<Rightarrow> h \<in> set (descendants_of (td_groups db) i True)) \<and> tn_live t) (td_tenants db)"
  let ?auth = "filter (\<lambda>x. x \<in> set (map tn_id ?here)) accessible"
  have walk: "fst ?walk = descendants_of (td_groups db) i True" by (rule get_descendants_sound[OF assms(3)])
  have run: "fst (resolve_selected_group db uid selected accessible w) =
      (if ?auth = [] then Inr None
       else case find (\<lambda>g. tg_id g = i) (td_groups db) of
              None \<Rightarrow> Inl GroupMissing | Some g \<Rightarrow> Inr (Some (g, first_active_membership_in db uid ?auth)))"
    unfolding resolve_selected_group_def Let_def Some option.case split_def walk by (simp split: option.split)
  have here: "t \<in> set ?here \<longleftrightarrow> t \<in> set (td_tenants db) \<and> tn_live t \<and> in_group db i t" for t
    by (auto simp: in_group_descendants split: option.splits)
  have auth: "x \<in> set ?auth \<longleftrightarrow> x \<in> set accessible \<and> x \<in> tn_id ` set ?here" for x
    by auto
  show ?thesis
  proof (cases "?auth = []")
    case True
    then show ?thesis using run by simp
  next
    case False
    then have "hd ?auth \<in> set ?auth" by (rule hd_in_set)
    then have "hd ?auth \<in> tn_id ` set ?here" "hd ?auth \<in> set accessible" using auth by blast+
    from \<open>hd ?auth \<in> tn_id ` set ?here\<close> obtain t where t: "t \<in> set ?here" "hd ?auth = tn_id t" by (rule imageE)
    have acc: "tn_id t \<in> set accessible" using \<open>hd ?auth \<in> set accessible\<close> unfolding t(2) .
    then have t': "t \<in> set (td_tenants db)" "tn_live t" "in_group db i t" "tn_id t \<in> reachable db now uid"
      using t(1) acc unfolding here assms(2) by blast+
    then have "set (descendants_of (td_groups db) i True) \<noteq> {}" by (auto simp: in_group_descendants)
    then have live: "i \<in> tg_id ` set (filter tg_live (td_groups db))" by (simp add: set_descendants_of split: if_splits)
    then obtain g0 where g0: "g0 \<in> set (td_groups db)" "tg_live g0" "tg_id g0 = i" by auto
    then obtain g where find: "find (\<lambda>g. tg_id g = i) (td_groups db) = Some g"
      using find_exists[of g0 "td_groups db" "\<lambda>g. tg_id g = i"] by blast
    then have g: "g \<in> set (td_groups db)" "tg_id g = i" using find_some[OF find] by blast+
    then have "g = g0" using keyed_inj[OF assms(4) g(1) g0(1)] g(2) g0(3) by metis
    let ?mb = "first_active_membership_in db uid ?auth"
    have member: "m \<in> set (td_memberships db) \<and> usable_membership uid m \<and> tn_id (mb_tenant m) \<in> reachable db now uid \<and> in_group db i (mb_tenant m)"
      if some: "?mb = Some m" for m
    proof -
      have m: "m \<in> set (td_memberships db)" "usable_membership uid m" "tn_id (mb_tenant m) \<in> set ?auth"
        using first_active_some[OF some] by blast+
      have row: "mb_tenant m \<in> set (td_tenants db)" using assms(1) m(1) by (simp add: memberships_ok_def)
      have "tn_id (mb_tenant m) \<in> tn_id ` set ?here" "tn_id (mb_tenant m) \<in> set accessible"
        using m(3) auth by blast+
      from \<open>tn_id (mb_tenant m) \<in> tn_id ` set ?here\<close> obtain t where t: "t \<in> set ?here" "tn_id (mb_tenant m) = tn_id t" by (rule imageE)
      have "t \<in> set (td_tenants db)" "in_group db i t" using t(1) unfolding here by blast+
      then have "in_group db i (mb_tenant m)" using keyed_inj[OF assms(5) row] t(2) by metis
      then show ?thesis using m(1,2) \<open>tn_id (mb_tenant m) \<in> set accessible\<close> assms(2) by simp
    qed
    have "scope_allowed db now uid (no_scope\<lparr>rs_group := Some g, rs_membership := ?mb\<rparr>)"
      using g g0 t' member \<open>g = g0\<close> by (auto simp: scope_allowed_def no_scope_def)
    then show ?thesis using run False find Some g by simp
  qed
qed

lemma chosen_scope_allowed:
  assumes ok: "memberships_ok db" "set accessible = reachable db now uid" "cache_sound (td_groups db) (cx_tree_cache (w_ctx w))"
    "keyed tg_id (td_groups db)" "keyed tn_id (td_tenants db)"
  shows "\<exists>sc s1. fst (resolve_chosen_scope db uid ids accessible s w) = Inr (sc, s1) \<and> scope_allowed db now uid sc \<and>
    (\<not> scoped sc \<longrightarrow> rs_membership sc = None)"
proof -
  consider (all) "si_all ids" | (tenant) "\<not> si_all ids" "truthy (si_tenant ids)"
    | (grp) "\<not> si_all ids" "\<not> truthy (si_tenant ids)" "truthy (si_group ids)"
    | (none) "\<not> si_all ids" "\<not> truthy (si_tenant ids)" "\<not> truthy (si_group ids)" by blast
  then show ?thesis
  proof cases
    case all
    then show ?thesis using ok(2) by (auto simp: resolve_chosen_scope_def scope_allowed_def no_scope_def)
  next
    case tenant
    obtain t mb where r: "resolve_selected_tenant db uid (si_tenant ids) accessible = (t, mb)"
      by (cases "resolve_selected_tenant db uid (si_tenant ids) accessible")
    then have run: "fst (resolve_chosen_scope db uid ids accessible s w) =
        Inr (no_scope\<lparr>rs_tenant := t, rs_membership := mb\<rparr>, if t = None then session_pop TENANT_ID s else s)"
      using tenant by (simp add: resolve_chosen_scope_def)
    show ?thesis
    proof (cases t)
      case None
      then have "mb = None" using r by (auto simp: resolve_selected_tenant_def split: option.splits if_splits)
      then have "no_scope\<lparr>rs_tenant := t, rs_membership := mb\<rparr> = no_scope" using None by (simp add: no_scope_def)
      then show ?thesis using run allowed_none by (simp add: no_scope_def)
    next
      case (Some x)
      then show ?thesis using run selected_tenant_allowed[OF ok(1,2)] r by (auto simp: scoped_def)
    qed
  next
    case grp
    obtain r w1 where r: "resolve_selected_group db uid (si_group ids) accessible w = (r, w1)"
      by (cases "resolve_selected_group db uid (si_group ids) accessible w")
    then obtain r' where r': "r = Inr r'" "\<forall>g mb. r' = Some (g, mb) \<longrightarrow> parse_id (si_group ids) = Some (tg_id g) \<and>
        scope_allowed db now uid (no_scope\<lparr>rs_group := Some g, rs_membership := mb\<rparr>)"
      using selected_group_allowed[OF ok, of "si_group ids"] by auto
    show ?thesis
    proof (cases r')
      case None
      then show ?thesis using grp r r' allowed_none by (simp add: resolve_chosen_scope_def no_scope_def)
    next
      case (Some p)
      obtain g mb where p: "p = (g, mb)" by (cases p)
      then show ?thesis using grp r r' Some by (simp add: resolve_chosen_scope_def scoped_def)
    qed
  next
    case none
    then show ?thesis using allowed_none by (simp add: resolve_chosen_scope_def no_scope_def)
  qed
qed

lemma standard_scope_allowed:
  assumes ok: "memberships_ok db" "set accessible = reachable db now uid" "cache_sound (td_groups db) (cx_tree_cache (w_ctx w))"
    "keyed tg_id (td_groups db)" "keyed tn_id (td_tenants db)"
  shows "\<exists>sc s1. fst (resolve_standard_scope db uid ids accessible s w) = Inr (sc, s1) \<and> scope_allowed db now uid sc \<and>
    (reachable db now uid \<noteq> {} \<longrightarrow> scoped sc)"
proof -
  obtain sc s1 where c: "fst (resolve_chosen_scope db uid ids accessible s w) = Inr (sc, s1)" "scope_allowed db now uid sc"
      "\<not> scoped sc \<longrightarrow> rs_membership sc = None"
    using chosen_scope_allowed[OF ok] by blast
  then have run: "fst (resolve_standard_scope db uid ids accessible s w) = Inr (default_if_unscoped db uid accessible sc s1)"
    by (simp add: resolve_standard_scope_def split_def)
  show ?thesis
  proof (cases "scoped sc")
    case True
    then have "default_if_unscoped db uid accessible sc s1 = (sc, s1)" by (auto simp: default_if_unscoped_def scoped_def)
    then show ?thesis using run c(2) True by simp
  next
    case False
    obtain t mb where d: "resolve_default_scope db uid accessible = (t, mb)" by (cases "resolve_default_scope db uid accessible")
    have "sc = no_scope" using False c(3) by (simp add: scoped_def no_scope_def)
    then have "fst (default_if_unscoped db uid accessible sc s1) = no_scope\<lparr>rs_tenant := t, rs_membership := mb\<rparr>"
      using d by (simp add: default_if_unscoped_def no_scope_def)
    then have "\<exists>s2. fst (resolve_standard_scope db uid ids accessible s w) = Inr (no_scope\<lparr>rs_tenant := t, rs_membership := mb\<rparr>, s2)"
      using run by (cases "default_if_unscoped db uid accessible sc s1") simp
    moreover have "scope_allowed db now uid (no_scope\<lparr>rs_tenant := t, rs_membership := mb\<rparr>)" "accessible \<noteq> [] \<longrightarrow> t \<noteq> None"
      using default_scope_allowed[OF ok(1,2) d] by blast+
    moreover have "reachable db now uid \<noteq> {} \<longrightarrow> accessible \<noteq> []" using ok(2) by auto
    ultimately show ?thesis by (auto simp: scoped_def)
  qed
qed

section \<open>The request of a user\<close>

lemma group_case_world:
  "snd (case r of Inl e \<Rightarrow> (Inl e, x) | Inr None \<Rightarrow> (Inr (no_scope, session_pop GROUP_ID s), x)
      | Inr (Some (g, m)) \<Rightarrow> (Inr (no_scope\<lparr>rs_group := Some g, rs_membership := m\<rparr>, s), x)) = x"
  by (simp split: sum.split option.split)

lemma standard_world:
  assumes "world_current db now uid w"
  shows "world_current db now uid (snd (resolve_standard_scope db uid ids accessible s w))"
proof -
  have "world_current db now uid (snd (resolve_selected_group db uid selected accessible w))" for selected accessible
  proof -
    obtain d cache where walk: "get_descendant_tenant_group_ids (td_groups db) (parse_id selected) True (cx_tree_cache (w_ctx w)) = (d, cache)"
      by (cases "get_descendant_tenant_group_ids (td_groups db) (parse_id selected) True (cx_tree_cache (w_ctx w))")
    have "snd (resolve_selected_group db uid selected accessible w) = w\<lparr>w_ctx := (w_ctx w)\<lparr>cx_tree_cache := cache\<rparr>\<rparr>"
      unfolding resolve_selected_group_def Let_def walk by (simp split: option.split)
    then show ?thesis using walk_keeps_current[OF assms walk] by simp
  qed
  then show ?thesis using assms
    by (simp add: group_case_world resolve_standard_scope_def resolve_chosen_scope_def split_def Let_def)
qed

lemma switch_session_scope:
  assumes "resolve_switch_params db now data rq (session_scope (hr_session rq)) w = (ids, s, w1)"
  shows "ids = session_scope s"
proof (cases "hr_get rq ''switch_tenant''")
  case (Some q)
  then show ?thesis using assms
    by (auto simp: resolve_switch_params_def session_scope_def session_get_def session_put_def session_pop_def truthy_def Let_def)
next
  case tenant: None
  show ?thesis
  proof (cases "hr_get rq ''switch_tenant_group''")
    case (Some q)
    then show ?thesis using assms tenant
      by (auto simp: resolve_switch_params_def session_scope_def session_get_def session_put_def session_pop_def truthy_def Let_def)
  next
    case grp: None
    show ?thesis
    proof (cases "hr_get rq ''switch_all_accessible'' = None")
      case True
      then show ?thesis using assms tenant grp by (auto simp: resolve_switch_params_def Let_def split_def split: if_splits)
    next
      case False
      then show ?thesis using assms tenant grp
        by (auto simp: resolve_switch_params_def session_scope_def session_get_def session_put_def session_pop_def truthy_def Let_def)
    qed
  qed
qed

text \<open>The steps of a request whose user is not a superuser.\<close>

lemma request_steps:
  assumes w: "world_current db now (us_id u) w0" and rq: "hr_user rq = Some u" "us_authenticated u" "\<not> us_superuser u"
  obtains s accessible w1 w2 where
    "world_current db now (us_id u) w2" "set accessible = reachable db now (us_id u)"
    "resolve_switch_params db now data rq (session_scope (hr_session rq)) (w0\<lparr>w_ctx := (w_ctx w0)\<lparr>cx_tree_cache := Map.empty\<rparr>\<rparr>) = (session_scope s, s, w1)"
    "process_request db now data rq w0 =
       (let (r, w3) = resolve_standard_scope db (us_id u) (session_scope s) accessible s w2;
            notice = (scope_signature (session_scope s) \<noteq> scope_signature (session_scope (hr_session rq)) \<and> apply_scope_notice rq)
        in case r of Inl e \<Rightarrow> Inl e
           | Inr (sc, s1) \<Rightarrow> Inr (bind_request_scope sc (rq\<lparr>hr_scope_notice := notice, hr_session := s1\<rparr>) w3))"
proof -
  let ?w = "w0\<lparr>w_ctx := (w_ctx w0)\<lparr>cx_tree_cache := Map.empty\<rparr>\<rparr>"
  obtain ids s w1 where sw: "resolve_switch_params db now data rq (session_scope (hr_session rq)) ?w = (ids, s, w1)"
    by (cases "resolve_switch_params db now data rq (session_scope (hr_session rq)) ?w") auto
  have ids: "ids = session_scope s" using switch_session_scope[OF sw] .
  have "world_current db now (us_id u) (snd (snd (resolve_switch_params db now data rq (session_scope (hr_session rq)) ?w)))"
    using switch_world reset_keeps_current[OF w] rq(1) by blast
  then have w1: "world_current db now (us_id u) w1" by (simp add: sw)
  obtain accessible w2 where acc: "accessible_tenant_ids db now (Some u) w1 = (accessible, w2)"
    by (cases "accessible_tenant_ids db now (Some u) w1")
  have ok: "world_current db now (us_id u) w2" "set accessible = reachable db now (us_id u)"
    using accessible_tenant_ids_ok[OF w1 rq(2) acc] by blast+
  show ?thesis
  proof (rule that[OF ok])
    show "resolve_switch_params db now data rq (session_scope (hr_session rq)) ?w = (session_scope s, s, w1)" using sw ids by simp
    show "process_request db now data rq w0 =
       (let (r, w3) = resolve_standard_scope db (us_id u) (session_scope s) accessible s w2;
            notice = (scope_signature (session_scope s) \<noteq> scope_signature (session_scope (hr_session rq)) \<and> apply_scope_notice rq)
        in case r of Inl e \<Rightarrow> Inl e
           | Inr (sc, s1) \<Rightarrow> Inr (bind_request_scope sc (rq\<lparr>hr_scope_notice := notice, hr_session := s1\<rparr>) w3))"
      using rq sw acc ids by (simp add: process_request_def Let_def split_def split: sum.split)
  qed
qed

lemma bound_context:
  "cx_tenant (bind_scope sc c) = rs_tenant sc" "cx_group (bind_scope sc c) = map_option tg_id (rs_group sc)"
  "cx_membership (bind_scope sc c) = rs_membership sc" "cx_all_accessible (bind_scope sc c) = rs_all_accessible sc"
  "cx_tree_cache (bind_scope sc c) = cx_tree_cache c"
  by (simp_all add: bind_scope_def ctx_setters)

lemma allowed_no_conflict:
  "scope_allowed db now uid sc \<Longrightarrow> \<not> scope_conflict (bind_scope sc c) u"
  by (cases "rs_tenant sc"; cases "rs_group sc"; cases "rs_all_accessible sc")
    (auto simp: scope_allowed_def scope_conflict_def bound_context split: option.split)

text \<open>C13. Whatever the session, the query and the stored default say, the request of a user who is not a superuser runs under a scope
  that this user's memberships and grants allow at that instant, never under two at once, and always under one when the user reaches a tenant at
  all; it is never refused.\<close>

theorem session_scope_confined:
  assumes w: "world_current db now (us_id u) w" and rows: "keyed tg_id (td_groups db)" "memberships_ok db"
    and rq: "hr_user rq = Some u" "us_authenticated u" "\<not> us_superuser u"
  shows "\<exists>rq' w'. process_request db now data rq w = Inr (rq', w') \<and> scope_allowed db now (us_id u) (hr_scope rq') \<and>
    (reachable db now (us_id u) \<noteq> {} \<longrightarrow> scoped (hr_scope rq')) \<and>
    cx_tenant (w_ctx w') = rs_tenant (hr_scope rq') \<and> cx_group (w_ctx w') = map_option tg_id (rs_group (hr_scope rq')) \<and>
    cx_membership (w_ctx w') = rs_membership (hr_scope rq') \<and> cx_all_accessible (w_ctx w') = rs_all_accessible (hr_scope rq') \<and>
    \<not> scope_conflict (w_ctx w') (Some u) \<and> world_current db now (us_id u) w'"
proof -
  obtain s accessible w1 w2 where ok: "world_current db now (us_id u) w2" "set accessible = reachable db now (us_id u)"
    and run: "process_request db now data rq w =
       (let (r, w3) = resolve_standard_scope db (us_id u) (session_scope s) accessible s w2;
            notice = (scope_signature (session_scope s) \<noteq> scope_signature (session_scope (hr_session rq)) \<and> apply_scope_notice rq)
        in case r of Inl e \<Rightarrow> Inl e
           | Inr (sc, s1) \<Rightarrow> Inr (bind_request_scope sc (rq\<lparr>hr_scope_notice := notice, hr_session := s1\<rparr>) w3))"
    by (rule request_steps[OF w rq, where data = data])
  have sound: "cache_sound (td_groups db) (cx_tree_cache (w_ctx w2))" "keyed tn_id (td_tenants db)"
    using ok(1) unfolding world_ok_def by blast+
  obtain r w3 where std: "resolve_standard_scope db (us_id u) (session_scope s) accessible s w2 = (r, w3)"
    by (cases "resolve_standard_scope db (us_id u) (session_scope s) accessible s w2")
  obtain sc s1 where sc: "r = Inr (sc, s1)" "scope_allowed db now (us_id u) sc" "reachable db now (us_id u) \<noteq> {} \<longrightarrow> scoped sc"
    using standard_scope_allowed[OF rows(2) ok(2) sound(1) rows(1) sound(2), of "session_scope s" s] std by auto
  have w3: "world_current db now (us_id u) w3" using standard_world[OF ok(1), of "session_scope s" accessible s] std by simp
  let ?rq = "rq\<lparr>hr_scope_notice := scope_signature (session_scope s) \<noteq> scope_signature (session_scope (hr_session rq)) \<and>
    apply_scope_notice rq, hr_session := s1, hr_scope := sc\<rparr>"
  have "process_request db now data rq w = Inr (?rq, w3\<lparr>w_ctx := bind_scope sc (w_ctx w3)\<rparr>)"
    using run std sc(1) by (simp add: bind_request_scope_def Let_def)
  moreover have "world_current db now (us_id u) (w3\<lparr>w_ctx := bind_scope sc (w_ctx w3)\<rparr>)"
    using w3 by (simp add: world_ok_def bound_context)
  ultimately show ?thesis using sc(2,3) allowed_no_conflict[OF sc(2)] by (simp add: bound_context)
qed

definition sample_request :: http_request where
  "sample_request = \<lparr>hr_user = Some sample_user, hr_get = (\<lambda>_. None), hr_authorization = [], hr_session = (\<lambda>_. None),
     hr_scope = no_scope, hr_scope_notice = False\<rparr>"

lemma sample_rows: "keyed tg_id (td_groups sample_tenancy)" "memberships_ok sample_tenancy"
  "\<forall>t \<in> set (td_tenants sample_tenancy). 0 < tn_id t" "\<forall>g \<in> set (td_groups sample_tenancy). 0 < tg_id g"
  by (simp_all add: sample_db sample_groups_def keyed_def memberships_ok_def)

lemma sample_user_facts: "us_authenticated sample_user" "\<not> us_superuser sample_user"
  by (simp_all add: sample_user_def)

lemma sample_reachable: "reachable sample_tenancy 50 (us_id sample_user) = {1, 2}"
  using sample_reach sample_user_facts by (simp add: workspace_reach_def)

theorem session_scope_confined_witness:
  "\<exists>rq' w'. process_request sample_tenancy 50 None (sample_request\<lparr>hr_session := [TENANT_ID \<mapsto> SvInt 3]\<rparr>) sample_world = Inr (rq', w') \<and>
     scoped (hr_scope rq') \<and> rs_tenant (hr_scope rq') \<noteq> Some sample_stranger"
proof -
  let ?rq = "sample_request\<lparr>hr_session := [TENANT_ID \<mapsto> SvInt 3]\<rparr>"
  have "hr_user ?rq = Some sample_user" by (simp add: sample_request_def)
  then obtain rq' w' where r: "process_request sample_tenancy 50 None ?rq sample_world = Inr (rq', w')"
      "scope_allowed sample_tenancy 50 (us_id sample_user) (hr_scope rq')" "reachable sample_tenancy 50 (us_id sample_user) \<noteq> {} \<longrightarrow> scoped (hr_scope rq')"
    using session_scope_confined[OF sample_current sample_rows(1,2) _ sample_user_facts] by blast
  have "rs_tenant (hr_scope rq') \<noteq> Some sample_stranger"
    using r(2) sample_reachable by (auto simp: scope_allowed_def sample_stranger_def)
  then show ?thesis using r sample_reachable by auto
qed

section \<open>The next request\<close>

text \<open>The resolution looks at the accessible tenants as a set, and at the memo of the tree only through the walk.\<close>

lemma first_active_set:
  "set a = set b \<Longrightarrow> first_active_membership_in db uid a = first_active_membership_in db uid b"
  by (cases a; cases b) (simp_all add: first_active_membership_in_def)

lemma selected_tenant_set:
  "set a = set b \<Longrightarrow> resolve_selected_tenant db uid v a = resolve_selected_tenant db uid v b"
  by (simp add: resolve_selected_tenant_def split: option.split)

lemma selected_group_run:
  assumes "cache_sound (td_groups db) (cx_tree_cache (w_ctx w))"
  shows "fst (resolve_selected_group db uid v a w) =
    (case parse_id v of
       None \<Rightarrow> Inr None
     | Some i \<Rightarrow>
         (let authorized = filter (\<lambda>x. x \<in> tn_id ` {t \<in> set (td_tenants db). tn_live t \<and> in_group db i t}) a
          in if authorized = [] then Inr None
             else case find (\<lambda>g. tg_id g = i) (td_groups db) of
                    None \<Rightarrow> Inl GroupMissing | Some g \<Rightarrow> Inr (Some (g, first_active_membership_in db uid authorized))))"
proof (cases "parse_id v")
  case None
  then show ?thesis by (simp add: resolve_selected_group_def Let_def split_def)
next
  case (Some i)
  have walk: "fst (get_descendant_tenant_group_ids (td_groups db) (Some i) True (cx_tree_cache (w_ctx w))) = descendants_of (td_groups db) i True"
    by (rule get_descendants_sound[OF assms])
  have "set (map tn_id (filter (\<lambda>t. (case tn_group t of None \<Rightarrow> False | Some h \<Rightarrow> h \<in> set (descendants_of (td_groups db) i True)) \<and> tn_live t) (td_tenants db)))
      = tn_id ` {t \<in> set (td_tenants db). tn_live t \<and> in_group db i t}"
    unfolding set_map set_filter by (rule arg_cong[where f = "image tn_id"]) (auto simp: in_group_descendants split: option.splits)
  then show ?thesis
    unfolding resolve_selected_group_def Let_def Some option.case split_def walk by (simp split: option.split)
qed

lemma first_active_filter:
  "set a = set b \<Longrightarrow> first_active_membership_in db uid (filter P a) = first_active_membership_in db uid (filter P b)"
  by (rule first_active_set) simp

lemma filter_empty_set: "set a = set b \<Longrightarrow> filter P a = [] \<longleftrightarrow> filter P b = []"
  by (simp add: filter_empty_conv)

lemma selected_group_set:
  assumes "cache_sound (td_groups db) (cx_tree_cache (w_ctx w))" "cache_sound (td_groups db) (cx_tree_cache (w_ctx w'))" "set a = set b"
  shows "fst (resolve_selected_group db uid v a w) = fst (resolve_selected_group db uid v b w')"
  unfolding selected_group_run[OF assms(1)] selected_group_run[OF assms(2)] Let_def filter_empty_set[OF assms(3)]
    first_active_filter[OF assms(3)] by (rule refl)

lemma group_case_scope:
  "fst (case r of Inl e \<Rightarrow> (Inl e, x) | Inr None \<Rightarrow> (Inr a, x) | Inr (Some p) \<Rightarrow> (Inr (b p), x)) =
    (case r of Inl e \<Rightarrow> Inl e | Inr None \<Rightarrow> Inr a | Inr (Some p) \<Rightarrow> Inr (b p))"
  by (simp split: sum.split option.split)

lemma chosen_scope_set:
  assumes "cache_sound (td_groups db) (cx_tree_cache (w_ctx w))" "cache_sound (td_groups db) (cx_tree_cache (w_ctx w'))" "set a = set b"
  shows "fst (resolve_chosen_scope db uid ids a s w) = fst (resolve_chosen_scope db uid ids b s w')"
proof -
  have empty: "a = [] \<longleftrightarrow> b = []" using assms(3) by auto
  show ?thesis
    unfolding resolve_chosen_scope_def empty selected_tenant_set[OF assms(3)] split_def Let_def
    using selected_group_set[OF assms] by (simp add: group_case_scope)
qed

text \<open>The scope that was bound is the one the session now names.\<close>

lemma selected_scope_kept:
  assumes "fst (resolve_chosen_scope db uid ids a s w) = Inr (sc, s1)" "scoped sc"
  shows "s1 = s \<and> (si_all ids \<or> truthy (si_tenant ids) \<or> truthy (si_group ids))"
  using assms by (auto simp: resolve_chosen_scope_def scoped_def no_scope_def split_def Let_def split: if_splits sum.splits option.splits)

lemma default_tenant_kept:
  assumes ok: "memberships_ok db" "set accessible = reachable db now uid" "keyed tn_id (td_tenants db)"
    and d: "resolve_default_scope db uid accessible = (Some t, mb)"
  shows "resolve_selected_tenant db uid (SvInt (tn_id t)) accessible = (Some t, mb)"
proof -
  have allowed: "scope_allowed db now uid (no_scope\<lparr>rs_tenant := Some t, rs_membership := mb\<rparr>)"
    using default_scope_allowed[OF ok(1,2) d] by blast
  then have t: "t \<in> set (td_tenants db)" "tn_live t" "tn_id t \<in> set accessible"
    using ok(2) by (simp_all add: scope_allowed_def no_scope_def)
  then have ne: "accessible \<noteq> []" by auto
  show ?thesis
  proof (cases "first_active_membership_in db uid accessible")
    case (Some m)
    then have m: "t = mb_tenant m" "mb = Some m" using d by (simp_all add: resolve_default_scope_def)
    have "active_membership db uid (tn_id (mb_tenant m)) = Some m"
    proof -
      have "find (\<lambda>m. usable_membership uid m \<and> tn_id (mb_tenant m) \<in> set accessible) (td_memberships db) = Some m"
        using Some ne by (simp add: first_active_membership_in_def)
      then show ?thesis using t(3) m(1) unfolding active_membership_def find_Some_iff by (metis (mono_tags, lifting))
    qed
    then show ?thesis using m t(3) by (simp add: resolve_selected_tenant_def parse_id_def)
  next
    case None
    then have none: "m \<in> set (td_memberships db) \<Longrightarrow> \<not> (usable_membership uid m \<and> tn_id (mb_tenant m) \<in> set accessible)" for m
      using ne by (simp add: first_active_membership_in_def find_None_iff)
    have "active_membership db uid (tn_id t) = None"
      unfolding active_membership_def find_None_iff using none t(3) by metis
    moreover have "live_tenant db (tn_id t) = Some t"
    proof -
      obtain t' where t': "find (\<lambda>x. tn_id x = tn_id t \<and> tn_live x) (td_tenants db) = Some t'"
          "tn_id t' = tn_id t" "t' \<in> set (td_tenants db)"
        using find_exists[of t "td_tenants db" "\<lambda>x. tn_id x = tn_id t \<and> tn_live x"] t(1,2) by blast
      then have "t' = t" using keyed_inj[OF ok(3) t'(3) t(1)] by blast
      then show ?thesis using t'(1) by (simp add: live_tenant_def)
    qed
    moreover have "mb = None" using d None ne by (auto simp: resolve_default_scope_def split: list.splits)
    ultimately show ?thesis using t(3) by (simp add: resolve_selected_tenant_def parse_id_def)
  qed
qed

lemma unscoped_not_all:
  assumes "fst (resolve_chosen_scope db uid (session_scope s) a s w) = Inr (sc, s1)" "\<not> scoped sc"
  shows "\<not> truthy (session_get s1 ALL_ACCESSIBLE)"
proof (cases "si_all (session_scope s)")
  case True
  then have "s1 = session_pop ALL_ACCESSIBLE s" using assms by (auto simp: resolve_chosen_scope_def scoped_def split: if_splits)
  then show ?thesis by (simp add: session_get_def session_pop_def truthy_def)
next
  case False
  then have "s1 ALL_ACCESSIBLE = s ALL_ACCESSIBLE"
    using assms(1) by (auto simp: resolve_chosen_scope_def session_pop_def split_def Let_def split: if_splits sum.splits option.splits)
  then show ?thesis using False by (simp add: session_scope_def session_get_def)
qed

lemma standard_scope_kept:
  assumes ok: "memberships_ok db" "set a = reachable db now uid" "set b = reachable db now uid"
    "cache_sound (td_groups db) (cx_tree_cache (w_ctx w))" "cache_sound (td_groups db) (cx_tree_cache (w_ctx w'))"
    "keyed tg_id (td_groups db)" "keyed tn_id (td_tenants db)" "\<forall>t \<in> set (td_tenants db). tn_id t \<noteq> 0"
    and run: "fst (resolve_standard_scope db uid (session_scope s) a s w) = Inr (sc, s1)" "scoped sc"
  shows "fst (resolve_standard_scope db uid (session_scope s1) b s1 w') = Inr (sc, s1) \<and>
    (s1 TENANT_ID \<noteq> None \<or> s1 GROUP_ID \<noteq> None \<or> s1 ALL_ACCESSIBLE \<noteq> None)"
proof -
  have again: "fst (resolve_standard_scope db uid (session_scope s1) b s1 w') = Inr (sc, s1)"
    if "fst (resolve_chosen_scope db uid (session_scope s1) b s1 w') = Inr (sc, s1)"
    using that run(2) by (auto simp: resolve_standard_scope_def default_if_unscoped_def scoped_def split_def)
  obtain sc0 s0 where chosen: "fst (resolve_chosen_scope db uid (session_scope s) a s w) = Inr (sc0, s0)"
      "scope_allowed db now uid sc0" "\<not> scoped sc0 \<longrightarrow> rs_membership sc0 = None"
    using chosen_scope_allowed[OF ok(1,2,4,6,7), of "session_scope s" s] by blast
  then have def_run: "default_if_unscoped db uid a sc0 s0 = (sc, s1)" using run(1) by (simp add: resolve_standard_scope_def split_def)
  show ?thesis
  proof (cases "scoped sc0")
    case True
    then have same: "sc = sc0" "s1 = s0" using def_run by (auto simp: default_if_unscoped_def scoped_def)
    have kept: "s0 = s" "si_all (session_scope s) \<or> truthy (si_tenant (session_scope s)) \<or> truthy (si_group (session_scope s))"
      using selected_scope_kept[OF chosen(1) True] by blast+
    have "fst (resolve_chosen_scope db uid (session_scope s1) b s1 w') = Inr (sc, s1)"
      using chosen(1) chosen_scope_set[OF ok(4,5), of a b] ok(2,3) same kept(1) by simp
    moreover have "s1 TENANT_ID \<noteq> None \<or> s1 GROUP_ID \<noteq> None \<or> s1 ALL_ACCESSIBLE \<noteq> None"
      using kept same by (auto simp: session_scope_def session_get_def truthy_def)
    ultimately show ?thesis using again by blast
  next
    case False
    then have sc0: "sc0 = no_scope" using chosen(3) by (simp add: scoped_def no_scope_def)
    obtain t0 mb where d: "resolve_default_scope db uid a = (t0, mb)" by (cases "resolve_default_scope db uid a")
    obtain t where t: "t0 = Some t" "sc = no_scope\<lparr>rs_tenant := Some t, rs_membership := mb\<rparr>"
        "s1 = session_pop GROUP_ID (session_put TENANT_ID (SvInt (tn_id t)) s0)"
      using def_run d sc0 run(2) by (cases t0) (auto simp: default_if_unscoped_def no_scope_def scoped_def)
    have set_ab: "set a = set b" using ok(2,3) by simp
    have sel: "resolve_selected_tenant db uid (SvInt (tn_id t)) b = (Some t, mb)"
      using default_tenant_kept[OF ok(1,2,7)] d t(1) selected_tenant_set[OF set_ab, of db uid] by simp
    have "t \<in> set (td_tenants db)"
      using default_scope_allowed[OF ok(1,2) d] t(1) by (simp add: scope_allowed_def no_scope_def)
    then have nz: "tn_id t \<noteq> 0" using ok(8) by blast
    have "\<not> truthy (session_get s1 ALL_ACCESSIBLE)"
      using unscoped_not_all[OF chosen(1) False] t(3) by (simp add: session_get_def session_pop_def session_put_def)
    then have "session_scope s1 = \<lparr>si_tenant = SvInt (tn_id t), si_group = SvNone, si_all = False\<rparr>"
      using t(3) by (simp add: session_scope_def session_get_def session_pop_def session_put_def)
    then have "fst (resolve_chosen_scope db uid (session_scope s1) b s1 w') = Inr (sc, s1)"
      using sel nz t(2) by (simp add: resolve_chosen_scope_def truthy_def)
    moreover have "s1 TENANT_ID \<noteq> None" using t(3) by (simp add: session_pop_def session_put_def)
    ultimately show ?thesis using again by blast
  qed
qed

text \<open>The outcome of a request in terms of the resolution.\<close>

lemma request_outcome:
  assumes w: "world_current db now (us_id u) w" and rows: "keyed tg_id (td_groups db)" "memberships_ok db"
    and rq: "hr_user rq = Some u" "us_authenticated u" "\<not> us_superuser u"
    and run: "process_request db now data rq w = Inr (rq', w')"
  obtains s accessible w1 w2 where
    "set accessible = reachable db now (us_id u)" "cache_sound (td_groups db) (cx_tree_cache (w_ctx w2))"
    "resolve_switch_params db now data rq (session_scope (hr_session rq)) (w\<lparr>w_ctx := (w_ctx w)\<lparr>cx_tree_cache := Map.empty\<rparr>\<rparr>) = (session_scope s, s, w1)"
    "fst (resolve_standard_scope db (us_id u) (session_scope s) accessible s w2) = Inr (hr_scope rq', hr_session rq')"
proof -
  obtain s accessible w1 w2 where ok: "world_current db now (us_id u) w2" "set accessible = reachable db now (us_id u)"
      "resolve_switch_params db now data rq (session_scope (hr_session rq)) (w\<lparr>w_ctx := (w_ctx w)\<lparr>cx_tree_cache := Map.empty\<rparr>\<rparr>) = (session_scope s, s, w1)"
    and steps: "process_request db now data rq w =
       (let (r, w3) = resolve_standard_scope db (us_id u) (session_scope s) accessible s w2;
            notice = (scope_signature (session_scope s) \<noteq> scope_signature (session_scope (hr_session rq)) \<and> apply_scope_notice rq)
        in case r of Inl e \<Rightarrow> Inl e
           | Inr (sc, s1) \<Rightarrow> Inr (bind_request_scope sc (rq\<lparr>hr_scope_notice := notice, hr_session := s1\<rparr>) w3))"
    by (rule request_steps[OF w rq, where data = data])
  have "fst (resolve_standard_scope db (us_id u) (session_scope s) accessible s w2) = Inr (hr_scope rq', hr_session rq')"
    using run unfolding steps by (auto simp: bind_request_scope_def split_def Let_def split: sum.splits)
  moreover have "cache_sound (td_groups db) (cx_tree_cache (w_ctx w2))" using ok(1) unfolding world_ok_def by blast
  ultimately show ?thesis using that ok(2,3) by blast
qed

definition no_switch :: "http_request \<Rightarrow> bool" where
  "no_switch rq \<longleftrightarrow> hr_get rq ''switch_tenant'' = None \<and> hr_get rq ''switch_tenant_group'' = None \<and> hr_get rq ''switch_all_accessible'' = None"

text \<open>C14. A scope sticks: when the request of an authenticated user who is no superuser has bound a scope, then another request of the session
  by that user, over the same tables at the same instant and without a switch parameter, runs under the same scope and leaves the
  session as it is.  Each of the two requests comes with memos of its own, in which nothing has expired (those of a
  fresh \<open>User\<close> instance, as every request loads one, are empty).\<close>

theorem session_scope_sticks:
  assumes w: "world_current db now (us_id u) w" "world_current db now (us_id u) w2"
    and rows: "keyed tg_id (td_groups db)" "memberships_ok db" "\<forall>t \<in> set (td_tenants db). tn_id t \<noteq> 0"
    and rq: "hr_user rq = Some u" "us_authenticated u" "\<not> us_superuser u"
    and first: "process_request db now data rq w = Inr (rq', w')" "scoped (hr_scope rq')"
    and second: "hr_user rq2 = Some u" "no_switch rq2" "hr_session rq2 = hr_session rq'"
  shows "\<exists>rq2' w2'. process_request db now data2 rq2 w2 = Inr (rq2', w2') \<and>
    hr_scope rq2' = hr_scope rq' \<and> hr_session rq2' = hr_session rq'"
proof -
  obtain s a w1 v where one: "set a = reachable db now (us_id u)" "cache_sound (td_groups db) (cx_tree_cache (w_ctx v))"
      "fst (resolve_standard_scope db (us_id u) (session_scope s) a s v) = Inr (hr_scope rq', hr_session rq')"
    by (rule request_outcome[OF w(1) rows(1,2) rq first(1)])
  obtain s2 b w12 v2 where two: "world_current db now (us_id u) v2" "set b = reachable db now (us_id u)"
      "resolve_switch_params db now data2 rq2 (session_scope (hr_session rq2)) (w2\<lparr>w_ctx := (w_ctx w2)\<lparr>cx_tree_cache := Map.empty\<rparr>\<rparr>) = (session_scope s2, s2, w12)"
    and steps: "process_request db now data2 rq2 w2 =
       (let (r, w3) = resolve_standard_scope db (us_id u) (session_scope s2) b s2 v2;
            notice = (scope_signature (session_scope s2) \<noteq> scope_signature (session_scope (hr_session rq2)) \<and> apply_scope_notice rq2)
        in case r of Inl e \<Rightarrow> Inl e
           | Inr (sc, s1) \<Rightarrow> Inr (bind_request_scope sc (rq2\<lparr>hr_scope_notice := notice, hr_session := s1\<rparr>) w3))"
    by (rule request_steps[OF w(2) second(1) rq(2,3), where data = data2])
  have v2: "cache_sound (td_groups db) (cx_tree_cache (w_ctx v2))" "keyed tn_id (td_tenants db)"
    using two(1) unfolding world_ok_def by blast+
  note kept = standard_scope_kept[OF rows(2) one(1) two(2) one(2) v2(1) rows(1) v2(2) rows(3) one(3) first(2)]
  have "hr_session rq2 TENANT_ID \<noteq> None \<or> hr_session rq2 GROUP_ID \<noteq> None \<or> hr_session rq2 ALL_ACCESSIBLE \<noteq> None"
    using kept second(3) by simp
  then have "resolve_switch_params db now data2 rq2 (session_scope (hr_session rq2)) (w2\<lparr>w_ctx := (w_ctx w2)\<lparr>cx_tree_cache := Map.empty\<rparr>\<rparr>)
      = (session_scope (hr_session rq2), hr_session rq2, w2\<lparr>w_ctx := (w_ctx w2)\<lparr>cx_tree_cache := Map.empty\<rparr>\<rparr>)"
    using second(2) unfolding resolve_switch_params_def no_switch_def Let_def by auto
  then have "s2 = hr_session rq'" using two(3) second(3) by simp
  then have "fst (resolve_standard_scope db (us_id u) (session_scope s2) b s2 v2) = Inr (hr_scope rq', hr_session rq')" using kept by simp
  then obtain w3 where "resolve_standard_scope db (us_id u) (session_scope s2) b s2 v2 = (Inr (hr_scope rq', hr_session rq'), w3)"
    by (cases "resolve_standard_scope db (us_id u) (session_scope s2) b s2 v2") simp
  then show ?thesis using steps by (simp add: bind_request_scope_def Let_def)
qed

theorem session_scope_sticks_witness:
  "\<exists>rq1 w1 rq2 w2. process_request sample_tenancy 50 None (sample_request\<lparr>hr_get := [''switch_tenant'' \<mapsto> '' 2'']\<rparr>) sample_world = Inr (rq1, w1) \<and>
     rs_tenant (hr_scope rq1) = Some sample_customer \<and>
     process_request sample_tenancy 50 None (sample_request\<lparr>hr_session := hr_session rq1\<rparr>) sample_world = Inr (rq2, w2) \<and>
     rs_tenant (hr_scope rq2) = Some sample_customer"
proof -
  let ?rq = "sample_request\<lparr>hr_get := [''switch_tenant'' \<mapsto> '' 2'']\<rparr>"
  have "(case process_request sample_tenancy 50 None ?rq sample_world of Inl _ \<Rightarrow> None | Inr (rq1, _) \<Rightarrow> rs_tenant (hr_scope rq1)) =
      Some sample_customer"
    by code_simp
  then obtain rq1 w1 where first: "process_request sample_tenancy 50 None ?rq sample_world = Inr (rq1, w1)"
      "rs_tenant (hr_scope rq1) = Some sample_customer"
    by (auto split: sum.splits)
  have scoped: "scoped (hr_scope rq1)" using first(2) by (simp add: scoped_def)
  have u: "hr_user ?rq = Some sample_user" "hr_user (sample_request\<lparr>hr_session := hr_session rq1\<rparr>) = Some sample_user"
    "no_switch (sample_request\<lparr>hr_session := hr_session rq1\<rparr>)" "hr_session (sample_request\<lparr>hr_session := hr_session rq1\<rparr>) = hr_session rq1"
    by (simp_all add: sample_request_def no_switch_def)
  have nz: "\<forall>t \<in> set (td_tenants sample_tenancy). tn_id t \<noteq> 0" using sample_rows(3) by force
  show ?thesis
    using session_scope_sticks[OF sample_current sample_current sample_rows(1,2) nz u(1) sample_user_facts first(1) scoped u(2,3,4), of None]
      first by auto
qed

section \<open>The stored default\<close>

lemma selected_tenant_row:
  assumes "memberships_ok db" "keyed tn_id (td_tenants db)" "i \<in> set accessible" "set accessible = reachable db now uid"
    and "parse_id v = Some i"
  shows "fst (resolve_selected_tenant db uid v accessible) = find (\<lambda>t. tn_id t = i \<and> tn_live t) (td_tenants db)"
proof (cases "active_membership db uid i")
  case None
  then show ?thesis using assms(3,5) by (simp add: resolve_selected_tenant_def live_tenant_def)
next
  case (Some m)
  then have m: "m \<in> set (td_memberships db)" "usable_membership uid m" "tn_id (mb_tenant m) = i"
    using active_membership_some[OF Some] by blast+
  then have row: "mb_tenant m \<in> set (td_tenants db)" "tn_live (mb_tenant m)"
    using assms(1) by (simp_all add: memberships_ok_def usable_membership_def)
  obtain t where t: "find (\<lambda>t. tn_id t = i \<and> tn_live t) (td_tenants db) = Some t" "tn_id t = i" "t \<in> set (td_tenants db)"
    using find_exists[of "mb_tenant m" "td_tenants db" "\<lambda>t. tn_id t = i \<and> tn_live t"] row m(3) by blast
  then have "t = mb_tenant m" using keyed_inj[OF assms(2) t(3) row(1)] m(3) by metis
  then show ?thesis using Some assms(3,5) t(1) by (simp add: resolve_selected_tenant_def)
qed

lemma selected_group_row:
  assumes "cache_sound (td_groups db) (cx_tree_cache (w_ctx w))" "keyed tg_id (td_groups db)" "set accessible = reachable db now uid"
    and "parse_id v = Some i" "i \<in> tg_id ` set (filter tg_live (td_groups db))"
    and "t \<in> set (td_tenants db)" "tn_live t" "tn_id t \<in> reachable db now uid" "in_group db i t"
  shows "\<exists>g mb. fst (resolve_selected_group db uid v accessible w) = Inr (Some (g, mb)) \<and>
    find (\<lambda>g. tg_id g = i \<and> tg_live g) (td_groups db) = Some g"
proof -
  let ?auth = "filter (\<lambda>x. x \<in> tn_id ` {t \<in> set (td_tenants db). tn_live t \<and> in_group db i t}) accessible"
  have "tn_id t \<in> set ?auth" using assms(3,6,7,8,9) by simp
  then have ne: "?auth \<noteq> []" by (metis empty_iff empty_set)
  obtain g0 where g0: "g0 \<in> set (td_groups db)" "tg_live g0" "tg_id g0 = i" using assms(5) by auto
  obtain g where g: "find (\<lambda>g. tg_id g = i) (td_groups db) = Some g" "tg_id g = i" "g \<in> set (td_groups db)"
    using find_exists[of g0 "td_groups db" "\<lambda>g. tg_id g = i"] g0 by blast
  obtain g1 where g1: "find (\<lambda>g. tg_id g = i \<and> tg_live g) (td_groups db) = Some g1" "tg_id g1 = i" "g1 \<in> set (td_groups db)"
    using find_exists[of g0 "td_groups db" "\<lambda>g. tg_id g = i \<and> tg_live g"] g0 by blast
  have "g1 = g" using keyed_inj[OF assms(2) g1(3) g(3)] g1(2) g(2) by metis
  then show ?thesis using g1(1) ne g(1) unfolding selected_group_run[OF assms(1)] assms(4) by (simp add: Let_def)
qed

text \<open>The scope of a request names the tenant, the group and the union that a selection names.\<close>

definition binds :: "request_scope \<Rightarrow> workspace_selection \<Rightarrow> bool" where
  "binds sc sel \<longleftrightarrow> rs_tenant sc = ws_tenant sel \<and> rs_group sc = ws_group sel \<and> rs_all_accessible sc = ws_all_accessible sel"

definition selection_session :: "workspace_selection \<Rightarrow> session \<Rightarrow> session" where
  "selection_session sel s =
     (let s1 = session_pop ALL_ACCESSIBLE (session_pop GROUP_ID (session_pop TENANT_ID s))
      in case ws_tenant sel of
           Some t \<Rightarrow> session_put TENANT_ID (SvInt (tn_id t)) s1
         | None \<Rightarrow> (case ws_group sel of
                      Some g \<Rightarrow> session_put GROUP_ID (SvInt (tg_id g)) s1
                    | None \<Rightarrow> if ws_all_accessible sel then session_put ALL_ACCESSIBLE (SvBool True) s1 else s1))"

lemma selection_session_binds:
  fixes s :: session
  assumes ok: "memberships_ok db" "set accessible = reachable db now (us_id u)" "cache_sound (td_groups db) (cx_tree_cache (w_ctx w))"
    "keyed tg_id (td_groups db)" "keyed tn_id (td_tenants db)"
    and ids: "\<forall>t \<in> set (td_tenants db). tn_id t \<noteq> 0" "\<forall>g \<in> set (td_groups db). tg_id g \<noteq> 0"
    and u: "us_authenticated u" "\<not> us_superuser u" and may: "may_select db now u key"
    and s1_def: "s1 = selection_session (selection_for db u key) s"
  shows "\<exists>sc s2. fst (resolve_standard_scope db (us_id u) (session_scope s1) accessible s1 w) = Inr (sc, s2) \<and> binds sc (selection_for db u key)"
proof -
  have reach: "workspace_reach db now u = set accessible" using u ok(2) by (simp add: workspace_reach_def)
  have done_if: ?thesis if "fst (resolve_chosen_scope db (us_id u) (session_scope s1) accessible s1 w) = Inr (sc, s1)"
      "scoped sc" "binds sc (selection_for db u key)" for sc
    using that by (auto simp: resolve_standard_scope_def default_if_unscoped_def scoped_def split_def)
  show ?thesis
  proof (cases key)
    case KeyAll
    then have ne: "accessible \<noteq> []" using may u(2) reach by (auto simp: may_select_def)
    have sel: "selection_for db u key = no_selection\<lparr>ws_all_accessible := True\<rparr>" using KeyAll u(2) by (simp add: selection_for_def)
    have "si_all (session_scope s1)"
      unfolding s1_def sel by (simp add: selection_session_def no_selection_def session_scope_def session_get_def session_put_def truthy_def)
    then have "fst (resolve_chosen_scope db (us_id u) (session_scope s1) accessible s1 w) = Inr (no_scope\<lparr>rs_all_accessible := True\<rparr>, s1)"
      using ne by (simp add: resolve_chosen_scope_def)
    then show ?thesis by (rule done_if) (simp_all add: scoped_def binds_def sel no_selection_def no_scope_def)
  next
    case (KeyTenant i)
    then have i: "i \<in> set accessible" using may reach by (simp add: may_select_def)
    obtain t where t: "find (\<lambda>t. tn_id t = i \<and> tn_live t) (td_tenants db) = Some t" "tn_id t = i" "t \<in> set (td_tenants db)"
    proof -
      obtain t0 where "t0 \<in> set (td_tenants db)" "tn_live t0 \<and> tn_id t0 = i" using reachable_live i ok(2) by blast
      then show ?thesis using find_exists[of t0 "td_tenants db" "\<lambda>t. tn_id t = i \<and> tn_live t"] that by blast
    qed
    have sel: "selection_for db u key = no_selection\<lparr>ws_tenant := Some t\<rparr>" using KeyTenant t(1) by (simp add: selection_for_def)
    have scope: "session_scope s1 = \<lparr>si_tenant = SvInt i, si_group = SvNone, si_all = False\<rparr>"
      unfolding s1_def sel using t(2)
      by (simp add: selection_session_def no_selection_def session_scope_def session_get_def session_put_def session_pop_def truthy_def)
    obtain mb where pick: "resolve_selected_tenant db (us_id u) (SvInt i) accessible = (Some t, mb)"
      using selected_tenant_row[OF ok(1,5) i ok(2), of "SvInt i"] t(1)
      by (cases "resolve_selected_tenant db (us_id u) (SvInt i) accessible") (simp add: parse_id_def)
    have "i \<noteq> 0" using ids(1) t by blast
    then have "fst (resolve_chosen_scope db (us_id u) (session_scope s1) accessible s1 w) = Inr (no_scope\<lparr>rs_tenant := Some t, rs_membership := mb\<rparr>, s1)"
      using pick scope by (simp add: resolve_chosen_scope_def truthy_def)
    then show ?thesis by (rule done_if) (simp_all add: scoped_def binds_def sel no_selection_def no_scope_def)
  next
    case (KeyGroup i)
    then obtain t where live: "i \<in> tg_id ` set (filter tg_live (td_groups db))"
      and t: "t \<in> set (td_tenants db)" "tn_live t" "tn_id t \<in> reachable db now (us_id u)" "in_group db i t"
      using may u(2) ok(2) reach by (auto simp: may_select_def in_group_descendants)
    obtain g mb where pick: "fst (resolve_selected_group db (us_id u) (SvInt i) accessible w) = Inr (Some (g, mb))"
        "find (\<lambda>g. tg_id g = i \<and> tg_live g) (td_groups db) = Some g"
      using selected_group_row[OF ok(3,4,2) _ live t, of "SvInt i"] by (auto simp: parse_id_def)
    then have g: "g \<in> set (td_groups db)" "tg_id g = i" using find_some[OF pick(2)] by blast+
    have sel: "selection_for db u key = no_selection\<lparr>ws_group := Some g\<rparr>" using KeyGroup pick(2) by (simp add: selection_for_def)
    have scope: "session_scope s1 = \<lparr>si_tenant = SvNone, si_group = SvInt i, si_all = False\<rparr>"
      unfolding s1_def sel using g(2)
      by (simp add: selection_session_def no_selection_def session_scope_def session_get_def session_put_def session_pop_def truthy_def)
    have "i \<noteq> 0" using ids(2) g by blast
    then have "fst (resolve_chosen_scope db (us_id u) (session_scope s1) accessible s1 w) = Inr (no_scope\<lparr>rs_group := Some g, rs_membership := mb\<rparr>, s1)"
      using pick(1) scope by (simp add: resolve_chosen_scope_def truthy_def split_def group_case_scope)
    then show ?thesis by (rule done_if) (simp_all add: scoped_def binds_def sel no_selection_def no_scope_def)
  qed
qed

text \<open>C15. From the form to the request: a workspace an authenticated user who is no superuser was offered and stored as default is the scope of a
  request with a session that holds no selection, without a switch parameter and without an Authorization header.  Offer and request read the
  same tables at the same instant, so that the access under which the workspace was offered is still there, and in the memos
  of both nothing has expired.\<close>

theorem offered_default_binds:
  assumes w: "world_current db now (us_id u) w0" "world_current db now (us_id u) w"
    and rows: "keyed tg_id (td_groups db)" "memberships_ok db" "\<forall>t \<in> set (td_tenants db). 0 < tn_id t" "\<forall>g \<in> set (td_groups db). 0 < tg_id g"
    and offered: "(text, label) \<in> set (fst (workspace_choices db group_name now (Some u) w0))" "text \<noteq> WORKSPACE_AUTOMATIC"
    and stored: "d DEFAULT_WORKSPACE_KEY = Some (StoredText text)"
    and rq: "hr_user rq = Some u" "us_authenticated u" "\<not> us_superuser u" "no_switch rq" "hr_authorization rq = []"
      "hr_session rq TENANT_ID = None" "hr_session rq GROUP_ID = None" "hr_session rq ALL_ACCESSIBLE = None"
  shows "\<exists>key rq' w'. parse_workspace_key (Some (StoredText text)) = Some key \<and> process_request db now (Some d) rq w = Inr (rq', w') \<and>
    binds (hr_scope rq') (selection_for db u key)"
proof -
  obtain key where key: "text = key_text key" "may_select db now u key"
      "\<forall>i. key = KeyTenant i \<longrightarrow> i \<in> tn_id ` set (td_tenants db)" "\<forall>i. key = KeyGroup i \<longrightarrow> i \<in> tg_id ` set (td_groups db)"
    using offered_may_select[OF w(1) rows(1) offered] by blast
  have "positive_key key" using key(3,4) rows(3,4) by (cases key) (auto simp: positive_key_def)
  then have parse: "parse_workspace_key (Some (StoredText text)) = Some key" using parse_key_text key(1) by simp
  let ?w = "w\<lparr>w_ctx := (w_ctx w)\<lparr>cx_tree_cache := Map.empty\<rparr>\<rparr>" and ?s = "selection_session (selection_for db u key) (hr_session rq)"
  have "fst (resolve_default_workspace db now (hr_user rq) (Some d) ?w) = Some (selection_for db u key)"
    using resolve_selection_eq[OF reset_keeps_current[OF w(2)], of "Some (StoredText text)"] parse key(2) stored rq(1)
    by (simp add: resolve_default_workspace_def)
  then have default: "fst (apply_default_workspace db now (Some d) rq ?w) = ?s"
    by (simp add: apply_default_workspace_def selection_session_def split_def Let_def)
  obtain s a w1 v where steps: "world_current db now (us_id u) v" "set a = reachable db now (us_id u)"
      "resolve_switch_params db now (Some d) rq (session_scope (hr_session rq)) ?w = (session_scope s, s, w1)"
    and run: "process_request db now (Some d) rq w =
       (let (r, w3) = resolve_standard_scope db (us_id u) (session_scope s) a s v;
            notice = (scope_signature (session_scope s) \<noteq> scope_signature (session_scope (hr_session rq)) \<and> apply_scope_notice rq)
        in case r of Inl e \<Rightarrow> Inl e
           | Inr (sc, s1) \<Rightarrow> Inr (bind_request_scope sc (rq\<lparr>hr_scope_notice := notice, hr_session := s1\<rparr>) w3))"
    by (rule request_steps[OF w(2) rq(1,2,3), where data = "Some d"])
  have "s = ?s" using steps(3) default rq(4-8) by (simp add: resolve_switch_params_def no_switch_def Let_def split_def)
  have v: "cache_sound (td_groups db) (cx_tree_cache (w_ctx v))" "keyed tn_id (td_tenants db)"
    using steps(1) unfolding world_ok_def by blast+
  have nz: "\<forall>t \<in> set (td_tenants db). tn_id t \<noteq> 0" "\<forall>g \<in> set (td_groups db). tg_id g \<noteq> 0" using rows(3,4) by force+
  obtain sc s2 where "fst (resolve_standard_scope db (us_id u) (session_scope s) a s v) = Inr (sc, s2)" "binds sc (selection_for db u key)"
    using selection_session_binds[OF rows(2) steps(2) v(1) rows(1) v(2) nz rq(2,3) key(2) \<open>s = ?s\<close>] by blast
  then show ?thesis using run parse
    by (cases "resolve_standard_scope db (us_id u) (session_scope s) a s v") (auto simp: bind_request_scope_def Let_def)
qed

theorem offered_default_binds_witness:
  "\<exists>rq' w'. process_request sample_tenancy 50 (Some [DEFAULT_WORKSPACE_KEY \<mapsto> StoredText ''group:2'']) sample_request sample_world = Inr (rq', w') \<and>
     rs_group (hr_scope rq') = Some \<lparr>tg_id = 2, tg_parent = Some 1, tg_deleted = None\<rparr>"
proof -
  have in_list: "(''group:2'', ''G'') \<in> set (fst (workspace_choices sample_tenancy (\<lambda>_. ''G'') 50 (Some sample_user) sample_world))"
      "''group:2'' \<noteq> WORKSPACE_AUTOMATIC"
    by (simp_all add: sample_choices WORKSPACE_AUTOMATIC_def)
  have rq: "hr_user sample_request = Some sample_user" "no_switch sample_request" "hr_authorization sample_request = []"
      "hr_session sample_request k = None" for k
    by (simp_all add: sample_request_def no_switch_def)
  have stored: "[DEFAULT_WORKSPACE_KEY \<mapsto> StoredText ''group:2''] DEFAULT_WORKSPACE_KEY = Some (StoredText ''group:2'')" by simp
  obtain key rq' w' where r: "parse_workspace_key (Some (StoredText ''group:2'')) = Some key" "binds (hr_scope rq') (selection_for sample_tenancy sample_user key)"
      "process_request sample_tenancy 50 (Some [DEFAULT_WORKSPACE_KEY \<mapsto> StoredText ''group:2'']) sample_request sample_world = Inr (rq', w')"
    using offered_default_binds[where d = "[DEFAULT_WORKSPACE_KEY \<mapsto> StoredText ''group:2'']",
        OF sample_current sample_current sample_rows in_list stored rq(1) sample_user_facts rq(2,3) rq(4) rq(4) rq(4)] by blast
  moreover have "parse_workspace_key (Some (StoredText ''group:2'')) = Some (KeyGroup 2)" by code_simp
  ultimately have "key = KeyGroup 2" by simp
  then have "selection_for sample_tenancy sample_user key = no_selection\<lparr>ws_group := Some \<lparr>tg_id = 2, tg_parent = Some 1, tg_deleted = None\<rparr>\<rparr>"
    by simp code_simp
  then show ?thesis using r by (auto simp: binds_def no_selection_def)
qed

end
