(* ===== verification/Spec2Isabelle.thy ===== *)
theory Spec2Isabelle
  imports Prelude TenantGroups PyText Grants AuthContext AuthCache Rbac Backend Delegation TaskContext Scoping Access ExpiryRuns
    Stock Checkout AssetData AssetTags BookValue AssetLife AssetServices AssetSafety AssetInvariant AssetFlows AssetReturn
    Requests Orders PurchaseLines FlowRelations RequestSafety OrderSafety ReceiptBooking ReceiptReplay OrderCancel
    GrantPlans GrantSync GrantPlanSafety PlanProgress UserAccounts Workspaces TenantSession
begin

text \<open>
  ITAMbox: the tenancy and authorization kernel, and the services that act through it.

  ITAMbox is a multi-tenant asset management application written with Django.  This development models
  the code that decides who may see and do what in which tenant, and the services whose correctness
  rests on those decisions.  All paths are below \<^verbatim>\<open>src/itambox/\<close>.

  Theories, in the order in which the code builds on itself:

  \<^item> \<^verbatim>\<open>Prelude\<close>: tables as lists of rows in primary-key order (\<open>find_row\<close>, \<open>save_row\<close>) behind the locale
    \<open>row_store\<close>, results with errors, expiry instants.
  \<^item> \<^verbatim>\<open>TenantGroups\<close>: \<^verbatim>\<open>core/tenant_scope.py\<close>, the live walk of
    \<^verbatim>\<open>organization/services/access_scope.py\<close> and \<open>TenantGroup.clean\<close>.  The descendant and ancestor
    walks terminate on every table, cyclic ones included, and return the reachable groups; the three
    walks agree; validation keeps the tree acyclic.
  \<^item> \<^verbatim>\<open>PyText\<close>: the standard string operations the code relies on.
  \<^item> \<^verbatim>\<open>Grants\<close>: \<open>Tenant\<close>, \<open>Role\<close>, \<open>RoleGrant\<close>, \<open>RoleGrantScope\<close> of \<^verbatim>\<open>organization/models.py\<close>.  The locales
    \<open>group_resolver\<close> and \<open>live_tree_resolver\<close> state what grants expect of a descendant walk and are
    interpreted on the walks of \<^verbatim>\<open>TenantGroups\<close>.  Isolation between tenants, agreement of the two
    implementations of a grant's reach, what validation guarantees.
  \<^item> \<^verbatim>\<open>AuthContext\<close>: the context variables and system authorizations of \<^verbatim>\<open>core/context.py\<close>.
  \<^item> \<^verbatim>\<open>AuthCache\<close>: the cache generations of \<^verbatim>\<open>core/authorization_cache.py\<close>; a \<open>User\<close> instance's memo is a
    record, the shared cache a map that may be unavailable.
  \<^item> \<^verbatim>\<open>Rbac\<close>: \<^verbatim>\<open>organization/rbac.py\<close>, with the memos of the user instance threaded explicitly
    (\<open>world\<close>).  The optimised permission map and the accessible set against the walk over all grants.
  \<^item> \<^verbatim>\<open>Backend\<close>: \<open>has_perm\<close> and \<open>has_module_perms\<close> of \<^verbatim>\<open>core/auth/__init__.py\<close>.
  \<^item> \<^verbatim>\<open>Delegation\<close>: \<^verbatim>\<open>organization/services/role_grant_validation.py\<close>: who is neither a superuser nor the system cannot
    hand out, restore or let somebody inherit permissions that they do not hold in every tenant concerned, apart from retained
    grants of a restored role that the check skips as inert.
  \<^item> \<^verbatim>\<open>GrantPlans\<close>, \<^verbatim>\<open>GrantSync\<close>: \<^verbatim>\<open>organization/services/rolegrants.py\<close>: the read-only validation of a plan
    for a membership's grants, and its write phase.
  \<^item> \<^verbatim>\<open>GrantPlanSafety\<close>, \<^verbatim>\<open>PlanProgress\<close>: the live grants of a membership after the write are exactly those of
    the plan, they confer nothing that the actor does not hold, nothing else changes, and no save of the
    write phase is refused.
  \<^item> \<^verbatim>\<open>TaskContext\<close>: \<^verbatim>\<open>core/tasks/context.py\<close>.
  \<^item> \<^verbatim>\<open>Scoping\<close>: the tenant-scoped querysets of \<^verbatim>\<open>core/managers.py\<close>.
  \<^item> \<^verbatim>\<open>UserAccounts\<close>, \<^verbatim>\<open>Workspaces\<close>: \<^verbatim>\<open>users/services.py\<close>: accounts made for an address (one per address for requests that do not
    overlap, the search for a username ends) and stored workspaces (a stored key resolves to what the user may select now).
  \<^item> \<^verbatim>\<open>TenantSession\<close>: \<^verbatim>\<open>itambox/middleware.py\<close>: from session, query and stored default to the scope of a request: always one the
    user's grants and memberships allow, the same on the next request, and the offered default when the session is new.
  \<^item> \<^verbatim>\<open>Access\<close>: \<^verbatim>\<open>organization/access.py\<close> and the validation of shares.  The access report against \<open>has_perm\<close>.
  \<^item> \<^verbatim>\<open>ExpiryRuns\<close>: \<^verbatim>\<open>organization/services/resource_grants.py\<close> and \<^verbatim>\<open>core/tasks/resource_grants.py\<close>; the
    steps of coordinators and workers on the run table are the relation \<open>run_step\<close>.
  \<^item> \<^verbatim>\<open>Stock\<close>: items, pools and assignments of \<^verbatim>\<open>inventory/models.py\<close> and its support modules; what saving and
    deleting an assignment does to the pools.
  \<^item> \<^verbatim>\<open>Checkout\<close>: the services of \<^verbatim>\<open>inventory/services.py\<close>.  Conservation of stock along every sequence of
    services (\<open>inventory_step\<close>), the grant behind a checkout from another tenant, return after checkout.
  \<^item> \<^verbatim>\<open>AssetData\<close>: the rows of assets, custody and procurement; \<open>estate\<close> adds their tables to the inventory.
  \<^item> \<^verbatim>\<open>AssetTags\<close>: \<^verbatim>\<open>assets/models/tagsequence.py\<close>; concurrent commits are functions on the sequence table
    that run between the steps of an allocation.
  \<^item> \<^verbatim>\<open>BookValue\<close>: \<^verbatim>\<open>assets/model_book_value.py\<close> with the 28-digit decimal context written out.
  \<^item> \<^verbatim>\<open>AssetLife\<close>: the state machine, validation and saving of \<^verbatim>\<open>assets/models/asset.py\<close>.
  \<^item> \<^verbatim>\<open>AssetServices\<close>: the services of \<^verbatim>\<open>assets/services/__init__.py\<close> on single assets, assignments, disposals,
    reservations, custody receipts.
  \<^item> \<^verbatim>\<open>AssetSafety\<close>, \<^verbatim>\<open>AssetInvariant\<close>: the lifecycle invariant (deployed iff assigned, disposed assets
    archived, one holder and one disposal per asset) and its preservation by each service and along every
    sequence of operations (\<open>estate_step\<close>).  Editing the type of a status label, deactivating an assignment
    through its API and clearing the status of a disposed asset are not among the steps.
  \<^item> \<^verbatim>\<open>AssetFlows\<close>, \<^verbatim>\<open>AssetReturn\<close>: single assets along sequences of operations: the state that deleting an
    active assignment leaves for good, and a checkout followed by its check-in.
  \<^item> \<^verbatim>\<open>Requests\<close>: \<open>AssetRequest\<close> of \<^verbatim>\<open>assets/models/requests.py\<close>, its review and cancellation in
    \<^verbatim>\<open>assets/views/request_views.py\<close>, the manual completion of \<^verbatim>\<open>assets/services/request_fulfillment.py\<close>.
  \<^item> \<^verbatim>\<open>Orders\<close>: \<^verbatim>\<open>procurement/services.py\<close>, from linking a request to receiving and cancelling the order.
  \<^item> \<^verbatim>\<open>PurchaseLines\<close>: lines added, edited, deleted and restored one by one, in \<^verbatim>\<open>procurement/views.py\<close> and through
    \<^verbatim>\<open>procurement/api\<close>, and orders archived and restored (\<^verbatim>\<open>procurement/archive_services.py\<close>).
  \<^item> \<^verbatim>\<open>FlowRelations\<close>: the locales \<open>review_relation\<close>, \<open>request_relation\<close>, \<open>flow_relation\<close> and \<open>order_relation\<close> show
    once, for every relation that the elementary saves respect, that all services of requests and orders
    respect it; they are interpreted on the frame relations that the next theories need.
  \<^item> \<^verbatim>\<open>RequestSafety\<close>: requests move along their transition table only (\<open>request_step\<close>).
  \<^item> \<^verbatim>\<open>OrderSafety\<close>: the life of an order along labelled runs (\<open>order_run\<close>), approval by a second person.
  \<^item> \<^verbatim>\<open>ReceiptBooking\<close>, \<^verbatim>\<open>ReceiptReplay\<close>: what a receipt books on lines, assets and stock, and that the same
    submission is never booked twice: it is refused after any run of services, and books nothing on the line when lines and
    orders are changed one by one in between as well (\<open>receipt_step\<close>).
  \<^item> \<^verbatim>\<open>OrderCancel\<close>: what a cancellation gives back, and when an order cannot be cancelled any more.

  State and effects.  A database is a record of tables; a model row is a record with the columns the
  code reads; a save replaces the row of its key.  Context variables, the shared cache and the
  memos of a \<open>User\<close> instance are explicit arguments and results.  Instants and primary keys are
  integers; Python integers do not overflow.  An exception is an \<open>Inl\<close> of an error type, an
  atomic block that raises returns the database it started with.

  Memos.  A \<open>User\<close> instance keeps what it has resolved, and an instance that outlives a grant can still answer from it
  (\<open>expired_permission_survives_in_map\<close>, \<open>expired_managed_reach_survives\<close> in \<^verbatim>\<open>Rbac\<close>).  The properties that need memos in which nothing
  has expired say so (\<open>memo_current\<close>, \<open>world_current\<close>); the memos of a fresh instance, as each request loads one, are of that kind.

  Bounds.  No definition carries fuel that could run out: the walks recurse on the number of groups
  not yet visited, the search for a username is a partial function that is shown to return, and every other
  loop of the code is structural recursion over the list it iterates over.

  Money is an exact rational, rounded where the code rounds.

  Not modelled: claims and bulk receipts of requests, the source location of a request, custom validators and custom field data of a save, audit log entries, outgoing mail, the
  32-bit bounds of database columns; forms, tables, views, serializers (those of request review and order lines apart), GraphQL, templates and routing; the
  content security policy and rate limit middlewares; the login protocols
  (LDAP, OIDC, SAML, WebAuthn); imports and seed data; the query compiler of Django (a queryset is the
  filtered table) and the task queue (deliveries arrive in any order and any number of times).
\<close>

end
